(* ===== verification/Prelude.thy ===== *)
theory Prelude
  imports Main "HOL-Library.List_Lexorder" "HOL-Library.Char_ord" "HOL-Library.Sublist"
begin

text \<open>
  The vocabulary shared by every theory of the development: errors as values, guard chains
  for the early returns of the Go code, Go strings as byte lists with the operations of the
  standard library package strings that the code uses, 64-bit arithmetic written out on
  integers, and the contract \<open>vocabulary\<close> of a closed string enumeration.
\<close>

section \<open>Results\<close>

text \<open>
  Every fallible Go function returns \<open>(value, error)\<close>; here a sum, with the error on the
  left. An error carries the class of the failure and the words that identify the site.
\<close>

datatype derror =
    EmptyField string
  | InvalidValue string string
  | OutOfRange string
  | BadState string
  | BadShape string
  | Wrapped string derror

type_synonym 'a result = "derror + 'a"

abbreviation Err :: "'e \<Rightarrow> 'e + 'a" where "Err \<equiv> Inl"
abbreviation Ok :: "'a \<Rightarrow> 'e + 'a" where "Ok \<equiv> Inr"

named_theorems result_simps "how results are taken apart"

text \<open>\<open>if cond { return err }\<close>, repeated: the first condition that holds decides.\<close>

fun guards :: "(bool \<times> 'e) list \<Rightarrow> 'e + 'a \<Rightarrow> 'e + 'a" where
  "guards [] r = r"
| "guards ((c, e) # gs) r = (if c then Err e else guards gs r)"

text \<open>\<open>x, err := f(); if err != nil { return err }\<close>.\<close>

definition rbind :: "'err + 'v \<Rightarrow> ('v \<Rightarrow> 'err + 'w) \<Rightarrow> 'err + 'w" where
  "rbind m f = (case m of Inl e \<Rightarrow> Err e | Inr a \<Rightarrow> f a)"

text \<open>\<open>fmt.Errorf("...: %w", err)\<close>: a failure passed on with its context.\<close>

definition wrap_err :: "string \<Rightarrow> 'a result \<Rightarrow> 'a result" where
  "wrap_err ctx m = (case m of Inl e \<Rightarrow> Err (Wrapped ctx e) | Inr a \<Rightarrow> Ok a)"

definition is_ok :: "'e + 'a \<Rightarrow> bool" where
  "is_ok m = (case m of Inl _ \<Rightarrow> False | Inr _ \<Rightarrow> True)"

text \<open>\<open>for _, x := range xs { if err := f(x); err != nil { return err } }\<close>.\<close>

fun each :: "('v \<Rightarrow> 'err + unit) \<Rightarrow> 'v list \<Rightarrow> 'err + unit" where
  "each f [] = Ok ()"
| "each f (x # xs) = (case f x of Inl e \<Rightarrow> Err e | Inr _ \<Rightarrow> each f xs)"

lemma each_cong [fundef_cong]:
  "xs = ys \<Longrightarrow> (\<And>x. x \<in> set ys \<Longrightarrow> f x = g x) \<Longrightarrow> each f xs = each g ys"
proof (induction ys arbitrary: xs)
  case Nil
  then show ?case by simp
next
  case (Cons y ys)
  then have "each f ys = each g ys" by auto
  with Cons.prems show ?case by (simp split: sum.split)
qed

lemma each_Ok_iff [result_simps]: "each f xs = Inr u \<longleftrightarrow> (\<forall>x\<in>set xs. f x = Ok ())"
  by (induction xs) (auto split: sum.splits)

lemma guards_Ok_iff [result_simps]:
  "guards gs r = Inr v \<longleftrightarrow> (\<forall>g\<in>set gs. \<not> fst g) \<and> r = Inr v"
  by (induction gs r rule: guards.induct) auto

lemma guards_pass: "(\<forall>g\<in>set gs. \<not> fst g) \<Longrightarrow> guards gs r = r"
  by (induction gs r rule: guards.induct) auto

lemma rbind_simps [simp]:
  "rbind (Inl e) f = Inl e"
  "rbind (Inr a) f = f a"
  by (simp_all add: rbind_def)

lemma rbind_Ok_iff [result_simps]:
  "rbind m f = Inr b \<longleftrightarrow> (\<exists>a. m = Inr a \<and> f a = Inr b)"
  by (cases m) auto

lemma rbind_Err_iff [result_simps]:
  "rbind m f = Inl e \<longleftrightarrow> m = Inl e \<or> (\<exists>a. m = Inr a \<and> f a = Inl e)"
  by (cases m) auto

lemma wrap_err_simps [simp]:
  "wrap_err ctx (Inl e) = Inl (Wrapped ctx e)"
  "wrap_err ctx (Inr a) = Inr a"
  by (simp_all add: wrap_err_def)

lemma wrap_err_Ok_iff [result_simps]: "wrap_err ctx m = Inr a \<longleftrightarrow> m = Inr a"
  by (cases m) auto

lemma if_Err_Ok_iff [result_simps]:
  "(if c then Inl e else r) = Inr v \<longleftrightarrow> \<not> c \<and> r = Inr v"
  by simp

lemma is_ok_simps [simp]: "is_ok (Inr a)" "\<not> is_ok (Inl e)"
  by (simp_all add: is_ok_def)

lemma is_ok_iff: "is_ok m \<longleftrightarrow> (\<exists>a. m = Inr a)"
  by (cases m) auto

lemma not_ok_iff: "\<not> is_ok m \<longleftrightarrow> (\<exists>e. m = Inl e)"
  by (cases m) auto

section \<open>Characters\<close>

text \<open>A Go string is a sequence of bytes; so is a HOL \<open>string\<close>.\<close>

definition is_digit :: "char \<Rightarrow> bool" where
  "is_digit c \<longleftrightarrow> CHR ''0'' \<le> c \<and> c \<le> CHR ''9''"

definition is_lower :: "char \<Rightarrow> bool" where
  "is_lower c \<longleftrightarrow> CHR ''a'' \<le> c \<and> c \<le> CHR ''z''"

definition is_upper :: "char \<Rightarrow> bool" where
  "is_upper c \<longleftrightarrow> CHR ''A'' \<le> c \<and> c \<le> CHR ''Z''"

definition byte_lower :: "char \<Rightarrow> char" where
  "byte_lower c = (if is_upper c then char_of (of_char c + 32 :: nat) else c)"

definition is_ascii :: "string \<Rightarrow> bool" where
  "is_ascii s \<longleftrightarrow> list_all (\<lambda>c. (of_char c :: nat) < 128) s"

definition all_digits :: "string \<Rightarrow> bool" where
  "all_digits s \<longleftrightarrow> s \<noteq> [] \<and> list_all is_digit s"

lemma char_le_nat: "(c :: char) \<le> d \<longleftrightarrow> (of_char c :: nat) \<le> of_char d"
  by (simp add: less_eq_char_def)

lemma char_less_nat: "(c :: char) < d \<longleftrightarrow> (of_char c :: nat) < of_char d"
  by (simp add: less_char_def)

lemma is_digit_nat: "is_digit c \<longleftrightarrow> 48 \<le> (of_char c :: nat) \<and> (of_char c :: nat) \<le> 57"
  by (simp add: is_digit_def char_le_nat)

lemma is_lower_nat: "is_lower c \<longleftrightarrow> 97 \<le> (of_char c :: nat) \<and> (of_char c :: nat) \<le> 122"
  by (simp add: is_lower_def char_le_nat)

lemma is_upper_nat: "is_upper c \<longleftrightarrow> 65 \<le> (of_char c :: nat) \<and> (of_char c :: nat) \<le> 90"
  by (simp add: is_upper_def char_le_nat)

lemmas char_class_nat = is_digit_nat is_lower_nat is_upper_nat

lemma of_byte_lower:
  "(of_char (byte_lower c) :: nat) = (if is_upper c then of_char c + 32 else of_char c)"
  by (simp add: byte_lower_def is_upper_nat)

lemma byte_lower_not_upper: "\<not> is_upper (byte_lower c)"
  by (auto simp: is_upper_nat of_byte_lower)

lemma byte_lower_idem [simp]: "byte_lower (byte_lower c) = byte_lower c"
  using byte_lower_not_upper [of c] by (simp add: byte_lower_def)

section \<open>Package strings\<close>

text \<open>
  \<open>strings.IndexByte\<close> and \<open>strings.LastIndexByte\<close> (the position, or none for -1),
  \<open>strings.IndexAny\<close> over a set of ASCII bytes, \<open>strings.TrimLeft\<close> of one byte.
\<close>

fun index_where :: "('a \<Rightarrow> bool) \<Rightarrow> 'a list \<Rightarrow> nat option" where
  "index_where p [] = None"
| "index_where p (x # xs) = (if p x then Some 0 else map_option Suc (index_where p xs))"

fun last_index_where :: "('a \<Rightarrow> bool) \<Rightarrow> 'a list \<Rightarrow> nat option" where
  "last_index_where p [] = None"
| "last_index_where p (x # xs) =
     (case last_index_where p xs of
        Some i \<Rightarrow> Some (Suc i)
      | None \<Rightarrow> (if p x then Some 0 else None))"

abbreviation index_byte :: "char \<Rightarrow> string \<Rightarrow> nat option" where
  "index_byte c s \<equiv> index_where (\<lambda>x. x = c) s"

abbreviation last_index_byte :: "char \<Rightarrow> string \<Rightarrow> nat option" where
  "last_index_byte c s \<equiv> last_index_where (\<lambda>x. x = c) s"

definition index_any :: "string \<Rightarrow> string \<Rightarrow> nat option" where
  "index_any cs s = index_where (\<lambda>x. x \<in> set cs) s"

definition trim_zeros :: "string \<Rightarrow> string" where
  "trim_zeros s = dropWhile (\<lambda>c. c = CHR ''0'') s"

text \<open>\<open>strings.Split\<close> at one separator byte, and \<open>strings.Join\<close>.\<close>

fun split_byte :: "char \<Rightarrow> string \<Rightarrow> string list" where
  "split_byte c [] = [[]]"
| "split_byte c (x # xs) =
     (if x = c then [] # split_byte c xs
      else (case split_byte c xs of [] \<Rightarrow> [[x]] | y # ys \<Rightarrow> (x # y) # ys))"

fun join_byte :: "char \<Rightarrow> string list \<Rightarrow> string" where
  "join_byte c [] = []"
| "join_byte c [x] = x"
| "join_byte c (x # xs) = x @ c # join_byte c xs"

text \<open>\<open>strings.FieldsFunc\<close>: the maximal runs of bytes that do not satisfy \<open>p\<close>.\<close>

fun fields_acc :: "(char \<Rightarrow> bool) \<Rightarrow> string \<Rightarrow> string \<Rightarrow> string list" where
  "fields_acc p cur [] = (if cur = [] then [] else [cur])"
| "fields_acc p cur (x # xs) =
     (if p x then (if cur = [] then fields_acc p [] xs else cur # fields_acc p [] xs)
      else fields_acc p (cur @ [x]) xs)"

definition fields_func :: "(char \<Rightarrow> bool) \<Rightarrow> string \<Rightarrow> string list" where
  "fields_func p s = fields_acc p [] s"

lemma index_where_None: "index_where p xs = None \<longleftrightarrow> (\<forall>x\<in>set xs. \<not> p x)"
  by (induction xs) auto

lemma index_where_Some:
  "index_where p xs = Some i \<Longrightarrow>
     i < length xs \<and> p (xs ! i) \<and> (\<forall>x\<in>set (take i xs). \<not> p x)"
proof (induction xs arbitrary: i)
  case Nil
  then show ?case by simp
next
  case (Cons x xs)
  then show ?case by (cases "p x") (auto split: option.splits)
qed

lemma last_index_where_None: "last_index_where p xs = None \<longleftrightarrow> (\<forall>x\<in>set xs. \<not> p x)"
  by (induction xs) (auto split: option.splits)

lemma last_index_where_Some:
  "last_index_where p xs = Some i \<Longrightarrow>
     i < length xs \<and> p (xs ! i) \<and> (\<forall>x\<in>set (drop (Suc i) xs). \<not> p x)"
proof (induction xs arbitrary: i)
  case Nil
  then show ?case by simp
next
  case (Cons x xs)
  then show ?case
    by (cases "last_index_where p xs") (auto simp: last_index_where_None split: if_splits)
qed

lemma take_nth_drop: "i < length xs \<Longrightarrow> take i xs @ xs ! i # drop (Suc i) xs = xs"
  by (simp add: id_take_nth_drop [symmetric])

lemma index_byte_split:
  "index_byte c s = Some i \<Longrightarrow> take i s @ c # drop (Suc i) s = s \<and> c \<notin> set (take i s)"
  using index_where_Some [of "\<lambda>x. x = c" s i] take_nth_drop [of i s] by auto

lemma last_index_byte_split:
  "last_index_byte c s = Some i \<Longrightarrow>
     take i s @ c # drop (Suc i) s = s \<and> c \<notin> set (drop (Suc i) s)"
  using last_index_where_Some [of "\<lambda>x. x = c" s i] take_nth_drop [of i s] by auto

lemma index_byte_append:
  "c \<notin> set a \<Longrightarrow> index_byte c (a @ c # b) = Some (length a)"
  by (induction a) auto

lemma last_index_byte_append:
  "c \<notin> set b \<Longrightarrow> last_index_byte c (a @ c # b) = Some (length a)"
proof (induction a)
  case Nil
  then have "last_index_byte c b = None" by (auto simp: last_index_where_None)
  then show ?case by simp
next
  case (Cons x a)
  then show ?case by simp
qed

lemma last_index_byte_absent [simp]: "c \<notin> set s \<Longrightarrow> last_index_byte c s = None"
  by (auto simp: last_index_where_None)

lemma index_byte_absent [simp]: "c \<notin> set s \<Longrightarrow> index_byte c s = None"
  by (auto simp: index_where_None)

lemma split_byte_nonempty [simp]: "split_byte c s \<noteq> []"
  by (induction s) (auto split: list.splits)

lemma join_split [simp]: "join_byte c (split_byte c s) = s"
proof (induction s)
  case Nil
  then show ?case by simp
next
  case (Cons x s)
  obtain y ys where sp: "split_byte c s = y # ys"
    using split_byte_nonempty [of c s] by (cases "split_byte c s") auto
  with Cons show ?case by (cases ys) auto
qed

lemma split_no_sep: "c \<notin> set s \<Longrightarrow> split_byte c s = [s]"
  by (induction s) auto

lemma split_append_sep:
  "c \<notin> set a \<Longrightarrow> split_byte c (a @ c # b) = a # split_byte c b"
  by (induction a) auto

lemma split_join:
  "xs \<noteq> [] \<Longrightarrow> (\<forall>x\<in>set xs. c \<notin> set x) \<Longrightarrow> split_byte c (join_byte c xs) = xs"
  by (induction c xs rule: join_byte.induct) (auto simp: split_no_sep split_append_sep)

lemma split_parts_no_sep: "x \<in> set (split_byte c s) \<Longrightarrow> c \<notin> set x"
proof (induction s arbitrary: x)
  case Nil
  then show ?case by simp
next
  case (Cons a s)
  then show ?case by (auto split: if_splits list.splits)
qed

lemma trim_zeros_idem [simp]: "trim_zeros (trim_zeros s) = trim_zeros s"
  by (simp add: trim_zeros_def)

lemma set_trim_zeros: "set (trim_zeros s) \<subseteq> set s"
  by (auto simp: trim_zeros_def dest: set_dropWhileD)

section \<open>Trimming and folding\<close>

text \<open>
  \<open>strings.TrimSpace\<close> removes the 25 code points of the Unicode White\_Space property from
  both ends. A code point is at an end of the string exactly when its UTF-8 encoding is, so
  the function is modelled on bytes, for every string.
\<close>

definition space_seqs :: "string list" where
  "space_seqs =
     [[CHR 0x09], [CHR 0x0A], [CHR 0x0B], [CHR 0x0C], [CHR 0x0D], [CHR 0x20],
      [CHR 0xC2, CHR 0x85], [CHR 0xC2, CHR 0xA0], [CHR 0xE1, CHR 0x9A, CHR 0x80],
      [CHR 0xE2, CHR 0x80, CHR 0x80], [CHR 0xE2, CHR 0x80, CHR 0x81],
      [CHR 0xE2, CHR 0x80, CHR 0x82], [CHR 0xE2, CHR 0x80, CHR 0x83],
      [CHR 0xE2, CHR 0x80, CHR 0x84], [CHR 0xE2, CHR 0x80, CHR 0x85],
      [CHR 0xE2, CHR 0x80, CHR 0x86], [CHR 0xE2, CHR 0x80, CHR 0x87],
      [CHR 0xE2, CHR 0x80, CHR 0x88], [CHR 0xE2, CHR 0x80, CHR 0x89],
      [CHR 0xE2, CHR 0x80, CHR 0x8A], [CHR 0xE2, CHR 0x80, CHR 0xA8],
      [CHR 0xE2, CHR 0x80, CHR 0xA9], [CHR 0xE2, CHR 0x80, CHR 0xAF],
      [CHR 0xE2, CHR 0x81, CHR 0x9F], [CHR 0xE3, CHR 0x80, CHR 0x80]]"

text \<open>Strip leading blocks out of \<open>seqs\<close> as long as one is there.\<close>

function strip :: "string list \<Rightarrow> string \<Rightarrow> string" where
  "strip seqs s =
     (case find (\<lambda>p. p \<noteq> [] \<and> take (length p) s = p) seqs of
        None \<Rightarrow> s
      | Some p \<Rightarrow> strip seqs (drop (length p) s))"
  by pat_completeness auto
termination
proof (relation "measure (\<lambda>(seqs, s). length s)", goal_cases)
  case 1
  then show ?case by simp
next
  case (2 seqs s p)
  then have "p \<noteq> []" "take (length p) s = p"
    by (auto simp: find_Some_iff)
  then show ?case by (cases s) auto
qed

declare strip.simps [simp del]

definition trim_left :: "string \<Rightarrow> string" where
  "trim_left s = strip space_seqs s"

definition trim_right :: "string \<Rightarrow> string" where
  "trim_right s = rev (strip (map rev space_seqs) (rev s))"

definition trim_space :: "string \<Rightarrow> string" where
  "trim_space s = trim_right (trim_left s)"

text \<open>
  The data of the Unicode standard that the library consults beyond ASCII, and the NFKC
  normaliser of the module golang.org/x/text, are parameters: \<open>uni_lower\<close> is what
  \<open>strings.ToLower\<close> does to the non-ASCII runes of a string that has some (the library has a
  path of its own for ASCII strings; ASCII letters are lowered in both), \<open>uni_words\<close> the
  letter-or-digit runs of such a string and \<open>nfkc\<close> the normaliser.
\<close>

record unicode =
  uni_lower :: "string \<Rightarrow> string"
  uni_words :: "string \<Rightarrow> string list"
  nfkc :: "string \<Rightarrow> string"

definition to_lower :: "unicode \<Rightarrow> string \<Rightarrow> string" where
  "to_lower U s = (if is_ascii s then map byte_lower s else map byte_lower (uni_lower U s))"

text \<open>NFKC leaves ASCII text alone: documented by the Unicode standard (UAX 15).\<close>

definition nfkc_ascii :: "unicode \<Rightarrow> bool" where
  "nfkc_ascii U \<longleftrightarrow> (\<forall>s. is_ascii s \<longrightarrow> nfkc U s = s)"

text \<open>A concrete instance for witnesses: nothing beyond ASCII is changed.\<close>

definition plain_unicode :: unicode where
  "plain_unicode = \<lparr>uni_lower = id, uni_words = (\<lambda>s. [s]), nfkc = id\<rparr>"

lemma nfkc_ascii_plain [simp]: "nfkc_ascii plain_unicode"
  by (simp add: nfkc_ascii_def plain_unicode_def)

lemma strip_stop:
  "(\<forall>p\<in>set seqs. p \<noteq> [] \<longrightarrow> \<not> prefix p s) \<Longrightarrow> strip seqs s = s"
proof -
  assume a: "\<forall>p\<in>set seqs. p \<noteq> [] \<longrightarrow> \<not> prefix p s"
  have "find (\<lambda>p. p \<noteq> [] \<and> take (length p) s = p) seqs = None"
    using a by (auto simp: find_None_iff) (metis take_is_prefix)
  then show ?thesis by (subst strip.simps) simp
qed

lemma strip_no_prefix: "p \<in> set seqs \<Longrightarrow> p \<noteq> [] \<Longrightarrow> \<not> prefix p (strip seqs s)"
proof (induction seqs s rule: strip.induct)
  case (1 seqs s)
  show ?case
  proof (cases "find (\<lambda>p. p \<noteq> [] \<and> take (length p) s = p) seqs")
    case None
    then have "\<not> (p \<noteq> [] \<and> take (length p) s = p)"
      using "1.prems" by (auto simp: find_None_iff)
    then have "\<not> prefix p s"
      using "1.prems" by (auto simp: prefix_def)
    moreover have "strip seqs s = s" by (subst strip.simps) (simp add: None)
    ultimately show ?thesis by simp
  next
    case (Some q)
    with "1.IH" "1.prems" have "\<not> prefix p (strip seqs (drop (length q) s))" by simp
    then show ?thesis by (subst strip.simps) (simp add: Some)
  qed
qed

lemma strip_suffix: "suffix (strip seqs s) s"
proof (induction seqs s rule: strip.induct)
  case (1 seqs s)
  show ?case
  proof (cases "find (\<lambda>p. p \<noteq> [] \<and> take (length p) s = p) seqs")
    case None
    then show ?thesis by (subst strip.simps) simp
  next
    case (Some q)
    with "1.IH" have "suffix (strip seqs (drop (length q) s)) (drop (length q) s)" by simp
    then have "suffix (strip seqs (drop (length q) s)) s"
      using suffix_drop suffix_order.trans by blast
    then show ?thesis by (subst strip.simps) (simp add: Some)
  qed
qed

lemma space_seqs_nonempty: "p \<in> set space_seqs \<Longrightarrow> p \<noteq> []"
  by (auto simp: space_seqs_def)

lemma trim_right_prefix: "prefix (trim_right s) s"
  using strip_suffix [of "map rev space_seqs" "rev s"]
  by (simp add: trim_right_def suffix_to_prefix)

lemma trim_left_stable:
  "(\<And>p. p \<in> set space_seqs \<Longrightarrow> \<not> prefix p s) \<Longrightarrow> trim_left s = s"
  by (simp add: trim_left_def strip_stop)

lemma trim_right_idem: "trim_right (trim_right s) = trim_right s"
proof -
  have "strip (map rev space_seqs) (strip (map rev space_seqs) (rev s)) =
      strip (map rev space_seqs) (rev s)"
    by (rule strip_stop) (auto simp: strip_no_prefix)
  then show ?thesis by (simp add: trim_right_def)
qed

lemma trim_space_no_leading: "p \<in> set space_seqs \<Longrightarrow> \<not> prefix p (trim_space s)"
  using strip_no_prefix [of p space_seqs s] space_seqs_nonempty [of p]
    trim_right_prefix [of "trim_left s"]
  by (metis prefix_order.trans trim_left_def trim_space_def)

lemma trim_space_idem [simp]: "trim_space (trim_space s) = trim_space s"
  by (metis trim_left_stable trim_right_idem trim_space_def trim_space_no_leading)

lemma set_trim_space: "set (trim_space s) \<subseteq> set s"
proof -
  have "set (trim_right (trim_left s)) \<subseteq> set (trim_left s)"
    using trim_right_prefix set_mono_prefix by blast
  moreover have "set (trim_left s) \<subseteq> set s"
    unfolding trim_left_def using strip_suffix set_mono_suffix by blast
  ultimately show ?thesis by (simp add: trim_space_def)
qed

lemma is_ascii_trim: "is_ascii s \<Longrightarrow> is_ascii (trim_space s)"
  using set_trim_space [of s] by (auto simp: is_ascii_def list_all_iff)

lemma is_ascii_map_lower: "is_ascii s \<Longrightarrow> is_ascii (map byte_lower s)"
  by (auto simp: is_ascii_def list_all_iff of_byte_lower is_upper_nat)

lemma to_lower_ascii: "is_ascii s \<Longrightarrow> to_lower U s = map byte_lower s"
  by (simp add: to_lower_def)

lemma to_lower_no_upper: "c \<in> set (to_lower U s) \<Longrightarrow> \<not> is_upper c"
  by (auto simp: to_lower_def byte_lower_not_upper split: if_splits)

lemma to_lower_ascii_idem: "is_ascii s \<Longrightarrow> to_lower U (to_lower U s) = to_lower U s"
  by (simp add: to_lower_ascii is_ascii_map_lower)

lemma trim_space_plain:
  assumes "list_all (\<lambda>c. 32 < (of_char c :: nat) \<and> (of_char c :: nat) < 128) s"
  shows "trim_space s = s"
proof -
  have bad: "\<exists>c\<in>set p. \<not> (32 < (of_char c :: nat) \<and> (of_char c :: nat) < 128)" if "p \<in> set space_seqs" for p
    using that by (auto simp: space_seqs_def)
  have no: "\<not> set p \<subseteq> set s" if "p \<in> set space_seqs" for p
    using bad [OF that] assms by (auto simp: list_all_iff)
  have "trim_left s = s"
    using no set_mono_prefix by (intro trim_left_stable) blast
  moreover have "trim_right s = s"
  proof -
    have "\<not> prefix (rev p) (rev s)" if "p \<in> set space_seqs" for p
      using no [OF that] set_mono_prefix [of "rev p" "rev s"] by auto
    then have "strip (map rev space_seqs) (rev s) = rev s" by (intro strip_stop) auto
    then show ?thesis by (simp add: trim_right_def)
  qed
  ultimately show ?thesis by (simp add: trim_space_def)
qed

lemma trim_space_Nil [simp]: "trim_space [] = []"
proof -
  have "strip seqs [] = []" for seqs
    by (rule strip_stop) auto
  then show ?thesis by (simp add: trim_space_def trim_left_def trim_right_def)
qed

section \<open>Integers of 64 bits\<close>

text \<open>
  Go's \<open>int\<close>, \<open>int64\<close> and \<open>time.Duration\<close> have 64 bits: arithmetic wraps,
  \<open>time.Time.Sub\<close> saturates, division truncates towards zero.
\<close>

definition wrap64 :: "int \<Rightarrow> int" where
  "wrap64 x = (x + 2 ^ 63) mod 2 ^ 64 - 2 ^ 63"

definition sat64 :: "int \<Rightarrow> int" where
  "sat64 x = max (- (2 ^ 63)) (min (2 ^ 63 - 1) x)"

lemma wrap64_id: "- (2 ^ 63) \<le> x \<Longrightarrow> x < 2 ^ 63 \<Longrightarrow> wrap64 x = x"
  by (simp add: wrap64_def)

lemma sat64_id: "- (2 ^ 63) \<le> x \<Longrightarrow> x < 2 ^ 63 \<Longrightarrow> sat64 x = x"
  by (simp add: sat64_def)

section \<open>Package time\<close>

text \<open>
  An instant is the number of nanoseconds since the zero \<open>time.Time\<close> (January 1, year 1),
  so \<open>IsZero\<close> is being 0; a \<open>time.Duration\<close> is a 64-bit number of nanoseconds.
\<close>

type_synonym time = int
type_synonym duration = int

definition trunc_div :: "duration \<Rightarrow> duration \<Rightarrow> duration" where
  "trunc_div m n = (if (m < 0) = (n < 0) then int (nat \<bar>m\<bar> div nat \<bar>n\<bar>) else - int (nat \<bar>m\<bar> div nat \<bar>n\<bar>))"

lemma trunc_div_nonneg: "0 \<le> a \<Longrightarrow> 0 < b \<Longrightarrow> trunc_div a b = a div b"
  by (simp add: trunc_div_def zdiv_int)

definition time_IsZero :: "time \<Rightarrow> bool" where
  "time_IsZero t \<longleftrightarrow> t = 0"

definition time_Before :: "time \<Rightarrow> time \<Rightarrow> bool" where
  "time_Before t u \<longleftrightarrow> t < u"

definition time_After :: "time \<Rightarrow> time \<Rightarrow> bool" where
  "time_After t u \<longleftrightarrow> u < t"

definition time_Add :: "time \<Rightarrow> duration \<Rightarrow> time" where
  "time_Add t d = t + d"

definition time_Sub :: "time \<Rightarrow> time \<Rightarrow> duration" where
  "time_Sub t u = sat64 (t - u)"

definition dur_mul :: "duration \<Rightarrow> duration \<Rightarrow> duration" where
  "dur_mul a b = wrap64 (a * b)"

definition time_Second :: duration where "time_Second = 1000000000"
definition time_Minute :: duration where "time_Minute = 60 * time_Second"
definition time_Hour :: duration where "time_Hour = 60 * time_Minute"

lemmas time_defs = time_IsZero_def time_Before_def time_After_def time_Add_def time_Sub_def

section \<open>Decimal strings\<close>

definition digit_val :: "char \<Rightarrow> nat" where
  "digit_val c = of_char c - 48"

definition digits_val :: "string \<Rightarrow> nat" where
  "digits_val s = foldl (\<lambda>n c. n * 10 + digit_val c) 0 s"

text \<open>\<open>strconv.Itoa\<close>, and the zero padding of \<open>fmt.Sprintf\<close>'s \<open>%0*d\<close>.\<close>

fun itoa :: "nat \<Rightarrow> string" where
  "itoa n = (if n < 10 then [char_of (48 + n)] else itoa (n div 10) @ [char_of (48 + n mod 10)])"

declare itoa.simps [simp del]

definition pad_zeros :: "nat \<Rightarrow> string \<Rightarrow> string" where
  "pad_zeros w s = replicate (w - length s) CHR ''0'' @ s"

lemma foldl_digits:
  "foldl (\<lambda>n c. n * 10 + digit_val c) a s = a * 10 ^ length s + digits_val s"
proof (induction s arbitrary: a)
  case Nil
  then show ?case by (simp add: digits_val_def)
next
  case (Cons c s)
  have "foldl (\<lambda>n c. n * 10 + digit_val c) a (c # s) = (a * 10 + digit_val c) * 10 ^ length s + digits_val s"
    using Cons.IH [of "a * 10 + digit_val c"] by simp
  moreover have "digits_val (c # s) = digit_val c * 10 ^ length s + digits_val s"
    using Cons.IH [of "digit_val c"] by (simp add: digits_val_def)
  ultimately show ?case by (simp add: algebra_simps)
qed

lemma digits_val_Nil [simp]: "digits_val [] = 0"
  by (simp add: digits_val_def)

lemma digits_val_Cons: "digits_val (c # s) = digit_val c * 10 ^ length s + digits_val s"
  using foldl_digits [of "digit_val c" s] by (simp add: digits_val_def)

lemma digits_val_append: "digits_val (s @ t) = digits_val s * 10 ^ length t + digits_val t"
  using foldl_digits [of "digits_val s" t] by (simp add: digits_val_def)

lemma digits_val_zeros [simp]: "digits_val (replicate k CHR ''0'' @ s) = digits_val s"
  by (induction k) (simp_all add: digits_val_Cons digit_val_def)

lemma digit_val_le: "is_digit c \<Longrightarrow> digit_val c \<le> 9"
  by (auto simp: digit_val_def is_digit_nat)

lemma digit_val_less_iff:
  "is_digit c \<Longrightarrow> is_digit d \<Longrightarrow> digit_val c < digit_val d \<longleftrightarrow> c < d"
  by (auto simp: digit_val_def is_digit_nat char_less_nat)

lemma digit_val_inj: "is_digit c \<Longrightarrow> is_digit d \<Longrightarrow> digit_val c = digit_val d \<Longrightarrow> c = d"
  by (metis digit_val_less_iff less_irrefl linorder_less_linear)

lemma digits_val_bound: "list_all is_digit s \<Longrightarrow> digits_val s < 10 ^ length s"
proof (induction s)
  case Nil
  then show ?case by simp
next
  case (Cons c s)
  then have "digit_val c \<le> 9" "digits_val s < 10 ^ length s"
    by (auto intro: digit_val_le)
  moreover from this have "digit_val c * 10 ^ length s \<le> 9 * 10 ^ length s" by simp
  ultimately have "digit_val c * 10 ^ length s + digits_val s < 10 * 10 ^ length s" by linarith
  then show ?case by (simp add: digits_val_Cons)
qed

text \<open>Equally long digit strings: byte order is numeric order.\<close>

lemma digits_less_iff:
  "length s = length t \<Longrightarrow> list_all is_digit s \<Longrightarrow> list_all is_digit t \<Longrightarrow>
     s < t \<longleftrightarrow> digits_val s < digits_val t"
proof (induction s t rule: list_induct2)
  case Nil
  then show ?case by simp
next
  case (Cons c s d t)
  let ?P = "10 ^ length t :: nat"
  have b: "digits_val s < ?P" "digits_val t < ?P"
    using Cons.prems Cons.hyps digits_val_bound [of s] digits_val_bound [of t] by auto
  have cd: "is_digit c" "is_digit d" using Cons.prems by auto
  consider "c < d" | "c = d" | "d < c" by fastforce
  then show ?case
  proof cases
    case 1
    then have "digit_val c + 1 \<le> digit_val d" using digit_val_less_iff [OF cd] by simp
    then have "(digit_val c + 1) * ?P \<le> digit_val d * ?P" by (rule mult_right_mono) simp
    then show ?thesis using b 1 Cons.hyps by (simp add: digits_val_Cons)
  next
    case 2
    then show ?thesis using Cons by (simp add: digits_val_Cons)
  next
    case 3
    then have "digit_val d + 1 \<le> digit_val c" using digit_val_less_iff [OF cd(2,1)] by simp
    then have "(digit_val d + 1) * ?P \<le> digit_val c * ?P" by (rule mult_right_mono) simp
    then show ?thesis using b 3 Cons.hyps by (auto simp: digits_val_Cons)
  qed
qed

lemma digits_eq_iff:
  "length s = length t \<Longrightarrow> list_all is_digit s \<Longrightarrow> list_all is_digit t \<Longrightarrow>
     s = t \<longleftrightarrow> digits_val s = digits_val t"
  by (metis digits_less_iff less_irrefl linorder_less_linear)

lemma digits_shorter_less:
  assumes "length s < length t" "list_all is_digit s" "list_all is_digit t" "t \<noteq> []" "hd t \<noteq> CHR ''0''"
  shows "digits_val s < digits_val t"
proof -
  obtain c u where t: "t = c # u" using assms(4) by (cases t) auto
  then have "is_digit c" "c \<noteq> CHR ''0''" using assms by auto
  then have "1 \<le> digit_val c"
    using digit_val_inj [of c "CHR ''0''"] by (cases "digit_val c") (auto simp: digit_val_def is_digit_def)
  then have "10 ^ length u \<le> digits_val t" by (simp add: t digits_val_Cons trans_le_add1)
  moreover have "digits_val s < 10 ^ length s" using assms(2) by (rule digits_val_bound)
  moreover have "(10::nat) ^ length s \<le> 10 ^ length u" using assms(1) t by (intro power_increasing) auto
  ultimately show ?thesis by linarith
qed

lemma trim_zeros_props:
  assumes "list_all is_digit s"
  shows "list_all is_digit (trim_zeros s)" "digits_val (trim_zeros s) = digits_val s"
    "trim_zeros s \<noteq> [] \<Longrightarrow> hd (trim_zeros s) \<noteq> CHR ''0''"
proof -
  show "list_all is_digit (trim_zeros s)"
    using assms set_trim_zeros [of s] by (auto simp: list_all_iff)
  show "digits_val (trim_zeros s) = digits_val s"
    by (induction s) (auto simp: trim_zeros_def digits_val_Cons digit_val_def)
  show "trim_zeros s \<noteq> [] \<Longrightarrow> hd (trim_zeros s) \<noteq> CHR ''0''"
    unfolding trim_zeros_def by (meson hd_dropWhile)
qed

lemma is_digit_char_of: "n < 10 \<Longrightarrow> is_digit (char_of (48 + n)) \<and> digit_val (char_of (48 + n)) = n"
  by (simp add: is_digit_nat digit_val_def)

lemma itoa_digits: "all_digits (itoa n)"
proof (induction n rule: itoa.induct)
  case (1 n)
  then show ?case
    by (subst itoa.simps) (auto simp: all_digits_def is_digit_char_of)
qed

lemma itoa_val [simp]: "digits_val (itoa n) = n"
proof (induction n rule: itoa.induct)
  case (1 n)
  then show ?case
    by (subst itoa.simps) (auto simp: digits_val_Cons digits_val_append is_digit_char_of)
qed

lemma itoa_inj: "itoa m = itoa n \<Longrightarrow> m = n"
  by (metis itoa_val)

lemma itoa_length: "n < 10 ^ k \<Longrightarrow> 0 < k \<Longrightarrow> length (itoa n) \<le> k"
proof (induction n arbitrary: k rule: itoa.induct)
  case (1 n)
  show ?case
  proof (cases "n < 10")
    case True
    with "1.prems" show ?thesis by (subst itoa.simps) simp
  next
    case False
    then obtain j where k: "k = Suc j" "0 < j"
      using "1.prems" by (cases k; cases "k - 1") auto
    then have "n div 10 < 10 ^ j" using "1.prems" by (simp add: less_mult_imp_div_less mult.commute)
    with "1.IH" False k show ?thesis by (subst itoa.simps) simp
  qed
qed

lemma itoa_nonempty: "itoa n \<noteq> []"
  using itoa_digits [of n] by (simp add: all_digits_def)

lemma itoa_0: "itoa 0 = ''0''"
  by code_simp

lemma itoa_no_zero: "n > 0 \<Longrightarrow> hd (itoa n) \<noteq> CHR ''0''"
proof (induction n rule: itoa.induct)
  case (1 n)
  show ?case
  proof (cases "n < 10")
    case True
    have "digit_val (char_of (48 + n)) = n" using True by (simp add: is_digit_char_of)
    moreover have "digit_val CHR ''0'' = 0" by code_simp
    ultimately show ?thesis using "1.prems" True by (subst itoa.simps) auto
  next
    case False
    with 1 show ?thesis by (subst itoa.simps) (simp add: itoa_nonempty)
  qed
qed

lemma pad_zeros_props:
  "digits_val (pad_zeros w (itoa n)) = n"
  "list_all is_digit (pad_zeros w (itoa n))"
  using itoa_digits [of n] by (auto simp: pad_zeros_def all_digits_def list_all_iff is_digit_def)

lemma pad_zeros_length: "n < 10 ^ w \<Longrightarrow> 0 < w \<Longrightarrow> length (pad_zeros w (itoa n)) = w"
  using itoa_length [of n w] by (simp add: pad_zeros_def)

section \<open>Closed vocabularies\<close>

text \<open>
  The code's enumerations are Go string types with a fixed set of constants. Each is modelled
  by a datatype with one constructor per constant and one for every other string, a conversion
  \<open>T(s)\<close> from strings, a conversion \<open>string(v)\<close> back, \<open>Valid\<close> and a parser. The
  contract they share, and what follows from it:
\<close>

locale vocabulary_base =
  fixes conv :: "string \<Rightarrow> 'v"
    and str :: "'v \<Rightarrow> string"
    and valid :: "'v \<Rightarrow> bool"
  assumes str_conv: "str (conv s) = s"
    and conv_str: "valid v \<Longrightarrow> conv (str v) = v"
begin

lemma str_inj: "valid v \<Longrightarrow> valid w \<Longrightarrow> str v = str w \<longleftrightarrow> v = w"
  by (metis conv_str)

lemma conv_inj: "conv s = conv t \<longleftrightarrow> s = t"
  by (metis str_conv)

end

locale vocabulary = vocabulary_base conv str valid
  for conv :: "string \<Rightarrow> 'v" and str :: "'v \<Rightarrow> string" and valid :: "'v \<Rightarrow> bool" +
  fixes parse :: "string \<Rightarrow> 'v result"
    and type_name :: string
  assumes parse_conv: "parse s = (if \<not> valid (conv s) then Err (InvalidValue type_name s) else Ok (conv s))"
begin

lemma parse_str: "valid v \<Longrightarrow> parse (str v) = Ok v"
  by (simp add: parse_conv conv_str)

lemma parse_Ok_iff: "parse s = Ok v \<longleftrightarrow> valid v \<and> str v = s"
  using str_conv [of s] conv_str [of v] by (auto simp: parse_conv)

lemma parse_Err: "\<not> is_ok (parse s) \<longleftrightarrow> parse s = Err (InvalidValue type_name s)"
  by (auto simp: parse_conv)

lemma parse_inj: "parse s = Ok v \<Longrightarrow> parse t = Ok v \<Longrightarrow> s = t"
  by (auto simp: parse_Ok_iff)

lemma is_ok_parse: "is_ok (parse s) \<longleftrightarrow> (\<exists>v. valid v \<and> str v = s)"
  by (auto simp: is_ok_iff parse_Ok_iff)

end

end
