(* ===== verification/Vocabulary.thy ===== *)
theory Vocabulary
  imports Prelude
begin

text \<open>
  The controlled vocabularies of internal/domain. Each Go type is a string type with the
  constants listed in its const block; the datatype has one constructor per constant, in the
  source's order, and one \<open>Other\<close> constructor for every other string (the zero value
  included). \<open>to_T s\<close> is the conversion \<open>T(s)\<close>, \<open>T_str v\<close> is \<open>string(v)\<close>,
  \<open>T_Valid\<close> the method \<open>Valid\<close> and \<open>ParseT\<close> the parser. Each type interprets the
  contract \<open>vocabulary\<close> of the prelude (or its part without a parser, where the code has
  none), so that the round trips are available as \<open>T.parse_str\<close> and so on.
\<close>

section \<open>AssetType\<close>

datatype AssetType =
    AssetTypeServerVM
  | AssetTypeApplicationFramework
  | AssetTypeContainerImage
  | AssetTypeNetworkSecurity
  | AssetTypeCloudSaaS
  | OtherAssetType string

definition to_AssetType :: "string \<Rightarrow> AssetType" where
  "to_AssetType s =
    (if s = ''server_vm'' then AssetTypeServerVM
     else if s = ''application_framework'' then AssetTypeApplicationFramework
     else if s = ''container_image'' then AssetTypeContainerImage
     else if s = ''network_security'' then AssetTypeNetworkSecurity
     else if s = ''cloud_saas'' then AssetTypeCloudSaaS
     else OtherAssetType s)"

fun AssetType_str :: "AssetType \<Rightarrow> string" where
  "AssetType_str AssetTypeServerVM = ''server_vm''"
| "AssetType_str AssetTypeApplicationFramework = ''application_framework''"
| "AssetType_str AssetTypeContainerImage = ''container_image''"
| "AssetType_str AssetTypeNetworkSecurity = ''network_security''"
| "AssetType_str AssetTypeCloudSaaS = ''cloud_saas''"
| "AssetType_str (OtherAssetType s) = s"

fun AssetType_Valid :: "AssetType \<Rightarrow> bool" where
  "AssetType_Valid AssetTypeServerVM = True"
| "AssetType_Valid AssetTypeApplicationFramework = True"
| "AssetType_Valid AssetTypeContainerImage = True"
| "AssetType_Valid AssetTypeNetworkSecurity = True"
| "AssetType_Valid AssetTypeCloudSaaS = True"
| "AssetType_Valid (OtherAssetType s) = False"

definition ParseAssetType :: "string \<Rightarrow> AssetType result" where
  "ParseAssetType s = (let v = to_AssetType s in
     if \<not> AssetType_Valid v then Err (InvalidValue ''AssetType'' s) else Ok v)"

interpretation AssetType: vocabulary to_AssetType AssetType_str AssetType_Valid ParseAssetType "''AssetType''"
proof
  show "AssetType_str (to_AssetType s) = s" for s by (simp add: to_AssetType_def)
  show "AssetType_Valid v \<Longrightarrow> to_AssetType (AssetType_str v) = v" for v
    by (cases v) (simp_all add: to_AssetType_def)
  show "ParseAssetType s = (if \<not> AssetType_Valid (to_AssetType s) then Err (InvalidValue ''AssetType'' s) else Ok (to_AssetType s))" for s
    by (simp add: ParseAssetType_def)
qed

section \<open>Environment\<close>

datatype Environment =
    EnvironmentProduction
  | EnvironmentStaging
  | EnvironmentTest
  | EnvironmentDevelopment
  | EnvironmentUnknown
  | OtherEnvironment string

definition to_Environment :: "string \<Rightarrow> Environment" where
  "to_Environment s =
    (if s = ''production'' then EnvironmentProduction
     else if s = ''staging'' then EnvironmentStaging
     else if s = ''test'' then EnvironmentTest
     else if s = ''development'' then EnvironmentDevelopment
     else if s = ''unknown'' then EnvironmentUnknown
     else OtherEnvironment s)"

fun Environment_str :: "Environment \<Rightarrow> string" where
  "Environment_str EnvironmentProduction = ''production''"
| "Environment_str EnvironmentStaging = ''staging''"
| "Environment_str EnvironmentTest = ''test''"
| "Environment_str EnvironmentDevelopment = ''development''"
| "Environment_str EnvironmentUnknown = ''unknown''"
| "Environment_str (OtherEnvironment s) = s"

fun Environment_Valid :: "Environment \<Rightarrow> bool" where
  "Environment_Valid EnvironmentProduction = True"
| "Environment_Valid EnvironmentStaging = True"
| "Environment_Valid EnvironmentTest = True"
| "Environment_Valid EnvironmentDevelopment = True"
| "Environment_Valid EnvironmentUnknown = True"
| "Environment_Valid (OtherEnvironment s) = False"

definition ParseEnvironment :: "string \<Rightarrow> Environment result" where
  "ParseEnvironment s = (let v = to_Environment s in
     if \<not> Environment_Valid v then Err (InvalidValue ''Environment'' s) else Ok v)"

interpretation Environment: vocabulary to_Environment Environment_str Environment_Valid ParseEnvironment "''Environment''"
proof
  show "Environment_str (to_Environment s) = s" for s by (simp add: to_Environment_def)
  show "Environment_Valid v \<Longrightarrow> to_Environment (Environment_str v) = v" for v
    by (cases v) (simp_all add: to_Environment_def)
  show "ParseEnvironment s = (if \<not> Environment_Valid (to_Environment s) then Err (InvalidValue ''Environment'' s) else Ok (to_Environment s))" for s
    by (simp add: ParseEnvironment_def)
qed

section \<open>Criticality\<close>

datatype Criticality =
    CriticalityCritical
  | CriticalityHigh
  | CriticalityNormal
  | CriticalityLow
  | CriticalityUnknown
  | OtherCriticality string

definition to_Criticality :: "string \<Rightarrow> Criticality" where
  "to_Criticality s =
    (if s = ''critical'' then CriticalityCritical
     else if s = ''high'' then CriticalityHigh
     else if s = ''normal'' then CriticalityNormal
     else if s = ''low'' then CriticalityLow
     else if s = ''unknown'' then CriticalityUnknown
     else OtherCriticality s)"

fun Criticality_str :: "Criticality \<Rightarrow> string" where
  "Criticality_str CriticalityCritical = ''critical''"
| "Criticality_str CriticalityHigh = ''high''"
| "Criticality_str CriticalityNormal = ''normal''"
| "Criticality_str CriticalityLow = ''low''"
| "Criticality_str CriticalityUnknown = ''unknown''"
| "Criticality_str (OtherCriticality s) = s"

fun Criticality_Valid :: "Criticality \<Rightarrow> bool" where
  "Criticality_Valid CriticalityCritical = True"
| "Criticality_Valid CriticalityHigh = True"
| "Criticality_Valid CriticalityNormal = True"
| "Criticality_Valid CriticalityLow = True"
| "Criticality_Valid CriticalityUnknown = True"
| "Criticality_Valid (OtherCriticality s) = False"

definition ParseCriticality :: "string \<Rightarrow> Criticality result" where
  "ParseCriticality s = (let v = to_Criticality s in
     if \<not> Criticality_Valid v then Err (InvalidValue ''Criticality'' s) else Ok v)"

interpretation Criticality: vocabulary to_Criticality Criticality_str Criticality_Valid ParseCriticality "''Criticality''"
proof
  show "Criticality_str (to_Criticality s) = s" for s by (simp add: to_Criticality_def)
  show "Criticality_Valid v \<Longrightarrow> to_Criticality (Criticality_str v) = v" for v
    by (cases v) (simp_all add: to_Criticality_def)
  show "ParseCriticality s = (if \<not> Criticality_Valid (to_Criticality s) then Err (InvalidValue ''Criticality'' s) else Ok (to_Criticality s))" for s
    by (simp add: ParseCriticality_def)
qed

section \<open>Exposure\<close>

datatype Exposure =
    ExposureInternet
  | ExposureInternal
  | ExposureIsolated
  | ExposureUnknown
  | OtherExposure string

definition to_Exposure :: "string \<Rightarrow> Exposure" where
  "to_Exposure s =
    (if s = ''internet'' then ExposureInternet
     else if s = ''internal'' then ExposureInternal
     else if s = ''isolated'' then ExposureIsolated
     else if s = ''unknown'' then ExposureUnknown
     else OtherExposure s)"

fun Exposure_str :: "Exposure \<Rightarrow> string" where
  "Exposure_str ExposureInternet = ''internet''"
| "Exposure_str ExposureInternal = ''internal''"
| "Exposure_str ExposureIsolated = ''isolated''"
| "Exposure_str ExposureUnknown = ''unknown''"
| "Exposure_str (OtherExposure s) = s"

fun Exposure_Valid :: "Exposure \<Rightarrow> bool" where
  "Exposure_Valid ExposureInternet = True"
| "Exposure_Valid ExposureInternal = True"
| "Exposure_Valid ExposureIsolated = True"
| "Exposure_Valid ExposureUnknown = True"
| "Exposure_Valid (OtherExposure s) = False"

definition ParseExposure :: "string \<Rightarrow> Exposure result" where
  "ParseExposure s = (let v = to_Exposure s in
     if \<not> Exposure_Valid v then Err (InvalidValue ''Exposure'' s) else Ok v)"

interpretation Exposure: vocabulary to_Exposure Exposure_str Exposure_Valid ParseExposure "''Exposure''"
proof
  show "Exposure_str (to_Exposure s) = s" for s by (simp add: to_Exposure_def)
  show "Exposure_Valid v \<Longrightarrow> to_Exposure (Exposure_str v) = v" for v
    by (cases v) (simp_all add: to_Exposure_def)
  show "ParseExposure s = (if \<not> Exposure_Valid (to_Exposure s) then Err (InvalidValue ''Exposure'' s) else Ok (to_Exposure s))" for s
    by (simp add: ParseExposure_def)
qed

section \<open>Confidence\<close>

datatype Confidence =
    ConfidenceHigh
  | ConfidenceMedium
  | ConfidenceLow
  | ConfidenceNone
  | OtherConfidence string

definition to_Confidence :: "string \<Rightarrow> Confidence" where
  "to_Confidence s =
    (if s = ''high'' then ConfidenceHigh
     else if s = ''medium'' then ConfidenceMedium
     else if s = ''low'' then ConfidenceLow
     else if s = ''none'' then ConfidenceNone
     else OtherConfidence s)"

fun Confidence_str :: "Confidence \<Rightarrow> string" where
  "Confidence_str ConfidenceHigh = ''high''"
| "Confidence_str ConfidenceMedium = ''medium''"
| "Confidence_str ConfidenceLow = ''low''"
| "Confidence_str ConfidenceNone = ''none''"
| "Confidence_str (OtherConfidence s) = s"

fun Confidence_Valid :: "Confidence \<Rightarrow> bool" where
  "Confidence_Valid ConfidenceHigh = True"
| "Confidence_Valid ConfidenceMedium = True"
| "Confidence_Valid ConfidenceLow = True"
| "Confidence_Valid ConfidenceNone = True"
| "Confidence_Valid (OtherConfidence s) = False"

definition ParseConfidence :: "string \<Rightarrow> Confidence result" where
  "ParseConfidence s = (let v = to_Confidence s in
     if \<not> Confidence_Valid v then Err (InvalidValue ''Confidence'' s) else Ok v)"

interpretation Confidence: vocabulary to_Confidence Confidence_str Confidence_Valid ParseConfidence "''Confidence''"
proof
  show "Confidence_str (to_Confidence s) = s" for s by (simp add: to_Confidence_def)
  show "Confidence_Valid v \<Longrightarrow> to_Confidence (Confidence_str v) = v" for v
    by (cases v) (simp_all add: to_Confidence_def)
  show "ParseConfidence s = (if \<not> Confidence_Valid (to_Confidence s) then Err (InvalidValue ''Confidence'' s) else Ok (to_Confidence s))" for s
    by (simp add: ParseConfidence_def)
qed

section \<open>EvidenceType\<close>

datatype EvidenceType =
    EvidenceTypeSyntheticStatement
  | EvidenceTypeCVSS
  | EvidenceTypeKEV
  | EvidenceTypeEPSS
  | EvidenceTypeNVDStatement
  | EvidenceTypeReference
  | EvidenceTypeKEVRemoved
  | OtherEvidenceType string

definition to_EvidenceType :: "string \<Rightarrow> EvidenceType" where
  "to_EvidenceType s =
    (if s = ''synthetic_statement'' then EvidenceTypeSyntheticStatement
     else if s = ''cvss'' then EvidenceTypeCVSS
     else if s = ''kev'' then EvidenceTypeKEV
     else if s = ''epss'' then EvidenceTypeEPSS
     else if s = ''nvd_statement'' then EvidenceTypeNVDStatement
     else if s = ''reference'' then EvidenceTypeReference
     else if s = ''kev_removed'' then EvidenceTypeKEVRemoved
     else OtherEvidenceType s)"

fun EvidenceType_str :: "EvidenceType \<Rightarrow> string" where
  "EvidenceType_str EvidenceTypeSyntheticStatement = ''synthetic_statement''"
| "EvidenceType_str EvidenceTypeCVSS = ''cvss''"
| "EvidenceType_str EvidenceTypeKEV = ''kev''"
| "EvidenceType_str EvidenceTypeEPSS = ''epss''"
| "EvidenceType_str EvidenceTypeNVDStatement = ''nvd_statement''"
| "EvidenceType_str EvidenceTypeReference = ''reference''"
| "EvidenceType_str EvidenceTypeKEVRemoved = ''kev_removed''"
| "EvidenceType_str (OtherEvidenceType s) = s"

fun EvidenceType_Valid :: "EvidenceType \<Rightarrow> bool" where
  "EvidenceType_Valid EvidenceTypeSyntheticStatement = True"
| "EvidenceType_Valid EvidenceTypeCVSS = True"
| "EvidenceType_Valid EvidenceTypeKEV = True"
| "EvidenceType_Valid EvidenceTypeEPSS = True"
| "EvidenceType_Valid EvidenceTypeNVDStatement = True"
| "EvidenceType_Valid EvidenceTypeReference = True"
| "EvidenceType_Valid EvidenceTypeKEVRemoved = True"
| "EvidenceType_Valid (OtherEvidenceType s) = False"

definition ParseEvidenceType :: "string \<Rightarrow> EvidenceType result" where
  "ParseEvidenceType s = (let v = to_EvidenceType s in
     if \<not> EvidenceType_Valid v then Err (InvalidValue ''EvidenceType'' s) else Ok v)"

interpretation EvidenceType: vocabulary to_EvidenceType EvidenceType_str EvidenceType_Valid ParseEvidenceType "''EvidenceType''"
proof
  show "EvidenceType_str (to_EvidenceType s) = s" for s by (simp add: to_EvidenceType_def)
  show "EvidenceType_Valid v \<Longrightarrow> to_EvidenceType (EvidenceType_str v) = v" for v
    by (cases v) (simp_all add: to_EvidenceType_def)
  show "ParseEvidenceType s = (if \<not> EvidenceType_Valid (to_EvidenceType s) then Err (InvalidValue ''EvidenceType'' s) else Ok (to_EvidenceType s))" for s
    by (simp add: ParseEvidenceType_def)
qed

section \<open>MatchMethod\<close>

datatype MatchMethod =
    MatchMethodExactIdentifier
  | MatchMethodContainerDigest
  | MatchMethodAliasExactVersion
  | MatchMethodCanonicalProductRange
  | MatchMethodProductUncertainVersion
  | MatchMethodControlledAliasOnly
  | MatchMethodCandidate
  | MatchMethodNoMatch
  | OtherMatchMethod string

definition to_MatchMethod :: "string \<Rightarrow> MatchMethod" where
  "to_MatchMethod s =
    (if s = ''exact_identifier'' then MatchMethodExactIdentifier
     else if s = ''container_digest'' then MatchMethodContainerDigest
     else if s = ''alias_exact_version'' then MatchMethodAliasExactVersion
     else if s = ''canonical_product_range'' then MatchMethodCanonicalProductRange
     else if s = ''product_uncertain_version'' then MatchMethodProductUncertainVersion
     else if s = ''controlled_alias_only'' then MatchMethodControlledAliasOnly
     else if s = ''candidate'' then MatchMethodCandidate
     else if s = ''no_match'' then MatchMethodNoMatch
     else OtherMatchMethod s)"

fun MatchMethod_str :: "MatchMethod \<Rightarrow> string" where
  "MatchMethod_str MatchMethodExactIdentifier = ''exact_identifier''"
| "MatchMethod_str MatchMethodContainerDigest = ''container_digest''"
| "MatchMethod_str MatchMethodAliasExactVersion = ''alias_exact_version''"
| "MatchMethod_str MatchMethodCanonicalProductRange = ''canonical_product_range''"
| "MatchMethod_str MatchMethodProductUncertainVersion = ''product_uncertain_version''"
| "MatchMethod_str MatchMethodControlledAliasOnly = ''controlled_alias_only''"
| "MatchMethod_str MatchMethodCandidate = ''candidate''"
| "MatchMethod_str MatchMethodNoMatch = ''no_match''"
| "MatchMethod_str (OtherMatchMethod s) = s"

fun MatchMethod_Valid :: "MatchMethod \<Rightarrow> bool" where
  "MatchMethod_Valid MatchMethodExactIdentifier = True"
| "MatchMethod_Valid MatchMethodContainerDigest = True"
| "MatchMethod_Valid MatchMethodAliasExactVersion = True"
| "MatchMethod_Valid MatchMethodCanonicalProductRange = True"
| "MatchMethod_Valid MatchMethodProductUncertainVersion = True"
| "MatchMethod_Valid MatchMethodControlledAliasOnly = True"
| "MatchMethod_Valid MatchMethodCandidate = True"
| "MatchMethod_Valid MatchMethodNoMatch = True"
| "MatchMethod_Valid (OtherMatchMethod s) = False"

definition ParseMatchMethod :: "string \<Rightarrow> MatchMethod result" where
  "ParseMatchMethod s = (let v = to_MatchMethod s in
     if \<not> MatchMethod_Valid v then Err (InvalidValue ''MatchMethod'' s) else Ok v)"

interpretation MatchMethod: vocabulary to_MatchMethod MatchMethod_str MatchMethod_Valid ParseMatchMethod "''MatchMethod''"
proof
  show "MatchMethod_str (to_MatchMethod s) = s" for s by (simp add: to_MatchMethod_def)
  show "MatchMethod_Valid v \<Longrightarrow> to_MatchMethod (MatchMethod_str v) = v" for v
    by (cases v) (simp_all add: to_MatchMethod_def)
  show "ParseMatchMethod s = (if \<not> MatchMethod_Valid (to_MatchMethod s) then Err (InvalidValue ''MatchMethod'' s) else Ok (to_MatchMethod s))" for s
    by (simp add: ParseMatchMethod_def)
qed

section \<open>Priority\<close>

datatype Priority =
    PriorityP1
  | PriorityP2
  | PriorityP3
  | PriorityP4
  | OtherPriority string

definition to_Priority :: "string \<Rightarrow> Priority" where
  "to_Priority s =
    (if s = ''P1'' then PriorityP1
     else if s = ''P2'' then PriorityP2
     else if s = ''P3'' then PriorityP3
     else if s = ''P4'' then PriorityP4
     else OtherPriority s)"

fun Priority_str :: "Priority \<Rightarrow> string" where
  "Priority_str PriorityP1 = ''P1''"
| "Priority_str PriorityP2 = ''P2''"
| "Priority_str PriorityP3 = ''P3''"
| "Priority_str PriorityP4 = ''P4''"
| "Priority_str (OtherPriority s) = s"

fun Priority_Valid :: "Priority \<Rightarrow> bool" where
  "Priority_Valid PriorityP1 = True"
| "Priority_Valid PriorityP2 = True"
| "Priority_Valid PriorityP3 = True"
| "Priority_Valid PriorityP4 = True"
| "Priority_Valid (OtherPriority s) = False"

definition ParsePriority :: "string \<Rightarrow> Priority result" where
  "ParsePriority s = (let v = to_Priority s in
     if \<not> Priority_Valid v then Err (InvalidValue ''Priority'' s) else Ok v)"

interpretation Priority: vocabulary to_Priority Priority_str Priority_Valid ParsePriority "''Priority''"
proof
  show "Priority_str (to_Priority s) = s" for s by (simp add: to_Priority_def)
  show "Priority_Valid v \<Longrightarrow> to_Priority (Priority_str v) = v" for v
    by (cases v) (simp_all add: to_Priority_def)
  show "ParsePriority s = (if \<not> Priority_Valid (to_Priority s) then Err (InvalidValue ''Priority'' s) else Ok (to_Priority s))" for s
    by (simp add: ParsePriority_def)
qed

section \<open>SignalStatus\<close>

datatype SignalStatus =
    SignalStatusNew
  | SignalStatusInReview
  | SignalStatusActionPlanned
  | SignalStatusResolved
  | SignalStatusAccepted
  | SignalStatusNotAffected
  | OtherSignalStatus string

definition to_SignalStatus :: "string \<Rightarrow> SignalStatus" where
  "to_SignalStatus s =
    (if s = ''new'' then SignalStatusNew
     else if s = ''in_review'' then SignalStatusInReview
     else if s = ''action_planned'' then SignalStatusActionPlanned
     else if s = ''resolved'' then SignalStatusResolved
     else if s = ''accepted'' then SignalStatusAccepted
     else if s = ''not_affected'' then SignalStatusNotAffected
     else OtherSignalStatus s)"

fun SignalStatus_str :: "SignalStatus \<Rightarrow> string" where
  "SignalStatus_str SignalStatusNew = ''new''"
| "SignalStatus_str SignalStatusInReview = ''in_review''"
| "SignalStatus_str SignalStatusActionPlanned = ''action_planned''"
| "SignalStatus_str SignalStatusResolved = ''resolved''"
| "SignalStatus_str SignalStatusAccepted = ''accepted''"
| "SignalStatus_str SignalStatusNotAffected = ''not_affected''"
| "SignalStatus_str (OtherSignalStatus s) = s"

fun SignalStatus_Valid :: "SignalStatus \<Rightarrow> bool" where
  "SignalStatus_Valid SignalStatusNew = True"
| "SignalStatus_Valid SignalStatusInReview = True"
| "SignalStatus_Valid SignalStatusActionPlanned = True"
| "SignalStatus_Valid SignalStatusResolved = True"
| "SignalStatus_Valid SignalStatusAccepted = True"
| "SignalStatus_Valid SignalStatusNotAffected = True"
| "SignalStatus_Valid (OtherSignalStatus s) = False"

definition ParseSignalStatus :: "string \<Rightarrow> SignalStatus result" where
  "ParseSignalStatus s = (let v = to_SignalStatus s in
     if \<not> SignalStatus_Valid v then Err (InvalidValue ''SignalStatus'' s) else Ok v)"

interpretation SignalStatus: vocabulary to_SignalStatus SignalStatus_str SignalStatus_Valid ParseSignalStatus "''SignalStatus''"
proof
  show "SignalStatus_str (to_SignalStatus s) = s" for s by (simp add: to_SignalStatus_def)
  show "SignalStatus_Valid v \<Longrightarrow> to_SignalStatus (SignalStatus_str v) = v" for v
    by (cases v) (simp_all add: to_SignalStatus_def)
  show "ParseSignalStatus s = (if \<not> SignalStatus_Valid (to_SignalStatus s) then Err (InvalidValue ''SignalStatus'' s) else Ok (to_SignalStatus s))" for s
    by (simp add: ParseSignalStatus_def)
qed

section \<open>VersionScheme\<close>

datatype VersionScheme =
    VersionSchemeSemver
  | VersionSchemeDebian
  | VersionSchemeRPM
  | VersionSchemeMaven
  | VersionSchemeCalver
  | VersionSchemeGeneric
  | VersionSchemeUnknown
  | OtherVersionScheme string

definition to_VersionScheme :: "string \<Rightarrow> VersionScheme" where
  "to_VersionScheme s =
    (if s = ''semver'' then VersionSchemeSemver
     else if s = ''debian'' then VersionSchemeDebian
     else if s = ''rpm'' then VersionSchemeRPM
     else if s = ''maven'' then VersionSchemeMaven
     else if s = ''calver'' then VersionSchemeCalver
     else if s = ''generic'' then VersionSchemeGeneric
     else if s = ''unknown'' then VersionSchemeUnknown
     else OtherVersionScheme s)"

fun VersionScheme_str :: "VersionScheme \<Rightarrow> string" where
  "VersionScheme_str VersionSchemeSemver = ''semver''"
| "VersionScheme_str VersionSchemeDebian = ''debian''"
| "VersionScheme_str VersionSchemeRPM = ''rpm''"
| "VersionScheme_str VersionSchemeMaven = ''maven''"
| "VersionScheme_str VersionSchemeCalver = ''calver''"
| "VersionScheme_str VersionSchemeGeneric = ''generic''"
| "VersionScheme_str VersionSchemeUnknown = ''unknown''"
| "VersionScheme_str (OtherVersionScheme s) = s"

fun VersionScheme_Valid :: "VersionScheme \<Rightarrow> bool" where
  "VersionScheme_Valid VersionSchemeSemver = True"
| "VersionScheme_Valid VersionSchemeDebian = True"
| "VersionScheme_Valid VersionSchemeRPM = True"
| "VersionScheme_Valid VersionSchemeMaven = True"
| "VersionScheme_Valid VersionSchemeCalver = True"
| "VersionScheme_Valid VersionSchemeGeneric = True"
| "VersionScheme_Valid VersionSchemeUnknown = True"
| "VersionScheme_Valid (OtherVersionScheme s) = False"

definition ParseVersionScheme :: "string \<Rightarrow> VersionScheme result" where
  "ParseVersionScheme s = (let v = to_VersionScheme s in
     if \<not> VersionScheme_Valid v then Err (InvalidValue ''VersionScheme'' s) else Ok v)"

interpretation VersionScheme: vocabulary to_VersionScheme VersionScheme_str VersionScheme_Valid ParseVersionScheme "''VersionScheme''"
proof
  show "VersionScheme_str (to_VersionScheme s) = s" for s by (simp add: to_VersionScheme_def)
  show "VersionScheme_Valid v \<Longrightarrow> to_VersionScheme (VersionScheme_str v) = v" for v
    by (cases v) (simp_all add: to_VersionScheme_def)
  show "ParseVersionScheme s = (if \<not> VersionScheme_Valid (to_VersionScheme s) then Err (InvalidValue ''VersionScheme'' s) else Ok (to_VersionScheme s))" for s
    by (simp add: ParseVersionScheme_def)
qed

section \<open>AliasScope\<close>

datatype AliasScope =
    AliasScopeVendor
  | AliasScopeProduct
  | OtherAliasScope string

definition to_AliasScope :: "string \<Rightarrow> AliasScope" where
  "to_AliasScope s =
    (if s = ''vendor'' then AliasScopeVendor
     else if s = ''product'' then AliasScopeProduct
     else OtherAliasScope s)"

fun AliasScope_str :: "AliasScope \<Rightarrow> string" where
  "AliasScope_str AliasScopeVendor = ''vendor''"
| "AliasScope_str AliasScopeProduct = ''product''"
| "AliasScope_str (OtherAliasScope s) = s"

definition AliasScope_Valid :: "AliasScope \<Rightarrow> bool" where
  "AliasScope_Valid s \<longleftrightarrow> s = AliasScopeVendor \<or> s = AliasScopeProduct"

definition ParseAliasScope :: "string \<Rightarrow> AliasScope result" where
  "ParseAliasScope s = (let v = to_AliasScope s in
     if \<not> AliasScope_Valid v then Err (InvalidValue ''AliasScope'' s) else Ok v)"

interpretation AliasScope: vocabulary to_AliasScope AliasScope_str AliasScope_Valid ParseAliasScope "''AliasScope''"
proof
  show "AliasScope_str (to_AliasScope s) = s" for s by (simp add: to_AliasScope_def)
  show "AliasScope_Valid v \<Longrightarrow> to_AliasScope (AliasScope_str v) = v" for v
    by (cases v) (simp_all add: to_AliasScope_def AliasScope_Valid_def)
  show "ParseAliasScope s = (if \<not> AliasScope_Valid (to_AliasScope s) then Err (InvalidValue ''AliasScope'' s) else Ok (to_AliasScope s))" for s
    by (simp add: ParseAliasScope_def)
qed

section \<open>DecisionRuleType\<close>

datatype DecisionRuleType =
    DecisionRuleTypeExclude
  | DecisionRuleTypeOverride
  | OtherDecisionRuleType string

definition to_DecisionRuleType :: "string \<Rightarrow> DecisionRuleType" where
  "to_DecisionRuleType s =
    (if s = ''exclude'' then DecisionRuleTypeExclude
     else if s = ''override'' then DecisionRuleTypeOverride
     else OtherDecisionRuleType s)"

fun DecisionRuleType_str :: "DecisionRuleType \<Rightarrow> string" where
  "DecisionRuleType_str DecisionRuleTypeExclude = ''exclude''"
| "DecisionRuleType_str DecisionRuleTypeOverride = ''override''"
| "DecisionRuleType_str (OtherDecisionRuleType s) = s"

definition DecisionRuleType_Valid :: "DecisionRuleType \<Rightarrow> bool" where
  "DecisionRuleType_Valid t \<longleftrightarrow> t = DecisionRuleTypeExclude \<or> t = DecisionRuleTypeOverride"

definition ParseDecisionRuleType :: "string \<Rightarrow> DecisionRuleType result" where
  "ParseDecisionRuleType s = (let v = to_DecisionRuleType s in
     if \<not> DecisionRuleType_Valid v then Err (InvalidValue ''DecisionRuleType'' s) else Ok v)"

interpretation DecisionRuleType: vocabulary to_DecisionRuleType DecisionRuleType_str DecisionRuleType_Valid ParseDecisionRuleType "''DecisionRuleType''"
proof
  show "DecisionRuleType_str (to_DecisionRuleType s) = s" for s by (simp add: to_DecisionRuleType_def)
  show "DecisionRuleType_Valid v \<Longrightarrow> to_DecisionRuleType (DecisionRuleType_str v) = v" for v
    by (cases v) (simp_all add: to_DecisionRuleType_def DecisionRuleType_Valid_def)
  show "ParseDecisionRuleType s = (if \<not> DecisionRuleType_Valid (to_DecisionRuleType s) then Err (InvalidValue ''DecisionRuleType'' s) else Ok (to_DecisionRuleType s))" for s
    by (simp add: ParseDecisionRuleType_def)
qed

section \<open>QuarantineStatus\<close>

datatype QuarantineStatus =
    QuarantineStatusNew
  | QuarantineStatusAcknowledged
  | QuarantineStatusReadyForRetry
  | QuarantineStatusResolved
  | OtherQuarantineStatus string

definition to_QuarantineStatus :: "string \<Rightarrow> QuarantineStatus" where
  "to_QuarantineStatus s =
    (if s = ''new'' then QuarantineStatusNew
     else if s = ''acknowledged'' then QuarantineStatusAcknowledged
     else if s = ''ready_for_retry'' then QuarantineStatusReadyForRetry
     else if s = ''resolved'' then QuarantineStatusResolved
     else OtherQuarantineStatus s)"

fun QuarantineStatus_str :: "QuarantineStatus \<Rightarrow> string" where
  "QuarantineStatus_str QuarantineStatusNew = ''new''"
| "QuarantineStatus_str QuarantineStatusAcknowledged = ''acknowledged''"
| "QuarantineStatus_str QuarantineStatusReadyForRetry = ''ready_for_retry''"
| "QuarantineStatus_str QuarantineStatusResolved = ''resolved''"
| "QuarantineStatus_str (OtherQuarantineStatus s) = s"

fun QuarantineStatus_Valid :: "QuarantineStatus \<Rightarrow> bool" where
  "QuarantineStatus_Valid QuarantineStatusNew = True"
| "QuarantineStatus_Valid QuarantineStatusAcknowledged = True"
| "QuarantineStatus_Valid QuarantineStatusReadyForRetry = True"
| "QuarantineStatus_Valid QuarantineStatusResolved = True"
| "QuarantineStatus_Valid (OtherQuarantineStatus s) = False"

definition ParseQuarantineStatus :: "string \<Rightarrow> QuarantineStatus result" where
  "ParseQuarantineStatus s = (let v = to_QuarantineStatus s in
     if \<not> QuarantineStatus_Valid v then Err (InvalidValue ''QuarantineStatus'' s) else Ok v)"

interpretation QuarantineStatus: vocabulary to_QuarantineStatus QuarantineStatus_str QuarantineStatus_Valid ParseQuarantineStatus "''QuarantineStatus''"
proof
  show "QuarantineStatus_str (to_QuarantineStatus s) = s" for s by (simp add: to_QuarantineStatus_def)
  show "QuarantineStatus_Valid v \<Longrightarrow> to_QuarantineStatus (QuarantineStatus_str v) = v" for v
    by (cases v) (simp_all add: to_QuarantineStatus_def)
  show "ParseQuarantineStatus s = (if \<not> QuarantineStatus_Valid (to_QuarantineStatus s) then Err (InvalidValue ''QuarantineStatus'' s) else Ok (to_QuarantineStatus s))" for s
    by (simp add: ParseQuarantineStatus_def)
qed

section \<open>SLATarget\<close>

datatype SLATarget =
    SLATargetNotification
  | SLATargetAcknowledgement
  | SLATargetAssessment
  | SLATargetDecision
  | OtherSLATarget string

definition to_SLATarget :: "string \<Rightarrow> SLATarget" where
  "to_SLATarget s =
    (if s = ''notification'' then SLATargetNotification
     else if s = ''acknowledgement'' then SLATargetAcknowledgement
     else if s = ''assessment'' then SLATargetAssessment
     else if s = ''decision'' then SLATargetDecision
     else OtherSLATarget s)"

fun SLATarget_str :: "SLATarget \<Rightarrow> string" where
  "SLATarget_str SLATargetNotification = ''notification''"
| "SLATarget_str SLATargetAcknowledgement = ''acknowledgement''"
| "SLATarget_str SLATargetAssessment = ''assessment''"
| "SLATarget_str SLATargetDecision = ''decision''"
| "SLATarget_str (OtherSLATarget s) = s"

fun SLATarget_Valid :: "SLATarget \<Rightarrow> bool" where
  "SLATarget_Valid SLATargetNotification = True"
| "SLATarget_Valid SLATargetAcknowledgement = True"
| "SLATarget_Valid SLATargetAssessment = True"
| "SLATarget_Valid SLATargetDecision = True"
| "SLATarget_Valid (OtherSLATarget s) = False"

definition ParseSLATarget :: "string \<Rightarrow> SLATarget result" where
  "ParseSLATarget s = (let v = to_SLATarget s in
     if \<not> SLATarget_Valid v then Err (InvalidValue ''SLATarget'' s) else Ok v)"

interpretation SLATarget: vocabulary to_SLATarget SLATarget_str SLATarget_Valid ParseSLATarget "''SLATarget''"
proof
  show "SLATarget_str (to_SLATarget s) = s" for s by (simp add: to_SLATarget_def)
  show "SLATarget_Valid v \<Longrightarrow> to_SLATarget (SLATarget_str v) = v" for v
    by (cases v) (simp_all add: to_SLATarget_def)
  show "ParseSLATarget s = (if \<not> SLATarget_Valid (to_SLATarget s) then Err (InvalidValue ''SLATarget'' s) else Ok (to_SLATarget s))" for s
    by (simp add: ParseSLATarget_def)
qed

section \<open>Role\<close>

datatype Role =
    RoleSecurityAnalyst
  | RoleSystemResponsible
  | RoleAdministrator
  | RoleAuditor
  | RoleProductOwner
  | OtherRole string

definition to_Role :: "string \<Rightarrow> Role" where
  "to_Role s =
    (if s = ''security_analyst'' then RoleSecurityAnalyst
     else if s = ''system_responsible'' then RoleSystemResponsible
     else if s = ''administrator'' then RoleAdministrator
     else if s = ''auditor'' then RoleAuditor
     else if s = ''product_owner'' then RoleProductOwner
     else OtherRole s)"

fun Role_str :: "Role \<Rightarrow> string" where
  "Role_str RoleSecurityAnalyst = ''security_analyst''"
| "Role_str RoleSystemResponsible = ''system_responsible''"
| "Role_str RoleAdministrator = ''administrator''"
| "Role_str RoleAuditor = ''auditor''"
| "Role_str RoleProductOwner = ''product_owner''"
| "Role_str (OtherRole s) = s"

fun Role_Valid :: "Role \<Rightarrow> bool" where
  "Role_Valid RoleSecurityAnalyst = True"
| "Role_Valid RoleSystemResponsible = True"
| "Role_Valid RoleAdministrator = True"
| "Role_Valid RoleAuditor = True"
| "Role_Valid RoleProductOwner = True"
| "Role_Valid (OtherRole s) = False"

definition ParseRole :: "string \<Rightarrow> Role result" where
  "ParseRole s = (let v = to_Role s in
     if \<not> Role_Valid v then Err (InvalidValue ''Role'' s) else Ok v)"

interpretation Role: vocabulary to_Role Role_str Role_Valid ParseRole "''Role''"
proof
  show "Role_str (to_Role s) = s" for s by (simp add: to_Role_def)
  show "Role_Valid v \<Longrightarrow> to_Role (Role_str v) = v" for v
    by (cases v) (simp_all add: to_Role_def)
  show "ParseRole s = (if \<not> Role_Valid (to_Role s) then Err (InvalidValue ''Role'' s) else Ok (to_Role s))" for s
    by (simp add: ParseRole_def)
qed

section \<open>Permission\<close>

datatype Permission =
    PermissionSignalsRead
  | PermissionSignalsTriage
  | PermissionSignalsOverride
  | PermissionInventoryRead
  | PermissionInventoryManage
  | PermissionSourcesManage
  | PermissionRulesManage
  | PermissionUsersRolesManage
  | PermissionAuditRead
  | PermissionExportsCreate
  | PermissionSettingsApprove
  | PermissionRetentionManage
  | PermissionAuditRevealIdentity
  | OtherPermission string

definition to_Permission :: "string \<Rightarrow> Permission" where
  "to_Permission s =
    (if s = ''signals.read'' then PermissionSignalsRead
     else if s = ''signals.triage'' then PermissionSignalsTriage
     else if s = ''signals.override'' then PermissionSignalsOverride
     else if s = ''inventory.read'' then PermissionInventoryRead
     else if s = ''inventory.manage'' then PermissionInventoryManage
     else if s = ''sources.manage'' then PermissionSourcesManage
     else if s = ''rules.manage'' then PermissionRulesManage
     else if s = ''users.roles.manage'' then PermissionUsersRolesManage
     else if s = ''audit.read'' then PermissionAuditRead
     else if s = ''exports.create'' then PermissionExportsCreate
     else if s = ''settings.approve'' then PermissionSettingsApprove
     else if s = ''retention.manage'' then PermissionRetentionManage
     else if s = ''audit.reveal_identity'' then PermissionAuditRevealIdentity
     else OtherPermission s)"

fun Permission_str :: "Permission \<Rightarrow> string" where
  "Permission_str PermissionSignalsRead = ''signals.read''"
| "Permission_str PermissionSignalsTriage = ''signals.triage''"
| "Permission_str PermissionSignalsOverride = ''signals.override''"
| "Permission_str PermissionInventoryRead = ''inventory.read''"
| "Permission_str PermissionInventoryManage = ''inventory.manage''"
| "Permission_str PermissionSourcesManage = ''sources.manage''"
| "Permission_str PermissionRulesManage = ''rules.manage''"
| "Permission_str PermissionUsersRolesManage = ''users.roles.manage''"
| "Permission_str PermissionAuditRead = ''audit.read''"
| "Permission_str PermissionExportsCreate = ''exports.create''"
| "Permission_str PermissionSettingsApprove = ''settings.approve''"
| "Permission_str PermissionRetentionManage = ''retention.manage''"
| "Permission_str PermissionAuditRevealIdentity = ''audit.reveal_identity''"
| "Permission_str (OtherPermission s) = s"

fun Permission_Valid :: "Permission \<Rightarrow> bool" where
  "Permission_Valid PermissionSignalsRead = True"
| "Permission_Valid PermissionSignalsTriage = True"
| "Permission_Valid PermissionSignalsOverride = True"
| "Permission_Valid PermissionInventoryRead = True"
| "Permission_Valid PermissionInventoryManage = True"
| "Permission_Valid PermissionSourcesManage = True"
| "Permission_Valid PermissionRulesManage = True"
| "Permission_Valid PermissionUsersRolesManage = True"
| "Permission_Valid PermissionAuditRead = True"
| "Permission_Valid PermissionExportsCreate = True"
| "Permission_Valid PermissionSettingsApprove = True"
| "Permission_Valid PermissionRetentionManage = True"
| "Permission_Valid PermissionAuditRevealIdentity = True"
| "Permission_Valid (OtherPermission s) = False"

interpretation Permission: vocabulary_base to_Permission Permission_str Permission_Valid
proof
  show "Permission_str (to_Permission s) = s" for s by (simp add: to_Permission_def)
  show "Permission_Valid v \<Longrightarrow> to_Permission (Permission_str v) = v" for v
    by (cases v) (simp_all add: to_Permission_def)
qed

section \<open>Scope\<close>

datatype Scope =
    ScopeAll
  | ScopeAssigned
  | ScopeOwn
  | ScopeNone
  | OtherScope string

definition to_Scope :: "string \<Rightarrow> Scope" where
  "to_Scope s =
    (if s = ''all'' then ScopeAll
     else if s = ''assigned'' then ScopeAssigned
     else if s = ''own'' then ScopeOwn
     else if s = ''none'' then ScopeNone
     else OtherScope s)"

fun Scope_str :: "Scope \<Rightarrow> string" where
  "Scope_str ScopeAll = ''all''"
| "Scope_str ScopeAssigned = ''assigned''"
| "Scope_str ScopeOwn = ''own''"
| "Scope_str ScopeNone = ''none''"
| "Scope_str (OtherScope s) = s"

fun Scope_Valid :: "Scope \<Rightarrow> bool" where
  "Scope_Valid ScopeAll = True"
| "Scope_Valid ScopeAssigned = True"
| "Scope_Valid ScopeOwn = True"
| "Scope_Valid ScopeNone = True"
| "Scope_Valid (OtherScope s) = False"

definition ParseScope :: "string \<Rightarrow> Scope result" where
  "ParseScope s = (let v = to_Scope s in
     if \<not> Scope_Valid v then Err (InvalidValue ''Scope'' s) else Ok v)"

interpretation Scope: vocabulary to_Scope Scope_str Scope_Valid ParseScope "''Scope''"
proof
  show "Scope_str (to_Scope s) = s" for s by (simp add: to_Scope_def)
  show "Scope_Valid v \<Longrightarrow> to_Scope (Scope_str v) = v" for v
    by (cases v) (simp_all add: to_Scope_def)
  show "ParseScope s = (if \<not> Scope_Valid (to_Scope s) then Err (InvalidValue ''Scope'' s) else Ok (to_Scope s))" for s
    by (simp add: ParseScope_def)
qed

section \<open>RuleOp\<close>

datatype RuleOp =
    RuleOpEq
  | RuleOpIn
  | RuleOpGe
  | OtherRuleOp string

definition to_RuleOp :: "string \<Rightarrow> RuleOp" where
  "to_RuleOp s =
    (if s = ''eq'' then RuleOpEq
     else if s = ''in'' then RuleOpIn
     else if s = ''ge'' then RuleOpGe
     else OtherRuleOp s)"

fun RuleOp_str :: "RuleOp \<Rightarrow> string" where
  "RuleOp_str RuleOpEq = ''eq''"
| "RuleOp_str RuleOpIn = ''in''"
| "RuleOp_str RuleOpGe = ''ge''"
| "RuleOp_str (OtherRuleOp s) = s"

fun RuleOp_Valid :: "RuleOp \<Rightarrow> bool" where
  "RuleOp_Valid RuleOpEq = True"
| "RuleOp_Valid RuleOpIn = True"
| "RuleOp_Valid RuleOpGe = True"
| "RuleOp_Valid (OtherRuleOp s) = False"

interpretation RuleOp: vocabulary_base to_RuleOp RuleOp_str RuleOp_Valid
proof
  show "RuleOp_str (to_RuleOp s) = s" for s by (simp add: to_RuleOp_def)
  show "RuleOp_Valid v \<Longrightarrow> to_RuleOp (RuleOp_str v) = v" for v
    by (cases v) (simp_all add: to_RuleOp_def)
qed

section \<open>FactorField\<close>

datatype FactorField =
    FieldConfidence
  | FieldKEV
  | FieldCVSS
  | FieldEPSS
  | FieldCriticality
  | FieldExposure
  | OtherFactorField string

definition to_FactorField :: "string \<Rightarrow> FactorField" where
  "to_FactorField s =
    (if s = ''confidence'' then FieldConfidence
     else if s = ''kev'' then FieldKEV
     else if s = ''cvss'' then FieldCVSS
     else if s = ''epss'' then FieldEPSS
     else if s = ''criticality'' then FieldCriticality
     else if s = ''exposure'' then FieldExposure
     else OtherFactorField s)"

fun FactorField_str :: "FactorField \<Rightarrow> string" where
  "FactorField_str FieldConfidence = ''confidence''"
| "FactorField_str FieldKEV = ''kev''"
| "FactorField_str FieldCVSS = ''cvss''"
| "FactorField_str FieldEPSS = ''epss''"
| "FactorField_str FieldCriticality = ''criticality''"
| "FactorField_str FieldExposure = ''exposure''"
| "FactorField_str (OtherFactorField s) = s"

fun FactorField_Valid :: "FactorField \<Rightarrow> bool" where
  "FactorField_Valid FieldConfidence = True"
| "FactorField_Valid FieldKEV = True"
| "FactorField_Valid FieldCVSS = True"
| "FactorField_Valid FieldEPSS = True"
| "FactorField_Valid FieldCriticality = True"
| "FactorField_Valid FieldExposure = True"
| "FactorField_Valid (OtherFactorField s) = False"

interpretation FactorField: vocabulary_base to_FactorField FactorField_str FactorField_Valid
proof
  show "FactorField_str (to_FactorField s) = s" for s by (simp add: to_FactorField_def)
  show "FactorField_Valid v \<Longrightarrow> to_FactorField (FactorField_str v) = v" for v
    by (cases v) (simp_all add: to_FactorField_def)
qed

end
