(* ===== verification/Authz.thy ===== *)
theory Authz
  imports Vocabulary
begin

text \<open>
  Authorisation (internal/domain: role.go, permission.go, scope.go, authz.go, identity.go):
  the role to permission to scope matrix as data, the deny-by-default decision
  \<open>Authorize\<close> and the principal with its granted scope.
\<close>

section \<open>Scopes\<close>

text \<open>Breadth of a scope; an unknown scope ranks with \<open>none\<close>.\<close>

fun Scope_rank :: "Scope \<Rightarrow> nat" where
  "Scope_rank ScopeAll = 3"
| "Scope_rank ScopeAssigned = 2"
| "Scope_rank ScopeOwn = 1"
| "Scope_rank ScopeNone = 0"
| "Scope_rank (OtherScope _) = 0"

definition Scope_objectScoped :: "Scope \<Rightarrow> bool" where
  "Scope_objectScoped s \<longleftrightarrow> s = ScopeAssigned \<or> s = ScopeOwn"

section \<open>The matrix\<close>

definition AllRoles :: "Role list" where
  "AllRoles = [RoleSecurityAnalyst, RoleSystemResponsible, RoleAdministrator, RoleAuditor, RoleProductOwner]"

definition AllPermissions :: "Permission list" where
  "AllPermissions =
     [PermissionSignalsRead, PermissionSignalsTriage, PermissionSignalsOverride,
      PermissionInventoryRead, PermissionInventoryManage, PermissionSourcesManage,
      PermissionRulesManage, PermissionUsersRolesManage, PermissionAuditRead,
      PermissionExportsCreate, PermissionSettingsApprove, PermissionRetentionManage,
      PermissionAuditRevealIdentity]"

text \<open>\<open>rolePermissions\<close>: a missing key is \<open>None\<close>; an unknown role has no row.\<close>

fun rolePermissions :: "Role \<Rightarrow> Permission \<rightharpoonup> Scope" where
  "rolePermissions RoleSecurityAnalyst = [
     PermissionSignalsRead \<mapsto> ScopeAll,
     PermissionSignalsTriage \<mapsto> ScopeAll,
     PermissionSignalsOverride \<mapsto> ScopeAll,
     PermissionInventoryRead \<mapsto> ScopeAll,
     PermissionAuditRead \<mapsto> ScopeOwn,
     PermissionExportsCreate \<mapsto> ScopeAll]"
| "rolePermissions RoleSystemResponsible = [
     PermissionSignalsRead \<mapsto> ScopeAssigned,
     PermissionSignalsTriage \<mapsto> ScopeAssigned,
     PermissionInventoryRead \<mapsto> ScopeAssigned,
     PermissionAuditRead \<mapsto> ScopeAssigned,
     PermissionExportsCreate \<mapsto> ScopeAssigned]"
| "rolePermissions RoleAdministrator = [
     PermissionSignalsRead \<mapsto> ScopeAll,
     PermissionInventoryRead \<mapsto> ScopeAll,
     PermissionInventoryManage \<mapsto> ScopeAll,
     PermissionSourcesManage \<mapsto> ScopeAll,
     PermissionRulesManage \<mapsto> ScopeAll,
     PermissionUsersRolesManage \<mapsto> ScopeAll,
     PermissionAuditRead \<mapsto> ScopeAll,
     PermissionExportsCreate \<mapsto> ScopeAll,
     PermissionRetentionManage \<mapsto> ScopeAll]"
| "rolePermissions RoleAuditor = [
     PermissionSignalsRead \<mapsto> ScopeAll,
     PermissionInventoryRead \<mapsto> ScopeAll,
     PermissionAuditRead \<mapsto> ScopeAll,
     PermissionExportsCreate \<mapsto> ScopeAll,
     PermissionAuditRevealIdentity \<mapsto> ScopeAll]"
| "rolePermissions RoleProductOwner = [
     PermissionSignalsRead \<mapsto> ScopeAll,
     PermissionInventoryRead \<mapsto> ScopeAll,
     PermissionAuditRead \<mapsto> ScopeAll,
     PermissionExportsCreate \<mapsto> ScopeAll,
     PermissionSettingsApprove \<mapsto> ScopeAll,
     PermissionAuditRevealIdentity \<mapsto> ScopeAll]"
| "rolePermissions (OtherRole _) = Map.empty"

text \<open>\<open>Role.Permissions\<close> returns a copy of the role's row.\<close>

definition Role_Permissions :: "Role \<Rightarrow> Permission \<rightharpoonup> Scope" where
  "Role_Permissions r = rolePermissions r"

section \<open>The decision\<close>

text \<open>The loop over the roles: the broadest scope any of them grants.\<close>

fun grant_loop :: "Scope \<Rightarrow> Role list \<Rightarrow> Permission \<Rightarrow> Scope" where
  "grant_loop granted [] perm = granted"
| "grant_loop granted (r # rs) perm =
     (if \<not> Role_Valid r then grant_loop granted rs perm
      else (case rolePermissions r perm of
              None \<Rightarrow> grant_loop granted rs perm
            | Some gs \<Rightarrow>
                grant_loop (if Scope_rank gs > Scope_rank granted then gs else granted) rs perm))"

definition Authorize ::
  "Role list \<Rightarrow> Permission \<Rightarrow> Scope \<Rightarrow> string \<Rightarrow> string \<Rightarrow> bool result" where
  "Authorize roles perm scope ownerID principalID =
     guards [(\<not> Permission_Valid perm, InvalidValue ''permission'' (Permission_str perm)),
             (\<not> Scope_Valid scope, InvalidValue ''scope'' (Scope_str scope))]
       (let granted = grant_loop ScopeNone roles perm in
        if granted = ScopeNone then Ok False
        else if Scope_rank granted < Scope_rank scope then Ok False
        else if Scope_objectScoped granted \<and> (ownerID = '''' \<or> ownerID \<noteq> principalID) then Ok False
        else Ok True)"

section \<open>Principals\<close>

record Identity =
  SubjectID :: string
  DisplayName :: string
  Email :: string

record Principal = Identity +
  InternalID :: string
  Roles :: "Role list"
  DeactivatedAt :: time

definition Principal_Deactivated :: "Principal \<Rightarrow> bool" where
  "Principal_Deactivated p \<longleftrightarrow> \<not> time_IsZero (DeactivatedAt p)"

definition GrantedScope :: "Principal \<Rightarrow> Permission \<Rightarrow> Scope" where
  "GrantedScope p perm =
     (if Principal_Deactivated p \<or> \<not> Permission_Valid perm then ScopeNone
      else grant_loop ScopeNone (Roles p) perm)"

definition HasPermission :: "Principal \<Rightarrow> Permission \<Rightarrow> bool" where
  "HasPermission p perm =
     (if Principal_Deactivated p then False else GrantedScope p perm \<noteq> ScopeNone)"

section \<open>Lemmas\<close>

text \<open>What a role grants, as the loop sees it.\<close>

definition role_grants :: "Role \<Rightarrow> Permission \<Rightarrow> Scope \<Rightarrow> bool" where
  "role_grants r perm gs \<longleftrightarrow> Role_Valid r \<and> rolePermissions r perm = Some gs"

lemma matrix_scopes: "rolePermissions r perm = Some gs \<Longrightarrow> gs \<in> {ScopeAll, ScopeAssigned, ScopeOwn}"
  by (cases r; cases perm) auto

lemma matrix_valid: "rolePermissions r perm = Some gs \<Longrightarrow> Role_Valid r \<and> Permission_Valid perm"
  by (cases r; cases perm) auto

lemma role_grants_matrix: "role_grants r perm gs \<longleftrightarrow> rolePermissions r perm = Some gs"
  using matrix_valid by (auto simp: role_grants_def)

lemma Scope_rank_le [simp]: "Scope_rank s \<le> 3"
  by (cases s) auto

lemma Scope_rank_0: "s \<in> {ScopeAll, ScopeAssigned, ScopeOwn} \<Longrightarrow> 0 < Scope_rank s"
  by auto

lemma grant_loop_ge: "Scope_rank g \<le> Scope_rank (grant_loop g rs perm)"
proof (induction g rs perm rule: grant_loop.induct)
  case (2 granted r rs perm)
  then show ?case by (auto split: option.splits intro: order_trans dest: less_imp_le)
qed simp

lemma grant_loop_upper:
  "r \<in> set rs \<Longrightarrow> role_grants r perm gs \<Longrightarrow> Scope_rank gs \<le> Scope_rank (grant_loop g rs perm)"
proof (induction g rs perm rule: grant_loop.induct)
  case (2 granted r' rs perm)
  show ?case
  proof (cases "r = r'")
    case True
    with "2.prems" have "Role_Valid r'" "rolePermissions r' perm = Some gs"
      by (simp_all add: role_grants_def)
    then show ?thesis
      using grant_loop_ge [of gs rs perm] grant_loop_ge [of granted rs perm] by auto
  next
    case False
    with 2 show ?thesis by (auto split: option.splits)
  qed
qed simp

lemma grant_loop_cases:
  "grant_loop g rs perm = g \<or> (\<exists>r\<in>set rs. role_grants r perm (grant_loop g rs perm))"
proof (induction g rs perm rule: grant_loop.induct)
  case (2 granted r rs perm)
  then show ?case by (auto simp: role_grants_def split: option.splits)
qed simp

lemma grant_loop_None:
  "grant_loop ScopeNone rs perm = ScopeNone \<longleftrightarrow> (\<forall>r\<in>set rs. \<forall>gs. \<not> role_grants r perm gs)"
proof
  assume n: "grant_loop ScopeNone rs perm = ScopeNone"
  show "\<forall>r\<in>set rs. \<forall>gs. \<not> role_grants r perm gs"
  proof (intro ballI allI notI)
    fix r gs assume "r \<in> set rs" "role_grants r perm gs"
    then have "Scope_rank gs \<le> 0" "0 < Scope_rank gs"
      using grant_loop_upper [of r rs perm gs ScopeNone] n
        matrix_scopes [of r perm gs] Scope_rank_0 [of gs]
      by (auto simp: role_grants_def)
    then show False by simp
  qed
next
  assume "\<forall>r\<in>set rs. \<forall>gs. \<not> role_grants r perm gs"
  then show "grant_loop ScopeNone rs perm = ScopeNone"
    using grant_loop_cases [of ScopeNone rs perm] by auto
qed

lemma grant_loop_scopes:
  "grant_loop ScopeNone rs perm \<in> {ScopeAll, ScopeAssigned, ScopeOwn, ScopeNone}"
  using grant_loop_cases [of ScopeNone rs perm] matrix_scopes
  by (fastforce simp: role_grants_def)

text \<open>The decision is Ok exactly on known permissions and scopes.\<close>

lemma Authorize_is_ok: "is_ok (Authorize rs perm scope owner pid) \<longleftrightarrow> Permission_Valid perm \<and> Scope_Valid scope"
  by (auto simp: Authorize_def Let_def)

text \<open>When one grant covers the request.\<close>

definition covers :: "Scope \<Rightarrow> Scope \<Rightarrow> string \<Rightarrow> string \<Rightarrow> bool" where
  "covers gs scope owner pid \<longleftrightarrow>
     Scope_rank scope \<le> Scope_rank gs \<and> (gs = ScopeAll \<or> (owner \<noteq> '''' \<and> owner = pid))"

lemma covers_mono:
  "covers gs scope owner pid \<Longrightarrow> Scope_rank gs \<le> Scope_rank gs' \<Longrightarrow> covers gs' scope owner pid"
  by (cases gs'; cases gs) (auto simp: covers_def)

lemma Authorize_True_iff:
  "Authorize rs perm scope owner pid = Ok True \<longleftrightarrow>
     Permission_Valid perm \<and> Scope_Valid scope \<and>
     (\<exists>r\<in>set rs. \<exists>gs. role_grants r perm gs \<and> covers gs scope owner pid)"
    (is "?L \<longleftrightarrow> ?R")
proof
  let ?g = "grant_loop ScopeNone rs perm"
  assume L: ?L
  then have v: "Permission_Valid perm" "Scope_Valid scope" "?g \<noteq> ScopeNone"
    "Scope_rank scope \<le> Scope_rank ?g" "Scope_objectScoped ?g \<longrightarrow> owner \<noteq> '''' \<and> owner = pid"
    by (auto simp: Authorize_def Let_def split: if_splits)
  then obtain r where "r \<in> set rs" "role_grants r perm ?g"
    using grant_loop_cases [of ScopeNone rs perm] by auto
  moreover have "covers ?g scope owner pid"
    using v grant_loop_scopes [of rs perm] by (auto simp: covers_def Scope_objectScoped_def)
  ultimately show ?R using v by blast
next
  let ?g = "grant_loop ScopeNone rs perm"
  assume R: ?R
  then obtain r gs where r: "r \<in> set rs" "role_grants r perm gs" "covers gs scope owner pid" by blast
  have "covers ?g scope owner pid"
    using covers_mono [OF r(3) grant_loop_upper [OF r(1,2)]] .
  moreover have "?g \<noteq> ScopeNone" using r grant_loop_None [of rs perm] by blast
  ultimately show ?L
    using R grant_loop_scopes [of rs perm]
    by (auto simp: Authorize_def Let_def covers_def Scope_objectScoped_def)
qed

lemma HasPermission_iff:
  "HasPermission p perm \<longleftrightarrow>
     \<not> Principal_Deactivated p \<and> (\<exists>r\<in>set (Roles p). \<exists>gs. role_grants r perm gs)"
  using grant_loop_None [of "Roles p" perm] matrix_valid
  by (auto simp: HasPermission_def GrantedScope_def role_grants_def)

section \<open>Properties\<close>

text \<open>C13: Deny by default. A decision is made exactly for known permissions and scopes; it is a permit
  exactly when one of the principal's roles grants the permission with a scope that covers the
  request: at least as broad, and for a scope below all only with a non-empty owner that is the
  principal.\<close>

theorem authorize_iff_covering_grant:
  "(is_ok (Authorize rs perm scope owner pid) \<longleftrightarrow> Permission_Valid perm \<and> Scope_Valid scope) \<and>
   (Authorize rs perm scope owner pid = Ok True \<longleftrightarrow>
      Permission_Valid perm \<and> Scope_Valid scope \<and>
      (\<exists>r\<in>set rs. \<exists>gs. rolePermissions r perm = Some gs \<and> covers gs scope owner pid))"
  using Authorize_is_ok [of rs perm scope owner pid] Authorize_True_iff [of rs perm scope owner pid]
  by (simp add: role_grants_matrix)

text \<open>Separation of duties. Whatever roles a principal combines, a permit for triage needs the
  analyst or the system responsible role, an override the analyst, managing retention the
  administrator, approving it the product owner, and lifting the pseudonymisation of the audit
  trail the auditor or the product owner: no administrator alone gets any of the others.\<close>

theorem separation_of_duties:
  assumes "Authorize rs perm scope owner pid = Ok True"
  shows "(if perm = PermissionSignalsTriage
          then RoleSecurityAnalyst \<in> set rs \<or> RoleSystemResponsible \<in> set rs else True) \<and>
    (if perm = PermissionSignalsOverride then RoleSecurityAnalyst \<in> set rs else True) \<and>
    (if perm = PermissionRetentionManage then RoleAdministrator \<in> set rs else True) \<and>
    (if perm = PermissionSettingsApprove then RoleProductOwner \<in> set rs else True) \<and>
    (if perm = PermissionAuditRevealIdentity
     then RoleAuditor \<in> set rs \<or> RoleProductOwner \<in> set rs else True)"
proof -
  obtain r gs where "r \<in> set rs" "rolePermissions r perm = Some gs"
    using assms unfolding Authorize_True_iff role_grants_matrix by blast
  then show ?thesis by - (cases r; auto)
qed

theorem separation_of_duties_witness:
  "Authorize [RoleProductOwner] PermissionSettingsApprove ScopeAll ''o'' ''p'' = Ok True \<and>
   RoleProductOwner \<in> set [RoleProductOwner]"
proof -
  have "Authorize [RoleProductOwner] PermissionSettingsApprove ScopeAll ''o'' ''p'' = Ok True"
    by (simp add: Authorize_def Scope_objectScoped_def)
  with separation_of_duties [OF this] show ?thesis by simp
qed

text \<open>More roles never lose a permit, whatever their order or repetition.\<close>

theorem authorize_monotone_in_roles:
  assumes "Authorize rs perm scope owner pid = Ok True" "set rs \<subseteq> set rs'"
  shows "Authorize rs' perm scope owner pid = Ok True"
  using assms by (auto simp: Authorize_True_iff)

theorem authorize_monotone_in_roles_witness:
  "Authorize [RoleAuditor, RoleAdministrator] PermissionSourcesManage ScopeAll ''o'' ''p'' = Ok True"
proof (rule authorize_monotone_in_roles)
  show "Authorize [RoleAdministrator] PermissionSourcesManage ScopeAll ''o'' ''p'' = Ok True"
    by (simp add: Authorize_def Scope_objectScoped_def)
qed simp

text \<open>The scope reported for a permission is the authorised one. For an active principal the
  reported scope is what the decision grants on the principal's own objects, no broader scope is
  granted on any object, and with no reported scope every request is refused.\<close>

theorem granted_scope_is_authorised:
  assumes "\<not> Principal_Deactivated p" "Permission_Valid perm" "InternalID p \<noteq> ''''" "Scope_Valid scope"
  shows "(if HasPermission p perm
          then Authorize (Roles p) perm (GrantedScope p perm) (InternalID p) (InternalID p) = Ok True
          else GrantedScope p perm = ScopeNone) \<and>
    (if Scope_rank (GrantedScope p perm) < Scope_rank scope \<or> \<not> HasPermission p perm
     then Authorize (Roles p) perm scope owner pid = Ok False else True)"
proof -
  let ?g = "grant_loop ScopeNone (Roles p) perm"
  have g: "GrantedScope p perm = ?g" "HasPermission p perm \<longleftrightarrow> ?g \<noteq> ScopeNone"
    using assms(1,2) by (simp_all add: GrantedScope_def HasPermission_def)
  have "Scope_Valid ?g" using grant_loop_scopes [of "Roles p" perm] by auto
  then show ?thesis
    using g assms by (auto simp: Authorize_def Let_def)
qed

definition ex_principal :: Principal where
  "ex_principal = \<lparr>SubjectID = ''sub'', DisplayName = ''n'', Email = ''e'', InternalID = ''u1'',
     Roles = [RoleSystemResponsible], DeactivatedAt = 0\<rparr>"

theorem granted_scope_is_authorised_witness:
  "Authorize (Roles ex_principal) PermissionSignalsTriage ScopeAll ''u1'' ''u1'' = Ok False"
proof -
  have p: "\<not> Principal_Deactivated ex_principal" "InternalID ex_principal \<noteq> ''''"
    by (simp_all add: Principal_Deactivated_def ex_principal_def time_IsZero_def)
  have "GrantedScope ex_principal PermissionSignalsTriage = ScopeAssigned"
    using p by (simp add: GrantedScope_def ex_principal_def)
  then show ?thesis
    using granted_scope_is_authorised [OF p(1) _ p(2), of PermissionSignalsTriage ScopeAll "''u1''" "''u1''"]
    by simp
qed

end
