(* ===== verification/MatchMapping.thy ===== *)
theory MatchMapping
  imports Vocabulary
begin

text \<open>
  Method-led matching (internal/domain: mapping.go, rules.go, match.go): the mapping from a
  matching method to its confidence and sort rank, the composite ruleset version, alias rules
  and decision rules with their validity window, and the stamping of a decision rule onto a
  computed match.
\<close>

section \<open>The mapping table\<close>

definition MatchRuleVersion :: string where
  "MatchRuleVersion = ''i1b-1''"

definition rulesetVersionWidth :: nat where
  "rulesetVersionWidth = 10"

definition candidateScoreMin :: int where "candidateScoreMin = 1"
definition candidateScoreMax :: int where "candidateScoreMax = 54"

record matchRule =
  rule_confidence :: Confidence
  rule_score :: int

fun matchRules :: "MatchMethod \<rightharpoonup> matchRule" where
  "matchRules MatchMethodExactIdentifier = Some \<lparr>rule_confidence = ConfidenceHigh, rule_score = 100\<rparr>"
| "matchRules MatchMethodContainerDigest = Some \<lparr>rule_confidence = ConfidenceHigh, rule_score = 95\<rparr>"
| "matchRules MatchMethodAliasExactVersion = Some \<lparr>rule_confidence = ConfidenceHigh, rule_score = 90\<rparr>"
| "matchRules MatchMethodCanonicalProductRange = Some \<lparr>rule_confidence = ConfidenceHigh, rule_score = 80\<rparr>"
| "matchRules MatchMethodProductUncertainVersion = Some \<lparr>rule_confidence = ConfidenceMedium, rule_score = 65\<rparr>"
| "matchRules MatchMethodControlledAliasOnly = Some \<lparr>rule_confidence = ConfidenceMedium, rule_score = 55\<rparr>"
| "matchRules MatchMethodCandidate = Some \<lparr>rule_confidence = ConfidenceLow, rule_score = 0\<rparr>"
| "matchRules MatchMethodNoMatch = Some \<lparr>rule_confidence = ConfidenceNone, rule_score = 0\<rparr>"
| "matchRules (OtherMatchMethod _) = None"

text \<open>\<open>RulesetVersion\<close>: both counters padded to the same width.\<close>

definition RulesetVersion :: "int \<Rightarrow> int \<Rightarrow> string result" where
  "RulesetVersion aliasVersion decisionVersion =
     guards [(aliasVersion < 0, OutOfRange ''alias version''),
             (decisionVersion < 0, OutOfRange ''decision version'')]
       (Ok (CHR ''a'' # pad_zeros rulesetVersionWidth (itoa (nat aliasVersion)) @
            CHR ''d'' # pad_zeros rulesetVersionWidth (itoa (nat decisionVersion))))"

definition MatchMethod_Confidence :: "MatchMethod \<Rightarrow> Confidence \<times> bool" where
  "MatchMethod_Confidence m =
     (case matchRules m of
        None \<Rightarrow> (OtherConfidence '''', False)
      | Some r \<Rightarrow> (rule_confidence r, True))"

definition Derive :: "MatchMethod \<Rightarrow> int \<Rightarrow> (Confidence \<times> int) result" where
  "Derive m similarity =
     (case matchRules m of
        None \<Rightarrow> Err (InvalidValue ''MatchMethod'' (MatchMethod_str m))
      | Some r \<Rightarrow>
          if m = MatchMethodCandidate then
            (if similarity < candidateScoreMin \<or> similarity > candidateScoreMax
             then Err (OutOfRange ''candidate similarity'')
             else Ok (rule_confidence r, similarity))
          else Ok (rule_confidence r, rule_score r))"

section \<open>Alias rules\<close>

record AliasRule =
  Alias_ID :: string
  Alias_Scope :: AliasScope
  Alias_From :: string
  Alias_To :: string
  Alias_Version :: int
  Alias_Enabled :: bool
  Alias_Reason :: string

definition NewAliasRule ::
  "string \<Rightarrow> AliasScope \<Rightarrow> string \<Rightarrow> string \<Rightarrow> string \<Rightarrow> int \<Rightarrow> AliasRule result" where
  "NewAliasRule ident scope frm to reason version =
     guards [(ident = '''', EmptyField ''alias rule id''),
             (\<not> AliasScope_Valid scope, InvalidValue ''AliasScope'' (AliasScope_str scope)),
             (frm = '''', EmptyField ''from_value''),
             (to = '''', EmptyField ''to_value''),
             (frm = to, BadShape ''alias rule maps to itself''),
             (version < 1, OutOfRange ''alias rule version'')]
       (Ok \<lparr>Alias_ID = ident, Alias_Scope = scope, Alias_From = frm, Alias_To = to,
            Alias_Version = version, Alias_Enabled = True, Alias_Reason = reason\<rparr>)"

definition Disable :: "AliasRule \<Rightarrow> AliasRule" where
  "Disable r = r\<lparr>Alias_Enabled := False\<rparr>"

definition Enable :: "AliasRule \<Rightarrow> AliasRule" where
  "Enable r = r\<lparr>Alias_Enabled := True\<rparr>"

section \<open>Decision rules\<close>

record DecisionTarget =
  Target_CVEID :: string
  Target_Vendor :: string
  Target_Product :: string
  Target_ComponentID :: string

definition hasAny :: "DecisionTarget \<Rightarrow> bool" where
  "hasAny t \<longleftrightarrow> Target_CVEID t \<noteq> '''' \<or> Target_Vendor t \<noteq> '''' \<or> Target_Product t \<noteq> '''' \<or>
     Target_ComponentID t \<noteq> ''''"

record DecisionAction =
  Action_Method :: MatchMethod
  Action_Similarity :: int

record DecisionRule =
  Rule_ID :: string
  Rule_Type :: DecisionRuleType
  Rule_Target :: DecisionTarget
  Rule_Action :: "DecisionAction option"
  Rule_Reason :: string
  Rule_Version :: int
  Rule_ActorID :: string
  Rule_ValidFrom :: time
  Rule_ValidUntil :: time
  Rule_Revoked :: bool

text \<open>The switch over the type at the end of \<open>NewDecisionRule\<close>.\<close>

definition checkAction :: "DecisionRuleType \<Rightarrow> DecisionAction option \<Rightarrow> unit result" where
  "checkAction typ action =
     (if typ = DecisionRuleTypeExclude then
        (if action \<noteq> None then Err (BadShape ''exclude rule with an action'') else Ok ())
      else if typ = DecisionRuleTypeOverride then
        (case action of
           None \<Rightarrow> Err (BadShape ''override rule without an action'')
         | Some a \<Rightarrow>
             guards [(\<not> MatchMethod_Valid (Action_Method a),
                        InvalidValue ''MatchMethod'' (MatchMethod_str (Action_Method a))),
                     (Action_Method a = MatchMethodNoMatch, BadShape ''override to no_match''),
                     (Action_Method a = MatchMethodCandidate \<and>
                        (Action_Similarity a < candidateScoreMin \<or>
                         Action_Similarity a > candidateScoreMax), OutOfRange ''candidate similarity''),
                     (Action_Method a \<noteq> MatchMethodCandidate \<and> Action_Similarity a \<noteq> 0,
                        BadShape ''similarity on another method'')]
               (Ok ()))
      else Ok ())"

definition NewDecisionRule ::
  "string \<Rightarrow> DecisionRuleType \<Rightarrow> DecisionTarget \<Rightarrow> DecisionAction option \<Rightarrow> string \<Rightarrow> string \<Rightarrow>
   int \<Rightarrow> time \<Rightarrow> time \<Rightarrow> DecisionRule result" where
  "NewDecisionRule ident typ target action reason actorID version validFrom validUntil =
     guards [(ident = '''', EmptyField ''decision rule id''),
             (\<not> DecisionRuleType_Valid typ, InvalidValue ''DecisionRuleType'' (DecisionRuleType_str typ)),
             (\<not> hasAny target, EmptyField ''target_scope''),
             (reason = '''', EmptyField ''reason''),
             (version < 1, OutOfRange ''decision rule version''),
             (\<not> time_IsZero validUntil \<and> time_Before validUntil validFrom, BadShape ''valid_until before valid_from'')]
       (rbind (checkAction typ action) (\<lambda>_.
          Ok \<lparr>Rule_ID = ident, Rule_Type = typ, Rule_Target = target, Rule_Action = action,
              Rule_Reason = reason, Rule_Version = version, Rule_ActorID = actorID,
              Rule_ValidFrom = validFrom, Rule_ValidUntil = validUntil, Rule_Revoked = False\<rparr>))"

definition Revoke :: "DecisionRule \<Rightarrow> DecisionRule result" where
  "Revoke r =
     (if Rule_Revoked r then Err (BadState ''already revoked'')
      else Ok (r\<lparr>Rule_Revoked := True\<rparr>))"

definition AppliesAt :: "DecisionRule \<Rightarrow> time \<Rightarrow> bool" where
  "AppliesAt r t =
     (if Rule_Revoked r then False
      else if \<not> time_IsZero (Rule_ValidFrom r) \<and> time_Before t (Rule_ValidFrom r) then False
      else if \<not> time_IsZero (Rule_ValidUntil r) \<and> \<not> time_Before t (Rule_ValidUntil r) then False
      else True)"

section \<open>Matches\<close>

record Match =
  Match_ID :: string
  Match_VulnerabilityID :: string
  Match_ComponentID :: string
  Match_Method :: MatchMethod
  Match_Confidence :: Confidence
  Match_Score :: int
  Match_RuleVersion :: string
  Match_Reasons :: "string list"
  Match_DecisionRuleID :: "string option"
  Match_AutoMethod :: "MatchMethod option"
  Match_AutoConfidence :: "Confidence option"
  Match_AutoScore :: "int option"

definition NewMatch :: "string \<Rightarrow> string \<Rightarrow> string \<Rightarrow> MatchMethod \<Rightarrow> int \<Rightarrow> Match result" where
  "NewMatch ident vulnerabilityID componentID meth candidateSimilarity =
     guards [(ident = '''', EmptyField ''match id''),
             (vulnerabilityID = '''', EmptyField ''match vulnerability_id''),
             (componentID = '''', EmptyField ''match component_id'')]
       (rbind (Derive meth candidateSimilarity) (\<lambda>(conf, score).
          Ok \<lparr>Match_ID = ident, Match_VulnerabilityID = vulnerabilityID,
              Match_ComponentID = componentID, Match_Method = meth, Match_Confidence = conf,
              Match_Score = score, Match_RuleVersion = MatchRuleVersion, Match_Reasons = [],
              Match_DecisionRuleID = None, Match_AutoMethod = None, Match_AutoConfidence = None,
              Match_AutoScore = None\<rparr>))"

definition ApplyDecisionRule :: "Match \<Rightarrow> string \<Rightarrow> DecisionRule \<Rightarrow> string \<Rightarrow> Match result" where
  "ApplyDecisionRule m ruleID rule ruleVersion =
     guards [(ruleID = '''', EmptyField ''rule id''),
             (Rule_Revoked rule, BadState ''rule is revoked''),
             (ruleVersion = '''', EmptyField ''rule_version'')]
       (let out = m\<lparr>Match_Reasons := Match_Reasons m, Match_RuleVersion := ruleVersion,
                    Match_DecisionRuleID := Some ruleID\<rparr> in
        if Rule_Type rule = DecisionRuleTypeExclude then
          rbind (wrap_err ''exclude'' (Derive MatchMethodNoMatch 0)) (\<lambda>(conf, score).
            Ok (out\<lparr>Match_Method := MatchMethodNoMatch, Match_Confidence := conf,
                    Match_Score := score\<rparr>))
        else if Rule_Type rule = DecisionRuleTypeOverride then
          (case Rule_Action rule of
             None \<Rightarrow> Err (BadShape ''rule carries no action'')
           | Some a \<Rightarrow>
               rbind (wrap_err ''override'' (Derive (Action_Method a) (Action_Similarity a)))
                 (\<lambda>(conf, score).
                   Ok (out\<lparr>Match_Method := Action_Method a, Match_Confidence := conf,
                           Match_Score := score, Match_AutoMethod := Some (Match_Method m),
                           Match_AutoConfidence := Some (Match_Confidence m),
                           Match_AutoScore := Some (Match_Score m)\<rparr>)))
        else Err (InvalidValue ''DecisionRuleType'' (DecisionRuleType_str (Rule_Type rule))))"

section \<open>Lemmas\<close>

lemma matchRules_Valid: "matchRules m \<noteq> None \<longleftrightarrow> MatchMethod_Valid m"
  by (cases m) auto

lemma Derive_Ok_iff:
  "is_ok (Derive m sim) \<longleftrightarrow> MatchMethod_Valid m \<and> (m = MatchMethodCandidate \<longrightarrow> 1 \<le> sim \<and> sim \<le> 54)"
  by (cases m) (auto simp: Derive_def candidateScoreMin_def candidateScoreMax_def)

text \<open>The bands of the sort rank: candidates below every deterministic rank, above no match.\<close>

lemma Derive_bands:
  assumes "Derive m sim = Ok (conf, score)"
  shows "0 \<le> score" "score \<le> 100" "score = 0 \<longleftrightarrow> m = MatchMethodNoMatch"
    "conf = ConfidenceLow \<longleftrightarrow> m = MatchMethodCandidate"
    "m = MatchMethodCandidate \<longleftrightarrow> 0 < score \<and> score < 55"
    "conf = ConfidenceHigh \<longleftrightarrow> 80 \<le> score"
  using assms
  by (cases m; auto simp: Derive_def candidateScoreMin_def candidateScoreMax_def split: if_splits)+

lemma Derive_score_determines:
  "Derive m s = Ok (c, n) \<Longrightarrow> Derive m' s' = Ok (c', n) \<Longrightarrow> m = m'"
  by (cases m; cases m')
    (auto simp: Derive_def candidateScoreMin_def candidateScoreMax_def split: if_splits)

text \<open>The invariant of a match: derived values, and an auto triple that is all there or absent.\<close>

definition triple_ok :: "MatchMethod \<Rightarrow> Confidence \<Rightarrow> int \<Rightarrow> bool" where
  "triple_ok m conf score \<longleftrightarrow> Derive m score = Ok (conf, score)"

definition Match_wf :: "Match \<Rightarrow> bool" where
  "Match_wf m \<longleftrightarrow> Match_ID m \<noteq> '''' \<and> Match_VulnerabilityID m \<noteq> '''' \<and> Match_ComponentID m \<noteq> '''' \<and>
     Match_RuleVersion m \<noteq> '''' \<and>
     triple_ok (Match_Method m) (Match_Confidence m) (Match_Score m) \<and>
     (case (Match_AutoMethod m, Match_AutoConfidence m, Match_AutoScore m) of
        (None, None, None) \<Rightarrow> True
      | (Some am, Some ac, Some asc) \<Rightarrow> Match_DecisionRuleID m \<noteq> None \<and> triple_ok am ac asc
      | _ \<Rightarrow> False)"

lemma Derive_triple_ok: "Derive m sim = Ok (conf, score) \<Longrightarrow> triple_ok m conf score"
  by (cases m) (auto simp: triple_ok_def Derive_def split: if_splits)

lemma Derive_NoMatch [simp]: "Derive MatchMethodNoMatch s = Ok (ConfidenceNone, 0)"
  by (simp add: Derive_def)

lemma triple_ok_NoMatch [simp]: "triple_ok MatchMethodNoMatch ConfidenceNone 0"
  by (simp add: triple_ok_def)

lemma NewMatch_wf: "NewMatch ident v c meth sim = Ok m \<Longrightarrow> Match_wf m"
  by (auto simp: NewMatch_def Match_wf_def MatchRuleVersion_def result_simps dest: Derive_triple_ok)

lemma ApplyDecisionRule_Ok_iff:
  "ApplyDecisionRule m rid rule rv = Ok m' \<longleftrightarrow>
     rid \<noteq> '''' \<and> \<not> Rule_Revoked rule \<and> rv \<noteq> '''' \<and>
     (Rule_Type rule = DecisionRuleTypeExclude \<and>
        m' = m\<lparr>Match_RuleVersion := rv, Match_DecisionRuleID := Some rid,
               Match_Method := MatchMethodNoMatch, Match_Confidence := ConfidenceNone,
               Match_Score := 0\<rparr> \<or>
      Rule_Type rule = DecisionRuleTypeOverride \<and>
        (\<exists>a conf score. Rule_Action rule = Some a \<and>
           Derive (Action_Method a) (Action_Similarity a) = Ok (conf, score) \<and>
           m' = m\<lparr>Match_RuleVersion := rv, Match_DecisionRuleID := Some rid,
                  Match_Method := Action_Method a, Match_Confidence := conf, Match_Score := score,
                  Match_AutoMethod := Some (Match_Method m),
                  Match_AutoConfidence := Some (Match_Confidence m),
                  Match_AutoScore := Some (Match_Score m)\<rparr>))"
  by (cases "Rule_Type rule"; cases "Rule_Action rule")
    (auto simp: ApplyDecisionRule_def result_simps Let_def)

lemma ApplyDecisionRule_wf:
  assumes "Match_wf m" "ApplyDecisionRule m rid rule rv = Ok m'"
  shows "Match_wf m'"
proof -
  consider "m' = m\<lparr>Match_RuleVersion := rv, Match_DecisionRuleID := Some rid,
               Match_Method := MatchMethodNoMatch, Match_Confidence := ConfidenceNone,
               Match_Score := 0\<rparr>" "rv \<noteq> ''''"
    | a conf score where "Derive (Action_Method (a :: DecisionAction)) (Action_Similarity a) = Ok (conf, score)"
      "m' = m\<lparr>Match_RuleVersion := rv, Match_DecisionRuleID := Some rid,
                  Match_Method := Action_Method a, Match_Confidence := conf, Match_Score := score,
                  Match_AutoMethod := Some (Match_Method m),
                  Match_AutoConfidence := Some (Match_Confidence m),
                  Match_AutoScore := Some (Match_Score m)\<rparr>" "rv \<noteq> ''''"
    using assms(2) unfolding ApplyDecisionRule_Ok_iff by blast
  then show ?thesis
  proof cases
    case 1
    with assms(1) show ?thesis by (simp add: Match_wf_def split: option.splits)
  next
    case 2
    with assms(1) show ?thesis by (simp add: Match_wf_def Derive_triple_ok)
  qed
qed

text \<open>What a constructed rule looks like.\<close>

lemma checkAction_Ok_iff:
  "checkAction typ act = Ok () \<longleftrightarrow>
     typ = DecisionRuleTypeExclude \<and> act = None \<or>
     typ = DecisionRuleTypeOverride \<and>
       (\<exists>a. act = Some a \<and> is_ok (Derive (Action_Method a) (Action_Similarity a)) \<and>
            Action_Method a \<noteq> MatchMethodNoMatch \<and>
            (Action_Method a \<noteq> MatchMethodCandidate \<longrightarrow> Action_Similarity a = 0)) \<or>
     \<not> DecisionRuleType_Valid typ"
  by (cases "typ"; cases act)
    (auto simp: checkAction_def DecisionRuleType_Valid_def Derive_Ok_iff candidateScoreMin_def
      candidateScoreMax_def result_simps)

lemma NewDecisionRule_props:
  assumes "NewDecisionRule ident typ tgt act reason actor ver vf vu = Ok r"
  shows "Rule_ID r = ident" "ident \<noteq> ''''" "Rule_Type r = typ" "Rule_Target r = tgt" "Rule_Action r = act"
    "Rule_Version r = ver" "\<not> Rule_Revoked r" "hasAny tgt" "1 \<le> ver"
    "checkAction typ act = Ok ()" "DecisionRuleType_Valid typ"
  using assms by (auto simp: NewDecisionRule_def result_simps)

text \<open>The validity window is half open and an end bound in the past never applies again.\<close>

lemma AppliesAt_window:
  "AppliesAt r t \<longleftrightarrow> \<not> Rule_Revoked r \<and> (Rule_ValidFrom r = 0 \<or> Rule_ValidFrom r \<le> t) \<and>
     (Rule_ValidUntil r = 0 \<or> t < Rule_ValidUntil r)"
  by (auto simp: AppliesAt_def time_defs)

lemma AppliesAt_convex: "AppliesAt r t \<Longrightarrow> AppliesAt r v \<Longrightarrow> t \<le> u \<Longrightarrow> u \<le> v \<Longrightarrow> AppliesAt r u"
  by (auto simp: AppliesAt_window)

lemma Revoke_final: "Revoke r = Ok r' \<Longrightarrow> \<not> AppliesAt r' t \<and> \<not> is_ok (Revoke r')"
  by (auto simp: Revoke_def AppliesAt_window split: if_splits)

lemma RulesetVersion_Ok:
  "RulesetVersion a d = Ok s \<longleftrightarrow> 0 \<le> a \<and> 0 \<le> d \<and>
     s = CHR ''a'' # pad_zeros 10 (itoa (nat a)) @ CHR ''d'' # pad_zeros 10 (itoa (nat d))"
  by (auto simp: RulesetVersion_def result_simps rulesetVersionWidth_def)

text \<open>Two texts of equally long padded counters compare as the pair of counters.\<close>

lemma list_less_append_same: "length u = length v \<Longrightarrow> u @ x < v @ y \<longleftrightarrow> u < v \<or> u = v \<and> x < (y :: char list)"
  by (induction u v rule: list_induct2) auto

lemma padded_less:
  "m < 10 ^ w \<Longrightarrow> n < 10 ^ w \<Longrightarrow> 0 < w \<Longrightarrow> pad_zeros w (itoa m) < pad_zeros w (itoa n) \<longleftrightarrow> m < n"
  using digits_less_iff [of "pad_zeros w (itoa m)" "pad_zeros w (itoa n)"]
  by (simp add: pad_zeros_length pad_zeros_props)

lemma padded_eq:
  "pad_zeros w (itoa m) = pad_zeros w (itoa n) \<longleftrightarrow> m = n"
  using pad_zeros_props(1) by metis

text \<open>The life of a match row: constructed, then stamped by decision rules.\<close>

inductive match_history :: "Match \<Rightarrow> bool" where
  computed: "NewMatch ident v c meth sim = Ok m \<Longrightarrow> match_history m"
| stamped: "match_history m \<Longrightarrow> ApplyDecisionRule m rid rule rv = Ok m' \<Longrightarrow> match_history m'"

lemma match_history_wf: "match_history m \<Longrightarrow> Match_wf m"
  by (induction rule: match_history.induct) (auto intro: NewMatch_wf ApplyDecisionRule_wf)

lemma triple_ok_bands:
  "triple_ok m conf score \<Longrightarrow>
     0 \<le> score \<and> score \<le> 100 \<and> (score = 0 \<longleftrightarrow> m = MatchMethodNoMatch) \<and>
     (m = MatchMethodCandidate \<longleftrightarrow> 0 < score \<and> score < 55) \<and>
     (conf = ConfidenceHigh \<longleftrightarrow> 80 \<le> score) \<and> MatchMethod_Valid m"
  using Derive_bands [of m score conf score] Derive_Ok_iff [of m score]
  by (simp add: triple_ok_def is_ok_iff)

lemma Match_wf_triple:
  "Match_wf m \<Longrightarrow> triple_ok (Match_Method m) (Match_Confidence m) (Match_Score m)"
  by (simp add: Match_wf_def)

section \<open>Properties\<close>

text \<open>Method-led matching. On every match row the code can produce, by constructing it and
  stamping any number of decision rules on it, confidence and score are those the mapping
  derives from the method: the score lies in 0..100, is 0 exactly for no_match, lies in 1..54
  exactly for a candidate, the confidence is high exactly from rank 80 up, and the raw triple
  kept by an override is complete (or absent) and itself derived.\<close>

theorem match_rows_are_derived:
  assumes "match_history m"
  shows "Match_wf m \<and> 0 \<le> Match_Score m \<and> Match_Score m \<le> 100 \<and>
    MatchMethod_Valid (Match_Method m) \<and>
    (Match_Score m = 0 \<longleftrightarrow> Match_Method m = MatchMethodNoMatch) \<and>
    (Match_Method m = MatchMethodCandidate \<longleftrightarrow> 0 < Match_Score m \<and> Match_Score m < 55) \<and>
    (Match_Confidence m = ConfidenceHigh \<longleftrightarrow> 80 \<le> Match_Score m)"
  using match_history_wf [OF assms] triple_ok_bands [OF Match_wf_triple] by blast

definition ex_match :: Match where
  "ex_match = \<lparr>Match_ID = ''m'', Match_VulnerabilityID = ''v'', Match_ComponentID = ''c'',
     Match_Method = MatchMethodCandidate, Match_Confidence = ConfidenceLow, Match_Score = 40,
     Match_RuleVersion = ''i1b-1'', Match_Reasons = [], Match_DecisionRuleID = None,
     Match_AutoMethod = None, Match_AutoConfidence = None, Match_AutoScore = None\<rparr>"

definition ex_rule :: DecisionRule where
  "ex_rule = \<lparr>Rule_ID = ''r'', Rule_Type = DecisionRuleTypeOverride,
     Rule_Target = \<lparr>Target_CVEID = ''CVE-2024-1'', Target_Vendor = '''', Target_Product = '''',
       Target_ComponentID = ''''\<rparr>,
     Rule_Action = Some \<lparr>Action_Method = MatchMethodExactIdentifier, Action_Similarity = 0\<rparr>,
     Rule_Reason = ''verified'', Rule_Version = 1, Rule_ActorID = ''u'', Rule_ValidFrom = 0,
     Rule_ValidUntil = 0, Rule_Revoked = False\<rparr>"

definition ex_overridden :: Match where
  "ex_overridden = ex_match\<lparr>Match_RuleVersion := ''a0d1'', Match_DecisionRuleID := Some ''r'',
     Match_Method := MatchMethodExactIdentifier, Match_Confidence := ConfidenceHigh,
     Match_Score := 100, Match_AutoMethod := Some MatchMethodCandidate,
     Match_AutoConfidence := Some ConfidenceLow, Match_AutoScore := Some 40\<rparr>"

lemma ex_match_new: "NewMatch ''m'' ''v'' ''c'' MatchMethodCandidate 40 = Ok ex_match"
  by (simp add: NewMatch_def ex_match_def Derive_def candidateScoreMin_def candidateScoreMax_def
      MatchRuleVersion_def)

lemma ex_rule_new:
  "NewDecisionRule ''r'' DecisionRuleTypeOverride (Rule_Target ex_rule) (Rule_Action ex_rule)
     ''verified'' ''u'' 1 0 0 = Ok ex_rule"
  by (simp add: NewDecisionRule_def ex_rule_def checkAction_def DecisionRuleType_Valid_def
      hasAny_def time_IsZero_def)

lemma ex_override: "ApplyDecisionRule ex_match ''r'' ex_rule ''a0d1'' = Ok ex_overridden"
  by (simp add: ApplyDecisionRule_def ex_rule_def ex_match_def ex_overridden_def Derive_def)

theorem match_rows_are_derived_witness:
  "match_history ex_overridden \<and> Match_wf ex_overridden"
proof -
  have "match_history ex_overridden"
    by (rule match_history.stamped [OF match_history.computed [OF ex_match_new] ex_override])
  then show ?thesis using match_rows_are_derived [of ex_overridden] by blast
qed

text \<open>Decision rules survive recomputation. A rule that its constructor accepted and that is
  not revoked can always be applied to any computed match; the result names the rule and the
  ruleset version and keeps the reasons. An exclusion yields a visible no_match of score 0 and
  leaves the auto fields alone; an override yields the forced method with its derived values and
  moves the raw triple into the auto fields, so the raw triple can be restored.\<close>

theorem decision_rule_outcome:
  assumes "NewDecisionRule ident ty tgt act reason actor ver vf vu = Ok rule"
    and "rid \<noteq> ''''" "rv \<noteq> ''''"
  shows "\<exists>m'. ApplyDecisionRule m rid rule rv = Ok m' \<and> Match_DecisionRuleID m' = Some rid \<and>
    Match_RuleVersion m' = rv \<and> Match_Reasons m' = Match_Reasons m \<and>
    (if ty = DecisionRuleTypeExclude
     then Match_Method m' = MatchMethodNoMatch \<and> Match_Score m' = 0 \<and>
       Match_Confidence m' = ConfidenceNone \<and> Match_AutoMethod m' = Match_AutoMethod m \<and>
       Match_AutoConfidence m' = Match_AutoConfidence m \<and> Match_AutoScore m' = Match_AutoScore m
     else (\<exists>a. act = Some a \<and> Match_Method m' = Action_Method a \<and>
        Derive (Action_Method a) (Action_Similarity a) = Ok (Match_Confidence m', Match_Score m')) \<and>
       Match_AutoMethod m' = Some (Match_Method m) \<and>
       Match_AutoConfidence m' = Some (Match_Confidence m) \<and>
       Match_AutoScore m' = Some (Match_Score m))"
proof -
  note r = NewDecisionRule_props [OF assms(1)]
  then consider "ty = DecisionRuleTypeExclude" "act = None"
    | a where "ty = DecisionRuleTypeOverride" "act = Some a"
      "is_ok (Derive (Action_Method a) (Action_Similarity a))"
    unfolding checkAction_Ok_iff by blast
  then show ?thesis
  proof cases
    case 1
    then show ?thesis using r assms(2,3) by (simp add: ApplyDecisionRule_Ok_iff)
  next
    case 2
    then obtain conf score where "Derive (Action_Method a) (Action_Similarity a) = Ok (conf, score)"
      by (auto simp: is_ok_iff)
    then show ?thesis using 2 r assms(2,3) by (simp add: ApplyDecisionRule_Ok_iff)
  qed
qed

theorem decision_rule_outcome_witness:
  "Match_AutoScore ex_overridden = Some 40 \<and> Match_Score ex_overridden = 100"
  using decision_rule_outcome [OF ex_rule_new, of "''r''" "''a0d1''" ex_match] ex_override
  by (simp add: ex_match_def ex_rule_def Derive_def)

text \<open>The text order of the composite ruleset version is the numeric order of the pair of
  counters (alias version first), and different pairs have different texts, as long as both
  counters stay below ten to the tenth, the padding width.\<close>

theorem ruleset_version_order:
  assumes "RulesetVersion a d = Ok s" "RulesetVersion a' d' = Ok s'"
    and "a < 10 ^ 10" "d < 10 ^ 10" "a' < 10 ^ 10" "d' < 10 ^ 10"
  shows "(s < s' \<longleftrightarrow> a < a' \<or> a = a' \<and> d < d') \<and> (s = s' \<longleftrightarrow> a = a' \<and> d = d')"
proof -
  let ?p = "\<lambda>n. pad_zeros 10 (itoa (nat n))"
  have s: "s = CHR ''a'' # ?p a @ CHR ''d'' # ?p d" "s' = CHR ''a'' # ?p a' @ CHR ''d'' # ?p d'"
    and nn: "0 \<le> a" "0 \<le> d" "0 \<le> a'" "0 \<le> d'"
    using assms(1,2) by (auto simp: RulesetVersion_Ok)
  have b: "nat a < 10 ^ 10" "nat d < 10 ^ 10" "nat a' < 10 ^ 10" "nat d' < 10 ^ 10"
    using assms(3-6) nn by simp_all
  have len: "length (?p a) = length (?p a')" using b by (simp add: pad_zeros_length)
  have "s < s' \<longleftrightarrow> nat a < nat a' \<or> nat a = nat a' \<and> nat d < nat d'"
    using b by (simp add: s list_less_append_same [OF len] padded_less padded_eq)
  moreover have "s = s' \<longleftrightarrow> nat a = nat a' \<and> nat d = nat d'"
    using len by (simp add: s padded_eq)
  ultimately show ?thesis using nn by auto
qed

theorem ruleset_version_order_witness:
  "\<exists>s s'. RulesetVersion 2 1 = Ok s \<and> RulesetVersion 10 1 = Ok s' \<and> s < s'"
proof -
  obtain s s' where r: "RulesetVersion 2 1 = Ok s" "RulesetVersion 10 1 = Ok s'"
    using RulesetVersion_Ok by fastforce
  then show ?thesis using ruleset_version_order [OF r] by simp
qed

end
