(* ===== verification/Float64.thy ===== *)
theory Float64
  imports Complex_Main
begin

text \<open>
  Go's \<open>float64\<close> for finite values: a value is a rational, and every arithmetic operation
  rounds its exact result to 53 significant bits, ties to even, with the exponent of the
  smallest normal number as lower bound (subnormals). Infinities, NaN and the sign of zero
  are not modelled; no operation modelled here leaves the finite range. A fused
  multiply-add, which Go permits on some architectures, is not modelled either.
\<close>

section \<open>Rounding\<close>

definition pow2 :: "int \<Rightarrow> rat" where
  "pow2 e = (if 0 \<le> e then 2 ^ nat e else 1 / 2 ^ nat (- e))"

fun log2_nat :: "nat \<Rightarrow> nat" where
  "log2_nat n = (if n < 2 then 0 else Suc (log2_nat (n div 2)))"

declare log2_nat.simps [simp del]

text \<open>The exponent of a positive rational: \<open>pow2 e \<le> x < pow2 (e + 1)\<close>.\<close>

definition exponent :: "rat \<Rightarrow> int" where
  "exponent x =
     (let (p, q) = quotient_of x; d = int (log2_nat (nat p)) - int (log2_nat (nat q))
      in if pow2 d \<le> x then d else d - 1)"

definition round_half_even :: "rat \<Rightarrow> int" where
  "round_half_even x =
     (let n = \<lfloor>x\<rfloor>; r = x - of_int n
      in if r < 1 / 2 then n else if 1 / 2 < r then n + 1 else if even n then n else n + 1)"

definition fl_pos :: "rat \<Rightarrow> rat" where
  "fl_pos x =
     (let u = pow2 (max (exponent x) (- 1022) - 52) in of_int (round_half_even (x / u)) * u)"

definition fl :: "rat \<Rightarrow> rat" where
  "fl x = (if x = 0 then 0 else if 0 < x then fl_pos x else - fl_pos (- x))"

text \<open>The operators of the language on \<open>float64\<close>, and \<open>int(x)\<close>, which truncates.\<close>

definition f_add :: "rat \<Rightarrow> rat \<Rightarrow> rat" where "f_add x y = fl (x + y)"
definition f_sub :: "rat \<Rightarrow> rat \<Rightarrow> rat" where "f_sub x y = fl (x - y)"
definition f_mul :: "rat \<Rightarrow> rat \<Rightarrow> rat" where "f_mul x y = fl (x * y)"
definition f_div :: "rat \<Rightarrow> rat \<Rightarrow> rat" where "f_div x y = fl (x / y)"

definition f_to_int :: "rat \<Rightarrow> int" where
  "f_to_int x = (if 0 \<le> x then \<lfloor>x\<rfloor> else - \<lfloor>- x\<rfloor>)"

text \<open>The values a \<open>float64\<close> can hold are those that rounding leaves alone.\<close>

definition is_f64 :: "rat \<Rightarrow> bool" where
  "is_f64 x \<longleftrightarrow> fl x = x"

section \<open>Powers of two\<close>

lemma pow2_powi: "pow2 e = 2 powi e"
  by (simp add: pow2_def power_int_def field_simps)

lemma pow2_pos [simp]: "0 < pow2 e"
  by (simp add: pow2_powi)

lemma pow2_neq_0 [simp]: "pow2 e \<noteq> 0"
  using pow2_pos [of e] by linarith

lemma pow2_add: "pow2 (a + b) = pow2 a * pow2 b"
  by (simp add: pow2_powi power_int_add)

lemma pow2_diff: "pow2 (a - b) = pow2 a / pow2 b"
  by (simp add: pow2_powi power_int_diff)

lemma pow2_Suc: "pow2 (a + 1) = 2 * pow2 a"
  by (simp add: pow2_add) (simp add: pow2_def)

lemma pow2_nat [simp]: "pow2 (int n) = 2 ^ n"
  by (simp add: pow2_def)

lemma pow2_less: "a < b \<Longrightarrow> pow2 a < pow2 b"
  by (simp add: pow2_powi power_int_strict_increasing)

lemma pow2_less_iff [simp]: "pow2 a < pow2 b \<longleftrightarrow> a < b"
  by (metis less_asym linorder_less_linear pow2_less)

lemma pow2_le_iff [simp]: "pow2 a \<le> pow2 b \<longleftrightarrow> a \<le> b"
  by (simp add: not_less [symmetric])

lemma log2_nat_bounds: "0 < n \<Longrightarrow> 2 ^ log2_nat n \<le> n \<and> n < 2 * 2 ^ log2_nat n"
proof (induction n rule: log2_nat.induct)
  case (1 n)
  show ?case
  proof (cases "n < 2")
    case True
    with "1.prems" show ?thesis by (subst (1 2) log2_nat.simps) simp
  next
    case False
    then have "2 ^ log2_nat (n div 2) \<le> n div 2 \<and> n div 2 < 2 * 2 ^ log2_nat (n div 2)"
      using "1.IH" by simp
    then have "2 * 2 ^ log2_nat (n div 2) \<le> n \<and> n < 2 * (2 * 2 ^ log2_nat (n div 2))" by linarith
    with False show ?thesis by (subst (1 2) log2_nat.simps) simp
  qed
qed

lemma log2_nat_rat:
  "0 < p \<Longrightarrow> pow2 (int (log2_nat (nat p))) \<le> of_int p \<and> of_int p < pow2 (int (log2_nat (nat p)) + 1)"
proof -
  assume p: "0 < p"
  let ?l = "log2_nat (nat p)"
  have "2 ^ ?l \<le> nat p \<and> nat p < 2 * 2 ^ ?l" using p by (intro log2_nat_bounds) simp
  then have "(of_nat (2 ^ ?l) :: rat) \<le> of_nat (nat p) \<and> (of_nat (nat p) :: rat) < of_nat (2 * 2 ^ ?l)"
    unfolding of_nat_le_iff of_nat_less_iff .
  then show ?thesis using p by (simp add: pow2_Suc)
qed

lemma exponent_bounds:
  assumes "0 < x"
  shows "pow2 (exponent x) \<le> x \<and> x < pow2 (exponent x + 1)"
proof -
  obtain p q where pq: "quotient_of x = (p, q)" by (cases "quotient_of x")
  have q: "0 < q" using quotient_of_denom_pos [OF pq] .
  have x: "x = of_int p / of_int q" using quotient_of_div [OF pq] .
  with assms q have p: "0 < p" by (simp add: zero_less_divide_iff)
  let ?a = "int (log2_nat (nat p))" and ?b = "int (log2_nat (nat q))"
  note P = log2_nat_rat [OF p] and Q = log2_nat_rat [OF q]
  have q': "(0::rat) < of_int q" using q by simp
  have "of_int p / of_int q < pow2 (?a + 1) / pow2 ?b"
    using P Q q' p by (intro frac_less) simp_all
  then have hi: "x < pow2 (?a - ?b + 1)" by (simp add: x pow2_add pow2_diff)
  have "pow2 ?a / pow2 (?b + 1) \<le> of_int p / of_int q"
    using P Q q' p by (intro frac_le) simp_all
  then have lo: "pow2 (?a - ?b - 1) \<le> x" by (simp add: x pow2_add pow2_diff field_simps)
  show ?thesis using hi lo by (auto simp: exponent_def pq Let_def)
qed

lemma exponent_unique: "pow2 e \<le> x \<Longrightarrow> x < pow2 (e + 1) \<Longrightarrow> exponent x = e"
proof -
  assume e: "pow2 e \<le> x" "x < pow2 (e + 1)"
  then have "0 < x" using pow2_pos [of e] by linarith
  note b = exponent_bounds [OF this]
  have "pow2 e < pow2 (exponent x + 1)" "pow2 (exponent x) < pow2 (e + 1)"
    using e b by linarith+
  then show ?thesis by simp
qed

lemma exponent_mono: "0 < x \<Longrightarrow> x \<le> y \<Longrightarrow> exponent x \<le> exponent y"
proof -
  assume xy: "0 < x" "x \<le> y"
  then have "pow2 (exponent x) < pow2 (exponent y + 1)"
    using exponent_bounds [of x] exponent_bounds [of y] by linarith
  then show ?thesis by simp
qed

section \<open>Rounding is monotone and exact on representable values\<close>

lemma rhe_of_int [simp]: "round_half_even (of_int n) = n"
  by (simp add: round_half_even_def)

lemma rhe_bounds: "\<lfloor>x\<rfloor> \<le> round_half_even x \<and> round_half_even x \<le> \<lfloor>x\<rfloor> + 1"
  by (simp add: round_half_even_def Let_def)

lemma rhe_mono: "x \<le> y \<Longrightarrow> round_half_even x \<le> round_half_even y"
proof -
  assume xy: "x \<le> y"
  then have f: "\<lfloor>x\<rfloor> \<le> \<lfloor>y\<rfloor>" by (rule floor_mono)
  show ?thesis
  proof (cases "\<lfloor>x\<rfloor> = \<lfloor>y\<rfloor>")
    case True
    with xy show ?thesis by (auto simp: round_half_even_def Let_def)
  next
    case False
    with f rhe_bounds [of x] rhe_bounds [of y] show ?thesis by linarith
  qed
qed

lemma fl_pos_grid: "max (exponent x) (- 1022) = k \<Longrightarrow>
    fl_pos x = of_int (round_half_even (x / pow2 (k - 52))) * pow2 (k - 52)"
  by (simp add: fl_pos_def Let_def)

lemma pow2_grid:
  assumes "k - 52 \<le> e"
  shows "of_int (round_half_even (pow2 e / pow2 (k - 52))) * pow2 (k - 52) = pow2 e"
proof -
  obtain n where n: "e = k - 52 + int n" using assms zle_iff_zadd by blast
  have "pow2 e / pow2 (k - 52) = of_int (2 ^ n)" by (simp add: n pow2_add)
  then have "of_int (round_half_even (pow2 e / pow2 (k - 52))) = pow2 e / pow2 (k - 52)"
    by (metis rhe_of_int)
  then show ?thesis by simp
qed

lemma fl_pos_mono:
  assumes "0 < x" "x \<le> y"
  shows "fl_pos x \<le> fl_pos y"
proof -
  define k where "k = max (exponent x) (- 1022)"
  define l where "l = max (exponent y) (- 1022)"
  have kl: "k \<le> l" using exponent_mono [OF assms] by (simp add: k_def l_def)
  have fx: "fl_pos x = of_int (round_half_even (x / pow2 (k - 52))) * pow2 (k - 52)"
    by (rule fl_pos_grid) (simp add: k_def)
  have fy: "fl_pos y = of_int (round_half_even (y / pow2 (l - 52))) * pow2 (l - 52)"
    by (rule fl_pos_grid) (simp add: l_def)
  have grid: "of_int (round_half_even (v / pow2 j)) * pow2 j \<le> of_int (round_half_even (w / pow2 j)) * pow2 j"
    if "v \<le> w" for v w j
    using that by (intro mult_right_mono) (simp_all add: rhe_mono divide_right_mono less_imp_le)
  show ?thesis
  proof (cases "k = l")
    case True
    with grid [OF assms(2)] show ?thesis by (simp add: fx fy)
  next
    case False
    with kl have lk: "k + 1 \<le> l" by simp
    then have ly: "exponent y = l" by (simp add: l_def k_def max_def split: if_splits)
    have "x < pow2 (exponent x + 1)" using exponent_bounds [OF assms(1)] by simp
    also have "pow2 (exponent x + 1) \<le> pow2 (k + 1)" by (simp add: k_def)
    finally have x: "x \<le> pow2 (k + 1)" by simp
    have y: "pow2 l \<le> y" using exponent_bounds [of y] assms ly by simp
    have "fl_pos x \<le> pow2 (k + 1)"
      using grid [OF x, of "k - 52"] pow2_grid [of k "k + 1"] by (simp add: fx)
    also have "pow2 (k + 1) \<le> pow2 l" using lk by simp
    also have "pow2 l \<le> fl_pos y"
      using grid [OF y, of "l - 52"] pow2_grid [of l l] by (simp add: fy)
    finally show ?thesis .
  qed
qed

lemma fl_pos_nonneg: "0 < x \<Longrightarrow> 0 \<le> fl_pos x"
proof -
  assume "0 < x"
  then have "0 \<le> round_half_even (x / pow2 j)" for j
    using rhe_mono [of 0 "x / pow2 j"] rhe_of_int [of 0] \<open>0 < x\<close> by (simp add: less_imp_le)
  then show ?thesis
    unfolding fl_pos_def Let_def by (intro mult_nonneg_nonneg) (simp_all add: less_imp_le)
qed

lemma fl_mono: "x \<le> y \<Longrightarrow> fl x \<le> fl y"
proof -
  assume xy: "x \<le> y"
  consider "0 < x" | "x \<le> 0" "0 \<le> y" | "y < 0" by linarith
  then show ?thesis
  proof cases
    case 1
    with xy show ?thesis by (simp add: fl_def fl_pos_mono)
  next
    case 2
    then show ?thesis
      using fl_pos_nonneg [of "- x"] fl_pos_nonneg [of y] by (auto simp: fl_def)
  next
    case 3
    with xy show ?thesis by (simp add: fl_def fl_pos_mono)
  qed
qed

lemma fl_0 [simp]: "fl 0 = 0"
  by (simp add: fl_def)

lemma fl_nonneg: "0 \<le> x \<Longrightarrow> 0 \<le> fl x"
  using fl_mono [of 0 x] by simp

text \<open>How \<open>fl\<close> is computed at a normal number, given its exponent.\<close>

lemma fl_at:
  assumes "pow2 e \<le> x" "x < pow2 (e + 1)" "- 1022 \<le> e"
  shows "fl x = of_int (round_half_even (x / pow2 (e - 52))) * pow2 (e - 52)"
proof -
  have "0 < x" using assms(1) pow2_pos [of e] by linarith
  moreover have "exponent x = e" using assms by (intro exponent_unique)
  ultimately show ?thesis
    using assms(3) fl_pos_grid [of x e] by (simp add: fl_def max_def)
qed

lemma rhe_eq: "\<bar>x - of_int n\<bar> < 1 / 2 \<Longrightarrow> round_half_even x = n"
proof -
  assume a: "\<bar>x - of_int n\<bar> < 1 / 2"
  show ?thesis
  proof (cases "of_int n \<le> x")
    case True
    with a have "\<lfloor>x\<rfloor> = n" by (intro floor_unique) linarith+
    with a True show ?thesis by (simp add: round_half_even_def Let_def)
  next
    case False
    with a have "\<lfloor>x\<rfloor> = n - 1" by (intro floor_unique) (simp_all add: abs_if split: if_splits)
    with a False show ?thesis by (simp add: round_half_even_def Let_def abs_if split: if_splits)
  qed
qed

lemma fl_eq:
  assumes "pow2 e \<le> x" "x < pow2 (e + 1)" "- 1022 \<le> e" "\<bar>x / pow2 (e - 52) - of_int n\<bar> < 1 / 2"
  shows "fl x = of_int n * pow2 (e - 52)"
  using fl_at [OF assms(1-3)] rhe_eq [OF assms(4)] by simp

lemma fl_of_int:
  assumes "\<bar>n\<bar> < 2 ^ 53"
  shows "fl (of_int n) = of_int n"
proof -
  have pos: "fl (of_int m) = of_int m" if "0 < m" "m < 2 ^ 53" for m :: int
  proof -
    have m: "(0::rat) < of_int m" using that by simp
    define e where "e = exponent (of_int m :: rat)"
    have b: "pow2 e \<le> of_int m" "of_int m < pow2 (e + 1)"
      using exponent_bounds [OF m] by (simp_all add: e_def)
    have "pow2 0 \<le> (of_int m :: rat)" using that by (simp add: pow2_def)
    with b have "pow2 0 < pow2 (e + 1)" by linarith
    then have e0: "0 \<le> e" by simp
    have "(of_int m :: rat) < of_int (2 ^ 53)" using that unfolding of_int_less_iff by simp
    also have "\<dots> = pow2 (int 53)" by (simp only: pow2_nat of_int_power of_int_numeral)
    finally have "of_int m < pow2 53" by simp
    with b have "pow2 e < pow2 53" by linarith
    then have e52: "e \<le> 52" by simp
    define k where "k = nat (52 - e)"
    have k: "e - 52 = - int k" using e52 by (simp add: k_def)
    have p: "pow2 (- int k) = 1 / 2 ^ k" by (cases k) (simp_all add: pow2_def nat_add_distrib)
    have "(of_int m :: rat) / pow2 (e - 52) = of_int (m * 2 ^ k)" by (simp add: k p)
    then have "round_half_even (of_int m / pow2 (e - 52)) = m * 2 ^ k" by (metis rhe_of_int)
    then show ?thesis using fl_at [OF b] e0 by (simp add: k p)
  qed
  show ?thesis
  proof (cases "0 < n")
    case True
    with pos [of n] assms show ?thesis by simp
  next
    case False
    show ?thesis
    proof (cases "n = 0")
      case True
      then show ?thesis by simp
    next
      case False
      with \<open>\<not> 0 < n\<close> have n: "n < 0" by simp
      then have "fl (of_int (- n)) = of_int (- n)" using pos [of "- n"] assms by simp
      with n show ?thesis by (simp add: fl_def)
    qed
  qed
qed

lemma fl_double:
  assumes "is_f64 x" "0 < x"
  shows "fl (2 * x) = 2 * x"
proof -
  have e: "exponent (2 * x) = exponent x + 1"
    using exponent_bounds [OF assms(2)] pow2_Suc [of "exponent x + 1"]
    by (intro exponent_unique) (simp_all add: pow2_Suc)
  define k where "k = max (exponent x) (- 1022)"
  have fx: "x = of_int (round_half_even (x / pow2 (k - 52))) * pow2 (k - 52)"
    using assms fl_pos_grid [of x k] by (simp add: is_f64_def fl_def k_def)
  define n where "n = round_half_even (x / pow2 (k - 52))"
  define l where "l = max (exponent x + 1) (- 1022)"
  have fl2: "fl (2 * x) = of_int (round_half_even (2 * x / pow2 (l - 52))) * pow2 (l - 52)"
    using assms(2) fl_pos_grid [of "2 * x" l] by (simp add: fl_def e l_def)
  consider "l = k + 1" | "l = k" by (simp add: l_def k_def) linarith
  then show ?thesis
  proof cases
    case 1
    then have p: "pow2 (l - 52) = 2 * pow2 (k - 52)" using pow2_Suc [of "k - 52"] by simp
    then have "2 * x / pow2 (l - 52) = of_int n" by (subst fx) (simp add: n_def)
    then have "round_half_even (2 * x / pow2 (l - 52)) = n" by (metis rhe_of_int)
    then show ?thesis using fl2 fx by (simp add: p n_def)
  next
    case 2
    then have "2 * x / pow2 (l - 52) = of_int (2 * n)" by (subst fx) (simp add: n_def)
    then have "round_half_even (2 * x / pow2 (l - 52)) = 2 * n" by (metis rhe_of_int)
    then show ?thesis using fl2 fx 2 by (simp add: n_def)
  qed
qed

text \<open>The midpoint of two representable values lies between them.\<close>

lemma f_midpoint:
  assumes "is_f64 a" "is_f64 b" "0 \<le> a" "a \<le> b" "0 < b"
  shows "0 \<le> f_div (f_add a b) 2" "f_div (f_add a b) 2 \<le> b"
proof -
  have "fl (a + b) \<le> fl (2 * b)" using assms(4) by (intro fl_mono) simp
  also have "\<dots> = 2 * b" using assms(2,5) by (rule fl_double)
  finally have "fl (a + b) / 2 \<le> b" by simp
  then have "fl (fl (a + b) / 2) \<le> fl b" by (rule fl_mono)
  then show "f_div (f_add a b) 2 \<le> b" using assms(2) by (simp add: f_div_def f_add_def is_f64_def)
  show "0 \<le> f_div (f_add a b) 2"
    using assms(3,4) by (simp add: f_div_def f_add_def fl_nonneg)
qed

lemma f_to_int_mono: "0 \<le> x \<Longrightarrow> x \<le> y \<Longrightarrow> f_to_int x \<le> f_to_int y"
  by (simp add: f_to_int_def floor_mono)

end
