(* ===== verification/PriorityRules.thy ===== *)
theory PriorityRules
  imports MatchMapping Float64
begin

text \<open>
  Priority computation (internal/domain: predicate.go, priority_rules.go, and the factors of
  risksignal.go): the bounded predicate language over the priority factors, the versioned
  ruleset evaluated first match wins, the seed ruleset of ch. 9.3 and the validation of an
  operator's ruleset on a grid of probe cells.
\<close>

section \<open>Factors\<close>

record PriorityFactors =
  F_Method :: MatchMethod
  F_Confidence :: Confidence
  F_KEV :: bool
  F_CVSS :: rat
  F_EPSS :: rat
  F_Criticality :: Criticality
  F_Exposure :: Exposure

definition PriorityFactors_Validate :: "PriorityFactors \<Rightarrow> unit result" where
  "PriorityFactors_Validate f =
     (let (derived, ok) = MatchMethod_Confidence (F_Method f) in
      guards [(\<not> MatchMethod_Valid (F_Method f),
                 InvalidValue ''match method'' (MatchMethod_str (F_Method f))),
              (\<not> ok \<or> derived \<noteq> F_Confidence f, BadShape ''confidence inconsistent with method''),
              (\<not> Criticality_Valid (F_Criticality f),
                 InvalidValue ''criticality'' (Criticality_str (F_Criticality f))),
              (\<not> Exposure_Valid (F_Exposure f),
                 InvalidValue ''exposure'' (Exposure_str (F_Exposure f))),
              (F_CVSS f < 0 \<or> F_CVSS f > 10, OutOfRange ''cvss''),
              (F_EPSS f < 0 \<or> F_EPSS f > 1, OutOfRange ''epss'')]
        (Ok ()))"

section \<open>The predicate language\<close>

datatype RuleValueKind =
    RuleValueBool | RuleValueString | RuleValueNumber | OtherRuleValueKind string

record RuleValue =
  Val_Kind :: RuleValueKind
  Val_Bool :: bool
  Val_Str :: string
  Val_Num :: rat

text \<open>The constructors return pointers: a present value.\<close>

definition BoolValue :: "bool \<Rightarrow> RuleValue option" where
  "BoolValue b = Some \<lparr>Val_Kind = RuleValueBool, Val_Bool = b, Val_Str = '''', Val_Num = 0\<rparr>"

definition StringValue :: "string \<Rightarrow> RuleValue option" where
  "StringValue s = Some \<lparr>Val_Kind = RuleValueString, Val_Bool = False, Val_Str = s, Val_Num = 0\<rparr>"

definition NumberValue :: "rat \<Rightarrow> RuleValue option" where
  "NumberValue x = Some \<lparr>Val_Kind = RuleValueNumber, Val_Bool = False, Val_Str = '''', Val_Num = x\<rparr>"

definition AsBool :: "RuleValue \<Rightarrow> bool \<times> bool" where
  "AsBool v = (if Val_Kind v \<noteq> RuleValueBool then (False, False) else (Val_Bool v, True))"

definition AsString :: "RuleValue \<Rightarrow> string \<times> bool" where
  "AsString v = (if Val_Kind v \<noteq> RuleValueString then ('''', False) else (Val_Str v, True))"

definition AsNumber :: "RuleValue \<Rightarrow> rat \<times> bool" where
  "AsNumber v = (if Val_Kind v \<noteq> RuleValueNumber then (0, False) else (Val_Num v, True))"

text \<open>
  One node, with the struct's fields in order: \<open>AllOf\<close>, \<open>AnyOf\<close>, \<open>Op\<close> (the empty string
  when absent), \<open>Field\<close>, \<open>Value\<close> (a pointer), \<open>Values\<close>.
\<close>

datatype RuleDefinition =
  RuleNode
    (Node_AllOf: "RuleDefinition list")
    (Node_AnyOf: "RuleDefinition list")
    (Node_Op: RuleOp)
    (Node_Field: FactorField)
    (Node_Value: "RuleValue option")
    (Node_Values: "string list")

abbreviation noOp :: RuleOp where "noOp \<equiv> OtherRuleOp ''''"
abbreviation noField :: FactorField where "noField \<equiv> OtherFactorField ''''"

text \<open>Literals of the seed: a group and the two forms of an atom.\<close>

abbreviation allOf :: "RuleDefinition list \<Rightarrow> RuleDefinition" where
  "allOf cs \<equiv> RuleNode cs [] noOp noField None []"
abbreviation anyOf :: "RuleDefinition list \<Rightarrow> RuleDefinition" where
  "anyOf cs \<equiv> RuleNode [] cs noOp noField None []"
abbreviation atomValue :: "RuleOp \<Rightarrow> FactorField \<Rightarrow> RuleValue option \<Rightarrow> RuleDefinition" where
  "atomValue op fld v \<equiv> RuleNode [] [] op fld v []"
abbreviation atomValues :: "RuleOp \<Rightarrow> FactorField \<Rightarrow> string list \<Rightarrow> RuleDefinition" where
  "atomValues op fld vs \<equiv> RuleNode [] [] op fld None vs"

definition validFieldValue :: "FactorField \<Rightarrow> string \<Rightarrow> bool" where
  "validFieldValue f v =
     (if f = FieldConfidence then is_ok (ParseConfidence v)
      else if f = FieldCriticality then is_ok (ParseCriticality v)
      else if f = FieldExposure then is_ok (ParseExposure v)
      else False)"

definition string_field :: "FactorField \<Rightarrow> bool" where
  "string_field f \<longleftrightarrow> f = FieldConfidence \<or> f = FieldCriticality \<or> f = FieldExposure"

definition validateRuleAtom ::
  "RuleOp \<Rightarrow> FactorField \<Rightarrow> RuleValue option \<Rightarrow> string list \<Rightarrow> unit result" where
  "validateRuleAtom op fld val vals =
     (if \<not> RuleOp_Valid op then Err (InvalidValue ''rule op'' (RuleOp_str op))
      else if \<not> FactorField_Valid fld then Err (InvalidValue ''rule field'' (FactorField_str fld))
      else if op = RuleOpEq then
        (case val of
           None \<Rightarrow> Err (BadShape ''eq requires a value'')
         | Some v \<Rightarrow>
             if length vals > 0 then Err (BadShape ''eq must not carry values'')
             else if fld = FieldKEV then
               (if \<not> snd (AsBool v) then Err (BadShape ''boolean eq value required'') else Ok ())
             else if string_field fld then
               (let (s, ok) = AsString v in
                if \<not> ok then Err (BadShape ''string eq value required'')
                else if \<not> validFieldValue fld s then Err (InvalidValue ''eq value'' s)
                else Ok ())
             else Err (BadShape ''eq on a numeric field''))
      else if op = RuleOpIn then
        (if val \<noteq> None then Err (BadShape ''in must not carry a value'')
         else if length vals = 0 then Err (BadShape ''in requires values'')
         else if string_field fld then
           each (\<lambda>v. if \<not> validFieldValue fld v then Err (InvalidValue ''in value'' v) else Ok ()) vals
         else Err (BadShape ''in on a non-string field''))
      else
        (if length vals > 0 then Err (BadShape ''ge must not carry values'')
         else
           (case val of
              None \<Rightarrow> Err (BadShape ''ge requires a numeric value'')
            | Some v \<Rightarrow>
                if \<not> snd (AsNumber v) then Err (BadShape ''ge requires a numeric value'')
                else if fld = FieldCVSS \<or> fld = FieldEPSS then Ok ()
                else Err (BadShape ''ge on a non-numeric field''))))"

fun validateRuleNode :: "RuleDefinition \<Rightarrow> unit result" where
  "validateRuleNode (RuleNode alls anys op fld val vals) =
     (let hasGroup = (length alls > 0 \<or> length anys > 0); hasAtom = (op \<noteq> noOp) in
      if hasGroup \<and> hasAtom then Err (BadShape ''mixed node'')
      else if \<not> hasGroup \<and> \<not> hasAtom then Err (BadShape ''empty node'')
      else if hasGroup then
        (case each validateRuleNode alls of
           Inl e \<Rightarrow> Err e
         | Inr _ \<Rightarrow> each validateRuleNode anys)
      else validateRuleAtom op fld val vals)"

text \<open>
  Evaluation. The code dereferences the value pointer of an \<open>eq\<close> or \<open>ge\<close> atom without a
  test; a nil pointer there (a panic in Go, \<open>False\<close> here) is excluded by the validation that
  every caller runs first: see \<open>validate_atom_value\<close> below.
\<close>

definition evalRuleAtom ::
  "RuleOp \<Rightarrow> FactorField \<Rightarrow> RuleValue option \<Rightarrow> string list \<Rightarrow> PriorityFactors \<Rightarrow> bool" where
  "evalRuleAtom op fld val vals f =
     (if op = RuleOpEq then
        (case val of
           None \<Rightarrow> False
         | Some v \<Rightarrow>
             if fld = FieldKEV then F_KEV f = fst (AsBool v)
             else if fld = FieldConfidence then Confidence_str (F_Confidence f) = fst (AsString v)
             else if fld = FieldCriticality then Criticality_str (F_Criticality f) = fst (AsString v)
             else if fld = FieldExposure then Exposure_str (F_Exposure f) = fst (AsString v)
             else False)
      else if op = RuleOpIn then
        (let s = (if fld = FieldConfidence then Confidence_str (F_Confidence f)
                  else if fld = FieldCriticality then Criticality_str (F_Criticality f)
                  else if fld = FieldExposure then Exposure_str (F_Exposure f)
                  else '''')
         in s \<in> set vals)
      else if op = RuleOpGe then
        (case val of
           None \<Rightarrow> False
         | Some v \<Rightarrow>
             if fld = FieldCVSS then F_CVSS f \<ge> fst (AsNumber v)
             else if fld = FieldEPSS then F_EPSS f \<ge> fst (AsNumber v)
             else False)
      else False)"

fun evalRuleNode :: "RuleDefinition \<Rightarrow> PriorityFactors \<Rightarrow> bool" where
  "evalRuleNode (RuleNode alls anys op fld val vals) f =
     (let hasGroup = (length alls > 0 \<or> length anys > 0) in
      if \<not> hasGroup then evalRuleAtom op fld val vals f
      else if \<not> list_all (\<lambda>c. evalRuleNode c f) alls then False
      else if length anys > 0 then list_ex (\<lambda>c. evalRuleNode c f) anys
      else True)"

definition EvaluateRule :: "RuleDefinition \<Rightarrow> PriorityFactors \<Rightarrow> bool result" where
  "EvaluateRule d factors = rbind (validateRuleNode d) (\<lambda>_. Ok (evalRuleNode d factors))"

section \<open>Rules and rulesets\<close>

definition PriorityRuleVersionI1b :: string where "PriorityRuleVersionI1b = ''i1b-1''"
definition SeedPriorityRulesVersion :: int where "SeedPriorityRulesVersion = 1"
definition priorityRuleVersionWidth :: nat where "priorityRuleVersionWidth = 10"

definition PriorityRuleVersion :: "int \<Rightarrow> string result" where
  "PriorityRuleVersion n =
     (if n < 1 then Err (OutOfRange ''priority rule version'')
      else Ok (CHR ''p'' # pad_zeros priorityRuleVersionWidth (itoa (nat n))))"

record PriorityRule =
  PRule_RuleID :: Priority
  PRule_Version :: int
  PRule_Definition :: RuleDefinition
  PRule_Enabled :: bool
  PRule_Reason :: string
  PRule_ActorID :: string

definition PriorityRule_Validate :: "PriorityRule \<Rightarrow> unit result" where
  "PriorityRule_Validate r =
     guards [(\<not> Priority_Valid (PRule_RuleID r), InvalidValue ''rule_id'' (Priority_str (PRule_RuleID r))),
             (PRule_Version r < 1, OutOfRange ''priority rule version''),
             (PRule_ActorID r = '''', EmptyField ''actor_id'')]
       (validateRuleNode (PRule_Definition r))"

definition NewPriorityRule ::
  "Priority \<Rightarrow> int \<Rightarrow> RuleDefinition \<Rightarrow> string \<Rightarrow> string \<Rightarrow> PriorityRule result" where
  "NewPriorityRule ruleID version d reason actorID =
     (let r = \<lparr>PRule_RuleID = ruleID, PRule_Version = version, PRule_Definition = d,
               PRule_Enabled = True, PRule_Reason = reason, PRule_ActorID = actorID\<rparr> in
      rbind (PriorityRule_Validate r) (\<lambda>_. Ok r))"

definition PriorityRule_Disable :: "PriorityRule \<Rightarrow> PriorityRule" where
  "PriorityRule_Disable r = r\<lparr>PRule_Enabled := False\<rparr>"

definition PriorityRule_Enable :: "PriorityRule \<Rightarrow> PriorityRule" where
  "PriorityRule_Enable r = r\<lparr>PRule_Enabled := True\<rparr>"

text \<open>The thresholds: 9.0 is exact, 0.95 is the nearest \<open>float64\<close>.\<close>

definition cvssP2Threshold :: rat where "cvssP2Threshold = 9"
definition epssP2Threshold :: rat where "epssP2Threshold = fl (95 / 100)"

definition seedExposedOrCritical :: RuleDefinition where
  "seedExposedOrCritical = anyOf
     [atomValues RuleOpIn FieldCriticality
        [Criticality_str CriticalityCritical, Criticality_str CriticalityHigh],
      atomValue RuleOpEq FieldExposure (StringValue (Exposure_str ExposureInternet))]"

definition seedP1 :: RuleDefinition where
  "seedP1 = allOf
     [atomValues RuleOpIn FieldConfidence [Confidence_str ConfidenceHigh],
      atomValue RuleOpEq FieldKEV (BoolValue True),
      seedExposedOrCritical]"

definition seedP2 :: RuleDefinition where
  "seedP2 = anyOf
     [allOf [atomValues RuleOpIn FieldConfidence [Confidence_str ConfidenceHigh],
             anyOf [atomValue RuleOpEq FieldKEV (BoolValue True),
                    atomValue RuleOpGe FieldCVSS (NumberValue cvssP2Threshold),
                    atomValue RuleOpGe FieldEPSS (NumberValue epssP2Threshold)]],
      allOf [atomValues RuleOpIn FieldConfidence [Confidence_str ConfidenceMedium],
             atomValue RuleOpEq FieldKEV (BoolValue True),
             seedExposedOrCritical]]"

definition seedP3 :: RuleDefinition where
  "seedP3 = allOf
     [atomValues RuleOpIn FieldConfidence [Confidence_str ConfidenceHigh, Confidence_str ConfidenceMedium]]"

definition seedP4 :: RuleDefinition where
  "seedP4 = allOf
     [atomValues RuleOpIn FieldConfidence [Confidence_str ConfidenceLow, Confidence_str ConfidenceNone]]"

definition SeedPriorityRules :: "PriorityRule list" where
  "SeedPriorityRules = map (\<lambda>(p, d).
     \<lparr>PRule_RuleID = p, PRule_Version = SeedPriorityRulesVersion, PRule_Definition = d,
      PRule_Enabled = True,
      PRule_Reason = ''ch. 9.3 deterministic priority rules (I4 ruleset v1)'',
      PRule_ActorID = ''system''\<rparr>)
     [(PriorityP1, seedP1), (PriorityP2, seedP2), (PriorityP3, seedP3), (PriorityP4, seedP4)]"

fun EvaluatePriority :: "PriorityRule list \<Rightarrow> PriorityFactors \<Rightarrow> Priority result" where
  "EvaluatePriority [] factors = Ok PriorityP4"
| "EvaluatePriority (r # rs) factors =
     (if \<not> PRule_Enabled r then EvaluatePriority rs factors
      else rbind (wrap_err (Priority_str (PRule_RuleID r)) (EvaluateRule (PRule_Definition r) factors))
        (\<lambda>ok. if ok then Ok (PRule_RuleID r) else EvaluatePriority rs factors))"

definition ComputePriority :: "PriorityFactors \<Rightarrow> Priority" where
  "ComputePriority f =
     (case EvaluatePriority SeedPriorityRules f of Inl _ \<Rightarrow> PriorityP4 | Inr p \<Rightarrow> p)"

section \<open>The probe grid\<close>

text \<open>\<open>collectRuleThresholds\<close> appends to its two slices: state passed through.\<close>

fun collectRuleThresholds :: "RuleDefinition \<Rightarrow> rat list \<times> rat list \<Rightarrow> rat list \<times> rat list" where
  "collectRuleThresholds (RuleNode alls anys op fld val vals) acc =
     (let acc1 =
        (case val of
           Some v \<Rightarrow>
             if op = RuleOpGe \<and> snd (AsNumber v) then
               (if fld = FieldCVSS then (fst acc @ [fst (AsNumber v)], snd acc)
                else if fld = FieldEPSS then (fst acc, snd acc @ [fst (AsNumber v)])
                else acc)
             else acc
         | None \<Rightarrow> acc)
      in fold collectRuleThresholds anys (fold collectRuleThresholds alls acc1))"

fun probe_loop :: "rat list \<Rightarrow> rat list \<Rightarrow> rat \<Rightarrow> rat list \<times> rat" where
  "probe_loop [] probes prev = (probes, prev)"
| "probe_loop (t # ts) probes prev =
     (if t = prev then probe_loop ts probes prev
      else probe_loop ts (probes @ [t, f_div (f_add prev t) 2]) t)"

definition numericProbes :: "rat list \<Rightarrow> rat \<Rightarrow> rat list" where
  "numericProbes thresholds upper =
     (let ts = sort (filter (\<lambda>t. t > 0 \<and> t \<le> upper) thresholds);
          (probes, prev) = probe_loop ts [0] 0
      in if prev < upper then probes @ [f_div (f_add prev upper) 2] else probes)"

definition rulesetProbeFactors :: "PriorityRule list \<Rightarrow> PriorityFactors list" where
  "rulesetProbeFactors rules =
     (let (cvssThresholds, epssThresholds) =
            fold (\<lambda>r. collectRuleThresholds (PRule_Definition r)) rules ([], []);
          cvssProbes = numericProbes cvssThresholds 10;
          epssProbes = numericProbes epssThresholds 1
      in concat (map (\<lambda>conf. concat (map (\<lambda>kev. concat (map (\<lambda>c. concat (map (\<lambda>e.
           concat (map (\<lambda>crit. map (\<lambda>ex.
             \<lparr>F_Method = OtherMatchMethod '''', F_Confidence = conf, F_KEV = kev, F_CVSS = c,
              F_EPSS = e, F_Criticality = crit, F_Exposure = ex\<rparr>)
             [ExposureInternet, ExposureInternal, ExposureIsolated, ExposureUnknown])
             [CriticalityCritical, CriticalityHigh, CriticalityNormal, CriticalityLow, CriticalityUnknown]))
             epssProbes)) cvssProbes)) [False, True]))
             [ConfidenceHigh, ConfidenceMedium, ConfidenceLow, ConfidenceNone]))"

text \<open>The winners of the cells, then the four membership tests.\<close>

fun probe_winners :: "PriorityRule list \<Rightarrow> PriorityFactors list \<Rightarrow> Priority set \<Rightarrow> Priority set result" where
  "probe_winners rules [] winners = Ok winners"
| "probe_winners rules (f # fs) winners =
     (case EvaluatePriority rules f of
        Inl e \<Rightarrow> Err (Wrapped ''probe cell'' e)
      | Inr p \<Rightarrow> probe_winners rules fs (insert p winners))"

definition validateRulesetDistinct :: "PriorityRule list \<Rightarrow> unit result" where
  "validateRulesetDistinct rules =
     rbind (probe_winners rules (rulesetProbeFactors rules) {}) (\<lambda>winners.
       each (\<lambda>p. if p \<notin> winners then Err (BadShape (''no cell resolves to '' @ Priority_str p)) else Ok ())
         [PriorityP1, PriorityP2, PriorityP3, PriorityP4])"

fun ruleset_loop :: "Priority set \<Rightarrow> (PriorityRule \<times> Priority) list \<Rightarrow> unit result" where
  "ruleset_loop seen [] = Ok ()"
| "ruleset_loop seen ((r, want) # rs) =
     (if \<not> Priority_Valid (PRule_RuleID r) then
        Err (InvalidValue ''rule id'' (Priority_str (PRule_RuleID r)))
      else if PRule_RuleID r \<in> seen then Err (BadShape ''rule id more than once'')
      else if PRule_RuleID r \<noteq> want then Err (BadShape ''rule order'')
      else
        (case wrap_err (Priority_str (PRule_RuleID r)) (validateRuleNode (PRule_Definition r)) of
           Inl e \<Rightarrow> Err e
         | Inr _ \<Rightarrow> ruleset_loop (insert (PRule_RuleID r) seen) rs))"

definition ValidateRuleset :: "PriorityRule list \<Rightarrow> unit result" where
  "ValidateRuleset rules =
     (if length rules \<noteq> 4 then Err (BadShape ''four rules required'')
      else
        (case ruleset_loop {} (zip rules [PriorityP1, PriorityP2, PriorityP3, PriorityP4]) of
           Inl e \<Rightarrow> Err e
         | Inr _ \<Rightarrow> validateRulesetDistinct rules))"

section \<open>Lemmas on the predicate language\<close>

lemma case_each_Ok_iff:
  "(case each f xs of Inl e \<Rightarrow> Err e | Inr _ \<Rightarrow> r) = Ok u \<longleftrightarrow> (\<forall>x\<in>set xs. f x = Ok ()) \<and> r = Ok u"
  using each_Ok_iff [of f xs "()"] by (cases "each f xs") auto

lemma validateRuleNode_group:
  "alls \<noteq> [] \<or> anys \<noteq> [] \<Longrightarrow>
   validateRuleNode (RuleNode alls anys op fld val vals) = Ok () \<longleftrightarrow>
     op = noOp \<and> (\<forall>c\<in>set alls \<union> set anys. validateRuleNode c = Ok ())"
  by (auto simp: Let_def case_each_Ok_iff each_Ok_iff)

lemma validateRuleNode_atom:
  "validateRuleNode (RuleNode [] [] op fld val vals) = Ok () \<longleftrightarrow>
     op \<noteq> noOp \<and> validateRuleAtom op fld val vals = Ok ()"
  by (simp add: Let_def)

text \<open>On a validated atom the evaluator never meets a missing or ill-typed value.\<close>

lemma validate_atom_value:
  assumes "validateRuleAtom op fld val vals = Ok ()"
  shows "op = RuleOpEq \<Longrightarrow> \<exists>v. val = Some v \<and> (fld = FieldKEV \<and> snd (AsBool v) \<or>
           string_field fld \<and> snd (AsString v) \<and> validFieldValue fld (fst (AsString v)))"
    and "op = RuleOpIn \<Longrightarrow> val = None \<and> string_field fld \<and> vals \<noteq> [] \<and>
           (\<forall>v\<in>set vals. validFieldValue fld v)"
    and "op = RuleOpGe \<Longrightarrow> \<exists>v. val = Some v \<and> snd (AsNumber v) \<and> (fld = FieldCVSS \<or> fld = FieldEPSS)"
    and "op \<in> {RuleOpEq, RuleOpIn, RuleOpGe}"
  using assms
  by (auto simp: validateRuleAtom_def result_simps split: option.splits if_splits prod.splits)
    (cases op; simp)+

lemma evalRuleNode_group:
  "alls \<noteq> [] \<or> anys \<noteq> [] \<Longrightarrow>
   evalRuleNode (RuleNode alls anys op fld val vals) f \<longleftrightarrow>
     (\<forall>c\<in>set alls. evalRuleNode c f) \<and> (anys = [] \<or> (\<exists>c\<in>set anys. evalRuleNode c f))"
  by (auto simp: Let_def list_all_iff list_ex_iff)

lemma evalRuleNode_atom:
  "evalRuleNode (RuleNode [] [] op fld val vals) f = evalRuleAtom op fld val vals f"
  by simp

declare validateRuleNode.simps [simp del] evalRuleNode.simps [simp del]

lemma EvaluateRule_Ok_iff:
  "EvaluateRule d f = Ok b \<longleftrightarrow> validateRuleNode d = Ok () \<and> b = evalRuleNode d f"
  by (auto simp: EvaluateRule_def result_simps)

text \<open>The thresholds a tree compares a numeric field with.\<close>

fun has_threshold :: "FactorField \<Rightarrow> rat \<Rightarrow> RuleDefinition \<Rightarrow> bool" where
  "has_threshold g t (RuleNode alls anys op fld val vals) \<longleftrightarrow>
     (\<exists>v. val = Some v \<and> op = RuleOpGe \<and> snd (AsNumber v) \<and> fld = g \<and> fst (AsNumber v) = t) \<or>
     list_ex (has_threshold g t) alls \<or> list_ex (has_threshold g t) anys"

lemma fold_collects:
  assumes "\<And>x acc. x \<in> set xs \<Longrightarrow> Q (g x acc) \<longleftrightarrow> Q acc \<or> h x"
  shows "Q (fold g xs acc) \<longleftrightarrow> Q acc \<or> (\<exists>x\<in>set xs. h x)"
  using assms by (induction xs arbitrary: acc) auto

lemma collect_fst:
  "t \<in> set (fst (collectRuleThresholds n acc)) \<longleftrightarrow> t \<in> set (fst acc) \<or> has_threshold FieldCVSS t n"
proof (induction n arbitrary: acc)
  case (RuleNode alls anys op fld val vals)
  note f = fold_collects [where Q = "\<lambda>acc. t \<in> set (fst acc)" and g = collectRuleThresholds
      and h = "has_threshold FieldCVSS t"]
  show ?case
    by (simp add: Let_def f RuleNode list_ex_iff split: option.split) auto
qed

lemma collect_snd:
  "t \<in> set (snd (collectRuleThresholds n acc)) \<longleftrightarrow> t \<in> set (snd acc) \<or> has_threshold FieldEPSS t n"
proof (induction n arbitrary: acc)
  case (RuleNode alls anys op fld val vals)
  note f = fold_collects [where Q = "\<lambda>acc. t \<in> set (snd acc)" and g = collectRuleThresholds
      and h = "has_threshold FieldEPSS t"]
  show ?case
    by (simp add: Let_def f RuleNode list_ex_iff split: option.split) auto
qed

text \<open>Two cells that agree on the closed fields and on every threshold evaluate alike.\<close>

definition same_cell :: "(rat \<Rightarrow> bool) \<Rightarrow> (rat \<Rightarrow> bool) \<Rightarrow> PriorityFactors \<Rightarrow> PriorityFactors \<Rightarrow> bool" where
  "same_cell P Q f g \<longleftrightarrow>
     F_Confidence f = F_Confidence g \<and> F_KEV f = F_KEV g \<and> F_Criticality f = F_Criticality g \<and>
     F_Exposure f = F_Exposure g \<and>
     (\<forall>t. P t \<longrightarrow> (t \<le> F_CVSS f \<longleftrightarrow> t \<le> F_CVSS g)) \<and>
     (\<forall>t. Q t \<longrightarrow> (t \<le> F_EPSS f \<longleftrightarrow> t \<le> F_EPSS g))"

lemma evalRuleAtom_same_cell:
  assumes "validateRuleAtom op fld val vals = Ok ()"
    and "same_cell P Q f g"
    and "\<And>t. has_threshold FieldCVSS t (RuleNode [] [] op fld val vals) \<Longrightarrow> P t"
    and "\<And>t. has_threshold FieldEPSS t (RuleNode [] [] op fld val vals) \<Longrightarrow> Q t"
  shows "evalRuleAtom op fld val vals f = evalRuleAtom op fld val vals g"
proof -
  note e = assms(2) [unfolded same_cell_def]
  consider "op = RuleOpEq" | "op = RuleOpIn" | "op = RuleOpGe"
    using validate_atom_value(4) [OF assms(1)] by blast
  then show ?thesis
  proof cases
    case 3
    then obtain v where v: "val = Some v" "snd (AsNumber v)" "fld = FieldCVSS \<or> fld = FieldEPSS"
      using validate_atom_value(3) [OF assms(1)] by blast
    with 3 e assms(3,4) show ?thesis by (auto simp: evalRuleAtom_def)
  next
    case 1
    then show ?thesis by (cases val) (simp_all add: evalRuleAtom_def e)
  next
    case 2
    then show ?thesis by (cases val) (simp_all add: evalRuleAtom_def e)
  qed
qed

lemma evalRuleNode_same_cell:
  assumes "validateRuleNode n = Ok ()" "same_cell P Q f g"
    and "\<And>t. has_threshold FieldCVSS t n \<Longrightarrow> P t" "\<And>t. has_threshold FieldEPSS t n \<Longrightarrow> Q t"
  shows "evalRuleNode n f = evalRuleNode n g"
  using assms
proof (induction n)
  case (RuleNode alls anys op fld val vals)
  show ?case
  proof (cases "alls = [] \<and> anys = []")
    case True
    with RuleNode.prems show ?thesis
      using evalRuleAtom_same_cell [of op fld val vals P Q f g]
      by (simp add: evalRuleNode_atom validateRuleNode_atom)
  next
    case False
    then have v: "\<forall>c\<in>set alls \<union> set anys. validateRuleNode c = Ok ()"
      using validateRuleNode_group [of alls anys op fld val vals] RuleNode.prems(1) by blast
    have sub: "has_threshold h t (RuleNode alls anys op fld val vals)"
      if "c \<in> set alls \<union> set anys" "has_threshold h t c" for c h t
      using that by (auto simp: list_ex_iff)
    have "evalRuleNode c f = evalRuleNode c g" if c: "c \<in> set alls \<union> set anys" for c
      using c v RuleNode.IH [of c] RuleNode.prems(2)
        RuleNode.prems(3) [OF sub [OF c]] RuleNode.prems(4) [OF sub [OF c]] by blast
    then show ?thesis using False by (simp add: evalRuleNode_group)
  qed
qed

text \<open>The language has no negation: raising a score never unmatches a rule.\<close>

definition raised :: "PriorityFactors \<Rightarrow> PriorityFactors \<Rightarrow> bool" where
  "raised f g \<longleftrightarrow>
     F_Confidence f = F_Confidence g \<and> F_KEV f = F_KEV g \<and> F_Criticality f = F_Criticality g \<and>
     F_Exposure f = F_Exposure g \<and> F_CVSS f \<le> F_CVSS g \<and> F_EPSS f \<le> F_EPSS g"

lemma evalRuleNode_raised: "raised f g \<Longrightarrow> evalRuleNode n f \<Longrightarrow> evalRuleNode n g"
proof (induction n)
  case (RuleNode alls anys op fld val vals)
  show ?case
  proof (cases "alls = [] \<and> anys = []")
    case True
    with RuleNode.prems show ?thesis
      by (cases val)
        (auto simp: evalRuleNode_atom evalRuleAtom_def raised_def Let_def split: if_splits)
  next
    case False
    then show ?thesis using RuleNode by (auto simp: evalRuleNode_group)
  qed
qed

section \<open>Lemmas on rulesets\<close>

text \<open>The first enabled rule that decides: it matches, or its definition is malformed.\<close>

definition decides :: "PriorityFactors \<Rightarrow> PriorityRule \<Rightarrow> bool" where
  "decides f r \<longleftrightarrow> PRule_Enabled r \<and>
     (validateRuleNode (PRule_Definition r) \<noteq> Ok () \<or> evalRuleNode (PRule_Definition r) f)"

lemma EvaluatePriority_skip: "(\<forall>r\<in>set rs. \<not> decides f r) \<Longrightarrow> EvaluatePriority rs f = Ok PriorityP4"
  by (induction rs) (auto simp: decides_def EvaluateRule_def)

lemma EvaluatePriority_prefix:
  "(\<forall>r\<in>set pre. \<not> decides f r) \<Longrightarrow> EvaluatePriority (pre @ rs) f = EvaluatePriority rs f"
  by (induction pre) (auto simp: decides_def EvaluateRule_def)

lemma EvaluatePriority_hit:
  "PRule_Enabled r \<Longrightarrow> validateRuleNode (PRule_Definition r) = Ok () \<Longrightarrow>
   evalRuleNode (PRule_Definition r) f \<Longrightarrow> EvaluatePriority (r # rs) f = Ok (PRule_RuleID r)"
  by (simp add: EvaluateRule_def)

lemma EvaluatePriority_malformed:
  "PRule_Enabled r \<Longrightarrow> validateRuleNode (PRule_Definition r) \<noteq> Ok () \<Longrightarrow>
   \<not> is_ok (EvaluatePriority (r # rs) f)"
  by (cases "validateRuleNode (PRule_Definition r)") (simp_all add: EvaluateRule_def)

definition well_formed :: "PriorityRule list \<Rightarrow> bool" where
  "well_formed rules \<longleftrightarrow> (\<forall>r\<in>set rules. validateRuleNode (PRule_Definition r) = Ok ())"

lemma EvaluatePriority_total: "well_formed rules \<Longrightarrow> is_ok (EvaluatePriority rules f)"
  by (induction rules) (auto simp: well_formed_def EvaluateRule_def)

lemma EvaluatePriority_same_cell:
  assumes "well_formed rules" "same_cell P Q f g"
    and "\<And>r t. r \<in> set rules \<Longrightarrow> has_threshold FieldCVSS t (PRule_Definition r) \<Longrightarrow> P t"
    and "\<And>r t. r \<in> set rules \<Longrightarrow> has_threshold FieldEPSS t (PRule_Definition r) \<Longrightarrow> Q t"
  shows "EvaluatePriority rules f = EvaluatePriority rules g"
  using assms
proof (induction rules)
  case (Cons r rs)
  have "evalRuleNode (PRule_Definition r) f = evalRuleNode (PRule_Definition r) g"
    using Cons.prems by (intro evalRuleNode_same_cell [of _ P Q]) (auto simp: well_formed_def)
  moreover have "EvaluatePriority rs f = EvaluatePriority rs g"
    using Cons.prems by (intro Cons.IH) (auto simp: well_formed_def)
  ultimately show ?case unfolding EvaluatePriority.simps EvaluateRule_def by presburger
qed simp

text \<open>The probes of one numeric field.\<close>

lemma probe_loop_covers:
  "set probes \<union> (set ts - {prev}) \<subseteq> set (fst (probe_loop ts probes prev))"
  by (induction ts probes prev rule: probe_loop.induct) auto

lemma probe_loop_bounds:
  "0 \<le> prev \<Longrightarrow> prev \<le> u \<Longrightarrow> is_f64 prev \<Longrightarrow> sorted (prev # ts) \<Longrightarrow>
   \<forall>t\<in>set ts. is_f64 t \<and> t \<le> u \<Longrightarrow> \<forall>x\<in>set probes. 0 \<le> x \<and> x \<le> u \<Longrightarrow>
   (\<forall>x\<in>set (fst (probe_loop ts probes prev)). 0 \<le> x \<and> x \<le> u) \<and>
   0 \<le> snd (probe_loop ts probes prev) \<and> is_f64 (snd (probe_loop ts probes prev))"
proof (induction ts probes prev rule: probe_loop.induct)
  case (2 t ts probes prev)
  show ?case
  proof (cases "t = prev")
    case True
    have "sorted (prev # ts)" "\<forall>t\<in>set ts. is_f64 t \<and> t \<le> u"
      using "2.prems"(4,5) by simp_all
    note ih = "2.IH"(1) [OF True "2.prems"(1-3) this "2.prems"(6)]
    show ?thesis unfolding probe_loop.simps if_P [OF True] by (rule ih)
  next
    case False
    have "prev \<le> t" "t \<le> u" "is_f64 t" using "2.prems"(4,5) by simp_all
    with False "2.prems"(1) have t: "0 < t" "prev \<le> t" "t \<le> u" "is_f64 t" by simp_all
    have m: "0 \<le> f_div (f_add prev t) 2" "f_div (f_add prev t) 2 \<le> t"
      using f_midpoint [of prev t] "2.prems"(1,3) t by simp_all
    have p: "\<forall>x\<in>set (probes @ [t, f_div (f_add prev t) 2]). 0 \<le> x \<and> x \<le> u"
      using "2.prems"(6) t m by auto
    have "0 \<le> t" "sorted (t # ts)" "\<forall>t\<in>set ts. is_f64 t \<and> t \<le> u"
      using t "2.prems"(4,5) by simp_all
    note ih = "2.IH"(2) [OF False this(1) t(3,4) this(2,3) p]
    then show ?thesis using False by simp
  qed
qed simp

lemma is_f64_0 [simp]: "is_f64 0"
  by (simp add: is_f64_def)

lemma is_f64_int: "\<bar>n\<bar> < 2 ^ 53 \<Longrightarrow> is_f64 (of_int n)"
  by (simp add: is_f64_def fl_of_int)

lemma numericProbes_bounds:
  assumes "\<forall>t\<in>set ts. is_f64 t" "is_f64 u" "0 < u" "x \<in> set (numericProbes ts u)"
  shows "0 \<le> x \<and> x \<le> u"
proof -
  let ?ts = "sort (filter (\<lambda>t. t > 0 \<and> t \<le> u) ts)"
  obtain probes prev where l: "probe_loop ?ts [0] 0 = (probes, prev)" by fastforce
  have "(\<forall>x\<in>set (fst (probe_loop ?ts [0] 0)). 0 \<le> x \<and> x \<le> u) \<and>
      0 \<le> snd (probe_loop ?ts [0] 0) \<and> is_f64 (snd (probe_loop ?ts [0] 0))"
    using assms by (intro probe_loop_bounds) auto
  then have b: "\<forall>x\<in>set probes. 0 \<le> x \<and> x \<le> u" "0 \<le> prev" "is_f64 prev" by (simp_all add: l)
  show ?thesis
    using assms(4) b f_midpoint [of prev u] assms(2,3)
    by (auto simp: numericProbes_def l Let_def split: if_splits)
qed

lemma numericProbes_covers:
  "0 \<in> set (numericProbes ts u)" "t \<in> set ts \<Longrightarrow> 0 < t \<Longrightarrow> t \<le> u \<Longrightarrow> t \<in> set (numericProbes ts u)"
proof -
  let ?ts = "sort (filter (\<lambda>t. t > 0 \<and> t \<le> u) ts)"
  obtain probes prev where l: "probe_loop ?ts [0] 0 = (probes, prev)" by fastforce
  have "{0} \<union> (set ?ts - {0}) \<subseteq> set probes"
    using probe_loop_covers [of "[0]" ?ts 0] by (simp add: l)
  then show "0 \<in> set (numericProbes ts u)"
    "t \<in> set ts \<Longrightarrow> 0 < t \<Longrightarrow> t \<le> u \<Longrightarrow> t \<in> set (numericProbes ts u)"
    by (auto simp: numericProbes_def Let_def l)
qed

text \<open>Every value has a probe on the same side of every threshold: the greatest threshold below.\<close>

lemma numericProbes_representative:
  assumes "0 \<le> x" "x \<le> u"
  obtains y where "y \<in> set (numericProbes ts u)" "y = 0 \<or> y \<in> set ts" "0 \<le> y" "y \<le> u"
    "\<forall>t\<in>set ts. t \<le> x \<longleftrightarrow> t \<le> y"
proof -
  define S where "S = insert 0 {t \<in> set ts. 0 < t \<and> t \<le> x}"
  have S: "finite S" "S \<noteq> {}" by (simp_all add: S_def)
  define y where "y = Max S"
  have y: "y \<in> S" "\<forall>t\<in>S. t \<le> y" using S by (simp_all add: y_def)
  have le: "y \<le> x" using y(1) assms(1) by (auto simp: S_def)
  have "t \<le> x \<longleftrightarrow> t \<le> y" if "t \<in> set ts" for t
  proof
    assume "t \<le> x"
    show "t \<le> y"
    proof (cases "0 < t")
      case True
      with that \<open>t \<le> x\<close> y(2) show ?thesis by (simp add: S_def)
    next
      case False
      moreover have "0 \<le> y" using y(2) by (simp add: S_def)
      ultimately show ?thesis by simp
    qed
  next
    assume "t \<le> y"
    with le show "t \<le> x" by simp
  qed
  moreover have "y \<in> set (numericProbes ts u)"
    using y(1) assms numericProbes_covers [where ts = ts and u = u] by (auto simp: S_def)
  ultimately show ?thesis using y(1) le assms by (intro that [of y]) (auto simp: S_def)
qed

text \<open>The grid: its cells are in range, and every valid cell has a representative.\<close>

definition ruleset_f64 :: "PriorityRule list \<Rightarrow> bool" where
  "ruleset_f64 rules \<longleftrightarrow>
     (\<forall>r\<in>set rules. \<forall>t. has_threshold FieldCVSS t (PRule_Definition r) \<or>
        has_threshold FieldEPSS t (PRule_Definition r) \<longrightarrow> is_f64 t)"

abbreviation ruleset_thresholds :: "PriorityRule list \<Rightarrow> rat list \<times> rat list" where
  "ruleset_thresholds rules \<equiv> fold (\<lambda>r. collectRuleThresholds (PRule_Definition r)) rules ([], [])"

lemma thresholds_fst:
  "t \<in> set (fst (ruleset_thresholds rules)) \<longleftrightarrow> (\<exists>r\<in>set rules. has_threshold FieldCVSS t (PRule_Definition r))"
  using fold_collects [where Q = "\<lambda>acc. t \<in> set (fst acc)" and xs = rules
      and g = "\<lambda>r. collectRuleThresholds (PRule_Definition r)"
      and h = "\<lambda>r. has_threshold FieldCVSS t (PRule_Definition r)" and acc = "([], [])"]
  by (simp add: collect_fst)

lemma thresholds_snd:
  "t \<in> set (snd (ruleset_thresholds rules)) \<longleftrightarrow> (\<exists>r\<in>set rules. has_threshold FieldEPSS t (PRule_Definition r))"
  using fold_collects [where Q = "\<lambda>acc. t \<in> set (snd acc)" and xs = rules
      and g = "\<lambda>r. collectRuleThresholds (PRule_Definition r)"
      and h = "\<lambda>r. has_threshold FieldEPSS t (PRule_Definition r)" and acc = "([], [])"]
  by (simp add: collect_snd)

lemma grid_member:
  "f \<in> set (concat (map (\<lambda>conf. concat (map (\<lambda>kev. concat (map (\<lambda>c. concat (map (\<lambda>e.
           concat (map (\<lambda>crit. map (\<lambda>ex.
             \<lparr>F_Method = m, F_Confidence = conf, F_KEV = kev, F_CVSS = c,
              F_EPSS = e, F_Criticality = crit, F_Exposure = ex\<rparr>) exs) crits)) es)) cs)) kevs)) confs)) \<longleftrightarrow>
   F_Method f = m \<and> F_Confidence f \<in> set confs \<and> F_KEV f \<in> set kevs \<and> F_CVSS f \<in> set cs \<and>
   F_EPSS f \<in> set es \<and> F_Criticality f \<in> set crits \<and> F_Exposure f \<in> set exs"
  by (cases f) (auto simp: image_iff)

lemma set_probe_grid:
  "f \<in> set (rulesetProbeFactors rules) \<longleftrightarrow>
     F_Method f = OtherMatchMethod '''' \<and> Confidence_Valid (F_Confidence f) \<and>
     F_CVSS f \<in> set (numericProbes (fst (ruleset_thresholds rules)) 10) \<and>
     F_EPSS f \<in> set (numericProbes (snd (ruleset_thresholds rules)) 1) \<and>
     Criticality_Valid (F_Criticality f) \<and> Exposure_Valid (F_Exposure f)"
proof -
  have c: "Confidence_Valid x \<longleftrightarrow> x \<in> set [ConfidenceHigh, ConfidenceMedium, ConfidenceLow, ConfidenceNone]" for x
    by (cases x) simp_all
  have k: "Criticality_Valid x \<longleftrightarrow> x \<in> set [CriticalityCritical, CriticalityHigh, CriticalityNormal,
      CriticalityLow, CriticalityUnknown]" for x
    by (cases x) simp_all
  have e: "Exposure_Valid x \<longleftrightarrow> x \<in> set [ExposureInternet, ExposureInternal, ExposureIsolated, ExposureUnknown]" for x
    by (cases x) simp_all
  have b: "x \<in> set [False, True]" for x by simp
  obtain cs es where T: "ruleset_thresholds rules = (cs, es)" by fastforce
  show ?thesis
    unfolding rulesetProbeFactors_def T Let_def prod.case grid_member c k e fst_conv snd_conv
    using b by blast
qed

definition in_range :: "PriorityFactors \<Rightarrow> bool" where
  "in_range f \<longleftrightarrow> Confidence_Valid (F_Confidence f) \<and> Criticality_Valid (F_Criticality f) \<and>
     Exposure_Valid (F_Exposure f) \<and> 0 \<le> F_CVSS f \<and> F_CVSS f \<le> 10 \<and> 0 \<le> F_EPSS f \<and> F_EPSS f \<le> 1"

lemma PriorityFactors_Validate_iff:
  "PriorityFactors_Validate f = Ok () \<longleftrightarrow>
     in_range f \<and> MatchMethod_Valid (F_Method f) \<and> MatchMethod_Confidence (F_Method f) = (F_Confidence f, True)"
  by (cases "F_Method f")
    (auto simp: PriorityFactors_Validate_def MatchMethod_Confidence_def in_range_def)

lemma confidence_has_method:
  "Confidence_Valid c \<Longrightarrow> \<exists>m. MatchMethod_Valid m \<and> MatchMethod_Confidence m = (c, True)"
proof -
  assume "Confidence_Valid c"
  then consider "c = ConfidenceHigh" | "c = ConfidenceMedium" | "c = ConfidenceLow" | "c = ConfidenceNone"
    by (cases c) simp_all
  then show ?thesis
  proof cases
    case 1 then show ?thesis by (intro exI [of _ MatchMethodExactIdentifier]) (simp add: MatchMethod_Confidence_def)
  next
    case 2 then show ?thesis by (intro exI [of _ MatchMethodControlledAliasOnly]) (simp add: MatchMethod_Confidence_def)
  next
    case 3 then show ?thesis by (intro exI [of _ MatchMethodCandidate]) (simp add: MatchMethod_Confidence_def)
  next
    case 4 then show ?thesis by (intro exI [of _ MatchMethodNoMatch]) (simp add: MatchMethod_Confidence_def)
  qed
qed

lemma grid_in_range:
  assumes "ruleset_f64 rules" "f \<in> set (rulesetProbeFactors rules)"
  shows "in_range f"
proof -
  have f: "\<forall>t\<in>set (fst (ruleset_thresholds rules)). is_f64 t"
    "\<forall>t\<in>set (snd (ruleset_thresholds rules)). is_f64 t"
    using assms(1) by (auto simp: ruleset_f64_def thresholds_fst thresholds_snd)
  have "is_f64 10" "is_f64 1" using is_f64_int [of 10] is_f64_int [of 1] by simp_all
  then show ?thesis
    using assms(2) numericProbes_bounds [OF f(1)] numericProbes_bounds [OF f(2)]
    by (auto simp: set_probe_grid in_range_def)
qed

text \<open>Change the scores of a cell to thresholds (or 0) without leaving its region.\<close>

lemma representative_cell:
  assumes "in_range f" "well_formed rules" "ruleset_f64 rules"
  obtains c e where "c \<in> set (numericProbes (fst (ruleset_thresholds rules)) 10)"
    "e \<in> set (numericProbes (snd (ruleset_thresholds rules)) 1)"
    "is_f64 c" "is_f64 e" "0 \<le> c" "c \<le> 10" "0 \<le> e" "e \<le> 1"
    "\<And>m. EvaluatePriority rules (f\<lparr>F_Method := m, F_CVSS := c, F_EPSS := e\<rparr>) = EvaluatePriority rules f"
proof -
  let ?T = "ruleset_thresholds rules"
  obtain c where c: "c \<in> set (numericProbes (fst ?T) 10)" "c = 0 \<or> c \<in> set (fst ?T)" "0 \<le> c" "c \<le> 10"
    "\<forall>t\<in>set (fst ?T). t \<le> F_CVSS f \<longleftrightarrow> t \<le> c"
    using assms(1) numericProbes_representative [of "F_CVSS f" 10] unfolding in_range_def by blast
  obtain e where e: "e \<in> set (numericProbes (snd ?T) 1)" "e = 0 \<or> e \<in> set (snd ?T)" "0 \<le> e" "e \<le> 1"
    "\<forall>t\<in>set (snd ?T). t \<le> F_EPSS f \<longleftrightarrow> t \<le> e"
    using assms(1) numericProbes_representative [of "F_EPSS f" 1] unfolding in_range_def by blast
  have "is_f64 c" "is_f64 e"
    using c(2) e(2) assms(3) by (auto simp: ruleset_f64_def thresholds_fst thresholds_snd)
  moreover have "EvaluatePriority rules (f\<lparr>F_Method := m, F_CVSS := c, F_EPSS := e\<rparr>) = EvaluatePriority rules f" for m
    using c(5) e(5) assms(2)
    by (intro EvaluatePriority_same_cell [of _ "\<lambda>t. t \<in> set (fst ?T)" "\<lambda>t. t \<in> set (snd ?T)"])
      (auto simp: same_cell_def thresholds_fst thresholds_snd)
  ultimately show ?thesis using c e that by blast
qed

lemma probe_winners_Ok:
  "well_formed rules \<Longrightarrow>
   probe_winners rules fs W = Ok (W \<union> {p. \<exists>f\<in>set fs. EvaluatePriority rules f = Ok p})"
proof (induction rules fs W rule: probe_winners.induct)
  case (2 rules f fs W)
  then obtain p where p: "EvaluatePriority rules f = Ok p"
    using EvaluatePriority_total [of rules f] by (auto simp: is_ok_iff)
  have "W \<union> {q. \<exists>g\<in>set (f # fs). EvaluatePriority rules g = Ok q} =
      insert p W \<union> {q. \<exists>g\<in>set fs. EvaluatePriority rules g = Ok q}"
    using p by auto
  then show ?case using "2.IH" [OF p "2.prems"] p by simp
qed simp

lemma validateRulesetDistinct_iff:
  assumes "well_formed rules"
  shows "validateRulesetDistinct rules = Ok () \<longleftrightarrow>
    (\<forall>p\<in>{PriorityP1, PriorityP2, PriorityP3, PriorityP4}.
       \<exists>f\<in>set (rulesetProbeFactors rules). EvaluatePriority rules f = Ok p)"
  unfolding validateRulesetDistinct_def probe_winners_Ok [OF assms] by auto

lemma ruleset_loop_Ok:
  "length rules = 4 \<Longrightarrow>
   ruleset_loop {} (zip rules [PriorityP1, PriorityP2, PriorityP3, PriorityP4]) = Ok () \<longleftrightarrow>
     map PRule_RuleID rules = [PriorityP1, PriorityP2, PriorityP3, PriorityP4] \<and> well_formed rules"
proof -
  assume "length rules = 4"
  then obtain a b c d where r: "rules = [a, b, c, d]"
    by (auto simp: numeral_eq_Suc length_Suc_conv)
  have "(case wrap_err x m of Inl e \<Rightarrow> Err e | Inr _ \<Rightarrow> k) = Ok () \<longleftrightarrow> m = Ok () \<and> k = Ok ()"
    for x :: string and m k :: "unit result"
    by (cases m) auto
  then show ?thesis by (auto simp: r well_formed_def)
qed

section \<open>The seed ruleset in closed form\<close>

definition exposed_or_critical :: "PriorityFactors \<Rightarrow> bool" where
  "exposed_or_critical f \<longleftrightarrow>
     F_Criticality f \<in> {CriticalityCritical, CriticalityHigh} \<or> F_Exposure f = ExposureInternet"

text \<open>Chapter 9.3, as a decision list over the factors.\<close>

definition ch93_priority :: "PriorityFactors \<Rightarrow> Priority" where
  "ch93_priority f =
     (let high = (F_Confidence f = ConfidenceHigh); medium = (F_Confidence f = ConfidenceMedium) in
      if high \<and> F_KEV f \<and> exposed_or_critical f then PriorityP1
      else if high \<and> (F_KEV f \<or> 9 \<le> F_CVSS f \<or> epssP2Threshold \<le> F_EPSS f) \<or>
              medium \<and> F_KEV f \<and> exposed_or_critical f then PriorityP2
      else if high \<or> medium then PriorityP3
      else PriorityP4)"

lemmas seed_defs = seedP1_def seedP2_def seedP3_def seedP4_def seedExposedOrCritical_def

lemma seed_valid:
  "validateRuleNode seedP1 = Ok ()" "validateRuleNode seedP2 = Ok ()"
  "validateRuleNode seedP3 = Ok ()" "validateRuleNode seedP4 = Ok ()"
  by (simp_all add: seed_defs validateRuleNode.simps validateRuleAtom_def Let_def string_field_def
      validFieldValue_def BoolValue_def StringValue_def NumberValue_def AsBool_def AsString_def
      AsNumber_def ParseConfidence_def to_Confidence_def ParseCriticality_def to_Criticality_def
      ParseExposure_def to_Exposure_def)

lemma in_range_strings:
  assumes "in_range f"
  shows "Confidence_Valid c \<Longrightarrow> Confidence_str (F_Confidence f) = Confidence_str c \<longleftrightarrow> F_Confidence f = c"
    and "Criticality_Valid k \<Longrightarrow> Criticality_str (F_Criticality f) = Criticality_str k \<longleftrightarrow> F_Criticality f = k"
    and "Exposure_Valid e \<Longrightarrow> Exposure_str (F_Exposure f) = Exposure_str e \<longleftrightarrow> F_Exposure f = e"
  using assms Confidence.str_inj Criticality.str_inj Exposure.str_inj
  by (auto simp: in_range_def)

lemma eval_atoms:
  assumes "in_range f"
  shows "Confidence_Valid c \<Longrightarrow> evalRuleNode (atomValues RuleOpIn FieldConfidence [Confidence_str c]) f \<longleftrightarrow> F_Confidence f = c"
    and "Confidence_Valid c \<Longrightarrow> Confidence_Valid d \<Longrightarrow>
      evalRuleNode (atomValues RuleOpIn FieldConfidence [Confidence_str c, Confidence_str d]) f \<longleftrightarrow> F_Confidence f \<in> {c, d}"
    and "evalRuleNode (atomValue RuleOpEq FieldKEV (BoolValue True)) f \<longleftrightarrow> F_KEV f"
    and "evalRuleNode (atomValue RuleOpGe FieldCVSS (NumberValue x)) f \<longleftrightarrow> x \<le> F_CVSS f"
    and "evalRuleNode (atomValue RuleOpGe FieldEPSS (NumberValue x)) f \<longleftrightarrow> x \<le> F_EPSS f"
    and "evalRuleNode seedExposedOrCritical f \<longleftrightarrow> exposed_or_critical f"
  using in_range_strings [OF assms]
  by (simp_all add: evalRuleNode_atom evalRuleNode_group evalRuleAtom_def BoolValue_def AsBool_def
      NumberValue_def AsNumber_def seedExposedOrCritical_def exposed_or_critical_def
      StringValue_def AsString_def del: Confidence_str.simps Criticality_str.simps Exposure_str.simps)

lemma eval_seed:
  assumes "in_range f"
  shows "evalRuleNode seedP1 f \<longleftrightarrow> F_Confidence f = ConfidenceHigh \<and> F_KEV f \<and> exposed_or_critical f"
    and "evalRuleNode seedP2 f \<longleftrightarrow>
      F_Confidence f = ConfidenceHigh \<and> (F_KEV f \<or> 9 \<le> F_CVSS f \<or> epssP2Threshold \<le> F_EPSS f) \<or>
      F_Confidence f = ConfidenceMedium \<and> F_KEV f \<and> exposed_or_critical f"
    and "evalRuleNode seedP3 f \<longleftrightarrow> F_Confidence f \<in> {ConfidenceHigh, ConfidenceMedium}"
    and "evalRuleNode seedP4 f \<longleftrightarrow> F_Confidence f \<in> {ConfidenceLow, ConfidenceNone}"
  using eval_atoms [OF assms]
  by (simp_all add: seedP1_def seedP2_def seedP3_def seedP4_def evalRuleNode_group cvssP2Threshold_def
      del: Confidence_str.simps)

lemma seed_well_formed: "well_formed SeedPriorityRules"
  by (simp add: well_formed_def SeedPriorityRules_def seed_valid)

lemma seed_ids: "map PRule_RuleID SeedPriorityRules = [PriorityP1, PriorityP2, PriorityP3, PriorityP4]"
  by (simp add: SeedPriorityRules_def)

lemma EvaluatePriority_seed:
  "in_range f \<Longrightarrow> EvaluatePriority SeedPriorityRules f = Ok (ch93_priority f)"
  by (simp add: SeedPriorityRules_def EvaluateRule_def seed_valid eval_seed ch93_priority_def Let_def)

lemma seed_thresholds:
  "has_threshold FieldCVSS t (PRule_Definition r) \<Longrightarrow> r \<in> set SeedPriorityRules \<Longrightarrow> t = cvssP2Threshold"
  "has_threshold FieldEPSS t (PRule_Definition r) \<Longrightarrow> r \<in> set SeedPriorityRules \<Longrightarrow> t = epssP2Threshold"
  by (auto simp: SeedPriorityRules_def seed_defs NumberValue_def AsNumber_def StringValue_def BoolValue_def)

text \<open>\<open>0.95\<close> as a \<open>float64\<close>, and it is representable.\<close>

lemma epssP2Threshold_val: "epssP2Threshold = 4278419646001971 / 4503599627370496"
  using fl_eq [of "- 1" "95 / 100" 8556839292003942]
  by (simp add: epssP2Threshold_def pow2_def)

lemma epssP2Threshold_f64: "is_f64 epssP2Threshold"
  using fl_eq [of "- 1" epssP2Threshold 8556839292003942]
  by (simp add: epssP2Threshold_val is_f64_def pow2_def)

lemma seed_f64: "ruleset_f64 SeedPriorityRules"
proof -
  have "is_f64 cvssP2Threshold" using is_f64_int [of 9] by (simp add: cvssP2Threshold_def)
  then show ?thesis
    using seed_thresholds epssP2Threshold_f64 unfolding ruleset_f64_def by blast
qed

section \<open>Properties\<close>

definition ex_factors :: PriorityFactors where
  "ex_factors = \<lparr>F_Method = MatchMethodExactIdentifier, F_Confidence = ConfidenceHigh, F_KEV = True,
     F_CVSS = 0, F_EPSS = 0, F_Criticality = CriticalityCritical, F_Exposure = ExposureInternal\<rparr>"

lemma ex_factors_valid: "PriorityFactors_Validate ex_factors = Ok ()"
  by (simp add: PriorityFactors_Validate_iff ex_factors_def in_range_def MatchMethod_Confidence_def)



fun urgency :: "Priority \<Rightarrow> nat" where
  "urgency PriorityP1 = 3"
| "urgency PriorityP2 = 2"
| "urgency PriorityP3 = 1"
| "urgency _ = 0"

fun confidence_rank :: "Confidence \<Rightarrow> nat" where
  "confidence_rank ConfidenceHigh = 2"
| "confidence_rank ConfidenceMedium = 1"
| "confidence_rank _ = 0"

definition no_less_urgent_factors :: "PriorityFactors \<Rightarrow> PriorityFactors \<Rightarrow> bool" where
  "no_less_urgent_factors f g \<longleftrightarrow>
     confidence_rank (F_Confidence f) \<le> confidence_rank (F_Confidence g) \<and>
     (F_KEV f \<le> F_KEV g) \<and> F_CVSS f \<le> F_CVSS g \<and> F_EPSS f \<le> F_EPSS g \<and>
     (exposed_or_critical f \<le> exposed_or_critical g)"

lemma ch93_mono:
  assumes "no_less_urgent_factors f g"
  shows "urgency (ch93_priority f) \<le> urgency (ch93_priority g)"
  using assms
  by (cases "F_Confidence f"; cases "F_Confidence g")
    (auto simp: ch93_priority_def no_less_urgent_factors_def Let_def)

text \<open>Urgency is monotone. Learning of exploitation, a higher CVSS or EPSS score, a more exposed
  or critical asset or a stronger confidence never makes a signal less urgent under the seed
  rules.\<close>

theorem priority_monotone:
  assumes "PriorityFactors_Validate f = Ok ()" "PriorityFactors_Validate g = Ok ()"
    and "no_less_urgent_factors f g"
  shows "urgency (ComputePriority f) \<le> urgency (ComputePriority g)"
  using ch93_mono [OF assms(3)] assms(1,2) EvaluatePriority_seed
  by (simp add: PriorityFactors_Validate_iff ComputePriority_def)

theorem priority_monotone_witness:
  "urgency (ComputePriority (ex_factors\<lparr>F_KEV := False\<rparr>)) \<le> urgency (ComputePriority ex_factors)"
proof (rule priority_monotone)
  show "PriorityFactors_Validate (ex_factors\<lparr>F_KEV := False\<rparr>) = Ok ()"
    by (simp add: PriorityFactors_Validate_iff ex_factors_def in_range_def MatchMethod_Confidence_def)
  show "PriorityFactors_Validate ex_factors = Ok ()" by (rule ex_factors_valid)
  show "no_less_urgent_factors (ex_factors\<lparr>F_KEV := False\<rparr>) ex_factors"
    by (simp add: no_less_urgent_factors_def ex_factors_def exposed_or_critical_def)
qed

text \<open>First match wins, with P4 terminal and malformed rules never skipped. The evaluation of any
  ruleset, an operator's included, is decided by the first enabled rule that matches or is
  malformed: a matching rule gives its class, a malformed one an error; with no such rule the
  class is P4.\<close>

theorem first_match_wins:
  "EvaluatePriority rules f =
     (case find (decides f) rules of
        None \<Rightarrow> Ok PriorityP4
      | Some r \<Rightarrow>
          (case validateRuleNode (PRule_Definition r) of
             Inl e \<Rightarrow> Err (Wrapped (Priority_str (PRule_RuleID r)) e)
           | Inr _ \<Rightarrow> Ok (PRule_RuleID r)))"
proof (induction rules)
  case Nil
  then show ?case by simp
next
  case (Cons r rs)
  then show ?case
    by (cases "validateRuleNode (PRule_Definition r)") (auto simp: decides_def EvaluateRule_def)
qed

lemma probe_cells:
  assumes "ruleset_f64 rules" and wf: "well_formed rules"
  shows "(\<exists>f\<in>set (rulesetProbeFactors rules). EvaluatePriority rules f = Ok p) \<longleftrightarrow>
    (\<exists>f. PriorityFactors_Validate f = Ok () \<and> is_f64 (F_CVSS f) \<and> is_f64 (F_EPSS f) \<and>
       EvaluatePriority rules f = Ok p)"
proof -
  let ?grid = "rulesetProbeFactors rules"
  show "(\<exists>f\<in>set ?grid. EvaluatePriority rules f = Ok p) \<longleftrightarrow>
      (\<exists>f. PriorityFactors_Validate f = Ok () \<and> is_f64 (F_CVSS f) \<and> is_f64 (F_EPSS f) \<and>
         EvaluatePriority rules f = Ok p)"
  proof
    assume "\<exists>f\<in>set ?grid. EvaluatePriority rules f = Ok p"
    then obtain f where f: "in_range f" "EvaluatePriority rules f = Ok p"
      using grid_in_range [OF assms(1)] by blast
    obtain c e where "is_f64 c" "is_f64 e" "0 \<le> c" "c \<le> 10" "0 \<le> e" "e \<le> 1"
      "\<And>m. EvaluatePriority rules (f\<lparr>F_Method := m, F_CVSS := c, F_EPSS := e\<rparr>) = EvaluatePriority rules f"
      using representative_cell [OF f(1) wf assms(1)] by metis
    moreover obtain m where "MatchMethod_Valid m" "MatchMethod_Confidence m = (F_Confidence f, True)"
      using confidence_has_method f(1) unfolding in_range_def by blast
    ultimately show "\<exists>f. PriorityFactors_Validate f = Ok () \<and> is_f64 (F_CVSS f) \<and> is_f64 (F_EPSS f) \<and>
         EvaluatePriority rules f = Ok p"
      using f by (intro exI [of _ "f\<lparr>F_Method := m, F_CVSS := c, F_EPSS := e\<rparr>"])
        (simp add: PriorityFactors_Validate_iff in_range_def)
  next
    assume "\<exists>f. PriorityFactors_Validate f = Ok () \<and> is_f64 (F_CVSS f) \<and> is_f64 (F_EPSS f) \<and>
         EvaluatePriority rules f = Ok p"
    then obtain f where f: "in_range f" "EvaluatePriority rules f = Ok p"
      by (auto simp: PriorityFactors_Validate_iff)
    let ?g = "\<lambda>c e. f\<lparr>F_Method := OtherMatchMethod '''', F_CVSS := c, F_EPSS := e\<rparr>"
    obtain c e where "c \<in> set (numericProbes (fst (ruleset_thresholds rules)) 10)"
      "e \<in> set (numericProbes (snd (ruleset_thresholds rules)) 1)"
      "EvaluatePriority rules (?g c e) = EvaluatePriority rules f"
      using representative_cell [OF f(1) wf assms(1)] by metis
    then show "\<exists>f\<in>set ?grid. EvaluatePriority rules f = Ok p"
      using f by (intro bexI [of _ "?g c e"]) (simp_all add: set_probe_grid in_range_def)
  qed
qed

text \<open>The probe grid decides whether a ruleset is degenerate. For a ruleset whose numeric
  thresholds are \<open>float64\<close> values, validation accepts exactly the rulesets with the ids P1..P4 in
  order, four well-formed predicates and, for each class, some valid factors (a cell an actual
  signal can have) that evaluate to it: the finite grid neither misses a reachable class nor
  accepts on the strength of a cell outside the factors' range.\<close>

theorem ruleset_accepted_iff:
  assumes "ruleset_f64 rules"
  shows "ValidateRuleset rules = Ok () \<longleftrightarrow>
    map PRule_RuleID rules = [PriorityP1, PriorityP2, PriorityP3, PriorityP4] \<and>
    well_formed rules \<and>
    (\<forall>p\<in>{PriorityP1, PriorityP2, PriorityP3, PriorityP4}.
       \<exists>f. PriorityFactors_Validate f = Ok () \<and> is_f64 (F_CVSS f) \<and> is_f64 (F_EPSS f) \<and>
         EvaluatePriority rules f = Ok p)"
proof -
  show ?thesis
  proof (cases "length rules = 4")
    case True
    have "ValidateRuleset rules = Ok () \<longleftrightarrow>
      map PRule_RuleID rules = [PriorityP1, PriorityP2, PriorityP3, PriorityP4] \<and> well_formed rules \<and>
      validateRulesetDistinct rules = Ok ()"
      using True ruleset_loop_Ok [OF True]
      by (cases "ruleset_loop {} (zip rules [PriorityP1, PriorityP2, PriorityP3, PriorityP4])")
        (auto simp: ValidateRuleset_def)
    then show ?thesis
      using validateRulesetDistinct_iff probe_cells [OF assms] by (auto 0 0)
  next
    case False
    then have "length (map PRule_RuleID rules) \<noteq> length [PriorityP1, PriorityP2, PriorityP3, PriorityP4]"
      by simp
    then have "map PRule_RuleID rules \<noteq> [PriorityP1, PriorityP2, PriorityP3, PriorityP4]"
      by metis
    with False show ?thesis by (simp add: ValidateRuleset_def)
  qed
qed

text \<open>The seed ruleset has, for each class, valid factors of that class.\<close>

definition ex_cell :: "MatchMethod \<Rightarrow> Confidence \<Rightarrow> bool \<Rightarrow> PriorityFactors" where
  "ex_cell m c kev = \<lparr>F_Method = m, F_Confidence = c, F_KEV = kev, F_CVSS = 0, F_EPSS = 0,
     F_Criticality = CriticalityLow, F_Exposure = (if kev then ExposureInternet else ExposureInternal)\<rparr>"

lemma ex_cell_valid:
  "MatchMethod_Valid m \<Longrightarrow> MatchMethod_Confidence m = (c, True) \<Longrightarrow> Confidence_Valid c \<Longrightarrow>
   PriorityFactors_Validate (ex_cell m c kev) = Ok ()"
  by (simp add: PriorityFactors_Validate_iff ex_cell_def in_range_def)

lemma seed_reaches_every_class:
  "\<forall>p\<in>{PriorityP1, PriorityP2, PriorityP3, PriorityP4}.
     \<exists>f. PriorityFactors_Validate f = Ok () \<and> is_f64 (F_CVSS f) \<and> is_f64 (F_EPSS f) \<and>
       EvaluatePriority SeedPriorityRules f = Ok p"
proof -
  have cell: "\<exists>f. PriorityFactors_Validate f = Ok () \<and> is_f64 (F_CVSS f) \<and> is_f64 (F_EPSS f) \<and>
       EvaluatePriority SeedPriorityRules f = Ok (ch93_priority (ex_cell m c kev))"
    if "MatchMethod_Valid m" "MatchMethod_Confidence m = (c, True)" "Confidence_Valid c" for m c kev
    using ex_cell_valid [OF that, of kev] EvaluatePriority_seed [of "ex_cell m c kev"]
    by (intro exI [of _ "ex_cell m c kev"])
      (simp add: PriorityFactors_Validate_iff, simp add: ex_cell_def)
  have "ch93_priority (ex_cell MatchMethodExactIdentifier ConfidenceHigh True) = PriorityP1"
    "ch93_priority (ex_cell MatchMethodControlledAliasOnly ConfidenceMedium True) = PriorityP2"
    "ch93_priority (ex_cell MatchMethodControlledAliasOnly ConfidenceMedium False) = PriorityP3"
    "ch93_priority (ex_cell MatchMethodCandidate ConfidenceLow False) = PriorityP4"
    by (simp_all add: ch93_priority_def ex_cell_def exposed_or_critical_def)
  then show ?thesis
    using cell [of MatchMethodExactIdentifier ConfidenceHigh True]
      cell [of MatchMethodControlledAliasOnly ConfidenceMedium True]
      cell [of MatchMethodControlledAliasOnly ConfidenceMedium False]
      cell [of MatchMethodCandidate ConfidenceLow False]
    by (simp add: MatchMethod_Confidence_def)
qed

theorem ruleset_accepted_iff_witness: "ValidateRuleset SeedPriorityRules = Ok ()"
  using ruleset_accepted_iff [OF seed_f64] seed_ids seed_well_formed seed_reaches_every_class
  by blast

text \<open>The predicate language has no negation. Raising a score of a cell never unmatches a rule,
  so a threshold rule cannot be evaded by a worse score.\<close>

theorem rules_match_upwards:
  assumes "EvaluateRule d f = Ok True" "raised f g"
  shows "EvaluateRule d g = Ok True"
  using assms evalRuleNode_raised [of f g d] by (simp add: EvaluateRule_Ok_iff)

theorem rules_match_upwards_witness:
  "EvaluateRule seedP1 (ex_factors\<lparr>F_CVSS := 5\<rparr>) = Ok True"
proof (rule rules_match_upwards)
  have "in_range ex_factors" using ex_factors_valid by (simp add: PriorityFactors_Validate_iff)
  from eval_seed(1) [OF this] show "EvaluateRule seedP1 ex_factors = Ok True"
    by (simp add: EvaluateRule_Ok_iff seed_valid) (simp add: ex_factors_def exposed_or_critical_def)
  show "raised ex_factors (ex_factors\<lparr>F_CVSS := 5\<rparr>)" by (simp add: raised_def ex_factors_def)
qed

text \<open>The text order of the priority ruleset version is the numeric order, and the text
  determines the number, below ten to the tenth.\<close>

theorem priority_rule_version_order:
  assumes "PriorityRuleVersion n = Ok s" "PriorityRuleVersion n' = Ok s'" "n < 10 ^ 10" "n' < 10 ^ 10"
  shows "(s < s' \<longleftrightarrow> n < n') \<and> (s = s' \<longleftrightarrow> n = n')"
proof -
  have n: "1 \<le> n" "1 \<le> n'" and s: "s = CHR ''p'' # pad_zeros 10 (itoa (nat n))"
    "s' = CHR ''p'' # pad_zeros 10 (itoa (nat n'))"
    using assms(1,2) by (auto simp: PriorityRuleVersion_def priorityRuleVersionWidth_def split: if_splits)
  moreover have "nat n < 10 ^ 10" "nat n' < 10 ^ 10" using assms(3,4) n by simp_all
  ultimately show ?thesis by (simp add: padded_less padded_eq nat_less_eq_zless nat_eq_iff)
qed

theorem priority_rule_version_order_witness:
  "\<exists>s s'. PriorityRuleVersion 2 = Ok s \<and> PriorityRuleVersion 10 = Ok s' \<and> s < s'"
proof -
  obtain s s' where r: "PriorityRuleVersion 2 = Ok s" "PriorityRuleVersion 10 = Ok s'"
    by (simp add: PriorityRuleVersion_def)
  then show ?thesis using priority_rule_version_order [OF r] by simp
qed

end
