(* ===== verification/Signal.thy ===== *)
theory Signal
  imports PriorityRules
begin

text \<open>
  Risk signals (internal/domain: risksignal.go, status.go, comment.go): the aggregate with its
  priority override, the ch. 6.3 status machine, and append-only comments.
\<close>

section \<open>The status machine\<close>

fun IsClosed :: "SignalStatus \<Rightarrow> bool" where
  "IsClosed SignalStatusResolved = True"
| "IsClosed SignalStatusAccepted = True"
| "IsClosed SignalStatusNotAffected = True"
| "IsClosed _ = False"

text \<open>The matrix: a row is a map to \<open>bool\<close>, and a key that is not in it reads as false.\<close>

fun signalTransitions :: "SignalStatus \<Rightarrow> (SignalStatus \<Rightarrow> bool) option" where
  "signalTransitions SignalStatusNew =
     Some (\<lambda>t. t \<in> {SignalStatusInReview, SignalStatusActionPlanned, SignalStatusNotAffected})"
| "signalTransitions SignalStatusInReview =
     Some (\<lambda>t. t \<in> {SignalStatusActionPlanned, SignalStatusNotAffected, SignalStatusAccepted})"
| "signalTransitions SignalStatusActionPlanned =
     Some (\<lambda>t. t \<in> {SignalStatusAccepted, SignalStatusResolved})"
| "signalTransitions SignalStatusResolved = Some (\<lambda>t. t = SignalStatusInReview)"
| "signalTransitions SignalStatusAccepted = Some (\<lambda>t. t = SignalStatusInReview)"
| "signalTransitions SignalStatusNotAffected = Some (\<lambda>t. t = SignalStatusInReview)"
| "signalTransitions (OtherSignalStatus _) = None"

definition CanTransition :: "SignalStatus \<Rightarrow> SignalStatus \<Rightarrow> bool" where
  "CanTransition frm to =
     (if frm = to then False
      else (case signalTransitions frm of None \<Rightarrow> False | Some m \<Rightarrow> m to))"

definition Transition :: "SignalStatus \<Rightarrow> SignalStatus \<Rightarrow> unit result" where
  "Transition frm to =
     guards [(\<not> SignalStatus_Valid frm, InvalidValue ''SignalStatus'' (SignalStatus_str frm)),
             (\<not> SignalStatus_Valid to, InvalidValue ''SignalStatus'' (SignalStatus_str to)),
             (frm = to, BadState ''transition to itself''),
             (\<not> CanTransition frm to, BadState ''transition not allowed'')]
       (Ok ())"

definition IsReopen :: "SignalStatus \<Rightarrow> SignalStatus \<Rightarrow> bool" where
  "IsReopen frm to \<longleftrightarrow> IsClosed frm \<and> to = SignalStatusInReview \<and> CanTransition frm to"

definition TransitionRequiresReason :: "SignalStatus \<Rightarrow> SignalStatus \<Rightarrow> bool" where
  "TransitionRequiresReason frm to =
     (if \<not> CanTransition frm to then False
      else if IsClosed to then True
      else IsReopen frm to)"

section \<open>The aggregate\<close>

record RiskSignal =
  Sig_ID :: string
  Sig_MatchID :: string
  Sig_Priority :: Priority
  Sig_Status :: SignalStatus
  Sig_Owner :: string
  Sig_Version :: int
  Sig_RuleVersion :: string
  Sig_Factors :: PriorityFactors
  Sig_AutoPriority :: "Priority option"
  Sig_OverrideReason :: string
  Sig_OverrideActorID :: string
  Sig_OverrideAt :: time
  Sig_EscalatedAt :: time

definition NewRiskSignal :: "string \<Rightarrow> string \<Rightarrow> PriorityFactors \<Rightarrow> RiskSignal result" where
  "NewRiskSignal ident matchID f =
     guards [(ident = '''', EmptyField ''risk signal id''),
             (matchID = '''', EmptyField ''risk signal match_id'')]
       (rbind (PriorityFactors_Validate f) (\<lambda>_.
          Ok \<lparr>Sig_ID = ident, Sig_MatchID = matchID, Sig_Priority = ComputePriority f,
              Sig_Status = SignalStatusNew, Sig_Owner = '''', Sig_Version = 1,
              Sig_RuleVersion = PriorityRuleVersionI1b, Sig_Factors = f, Sig_AutoPriority = None,
              Sig_OverrideReason = '''', Sig_OverrideActorID = '''', Sig_OverrideAt = 0,
              Sig_EscalatedAt = 0\<rparr>))"

definition Overridden :: "RiskSignal \<Rightarrow> bool" where
  "Overridden s \<longleftrightarrow> Sig_AutoPriority s \<noteq> None"

definition Override ::
  "RiskSignal \<Rightarrow> Priority \<Rightarrow> string \<Rightarrow> string \<Rightarrow> time \<Rightarrow> RiskSignal result" where
  "Override s priority reason actorID instant =
     guards [(\<not> Priority_Valid priority, InvalidValue ''Priority'' (Priority_str priority)),
             (reason = '''', EmptyField ''reason''),
             (actorID = '''', EmptyField ''actor_id''),
             (time_IsZero instant, EmptyField ''override instant''),
             (Overridden s, BadState ''already overridden'')]
       (Ok (s\<lparr>Sig_AutoPriority := Some (Sig_Priority s), Sig_Priority := priority,
              Sig_OverrideReason := reason, Sig_OverrideActorID := actorID,
              Sig_OverrideAt := instant\<rparr>))"

definition Revert :: "RiskSignal \<Rightarrow> RiskSignal result" where
  "Revert s =
     (case Sig_AutoPriority s of
        None \<Rightarrow> Err (BadState ''no override to revert'')
      | Some auto \<Rightarrow>
          Ok (s\<lparr>Sig_Priority := auto, Sig_AutoPriority := None, Sig_OverrideReason := '''',
                Sig_OverrideActorID := '''', Sig_OverrideAt := 0\<rparr>))"

section \<open>Comments\<close>

record Comment =
  Com_ID :: string
  Com_SignalID :: string
  Com_ActorID :: string
  Com_Body :: string

definition NewComment :: "string \<Rightarrow> string \<Rightarrow> string \<Rightarrow> string \<Rightarrow> Comment result" where
  "NewComment ident signalID actorID body =
     guards [(ident = '''', EmptyField ''comment id''),
             (signalID = '''', EmptyField ''comment signal_id''),
             (actorID = '''', EmptyField ''comment actor_id''),
             (trim_space body = '''', EmptyField ''comment body'')]
       (Ok \<lparr>Com_ID = ident, Com_SignalID = signalID, Com_ActorID = actorID, Com_Body = body\<rparr>)"

section \<open>Lemmas on the status machine\<close>

lemma Transition_Ok_iff: "Transition a b = Ok () \<longleftrightarrow> CanTransition a b"
  by (cases a; cases b) (simp_all add: Transition_def CanTransition_def)

lemma CanTransition_edges:
  "CanTransition a b \<longleftrightarrow>
     (a, b) \<in> {(SignalStatusNew, SignalStatusInReview), (SignalStatusNew, SignalStatusActionPlanned),
       (SignalStatusNew, SignalStatusNotAffected),
       (SignalStatusInReview, SignalStatusActionPlanned), (SignalStatusInReview, SignalStatusNotAffected),
       (SignalStatusInReview, SignalStatusAccepted),
       (SignalStatusActionPlanned, SignalStatusAccepted), (SignalStatusActionPlanned, SignalStatusResolved),
       (SignalStatusResolved, SignalStatusInReview), (SignalStatusAccepted, SignalStatusInReview),
       (SignalStatusNotAffected, SignalStatusInReview)}"
  by (cases a; cases b) (simp_all add: CanTransition_def)

inductive status_step :: "SignalStatus \<Rightarrow> SignalStatus \<Rightarrow> bool" where
  "Transition a b = Ok () \<Longrightarrow> status_step a b"

inductive_simps status_step_iff: "status_step a b"

text \<open>A signal's life: the states it goes through, in order, from its creation.\<close>

inductive status_trace :: "SignalStatus list \<Rightarrow> bool" where
  created: "status_trace [SignalStatusNew]"
| changed: "status_trace (s # past) \<Longrightarrow> status_step s t \<Longrightarrow> status_trace (t # s # past)"

lemma status_trace_valid: "status_trace xs \<Longrightarrow> (\<forall>s\<in>set xs. SignalStatus_Valid s) \<and> xs \<noteq> [] \<and> last xs = SignalStatusNew"
  by (induction rule: status_trace.induct)
    (auto simp: status_step_iff Transition_Ok_iff CanTransition_edges)

lemma status_trace_new_once: "status_trace (s # past) \<Longrightarrow> s = SignalStatusNew \<longleftrightarrow> past = []"
  by (erule status_trace.cases) (auto simp: status_step_iff Transition_Ok_iff CanTransition_edges)

lemma reachable_from_review:
  "b \<in> {SignalStatusInReview, SignalStatusActionPlanned, SignalStatusResolved, SignalStatusAccepted,
     SignalStatusNotAffected} \<Longrightarrow> status_step\<^sup>*\<^sup>* SignalStatusInReview b"
proof -
  have e: "status_step SignalStatusInReview SignalStatusActionPlanned"
    "status_step SignalStatusActionPlanned SignalStatusResolved"
    "status_step SignalStatusInReview SignalStatusAccepted"
    "status_step SignalStatusInReview SignalStatusNotAffected"
    by (simp_all add: status_step_iff Transition_Ok_iff CanTransition_edges)
  moreover assume "b \<in> {SignalStatusInReview, SignalStatusActionPlanned, SignalStatusResolved,
     SignalStatusAccepted, SignalStatusNotAffected}"
  moreover have "status_step\<^sup>*\<^sup>* SignalStatusInReview SignalStatusResolved"
    using e(1,2) by (meson r_into_rtranclp rtranclp.rtrancl_into_rtrancl)
  ultimately show ?thesis by (auto intro: r_into_rtranclp)
qed

lemma review_reachable: "SignalStatus_Valid a \<Longrightarrow> status_step\<^sup>*\<^sup>* a SignalStatusInReview"
proof -
  have e: "status_step SignalStatusNew SignalStatusInReview"
    "status_step SignalStatusActionPlanned SignalStatusResolved"
    "status_step SignalStatusResolved SignalStatusInReview"
    "status_step SignalStatusAccepted SignalStatusInReview"
    "status_step SignalStatusNotAffected SignalStatusInReview"
    by (simp_all add: status_step_iff Transition_Ok_iff CanTransition_edges)
  have "status_step\<^sup>*\<^sup>* SignalStatusActionPlanned SignalStatusInReview"
    using e(2,3) by (meson r_into_rtranclp rtranclp.rtrancl_into_rtrancl)
  with e show "SignalStatus_Valid a \<Longrightarrow> status_step\<^sup>*\<^sup>* a SignalStatusInReview"
    by (cases a) (auto intro: r_into_rtranclp)
qed

section \<open>Lemmas on the aggregate\<close>

text \<open>The invariant: valid factors, four override columns set or clear together, and the computed
  priority, kept aside while an override is active, that of the seed rules.\<close>

definition Signal_wf :: "RiskSignal \<Rightarrow> bool" where
  "Signal_wf s \<longleftrightarrow>
     Sig_ID s \<noteq> '''' \<and> Sig_MatchID s \<noteq> '''' \<and> PriorityFactors_Validate (Sig_Factors s) = Ok () \<and>
     Priority_Valid (Sig_Priority s) \<and>
     (case Sig_AutoPriority s of
        None \<Rightarrow> Sig_OverrideReason s = '''' \<and> Sig_OverrideActorID s = '''' \<and> Sig_OverrideAt s = 0 \<and>
          Sig_Priority s = ComputePriority (Sig_Factors s)
      | Some p \<Rightarrow> Sig_OverrideReason s \<noteq> '''' \<and> Sig_OverrideActorID s \<noteq> '''' \<and> Sig_OverrideAt s \<noteq> 0 \<and>
          p = ComputePriority (Sig_Factors s))"

lemma ch93_valid: "Priority_Valid (ch93_priority f)"
  by (simp add: ch93_priority_def Let_def)

lemma ComputePriority_valid: "PriorityFactors_Validate f = Ok () \<Longrightarrow> Priority_Valid (ComputePriority f)"
  using EvaluatePriority_seed [of f] ch93_valid [of f]
  by (simp add: PriorityFactors_Validate_iff ComputePriority_def)

lemma NewRiskSignal_wf: "NewRiskSignal ident m f = Ok s \<Longrightarrow> Signal_wf s"
  by (auto simp: NewRiskSignal_def Signal_wf_def result_simps ComputePriority_valid)

lemma Override_Ok_iff:
  "Override s p r a t = Ok s' \<longleftrightarrow>
     Priority_Valid p \<and> r \<noteq> '''' \<and> a \<noteq> '''' \<and> t \<noteq> 0 \<and> Sig_AutoPriority s = None \<and>
     s' = s\<lparr>Sig_AutoPriority := Some (Sig_Priority s), Sig_Priority := p, Sig_OverrideReason := r,
            Sig_OverrideActorID := a, Sig_OverrideAt := t\<rparr>"
  by (auto simp: Override_def Overridden_def time_IsZero_def result_simps)

lemma Override_wf: "Signal_wf s \<Longrightarrow> Override s p r a t = Ok s' \<Longrightarrow> Signal_wf s'"
  by (auto simp: Override_Ok_iff Signal_wf_def)

lemma Revert_wf: "Signal_wf s \<Longrightarrow> Revert s = Ok s' \<Longrightarrow> Signal_wf s'"
  by (auto simp: Revert_def Signal_wf_def ComputePriority_valid split: option.splits)

inductive signal_history :: "RiskSignal \<Rightarrow> bool" where
  create: "NewRiskSignal ident m f = Ok s \<Longrightarrow> signal_history s"
| override: "signal_history s \<Longrightarrow> Override s p r a t = Ok s' \<Longrightarrow> signal_history s'"
| revert: "signal_history s \<Longrightarrow> Revert s = Ok s' \<Longrightarrow> signal_history s'"

lemma signal_history_wf: "signal_history s \<Longrightarrow> Signal_wf s"
  by (induction rule: signal_history.induct) (auto intro: NewRiskSignal_wf Override_wf Revert_wf)

section \<open>Properties\<close>


lemma ex_trace:
  "status_trace [SignalStatusResolved, SignalStatusActionPlanned, SignalStatusNew]"
  by (intro status_trace.intros)
    (simp_all add: status_step_iff Transition_Ok_iff CanTransition_edges)


text \<open>C38: No dead ends. From every known status every status except new can be reached by allowed
  transitions, so no closed state traps a signal.\<close>

theorem status_machine_live:
  assumes "SignalStatus_Valid a" "SignalStatus_Valid b" "b \<noteq> SignalStatusNew"
  shows "status_step\<^sup>*\<^sup>* a b"
  using review_reachable [OF assms(1)] reachable_from_review [of b] assms(2,3)
  by (cases b) (auto intro: rtranclp_trans)

theorem status_machine_live_witness: "status_step\<^sup>*\<^sup>* SignalStatusAccepted SignalStatusResolved"
  by (rule status_machine_live) simp_all

text \<open>The override invariant. Whatever sequence of creation, overrides and reversals produced a
  signal, its four override columns are set together or clear together, its effective priority
  is a known class, and the computed priority (the effective one, or the one kept aside while an
  override is active) is what the seed rules compute from its factors.\<close>

theorem signal_override_invariant:
  assumes "signal_history s"
  shows "Priority_Valid (Sig_Priority s) \<and>
    (Overridden s \<longleftrightarrow> Sig_OverrideReason s \<noteq> '''') \<and> (Overridden s \<longleftrightarrow> Sig_OverrideActorID s \<noteq> '''') \<and>
    (Overridden s \<longleftrightarrow> Sig_OverrideAt s \<noteq> 0) \<and>
    (case Sig_AutoPriority s of None \<Rightarrow> Sig_Priority s | Some p \<Rightarrow> p) = ch93_priority (Sig_Factors s)"
proof -
  have w: "Signal_wf s" using assms by (rule signal_history_wf)
  then have "ComputePriority (Sig_Factors s) = ch93_priority (Sig_Factors s)"
    using EvaluatePriority_seed [of "Sig_Factors s"]
    by (simp add: Signal_wf_def PriorityFactors_Validate_iff ComputePriority_def)
  with w show ?thesis by (cases "Sig_AutoPriority s") (simp_all add: Signal_wf_def Overridden_def ch93_valid)
qed

definition ex_signal :: RiskSignal where
  "ex_signal = \<lparr>Sig_ID = ''s'', Sig_MatchID = ''m'', Sig_Priority = ComputePriority ex_factors,
     Sig_Status = SignalStatusNew, Sig_Owner = '''', Sig_Version = 1, Sig_RuleVersion = ''i1b-1'',
     Sig_Factors = ex_factors, Sig_AutoPriority = None, Sig_OverrideReason = '''',
     Sig_OverrideActorID = '''', Sig_OverrideAt = 0, Sig_EscalatedAt = 0\<rparr>"

definition ex_signal_overridden :: RiskSignal where
  "ex_signal_overridden = ex_signal\<lparr>Sig_AutoPriority := Some (ComputePriority ex_factors),
     Sig_Priority := PriorityP3, Sig_OverrideReason := ''r'', Sig_OverrideActorID := ''u'',
     Sig_OverrideAt := 5\<rparr>"

lemma ex_signal_new: "NewRiskSignal ''s'' ''m'' ex_factors = Ok ex_signal"
  by (simp add: NewRiskSignal_def ex_signal_def ex_factors_valid PriorityRuleVersionI1b_def)

lemma ex_signal_override: "Override ex_signal PriorityP3 ''r'' ''u'' 5 = Ok ex_signal_overridden"
  by (simp add: Override_Ok_iff ex_signal_overridden_def) (simp add: ex_signal_def)

theorem signal_override_invariant_witness:
  "Overridden ex_signal_overridden \<and> Sig_OverrideReason ex_signal_overridden \<noteq> ''''"
proof -
  have "signal_history ex_signal_overridden"
    by (rule signal_history.override [OF signal_history.create [OF ex_signal_new] ex_signal_override])
  moreover have "Overridden ex_signal_overridden" by (simp add: Overridden_def ex_signal_overridden_def)
  ultimately show ?thesis using signal_override_invariant [of ex_signal_overridden] by simp
qed

text \<open>An override is reversible. Reverting an override gives back exactly the signal before it,
  a signal with an active override can be overridden only after a reversal, and a signal without
  one cannot be reverted.\<close>

theorem override_round_trip:
  assumes "Signal_wf s" "Override s p reason actor instant = Ok s'"
  shows "Revert s' = Ok s \<and> Overridden s' \<and> \<not> is_ok (Override s' q reason2 actor2 instant2) \<and>
    \<not> is_ok (Revert s)"
proof -
  have s: "Sig_AutoPriority s = None" "Sig_OverrideReason s = ''''" "Sig_OverrideActorID s = ''''"
    "Sig_OverrideAt s = 0"
    "s' = s\<lparr>Sig_AutoPriority := Some (Sig_Priority s), Sig_Priority := p, Sig_OverrideReason := reason,
       Sig_OverrideActorID := actor, Sig_OverrideAt := instant\<rparr>"
    using assms by (simp_all add: Override_Ok_iff Signal_wf_def)
  moreover have "\<not> is_ok (Override s' q reason2 actor2 instant2)"
    using s(5) by (simp add: is_ok_iff Override_Ok_iff)
  ultimately show ?thesis by (simp add: Revert_def Overridden_def)
qed

theorem override_round_trip_witness: "Revert ex_signal_overridden = Ok ex_signal"
  using override_round_trip [OF NewRiskSignal_wf [OF ex_signal_new] ex_signal_override] by blast

end
