(* ===== verification/Sla.thy ===== *)
theory Sla
  imports Vocabulary
begin

text \<open>
  Reaction times (internal/domain/sla.go): the profile of durations per priority and target, and
  the clock with its pause, resume, fulfil, tighten and reset operations.
\<close>

section \<open>The profile\<close>

text \<open>A nil map is \<open>None\<close>; a missing key reads as the zero value.\<close>

record SLATimeProfile =
  durations :: "(Priority \<rightharpoonup> SLATarget \<rightharpoonup> duration) option"

text \<open>
  The argument of \<open>NewSLATimeProfile\<close> is a map, which Go iterates in an unspecified order: here
  the list of its entries in the order of the iteration.
\<close>

fun profile_targets ::
  "(SLATarget \<times> duration) list \<Rightarrow> (SLATarget \<rightharpoonup> duration) \<Rightarrow> (SLATarget \<rightharpoonup> duration) result" where
  "profile_targets [] m = Ok m"
| "profile_targets ((t, d) # ts) m =
     (if \<not> SLATarget_Valid t then Err (InvalidValue ''SLATarget'' (SLATarget_str t))
      else if d \<le> 0 then Err (OutOfRange ''duration must be positive'')
      else profile_targets ts (m(t \<mapsto> d)))"

fun profile_loop ::
  "(Priority \<times> (SLATarget \<times> duration) list) list \<Rightarrow> (Priority \<rightharpoonup> SLATarget \<rightharpoonup> duration) \<Rightarrow>
   (Priority \<rightharpoonup> SLATarget \<rightharpoonup> duration) result" where
  "profile_loop [] clean = Ok clean"
| "profile_loop ((p, targets) # rest) clean =
     (if \<not> Priority_Valid p then Err (InvalidValue ''Priority'' (Priority_str p))
      else rbind (profile_targets targets Map.empty) (\<lambda>m. profile_loop rest (clean(p \<mapsto> m))))"

definition NewSLATimeProfile ::
  "(Priority \<times> (SLATarget \<times> duration) list) list \<Rightarrow> SLATimeProfile result" where
  "NewSLATimeProfile ds =
     rbind (profile_loop ds Map.empty) (\<lambda>clean. Ok \<lparr>durations = Some clean\<rparr>)"

definition DefaultSLATimeProfile :: SLATimeProfile where
  "DefaultSLATimeProfile = \<lparr>durations = Some [
     PriorityP1 \<mapsto> [SLATargetNotification \<mapsto> 5 * time_Minute,
                    SLATargetAcknowledgement \<mapsto> 15 * time_Minute,
                    SLATargetAssessment \<mapsto> 60 * time_Minute,
                    SLATargetDecision \<mapsto> 4 * time_Hour],
     PriorityP2 \<mapsto> [SLATargetNotification \<mapsto> 15 * time_Minute,
                    SLATargetAcknowledgement \<mapsto> 1 * time_Hour,
                    SLATargetAssessment \<mapsto> 4 * time_Hour,
                    SLATargetDecision \<mapsto> 24 * time_Hour],
     PriorityP3 \<mapsto> [SLATargetAcknowledgement \<mapsto> 24 * time_Hour,
                    SLATargetAssessment \<mapsto> 72 * time_Hour],
     PriorityP4 \<mapsto> [SLATargetAssessment \<mapsto> 168 * time_Hour]]\<rparr>"

definition Duration :: "SLATimeProfile \<Rightarrow> Priority \<Rightarrow> SLATarget \<Rightarrow> duration" where
  "Duration p priority target =
     (case durations p of
        None \<Rightarrow> 0
      | Some ds \<Rightarrow>
          (case ds priority of
             None \<Rightarrow> 0
           | Some m \<Rightarrow> (case m target of None \<Rightarrow> 0 | Some d \<Rightarrow> d)))"

definition Defined :: "SLATimeProfile \<Rightarrow> Priority \<Rightarrow> SLATarget \<Rightarrow> bool" where
  "Defined p priority target \<longleftrightarrow> Duration p priority target > 0"

definition Targets :: "SLATimeProfile \<Rightarrow> Priority \<Rightarrow> SLATarget list" where
  "Targets p priority =
     filter (Defined p priority)
       [SLATargetNotification, SLATargetAcknowledgement, SLATargetAssessment, SLATargetDecision]"

section \<open>The clock\<close>

record SlaClock =
  Clk_ID :: string
  Clk_SignalID :: string
  Clk_Target :: SLATarget
  Clk_StartedAt :: time
  Clk_DeadlineAt :: time
  Clk_FulfilledAt :: time
  Clk_PausedSeconds :: int
  Clk_PausedAt :: time

definition NewSlaClock ::
  "string \<Rightarrow> string \<Rightarrow> SLATarget \<Rightarrow> Priority \<Rightarrow> SLATimeProfile \<Rightarrow> time \<Rightarrow> SlaClock result" where
  "NewSlaClock ident signalID target priority profile now =
     (let d = Duration profile priority target in
      guards [(ident = '''', EmptyField ''sla clock id''),
              (signalID = '''', EmptyField ''sla clock signal_id''),
              (\<not> SLATarget_Valid target, InvalidValue ''SLATarget'' (SLATarget_str target)),
              (time_IsZero now, EmptyField ''start instant''),
              (d \<le> 0, BadShape ''no sla clock defined'')]
        (Ok \<lparr>Clk_ID = ident, Clk_SignalID = signalID, Clk_Target = target, Clk_StartedAt = now,
             Clk_DeadlineAt = time_Add now d, Clk_FulfilledAt = 0, Clk_PausedSeconds = 0,
             Clk_PausedAt = 0\<rparr>))"

definition Paused :: "SlaClock \<Rightarrow> bool" where
  "Paused c \<longleftrightarrow> \<not> time_IsZero (Clk_PausedAt c)"

definition Fulfilled :: "SlaClock \<Rightarrow> bool" where
  "Fulfilled c \<longleftrightarrow> \<not> time_IsZero (Clk_FulfilledAt c)"

definition EffectiveDeadline :: "SlaClock \<Rightarrow> time \<Rightarrow> time" where
  "EffectiveDeadline c now =
     (let d = time_Add (Clk_DeadlineAt c) (dur_mul (Clk_PausedSeconds c) time_Second) in
      if Paused c then time_Add d (time_Sub now (Clk_PausedAt c)) else d)"

definition Overdue :: "SlaClock \<Rightarrow> time \<Rightarrow> bool" where
  "Overdue c now \<longleftrightarrow> \<not> Fulfilled c \<and> time_After now (EffectiveDeadline c now)"

definition Pause :: "SlaClock \<Rightarrow> time \<Rightarrow> SlaClock result" where
  "Pause c now =
     guards [(Fulfilled c, BadState ''already fulfilled''),
             (Paused c, BadState ''already paused''),
             (time_IsZero now, EmptyField ''instant'')]
       (Ok (c\<lparr>Clk_PausedAt := now\<rparr>))"

definition Resume :: "SlaClock \<Rightarrow> time \<Rightarrow> SlaClock result" where
  "Resume c now =
     guards [(\<not> Paused c, BadState ''not paused''),
             (time_Before now (Clk_PausedAt c), BadShape ''resume precedes pause start'')]
       (Ok (c\<lparr>Clk_PausedSeconds :=
                 wrap64 (Clk_PausedSeconds c + trunc_div (time_Sub now (Clk_PausedAt c)) time_Second),
               Clk_PausedAt := 0\<rparr>))"

definition Fulfil :: "SlaClock \<Rightarrow> time \<Rightarrow> SlaClock result" where
  "Fulfil c now =
     (if Fulfilled c then Ok c
      else guards [(Paused c, BadState ''resume before fulfilling''),
                   (time_IsZero now, EmptyField ''instant'')]
             (Ok (c\<lparr>Clk_FulfilledAt := now\<rparr>)))"

definition Tighten :: "SlaClock \<Rightarrow> time \<Rightarrow> duration \<Rightarrow> SlaClock result" where
  "Tighten c now d =
     guards [(Fulfilled c, BadState ''already fulfilled''),
             (d \<le> 0, OutOfRange ''duration''),
             (time_IsZero now, EmptyField ''instant'')]
       (let tightened = time_Add now d in
        if time_Before tightened (Clk_DeadlineAt c) then Ok (c\<lparr>Clk_DeadlineAt := tightened\<rparr>)
        else Ok c)"

definition Reset :: "SlaClock \<Rightarrow> time \<Rightarrow> duration \<Rightarrow> SlaClock result" where
  "Reset c now d =
     guards [(d \<le> 0, OutOfRange ''duration''),
             (time_IsZero now, EmptyField ''instant'')]
       (Ok (c\<lparr>Clk_StartedAt := now, Clk_DeadlineAt := time_Add now d, Clk_FulfilledAt := 0,
              Clk_PausedSeconds := 0, Clk_PausedAt := 0\<rparr>))"

section \<open>Lemmas\<close>

lemmas clock_defs = Paused_def Fulfilled_def EffectiveDeadline_def Overdue_def time_defs

lemma Pause_Ok_iff:
  "Pause c now = Ok c' \<longleftrightarrow> Clk_FulfilledAt c = 0 \<and> Clk_PausedAt c = 0 \<and> now \<noteq> 0 \<and>
     c' = c\<lparr>Clk_PausedAt := now\<rparr>"
  by (auto simp: Pause_def clock_defs result_simps)

lemma Resume_Ok_iff:
  "Resume c now = Ok c' \<longleftrightarrow> Clk_PausedAt c \<noteq> 0 \<and> Clk_PausedAt c \<le> now \<and>
     c' = c\<lparr>Clk_PausedSeconds :=
              wrap64 (Clk_PausedSeconds c + trunc_div (sat64 (now - Clk_PausedAt c)) time_Second),
            Clk_PausedAt := 0\<rparr>"
  by (auto simp: Resume_def clock_defs result_simps)

lemma Fulfil_Ok_iff:
  "Fulfil c now = Ok c' \<longleftrightarrow>
     Clk_FulfilledAt c \<noteq> 0 \<and> c' = c \<or>
     Clk_FulfilledAt c = 0 \<and> Clk_PausedAt c = 0 \<and> now \<noteq> 0 \<and> c' = c\<lparr>Clk_FulfilledAt := now\<rparr>"
  by (auto simp: Fulfil_def clock_defs result_simps)

lemma Tighten_Ok_iff:
  "Tighten c now d = Ok c' \<longleftrightarrow> Clk_FulfilledAt c = 0 \<and> 0 < d \<and> now \<noteq> 0 \<and>
     c' = c\<lparr>Clk_DeadlineAt := min (Clk_DeadlineAt c) (now + d)\<rparr>"
  by (auto simp: Tighten_def clock_defs result_simps Let_def min_def)

lemma Reset_Ok_iff:
  "Reset c now d = Ok c' \<longleftrightarrow> 0 < d \<and> now \<noteq> 0 \<and>
     c' = c\<lparr>Clk_StartedAt := now, Clk_DeadlineAt := now + d, Clk_FulfilledAt := 0,
            Clk_PausedSeconds := 0, Clk_PausedAt := 0\<rparr>"
  by (auto simp: Reset_def clock_defs result_simps)

lemmas clock_Ok_iffs = Pause_Ok_iff Resume_Ok_iff Fulfil_Ok_iff Tighten_Ok_iff Reset_Ok_iff

text \<open>A clock's life.\<close>

datatype clock_op = OpPause | OpResume | OpFulfil | OpTighten duration | OpReset duration

fun clock_apply :: "clock_op \<Rightarrow> SlaClock \<Rightarrow> time \<Rightarrow> SlaClock result" where
  "clock_apply OpPause c now = Pause c now"
| "clock_apply OpResume c now = Resume c now"
| "clock_apply OpFulfil c now = Fulfil c now"
| "clock_apply (OpTighten d) c now = Tighten c now d"
| "clock_apply (OpReset d) c now = Reset c now d"

inductive clock_history :: "SlaClock \<Rightarrow> bool" where
  started: "NewSlaClock ident sid target priority profile now = Ok c \<Longrightarrow> clock_history c"
| stepped: "clock_history c \<Longrightarrow> clock_apply op c now = Ok c' \<Longrightarrow> clock_history c'"

lemma NewSlaClock_Ok_iff:
  "NewSlaClock ident sid target priority profile now = Ok c \<longleftrightarrow>
     ident \<noteq> '''' \<and> sid \<noteq> '''' \<and> SLATarget_Valid target \<and> now \<noteq> 0 \<and>
     0 < Duration profile priority target \<and>
     c = \<lparr>Clk_ID = ident, Clk_SignalID = sid, Clk_Target = target, Clk_StartedAt = now,
          Clk_DeadlineAt = now + Duration profile priority target, Clk_FulfilledAt = 0,
          Clk_PausedSeconds = 0, Clk_PausedAt = 0\<rparr>"
  by (auto simp: NewSlaClock_def time_defs Let_def result_simps)

definition Clock_wf :: "SlaClock \<Rightarrow> bool" where
  "Clock_wf c \<longleftrightarrow> Clk_ID c \<noteq> '''' \<and> Clk_SignalID c \<noteq> '''' \<and> SLATarget_Valid (Clk_Target c) \<and>
     Clk_StartedAt c \<noteq> 0 \<and> \<not> (Paused c \<and> Fulfilled c)"

lemma clock_history_wf: "clock_history c \<Longrightarrow> Clock_wf c"
proof (induction rule: clock_history.induct)
  case (started ident sid target priority profile now c)
  then show ?case by (simp add: NewSlaClock_Ok_iff Clock_wf_def Paused_def time_IsZero_def)
next
  case (stepped c op now c')
  then show ?case
    by (cases op) (auto simp: clock_Ok_iffs Clock_wf_def Paused_def Fulfilled_def time_IsZero_def)
qed

lemma profile_targets_Ok:
  "profile_targets ts m = Ok m' \<Longrightarrow>
     (\<forall>(t, d)\<in>set ts. SLATarget_Valid t \<and> 0 < d) \<and> m' = m ++ map_of (rev ts)"
  by (induction ts m rule: profile_targets.induct) (auto split: if_splits simp: map_add_assoc)

lemma profile_targets_accepts:
  "(\<forall>(t, d)\<in>set ts. SLATarget_Valid t \<and> 0 < d) \<Longrightarrow> is_ok (profile_targets ts m)"
  by (induction ts m rule: profile_targets.induct) auto

lemma profile_loop_Ok:
  "profile_loop ds clean = Ok m \<Longrightarrow>
     (\<forall>(p, ts)\<in>set ds. Priority_Valid p \<and> (\<forall>(t, d)\<in>set ts. SLATarget_Valid t \<and> 0 < d)) \<and>
     m = clean ++ map_of (rev (map (\<lambda>(p, ts). (p, map_of (rev ts))) ds))"
proof (induction ds arbitrary: clean)
  case (Cons e rest)
  obtain p targets where e: "e = (p, targets)" by fastforce
  with Cons.prems obtain x where x: "Priority_Valid p" "profile_targets targets Map.empty = Ok x"
    "profile_loop rest (clean(p \<mapsto> x)) = Ok m"
    by (auto simp: result_simps)
  show ?case using profile_targets_Ok [OF x(2)] Cons.IH [OF x(3)] x(1)
    by (auto simp: e fun_eq_iff map_add_def split: option.split)
qed simp

lemma profile_loop_accepts:
  "(\<forall>(p, ts)\<in>set ds. Priority_Valid p \<and> (\<forall>(t, d)\<in>set ts. SLATarget_Valid t \<and> 0 < d)) \<Longrightarrow>
     is_ok (profile_loop ds clean)"
proof (induction ds arbitrary: clean)
  case (Cons e rest)
  obtain p targets where e: "e = (p, targets)" by fastforce
  with Cons.prems obtain x where "profile_targets targets Map.empty = Ok x"
    using profile_targets_accepts [of targets Map.empty] by (auto simp: is_ok_iff)
  with Cons e show ?case by simp
qed simp

lemma map_of_rev: "distinct (map fst xs) \<Longrightarrow> map_of (rev xs) = map_of xs"
proof (induction xs)
  case (Cons x xs)
  then have "map_of xs (fst x) = None" by (simp add: map_of_eq_None_iff)
  with Cons show ?case by (auto simp: fun_eq_iff map_add_def split: option.split)
qed simp

lemma map_of_map_snd: "map_of (map (\<lambda>(k, v). (k, f v)) xs) k = map_option f (map_of xs k)"
  by (induction xs) auto

text \<open>A clock that loses less than a second to the whole seconds of \<open>PausedSeconds\<close>.\<close>

lemma div_second:
  "n div time_Second * time_Second \<le> n \<and> n < (n div time_Second) * time_Second + time_Second"
proof -
  have "0 < time_Second" by (simp add: time_Second_def)
  then show ?thesis
    using div_mult_mod_eq [of n time_Second] pos_mod_bound [of time_Second n]
      pos_mod_sign [of time_Second n] by linarith
qed

section \<open>Properties\<close>

text \<open>A pause freezes the remaining time. From the pause at t0 to the resumption at t1 the time
  left and the overdue verdict stay what they were at t0, and after the resumption the time left is
  what it was at t0, less than one second short: \<open>Resume\<close> counts whole seconds only. (As long as
  the pauses together stay inside the 64-bit range of a duration.)\<close>

theorem pause_freezes_the_clock:
  assumes "Pause c t0 = Ok c1" "t0 \<le> t1" "t1 \<le> t2" "Resume c1 t2 = Ok c2"
    and "0 \<le> Clk_PausedSeconds c" "Clk_PausedSeconds c * time_Second + (t2 - t0) < 2 ^ 63"
  shows "EffectiveDeadline c1 t1 - t1 = EffectiveDeadline c t0 - t0 \<and>
    (Overdue c1 t1 \<longleftrightarrow> Overdue c t0) \<and>
    EffectiveDeadline c2 t2 - t2 \<le> EffectiveDeadline c t0 - t0 \<and>
    EffectiveDeadline c t0 - t0 < EffectiveDeadline c2 t2 - t2 + time_Second"
proof -
  let ?n = "t2 - t0" and ?s = "Clk_PausedSeconds c"
  have c1: "Clk_FulfilledAt c = 0" "Clk_PausedAt c = 0" "t0 \<noteq> 0" "c1 = c\<lparr>Clk_PausedAt := t0\<rparr>"
    using assms(1) by (simp_all add: Pause_Ok_iff)
  have n: "0 \<le> ?n" using assms(2,3) by simp
  have s0: "0 \<le> ?s * time_Second" using assms(5) by (simp add: time_Second_def)
  have small: "?n < 2 ^ 63" "?s * time_Second < 2 ^ 63" using assms(6) s0 n by linarith+
  note dv = div_second [of ?n]
  have q: "0 \<le> ?n div time_Second" using n by (simp add: time_Second_def)
  have tot: "(?s + ?n div time_Second) * time_Second < 2 ^ 63"
    using dv assms(6) by (simp add: distrib_right)
  have "?s + ?n div time_Second \<le> (?s + ?n div time_Second) * time_Second"
    using assms(5) q by (simp add: time_Second_def)
  then have w: "wrap64 (?s + ?n div time_Second) = ?s + ?n div time_Second"
    using assms(5) q tot by (intro wrap64_id) linarith+
  have m: "dur_mul ?s time_Second = ?s * time_Second"
    "dur_mul (?s + ?n div time_Second) time_Second = (?s + ?n div time_Second) * time_Second"
    unfolding dur_mul_def using s0 small(2) tot q assms(5)
    by (intro wrap64_id; simp add: time_Second_def)+
  have "sat64 ?n = ?n" "sat64 (t1 - t0) = t1 - t0"
    using n small(1) assms(2,3) by (simp_all add: sat64_id)
  moreover from this(1) have "c2 = c1\<lparr>Clk_PausedSeconds := ?s + ?n div time_Second, Clk_PausedAt := 0\<rparr>"
    using assms(4) n w by (simp add: Resume_Ok_iff c1 trunc_div_nonneg time_Second_def)
  ultimately show ?thesis
    using c1 m dv
    by (simp add: EffectiveDeadline_def Overdue_def Paused_def Fulfilled_def time_defs Let_def
        distrib_right) linarith
qed

definition ex_clock :: SlaClock where
  "ex_clock = \<lparr>Clk_ID = ''k'', Clk_SignalID = ''s'', Clk_Target = SLATargetAssessment,
     Clk_StartedAt = 1, Clk_DeadlineAt = 3600000000001, Clk_FulfilledAt = 0, Clk_PausedSeconds = 0,
     Clk_PausedAt = 0\<rparr>"

theorem pause_freezes_the_clock_witness:
  "\<exists>c2. Resume (ex_clock\<lparr>Clk_PausedAt := 5\<rparr>) 1700000005 = Ok c2 \<and>
     EffectiveDeadline c2 1700000005 - 1700000005 \<le> EffectiveDeadline ex_clock 5 - 5"
proof -
  have p: "Pause ex_clock 5 = Ok (ex_clock\<lparr>Clk_PausedAt := 5\<rparr>)"
    by (simp add: Pause_Ok_iff) (simp add: ex_clock_def)
  obtain c2 where r: "Resume (ex_clock\<lparr>Clk_PausedAt := 5\<rparr>) 1700000005 = Ok c2"
    by (simp add: Resume_Ok_iff)
  have "EffectiveDeadline c2 1700000005 - 1700000005 \<le> EffectiveDeadline ex_clock 5 - 5"
    using pause_freezes_the_clock [OF p _ _ r, of 5] by (simp add: ex_clock_def time_Second_def)
  with r show ?thesis by blast
qed

text \<open>The clock's state machine. On every history of a clock it is never both paused and
  fulfilled and keeps its identity fields; and once it is fulfilled, every operation but a reset
  either fails or leaves it unchanged.\<close>

theorem clock_lifecycle:
  assumes "clock_history c" "clock_apply op c now = Ok c'"
  shows "Clock_wf c' \<and> Clk_ID c' = Clk_ID c \<and> Clk_SignalID c' = Clk_SignalID c \<and>
    Clk_Target c' = Clk_Target c \<and>
    (if Fulfilled c \<and> (case op of OpReset _ \<Rightarrow> False | _ \<Rightarrow> True) then c' = c else True)"
proof -
  have "Clock_wf c'" using clock_history.stepped [OF assms] by (rule clock_history_wf)
  moreover have "\<not> (Paused c \<and> Fulfilled c)"
    using clock_history_wf [OF assms(1)] by (simp add: Clock_wf_def)
  ultimately show ?thesis
    using assms(2)
    by (cases op) (auto simp: clock_Ok_iffs Fulfilled_def Paused_def time_IsZero_def)
qed

lemma ex_clock_history: "clock_history ex_clock"
proof (rule clock_history.started)
  show "NewSlaClock ''k'' ''s'' SLATargetAssessment PriorityP1 DefaultSLATimeProfile 1 = Ok ex_clock"
    by (simp add: NewSlaClock_Ok_iff Duration_def DefaultSLATimeProfile_def ex_clock_def
        time_Minute_def time_Second_def)
qed

theorem clock_lifecycle_witness:
  "Clock_wf (ex_clock\<lparr>Clk_FulfilledAt := 9\<rparr>) \<and> Fulfilled (ex_clock\<lparr>Clk_FulfilledAt := 9\<rparr>)"
proof -
  have "clock_apply OpFulfil ex_clock 9 = Ok (ex_clock\<lparr>Clk_FulfilledAt := 9\<rparr>)"
    by (simp add: Fulfil_Ok_iff) (simp add: ex_clock_def)
  from clock_lifecycle [OF ex_clock_history this] show ?thesis
    by (simp add: Fulfilled_def time_IsZero_def)
qed

text \<open>Tightening never gives time back. It leaves everything but the deadline alone, the deadline
  becomes the earlier of the old one and now + d, so the effective deadline never moves later and
  an overdue clock stays overdue. The pauses accumulated so far still extend the tightened
  deadline.\<close>

theorem tighten_never_extends:
  assumes "Tighten c now d = Ok c'"
  shows "c' = c\<lparr>Clk_DeadlineAt := min (Clk_DeadlineAt c) (now + d)\<rparr> \<and>
    EffectiveDeadline c' t \<le> EffectiveDeadline c t \<and> (Overdue c t \<le> Overdue c' t) \<and>
    (if Clk_DeadlineAt c' \<noteq> Clk_DeadlineAt c \<and> \<not> Paused c
     then EffectiveDeadline c' t = now + d + dur_mul (Clk_PausedSeconds c) time_Second else True)"
  using assms
  by (auto simp: Tighten_Ok_iff EffectiveDeadline_def Overdue_def Paused_def Fulfilled_def time_defs
      Let_def min_def)

theorem tighten_never_extends_witness:
  "EffectiveDeadline (ex_clock\<lparr>Clk_DeadlineAt := 17\<rparr>) 20 \<le> EffectiveDeadline ex_clock 20"
proof -
  have "Tighten ex_clock 10 7 = Ok (ex_clock\<lparr>Clk_DeadlineAt := 17\<rparr>)"
    by (simp add: Tighten_Ok_iff) (simp add: ex_clock_def)
  from tighten_never_extends [OF this, of 20] show ?thesis by blast
qed

text \<open>The profile is the configuration, whatever the iteration order. A table (distinct keys) is
  accepted exactly when every priority and target is known and every duration positive, and then
  every lookup gives the table's entry, or zero (no clock) for a missing one.\<close>

theorem profile_is_the_table:
  assumes "distinct (map fst ds)" "list_all (\<lambda>(p, ts). distinct (map fst ts)) ds"
  shows "(is_ok (NewSLATimeProfile ds) \<longleftrightarrow>
      list_all (\<lambda>(p, ts). Priority_Valid p \<and> list_all (\<lambda>(t, d). SLATarget_Valid t \<and> 0 < d) ts) ds) \<and>
    (case NewSLATimeProfile ds of
       Inl _ \<Rightarrow> True
     | Inr prof \<Rightarrow> Duration prof p t =
         (case map_of ds p of None \<Rightarrow> 0 | Some ts \<Rightarrow> (case map_of ts t of None \<Rightarrow> 0 | Some d \<Rightarrow> d)))"
proof (cases "profile_loop ds Map.empty")
  case (Inl e)
  then show ?thesis using profile_loop_accepts [of ds Map.empty]
    by (fastforce simp: NewSLATimeProfile_def list_all_iff)
next
  case (Inr m)
  note m = profile_loop_Ok [OF Inr]
  have "distinct (map fst (map (\<lambda>(p, ts). (p, map_of (rev ts))) ds))"
    using assms(1) by (simp add: case_prod_unfold comp_def)
  from map_of_rev [OF this] have "m = map_of (map (\<lambda>(p, ts). (p, map_of (rev ts))) ds)"
    using m by simp
  then have look: "m p = map_option (\<lambda>ts. map_of (rev ts)) (map_of ds p)" by (simp add: map_of_map_snd)
  have "map_of (rev ts) = map_of ts" if "map_of ds p = Some ts" for ts
    using that assms(2) map_of_rev by (force simp: list_all_iff dest: map_of_SomeD)
  with look Inr m show ?thesis
    by (auto simp: NewSLATimeProfile_def Duration_def list_all_iff split: option.split)
qed

theorem profile_is_the_table_witness:
  "is_ok (NewSLATimeProfile [(PriorityP1, [(SLATargetDecision, 5)])])"
  using profile_is_the_table [of "[(PriorityP1, [(SLATargetDecision, 5)])]"] by simp

text \<open>The default profile grades with urgency: a more urgent class has every target the less
  urgent one has, with a strictly shorter time; only P1 and P2 have a notification or a decision
  clock; and within a class the times grow in the order of the targets.\<close>

theorem default_profile_graded:
  "list_all (\<lambda>(p, q). list_all (\<lambda>t. Defined DefaultSLATimeProfile p t \<and>
       Duration DefaultSLATimeProfile p t < Duration DefaultSLATimeProfile q t)
     (Targets DefaultSLATimeProfile q))
     [(PriorityP1, PriorityP2), (PriorityP2, PriorityP3), (PriorityP3, PriorityP4)] \<and>
   list_all (\<lambda>p. sorted_wrt (<) (map (Duration DefaultSLATimeProfile p) (Targets DefaultSLATimeProfile p)))
     [PriorityP1, PriorityP2, PriorityP3, PriorityP4] \<and>
   (Defined DefaultSLATimeProfile p SLATargetNotification \<longleftrightarrow> p = PriorityP1 \<or> p = PriorityP2) \<and>
   (Defined DefaultSLATimeProfile p SLATargetDecision \<longleftrightarrow> p = PriorityP1 \<or> p = PriorityP2)"
  by (cases p)
    (simp_all add: Targets_def Defined_def Duration_def DefaultSLATimeProfile_def time_Hour_def
      time_Minute_def time_Second_def)

end
