(* ===== verification/QuarantineMachine.thy ===== *)
theory QuarantineMachine
  imports Vocabulary
begin

text \<open>
  The quarantine of records that failed to normalise (internal/domain/quarantine.go): the
  aggregate and its state machine new, acknowledged, ready for retry, resolved.
\<close>

record Quarantine =
  Q_ID :: string
  Q_SourceID :: string
  Q_SourceRunID :: string
  Q_RawRecordID :: string
  Q_Position :: string
  Q_Reason :: string
  Q_PayloadHash :: string
  Q_Status :: QuarantineStatus
  Q_Attempts :: int
  Q_AcknowledgedBy :: string
  Q_AcknowledgedNote :: string
  Q_ResolvedVulnerabilityID :: string
  Q_ResolvedEvidenceID :: string
  Q_ResolvedNote :: string

definition NewQuarantine ::
  "string \<Rightarrow> string \<Rightarrow> string \<Rightarrow> string \<Rightarrow> string \<Rightarrow> string \<Rightarrow> string \<Rightarrow> Quarantine result" where
  "NewQuarantine ident sourceID sourceRunID rawRecordID position reason payloadHash =
     guards [(ident = '''', EmptyField ''quarantine id''),
             (sourceID = '''', EmptyField ''quarantine source_id''),
             (position = '''', EmptyField ''quarantine position''),
             (reason = '''', EmptyField ''quarantine reason''),
             (payloadHash = '''', EmptyField ''quarantine payload_hash'')]
       (Ok \<lparr>Q_ID = ident, Q_SourceID = sourceID, Q_SourceRunID = sourceRunID,
            Q_RawRecordID = rawRecordID, Q_Position = position, Q_Reason = reason,
            Q_PayloadHash = payloadHash, Q_Status = QuarantineStatusNew, Q_Attempts = 0,
            Q_AcknowledgedBy = '''', Q_AcknowledgedNote = '''', Q_ResolvedVulnerabilityID = '''',
            Q_ResolvedEvidenceID = '''', Q_ResolvedNote = ''''\<rparr>)"

definition Acknowledge :: "Quarantine \<Rightarrow> string \<Rightarrow> string \<Rightarrow> Quarantine result" where
  "Acknowledge q acknowledgedBy note =
     guards [(Q_Status q \<noteq> QuarantineStatusNew, BadState ''cannot be acknowledged''),
             (acknowledgedBy = '''', EmptyField ''acknowledged_by'')]
       (Ok (q\<lparr>Q_Status := QuarantineStatusAcknowledged, Q_AcknowledgedBy := acknowledgedBy,
              Q_AcknowledgedNote := note\<rparr>))"

definition MarkReadyForRetry :: "Quarantine \<Rightarrow> Quarantine result" where
  "MarkReadyForRetry q =
     (if Q_Status q \<noteq> QuarantineStatusNew \<and> Q_Status q \<noteq> QuarantineStatusAcknowledged
      then Err (BadState ''cannot be marked ready'')
      else Ok (q\<lparr>Q_Status := QuarantineStatusReadyForRetry\<rparr>))"

definition ReprocessSucceeded :: "Quarantine \<Rightarrow> string \<Rightarrow> string \<Rightarrow> string \<Rightarrow> Quarantine result" where
  "ReprocessSucceeded q resolvedVulnerabilityID resolvedEvidenceID note =
     guards [(Q_Status q \<noteq> QuarantineStatusNew \<and> Q_Status q \<noteq> QuarantineStatusReadyForRetry,
                BadState ''cannot resolve''),
             (resolvedVulnerabilityID = '''' \<and> resolvedEvidenceID = '''' \<and> note = '''',
                EmptyField ''resolution'')]
       (Ok (q\<lparr>Q_Status := QuarantineStatusResolved,
              Q_ResolvedVulnerabilityID := resolvedVulnerabilityID,
              Q_ResolvedEvidenceID := resolvedEvidenceID, Q_ResolvedNote := note\<rparr>))"

definition ReprocessFailed :: "Quarantine \<Rightarrow> Quarantine result" where
  "ReprocessFailed q =
     (if Q_Status q \<noteq> QuarantineStatusNew \<and> Q_Status q \<noteq> QuarantineStatusReadyForRetry
      then Err (BadState ''cannot be retried'')
      else Ok (q\<lparr>Q_Attempts := wrap64 (Q_Attempts q + 1)\<rparr>))"

section \<open>The machine\<close>

datatype quarantine_op =
    QAcknowledge string string
  | QMarkReady
  | QSucceeded string string string
  | QFailed

fun quarantine_apply :: "quarantine_op \<Rightarrow> Quarantine \<Rightarrow> Quarantine result" where
  "quarantine_apply (QAcknowledge by note) q = Acknowledge q by note"
| "quarantine_apply QMarkReady q = MarkReadyForRetry q"
| "quarantine_apply (QSucceeded v e note) q = ReprocessSucceeded q v e note"
| "quarantine_apply QFailed q = ReprocessFailed q"

text \<open>The operations that succeeded since the creation, latest first.\<close>

inductive quarantine_history :: "quarantine_op list \<Rightarrow> Quarantine \<Rightarrow> bool" where
  created: "NewQuarantine ident sid rid raw pos reason h = Ok q \<Longrightarrow> quarantine_history [] q"
| stepped: "quarantine_history ops q \<Longrightarrow> quarantine_apply op q = Ok q' \<Longrightarrow> quarantine_history (op # ops) q'"

lemmas quarantine_defs = NewQuarantine_def Acknowledge_def MarkReadyForRetry_def
  ReprocessSucceeded_def ReprocessFailed_def

lemma wrap64_Suc: "wrap64 (wrap64 n + 1) = wrap64 (n + 1)"
proof -
  have "wrap64 n + 1 + 2 ^ 63 = (n + 2 ^ 63) mod 2 ^ 64 + 1" by (simp add: wrap64_def)
  then have "wrap64 (wrap64 n + 1) = ((n + 2 ^ 63) mod 2 ^ 64 + 1) mod 2 ^ 64 - 2 ^ 63"
    by (simp only: wrap64_def)
  also have "\<dots> = (n + 2 ^ 63 + 1) mod 2 ^ 64 - 2 ^ 63" by (simp only: mod_add_left_eq)
  also have "n + 2 ^ 63 + 1 = n + 1 + 2 ^ 63" by simp
  finally show ?thesis by (simp only: wrap64_def)
qed

lemma Acknowledge_Ok_iff:
  "Acknowledge q by note = Ok q' \<longleftrightarrow> Q_Status q = QuarantineStatusNew \<and> by \<noteq> '''' \<and>
     q' = q\<lparr>Q_Status := QuarantineStatusAcknowledged, Q_AcknowledgedBy := by, Q_AcknowledgedNote := note\<rparr>"
  by (auto simp: Acknowledge_def result_simps)

lemma MarkReadyForRetry_Ok_iff:
  "MarkReadyForRetry q = Ok q' \<longleftrightarrow> Q_Status q \<in> {QuarantineStatusNew, QuarantineStatusAcknowledged} \<and>
     q' = q\<lparr>Q_Status := QuarantineStatusReadyForRetry\<rparr>"
  by (auto simp: MarkReadyForRetry_def result_simps)

lemma ReprocessSucceeded_Ok_iff:
  "ReprocessSucceeded q v e note = Ok q' \<longleftrightarrow>
     Q_Status q \<in> {QuarantineStatusNew, QuarantineStatusReadyForRetry} \<and>
     (v \<noteq> '''' \<or> e \<noteq> '''' \<or> note \<noteq> '''') \<and>
     q' = q\<lparr>Q_Status := QuarantineStatusResolved, Q_ResolvedVulnerabilityID := v,
            Q_ResolvedEvidenceID := e, Q_ResolvedNote := note\<rparr>"
  by (auto simp: ReprocessSucceeded_def result_simps)

lemma ReprocessFailed_Ok_iff:
  "ReprocessFailed q = Ok q' \<longleftrightarrow>
     Q_Status q \<in> {QuarantineStatusNew, QuarantineStatusReadyForRetry} \<and>
     q' = q\<lparr>Q_Attempts := wrap64 (Q_Attempts q + 1)\<rparr>"
  by (auto simp: ReprocessFailed_def result_simps)

lemmas quarantine_Ok_iffs = Acknowledge_Ok_iff MarkReadyForRetry_Ok_iff ReprocessSucceeded_Ok_iff
  ReprocessFailed_Ok_iff

text \<open>What each status promises.\<close>

definition Quarantine_wf :: "quarantine_op list \<Rightarrow> Quarantine \<Rightarrow> bool" where
  "Quarantine_wf ops q \<longleftrightarrow>
     Q_ID q \<noteq> '''' \<and> Q_SourceID q \<noteq> '''' \<and> Q_Position q \<noteq> '''' \<and> Q_Reason q \<noteq> '''' \<and> Q_PayloadHash q \<noteq> '''' \<and>
     QuarantineStatus_Valid (Q_Status q) \<and>
     (Q_Status q = QuarantineStatusAcknowledged \<longrightarrow> Q_AcknowledgedBy q \<noteq> '''') \<and>
     (Q_Status q = QuarantineStatusResolved \<longleftrightarrow>
        Q_ResolvedVulnerabilityID q \<noteq> '''' \<or> Q_ResolvedEvidenceID q \<noteq> '''' \<or> Q_ResolvedNote q \<noteq> '''') \<and>
     Q_Attempts q = wrap64 (int (count_list ops QFailed))"

lemma quarantine_history_wf: "quarantine_history ops q \<Longrightarrow> Quarantine_wf ops q"
proof (induction rule: quarantine_history.induct)
  case (created ident sid rid raw pos reason h q)
  then show ?case by (auto simp: Quarantine_wf_def NewQuarantine_def result_simps wrap64_def)
next
  case (stepped ops q op q')
  then show ?case
    by (cases op)
      (auto simp: Quarantine_wf_def quarantine_Ok_iffs wrap64_Suc add.commute [of 1])
qed

section \<open>Properties\<close>

fun quarantine_next :: "quarantine_op \<Rightarrow> QuarantineStatus \<Rightarrow> QuarantineStatus option" where
  "quarantine_next (QAcknowledge by note) QuarantineStatusNew =
     (if by = '''' then None else Some QuarantineStatusAcknowledged)"
| "quarantine_next QMarkReady QuarantineStatusNew = Some QuarantineStatusReadyForRetry"
| "quarantine_next QMarkReady QuarantineStatusAcknowledged = Some QuarantineStatusReadyForRetry"
| "quarantine_next (QSucceeded v e n) QuarantineStatusNew =
     (if v @ e @ n = '''' then None else Some QuarantineStatusResolved)"
| "quarantine_next (QSucceeded v e n) QuarantineStatusReadyForRetry =
     (if v @ e @ n = '''' then None else Some QuarantineStatusResolved)"
| "quarantine_next QFailed QuarantineStatusNew = Some QuarantineStatusNew"
| "quarantine_next QFailed QuarantineStatusReadyForRetry = Some QuarantineStatusReadyForRetry"
| "quarantine_next _ _ = None"

text \<open>The quarantine machine. Exactly the documented transitions are possible: acknowledging a new
  record (with a reviewer), marking a new or acknowledged one ready, and reprocessing a new or
  ready one, which resolves it (with a link or a note) or leaves its status and counts the
  attempt; on a resolved record every operation fails.\<close>

theorem quarantine_transitions:
  "(case quarantine_apply op q of Inl _ \<Rightarrow> None | Inr q' \<Rightarrow> Some (Q_Status q')) =
   quarantine_next op (Q_Status q)"
  by (cases op; cases "Q_Status q") (simp_all add: quarantine_defs)


definition ex_quarantine :: Quarantine where
  "ex_quarantine = \<lparr>Q_ID = ''q'', Q_SourceID = ''s'', Q_SourceRunID = '''', Q_RawRecordID = '''',
     Q_Position = ''/0'', Q_Reason = ''bad'', Q_PayloadHash = ''ab'', Q_Status = QuarantineStatusNew,
     Q_Attempts = 0, Q_AcknowledgedBy = '''', Q_AcknowledgedNote = '''',
     Q_ResolvedVulnerabilityID = '''', Q_ResolvedEvidenceID = '''', Q_ResolvedNote = ''''\<rparr>"

lemma ex_quarantine_failed:
  "quarantine_history [QFailed] (ex_quarantine\<lparr>Q_Attempts := 1\<rparr>)"
proof (rule quarantine_history.stepped [OF quarantine_history.created])
  show "NewQuarantine ''q'' ''s'' '''' '''' ''/0'' ''bad'' ''ab'' = Ok ex_quarantine"
    by (simp add: NewQuarantine_def ex_quarantine_def)
  show "quarantine_apply QFailed ex_quarantine = Ok (ex_quarantine\<lparr>Q_Attempts := 1\<rparr>)"
    by (simp add: ReprocessFailed_def ex_quarantine_def wrap64_def)
qed


end
