(* ===== verification/NormaliseId.thy ===== *)
theory NormaliseId
  imports Vocabulary
begin

text \<open>
  The identifier parsers of internal/application/normalise: the positioned syntax errors
  (errors.go), the comparison-key fold (normalise.go), the CPE 2.3 decomposition (cpe.go) and
  the package URL decomposition (purl.go). Each parser accepts exactly the strings its
  printer writes for a well-formed value.
\<close>

section \<open>Syntax errors\<close>

record SyntaxError =
  SE_Kind :: string
  SE_Field :: string
  SE_Index :: nat
  SE_Reason :: string
  SE_Input :: string

definition syntaxError :: "string \<Rightarrow> string \<Rightarrow> nat \<Rightarrow> string \<Rightarrow> string \<Rightarrow> SyntaxError" where
  "syntaxError kind field index input reason =
     \<lparr>SE_Kind = kind, SE_Field = field, SE_Index = index, SE_Reason = reason, SE_Input = input\<rparr>"

definition wholeInputError :: "string \<Rightarrow> string \<Rightarrow> string \<Rightarrow> SyntaxError" where
  "wholeInputError kind input reason = syntaxError kind '''' 0 input reason"

definition control_byte :: "char \<Rightarrow> bool" where
  "control_byte c \<longleftrightarrow> (of_char c :: nat) < 32 \<or> (of_char c :: nat) = 127"

definition hasControlChar :: "string \<Rightarrow> bool" where
  "hasControlChar s = list_ex control_byte s"

section \<open>Comparison keys\<close>

definition NormaliseKey :: "unicode \<Rightarrow> string \<Rightarrow> string" where
  "NormaliseKey U s = to_lower U (nfkc U (trim_space s))"

text \<open>Lowering bytes keeps the ends of a trimmed string.\<close>

lemma byte_lower_space: "p \<in> set space_seqs \<Longrightarrow> x \<in> set p \<Longrightarrow> byte_lower c = x \<Longrightarrow> c = x"
proof -
  assume p: "p \<in> set space_seqs" and x: "x \<in> set p" and c: "byte_lower c = x"
  have "\<not> (97 \<le> (of_char x :: nat) \<and> (of_char x :: nat) \<le> 122)"
    using p x by (auto simp: space_seqs_def)
  moreover have "is_upper c \<Longrightarrow> 97 \<le> (of_char (byte_lower c) :: nat) \<and> (of_char (byte_lower c) :: nat) \<le> 122"
    by (auto simp: of_byte_lower is_upper_nat)
  ultimately show "c = x" using c by (auto simp: byte_lower_def split: if_splits)
qed

lemma map_lower_space: "p \<in> set space_seqs \<Longrightarrow> set p' \<subseteq> set p \<Longrightarrow> map byte_lower q = p' \<Longrightarrow> q = p'"
proof (induction q arbitrary: p')
  case (Cons c q)
  then show ?case using byte_lower_space [of p "byte_lower c" c] by auto
qed simp

lemma prefix_map_lower:
  assumes "p \<in> set space_seqs" "set p' = set p" "prefix p' (map byte_lower t)"
  shows "prefix p' t"
proof -
  from assms(3) obtain z where "map byte_lower t = p' @ z" by (auto simp: prefix_def)
  then obtain q r where "t = q @ r" "map byte_lower q = p'" by (auto simp: map_eq_append_conv)
  with map_lower_space [OF assms(1), of p' q] assms(2) show ?thesis by (auto simp: prefix_def)
qed

lemma trim_space_fixed: "trim_space t = t \<longleftrightarrow> (\<forall>p\<in>set space_seqs. \<not> prefix p t \<and> \<not> prefix (rev p) (rev t))"
proof
  assume t: "trim_space t = t"
  have "\<not> prefix (rev p) (rev t)" if "p \<in> set space_seqs" for p
  proof -
    have "trim_right (trim_left t) = t" using t by (simp add: trim_space_def)
    then have "rev t = strip (map rev space_seqs) (rev (trim_left t))"
      by (metis rev_rev_ident trim_right_def)
    with strip_no_prefix [of "rev p" "map rev space_seqs"] that space_seqs_nonempty [OF that]
    show ?thesis by simp
  qed
  with t trim_space_no_leading [of _ t] show "\<forall>p\<in>set space_seqs. \<not> prefix p t \<and> \<not> prefix (rev p) (rev t)"
    by simp
next
  assume a: "\<forall>p\<in>set space_seqs. \<not> prefix p t \<and> \<not> prefix (rev p) (rev t)"
  then have "trim_left t = t" by (intro trim_left_stable) auto
  moreover have "strip (map rev space_seqs) (rev t) = rev t" using a by (intro strip_stop) auto
  ultimately show "trim_space t = t" by (simp add: trim_space_def trim_right_def)
qed

lemma trim_space_map_lower: "trim_space t = t \<Longrightarrow> trim_space (map byte_lower t) = map byte_lower t"
proof -
  assume t: "trim_space t = t"
  show "trim_space (map byte_lower t) = map byte_lower t"
    unfolding trim_space_fixed
  proof (intro ballI conjI)
    fix p assume p: "p \<in> set space_seqs"
    show "\<not> prefix p (map byte_lower t)"
      using prefix_map_lower [OF p refl, of t] t p by (auto simp: trim_space_fixed)
    show "\<not> prefix (rev p) (rev (map byte_lower t))"
      using prefix_map_lower [OF p, of "rev p" "rev t"] t p by (auto simp: trim_space_fixed rev_map)
  qed
qed

section \<open>CPE 2.3\<close>

definition cpe23AttributeCount :: nat where "cpe23AttributeCount = 11"

definition cpe23FieldNames :: "string list" where
  "cpe23FieldNames =
     [''part'', ''vendor'', ''product'', ''version'', ''update'',
      ''edition'', ''language'', ''sw_edition'', ''target_sw'', ''target_hw'', ''other'']"

definition cpe23Parts :: "string \<Rightarrow> bool" where
  "cpe23Parts s \<longleftrightarrow> s \<in> {''a'', ''h'', ''o''}"

record CPE23 =
  CPE_Part :: string
  CPE_Vendor :: string
  CPE_Product :: string
  CPE_Version :: string
  CPE_Update :: string
  CPE_Edition :: string
  CPE_Language :: string
  CPE_SWEdition :: string
  CPE_TargetSW :: string
  CPE_TargetHW :: string
  CPE_Other :: string

definition cpe_attributes :: "CPE23 \<Rightarrow> string list" where
  "cpe_attributes c =
     [CPE_Part c, CPE_Vendor c, CPE_Product c, CPE_Version c, CPE_Update c, CPE_Edition c,
      CPE_Language c, CPE_SWEdition c, CPE_TargetSW c, CPE_TargetHW c, CPE_Other c]"

definition ParseCPE23 :: "string \<Rightarrow> SyntaxError + CPE23" where
  "ParseCPE23 input =
     (let fields = split_byte CHR '':'' input in
      guards
        [(input = '''', wholeInputError ''cpe'' input ''empty CPE string''),
         (length fields \<noteq> cpe23AttributeCount + 2, wholeInputError ''cpe'' input ''13 colon-separated fields''),
         (fields ! 0 \<noteq> ''cpe'', wholeInputError ''cpe'' input ''cpe:2.3: prefix''),
         (fields ! 1 \<noteq> ''2.3'', wholeInputError ''cpe'' input ''2.3 binding'')]
        (rbind
          (each (\<lambda>i.
             guards
               [(fields ! (i + 2) = '''',
                 syntaxError ''cpe'' (cpe23FieldNames ! i) (i + 1) input ''attribute must not be empty''),
                (hasControlChar (fields ! (i + 2)),
                 syntaxError ''cpe'' (cpe23FieldNames ! i) (i + 1) input ''attribute contains control characters'')]
               (Ok ()))
             [0..<cpe23AttributeCount])
          (\<lambda>_.
             (let c = \<lparr>CPE_Part = fields ! 2, CPE_Vendor = fields ! 3, CPE_Product = fields ! 4,
                 CPE_Version = fields ! 5, CPE_Update = fields ! 6, CPE_Edition = fields ! 7,
                 CPE_Language = fields ! 8, CPE_SWEdition = fields ! 9, CPE_TargetSW = fields ! 10,
                 CPE_TargetHW = fields ! 11, CPE_Other = fields ! 12\<rparr>
              in if \<not> cpe23Parts (CPE_Part c)
                 then Err (syntaxError ''cpe'' ''part'' 1 input ''part must be a, h or o'')
                 else Ok c))))"

definition CPE23_String :: "CPE23 \<Rightarrow> string" where
  "CPE23_String c = ''cpe:2.3:'' @ join_byte CHR '':'' (cpe_attributes c)"

text \<open>A well-formed decomposition.\<close>

definition cpe_wf :: "CPE23 \<Rightarrow> bool" where
  "cpe_wf c \<longleftrightarrow>
     list_all (\<lambda>v. v \<noteq> '''' \<and> \<not> hasControlChar v \<and> CHR '':'' \<notin> set v) (cpe_attributes c) \<and>
     cpe23Parts (CPE_Part c)"

lemma upt_11: "[0..<11] = [0, 1, 2, 3, 4, 5, 6, 7, 8, 9, 10]"
  by code_simp

lemma list_11: "length xs = 13 \<Longrightarrow>
    xs = [xs ! 0, xs ! 1, xs ! 2, xs ! 3, xs ! 4, xs ! 5, xs ! 6, xs ! 7, xs ! 8, xs ! 9, xs ! 10, xs ! 11, xs ! 12]"
  by (rule nth_equalityI) (auto simp: nth_Cons' less_Suc_eq numeral_eq_Suc)

lemma parse_cpe_split:
  assumes "CHR '':'' \<notin> \<Union> (set ` set vs)" "length vs = 11"
  shows "split_byte CHR '':'' (''cpe:2.3:'' @ join_byte CHR '':'' vs) = ''cpe'' # ''2.3'' # vs"
proof -
  have "join_byte CHR '':'' (''cpe'' # ''2.3'' # vs) = ''cpe:2.3:'' @ join_byte CHR '':'' vs"
    using assms(2) by (cases vs) simp_all
  moreover have "split_byte CHR '':'' (join_byte CHR '':'' (''cpe'' # ''2.3'' # vs)) = ''cpe'' # ''2.3'' # vs"
    using assms(1) by (intro split_join) auto
  ultimately show ?thesis by simp
qed

lemma ParseCPE23_Ok_iff: "ParseCPE23 s = Ok c \<longleftrightarrow> CPE23_String c = s \<and> cpe_wf c"
proof
  assume p: "ParseCPE23 s = Ok c"
  let ?f = "split_byte CHR '':'' s"
  have len: "length ?f = 13" and h: "?f ! 0 = ''cpe''" "?f ! 1 = ''2.3''"
    and attrs: "\<forall>i<11. ?f ! (i + 2) \<noteq> '''' \<and> \<not> hasControlChar (?f ! (i + 2))"
    and c: "c = \<lparr>CPE_Part = ?f ! 2, CPE_Vendor = ?f ! 3, CPE_Product = ?f ! 4,
                 CPE_Version = ?f ! 5, CPE_Update = ?f ! 6, CPE_Edition = ?f ! 7,
                 CPE_Language = ?f ! 8, CPE_SWEdition = ?f ! 9, CPE_TargetSW = ?f ! 10,
                 CPE_TargetHW = ?f ! 11, CPE_Other = ?f ! 12\<rparr>"
    and part: "cpe23Parts (CPE_Part c)"
    using p unfolding ParseCPE23_def Let_def cpe23AttributeCount_def guards_Ok_iff rbind_Ok_iff
    by (auto simp: result_simps split: if_splits)
  have f: "?f = ''cpe'' # ''2.3'' # cpe_attributes c"
    using list_11 [OF len] h by (simp add: c cpe_attributes_def)
  then have "join_byte CHR '':'' (''cpe'' # ''2.3'' # cpe_attributes c) = s"
    using join_split [of "CHR '':''" s] by metis
  then have "CPE23_String c = s" by (simp add: CPE23_String_def cpe_attributes_def)
  moreover have "v \<noteq> '''' \<and> \<not> hasControlChar v \<and> CHR '':'' \<notin> set v" if "v \<in> set (cpe_attributes c)" for v
  proof -
    have "length (cpe_attributes c) = 11" by (simp add: cpe_attributes_def)
    with that obtain i where i: "i < 11" "v = cpe_attributes c ! i"
      by (metis in_set_conv_nth)
    then have v: "v = ?f ! (i + 2)" by (simp add: f)
    moreover have "v \<in> set ?f" using that by (simp add: f)
    ultimately show ?thesis using attrs i(1) split_parts_no_sep [of v "CHR '':''" s] by auto
  qed
  ultimately show "CPE23_String c = s \<and> cpe_wf c"
    using part by (auto simp: cpe_wf_def list_all_iff)
next
  assume a: "CPE23_String c = s \<and> cpe_wf c"
  then have s: "s = ''cpe:2.3:'' @ join_byte CHR '':'' (cpe_attributes c)"
    and wf: "\<forall>v\<in>set (cpe_attributes c). v \<noteq> '''' \<and> \<not> hasControlChar v \<and> CHR '':'' \<notin> set v"
    and part: "cpe23Parts (CPE_Part c)"
    by (auto simp: CPE23_String_def cpe_wf_def list_all_iff)
  have len: "length (cpe_attributes c) = 11" by (simp add: cpe_attributes_def)
  have f: "split_byte CHR '':'' s = ''cpe'' # ''2.3'' # cpe_attributes c"
    unfolding s using wf len by (intro parse_cpe_split) auto
  have "s \<noteq> ''''" by (simp add: s)
  have ok: "cpe_attributes c ! i \<noteq> '''' \<and> \<not> hasControlChar (cpe_attributes c ! i)" if "i < 11" for i
    using that wf len by simp
  have "each (\<lambda>i.
      guards
        [((''cpe'' # ''2.3'' # cpe_attributes c) ! (i + 2) = '''',
          syntaxError ''cpe'' (cpe23FieldNames ! i) (i + 1) s ''attribute must not be empty''),
         (hasControlChar ((''cpe'' # ''2.3'' # cpe_attributes c) ! (i + 2)),
          syntaxError ''cpe'' (cpe23FieldNames ! i) (i + 1) s ''attribute contains control characters'')]
        (Ok ())) [0..<11] = Ok ()"
    using ok by (simp add: each_Ok_iff)
  with \<open>s \<noteq> ''''\<close> len part show "ParseCPE23 s = Ok c"
    unfolding ParseCPE23_def Let_def f cpe23AttributeCount_def
    by (simp add: cpe_attributes_def)
qed

section \<open>Package URLs\<close>

definition purlSchemePrefix :: string where "purlSchemePrefix = ''pkg:''"

record PURL =
  PURL_Type :: string
  PURL_Namespace :: string
  PURL_Name :: string
  PURL_Version :: string
  PURL_Qualifiers :: string
  PURL_Subpath :: string

definition isLowerASCIILetter :: "char \<Rightarrow> bool" where
  "isLowerASCIILetter b \<longleftrightarrow> b \<ge> CHR ''a'' \<and> b \<le> CHR ''z''"

definition isASCIIDigit :: "char \<Rightarrow> bool" where
  "isASCIIDigit b \<longleftrightarrow> b \<ge> CHR ''0'' \<and> b \<le> CHR ''9''"

definition isHexDigit :: "char \<Rightarrow> bool" where
  "isHexDigit b \<longleftrightarrow> isASCIIDigit b \<or> (b \<ge> CHR ''a'' \<and> b \<le> CHR ''f'') \<or> (b \<ge> CHR ''A'' \<and> b \<le> CHR ''F'')"

text \<open>Read a field up to the first byte of \<open>stops\<close>.\<close>

definition cutPURLField :: "string \<Rightarrow> string \<Rightarrow> string \<times> string" where
  "cutPURLField s stops =
     (case index_any stops s of Some i \<Rightarrow> (take i s, drop i s) | None \<Rightarrow> (s, ''''))"

text \<open>The loop over the optional tail. A tail that starts with none of the delimiters would
  not be consumed, hence the partial function.\<close>

partial_function (option) purl_tail :: "string \<Rightarrow> PURL \<Rightarrow> string \<Rightarrow> (SyntaxError + PURL) option" where
  "purl_tail tail' p input =
     (if tail' = [] then Some (Ok p)
      else if hd tail' = CHR ''@'' then
        (let (version, rest) = cutPURLField (tl tail') ''?#'' in
         if version = '''' then Some (Err (syntaxError ''purl'' ''version'' 0 input ''must not be empty''))
         else purl_tail rest (p\<lparr>PURL_Version := version\<rparr>) input)
      else if hd tail' = CHR ''?'' then
        (let (qualifiers, rest) = cutPURLField (tl tail') ''#'' in
         if qualifiers = '''' then Some (Err (syntaxError ''purl'' ''qualifiers'' 0 input ''must not be empty''))
         else purl_tail rest (p\<lparr>PURL_Qualifiers := qualifiers\<rparr>) input)
      else if hd tail' = CHR ''#'' then
        (if tl tail' = '''' then Some (Err (syntaxError ''purl'' ''subpath'' 0 input ''must not be empty''))
         else purl_tail '''' (p\<lparr>PURL_Subpath := tl tail'\<rparr>) input)
      else purl_tail tail' p input)"

declare purl_tail.simps [code]

definition splitPURLTail :: "string \<Rightarrow> PURL \<Rightarrow> string \<Rightarrow> SyntaxError + PURL" where
  "splitPURLTail tail' p input = the (purl_tail tail' p input)"

definition validPURLType :: "string \<Rightarrow> bool" where
  "validPURLType t =
     (if t = '''' \<or> \<not> isLowerASCIILetter (hd t) then False
      else
        list_all (\<lambda>c. \<not> (\<not> isLowerASCIILetter c \<and> \<not> isASCIIDigit c \<and> c \<noteq> CHR ''.'' \<and>
          c \<noteq> CHR ''+'' \<and> c \<noteq> CHR ''-'')) (tl t))"

fun checkPURLContent :: "string \<Rightarrow> string \<Rightarrow> nat \<Rightarrow> string \<Rightarrow> SyntaxError + unit" where
  "checkPURLContent [] field index input = Ok ()"
| "checkPURLContent (c # s) field index input =
     (if (of_char c :: nat) \<le> 32 \<or> (of_char c :: nat) = 127 then
        Err (syntaxError ''purl'' field index input ''whitespace or control characters'')
      else if c = CHR ''%'' then
        (if length s < 2 \<or> \<not> isHexDigit (s ! 0) \<or> \<not> isHexDigit (s ! 1) then
           Err (syntaxError ''purl'' field index input ''malformed percent-escape'')
         else checkPURLContent (drop 2 s) field index input)
      else checkPURLContent s field index input)"

definition checkPURLQualifiers :: "string \<Rightarrow> string \<Rightarrow> SyntaxError + unit" where
  "checkPURLQualifiers q input =
     (if q = '''' then Ok ()
      else
        rbind (checkPURLContent q ''qualifiers'' 0 input) (\<lambda>_.
          each (\<lambda>pair.
            (case index_byte CHR ''='' pair of
               None \<Rightarrow> Err (syntaxError ''purl'' ''qualifiers'' 0 input ''key=value pairs'')
             | Some eq \<Rightarrow>
                 (if eq = 0 then Err (syntaxError ''purl'' ''qualifiers'' 0 input ''key=value pairs'')
                  else checkPURLContent (drop (eq + 1) pair) ''qualifiers'' 0 input)))
            (split_byte CHR ''&'' q)))"

definition empty_purl :: "string \<Rightarrow> PURL" where
  "empty_purl ty = \<lparr>PURL_Type = ty, PURL_Namespace = '''', PURL_Name = '''', PURL_Version = '''',
     PURL_Qualifiers = '''', PURL_Subpath = ''''\<rparr>"

text \<open>The namespace and the name out of the path, and the content checks.\<close>

definition purl_body :: "string \<Rightarrow> PURL \<Rightarrow> string \<Rightarrow> SyntaxError + PURL" where
  "purl_body path p input =
     (let segs = split_byte CHR ''/'' path; name = last segs in
      if name = '''' then Err (syntaxError ''purl'' ''name'' 0 input ''must not be empty'')
      else if length segs > 1 \<and> list_ex (\<lambda>seg. seg = '''') (butlast segs) then
        Err (syntaxError ''purl'' ''namespace'' 0 input ''empty segment'')
      else
        (let p = (if length segs > 1
                  then p\<lparr>PURL_Namespace := join_byte CHR ''/'' (butlast segs)\<rparr> else p);
             p = p\<lparr>PURL_Name := name\<rparr> in
         rbind (checkPURLContent (PURL_Name p) ''name'' 0 input) (\<lambda>_.
         rbind (checkPURLContent (PURL_Namespace p) ''namespace'' 0 input) (\<lambda>_.
         rbind (checkPURLContent (PURL_Version p) ''version'' 0 input) (\<lambda>_.
         rbind (checkPURLContent (PURL_Subpath p) ''subpath'' 0 input) (\<lambda>_.
         rbind (checkPURLQualifiers (PURL_Qualifiers p) input) (\<lambda>_.
           Ok p)))))))"

definition ParsePURL :: "string \<Rightarrow> SyntaxError + PURL" where
  "ParsePURL input =
     (if input = '''' then Err (wholeInputError ''purl'' input ''empty purl string'')
      else if take (length purlSchemePrefix) input \<noteq> purlSchemePrefix then
        Err (wholeInputError ''purl'' input ''pkg: scheme prefix'')
      else
        (let rest = drop (length purlSchemePrefix) input in
         case index_byte CHR ''/'' rest of
           None \<Rightarrow> Err (syntaxError ''purl'' ''type'' 0 input ''missing / after the type'')
         | Some slash \<Rightarrow>
             (let ty = take slash rest; rest = drop (slash + 1) rest in
              if \<not> validPURLType ty then Err (syntaxError ''purl'' ''type'' 0 input ''malformed type'')
              else if rest = '''' then Err (syntaxError ''purl'' ''name'' 0 input ''missing name after the type'')
              else
                (let p = empty_purl ty in
                 rbind
                   (case index_any ''@?#'' rest of
                      None \<Rightarrow> Ok (rest, p)
                    | Some i \<Rightarrow> rbind (splitPURLTail (drop i rest) p input) (\<lambda>p. Ok (take i rest, p)))
                   (\<lambda>(path, p). purl_body path p input)))))"

definition PURL_String :: "PURL \<Rightarrow> string" where
  "PURL_String p =
     purlSchemePrefix @ PURL_Type p @ [CHR ''/''] @
     (if PURL_Namespace p \<noteq> '''' then PURL_Namespace p @ [CHR ''/''] else '''') @
     PURL_Name p @
     (if PURL_Version p \<noteq> '''' then CHR ''@'' # PURL_Version p else '''') @
     (if PURL_Qualifiers p \<noteq> '''' then CHR ''?'' # PURL_Qualifiers p else '''') @
     (if PURL_Subpath p \<noteq> '''' then CHR ''#'' # PURL_Subpath p else '''')"

subsection \<open>The optional tail\<close>

lemma index_where_take: "index_where q s = Some i \<Longrightarrow>
    take i s = takeWhile (\<lambda>c. \<not> q c) s \<and> drop i s = dropWhile (\<lambda>c. \<not> q c) s"
  by (induction s arbitrary: i) (auto split: if_splits)

lemma cut_eq: "cutPURLField s stops =
    (takeWhile (\<lambda>c. c \<notin> set stops) s, dropWhile (\<lambda>c. c \<notin> set stops) s)"
proof (cases "index_any stops s")
  case None
  then have "\<forall>c\<in>set s. c \<notin> set stops" by (simp add: index_any_def index_where_None)
  with None show ?thesis
    by (simp add: cutPURLField_def takeWhile_eq_all_conv [THEN iffD2] dropWhile_eq_Nil_conv [THEN iffD2])
next
  case (Some i)
  then have "index_where (\<lambda>c. c \<in> set stops) s = Some i" by (simp add: index_any_def)
  from index_where_take [OF this] Some show ?thesis by (simp add: cutPURLField_def)
qed

lemma cut_props: "cutPURLField s stops = (v, r) \<Longrightarrow>
    s = v @ r \<and> set v \<inter> set stops = {} \<and> (r = [] \<or> hd r \<in> set stops)"
proof -
  assume "cutPURLField s stops = (v, r)"
  then have vr: "v = takeWhile (\<lambda>c. c \<notin> set stops) s" "r = dropWhile (\<lambda>c. c \<notin> set stops) s"
    by (simp_all add: cut_eq)
  have "s = v @ r" unfolding vr by (rule takeWhile_dropWhile_id [symmetric])
  moreover have "set v \<inter> set stops = {}" unfolding vr by (auto dest: set_takeWhileD)
  moreover have "r = [] \<or> hd r \<in> set stops"
    using hd_dropWhile [of "\<lambda>c. c \<notin> set stops" s] unfolding vr by blast
  ultimately show ?thesis by blast
qed

lemma cut_unique: "set v \<inter> set stops = {} \<Longrightarrow> r = [] \<or> hd r \<in> set stops \<Longrightarrow>
    cutPURLField (v @ r) stops = (v, r)"
proof -
  assume v: "set v \<inter> set stops = {}" and r: "r = [] \<or> hd r \<in> set stops"
  have "takeWhile (\<lambda>c. c \<notin> set stops) (v @ r) = v @ takeWhile (\<lambda>c. c \<notin> set stops) r"
    "dropWhile (\<lambda>c. c \<notin> set stops) (v @ r) = dropWhile (\<lambda>c. c \<notin> set stops) r"
    using v by (auto intro!: takeWhile_append2 dropWhile_append2)
  moreover have "takeWhile (\<lambda>c. c \<notin> set stops) r = []" "dropWhile (\<lambda>c. c \<notin> set stops) r = r"
    using r by (cases r; auto)+
  ultimately show ?thesis by (simp add: cut_eq)
qed

definition opt_field :: "char \<Rightarrow> string \<Rightarrow> string" where
  "opt_field d s = (if s \<noteq> '''' then d # s else '''')"

lemma opt_field_Nil [simp]: "opt_field d [] = []"
  by (simp add: opt_field_def)

lemma PURL_String_opt: "PURL_String p =
    purlSchemePrefix @ PURL_Type p @ [CHR ''/''] @
    (if PURL_Namespace p \<noteq> '''' then PURL_Namespace p @ [CHR ''/''] else '''') @ PURL_Name p @
    opt_field CHR ''@'' (PURL_Version p) @ opt_field CHR ''?'' (PURL_Qualifiers p) @
    opt_field CHR ''#'' (PURL_Subpath p)"
  by (simp add: PURL_String_def opt_field_def)

lemma tail_subpath:
  assumes "t = [] \<or> hd t = CHR ''#''" "PURL_Subpath p = ''''"
  shows "purl_tail t p input \<noteq> None \<and> (purl_tail t p input = Some (Ok q) \<longleftrightarrow>
    (\<exists>sp. q = p\<lparr>PURL_Subpath := sp\<rparr> \<and> t = opt_field CHR ''#'' sp))"
proof (cases t)
  case Nil
  have "purl_tail [] p input = Some (Ok p)" by (simp add: purl_tail.simps)
  with Nil assms(2) show ?thesis by (auto simp: opt_field_def)
next
  case (Cons d u)
  then have "purl_tail t p input =
      (if u = '''' then Some (Err (syntaxError ''purl'' ''subpath'' 0 input ''must not be empty''))
       else Some (Ok (p\<lparr>PURL_Subpath := u\<rparr>)))"
    using assms(1) by (subst purl_tail.simps) (simp add: purl_tail.simps [of "[]"])
  with Cons assms show ?thesis by (auto simp: opt_field_def)
qed

lemma tail_qualifiers:
  assumes "t = [] \<or> hd t \<in> set ''?#''" "PURL_Qualifiers p = ''''" "PURL_Subpath p = ''''"
  shows "purl_tail t p input \<noteq> None \<and> (purl_tail t p input = Some (Ok q) \<longleftrightarrow>
    (\<exists>ql sp. q = p\<lparr>PURL_Qualifiers := ql, PURL_Subpath := sp\<rparr> \<and> CHR ''#'' \<notin> set ql \<and>
       t = opt_field CHR ''?'' ql @ opt_field CHR ''#'' sp))"
proof (cases "t \<noteq> [] \<and> hd t = CHR ''?''")
  case False
  then have h: "t = [] \<or> hd t = CHR ''#''" using assms(1) by auto
  have p: "p\<lparr>PURL_Qualifiers := ''''\<rparr> = p" using assms(2) by (cases p) simp
  have "purl_tail t p input = Some (Ok q) \<longleftrightarrow> (\<exists>sp. q = p\<lparr>PURL_Subpath := sp\<rparr> \<and> t = opt_field CHR ''#'' sp)"
    using tail_subpath [OF h assms(3)] by blast
  also have "\<dots> \<longleftrightarrow> (\<exists>ql sp. q = p\<lparr>PURL_Qualifiers := ql, PURL_Subpath := sp\<rparr> \<and> CHR ''#'' \<notin> set ql \<and>
       t = opt_field CHR ''?'' ql @ opt_field CHR ''#'' sp)" (is "?L \<longleftrightarrow> ?R")
  proof
    assume ?L
    then obtain sp where q: "q = p\<lparr>PURL_Subpath := sp\<rparr>" and t: "t = opt_field CHR ''#'' sp" by blast
    have "q = p\<lparr>PURL_Qualifiers := '''', PURL_Subpath := sp\<rparr>" by (simp only: p q)
    with t show ?R by (intro exI [of _ "''''"] exI [of _ sp]) simp
  next
    assume ?R
    then obtain ql sp where q: "q = p\<lparr>PURL_Qualifiers := ql, PURL_Subpath := sp\<rparr>"
      and t: "t = opt_field CHR ''?'' ql @ opt_field CHR ''#'' sp" by blast
    have "ql = ''''" using False t by (auto simp: opt_field_def split: if_splits)
    with q t p show ?L by (intro exI [of _ sp]) simp
  qed
  finally show ?thesis using tail_subpath [OF h assms(3)] by blast
next
  case True
  then obtain u where t: "t = CHR ''?'' # u" by (cases t) auto
  obtain v r where c: "cutPURLField u ''#'' = (v, r)" by (cases "cutPURLField u ''#''")
  note cp = cut_props [OF c]
  have r: "r = [] \<or> hd r = CHR ''#''" using cp by auto
  let ?p = "p\<lparr>PURL_Qualifiers := v\<rparr>"
  have step: "purl_tail t p input =
      (if v = '''' then Some (Err (syntaxError ''purl'' ''qualifiers'' 0 input ''must not be empty''))
       else purl_tail r ?p input)"
    unfolding t using c by (subst purl_tail.simps) simp
  have sub: "PURL_Subpath ?p = ''''" using assms(3) by simp
  note next' = tail_subpath [OF r sub, of input q]
  have uniq: "ql = v \<and> opt_field CHR ''#'' sp = r"
    if "CHR ''#'' \<notin> set ql" "t = opt_field CHR ''?'' ql @ opt_field CHR ''#'' sp" for ql sp
  proof -
    have "ql \<noteq> ''''" using that t by (auto simp: opt_field_def split: if_splits)
    then have u: "u = ql @ opt_field CHR ''#'' sp" using that t by (simp add: opt_field_def)
    have "cutPURLField u ''#'' = (ql, opt_field CHR ''#'' sp)"
      unfolding u using that by (intro cut_unique) (auto simp: opt_field_def)
    with c show ?thesis by simp
  qed
  show ?thesis
  proof (cases "v = ''''")
    case True
    then have "\<not> (CHR ''#'' \<notin> set ql \<and> t = opt_field CHR ''?'' ql @ opt_field CHR ''#'' sp)" for ql sp
      using uniq [of ql sp] t by (auto simp: opt_field_def split: if_splits)
    with True step show ?thesis by auto
  next
    case False
    have "t = opt_field CHR ''?'' v @ r" using False t cp by (simp add: opt_field_def)
    moreover have "CHR ''#'' \<notin> set v" using cp by auto
    ultimately have "(\<exists>sp. q = ?p\<lparr>PURL_Subpath := sp\<rparr> \<and> r = opt_field CHR ''#'' sp) \<longleftrightarrow>
        (\<exists>ql sp. q = p\<lparr>PURL_Qualifiers := ql, PURL_Subpath := sp\<rparr> \<and> CHR ''#'' \<notin> set ql \<and>
           t = opt_field CHR ''?'' ql @ opt_field CHR ''#'' sp)"
      using uniq by blast
    with False step next' show ?thesis by simp
  qed
qed

text \<open>The whole tail: it is consumed, and what it sets is what it spells.\<close>

lemma tail_version:
  assumes "t = [] \<or> hd t \<in> set ''@?#''" "PURL_Version p = ''''" "PURL_Qualifiers p = ''''" "PURL_Subpath p = ''''"
  shows "purl_tail t p input \<noteq> None \<and> (purl_tail t p input = Some (Ok q) \<longleftrightarrow>
    (\<exists>v ql sp. q = p\<lparr>PURL_Version := v, PURL_Qualifiers := ql, PURL_Subpath := sp\<rparr> \<and>
       set v \<inter> set ''?#'' = {} \<and> CHR ''#'' \<notin> set ql \<and>
       t = opt_field CHR ''@'' v @ opt_field CHR ''?'' ql @ opt_field CHR ''#'' sp))"
proof (cases "t \<noteq> [] \<and> hd t = CHR ''@''")
  case False
  then have h: "t = [] \<or> hd t \<in> set ''?#''" using assms(1) by auto
  have p: "p\<lparr>PURL_Version := ''''\<rparr> = p" using assms(2) by (cases p) simp
  have "(\<exists>ql sp. q = p\<lparr>PURL_Qualifiers := ql, PURL_Subpath := sp\<rparr> \<and> CHR ''#'' \<notin> set ql \<and>
       t = opt_field CHR ''?'' ql @ opt_field CHR ''#'' sp) \<longleftrightarrow>
    (\<exists>v ql sp. q = p\<lparr>PURL_Version := v, PURL_Qualifiers := ql, PURL_Subpath := sp\<rparr> \<and>
       set v \<inter> set ''?#'' = {} \<and> CHR ''#'' \<notin> set ql \<and>
       t = opt_field CHR ''@'' v @ opt_field CHR ''?'' ql @ opt_field CHR ''#'' sp)" (is "?L \<longleftrightarrow> ?R")
  proof
    assume ?L
    then obtain ql sp where q: "q = p\<lparr>PURL_Qualifiers := ql, PURL_Subpath := sp\<rparr>" and ql: "CHR ''#'' \<notin> set ql"
      and t: "t = opt_field CHR ''?'' ql @ opt_field CHR ''#'' sp" by blast
    have "q = p\<lparr>PURL_Version := '''', PURL_Qualifiers := ql, PURL_Subpath := sp\<rparr>" by (simp only: p q)
    with ql t show ?R by (intro exI [of _ "''''"] exI [of _ ql] exI [of _ sp]) simp
  next
    assume ?R
    then obtain v ql sp where q: "q = p\<lparr>PURL_Version := v, PURL_Qualifiers := ql, PURL_Subpath := sp\<rparr>"
      and ql: "CHR ''#'' \<notin> set ql"
      and t: "t = opt_field CHR ''@'' v @ opt_field CHR ''?'' ql @ opt_field CHR ''#'' sp" by blast
    have "v = ''''" using False t by (auto simp: opt_field_def split: if_splits)
    with q ql t p show ?L by (intro exI [of _ ql] exI [of _ sp]) simp
  qed
  with tail_qualifiers [OF h assms(3,4)] show ?thesis by blast
next
  case True
  then obtain u where t: "t = CHR ''@'' # u" by (cases t) auto
  obtain w r where c: "cutPURLField u ''?#'' = (w, r)" by (cases "cutPURLField u ''?#''")
  note cp = cut_props [OF c]
  have r: "r = [] \<or> hd r \<in> set ''?#''" using cp by auto
  let ?p = "p\<lparr>PURL_Version := w\<rparr>"
  have step: "purl_tail t p input =
      (if w = '''' then Some (Err (syntaxError ''purl'' ''version'' 0 input ''must not be empty''))
       else purl_tail r ?p input)"
    unfolding t using c by (subst purl_tail.simps) simp
  have sub: "PURL_Qualifiers ?p = ''''" "PURL_Subpath ?p = ''''" using assms(3,4) by simp_all
  note next' = tail_qualifiers [OF r sub, of input q]
  have uniq: "v = w \<and> opt_field CHR ''?'' ql @ opt_field CHR ''#'' sp = r"
    if "set v \<inter> set ''?#'' = {}"
      "t = opt_field CHR ''@'' v @ opt_field CHR ''?'' ql @ opt_field CHR ''#'' sp" for v ql sp
  proof -
    have "v \<noteq> ''''" using that t by (auto simp: opt_field_def split: if_splits)
    then have u: "u = v @ opt_field CHR ''?'' ql @ opt_field CHR ''#'' sp"
      using that t by (simp add: opt_field_def)
    have "cutPURLField u ''?#'' = (v, opt_field CHR ''?'' ql @ opt_field CHR ''#'' sp)"
      unfolding u using that(1) by (rule cut_unique) (auto simp: opt_field_def)
    with c show ?thesis by simp
  qed
  show ?thesis
  proof (cases "w = ''''")
    case True
    have "\<not> (set v \<inter> set ''?#'' = {} \<and>
        t = opt_field CHR ''@'' v @ opt_field CHR ''?'' ql @ opt_field CHR ''#'' sp)" for v ql sp
    proof
      assume a: "set v \<inter> set ''?#'' = {} \<and>
        t = opt_field CHR ''@'' v @ opt_field CHR ''?'' ql @ opt_field CHR ''#'' sp"
      with uniq [of v ql sp] True have "v = ''''" by blast
      with a t show False by (auto simp: opt_field_def split: if_splits)
    qed
    with True step show ?thesis by auto
  next
    case False
    have "t = opt_field CHR ''@'' w @ r" using False t cp by (simp add: opt_field_def)
    moreover have "set w \<inter> set ''?#'' = {}" using cp by blast
    ultimately have "(\<exists>ql sp. q = ?p\<lparr>PURL_Qualifiers := ql, PURL_Subpath := sp\<rparr> \<and> CHR ''#'' \<notin> set ql \<and>
           r = opt_field CHR ''?'' ql @ opt_field CHR ''#'' sp) \<longleftrightarrow>
        (\<exists>v ql sp. q = p\<lparr>PURL_Version := v, PURL_Qualifiers := ql, PURL_Subpath := sp\<rparr> \<and>
           set v \<inter> set ''?#'' = {} \<and> CHR ''#'' \<notin> set ql \<and>
           t = opt_field CHR ''@'' v @ opt_field CHR ''?'' ql @ opt_field CHR ''#'' sp)"
      using uniq by blast
    with False step next' show ?thesis by simp
  qed
qed

lemma splitPURLTail_Ok:
  assumes "t = [] \<or> hd t \<in> set ''@?#''" "PURL_Version p = ''''" "PURL_Qualifiers p = ''''" "PURL_Subpath p = ''''"
  shows "splitPURLTail t p input = Ok q \<longleftrightarrow>
    (\<exists>v ql sp. q = p\<lparr>PURL_Version := v, PURL_Qualifiers := ql, PURL_Subpath := sp\<rparr> \<and>
       set v \<inter> set ''?#'' = {} \<and> CHR ''#'' \<notin> set ql \<and>
       t = opt_field CHR ''@'' v @ opt_field CHR ''?'' ql @ opt_field CHR ''#'' sp)"
  using tail_version [OF assms, of input q] by (auto simp: splitPURLTail_def)

subsection \<open>Parsing is the inverse of printing\<close>

definition content_ok :: "string \<Rightarrow> bool" where
  "content_ok s \<longleftrightarrow> is_ok (checkPURLContent s '''' 0 '''')"

definition qualifiers_ok :: "string \<Rightarrow> bool" where
  "qualifiers_ok q \<longleftrightarrow> is_ok (checkPURLQualifiers q '''')"

lemma checkPURLContent_Ok: "checkPURLContent s field index input = Ok u \<longleftrightarrow> content_ok s"
proof -
  have "is_ok (checkPURLContent s field index input) = is_ok (checkPURLContent s '''' 0 '''')"
    by (induction s field index input rule: checkPURLContent.induct) auto
  then show ?thesis by (simp add: content_ok_def is_ok_iff)
qed

lemma checkPURLQualifiers_Ok: "checkPURLQualifiers q input = Ok u \<longleftrightarrow> qualifiers_ok q"
  by (auto simp: qualifiers_ok_def checkPURLQualifiers_def is_ok_iff result_simps checkPURLContent_Ok
      split: option.splits if_splits)

definition purl_wf :: "PURL \<Rightarrow> bool" where
  "purl_wf p \<longleftrightarrow>
     validPURLType (PURL_Type p) \<and>
     PURL_Name p \<noteq> '''' \<and> set (PURL_Name p) \<inter> set ''/@?#'' = {} \<and>
     set (PURL_Namespace p) \<inter> set ''@?#'' = {} \<and>
     (PURL_Namespace p = '''' \<or> '''' \<notin> set (split_byte CHR ''/'' (PURL_Namespace p))) \<and>
     set (PURL_Version p) \<inter> set ''?#'' = {} \<and> CHR ''#'' \<notin> set (PURL_Qualifiers p) \<and>
     content_ok (PURL_Name p) \<and> content_ok (PURL_Namespace p) \<and> content_ok (PURL_Version p) \<and>
     content_ok (PURL_Subpath p) \<and> qualifiers_ok (PURL_Qualifiers p)"

lemma split_append: "split_byte c (a @ c # b) = split_byte c a @ split_byte c b"
proof (induction a)
  case (Cons x a)
  then show ?case by (cases "split_byte c a") auto
qed simp

lemma join_snoc: "xs \<noteq> [] \<Longrightarrow> join_byte c (xs @ [y]) = join_byte c xs @ c # y"
  by (induction c xs rule: join_byte.induct) auto

text \<open>The namespace and the name of a path.\<close>

lemma path_parts:
  assumes "segs = split_byte CHR ''/'' path" "last segs \<noteq> ''''"
    "\<not> (length segs > 1 \<and> list_ex (\<lambda>seg. seg = '''') (butlast segs))"
    "ns = (if length segs > 1 then join_byte CHR ''/'' (butlast segs) else '''')"
  shows "path = (if ns \<noteq> '''' then ns @ [CHR ''/''] else '''') @ last segs \<and> CHR ''/'' \<notin> set (last segs) \<and>
    (ns = '''' \<or> '''' \<notin> set (split_byte CHR ''/'' ns)) \<and> set ns \<subseteq> set path"
proof -
  have ne: "segs \<noteq> []" by (simp add: assms(1))
  have "last segs \<in> set segs" using ne by simp
  then have last: "CHR ''/'' \<notin> set (last segs)" using split_parts_no_sep assms(1) by blast
  have path: "path = join_byte CHR ''/'' (butlast segs @ [last segs])"
    using ne by (simp add: assms(1))
  show ?thesis
  proof (cases "butlast segs = []")
    case True
    then have "length segs = 1" using ne by (cases segs) (auto split: if_splits)
    with True last path assms(4) show ?thesis by simp
  next
    case False
    have len: "length segs > 1" using False by (cases segs) (auto split: if_splits)
    have parts: "\<forall>x\<in>set (butlast segs). CHR ''/'' \<notin> set x \<and> x \<noteq> ''''"
    proof
      fix x assume x: "x \<in> set (butlast segs)"
      have "CHR ''/'' \<notin> set x" using split_parts_no_sep in_set_butlastD [OF x] assms(1) by blast
      with x assms(3) len show "CHR ''/'' \<notin> set x \<and> x \<noteq> ''''" by (auto simp: list_ex_iff)
    qed
    then have "split_byte CHR ''/'' ns = butlast segs"
      using len assms(4) False by (simp add: split_join)
    moreover have "ns \<noteq> ''''"
      using False parts len assms(4) by (cases "butlast segs"; cases "tl (butlast segs)") auto
    ultimately show ?thesis
      using path False len assms(4) parts last by (auto simp: join_snoc)
  qed
qed

lemma path_split:
  assumes "CHR ''/'' \<notin> set name" "ns = '''' \<or> '''' \<notin> set (split_byte CHR ''/'' ns)"
  shows "split_byte CHR ''/'' ((if ns \<noteq> '''' then ns @ [CHR ''/''] else '''') @ name) =
    (if ns = '''' then [] else split_byte CHR ''/'' ns) @ [name]"
  using assms by (simp add: split_append split_no_sep)

lemma purl_tail_cut:
  "(case index_any ''@?#'' rest of
      None \<Rightarrow> Ok (rest, p)
    | Some i \<Rightarrow> rbind (splitPURLTail (drop i rest) p input) (\<lambda>p. Ok (take i rest, p))) =
   (case cutPURLField rest ''@?#'' of (path, t) \<Rightarrow> rbind (splitPURLTail t p input) (\<lambda>p. Ok (path, p)))"
proof (cases "index_any ''@?#'' rest")
  case None
  have "splitPURLTail [] p input = Ok p" by (simp add: splitPURLTail_def purl_tail.simps)
  with None show ?thesis by (simp add: cutPURLField_def)
qed (simp add: cutPURLField_def)

lemma valid_type_no_slash: "validPURLType t \<Longrightarrow> CHR ''/'' \<notin> set t \<and> t \<noteq> ''''"
  by (cases t) (auto simp: validPURLType_def isLowerASCIILetter_def isASCIIDigit_def list_all_iff split: if_splits)

lemma purl_body_Ok:
  assumes "PURL_Namespace p = ''''"
  shows "purl_body path p input = Ok q \<longleftrightarrow>
    (\<exists>ns name. q = p\<lparr>PURL_Namespace := ns, PURL_Name := name\<rparr> \<and> name \<noteq> '''' \<and> CHR ''/'' \<notin> set name \<and>
       (ns = '''' \<or> '''' \<notin> set (split_byte CHR ''/'' ns)) \<and>
       path = (if ns \<noteq> '''' then ns @ [CHR ''/''] else '''') @ name \<and>
       content_ok name \<and> content_ok ns \<and> content_ok (PURL_Version p) \<and> content_ok (PURL_Subpath p) \<and>
       qualifiers_ok (PURL_Qualifiers p))" (is "_ \<longleftrightarrow> ?R")
proof
  let ?segs = "split_byte CHR ''/'' path"
  let ?ns = "if length ?segs > 1 then join_byte CHR ''/'' (butlast ?segs) else ''''"
  have upd: "(if length ?segs > 1 then p\<lparr>PURL_Namespace := join_byte CHR ''/'' (butlast ?segs)\<rparr> else p)
      = p\<lparr>PURL_Namespace := ?ns\<rparr>" using assms by (cases p) simp
  assume "purl_body path p input = Ok q"
  then have 1: "last ?segs \<noteq> ''''" "\<not> (length ?segs > 1 \<and> list_ex (\<lambda>seg. seg = '''') (butlast ?segs))"
    and 2: "q = p\<lparr>PURL_Namespace := ?ns, PURL_Name := last ?segs\<rparr>"
      "content_ok (last ?segs)" "content_ok ?ns" "content_ok (PURL_Version p)" "content_ok (PURL_Subpath p)"
      "qualifiers_ok (PURL_Qualifiers p)"
    unfolding purl_body_def Let_def upd
    by (simp_all add: rbind_Ok_iff checkPURLContent_Ok checkPURLQualifiers_Ok split del: if_split split: if_split_asm)
  from path_parts [OF refl 1 refl] 1 2 show ?R by blast
next
  assume ?R
  then obtain ns name where q: "q = p\<lparr>PURL_Namespace := ns, PURL_Name := name\<rparr>" and n: "name \<noteq> ''''" "CHR ''/'' \<notin> set name"
    and ns: "ns = '''' \<or> '''' \<notin> set (split_byte CHR ''/'' ns)"
    and path: "path = (if ns \<noteq> '''' then ns @ [CHR ''/''] else '''') @ name"
    and ok: "content_ok name" "content_ok ns" "content_ok (PURL_Version p)" "content_ok (PURL_Subpath p)"
      "qualifiers_ok (PURL_Qualifiers p)" by blast
  have segs: "split_byte CHR ''/'' path = (if ns = '''' then [] else split_byte CHR ''/'' ns) @ [name]"
    unfolding path by (rule path_split [OF n(2) ns])
  have upd: "p\<lparr>PURL_Namespace := ''''\<rparr> = p" using assms by (cases p) simp
  show "purl_body path p input = Ok q"
  proof (cases "ns = ''''")
    case True
    then show ?thesis
      using n ok upd unfolding purl_body_def Let_def segs
      by (simp add: rbind_Ok_iff checkPURLContent_Ok checkPURLQualifiers_Ok q assms)
  next
    case False
    have "0 < length (split_byte CHR ''/'' ns)" by simp
    then show ?thesis
      using n ok ns False unfolding purl_body_def Let_def segs
      by (simp add: rbind_Ok_iff checkPURLContent_Ok checkPURLQualifiers_Ok q list_ex_iff)
  qed
qed

lemma ParsePURL_alt:
  "ParsePURL input = Ok p \<longleftrightarrow>
     (\<exists>ty rest path t p1. input = ''pkg:'' @ ty @ CHR ''/'' # rest \<and> validPURLType ty \<and> rest \<noteq> '''' \<and>
        cutPURLField rest ''@?#'' = (path, t) \<and> splitPURLTail t (empty_purl ty) input = Ok p1 \<and>
        purl_body path p1 input = Ok p)" (is "_ \<longleftrightarrow> ?R")
proof -
  let ?r = "drop 4 input"
  have prefix: "take 4 input = ''pkg:'' \<longleftrightarrow> input = ''pkg:'' @ ?r"
    by (metis append_take_drop_id append_same_eq)
  have four: "length ''pkg:'' = 4" by simp
  have parse: "ParsePURL input =
     (if input = '''' then Err (wholeInputError ''purl'' input ''empty purl string'')
      else if take 4 input \<noteq> ''pkg:'' then Err (wholeInputError ''purl'' input ''pkg: scheme prefix'')
      else
        (case index_byte CHR ''/'' ?r of
           None \<Rightarrow> Err (syntaxError ''purl'' ''type'' 0 input ''missing / after the type'')
         | Some slash \<Rightarrow>
             (if \<not> validPURLType (take slash ?r) then Err (syntaxError ''purl'' ''type'' 0 input ''malformed type'')
              else if drop (slash + 1) ?r = '''' then Err (syntaxError ''purl'' ''name'' 0 input ''missing name after the type'')
              else
                rbind
                   (case cutPURLField (drop (slash + 1) ?r) ''@?#'' of
                      (path, t) \<Rightarrow> rbind (splitPURLTail t (empty_purl (take slash ?r)) input) (\<lambda>p. Ok (path, p)))
                   (\<lambda>(path, p). purl_body path p input))))"
    unfolding ParsePURL_def purlSchemePrefix_def Let_def purl_tail_cut four ..
  show ?thesis
  proof
    assume "ParsePURL input = Ok p"
    then obtain slash where i: "take 4 input = ''pkg:''" "index_byte CHR ''/'' ?r = Some slash"
      and v: "validPURLType (take slash ?r)" "drop (slash + 1) ?r \<noteq> ''''"
      and b: "rbind (case cutPURLField (drop (slash + 1) ?r) ''@?#'' of
          (path, t) \<Rightarrow> rbind (splitPURLTail t (empty_purl (take slash ?r)) input) (\<lambda>p. Ok (path, p)))
        (\<lambda>(path, p). purl_body path p input) = Ok p"
      unfolding parse by (auto split: if_splits option.splits)
    obtain path t where c: "cutPURLField (drop (slash + 1) ?r) ''@?#'' = (path, t)"
      by (cases "cutPURLField (drop (slash + 1) ?r) ''@?#''") auto
    with b obtain p1 where p1: "splitPURLTail t (empty_purl (take slash ?r)) input = Ok p1" "purl_body path p1 input = Ok p"
      by (auto simp: rbind_Ok_iff)
    have "input = ''pkg:'' @ take slash ?r @ CHR ''/'' # drop (slash + 1) ?r"
      using i(1) prefix index_byte_split [OF i(2)] by simp
    with v c p1 show ?R by blast
  next
    assume ?R
    then obtain ty rest path t p1 where e: "input = ''pkg:'' @ ty @ CHR ''/'' # rest" and v: "validPURLType ty" "rest \<noteq> ''''"
      and c: "cutPURLField rest ''@?#'' = (path, t)" "splitPURLTail t (empty_purl ty) input = Ok p1"
      "purl_body path p1 input = Ok p" by blast
    have r: "?r = ty @ CHR ''/'' # rest" "take 4 input = ''pkg:''" "input \<noteq> ''''" by (simp_all add: e)
    have "index_byte CHR ''/'' ?r = Some (length ty)"
      unfolding r by (rule index_byte_append) (use valid_type_no_slash [OF v(1)] in simp)
    then show "ParsePURL input = Ok p"
      unfolding parse using r v c by simp
  qed
qed

lemma ParsePURL_Ok_iff: "ParsePURL s = Ok p \<longleftrightarrow> PURL_String p = s \<and> purl_wf p"
proof
  assume "ParsePURL s = Ok p"
  then obtain ty rest path t p1 where s: "s = ''pkg:'' @ ty @ CHR ''/'' # rest" and v: "validPURLType ty"
    and c: "cutPURLField rest ''@?#'' = (path, t)"
    and t: "splitPURLTail t (empty_purl ty) s = Ok p1" and b: "purl_body path p1 s = Ok p"
    unfolding ParsePURL_alt by blast
  note cp = cut_props [OF c]
  have h: "t = [] \<or> hd t \<in> set ''@?#''" using cp by blast
  have e: "PURL_Version (empty_purl ty) = ''''" "PURL_Qualifiers (empty_purl ty) = ''''" "PURL_Subpath (empty_purl ty) = ''''"
    by (simp_all add: empty_purl_def)
  from t splitPURLTail_Ok [OF h e] obtain ver ql sp where
    p1: "p1 = (empty_purl ty)\<lparr>PURL_Version := ver, PURL_Qualifiers := ql, PURL_Subpath := sp\<rparr>"
    and tl: "set ver \<inter> set ''?#'' = {}" "CHR ''#'' \<notin> set ql"
    and t: "t = opt_field CHR ''@'' ver @ opt_field CHR ''?'' ql @ opt_field CHR ''#'' sp" by blast
  have "PURL_Namespace p1 = ''''" by (simp add: p1 empty_purl_def)
  from b [unfolded purl_body_Ok [OF this]] obtain ns name where
    p: "p = p1\<lparr>PURL_Namespace := ns, PURL_Name := name\<rparr>" and n: "name \<noteq> ''''" "CHR ''/'' \<notin> set name"
    and ns: "ns = '''' \<or> '''' \<notin> set (split_byte CHR ''/'' ns)"
    and path: "path = (if ns \<noteq> '''' then ns @ [CHR ''/''] else '''') @ name"
    and ok: "content_ok name" "content_ok ns" "content_ok (PURL_Version p1)" "content_ok (PURL_Subpath p1)"
      "qualifiers_ok (PURL_Qualifiers p1)" by blast
  have f: "PURL_Type p = ty" "PURL_Namespace p = ns" "PURL_Name p = name" "PURL_Version p = ver"
    "PURL_Qualifiers p = ql" "PURL_Subpath p = sp"
    by (simp_all add: p p1 empty_purl_def)
  have "set name \<subseteq> set path" "set ns \<subseteq> set path" unfolding path by auto
  then have "set name \<inter> set ''/@?#'' = {}" "set ns \<inter> set ''@?#'' = {}" using cp n(2) by auto
  moreover have "content_ok ver" "content_ok sp" "qualifiers_ok ql" using ok by (simp_all add: p1)
  ultimately have "purl_wf p" using v n(1) ns ok(1,2) tl by (simp add: purl_wf_def f)
  moreover have "PURL_String p = s"
    using cp by (simp add: PURL_String_opt f s path t purlSchemePrefix_def)
  ultimately show "PURL_String p = s \<and> purl_wf p" by simp
next
  assume a: "PURL_String p = s \<and> purl_wf p"
  let ?path = "(if PURL_Namespace p \<noteq> '''' then PURL_Namespace p @ [CHR ''/''] else '''') @ PURL_Name p"
  let ?t = "opt_field CHR ''@'' (PURL_Version p) @ opt_field CHR ''?'' (PURL_Qualifiers p) @
    opt_field CHR ''#'' (PURL_Subpath p)"
  let ?p1 = "(empty_purl (PURL_Type p))\<lparr>PURL_Version := PURL_Version p,
    PURL_Qualifiers := PURL_Qualifiers p, PURL_Subpath := PURL_Subpath p\<rparr>"
  have wf: "purl_wf p" using a by simp
  have s: "s = ''pkg:'' @ PURL_Type p @ CHR ''/'' # (?path @ ?t)"
    using a by (auto simp: PURL_String_opt purlSchemePrefix_def)
  have h: "?t = [] \<or> hd ?t \<in> set ''@?#''" by (auto simp: opt_field_def)
  have "set ?path \<inter> set ''@?#'' = {}" using wf by (auto simp: purl_wf_def)
  from cut_unique [OF this h] have c: "cutPURLField (?path @ ?t) ''@?#'' = (?path, ?t)" by blast
  have e: "PURL_Version (empty_purl (PURL_Type p)) = ''''" "PURL_Qualifiers (empty_purl (PURL_Type p)) = ''''"
    "PURL_Subpath (empty_purl (PURL_Type p)) = ''''" by (simp_all add: empty_purl_def)
  have tail: "splitPURLTail ?t (empty_purl (PURL_Type p)) s = Ok ?p1"
    unfolding splitPURLTail_Ok [OF h e] using wf unfolding purl_wf_def by blast
  have "PURL_Namespace ?p1 = ''''" by (simp add: empty_purl_def)
  note body = purl_body_Ok [OF this, of ?path s p]
  have "p = ?p1\<lparr>PURL_Namespace := PURL_Namespace p, PURL_Name := PURL_Name p\<rparr>"
    by (cases p) (simp add: empty_purl_def)
  moreover have "CHR ''/'' \<notin> set (PURL_Name p)" using wf by (auto simp: purl_wf_def)
  ultimately have "purl_body ?path ?p1 s = Ok p"
    unfolding body using wf unfolding purl_wf_def by (intro exI conjI) auto
  moreover have "?path @ ?t \<noteq> ''''" "validPURLType (PURL_Type p)" using wf by (simp_all add: purl_wf_def)
  ultimately show "ParsePURL s = Ok p" unfolding ParsePURL_alt using s c tail by blast
qed

section \<open>Properties\<close>

lemma NormaliseKey_ascii:
  "nfkc_ascii U \<Longrightarrow> is_ascii s \<Longrightarrow> NormaliseKey U s = map byte_lower (trim_space s)"
  by (simp add: NormaliseKey_def nfkc_ascii_def is_ascii_trim to_lower_ascii)

text \<open>C36: CPE 2.3 strings: the parser accepts a string with a result exactly when the result is
  a well-formed decomposition (eleven attributes, none empty, none with a colon or a control
  character, a part of a, h or o) that prints as that string. So parsing never reshapes what
  it accepts, and every well-formed decomposition is parsed back.\<close>

theorem cpe_roundtrip: "ParseCPE23 s = Ok c \<longleftrightarrow> CPE23_String c = s \<and> cpe_wf c"
  by (rule ParseCPE23_Ok_iff)

text \<open>Package URLs: the parser accepts a string with a result exactly when the result is
  well-formed (type, name, namespace segments, delimiters and content as the grammar demands)
  and prints as that string.\<close>

theorem purl_roundtrip: "ParsePURL s = Ok p \<longleftrightarrow> PURL_String p = s \<and> purl_wf p"
  by (rule ParsePURL_Ok_iff)

text \<open>The comparison-key fold is idempotent on ASCII identifiers and yields trimmed keys
  without uppercase letters, given that NFKC leaves ASCII text alone.\<close>

theorem normalise_key_idempotent:
  assumes "nfkc_ascii U" "is_ascii s"
  shows "NormaliseKey U (NormaliseKey U s) = NormaliseKey U s \<and>
    trim_space (NormaliseKey U s) = NormaliseKey U s \<and> list_all (\<lambda>c. \<not> is_upper c) (NormaliseKey U s)"
proof -
  let ?k = "map byte_lower (trim_space s)"
  have k: "NormaliseKey U s = ?k" using assms by (rule NormaliseKey_ascii)
  have t: "trim_space ?k = ?k" by (rule trim_space_map_lower) simp
  have "is_ascii ?k" using assms(2) by (intro is_ascii_map_lower is_ascii_trim)
  then have "NormaliseKey U ?k = ?k" using NormaliseKey_ascii [OF assms(1), of ?k] t by (simp add: comp_def)
  with k t byte_lower_not_upper show ?thesis by (auto simp: list_all_iff)
qed

theorem normalise_key_idempotent_witness:
  "NormaliseKey plain_unicode (NormaliseKey plain_unicode '' Apache HTTPD '') = NormaliseKey plain_unicode '' Apache HTTPD ''"
proof -
  have "is_ascii '' Apache HTTPD ''" by code_simp
  from normalise_key_idempotent [OF nfkc_ascii_plain this] show ?thesis by blast
qed

text \<open>Beyond ASCII it is not: the trim comes before NFKC, which maps the diaeresis U+00A8 to a
  space and a combining mark.\<close>

lemma normalise_key_not_idempotent:
  assumes "nfkc U [CHR 0xC2, CHR 0xA8] = [CHR 0x20, CHR 0xCC, CHR 0x88]"
    and "nfkc U [CHR 0xCC, CHR 0x88] = [CHR 0xCC, CHR 0x88]"
    and "uni_lower U [CHR 0x20, CHR 0xCC, CHR 0x88] = [CHR 0x20, CHR 0xCC, CHR 0x88]"
    and "uni_lower U [CHR 0xCC, CHR 0x88] = [CHR 0xCC, CHR 0x88]"
  shows "NormaliseKey U (NormaliseKey U [CHR 0xC2, CHR 0xA8]) \<noteq> NormaliseKey U [CHR 0xC2, CHR 0xA8]"
proof -
  have t: "trim_space [CHR 0xC2, CHR 0xA8] = [CHR 0xC2, CHR 0xA8]"
    "trim_space [CHR 0x20, CHR 0xCC, CHR 0x88] = [CHR 0xCC, CHR 0x88]" by code_simp+
  have a: "\<not> is_ascii [CHR 0x20, CHR 0xCC, CHR 0x88]" "\<not> is_ascii [CHR 0xCC, CHR 0x88]" by code_simp+
  have l: "map byte_lower [CHR 0x20, CHR 0xCC, CHR 0x88] = [CHR 0x20, CHR 0xCC, CHR 0x88]"
    "map byte_lower [CHR 0xCC, CHR 0x88] = [CHR 0xCC, CHR 0x88]" by code_simp+
  have "NormaliseKey U [CHR 0xC2, CHR 0xA8] = [CHR 0x20, CHR 0xCC, CHR 0x88]"
    unfolding NormaliseKey_def t assms(1) to_lower_def assms(3) using a l by simp
  moreover have "NormaliseKey U [CHR 0x20, CHR 0xCC, CHR 0x88] = [CHR 0xCC, CHR 0x88]"
    unfolding NormaliseKey_def t assms(2) to_lower_def assms(4) using a l by simp
  ultimately show ?thesis by simp
qed

end
