(* ===== verification/NormaliseImage.thy ===== *)
theory NormaliseImage
  imports NormaliseId
begin

text \<open>
  Container image references (internal/application/normalise/image.go): the four regular
  expressions as recognisers over the bytes, the parser, the printer, and that each inverts
  the other.
\<close>

section \<open>The regular expressions\<close>

definition isRegistryDomain :: "string \<Rightarrow> bool" where
  "isRegistryDomain component \<longleftrightarrow> component = ''localhost'' \<or> list_ex (\<lambda>c. c \<in> set ''.:'') component"

text \<open>Runs of \<open>x\<close> separated by single bytes of \<open>sep\<close>: \<open>^x+(?:sep x+)*$\<close>. The flag says that a
  run is open.\<close>

fun runs :: "(char \<Rightarrow> bool) \<Rightarrow> (char \<Rightarrow> bool) \<Rightarrow> bool \<Rightarrow> string \<Rightarrow> bool" where
  "runs x sep open' [] = open'"
| "runs x sep open' (c # s) =
     (if x c then runs x sep True s else if sep c \<and> open' then runs x sep False s else False)"

definition az09 :: "char \<Rightarrow> bool" where
  "az09 c \<longleftrightarrow> (c \<ge> CHR ''a'' \<and> c \<le> CHR ''z'') \<or> (c \<ge> CHR ''0'' \<and> c \<le> CHR ''9'')"

definition AZaz09 :: "char \<Rightarrow> bool" where
  "AZaz09 c \<longleftrightarrow> az09 c \<or> (c \<ge> CHR ''A'' \<and> c \<le> CHR ''Z'')"

definition hex_lower :: "char \<Rightarrow> bool" where
  "hex_lower c \<longleftrightarrow> (c \<ge> CHR ''0'' \<and> c \<le> CHR ''9'') \<or> (c \<ge> CHR ''a'' \<and> c \<le> CHR ''f'')"

definition imageDigestRe :: "string \<Rightarrow> bool" where
  "imageDigestRe s =
     (case index_byte CHR '':'' s of
        None \<Rightarrow> False
      | Some i \<Rightarrow> runs az09 (\<lambda>c. c \<in> set ''+._-'') False (take i s) \<and>
          32 \<le> length (drop (Suc i) s) \<and> list_all hex_lower (drop (Suc i) s))"

definition imageTagRe :: "string \<Rightarrow> bool" where
  "imageTagRe s =
     (case s of
        [] \<Rightarrow> False
      | c # t \<Rightarrow> (AZaz09 c \<or> c = CHR ''_'') \<and> length t \<le> 127 \<and> list_all (\<lambda>c. AZaz09 c \<or> c \<in> set ''_.-'') t)"

definition imageRepoPartRe :: "string \<Rightarrow> bool" where
  "imageRepoPartRe s = runs az09 (\<lambda>c. c \<in> set ''._-'') False s"

definition registry_host :: "string \<Rightarrow> bool" where
  "registry_host s \<longleftrightarrow>
     s \<noteq> '''' \<and> AZaz09 (hd s) \<and> AZaz09 (last s) \<and> list_all (\<lambda>c. AZaz09 c \<or> c \<in> set ''._-'') s"

definition imageRegistryRe :: "string \<Rightarrow> bool" where
  "imageRegistryRe s =
     (case index_byte CHR '':'' s of
        None \<Rightarrow> registry_host s
      | Some i \<Rightarrow> registry_host (take i s) \<and> drop (Suc i) s \<noteq> '''' \<and>
          list_all (\<lambda>c. c \<ge> CHR ''0'' \<and> c \<le> CHR ''9'') (drop (Suc i) s))"

section \<open>Parser and printer\<close>

record ImageRef =
  Image_Registry :: string
  Image_Repository :: string
  Image_Tag :: string
  Image_Digest :: string

text \<open>The digest after the last at sign, and what is left.\<close>

definition image_digest :: "string \<Rightarrow> SyntaxError + string \<times> string" where
  "image_digest input =
     (case last_index_byte CHR ''@'' input of
        None \<Rightarrow> Ok ('''', input)
      | Some i \<Rightarrow>
          guards
            [(drop (Suc i) input = '''', syntaxError ''image'' ''digest'' 0 input ''must not be empty''),
             (\<not> imageDigestRe (drop (Suc i) input), syntaxError ''image'' ''digest'' 0 input ''algorithm:lowercase-hex'')]
            (Ok (drop (Suc i) input, take i input)))"

text \<open>\<open>strings.LastIndexByte(rest, '/') < i\<close>, where an absent slash is at -1.\<close>

definition slash_before :: "string \<Rightarrow> nat \<Rightarrow> bool" where
  "slash_before rest i = (case last_index_byte CHR ''/'' rest of None \<Rightarrow> True | Some j \<Rightarrow> j < i)"

definition image_tag :: "string \<Rightarrow> string \<Rightarrow> SyntaxError + string \<times> string" where
  "image_tag input rest =
     (case last_index_byte CHR '':'' rest of
        None \<Rightarrow> Ok ('''', rest)
      | Some i \<Rightarrow>
          (if slash_before rest i then
             guards
               [(drop (Suc i) rest = '''', syntaxError ''image'' ''tag'' 0 input ''must not be empty''),
                (\<not> imageTagRe (drop (Suc i) rest), syntaxError ''image'' ''tag'' 0 input ''malformed tag'')]
               (Ok (drop (Suc i) rest, take i rest))
           else Ok ('''', rest)))"

definition image_registry :: "string \<Rightarrow> string \<Rightarrow> SyntaxError + string \<times> string" where
  "image_registry input rest =
     (let parts = split_byte CHR ''/'' rest in
      if length parts > 1 \<and> isRegistryDomain (parts ! 0) then
        guards
          [(\<not> imageRegistryRe (parts ! 0), syntaxError ''image'' ''registry'' 0 input ''hostname or host:port''),
           (join_byte CHR ''/'' (tl parts) = '''',
            syntaxError ''image'' ''repository'' 0 input ''empty after the registry'')]
          (Ok (parts ! 0, join_byte CHR ''/'' (tl parts)))
      else Ok ('''', rest))"

definition ParseImageRef :: "string \<Rightarrow> SyntaxError + ImageRef" where
  "ParseImageRef input =
     (if input = '''' then Err (wholeInputError ''image'' input ''empty image reference'')
      else if hasControlChar input then
        Err (wholeInputError ''image'' input ''image reference contains control characters'')
      else
        rbind (image_digest input) (\<lambda>(digest, rest).
        if rest = '''' then Err (wholeInputError ''image'' input ''image reference must carry a repository'')
        else
          rbind (image_tag input rest) (\<lambda>(tag, rest).
          if rest = '''' then Err (wholeInputError ''image'' input ''image reference must carry a repository'')
          else
            rbind (image_registry input rest) (\<lambda>(registry, rest).
            rbind
              (each (\<lambda>seg.
                 if \<not> imageRepoPartRe seg
                 then Err (syntaxError ''image'' ''repository'' 0 input ''malformed repository component'')
                 else Ok ())
                 (split_byte CHR ''/'' rest))
              (\<lambda>_. Ok \<lparr>Image_Registry = registry, Image_Repository = rest,
                       Image_Tag = tag, Image_Digest = digest\<rparr>)))))"

definition ImageRef_String :: "ImageRef \<Rightarrow> string" where
  "ImageRef_String r =
     (if Image_Registry r \<noteq> '''' then Image_Registry r @ [CHR ''/''] else '''') @
     Image_Repository r @
     (if Image_Tag r \<noteq> '''' then CHR '':'' # Image_Tag r else '''') @
     (if Image_Digest r \<noteq> '''' then CHR ''@'' # Image_Digest r else '''')"

text \<open>A well-formed reference: each part matches its expression, and a repository without a
  registry does not start with what would be read as one.\<close>

definition image_wf :: "ImageRef \<Rightarrow> bool" where
  "image_wf r \<longleftrightarrow>
     (Image_Digest r = '''' \<or> imageDigestRe (Image_Digest r)) \<and>
     (Image_Tag r = '''' \<or> imageTagRe (Image_Tag r)) \<and>
     list_all imageRepoPartRe (split_byte CHR ''/'' (Image_Repository r)) \<and>
     (if Image_Registry r = '''' then
        \<not> (length (split_byte CHR ''/'' (Image_Repository r)) > 1 \<and>
           isRegistryDomain (hd (split_byte CHR ''/'' (Image_Repository r))))
      else isRegistryDomain (Image_Registry r) \<and> imageRegistryRe (Image_Registry r))"

section \<open>The bytes of the parts\<close>

definition image_byte :: "char \<Rightarrow> bool" where
  "image_byte c \<longleftrightarrow> AZaz09 c \<or> c \<in> set ''+._-:''"

lemma runs_bytes: "runs x sep b s \<Longrightarrow> c \<in> set s \<Longrightarrow> x c \<or> sep c"
  by (induction x sep b s rule: runs.induct) (auto split: if_splits)

lemma runs_nonempty: "runs x sep False s \<Longrightarrow> s \<noteq> []"
  by auto

lemma AZaz09_simps: "az09 c \<Longrightarrow> AZaz09 c" "hex_lower c \<Longrightarrow> AZaz09 c"
  by (auto simp: AZaz09_def az09_def hex_lower_def intro: order_trans)

lemma byte_not:
  "image_byte c \<Longrightarrow> c \<noteq> CHR ''/'' \<and> c \<noteq> CHR ''@'' \<and> \<not> control_byte c"
  by (auto simp: image_byte_def AZaz09_def az09_def control_byte_def char_le_nat)

lemma set_split: "index_byte c s = Some i \<Longrightarrow> set s = set (take i s) \<union> {c} \<union> set (drop (Suc i) s)"
  using index_byte_split [of c s i] by (metis (no_types, lifting) Un_insert_right list.simps(15) set_append sup_bot_right Un_assoc Un_insert_left)

lemma digest_bytes: "imageDigestRe s \<Longrightarrow> c \<in> set s \<Longrightarrow> image_byte c"
  using set_split [of "CHR '':''" s] runs_bytes [of az09 _ False _ c]
  by (fastforce simp: imageDigestRe_def image_byte_def list_all_iff AZaz09_simps split: option.splits)

lemma tag_bytes: "imageTagRe s \<Longrightarrow> c \<in> set s \<Longrightarrow> AZaz09 c \<or> c \<in> set ''_.-''"
  by (auto simp: imageTagRe_def list_all_iff split: list.splits)

lemma repo_bytes: "imageRepoPartRe s \<Longrightarrow> c \<in> set s \<Longrightarrow> AZaz09 c \<or> c \<in> set ''_.-''"
  using runs_bytes [of az09 "\<lambda>c. c \<in> set ''._-''" False s c] by (auto simp: imageRepoPartRe_def AZaz09_simps)

lemma registry_bytes: "imageRegistryRe s \<Longrightarrow> c \<in> set s \<Longrightarrow> image_byte c"
proof -
  assume r: "imageRegistryRe s" and c: "c \<in> set s"
  have h: "AZaz09 d \<or> d \<in> set ''._-''" if "registry_host t" "d \<in> set t" for t d
    using that by (auto simp: registry_host_def list_all_iff)
  show ?thesis
  proof (cases "index_byte CHR '':'' s")
    case None
    with r c h [of s c] show ?thesis by (auto simp: imageRegistryRe_def image_byte_def)
  next
    case (Some i)
    with r have "registry_host (take i s)" "\<forall>d\<in>set (drop (Suc i) s). AZaz09 d"
      by (auto simp: imageRegistryRe_def list_all_iff AZaz09_def az09_def)
    with set_split [OF Some] c h [of "take i s" c] show ?thesis by (auto simp: image_byte_def)
  qed
qed

section \<open>Each step of the parser\<close>

lemma image_digest_Ok:
  "image_digest input = Ok (d, rest) \<longleftrightarrow>
     input = rest @ opt_field CHR ''@'' d \<and> (if d = '''' then CHR ''@'' \<notin> set rest else imageDigestRe d)"
proof
  assume a: "image_digest input = Ok (d, rest)"
  show "input = rest @ opt_field CHR ''@'' d \<and> (if d = '''' then CHR ''@'' \<notin> set rest else imageDigestRe d)"
  proof (cases "last_index_byte CHR ''@'' input")
    case None
    with a show ?thesis by (auto simp: image_digest_def last_index_where_None)
  next
    case (Some i)
    with a last_index_byte_split [OF Some] show ?thesis
      by (auto simp: image_digest_def result_simps opt_field_def)
  qed
next
  assume a: "input = rest @ opt_field CHR ''@'' d \<and> (if d = '''' then CHR ''@'' \<notin> set rest else imageDigestRe d)"
  show "image_digest input = Ok (d, rest)"
  proof (cases "d = ''''")
    case True
    with a show ?thesis by (simp add: image_digest_def)
  next
    case False
    with a have "CHR ''@'' \<notin> set d" using digest_bytes byte_not by fastforce
    with a False show ?thesis by (simp add: image_digest_def opt_field_def last_index_byte_append)
  qed
qed

definition tag_position :: "string \<Rightarrow> bool" where
  "tag_position rest \<longleftrightarrow> (case last_index_byte CHR '':'' rest of None \<Rightarrow> False | Some i \<Rightarrow> slash_before rest i)"

lemma image_tag_Ok:
  "image_tag input rest = Ok (t, rest') \<longleftrightarrow>
     rest = rest' @ opt_field CHR '':'' t \<and> (if t = '''' then \<not> tag_position rest else imageTagRe t)"
proof
  assume a: "image_tag input rest = Ok (t, rest')"
  show "rest = rest' @ opt_field CHR '':'' t \<and> (if t = '''' then \<not> tag_position rest else imageTagRe t)"
  proof (cases "last_index_byte CHR '':'' rest")
    case None
    with a show ?thesis by (auto simp: image_tag_def tag_position_def)
  next
    case (Some i)
    with a last_index_byte_split [OF Some] show ?thesis
      by (auto simp: image_tag_def tag_position_def result_simps opt_field_def split: if_splits)
  qed
next
  assume a: "rest = rest' @ opt_field CHR '':'' t \<and> (if t = '''' then \<not> tag_position rest else imageTagRe t)"
  show "image_tag input rest = Ok (t, rest')"
  proof (cases "t = ''''")
    case True
    with a show ?thesis by (auto simp: image_tag_def tag_position_def split: option.splits)
  next
    case False
    with a have t: "imageTagRe t" and rest: "rest = rest' @ CHR '':'' # t" by (auto simp: opt_field_def)
    from t have no: "CHR '':'' \<notin> set t" "CHR ''/'' \<notin> set t"
      using tag_bytes [OF t, of "CHR '':''"] tag_bytes [OF t, of "CHR ''/''"] by (auto simp: AZaz09_def az09_def)
    have i: "last_index_byte CHR '':'' rest = Some (length rest')"
      unfolding rest using no by (rule_tac last_index_byte_append)
    have "slash_before rest (length rest')"
    proof (cases "last_index_byte CHR ''/'' rest")
      case (Some j)
      have "j < length rest'"
      proof (rule ccontr)
        assume "\<not> j < length rest'"
        moreover have "j < length rest" "rest ! j = CHR ''/''"
          using last_index_where_Some [OF Some] by auto
        ultimately have "CHR ''/'' \<in> set (CHR '':'' # t)"
          unfolding rest by (metis in_set_conv_nth length_append nat_add_left_cancel_less le_Suc_ex not_less nth_append_length_plus)
        with no show False by simp
      qed
      with Some show ?thesis by (simp add: slash_before_def)
    qed (simp add: slash_before_def)
    with i t False show ?thesis by (simp add: image_tag_def guards_Ok_iff) (simp add: rest)
  qed
qed

lemma image_registry_Ok:
  "image_registry input rest = Ok (g, repo) \<longleftrightarrow>
     rest = (if g \<noteq> '''' then g @ [CHR ''/''] else '''') @ repo \<and>
     (if g = '''' then \<not> (length (split_byte CHR ''/'' repo) > 1 \<and> isRegistryDomain (hd (split_byte CHR ''/'' repo)))
      else isRegistryDomain g \<and> imageRegistryRe g \<and> repo \<noteq> '''')"
proof
  let ?parts = "split_byte CHR ''/'' rest"
  assume a: "image_registry input rest = Ok (g, repo)"
  show "rest = (if g \<noteq> '''' then g @ [CHR ''/''] else '''') @ repo \<and>
     (if g = '''' then \<not> (length (split_byte CHR ''/'' repo) > 1 \<and> isRegistryDomain (hd (split_byte CHR ''/'' repo)))
      else isRegistryDomain g \<and> imageRegistryRe g \<and> repo \<noteq> '''')"
  proof (cases "length ?parts > 1 \<and> isRegistryDomain (?parts ! 0)")
    case True
    then obtain x xs where p: "?parts = x # xs" "xs \<noteq> []" by (cases ?parts) auto
    with a True have "g = x" "repo = join_byte CHR ''/'' xs" "imageRegistryRe x" "repo \<noteq> ''''" "isRegistryDomain x"
      by (auto simp: image_registry_def result_simps Let_def)
    moreover have "rest = x @ CHR ''/'' # join_byte CHR ''/'' xs"
      using join_split [of "CHR ''/''" rest] p by (cases xs) auto
    moreover have "x \<noteq> ''''" using True p by (auto simp: isRegistryDomain_def)
    ultimately show ?thesis by simp
  next
    case False
    with a have "g = ''''" "repo = rest" by (auto simp: image_registry_def Let_def)
    with False show ?thesis by (auto simp: hd_conv_nth)
  qed
next
  assume a: "rest = (if g \<noteq> '''' then g @ [CHR ''/''] else '''') @ repo \<and>
     (if g = '''' then \<not> (length (split_byte CHR ''/'' repo) > 1 \<and> isRegistryDomain (hd (split_byte CHR ''/'' repo)))
      else isRegistryDomain g \<and> imageRegistryRe g \<and> repo \<noteq> '''')"
  show "image_registry input rest = Ok (g, repo)"
  proof (cases "g = ''''")
    case True
    with a show ?thesis by (auto simp: image_registry_def Let_def hd_conv_nth)
  next
    case False
    with a have "CHR ''/'' \<notin> set g" using registry_bytes byte_not by fastforce
    with a False have "split_byte CHR ''/'' rest = g # split_byte CHR ''/'' repo"
      by (simp add: split_append_sep)
    with a False show ?thesis by (simp add: image_registry_def Let_def)
  qed
qed

section \<open>Parsing is the inverse of printing\<close>

lemma ImageRef_String_opt: "ImageRef_String r =
    (if Image_Registry r \<noteq> '''' then Image_Registry r @ [CHR ''/''] else '''') @ Image_Repository r @
    opt_field CHR '':'' (Image_Tag r) @ opt_field CHR ''@'' (Image_Digest r)"
  by (simp add: ImageRef_String_def opt_field_def)

lemma ParseImageRef_Ok:
  "ParseImageRef s = Ok r \<longleftrightarrow>
     s \<noteq> '''' \<and> \<not> hasControlChar s \<and>
     (\<exists>rest rest'. image_digest s = Ok (Image_Digest r, rest) \<and> rest \<noteq> '''' \<and>
        image_tag s rest = Ok (Image_Tag r, rest') \<and> rest' \<noteq> '''' \<and>
        image_registry s rest' = Ok (Image_Registry r, Image_Repository r) \<and>
        list_all imageRepoPartRe (split_byte CHR ''/'' (Image_Repository r)))"
  by (cases r) (auto simp: ParseImageRef_def result_simps list_all_iff split: if_splits)

text \<open>No tag is read out of a registry and a repository.\<close>

lemma no_tag_position:
  assumes "\<And>c. c \<in> set repo \<Longrightarrow> c \<noteq> CHR '':''"
  shows "\<not> tag_position ((if g \<noteq> '''' then g @ [CHR ''/''] else '''') @ repo)"
proof (cases "g = ''''")
  case True
  with assms have "CHR '':'' \<notin> set repo" by blast
  with True show ?thesis by (simp add: tag_position_def)
next
  case False
  let ?s = "g @ CHR ''/'' # repo"
  have s: "(if g \<noteq> '''' then g @ [CHR ''/''] else '''') @ repo = ?s" using False by simp
  have "\<not> slash_before ?s i" if i: "last_index_byte CHR '':'' ?s = Some i" for i
  proof -
    have at: "i < length ?s" "?s ! i = CHR '':''" using last_index_where_Some [OF i] by auto
    have "i < length g"
    proof (rule ccontr)
      assume n: "\<not> i < length g"
      then have "(CHR ''/'' # repo) ! (i - length g) = CHR '':''" "i - length g < length (CHR ''/'' # repo)"
        using at by (simp_all add: nth_append)
      then have "CHR '':'' \<in> set (CHR ''/'' # repo)" by (metis nth_mem)
      with assms show False by auto
    qed
    obtain j where j: "last_index_byte CHR ''/'' ?s = Some j"
      by (cases "last_index_byte CHR ''/'' ?s") (auto simp: last_index_where_None)
    have "\<not> j < length g"
    proof
      assume "j < length g"
      then have "CHR ''/'' \<in> set (drop (Suc j) ?s)" by simp
      with last_index_where_Some [OF j] show False by auto
    qed
    with \<open>i < length g\<close> j show ?thesis by (simp add: slash_before_def)
  qed
  then show ?thesis unfolding s by (auto simp: tag_position_def split: option.splits)
qed

lemma repository_bytes:
  "list_all imageRepoPartRe (split_byte CHR ''/'' repo) \<Longrightarrow> c \<in> set repo \<Longrightarrow> c = CHR ''/'' \<or> AZaz09 c \<or> c \<in> set ''_.-''"
proof -
  assume a: "list_all imageRepoPartRe (split_byte CHR ''/'' repo)" and c: "c \<in> set repo"
  have join: "c \<in> set (join_byte d xs) \<Longrightarrow> c = d \<or> (\<exists>x\<in>set xs. c \<in> set x)" for d xs
    by (induction d xs rule: join_byte.induct) auto
  have "c = CHR ''/'' \<or> (\<exists>x\<in>set (split_byte CHR ''/'' repo). c \<in> set x)"
    using c join [of "CHR ''/''" "split_byte CHR ''/'' repo"] by simp
  with a repo_bytes show ?thesis by (auto simp: list_all_iff)
qed

lemma repository_nonempty: "list_all imageRepoPartRe (split_byte CHR ''/'' repo) \<Longrightarrow> repo \<noteq> ''''"
  by (auto simp: imageRepoPartRe_def)

lemma ParseImageRef_Ok_iff: "ParseImageRef s = Ok r \<longleftrightarrow> ImageRef_String r = s \<and> image_wf r"
proof
  assume "ParseImageRef s = Ok r"
  then show "ImageRef_String r = s \<and> image_wf r"
    unfolding ParseImageRef_Ok image_digest_Ok image_tag_Ok image_registry_Ok image_wf_def
    by (auto simp: ImageRef_String_opt split: if_splits)
next
  assume a: "ImageRef_String r = s \<and> image_wf r"
  let ?g = "Image_Registry r" and ?repo = "Image_Repository r" and ?t = "Image_Tag r" and ?d = "Image_Digest r"
  let ?rest' = "(if ?g \<noteq> '''' then ?g @ [CHR ''/''] else '''') @ ?repo"
  let ?rest = "?rest' @ opt_field CHR '':'' ?t"
  have s: "s = ?rest @ opt_field CHR ''@'' ?d" using a by (simp add: ImageRef_String_opt split: if_splits)
  have repo: "list_all imageRepoPartRe (split_byte CHR ''/'' ?repo)" using a by (simp add: image_wf_def)
  have ne: "?repo \<noteq> ''''" using repo by (rule repository_nonempty)
  have rb: "c = CHR ''/'' \<or> image_byte c \<and> c \<noteq> CHR '':''" if "c \<in> set ?repo" for c
    using repository_bytes [OF repo that] by (auto simp: image_byte_def AZaz09_def az09_def)
  have gb: "image_byte c" if "c \<in> set ?g" for c
    using that a registry_bytes by (auto simp: image_wf_def split: if_splits)
  have tb: "image_byte c" if "c \<in> set ?t" for c
    using that a tag_bytes [of ?t c] by (auto simp: image_wf_def image_byte_def)
  have db: "image_byte c" if "c \<in> set ?d" for c
    using that a digest_bytes by (auto simp: image_wf_def)
  have ctl: "\<not> control_byte (CHR ''/'')" "\<not> control_byte (CHR '':'')" "\<not> control_byte (CHR ''@'')" by code_simp+
  have "\<not> control_byte c" if "c \<in> set s" for c
    using that rb [of c] gb [of c] tb [of c] db [of c] byte_not [of c] ctl unfolding s
    by (auto simp: opt_field_def split: if_splits)
  then have "\<not> hasControlChar s" by (auto simp: hasControlChar_def list_ex_iff)
  moreover have "CHR ''@'' \<notin> set ?rest"
    using rb [of "CHR ''@''"] gb [of "CHR ''@''"] tb [of "CHR ''@''"] byte_not [of "CHR ''@''"]
    by (auto simp: opt_field_def split: if_splits)
  moreover have "\<not> tag_position ?rest'" using rb by (intro no_tag_position) auto
  ultimately show "ParseImageRef s = Ok r"
    unfolding ParseImageRef_Ok image_digest_Ok image_tag_Ok image_registry_Ok
    using a ne repo s by (intro conjI exI [of _ ?rest] exI [of _ ?rest']) (auto simp: image_wf_def split: if_splits)
qed

section \<open>Properties\<close>

text \<open>Image references: the parser accepts a string with a result exactly when the result is
  well-formed (registry, repository components, tag and digest match their expressions, and a
  repository that has no registry does not begin with a component that would be read as one)
  and prints as that string.\<close>

theorem image_roundtrip: "ParseImageRef s = Ok r \<longleftrightarrow> ImageRef_String r = s \<and> image_wf r"
  by (rule ParseImageRef_Ok_iff)

end
