(* ===== verification/Inventory.thy ===== *)
theory Inventory
  imports Complex_Main Vocabulary
begin

text \<open>
  Inventory and vulnerability data (internal/domain: asset.go, component.go, naturalkey.go,
  vulnerability.go, evidence.go, neutralize.go): the aggregates with their constructors and
  guarded deactivation, the natural key of a component, and the neutralisation of CSV cells.
\<close>

section \<open>Assets\<close>

record Asset =
  Asset_ID :: string
  Asset_ExternalID :: string
  Asset_Source :: string
  Asset_Type :: AssetType
  Asset_Name :: string
  Asset_Environment :: Environment
  Asset_Criticality :: Criticality
  Asset_Exposure :: Exposure
  Asset_Owner :: string
  Asset_Deactivated :: bool
  Asset_Verified :: bool

definition NewAsset ::
  "string \<Rightarrow> string \<Rightarrow> string \<Rightarrow> string \<Rightarrow> string \<Rightarrow> AssetType \<Rightarrow> Environment \<Rightarrow> Criticality \<Rightarrow>
   Exposure \<Rightarrow> Asset result" where
  "NewAsset ident externalID source name owner ty env crit ex =
     guards [(ident = '''', EmptyField ''asset id''),
             (externalID = '''', EmptyField ''asset external_id''),
             (source = '''', EmptyField ''asset source''),
             (name = '''', EmptyField ''asset name''),
             (\<not> AssetType_Valid ty, InvalidValue ''AssetType'' (AssetType_str ty)),
             (\<not> Environment_Valid env, InvalidValue ''Environment'' (Environment_str env)),
             (\<not> Criticality_Valid crit, InvalidValue ''Criticality'' (Criticality_str crit)),
             (\<not> Exposure_Valid ex, InvalidValue ''Exposure'' (Exposure_str ex))]
       (Ok \<lparr>Asset_ID = ident, Asset_ExternalID = externalID, Asset_Source = source,
            Asset_Type = ty, Asset_Name = name, Asset_Environment = env,
            Asset_Criticality = crit, Asset_Exposure = ex, Asset_Owner = owner,
            Asset_Deactivated = False, Asset_Verified = False\<rparr>)"

definition Asset_Deactivate :: "Asset \<Rightarrow> Asset result" where
  "Asset_Deactivate a =
     (if Asset_Deactivated a then Err (BadState ''already deactivated'')
      else Ok (a\<lparr>Asset_Deactivated := True\<rparr>))"

definition Asset_Verify :: "Asset \<Rightarrow> Asset result" where
  "Asset_Verify a = Ok (a\<lparr>Asset_Verified := True\<rparr>)"

section \<open>The natural key\<close>

record ComponentIdentifiers =
  Ids_Vendor :: string
  Ids_Product :: string
  Ids_Version :: string
  Ids_CPE :: string
  Ids_PURL :: string
  Ids_Image :: string
  Ids_Digest :: string

definition naturalKeyCPE :: string where "naturalKeyCPE = ''cpe''"
definition naturalKeyPURL :: string where "naturalKeyPURL = ''purl''"
definition naturalKeyDigest :: string where "naturalKeyDigest = ''digest''"
definition naturalKeyImage :: string where "naturalKeyImage = ''image''"
definition naturalKeyVPP :: string where "naturalKeyVPP = ''vpp''"

abbreviation NUL :: char where "NUL \<equiv> CHR 0x00"

definition pickNormalised :: "unicode \<Rightarrow> string \<Rightarrow> string \<Rightarrow> string" where
  "pickNormalised U normed raw = (if normed \<noteq> '''' then normed else to_lower U (trim_space raw))"

definition naturalKeyTagInput :: "string \<Rightarrow> string \<Rightarrow> string" where
  "naturalKeyTagInput tag value = tag @ [NUL] @ value"

definition lengthPrefixed :: "string \<Rightarrow> string" where
  "lengthPrefixed s = [NUL] @ itoa (length s) @ CHR '':'' # s"

definition naturalKeyInput ::
  "unicode \<Rightarrow> ComponentIdentifiers \<Rightarrow> string \<Rightarrow> string \<Rightarrow> string \<Rightarrow> string result" where
  "naturalKeyInput U ids vendorNorm productNorm versionNorm =
     (let cpe = trim_space (Ids_CPE ids); purl = trim_space (Ids_PURL ids);
          digest = trim_space (Ids_Digest ids); image = trim_space (Ids_Image ids) in
      if cpe \<noteq> '''' then Ok (naturalKeyTagInput naturalKeyCPE (to_lower U cpe))
      else if purl \<noteq> '''' then Ok (naturalKeyTagInput naturalKeyPURL purl)
      else if digest \<noteq> '''' then Ok (naturalKeyTagInput naturalKeyDigest (to_lower U digest))
      else if image \<noteq> '''' then Ok (naturalKeyTagInput naturalKeyImage image)
      else
        (let vendor = pickNormalised U vendorNorm (Ids_Vendor ids);
             pname = pickNormalised U productNorm (Ids_Product ids);
             version = pickNormalised U versionNorm (Ids_Version ids) in
         if vendor = '''' \<or> pname = '''' then Err (EmptyField ''identifier'')
         else
           (let inp = naturalKeyTagInput naturalKeyVPP vendor @ lengthPrefixed pname
            in Ok (if version \<noteq> '''' then inp @ lengthPrefixed version else inp))))"

text \<open>The hash of the standard library, followed by the hexadecimal text, is a parameter.\<close>

definition componentNaturalKey ::
  "(string \<Rightarrow> string) \<Rightarrow> unicode \<Rightarrow> ComponentIdentifiers \<Rightarrow> string \<Rightarrow> string \<Rightarrow> string \<Rightarrow> string result" where
  "componentNaturalKey sha256_hex U ids vendorNorm productNorm versionNorm =
     rbind (naturalKeyInput U ids vendorNorm productNorm versionNorm) (\<lambda>inp. Ok (sha256_hex inp))"

definition ComponentNaturalKey ::
  "(string \<Rightarrow> string) \<Rightarrow> unicode \<Rightarrow> ComponentIdentifiers \<Rightarrow> string \<Rightarrow> string \<Rightarrow> string \<Rightarrow> string result" where
  "ComponentNaturalKey sha256_hex U ids vendorNorm productNorm versionNorm =
     componentNaturalKey sha256_hex U ids vendorNorm productNorm versionNorm"

section \<open>Components\<close>

record Component =
  Cmp_ID :: string
  Cmp_AssetID :: string
  Cmp_Vendor :: string
  Cmp_Product :: string
  Cmp_Version :: string
  Cmp_CPE :: string
  Cmp_PURL :: string
  Cmp_Image :: string
  Cmp_Digest :: string
  Cmp_VendorNorm :: string
  Cmp_ProductNorm :: string
  Cmp_VersionNorm :: string
  Cmp_VersionScheme :: VersionScheme
  Cmp_NaturalKey :: string
  Cmp_Deactivated :: bool

definition hasAnyIdentifier :: "ComponentIdentifiers \<Rightarrow> bool" where
  "hasAnyIdentifier ids =
     (if trim_space (Ids_CPE ids) \<noteq> '''' \<or> trim_space (Ids_PURL ids) \<noteq> '''' \<or>
         trim_space (Ids_Digest ids) \<noteq> '''' \<or> trim_space (Ids_Image ids) \<noteq> '''' then True
      else trim_space (Ids_Vendor ids) \<noteq> '''' \<and> trim_space (Ids_Product ids) \<noteq> '''')"

definition NewComponent ::
  "(string \<Rightarrow> string) \<Rightarrow> unicode \<Rightarrow> string \<Rightarrow> string \<Rightarrow> ComponentIdentifiers \<Rightarrow> string \<Rightarrow> string \<Rightarrow> string \<Rightarrow>
   VersionScheme \<Rightarrow> Component result" where
  "NewComponent sha256_hex U ident assetID ids vendorNorm productNorm versionNorm scheme =
     guards [(ident = '''', EmptyField ''component id''),
             (assetID = '''', EmptyField ''component asset_id''),
             (\<not> VersionScheme_Valid scheme, InvalidValue ''VersionScheme'' (VersionScheme_str scheme)),
             (\<not> hasAnyIdentifier ids, EmptyField ''component identifier'')]
       (rbind (wrap_err ''natural key'' (componentNaturalKey sha256_hex U ids vendorNorm productNorm versionNorm))
         (\<lambda>key. Ok
            \<lparr>Cmp_ID = ident, Cmp_AssetID = assetID, Cmp_Vendor = Ids_Vendor ids,
             Cmp_Product = Ids_Product ids, Cmp_Version = Ids_Version ids, Cmp_CPE = Ids_CPE ids,
             Cmp_PURL = Ids_PURL ids, Cmp_Image = Ids_Image ids, Cmp_Digest = Ids_Digest ids,
             Cmp_VendorNorm = vendorNorm, Cmp_ProductNorm = productNorm,
             Cmp_VersionNorm = versionNorm, Cmp_VersionScheme = scheme, Cmp_NaturalKey = key,
             Cmp_Deactivated = False\<rparr>))"

definition Component_Deactivate :: "Component \<Rightarrow> Component result" where
  "Component_Deactivate c =
     (if Cmp_Deactivated c then Err (BadState ''already deactivated'')
      else Ok (c\<lparr>Cmp_Deactivated := True\<rparr>))"

section \<open>Vulnerabilities and evidence\<close>

text \<open>Scores are finite \<open>float64\<close> values, compared exactly: rationals.\<close>

record CVSSMetrics =
  CVSS_Version :: string
  CVSS_BaseScore :: rat
  CVSS_BaseSeverity :: string
  CVSS_Vector :: string

definition CVSSMetrics_validate :: "CVSSMetrics \<Rightarrow> unit result" where
  "CVSSMetrics_validate m =
     guards [(CVSS_Version m = '''', EmptyField ''cvss version''),
             (CVSS_BaseScore m < 0 \<or> CVSS_BaseScore m > 10, OutOfRange ''cvss base score''),
             (CVSS_BaseSeverity m = '''', EmptyField ''cvss base_severity''),
             (CVSS_Vector m = '''', EmptyField ''cvss vector'')]
       (Ok ())"

record Reference =
  Ref_URL :: string
  Ref_Source :: string
  Ref_Tags :: "string list"

definition Reference_validate :: "Reference \<Rightarrow> unit result" where
  "Reference_validate r = (if Ref_URL r = '''' then Err (EmptyField ''url'') else Ok ())"

text \<open>A value of type \<open>any\<close> is \<open>None\<close> when nil; its contents are opaque to the domain.\<close>

record 'any Vulnerability =
  Vuln_ID :: string
  Vuln_CVEID :: string
  Vuln_Summary :: string
  Vuln_Description :: string
  Vuln_CVSS :: "CVSSMetrics option"
  Vuln_References :: "Reference list"
  Vuln_CPECfg :: "'any option"

definition NewVulnerability ::
  "string \<Rightarrow> string \<Rightarrow> string \<Rightarrow> string \<Rightarrow> CVSSMetrics option \<Rightarrow> Reference list \<Rightarrow> 'any option \<Rightarrow>
   'any Vulnerability result" where
  "NewVulnerability ident cveID summary description cvss references cpeConfig =
     guards [(ident = '''', EmptyField ''vulnerability id''),
             (cveID = '''', EmptyField ''vulnerability cve_id'')]
       (rbind (case cvss of None \<Rightarrow> Ok () | Some m \<Rightarrow> wrap_err ''vulnerability cvss'' (CVSSMetrics_validate m))
         (\<lambda>_. rbind (each (\<lambda>r. wrap_err ''vulnerability reference'' (Reference_validate r)) references)
           (\<lambda>_. Ok \<lparr>Vuln_ID = ident, Vuln_CVEID = cveID, Vuln_Summary = summary,
                   Vuln_Description = description, Vuln_CVSS = cvss,
                   Vuln_References = references, Vuln_CPECfg = cpeConfig\<rparr>)))"

record 'any Evidence =
  Ev_ID :: string
  Ev_VulnerabilityID :: string
  Ev_RawRecordID :: string
  Ev_Type :: EvidenceType
  Ev_Value :: "'any option"
  Ev_ValueHash :: string

definition NewEvidence ::
  "string \<Rightarrow> string \<Rightarrow> string \<Rightarrow> EvidenceType \<Rightarrow> 'any option \<Rightarrow> string \<Rightarrow> 'any Evidence result" where
  "NewEvidence ident vulnerabilityID rawRecordID ty value valueHash =
     guards [(ident = '''', EmptyField ''evidence id''),
             (vulnerabilityID = '''', EmptyField ''evidence vulnerability_id''),
             (rawRecordID = '''', EmptyField ''evidence raw_record_id''),
             (\<not> EvidenceType_Valid ty, InvalidValue ''EvidenceType'' (EvidenceType_str ty)),
             (value = None, EmptyField ''evidence value''),
             (valueHash = '''', EmptyField ''evidence value_hash'')]
       (Ok \<lparr>Ev_ID = ident, Ev_VulnerabilityID = vulnerabilityID, Ev_RawRecordID = rawRecordID,
            Ev_Type = ty, Ev_Value = value, Ev_ValueHash = valueHash\<rparr>)"

section \<open>CSV cells\<close>

text \<open>
  The first rune of a non-empty string is one of these ASCII characters exactly when its first
  byte is: the bytes of a longer encoding are all above 127.
\<close>

definition formula_prefixes :: string where
  "formula_prefixes = [CHR ''='', CHR ''+'', CHR ''-'', CHR ''@'', CHR 0x09, CHR 0x0D]"

fun NeutralizeCSVField :: "string \<Rightarrow> string" where
  "NeutralizeCSVField [] = []"
| "NeutralizeCSVField (r # s) =
     (if r \<in> set formula_prefixes then CHR 0x27 # r # s else r # s)"

section \<open>Lemmas on the natural key\<close>

text \<open>What the key is meant to identify: one kind of identifier with its value.\<close>

datatype key_identity =
    KeyCPE string
  | KeyPURL string
  | KeyDigest string
  | KeyImage string
  | KeyVPP string string "string option"

fun encode_key :: "key_identity \<Rightarrow> string" where
  "encode_key (KeyCPE v) = naturalKeyTagInput naturalKeyCPE v"
| "encode_key (KeyPURL v) = naturalKeyTagInput naturalKeyPURL v"
| "encode_key (KeyDigest v) = naturalKeyTagInput naturalKeyDigest v"
| "encode_key (KeyImage v) = naturalKeyTagInput naturalKeyImage v"
| "encode_key (KeyVPP vendor pname version) =
     naturalKeyTagInput naturalKeyVPP vendor @ lengthPrefixed pname @
     (case version of None \<Rightarrow> [] | Some v \<Rightarrow> lengthPrefixed v)"

definition component_identity ::
  "unicode \<Rightarrow> ComponentIdentifiers \<Rightarrow> string \<Rightarrow> string \<Rightarrow> string \<Rightarrow> key_identity option" where
  "component_identity U ids vendorNorm productNorm versionNorm =
     (if trim_space (Ids_CPE ids) \<noteq> '''' then Some (KeyCPE (to_lower U (trim_space (Ids_CPE ids))))
      else if trim_space (Ids_PURL ids) \<noteq> '''' then Some (KeyPURL (trim_space (Ids_PURL ids)))
      else if trim_space (Ids_Digest ids) \<noteq> '''' then Some (KeyDigest (to_lower U (trim_space (Ids_Digest ids))))
      else if trim_space (Ids_Image ids) \<noteq> '''' then Some (KeyImage (trim_space (Ids_Image ids)))
      else if pickNormalised U vendorNorm (Ids_Vendor ids) = '''' \<or>
              pickNormalised U productNorm (Ids_Product ids) = '''' then None
      else Some (KeyVPP (pickNormalised U vendorNorm (Ids_Vendor ids))
             (pickNormalised U productNorm (Ids_Product ids))
             (let v = pickNormalised U versionNorm (Ids_Version ids)
              in if v = '''' then None else Some v)))"

lemma naturalKeyInput_identity:
  "naturalKeyInput U ids vn pn ven = Ok s \<longleftrightarrow> map_option encode_key (component_identity U ids vn pn ven) = Some s"
  by (auto simp: naturalKeyInput_def component_identity_def Let_def)

lemma lengthPrefixed_inj:
  assumes "lengthPrefixed a @ x = lengthPrefixed b @ y"
  shows "a = b \<and> x = y"
proof -
  let ?A = "itoa (length a)" and ?B = "itoa (length b)"
  have nc: "CHR '':'' \<notin> set (itoa n)" for n
    using itoa_digits [of n] by (auto simp: all_digits_def list_all_iff is_digit_def)
  have e: "?A @ CHR '':'' # a @ x = ?B @ CHR '':'' # b @ y"
    using assms by (simp add: lengthPrefixed_def)
  have "Some (length ?A) = Some (length ?B)"
    using index_byte_append [OF nc [of "length a"], of "a @ x"]
      index_byte_append [OF nc [of "length b"], of "b @ y"] e by simp
  with e have "?A = ?B" "a @ x = b @ y" by (simp_all add: append_eq_append_conv)
  then show ?thesis using itoa_inj [of "length a" "length b"] by simp
qed

fun no_nul_vendor :: "key_identity \<Rightarrow> bool" where
  "no_nul_vendor (KeyVPP vendor _ _) = (NUL \<notin> set vendor)"
| "no_nul_vendor _ = True"

lemma tag_separates:
  assumes "naturalKeyTagInput t v @ x = naturalKeyTagInput u w @ y" "NUL \<notin> set t" "NUL \<notin> set u"
  shows "t = u \<and> v @ x = w @ y"
proof -
  have e: "t @ NUL # v @ x = u @ NUL # w @ y" using assms(1) by (simp add: naturalKeyTagInput_def)
  have "Some (length t) = Some (length u)"
    using index_byte_append [OF assms(2), of "v @ x"] index_byte_append [OF assms(3), of "w @ y"] e
    by simp
  with e show ?thesis by (simp add: append_eq_append_conv)
qed

lemmas natural_key_tags = naturalKeyCPE_def naturalKeyPURL_def naturalKeyDigest_def
  naturalKeyImage_def naturalKeyVPP_def

text \<open>The tag of an encoding, and what follows its first NUL.\<close>

fun key_tag :: "key_identity \<Rightarrow> string" where
  "key_tag (KeyCPE _) = naturalKeyCPE"
| "key_tag (KeyPURL _) = naturalKeyPURL"
| "key_tag (KeyDigest _) = naturalKeyDigest"
| "key_tag (KeyImage _) = naturalKeyImage"
| "key_tag (KeyVPP _ _ _) = naturalKeyVPP"

fun key_body :: "key_identity \<Rightarrow> string" where
  "key_body (KeyCPE v) = v"
| "key_body (KeyPURL v) = v"
| "key_body (KeyDigest v) = v"
| "key_body (KeyImage v) = v"
| "key_body (KeyVPP vendor pname version) =
     vendor @ lengthPrefixed pname @ (case version of None \<Rightarrow> [] | Some v \<Rightarrow> lengthPrefixed v)"

lemma encode_key_split: "encode_key k = naturalKeyTagInput (key_tag k) (key_body k)"
  by (cases k) (simp_all add: naturalKeyTagInput_def)

lemma key_tag_no_nul: "NUL \<notin> set (key_tag k)"
  by (cases k) (simp_all add: natural_key_tags)

lemma vpp_body_inj:
  assumes "key_body (KeyVPP v p m) = key_body (KeyVPP w q n)" "NUL \<notin> set v" "NUL \<notin> set w"
  shows "v = w \<and> p = q \<and> m = n"
proof -
  let ?x = "\<lambda>m. case m of None \<Rightarrow> [] | Some v \<Rightarrow> lengthPrefixed v"
  have h: "lengthPrefixed p @ ?x m = NUL # tl (lengthPrefixed p) @ ?x m"
    "lengthPrefixed q @ ?x n = NUL # tl (lengthPrefixed q) @ ?x n"
    by (simp_all add: lengthPrefixed_def)
  have e: "v @ lengthPrefixed p @ ?x m = w @ lengthPrefixed q @ ?x n" using assms(1) by simp
  have "Some (length v) = Some (length w)"
    using index_byte_append [OF assms(2), of "tl (lengthPrefixed p) @ ?x m"]
      index_byte_append [OF assms(3), of "tl (lengthPrefixed q) @ ?x n"] e unfolding h by simp
  with e have vw: "v = w" "lengthPrefixed p @ ?x m = lengthPrefixed q @ ?x n"
    by (simp_all add: append_eq_append_conv)
  from lengthPrefixed_inj [OF vw(2)] have pq: "p = q" "?x m = ?x n" by simp_all
  have "lengthPrefixed s \<noteq> []" for s by (simp add: lengthPrefixed_def)
  moreover have "lengthPrefixed s = lengthPrefixed t \<Longrightarrow> s = t" for s t
    using lengthPrefixed_inj [of s "[]" t "[]"] by simp
  ultimately have "m = n" using pq(2) by (cases m; cases n) (auto, metis)
  with vw pq show ?thesis by simp
qed

lemma encode_key_inj:
  assumes "encode_key k = encode_key l" "no_nul_vendor k" "no_nul_vendor l"
  shows "k = l"
proof -
  have tb: "key_tag k = key_tag l" "key_body k = key_body l"
    using tag_separates [of "key_tag k" "key_body k" "[]" "key_tag l" "key_body l" "[]"] assms(1)
      key_tag_no_nul [of k] key_tag_no_nul [of l] by (simp_all add: encode_key_split)
  show ?thesis
  proof (cases k)
    case (KeyVPP v p m)
    then obtain w q n where l: "l = KeyVPP w q n" using tb(1) by (cases l) (auto simp: natural_key_tags)
    then show ?thesis using KeyVPP tb(2) assms(2,3) vpp_body_inj [of v p m w q n] by simp
  qed (use tb in \<open>cases l; simp add: natural_key_tags\<close>)+
qed

text \<open>A component that carries an identifier has a key, if lower-casing leaves something.\<close>

definition lower_keeps :: "unicode \<Rightarrow> bool" where
  "lower_keeps U \<longleftrightarrow> (\<forall>s. s \<noteq> [] \<longrightarrow> uni_lower U s \<noteq> [])"

lemma to_lower_nonempty: "lower_keeps U \<Longrightarrow> s \<noteq> [] \<Longrightarrow> to_lower U s \<noteq> []"
  by (simp add: to_lower_def lower_keeps_def)

lemma pickNormalised_nonempty:
  "lower_keeps U \<Longrightarrow> trim_space raw \<noteq> [] \<Longrightarrow> pickNormalised U normed raw \<noteq> []"
  by (simp add: pickNormalised_def to_lower_nonempty)

lemma identifier_has_key:
  assumes "lower_keeps U" "hasAnyIdentifier ids"
  shows "is_ok (naturalKeyInput U ids vn pn ven)"
proof -
  have "component_identity U ids vn pn ven \<noteq> None"
    using assms pickNormalised_nonempty [OF assms(1)]
    by (auto simp: component_identity_def hasAnyIdentifier_def split: if_splits)
  then show ?thesis by (auto simp: is_ok_iff naturalKeyInput_identity)
qed

section \<open>Properties\<close>

text \<open>The natural key separates identities. When two components have the same hash input, they
  are identified by the same kind of identifier with the same normalised value, the version part
  included or absent in both; for the vendor/product fallback this needs a vendor without NUL
  bytes.\<close>

theorem natural_key_separates:
  assumes "naturalKeyInput U ids vn pn ven = Ok s" "naturalKeyInput U ids' vn' pn' ven' = Ok s"
    and "pred_option no_nul_vendor (component_identity U ids vn pn ven)"
    and "pred_option no_nul_vendor (component_identity U ids' vn' pn' ven')"
  shows "component_identity U ids vn pn ven = component_identity U ids' vn' pn' ven'"
proof -
  obtain k l where "component_identity U ids vn pn ven = Some k" "encode_key k = s"
    "component_identity U ids' vn' pn' ven' = Some l" "encode_key l = s"
    using assms(1,2) unfolding naturalKeyInput_identity by blast
  with assms(3,4) encode_key_inj [of k l] show ?thesis by simp
qed

definition ex_ids :: ComponentIdentifiers where
  "ex_ids = \<lparr>Ids_Vendor = ''Acme'', Ids_Product = ''Tool'', Ids_Version = '''', Ids_CPE = '''',
     Ids_PURL = '''', Ids_Image = '''', Ids_Digest = ''''\<rparr>"

lemma ex_ids_identity:
  "component_identity U ex_ids ''acme'' ''tool'' ''1'' = Some (KeyVPP ''acme'' ''tool'' (Some ''1''))"
  by (simp add: component_identity_def ex_ids_def pickNormalised_def)

theorem natural_key_separates_witness:
  "naturalKeyInput plain_unicode ex_ids ''acme'' ''tool'' ''1'' \<noteq> naturalKeyInput plain_unicode (ex_ids\<lparr>Ids_Product := ''x''\<rparr>) ''acme'' ''too'' ''l''"
proof
  have i: "component_identity plain_unicode (ex_ids\<lparr>Ids_Product := ''x''\<rparr>) ''acme'' ''too'' ''l'' =
      Some (KeyVPP ''acme'' ''too'' (Some ''l''))"
    by (simp add: component_identity_def ex_ids_def pickNormalised_def)
  obtain s where s: "naturalKeyInput plain_unicode ex_ids ''acme'' ''tool'' ''1'' = Ok s"
    using ex_ids_identity [of plain_unicode] by (simp add: naturalKeyInput_identity)
  assume "naturalKeyInput plain_unicode ex_ids ''acme'' ''tool'' ''1'' =
    naturalKeyInput plain_unicode (ex_ids\<lparr>Ids_Product := ''x''\<rparr>) ''acme'' ''too'' ''l''"
  with natural_key_separates [OF s, of "ex_ids\<lparr>Ids_Product := ''x''\<rparr>" "''acme''" "''too''" "''l''"] s
  show False by (simp add: ex_ids_identity i)
qed

text \<open>Without that restriction the fallback key is ambiguous: the vendor is not length-prefixed,
  so a vendor that contains a NUL byte can absorb the product part, and two different
  vendor/product/version triples get the same hash input.\<close>

theorem natural_key_collision:
  "naturalKeyInput U ex_ids (''a'' @ [NUL] @ ''1:b'') ''c'' '''' = naturalKeyInput U ex_ids ''a'' ''b'' ''c'' \<and>
   is_ok (naturalKeyInput U ex_ids ''a'' ''b'' ''c'') \<and>
   component_identity U ex_ids (''a'' @ [NUL] @ ''1:b'') ''c'' '''' \<noteq> component_identity U ex_ids ''a'' ''b'' ''c''"
proof -
  have v: "pickNormalised U '''' '''' = ''''" by (simp add: pickNormalised_def to_lower_def is_ascii_def)
  have "itoa 1 = ''1''" by code_simp
  then show ?thesis
    by (simp add: naturalKeyInput_def component_identity_def ex_ids_def v Let_def pickNormalised_def
        naturalKeyTagInput_def lengthPrefixed_def to_lower_def is_ascii_def)
qed

text \<open>C40: A component is accepted exactly when its ids are present, its scheme known and it carries an
  identifier: the derivation of the natural key never fails after these checks. (Lower-casing must
  not erase a non-empty string, which the documentation of \<open>strings.ToLower\<close> grants: it maps
  letter by letter.)\<close>

theorem component_accepted_iff:
  assumes "lower_keeps U"
  shows "is_ok (NewComponent h U ident asset ids vn pn ven scheme) \<longleftrightarrow>
    ident \<noteq> '''' \<and> asset \<noteq> '''' \<and> VersionScheme_Valid scheme \<and> hasAnyIdentifier ids"
proof (cases "hasAnyIdentifier ids")
  case True
  then obtain inp where "naturalKeyInput U ids vn pn ven = Ok inp"
    using identifier_has_key [OF assms True, of vn pn ven] by (auto simp: is_ok_iff)
  then show ?thesis using True by (simp add: NewComponent_def componentNaturalKey_def)
next
  case False
  then show ?thesis by (simp add: NewComponent_def)
qed

theorem component_accepted_iff_witness:
  "is_ok (NewComponent (\<lambda>s. s) plain_unicode ''c'' ''a'' ex_ids '''' '''' '''' VersionSchemeUnknown)"
proof -
  have "lower_keeps plain_unicode" by (simp add: lower_keeps_def plain_unicode_def)
  moreover have "hasAnyIdentifier ex_ids" by code_simp
  ultimately show ?thesis using component_accepted_iff [of plain_unicode] by simp
qed

text \<open>CSV cells are safe and stable. The neutralised cell never starts with a formula character,
  neutralising it again changes nothing, and it is the original cell, with an apostrophe before it
  exactly when the original starts with a formula character.\<close>

theorem csv_cell_safe:
  "NeutralizeCSVField (NeutralizeCSVField s) = NeutralizeCSVField s \<and>
   (NeutralizeCSVField s = [] \<or> hd (NeutralizeCSVField s) \<notin> set formula_prefixes) \<and>
   NeutralizeCSVField s = (if s \<noteq> [] \<and> hd s \<in> set formula_prefixes then CHR 0x27 # s else s)"
  by (cases s) (auto simp: formula_prefixes_def)

end
