(* ===== verification/VersionOrder.thy ===== *)
theory VersionOrder
  imports Vocabulary "HOL-Library.Product_Lexorder"
begin

text \<open>
  Version semantics (internal/domain/version_strategy.go), first part: orderings, the contract
  of a version comparator, ranges, the numeric helpers, and the semver and calver schemes.
\<close>

section \<open>Orderings\<close>

datatype Ordering = OrderingLess | OrderingEqual | OrderingGreater

text \<open>The values are -1, 0 and 1: ordered as listed, and negation swaps the arguments.\<close>

instantiation Ordering :: "{linorder, uminus}"
begin

fun ordering_value :: "Ordering \<Rightarrow> int" where
  "ordering_value OrderingLess = -1"
| "ordering_value OrderingEqual = 0"
| "ordering_value OrderingGreater = 1"

definition less_eq_Ordering :: "Ordering \<Rightarrow> Ordering \<Rightarrow> bool" where
  "less_eq_Ordering x y \<longleftrightarrow> ordering_value x \<le> ordering_value y"

definition less_Ordering :: "Ordering \<Rightarrow> Ordering \<Rightarrow> bool" where
  "less_Ordering x y \<longleftrightarrow> ordering_value x < ordering_value y"

fun uminus_Ordering :: "Ordering \<Rightarrow> Ordering" where
  "uminus_Ordering OrderingLess = OrderingGreater"
| "uminus_Ordering OrderingEqual = OrderingEqual"
| "uminus_Ordering OrderingGreater = OrderingLess"

instance
proof
  fix x y :: Ordering
  show "x \<le> y \<Longrightarrow> y \<le> x \<Longrightarrow> x = y" by (cases x; cases y) (simp_all add: less_eq_Ordering_def)
qed (auto simp: less_eq_Ordering_def less_Ordering_def)

end

lemma Ordering_le_simps [simp]:
  "OrderingLess \<le> x" "x \<le> OrderingGreater" "x \<le> OrderingEqual \<longleftrightarrow> x \<noteq> OrderingGreater"
  "OrderingGreater \<le> x \<longleftrightarrow> x = OrderingGreater" "x \<le> OrderingLess \<longleftrightarrow> x = OrderingLess"
  "OrderingEqual \<le> x \<longleftrightarrow> x \<noteq> OrderingLess"
  by (cases x; simp add: less_eq_Ordering_def)+

lemma Ordering_minus_minus [simp]: "- (- (x :: Ordering)) = x"
  by (cases x) simp_all

lemma Ordering_minus_iff [simp]:
  "- x = OrderingLess \<longleftrightarrow> x = OrderingGreater" "- x = OrderingGreater \<longleftrightarrow> x = OrderingLess"
  "- x = OrderingEqual \<longleftrightarrow> x = OrderingEqual"
  by (cases x; simp)+

fun Ordering_String :: "Ordering \<Rightarrow> string" where
  "Ordering_String OrderingLess = ''<''"
| "Ordering_String OrderingGreater = ''>''"
| "Ordering_String OrderingEqual = ''=''"

definition orderFromSign :: "int \<Rightarrow> Ordering" where
  "orderFromSign sign = (if sign < 0 then OrderingLess else if sign > 0 then OrderingGreater else OrderingEqual)"

text \<open>The ordering of two elements of a linear order, and one ordering after another.\<close>

definition ord_of :: "'a::linorder \<Rightarrow> 'a \<Rightarrow> Ordering" where
  "ord_of x y = (if x < y then OrderingLess else if y < x then OrderingGreater else OrderingEqual)"

definition and_then :: "Ordering \<Rightarrow> Ordering \<Rightarrow> Ordering" where
  "and_then x y = (if x \<noteq> OrderingEqual then x else y)"

lemma ord_of_simps [simp]:
  "ord_of x x = OrderingEqual" "- ord_of x y = ord_of y x"
  "ord_of x y = OrderingEqual \<longleftrightarrow> x = y" "ord_of x y = OrderingLess \<longleftrightarrow> x < y"
  "ord_of x y = OrderingGreater \<longleftrightarrow> y < x"
  by (auto simp: ord_of_def)

lemma orderFromSign_flip: "orderFromSign (- x) = - orderFromSign x"
  by (simp add: orderFromSign_def)

lemma orderFromSign_diff: "orderFromSign (x - y) = ord_of x y"
  by (auto simp: orderFromSign_def ord_of_def)

lemma and_then_flip: "- and_then x y = and_then (- x) (- y)"
  by (cases x) (simp_all add: and_then_def)

lemma and_then_ord_of: "and_then (ord_of x y) (ord_of v w) = ord_of (x, v) (y, w)"
  by (auto simp: and_then_def ord_of_def)

lemma ord_of_Cons: "ord_of (x # xs) (y # ys) = and_then (ord_of x y) (ord_of xs ys)"
  by (auto simp: ord_of_def and_then_def)

section \<open>The contract of a comparator\<close>

text \<open>
  What the range evaluation relies on: a comparator decides exactly on pairs of versions its
  scheme can parse, finds a version equal to itself, and swapping the arguments negates the
  result. A scheme that orders its versions is transitive as well.
\<close>

locale version_order =
  fixes compare :: "string \<Rightarrow> string \<Rightarrow> Ordering result"
    and parses :: "string \<Rightarrow> bool"
  assumes decides: "is_ok (compare a b) \<longleftrightarrow> parses a \<and> parses b"
    and refl: "parses a \<Longrightarrow> compare a a = Ok OrderingEqual"
    and flip: "compare a b = Ok c \<Longrightarrow> compare b a = Ok (- c)"
begin

lemma decides_Ok: "parses a \<Longrightarrow> parses b \<Longrightarrow> \<exists>c. compare a b = Ok c"
  using decides [of a b] by (simp add: is_ok_iff)

lemma decides_parses: "compare a b = Ok c \<Longrightarrow> parses a \<and> parses b"
  using decides [of a b] by simp

lemma never_both: "compare a b = Ok OrderingLess \<Longrightarrow> compare b a \<noteq> Ok OrderingLess"
  using flip by fastforce

end

locale version_preorder = version_order +
  assumes trans: "compare a b = Ok x \<Longrightarrow> compare b c = Ok y \<Longrightarrow> x \<le> OrderingEqual \<Longrightarrow> y \<le> OrderingEqual \<Longrightarrow>
    compare a c = Ok (min x y)"
begin

lemma equal_trans:
  "compare a b = Ok OrderingEqual \<Longrightarrow> compare b c = Ok OrderingEqual \<Longrightarrow> compare a c = Ok OrderingEqual"
  using trans [of a b OrderingEqual c OrderingEqual] by simp

lemma equal_subst: "compare a b = Ok OrderingEqual \<Longrightarrow> compare b c = Ok y \<Longrightarrow> compare a c = Ok y"
proof -
  assume ab: "compare a b = Ok OrderingEqual" and bc: "compare b c = Ok y"
  show "compare a c = Ok y"
  proof (cases "y \<le> OrderingEqual")
    case True
    then have "min OrderingEqual y = y" by (simp add: min_absorb2)
    with trans [OF ab bc _ True] show ?thesis by simp
  next
    case False
    then have y: "y = OrderingGreater" by simp
    have "compare c b = Ok OrderingLess" "compare b a = Ok OrderingEqual"
      using flip [OF bc] flip [OF ab] y by simp_all
    from trans [OF this] have "compare c a = Ok OrderingLess" by (simp add: min_def)
    from flip [OF this] show ?thesis by (simp add: y)
  qed
qed

end

text \<open>A comparator that compares keys of parsed versions in a linear order is such an order.\<close>

locale keyed_order =
  fixes compare :: "string \<Rightarrow> string \<Rightarrow> Ordering result"
    and parse :: "string \<Rightarrow> 'v result"
    and key :: "'v \<Rightarrow> 'k::linorder"
  assumes compare_keys: "parse a = Ok v \<Longrightarrow> parse b = Ok w \<Longrightarrow> compare a b = Ok (ord_of (key v) (key w))"
    and compare_fails: "\<not> is_ok (parse a) \<or> \<not> is_ok (parse b) \<Longrightarrow> \<not> is_ok (compare a b)"
begin

lemma compare_Ok: "compare a b = Ok c \<Longrightarrow>
    \<exists>v w. parse a = Ok v \<and> parse b = Ok w \<and> c = ord_of (key v) (key w)"
  using compare_keys compare_fails [of a b]
  by (cases "parse a"; cases "parse b") auto

end

sublocale keyed_order \<subseteq> version_preorder compare "\<lambda>s. is_ok (parse s)"
proof
  show "is_ok (compare a b) \<longleftrightarrow> is_ok (parse a) \<and> is_ok (parse b)" for a b
    using compare_keys compare_fails [of a b] by (cases "parse a"; cases "parse b") auto
  show "is_ok (parse a) \<Longrightarrow> compare a a = Ok OrderingEqual" for a
    using compare_keys by (auto simp: is_ok_iff)
  show "compare a b = Ok c \<Longrightarrow> compare b a = Ok (- c)" for a b c
    using compare_Ok compare_keys by fastforce
  show "compare a b = Ok x \<Longrightarrow> compare b c = Ok y \<Longrightarrow> x \<le> OrderingEqual \<Longrightarrow> y \<le> OrderingEqual \<Longrightarrow>
    compare a c = Ok (min x y)" for a b c x y
  proof -
    assume "compare a b = Ok x" "compare b c = Ok y" "x \<le> OrderingEqual" "y \<le> OrderingEqual"
    then obtain u v w where "parse a = Ok u" "parse b = Ok v" "parse c = Ok w"
      "x = ord_of (key u) (key v)" "y = ord_of (key v) (key w)" "key u \<le> key v" "key v \<le> key w"
      using compare_Ok [of a b x] compare_Ok [of b c y] by auto
    then show ?thesis
      using compare_keys [of a u c w] by (auto simp: ord_of_def min_def)
  qed
qed

section \<open>Strategies and ranges\<close>

record versionStrategy =
  strategy_scheme :: VersionScheme
  strategy_compare :: "string \<Rightarrow> string \<Rightarrow> Ordering result"

definition unknownVersionStrategy :: versionStrategy where
  "unknownVersionStrategy =
     \<lparr>strategy_scheme = VersionSchemeUnknown,
      strategy_compare = (\<lambda>a b. Err (BadState ''version scheme unknown''))\<rparr>"

record VersionRange =
  Range_Start :: string
  Range_StartIncluding :: bool
  Range_End :: string
  Range_EndIncluding :: bool

definition inVersionRange :: "string \<Rightarrow> VersionRange \<Rightarrow> versionStrategy \<Rightarrow> bool result" where
  "inVersionRange version rng strategy =
     (if trim_space version = '''' then Err (EmptyField ''version'')
      else if Range_Start rng = '''' \<and> Range_End rng = '''' then Ok True
      else
        rbind
          (if Range_Start rng \<noteq> '''' then
             rbind (wrap_err ''start bound'' (strategy_compare strategy version (Range_Start rng)))
               (\<lambda>res. Ok (if Range_StartIncluding rng then res \<noteq> OrderingLess
                          else res = OrderingGreater))
           else Ok True)
          (\<lambda>start_ok.
             if \<not> start_ok then Ok False
             else if Range_End rng \<noteq> '''' then
               rbind (wrap_err ''end bound'' (strategy_compare strategy version (Range_End rng)))
                 (\<lambda>res. Ok (if Range_EndIncluding rng then res \<noteq> OrderingGreater
                            else res = OrderingLess))
             else Ok True))"

definition strategy_Contains :: "versionStrategy \<Rightarrow> string \<Rightarrow> VersionRange \<Rightarrow> bool result" where
  "strategy_Contains s version rng = inVersionRange version rng s"

definition InRange :: "string \<Rightarrow> VersionRange \<Rightarrow> versionStrategy \<Rightarrow> bool result" where
  "InRange version rng strategy = inVersionRange version rng strategy"

section \<open>Numeric helpers\<close>

definition compareDigitStrings :: "string \<Rightarrow> string \<Rightarrow> Ordering" where
  "compareDigitStrings a b =
     (let aa = trim_zeros a; bb = trim_zeros b;
          aa = (if aa = '''' then ''0'' else aa);
          bb = (if bb = '''' then ''0'' else bb)
      in if length aa < length bb then OrderingLess
         else if length aa > length bb then OrderingGreater
         else if aa < bb then OrderingLess
         else if aa > bb then OrderingGreater
         else OrderingEqual)"

definition isDigits :: "string \<Rightarrow> bool" where
  "isDigits s = (if s = '''' then False else list_all (\<lambda>c. \<not> (c < CHR ''0'' \<or> c > CHR ''9'')) s)"

definition isASCIIDigitByte :: "char \<Rightarrow> bool" where
  "isASCIIDigitByte b \<longleftrightarrow> b \<ge> CHR ''0'' \<and> b \<le> CHR ''9''"

lemma isDigits_all_digits: "isDigits s \<longleftrightarrow> all_digits s"
  by (simp add: isDigits_def all_digits_def is_digit_def not_less list_all_iff)

lemma isASCIIDigitByte_iff [simp]: "isASCIIDigitByte b \<longleftrightarrow> is_digit b"
  by (simp add: isASCIIDigitByte_def is_digit_def)

text \<open>Digit strings of any length compare as the numbers they denote.\<close>

lemma compareDigitStrings_val:
  assumes "list_all is_digit a" "list_all is_digit b"
  shows "compareDigitStrings a b = ord_of (digits_val a) (digits_val b)"
proof -
  define norm where "norm s = (if trim_zeros s = '''' then ''0'' else trim_zeros s)" for s
  have n: "list_all is_digit (norm s)" "digits_val (norm s) = digits_val s" "norm s \<noteq> []"
    "length (norm s) > 1 \<Longrightarrow> hd (norm s) \<noteq> CHR ''0''" if "list_all is_digit s" for s
    using trim_zeros_props [OF that]
    by (auto simp: norm_def is_digit_def digits_val_Cons digit_val_def split: if_splits)
  note na = n [OF assms(1)] and nb = n [OF assms(2)]
  have lt: "digits_val s < digits_val t" if "list_all is_digit s" "list_all is_digit t"
    "length (norm s) < length (norm t)" for s t
    using digits_shorter_less [of "norm s" "norm t"] n [OF that(1)] n [OF that(2)] that(3)
    by (cases "norm s") auto
  have c: "compareDigitStrings a b =
      (if length (norm a) < length (norm b) then OrderingLess
       else if length (norm a) > length (norm b) then OrderingGreater
       else ord_of (norm a) (norm b))"
    by (simp add: compareDigitStrings_def norm_def Let_def ord_of_def)
  consider "length (norm a) < length (norm b)" | "length (norm b) < length (norm a)"
    | "length (norm a) = length (norm b)" by linarith
  then show ?thesis
  proof cases
    case 1
    with lt [OF assms] show ?thesis by (simp add: c ord_of_def)
  next
    case 2
    with lt [OF assms(2,1)] show ?thesis by (simp add: c ord_of_def)
  next
    case 3
    then show ?thesis
      using digits_less_iff [of "norm a" "norm b"] digits_less_iff [of "norm b" "norm a"] na nb
      by (simp add: c ord_of_def)
  qed
qed

end
