(* ===== verification/VersionSemver.thy ===== *)
theory VersionSemver
  imports VersionOrder
begin

text \<open>
  The semver and calver schemes of internal/domain/version_strategy.go: parsers and comparators,
  each interpreted as an order of keys.
\<close>

section \<open>semver\<close>

record semverPreID =
  pre_numeric :: bool
  pre_digits :: string
  pre_text :: string

record semverVersion =
  sv_major :: string
  sv_minor :: string
  sv_patch :: string
  sv_pre :: "semverPreID list"

definition semver_letter :: "char \<Rightarrow> bool" where
  "semver_letter c \<longleftrightarrow>
     \<not> ((c < CHR ''0'' \<or> c > CHR ''9'') \<and> (c < CHR ''a'' \<or> c > CHR ''z'') \<and> (c < CHR ''A'' \<or> c > CHR ''Z''))"

text \<open>The loop over the pre-release identifiers.\<close>

fun semver_pre :: "string list \<Rightarrow> semverPreID list \<Rightarrow> semverPreID list result" where
  "semver_pre [] pre = Ok pre"
| "semver_pre (ident # ids) pre =
     (if ident = '''' then Err (EmptyField ''pre-release identifier'')
      else if isDigits ident then
        semver_pre ids (pre @ [\<lparr>pre_numeric = True, pre_digits = ident, pre_text = ''''\<rparr>])
      else if \<not> list_all semver_letter ident then Err (BadShape ''pre-release identifier'')
      else semver_pre ids (pre @ [\<lparr>pre_numeric = False, pre_digits = '''', pre_text = ident\<rparr>]))"

text \<open>The end of the parser: the numeric parts, padded to three, and the identifiers.\<close>

definition semver_parts :: "string \<Rightarrow> string \<Rightarrow> semverVersion result" where
  "semver_parts core preRaw =
     (let parts = split_byte CHR ''.'' core;
          nums = parts @ replicate (3 - length parts) ''0'' in
      if length parts > 3 then Err (BadShape ''more than three version parts'')
      else if \<not> list_all isDigits parts then Err (BadShape ''version part is not numeric'')
      else
        rbind (if preRaw \<noteq> '''' then semver_pre (split_byte CHR ''.'' preRaw) [] else Ok [])
          (\<lambda>pre. Ok \<lparr>sv_major = nums ! 0, sv_minor = nums ! 1, sv_patch = nums ! 2, sv_pre = pre\<rparr>))"

definition parseSemver :: "string \<Rightarrow> semverVersion result" where
  "parseSemver s0 =
     (if s0 = '''' then Err (EmptyField ''version'')
      else
        (let s = dropWhile (\<lambda>c. c = CHR ''v'' \<or> c = CHR ''V'' \<or> c = CHR ''='') s0 in
         if s = '''' then Err (EmptyField ''version after prefix'')
         else
           (let core = (case index_byte CHR ''+'' s of None \<Rightarrow> s | Some i \<Rightarrow> take i s);
                (hasPre, preRaw, core) =
                  (case index_byte CHR ''-'' core of
                     None \<Rightarrow> (False, '''', core)
                   | Some i \<Rightarrow> (True, drop (i + 1) core, take i core))
            in
              if hasPre \<and> preRaw = '''' then Err (EmptyField ''pre-release'')
              else semver_parts core preRaw)))"

fun compare_pre_ids :: "semverPreID list \<Rightarrow> semverPreID list \<Rightarrow> Ordering" where
  "compare_pre_ids [] [] = OrderingEqual"
| "compare_pre_ids (x # xs) [] = OrderingGreater"
| "compare_pre_ids [] (y # ys) = OrderingLess"
| "compare_pre_ids (x # xs) (y # ys) =
     (if pre_numeric x \<and> pre_numeric y then
        and_then (compareDigitStrings (pre_digits x) (pre_digits y)) (compare_pre_ids xs ys)
      else if pre_numeric x then OrderingLess
      else if pre_numeric y then OrderingGreater
      else and_then (ord_of (pre_text x) (pre_text y)) (compare_pre_ids xs ys))"

definition compare_semver_pre :: "semverPreID list \<Rightarrow> semverPreID list \<Rightarrow> Ordering" where
  "compare_semver_pre a b =
     (if length a = 0 \<and> length b = 0 then OrderingEqual
      else if length a = 0 then OrderingGreater
      else if length b = 0 then OrderingLess
      else compare_pre_ids a b)"

definition CompareSemver :: "string \<Rightarrow> string \<Rightarrow> Ordering result" where
  "CompareSemver a b =
     rbind (wrap_err ''semver'' (parseSemver a)) (\<lambda>av.
     rbind (wrap_err ''semver'' (parseSemver b)) (\<lambda>bv.
       Ok (and_then (compareDigitStrings (sv_major av) (sv_major bv))
           (and_then (compareDigitStrings (sv_minor av) (sv_minor bv))
           (and_then (compareDigitStrings (sv_patch av) (sv_patch bv))
              (compare_semver_pre (sv_pre av) (sv_pre bv)))))))"

text \<open>What the parser guarantees.\<close>

definition pre_ok :: "semverPreID \<Rightarrow> bool" where
  "pre_ok p \<longleftrightarrow> (if pre_numeric p then all_digits (pre_digits p) else pre_text p \<noteq> '''' \<and> list_all semver_letter (pre_text p))"

definition semver_ok :: "semverVersion \<Rightarrow> bool" where
  "semver_ok v \<longleftrightarrow> all_digits (sv_major v) \<and> all_digits (sv_minor v) \<and> all_digits (sv_patch v) \<and>
     list_all pre_ok (sv_pre v)"

lemma semver_pre_ok:
  "semver_pre ids pre = Ok r \<Longrightarrow> list_all pre_ok pre \<Longrightarrow> list_all pre_ok r"
  by (induction ids pre rule: semver_pre.induct)
    (auto simp: pre_ok_def isDigits_all_digits split: if_splits)

lemma nth_padded:
  "list_all P xs \<Longrightarrow> length xs \<le> 3 \<Longrightarrow> P d \<Longrightarrow> i < 3 \<Longrightarrow> P ((xs @ replicate (3 - length xs) d) ! i)"
  by (auto simp: nth_append list_all_length)

lemma semver_parts_ok: "semver_parts core preRaw = Ok v \<Longrightarrow> semver_ok v"
proof -
  assume p: "semver_parts core preRaw = Ok v"
  let ?parts = "split_byte CHR ''.'' core"
  have parts: "length ?parts \<le> 3" "list_all isDigits ?parts"
    using p by (auto simp: semver_parts_def Let_def split: if_splits)
  from p parts obtain pre where
    pre: "(if preRaw \<noteq> '''' then semver_pre (split_byte CHR ''.'' preRaw) [] else Ok []) = Ok pre"
    and v: "v = \<lparr>sv_major = (?parts @ replicate (3 - length ?parts) ''0'') ! 0,
          sv_minor = (?parts @ replicate (3 - length ?parts) ''0'') ! 1,
          sv_patch = (?parts @ replicate (3 - length ?parts) ''0'') ! 2, sv_pre = pre\<rparr>"
    by (auto simp: semver_parts_def Let_def rbind_Ok_iff split: if_splits)
  have "list_all pre_ok pre" using pre semver_pre_ok [of _ "[]" pre] by (auto split: if_splits)
  moreover have "isDigits ''0''" by (simp add: isDigits_def)
  ultimately show "semver_ok v"
    using nth_padded [OF parts(2,1), of "''0''"] v by (simp add: semver_ok_def isDigits_all_digits)
qed

lemma parseSemver_ok: "parseSemver s = Ok v \<Longrightarrow> semver_ok v"
  using semver_parts_ok
  by (auto simp: parseSemver_def Let_def split: if_splits option.splits)

text \<open>The key: releases after pre-releases, numeric identifiers before alphanumeric ones.\<close>

definition pre_key :: "semverPreID \<Rightarrow> nat \<times> nat \<times> string" where
  "pre_key p = (if pre_numeric p then (0, digits_val (pre_digits p), '''') else (1, 0, pre_text p))"

definition semver_key ::
  "semverVersion \<Rightarrow> nat \<times> nat \<times> nat \<times> nat \<times> (nat \<times> nat \<times> string) list" where
  "semver_key v =
     (digits_val (sv_major v), digits_val (sv_minor v), digits_val (sv_patch v),
      (if sv_pre v = [] then 1 else 0), map pre_key (sv_pre v))"

lemma compare_pre_ids_key:
  "list_all pre_ok xs \<Longrightarrow> list_all pre_ok ys \<Longrightarrow>
     compare_pre_ids xs ys = ord_of (map pre_key xs) (map pre_key ys)"
proof (induction xs ys rule: compare_pre_ids.induct)
  case (4 x xs y ys)
  have "ord_of (pre_key x) (pre_key y) =
      (if pre_numeric x \<and> pre_numeric y then compareDigitStrings (pre_digits x) (pre_digits y)
       else if pre_numeric x then OrderingLess else if pre_numeric y then OrderingGreater
       else ord_of (pre_text x) (pre_text y))"
    using 4 by (auto simp: pre_key_def pre_ok_def all_digits_def compareDigitStrings_val ord_of_def)
  with 4 show ?case by (auto simp: ord_of_Cons and_then_def)
qed (simp_all add: ord_of_def)

lemma semver_key_order:
  assumes "semver_ok v" "semver_ok w"
  shows "and_then (compareDigitStrings (sv_major v) (sv_major w))
           (and_then (compareDigitStrings (sv_minor v) (sv_minor w))
           (and_then (compareDigitStrings (sv_patch v) (sv_patch w))
              (compare_semver_pre (sv_pre v) (sv_pre w)))) = ord_of (semver_key v) (semver_key w)"
proof -
  have "compare_semver_pre (sv_pre v) (sv_pre w) =
      ord_of (if sv_pre v = [] then 1 else 0 :: nat, map pre_key (sv_pre v))
        (if sv_pre w = [] then 1 else 0, map pre_key (sv_pre w))"
    using assms by (auto simp: compare_semver_pre_def semver_ok_def compare_pre_ids_key ord_of_def)
  moreover have "compareDigitStrings x y = ord_of (digits_val x) (digits_val y)"
    if "all_digits x" "all_digits y" for x y
    using that by (simp add: all_digits_def compareDigitStrings_val)
  ultimately show ?thesis
    using assms by (simp add: semver_key_def semver_ok_def and_then_ord_of)
qed

interpretation semver: keyed_order CompareSemver parseSemver semver_key
proof
  show "CompareSemver a b = Ok (ord_of (semver_key v) (semver_key w))"
    if "parseSemver a = Ok v" "parseSemver b = Ok w" for a b v w
    using that semver_key_order [of v w] parseSemver_ok [of a v] parseSemver_ok [of b w]
    by (simp add: CompareSemver_def)
  show "\<not> is_ok (CompareSemver a b)" if "\<not> is_ok (parseSemver a) \<or> \<not> is_ok (parseSemver b)" for a b
    using that by (auto simp: CompareSemver_def is_ok_iff result_simps)
qed

section \<open>calver\<close>

record calverVersion =
  cv_year :: int
  cv_month :: int
  cv_day :: int

text \<open>The value of a run of ASCII digits, accumulated from the left.\<close>

definition parseSmallDigits :: "string \<Rightarrow> int \<Rightarrow> int option" where
  "parseSmallDigits s mx =
     (if s = '''' \<or> length s > 2 \<or> \<not> isDigits s then None
      else
        (let n = int (digits_val s) in
         if n < 1 \<or> n > mx then None else Some n))"

definition calverFromParts :: "string \<Rightarrow> string \<Rightarrow> string \<Rightarrow> calverVersion result" where
  "calverFromParts year month day =
     (if length year \<noteq> 4 \<or> \<not> isDigits year then Err (BadShape ''calver year'')
      else
        rbind (if month \<noteq> '''' then
                 (case parseSmallDigits month 12 of
                    None \<Rightarrow> Err (OutOfRange ''calver month'') | Some m \<Rightarrow> Ok m)
               else Ok 0) (\<lambda>m.
        rbind (if day \<noteq> '''' then
                 (case parseSmallDigits day 31 of
                    None \<Rightarrow> Err (OutOfRange ''calver day'') | Some d \<Rightarrow> Ok d)
               else Ok 0) (\<lambda>d.
          Ok \<lparr>cv_year = int (digits_val year), cv_month = m, cv_day = d\<rparr>)))"

definition allDigitsSeparated :: "string \<Rightarrow> bool" where
  "allDigitsSeparated s =
     (if list_all (\<lambda>c. (c \<ge> CHR ''0'' \<and> c \<le> CHR ''9'') \<or> c = CHR ''.'' \<or> c = CHR ''-'') s
      then list_ex (\<lambda>c. c \<ge> CHR ''0'' \<and> c \<le> CHR ''9'') s
      else False)"

definition parseCalver :: "string \<Rightarrow> calverVersion result" where
  "parseCalver s =
     (if s = '''' then Err (EmptyField ''version'')
      else if length s = 8 \<and> isDigits s then
        calverFromParts (take 4 s) (take 2 (drop 4 s)) (take 2 (drop 6 s))
      else if \<not> isDigits s \<and> \<not> allDigitsSeparated s then Err (BadShape ''not a calver shape'')
      else
        (let parts = fields_func (\<lambda>r. r = CHR ''.'' \<or> r = CHR ''-'') s in
         if length parts < 1 \<or> length parts > 3 then Err (BadShape ''calver parts'')
         else calverFromParts (parts ! 0)
           (if length parts > 1 then parts ! 1 else '''')
           (if length parts > 2 then parts ! 2 else '''')))"

definition CompareCalver :: "string \<Rightarrow> string \<Rightarrow> Ordering result" where
  "CompareCalver a b =
     rbind (wrap_err ''calver'' (parseCalver a)) (\<lambda>av.
     rbind (wrap_err ''calver'' (parseCalver b)) (\<lambda>bv.
       Ok (and_then (ord_of (cv_year av) (cv_year bv))
           (and_then (ord_of (cv_month av) (cv_month bv))
              (ord_of (cv_day av) (cv_day bv))))))"

definition calver_key :: "calverVersion \<Rightarrow> int \<times> int \<times> int" where
  "calver_key v = (cv_year v, cv_month v, cv_day v)"

interpretation calver: keyed_order CompareCalver parseCalver calver_key
proof
  show "CompareCalver a b = Ok (ord_of (calver_key v) (calver_key w))"
    if "parseCalver a = Ok v" "parseCalver b = Ok w" for a b v w
    using that by (simp add: CompareCalver_def calver_key_def and_then_ord_of)
  show "\<not> is_ok (CompareCalver a b)" if "\<not> is_ok (parseCalver a) \<or> \<not> is_ok (parseCalver b)" for a b
    using that by (auto simp: CompareCalver_def is_ok_iff result_simps)
qed

lemma parseSmallDigits_Some: "parseSmallDigits s mx = Some n \<Longrightarrow> 1 \<le> n \<and> n \<le> mx"
  by (auto simp: parseSmallDigits_def Let_def split: if_splits)

lemma calverFromParts_range:
  assumes "calverFromParts y m d = Ok v"
  shows "0 \<le> cv_year v \<and> cv_year v < 10000 \<and> 0 \<le> cv_month v \<and> cv_month v \<le> 12 \<and> 0 \<le> cv_day v \<and> cv_day v \<le> 31"
proof -
  have "int (digits_val y) < 10000"
    using assms digits_val_bound [of y]
    by (auto simp: calverFromParts_def isDigits_all_digits all_digits_def split: if_splits)
  then show ?thesis
    using assms
    by (auto simp: calverFromParts_def result_simps split: if_splits option.splits
        dest!: parseSmallDigits_Some)
qed

lemma parseCalver_range:
  "parseCalver s = Ok v \<Longrightarrow>
     0 \<le> cv_year v \<and> cv_year v < 10000 \<and> 0 \<le> cv_month v \<and> cv_month v \<le> 12 \<and> 0 \<le> cv_day v \<and> cv_day v \<le> 31"
  using calverFromParts_range by (auto simp: parseCalver_def Let_def split: if_splits)

end
