(* ===== verification/VersionDpkg.thy ===== *)
theory VersionDpkg
  imports VersionOrder
begin

text \<open>
  The debian and generic schemes of internal/domain/version_strategy.go: the dpkg character
  ordering on the remaining suffixes of the two strings (an index past the end is the empty
  suffix), the parser of Debian versions, and the two comparators.
\<close>

section \<open>The character ordering\<close>

definition dpkgOrder :: "char \<Rightarrow> int" where
  "dpkgOrder c =
     (if c = CHR ''~'' then -1
      else if c = CHR 0x00 then 0
      else if (c \<ge> CHR ''a'' \<and> c \<le> CHR ''z'') \<or> (c \<ge> CHR ''A'' \<and> c \<le> CHR ''Z'') then of_char c
      else of_char c + 256)"

text \<open>\<open>byteAt(s, i)\<close> on the suffix from \<open>i\<close>.\<close>

definition byteAt :: "string \<Rightarrow> char" where
  "byteAt s = (case s of [] \<Rightarrow> CHR 0x00 | c # _ \<Rightarrow> c)"

definition starts_digit :: "string \<Rightarrow> bool" where
  "starts_digit s \<longleftrightarrow> s \<noteq> [] \<and> isASCIIDigitByte (hd s)"

definition starts_text :: "string \<Rightarrow> bool" where
  "starts_text s \<longleftrightarrow> s \<noteq> [] \<and> \<not> isASCIIDigitByte (hd s)"

text \<open>The inner loop over non-digits: an ordering, or the two suffixes where it stops.\<close>

function dpkg_text :: "string \<Rightarrow> string \<Rightarrow> Ordering + string \<times> string" where
  "dpkg_text a b =
     (if starts_text a \<or> starts_text b then
        (let ac = dpkgOrder (byteAt a); bc = dpkgOrder (byteAt b) in
         if ac \<noteq> bc then Inl (orderFromSign (ac - bc)) else dpkg_text (tl a) (tl b))
      else Inr (a, b))"
  by pat_completeness auto
termination
proof (relation "measure (\<lambda>(a, b). length a + length b)", simp, goal_cases)
  case (1 a b ac bc)
  then show ?case by (cases a; cases b) (auto simp: starts_text_def)
qed

declare dpkg_text.simps [simp del]

text \<open>The loop over digits on both sides, with \<open>firstDiff\<close>.\<close>

fun dpkg_digits :: "string \<Rightarrow> string \<Rightarrow> int \<Rightarrow> string \<times> string \<times> int" where
  "dpkg_digits (x # a) (y # b) firstDiff =
     (if isASCIIDigitByte x \<and> isASCIIDigitByte y then
        dpkg_digits a b (if firstDiff = 0 then of_char x - of_char y else firstDiff)
      else (x # a, y # b, firstDiff))"
| "dpkg_digits a b firstDiff = (a, b, firstDiff)"

lemma dpkg_text_suffix: "dpkg_text a b = Inr (c, d) \<Longrightarrow>
    suffix c a \<and> suffix d b \<and> \<not> starts_text c \<and> \<not> starts_text d"
proof (induction a b rule: dpkg_text.induct)
  case (1 a b)
  show ?case
  proof (cases "starts_text a \<or> starts_text b")
    case True
    then have "dpkgOrder (byteAt a) = dpkgOrder (byteAt b) \<and> dpkg_text (tl a) (tl b) = Inr (c, d)"
      using "1.prems" by (simp add: dpkg_text.simps [of a b] Let_def split: if_splits)
    with "1.IH" [OF True refl refl]
    have "suffix c (tl a)" "suffix d (tl b)" "\<not> starts_text c" "\<not> starts_text d" by simp_all
    moreover have "suffix (tl a) a" "suffix (tl b) b" by (simp_all add: suffix_tl)
    ultimately show ?thesis using suffix_order.trans by blast
  next
    case False
    with "1.prems" show ?thesis by (simp add: dpkg_text.simps [of a b])
  qed
qed

lemma dpkg_digits_suffix:
  "dpkg_digits a b fd = (c, d, fd') \<Longrightarrow> suffix c a \<and> suffix d b"
  by (induction a b fd rule: dpkg_digits.induct) (auto split: if_splits intro: suffix_ConsI)

lemma trim_zeros_suffix: "suffix (trim_zeros a) a"
  by (simp add: trim_zeros_def suffix_dropWhile)

text \<open>The part of an iteration after the non-digits: the two runs of digits.\<close>

definition dpkg_run :: "string \<Rightarrow> string \<Rightarrow> Ordering + string \<times> string" where
  "dpkg_run a b =
     (case dpkg_digits (trim_zeros a) (trim_zeros b) 0 of (a', b', firstDiff) \<Rightarrow>
        if starts_digit a' then Inl OrderingGreater
        else if starts_digit b' then Inl OrderingLess
        else if firstDiff \<noteq> 0 then Inl (orderFromSign firstDiff)
        else Inr (a', b'))"

lemma dpkg_run_suffix: "dpkg_run a b = Inr (c, d) \<Longrightarrow>
    suffix c a \<and> suffix d b \<and> \<not> starts_digit c \<and> \<not> starts_digit d"
  by (auto simp: dpkg_run_def split: prod.splits if_splits
      dest!: dpkg_digits_suffix intro: suffix_order.trans [OF _ trim_zeros_suffix])

lemma suffix_longer: "suffix c a \<Longrightarrow> c \<noteq> a \<Longrightarrow> length c < length a"
  by (auto simp: suffix_def)

lemma dpkg_progress:
  assumes "dpkg_text a b = Inr (a1, b1)" "dpkg_run a1 b1 = Inr (a2, b2)" "\<not> (a = [] \<and> b = [])"
  shows "length a2 + length b2 < length a + length b"
proof -
  have 1: "suffix a1 a" "suffix b1 b" "\<not> starts_text a1" "\<not> starts_text b1"
    using dpkg_text_suffix [OF assms(1)] by simp_all
  have 2: "suffix a2 a1" "suffix b2 b1" "\<not> starts_digit a2" "\<not> starts_digit b2"
    using dpkg_run_suffix [OF assms(2)] by simp_all
  have *: "length u2 < length u \<or> u = []"
    if "suffix u1 u" "suffix u2 u1" "\<not> starts_text u1" "\<not> starts_digit u2" for u u1 u2 :: string
  proof (cases "u2 = u")
    case True
    with that have "u1 = u" by (metis suffix_order.antisym)
    with True that show ?thesis by (auto simp: starts_text_def starts_digit_def)
  next
    case False
    with that show ?thesis using suffix_longer suffix_order.trans by blast
  qed
  have "length a2 \<le> length a" "length b2 \<le> length b"
    using 1 2 by (meson suffix_length_le le_trans)+
  with * [OF 1(1) 2(1) 1(3) 2(3)] * [OF 1(2) 2(2) 1(4) 2(4)] assms(3) show ?thesis
    by auto
qed

text \<open>The whole comparison; it ends because an iteration that does not decide consumes.\<close>

function dpkgOrderCompare :: "string \<Rightarrow> string \<Rightarrow> Ordering" where
  "dpkgOrderCompare a b =
     (if a = [] \<and> b = [] then OrderingEqual
      else
        (case dpkg_text a b of
           Inl r \<Rightarrow> r
         | Inr (a1, b1) \<Rightarrow>
             (case dpkg_run a1 b1 of
                Inl r \<Rightarrow> r
              | Inr (a2, b2) \<Rightarrow> dpkgOrderCompare a2 b2)))"
  by pat_completeness auto
termination
  using dpkg_progress by (relation "measure (\<lambda>(a, b). length a + length b)") (simp, fastforce)

declare dpkgOrderCompare.simps [simp del]

section \<open>Swapping the arguments\<close>

fun swap_step :: "Ordering + string \<times> string \<Rightarrow> Ordering + string \<times> string" where
  "swap_step (Inl r) = Inl (- r)"
| "swap_step (Inr (a, b)) = Inr (b, a)"

lemma dpkg_text_swap: "dpkg_text b a = swap_step (dpkg_text a b)"
proof (induction a b rule: dpkg_text.induct)
  case (1 a b)
  show ?case
  proof (cases "starts_text a \<or> starts_text b")
    case True
    then show ?thesis using "1.IH" [OF True refl refl]
      by (auto simp: dpkg_text.simps [of a b] dpkg_text.simps [of b a] Let_def orderFromSign_diff)
  next
    case False
    then show ?thesis by (simp add: dpkg_text.simps [of a b] dpkg_text.simps [of b a])
  qed
qed

lemma dpkg_digits_Nil2: "dpkg_digits a [] fd = (a, [], fd)"
  by (cases a) auto

lemma dpkg_digits_swap:
  "dpkg_digits a b fd = (c, d, fd') \<Longrightarrow> dpkg_digits b a (- fd) = (d, c, - fd')"
proof (induction a b fd arbitrary: c d fd' rule: dpkg_digits.induct)
  case (1 x a y b fd)
  show ?case
  proof (cases "isASCIIDigitByte x \<and> isASCIIDigitByte y")
    case True
    with "1.IH" [OF True] "1.prems" show ?thesis by (cases "fd = 0") simp_all
  next
    case False
    with "1.prems" show ?thesis by auto
  qed
qed (auto simp: dpkg_digits_Nil2)

lemma dpkg_digits_stop: "dpkg_digits a b fd = (c, d, fd') \<Longrightarrow> \<not> (starts_digit c \<and> starts_digit d)"
  by (induction a b fd rule: dpkg_digits.induct) (auto simp: starts_digit_def split: if_splits)

lemma dpkg_run_swap: "dpkg_run b a = swap_step (dpkg_run a b)"
proof -
  obtain c d fd where *: "dpkg_digits (trim_zeros a) (trim_zeros b) 0 = (c, d, fd)"
    by (cases "dpkg_digits (trim_zeros a) (trim_zeros b) 0") auto
  show ?thesis
    using dpkg_digits_swap [OF *] dpkg_digits_stop [OF *] *
    by (auto simp: dpkg_run_def orderFromSign_flip)
qed

lemma dpkgOrderCompare_swap: "dpkgOrderCompare b a = - dpkgOrderCompare a b"
proof (induction a b rule: dpkgOrderCompare.induct)
  case (1 a b)
  show ?case
  proof (cases "a = [] \<and> b = []")
    case True
    then show ?thesis by (simp add: dpkgOrderCompare.simps)
  next
    case False
    show ?thesis
    proof (cases "dpkg_text a b")
      case (Inl r)
      then show ?thesis using False dpkg_text_swap [of b a]
        by (auto simp: dpkgOrderCompare.simps [of a b] dpkgOrderCompare.simps [of b a])
    next
      case (Inr p)
      obtain a1 b1 where p: "p = (a1, b1)" by (cases p)
      show ?thesis
      proof (cases "dpkg_run a1 b1")
        case (Inl r)
        then show ?thesis using False Inr p dpkg_text_swap [of b a] dpkg_run_swap [of b1 a1]
          by (auto simp: dpkgOrderCompare.simps [of a b] dpkgOrderCompare.simps [of b a])
      next
        case (Inr q)
        obtain a2 b2 where q: "q = (a2, b2)" by (cases q)
        show ?thesis
          using False \<open>dpkg_text a b = Inr p\<close> p Inr q dpkg_text_swap [of b a] dpkg_run_swap [of b1 a1]
            "1.IH" [OF False \<open>dpkg_text a b = Inr p\<close> p [symmetric] Inr q [symmetric]]
          by (auto simp: dpkgOrderCompare.simps [of a b] dpkgOrderCompare.simps [of b a])
      qed
    qed
  qed
qed

lemma dpkgOrderCompare_refl [simp]: "dpkgOrderCompare a a = OrderingEqual"
  using dpkgOrderCompare_swap [of a a] by (cases "dpkgOrderCompare a a") simp_all

section \<open>What the comparison does on runs\<close>

lemma starts_simps [simp]:
  "\<not> starts_digit []" "\<not> starts_text []" "starts_digit (c # s) \<longleftrightarrow> is_digit c"
  "starts_text (c # s) \<longleftrightarrow> \<not> is_digit c"
  by (simp_all add: starts_digit_def starts_text_def)

lemma starts_digit_appendI: "\<not> starts_digit s \<Longrightarrow> \<not> is_digit c \<Longrightarrow> \<not> starts_digit (s @ c # x)"
  by (cases s) auto

lemma trim_zeros_append: "\<not> starts_digit s \<Longrightarrow> trim_zeros (x @ s) = trim_zeros x @ s"
  by (induction x) (auto simp: trim_zeros_def is_digit_def neq_Nil_conv starts_digit_def
      intro: dropWhile_eq_self_iff [THEN iffD2])

lemma dpkg_digits_same_length:
  "length x = length y \<Longrightarrow> list_all is_digit x \<Longrightarrow> list_all is_digit y \<Longrightarrow>
     \<not> starts_digit s \<Longrightarrow> \<not> starts_digit t \<Longrightarrow>
     \<exists>fd'. dpkg_digits (x @ s) (y @ t) fd = (s, t, fd') \<and>
       orderFromSign fd' = (if fd = 0 then ord_of x y else orderFromSign fd)"
proof (induction x y arbitrary: fd rule: list_induct2)
  case Nil
  then show ?case by (cases s; cases t) (auto simp: orderFromSign_def)
next
  case (Cons c x d y)
  let ?fd = "if fd = 0 then of_char c - of_char d else fd :: int"
  obtain fd' where "dpkg_digits (x @ s) (y @ t) ?fd = (s, t, fd')"
    "orderFromSign fd' = (if ?fd = 0 then ord_of x y else orderFromSign ?fd)"
    using Cons.IH [of ?fd] Cons.prems by auto
  moreover have "orderFromSign (of_char c - of_char d) = ord_of c d"
  proof -
    have "(of_char a :: int) < of_char b \<longleftrightarrow> a < b" for a b :: char
      by (metis char_less_nat of_nat_less_iff of_nat_of_char)
    then show ?thesis by (auto simp: orderFromSign_diff ord_of_def)
  qed
  moreover have "(of_char c - of_char d = (0 :: int)) = (c = d)" by simp
  ultimately show ?case using Cons.prems by (auto simp: ord_of_Cons and_then_def)
qed

lemma dpkg_digits_longer:
  "length y < length x \<Longrightarrow> list_all is_digit x \<Longrightarrow> list_all is_digit y \<Longrightarrow> \<not> starts_digit t \<Longrightarrow>
     case dpkg_digits (x @ s) (y @ t) fd of (a, b, fd') \<Rightarrow> starts_digit a"
proof (induction y arbitrary: x fd)
  case Nil
  then show ?case by (cases x; cases t) auto
next
  case (Cons d y)
  then obtain c x' where "x = c # x'" by (cases x) auto
  with Cons show ?case by auto
qed

lemma trim_zeros_order:
  assumes "list_all is_digit x" "list_all is_digit y"
  shows "ord_of (digits_val x) (digits_val y) =
    (if length (trim_zeros x) = length (trim_zeros y) then ord_of (trim_zeros x) (trim_zeros y)
     else ord_of (length (trim_zeros x)) (length (trim_zeros y)))"
proof -
  note px = trim_zeros_props [OF assms(1)] and py = trim_zeros_props [OF assms(2)]
  consider "length (trim_zeros x) < length (trim_zeros y)"
    | "length (trim_zeros y) < length (trim_zeros x)"
    | "length (trim_zeros x) = length (trim_zeros y)" by linarith
  then show ?thesis
  proof cases
    case 1
    then have "trim_zeros y \<noteq> []" by auto
    from digits_shorter_less [OF 1 px(1) py(1) this py(3) [OF this]] 1 show ?thesis
      by (simp add: px py ord_of_def)
  next
    case 2
    then have "trim_zeros x \<noteq> []" by auto
    from digits_shorter_less [OF 2 py(1) px(1) this px(3) [OF this]] 2 show ?thesis
      by (simp add: px py ord_of_def)
  next
    case 3
    then show ?thesis
      using digits_less_iff [OF 3 px(1) py(1)] digits_less_iff [OF 3 [symmetric] py(1) px(1)]
      by (simp add: px py ord_of_def)
  qed
qed

lemma dpkg_run_numeric:
  assumes "list_all is_digit x" "list_all is_digit y" "\<not> starts_digit s" "\<not> starts_digit t"
  shows "dpkg_run (x @ s) (y @ t) =
    (if digits_val x = digits_val y then Inr (s, t) else Inl (ord_of (digits_val x) (digits_val y)))"
proof -
  let ?x = "trim_zeros x" and ?y = "trim_zeros y"
  have d: "list_all is_digit ?x" "list_all is_digit ?y"
    using trim_zeros_props(1) assms by blast+
  have eq: "digits_val x = digits_val y \<longleftrightarrow> ord_of (digits_val x) (digits_val y) = OrderingEqual"
    by simp
  obtain a b fd where r: "dpkg_digits (?x @ s) (?y @ t) 0 = (a, b, fd)"
    by (cases "dpkg_digits (?x @ s) (?y @ t) 0") auto
  have run: "dpkg_run (x @ s) (y @ t) =
      (if starts_digit a then Inl OrderingGreater else if starts_digit b then Inl OrderingLess
       else if fd \<noteq> 0 then Inl (orderFromSign fd) else Inr (a, b))"
    using assms by (simp add: dpkg_run_def trim_zeros_append r)
  consider "length ?x < length ?y" | "length ?y < length ?x" | "length ?x = length ?y" by linarith
  then show ?thesis
  proof cases
    case 1
    have "starts_digit b"
      using dpkg_digits_longer [OF 1 d(2,1) assms(3), of t 0] dpkg_digits_swap [OF r] by simp
    with dpkg_digits_stop [OF r] 1 show ?thesis
      unfolding eq trim_zeros_order [OF assms(1,2)] by (simp add: run ord_of_def)
  next
    case 2
    have "starts_digit a" using dpkg_digits_longer [OF 2 d assms(4), of s 0] r by simp
    with 2 show ?thesis
      unfolding eq trim_zeros_order [OF assms(1,2)] by (simp add: run ord_of_def)
  next
    case 3
    from dpkg_digits_same_length [OF 3 d assms(3,4), of 0] r
    have "a = s" "b = t" and o: "orderFromSign fd = ord_of ?x ?y" by auto
    then show ?thesis
      using assms 3 unfolding eq trim_zeros_order [OF assms(1,2)] o [symmetric]
      by (auto simp: run orderFromSign_def)
  qed
qed

lemma dpkg_text_stop: "\<not> starts_text a \<Longrightarrow> \<not> starts_text b \<Longrightarrow> dpkg_text a b = Inr (a, b)"
  by (simp add: dpkg_text.simps)

lemma dpkgOrder_end: "dpkgOrder (CHR 0x00) = 0"
  by (simp add: dpkgOrder_def)

text \<open>Equal bytes that are not digits are skipped.\<close>

lemma dpkg_skip:
  assumes "\<not> is_digit c" "a \<noteq> [] \<or> b \<noteq> []"
  shows "dpkgOrderCompare (c # a) (c # b) = dpkgOrderCompare a b"
proof -
  have "dpkg_text (c # a) (c # b) = dpkg_text a b"
    using assms(1) by (simp add: dpkg_text.simps [of "c # a"] byteAt_def)
  then show ?thesis
    using assms(2) by (auto simp: dpkgOrderCompare.simps [of "c # a"] dpkgOrderCompare.simps [of a])
qed

text \<open>Runs of digits decide as the numbers they denote; otherwise the rest does.\<close>

lemma dpkg_numbers:
  assumes "list_all is_digit x" "list_all is_digit y" "x \<noteq> []" "y \<noteq> []"
    "\<not> starts_digit s" "\<not> starts_digit t"
  shows "dpkgOrderCompare (x @ s) (y @ t) =
    and_then (ord_of (digits_val x) (digits_val y)) (dpkgOrderCompare s t)"
proof -
  have "\<not> starts_text (x @ s)" "\<not> starts_text (y @ t)"
    using assms by (auto simp: neq_Nil_conv)
  then have "dpkg_text (x @ s) (y @ t) = Inr (x @ s, y @ t)" by (rule dpkg_text_stop)
  then show ?thesis
    using assms(3) dpkg_run_numeric [OF assms(1,2,5,6)]
    by (auto simp: dpkgOrderCompare.simps [of "x @ s"] and_then_def)
qed

lemma dpkg_separator_end: "\<not> is_digit c \<Longrightarrow> dpkgOrder c \<noteq> 0 \<Longrightarrow>
    dpkgOrderCompare (c # s) [] = orderFromSign (dpkgOrder c)"
  by (simp add: dpkgOrderCompare.simps dpkg_text.simps byteAt_def dpkgOrder_end)

lemma join_dot_Cons:
  "join_byte c (x # xs) = x @ (if xs = [] then [] else c # join_byte c xs)"
  by (cases xs) simp_all

lemma dotted_starts: "xs \<noteq> [] \<Longrightarrow> list_all all_digits xs \<Longrightarrow> join_byte c xs \<noteq> []"
  by (cases xs) (auto simp: join_dot_Cons all_digits_def)

lemma dpkg_dotted:
  "xs \<noteq> [] \<Longrightarrow> ys \<noteq> [] \<Longrightarrow> list_all all_digits xs \<Longrightarrow> list_all all_digits ys \<Longrightarrow>
     dpkgOrderCompare (join_byte CHR ''.'' xs) (join_byte CHR ''.'' ys) =
       ord_of (map digits_val xs) (map digits_val ys)"
proof (induction xs arbitrary: ys)
  case Nil
  then show ?case by simp
next
  case (Cons x xs)
  then obtain y ys' where ys: "ys = y # ys'" by (cases ys) auto
  let ?s = "if xs = [] then [] else CHR ''.'' # join_byte CHR ''.'' xs"
  let ?t = "if ys' = [] then [] else CHR ''.'' # join_byte CHR ''.'' ys'"
  have dot: "\<not> is_digit CHR ''.''" "dpkgOrder CHR ''.'' = 302"
    by (simp_all add: is_digit_nat dpkgOrder_def char_le_nat)
  have "dpkgOrderCompare ?s ?t = ord_of (map digits_val xs) (map digits_val ys')"
  proof (cases "xs = [] \<or> ys' = []")
    case True
    have "dpkgOrderCompare (CHR ''.'' # s) [] = OrderingGreater" for s
      using dpkg_separator_end [OF dot(1)] dot(2) by (simp add: orderFromSign_def)
    with dpkgOrderCompare_swap [of "[]"] True show ?thesis
      by (auto simp: ord_of_def neq_Nil_conv)
  next
    case False
    with dotted_starts [of xs] Cons.prems have "join_byte CHR ''.'' xs \<noteq> []" by auto
    with False Cons.IH [of ys'] Cons.prems ys dot show ?thesis by (simp add: dpkg_skip)
  qed
  moreover have "dpkgOrderCompare (x @ ?s) (y @ ?t) =
      and_then (ord_of (digits_val x) (digits_val y)) (dpkgOrderCompare ?s ?t)"
    using Cons.prems ys dot by (intro dpkg_numbers) (auto simp: all_digits_def)
  ultimately show ?case by (simp add: ys join_dot_Cons ord_of_Cons)
qed

text \<open>What is added to a version decides by its first byte, when that is not a digit.\<close>

lemma dpkg_added:
  assumes "\<not> is_digit c" "dpkgOrder c \<noteq> 0"
  shows "dpkgOrderCompare (u @ c # x) u = orderFromSign (dpkgOrder c)"
proof (induction u rule: length_induct)
  case (1 u)
  show ?case
  proof (cases u)
    case Nil
    with dpkg_separator_end [OF assms] show ?thesis by simp
  next
    case (Cons d v)
    show ?thesis
    proof (cases "is_digit d")
      case False
      with 1 Cons show ?thesis by (simp add: dpkg_skip)
    next
      case True
      let ?n = "takeWhile is_digit u" and ?r = "dropWhile is_digit u"
      have n: "list_all is_digit ?n" "?n \<noteq> []"
        using Cons True by (auto simp: list_all_iff dest: set_takeWhileD)
      have r: "\<not> starts_digit ?r" using hd_dropWhile [of is_digit u] by (auto simp: starts_digit_def)
      then have r': "\<not> starts_digit (?r @ c # x)" using assms(1) by (rule starts_digit_appendI)
      have "length ?r < length u" using Cons True by (simp add: length_dropWhile_le le_imp_less_Suc)
      with 1 have "dpkgOrderCompare (?r @ c # x) ?r = orderFromSign (dpkgOrder c)" by blast
      with dpkg_numbers [OF n(1) n(1) n(2) n(2) r' r]
      have "dpkgOrderCompare (?n @ ?r @ c # x) (?n @ ?r) = orderFromSign (dpkgOrder c)"
        by (simp add: and_then_def)
      then show ?thesis by (metis append.assoc takeWhile_dropWhile_id)
    qed
  qed
qed

section \<open>debian\<close>

record debVersion =
  deb_epoch :: string
  deb_upstream :: string
  deb_revision :: string

text \<open>The epoch of a Debian or RPM version, and what follows it.\<close>

definition splitEpoch :: "string \<Rightarrow> (string \<times> string) result" where
  "splitEpoch s =
     (case index_byte CHR '':'' s of
        None \<Rightarrow> Ok (''0'', s)
      | Some i \<Rightarrow>
          (if \<not> isDigits (take i s) then Err (BadShape ''epoch is not numeric'')
           else
             (let epoch = trim_zeros (take i s) in
              Ok (if epoch = '''' then ''0'' else epoch, drop (Suc i) s))))"

definition parseDebian :: "string \<Rightarrow> debVersion result" where
  "parseDebian s =
     (if s = '''' then Err (EmptyField ''version'')
      else
        rbind (splitEpoch s) (\<lambda>(epoch, rest).
          if rest = '''' then Err (EmptyField ''version after epoch'')
          else if CHR '':'' \<in> set rest then Err (BadShape ''more than one colon'')
          else
            (let (upstream, revision) =
               (case last_index_byte CHR ''-'' rest of
                  None \<Rightarrow> (rest, '''')
                | Some i \<Rightarrow> (take i rest, drop (Suc i) rest))
             in if upstream = '''' then Err (EmptyField ''upstream'')
                else Ok \<lparr>deb_epoch = epoch, deb_upstream = upstream, deb_revision = revision\<rparr>)))"

definition CompareDebian :: "string \<Rightarrow> string \<Rightarrow> Ordering result" where
  "CompareDebian a b =
     rbind (wrap_err ''debian'' (parseDebian a)) (\<lambda>av.
     rbind (wrap_err ''debian'' (parseDebian b)) (\<lambda>bv.
       Ok (and_then (compareDigitStrings (deb_epoch av) (deb_epoch bv))
            (and_then (dpkgOrderCompare (deb_upstream av) (deb_upstream bv))
               (dpkgOrderCompare (deb_revision av) (deb_revision bv))))))"

lemma splitEpoch_digits: "splitEpoch s = Ok (e, r) \<Longrightarrow> all_digits e"
  using trim_zeros_props(1) [of "take i s" for i]
  by (auto simp: splitEpoch_def isDigits_all_digits all_digits_def is_digit_def Let_def
      split: option.splits if_splits)

lemma parseDebian_epoch: "parseDebian s = Ok v \<Longrightarrow> all_digits (deb_epoch v)"
  by (auto simp: parseDebian_def result_simps Let_def split: if_splits option.splits
      dest!: splitEpoch_digits)

lemma compareDigitStrings_swap:
  "all_digits a \<Longrightarrow> all_digits b \<Longrightarrow> compareDigitStrings b a = - compareDigitStrings a b"
  by (simp add: compareDigitStrings_val all_digits_def)

interpretation debian: version_order CompareDebian "\<lambda>s. is_ok (parseDebian s)"
proof
  show "is_ok (CompareDebian a b) \<longleftrightarrow> is_ok (parseDebian a) \<and> is_ok (parseDebian b)" for a b
    by (auto simp: CompareDebian_def is_ok_iff result_simps)
  show "CompareDebian a a = Ok OrderingEqual" if "is_ok (parseDebian a)" for a
    using that parseDebian_epoch [of a]
    by (auto simp: CompareDebian_def is_ok_iff compareDigitStrings_val all_digits_def and_then_def)
  show "CompareDebian b a = Ok (- c)" if c: "CompareDebian a b = Ok c" for a b c
  proof -
    from c obtain v w where p: "parseDebian a = Ok v" "parseDebian b = Ok w"
      by (auto simp: CompareDebian_def result_simps)
    then have "all_digits (deb_epoch v)" "all_digits (deb_epoch w)"
      by (simp_all add: parseDebian_epoch)
    from compareDigitStrings_swap [OF this] c p
      dpkgOrderCompare_swap [of "deb_upstream w" "deb_upstream v"]
      dpkgOrderCompare_swap [of "deb_revision w" "deb_revision v"]
    show ?thesis by (auto simp: CompareDebian_def and_then_flip)
  qed
qed

section \<open>generic\<close>

definition CompareGeneric :: "string \<Rightarrow> string \<Rightarrow> Ordering result" where
  "CompareGeneric a b =
     (if trim_space a = '''' then Err (EmptyField ''version'')
      else if trim_space b = '''' then Err (EmptyField ''version'')
      else Ok (dpkgOrderCompare a b))"

interpretation generic: version_order CompareGeneric "\<lambda>s. trim_space s \<noteq> ''''"
proof
  show "CompareGeneric b a = Ok (- c)" if "CompareGeneric a b = Ok c" for a b c
    using that dpkgOrderCompare_swap [of b a] by (auto simp: CompareGeneric_def split: if_splits)
qed (auto simp: CompareGeneric_def split: if_splits)

text \<open>Dotted numeric versions need no trimming.\<close>

lemma digit_plain: "is_digit c \<Longrightarrow> 32 < (of_char c :: nat) \<and> (of_char c :: nat) < 128"
  by (simp add: is_digit_nat)

lemma dotted_plain: "list_all all_digits xs \<Longrightarrow>
    list_all (\<lambda>c. 32 < (of_char c :: nat) \<and> (of_char c :: nat) < 128) (join_byte CHR ''.'' xs)"
  by (induction xs) (auto simp: join_dot_Cons all_digits_def list_all_iff is_digit_nat)

section \<open>Properties\<close>

text \<open>Dotted numeric versions (each part a run of digits of any length, leading zeros
  allowed) compare under the generic scheme as the sequences of their numbers: component by
  component, and a version that has more components than an equal one is newer.\<close>

theorem generic_dotted_numeric:
  assumes "xs \<noteq> []" "ys \<noteq> []" "list_all all_digits xs" "list_all all_digits ys"
  shows "CompareGeneric (join_byte CHR ''.'' xs) (join_byte CHR ''.'' ys) =
    Ok (ord_of (map digits_val xs) (map digits_val ys))"
  using assms by (simp add: CompareGeneric_def dpkg_dotted trim_space_plain dotted_plain dotted_starts)

theorem generic_dotted_numeric_witness:
  "CompareGeneric ''1.2.09'' ''1.10'' = Ok OrderingLess \<and> CompareGeneric ''1.2'' ''1.02'' = Ok OrderingEqual"
proof -
  have p: "list_all all_digits [''1'', ''2'', ''09'']" "list_all all_digits [''1'', ''10'']"
    "list_all all_digits [''1'', ''2'']" "list_all all_digits [''1'', ''02'']"
    by code_simp+
  have o: "ord_of (map digits_val [''1'', ''2'', ''09'']) (map digits_val [''1'', ''10'']) = OrderingLess"
    "ord_of (map digits_val [''1'', ''2'']) (map digits_val [''1'', ''02'']) = OrderingEqual"
    by code_simp+
  show ?thesis
    using generic_dotted_numeric [OF _ _ p(1,2)] generic_dotted_numeric [OF _ _ p(3,4)]
    unfolding o by simp
qed

text \<open>What is appended to a version decides by its first byte when that is neither a
  digit nor NUL: a tilde makes the version older than the one without the addition (a
  pre-release), every other byte makes it newer.\<close>

theorem dpkg_suffix_decides:
  assumes "\<not> isASCIIDigitByte c" "c \<noteq> CHR 0x00"
  shows "dpkgOrderCompare (u @ c # x) u = (if c = CHR ''~'' then OrderingLess else OrderingGreater) \<and>
    dpkgOrderCompare u (u @ c # x) = (if c = CHR ''~'' then OrderingGreater else OrderingLess)"
proof -
  have "(of_char c :: int) > 0"
  proof -
    have "char_of (0 :: nat) = CHR 0x00" by (simp add: char_of_def)
    then have "(of_char c :: nat) \<noteq> 0" using assms(2) by (metis char_of_char)
    then show ?thesis by (metis gr0I of_nat_0_less_iff of_nat_of_char)
  qed
  then have "orderFromSign (dpkgOrder c) = (if c = CHR ''~'' then OrderingLess else OrderingGreater)"
    "dpkgOrder c \<noteq> 0"
    using assms(2) by (auto simp: dpkgOrder_def orderFromSign_def)
  with dpkg_added [of c u x] dpkgOrderCompare_swap [of u "u @ c # x"] assms(1) show ?thesis by auto
qed

theorem dpkg_suffix_decides_witness:
  "dpkgOrderCompare ''1.0~rc1'' ''1.0'' = OrderingLess \<and> dpkgOrderCompare ''1.0'' ''1.0a'' = OrderingLess"
proof -
  have "\<not> isASCIIDigitByte CHR ''~''" "\<not> isASCIIDigitByte CHR ''a''" by code_simp+
  then show ?thesis
    using dpkg_suffix_decides [of "CHR ''~''" "''1.0''" "''rc1''"]
      dpkg_suffix_decides [of "CHR ''a''" "''1.0''" "[]"] by simp
qed

text \<open>The ordering is no order: a digit is given a rank of its own against a byte that is not
  a digit, after the letters, while the end of a version and a run of zeros are equal.\<close>

lemma generic_not_transitive:
  "CompareGeneric ''a0'' ''a'' = Ok OrderingEqual \<and> CompareGeneric ''a'' ''ab'' = Ok OrderingLess \<and>
   CompareGeneric ''a0'' ''ab'' = Ok OrderingGreater"
  by code_simp

end
