(* ===== verification/VersionRpm.thy ===== *)
theory VersionRpm
  imports VersionDpkg
begin

text \<open>
  The rpm scheme of internal/domain/version_strategy.go: the parser of epoch, version and
  release, the segment comparison on the remaining suffixes of the two strings, and the
  comparator, for every treatment of non-ASCII letters.
\<close>

section \<open>Parsing\<close>

record rpmEVR =
  evr_epoch :: string
  evr_version :: string
  evr_release :: string

definition parseRPMEVR :: "string \<Rightarrow> rpmEVR result" where
  "parseRPMEVR s =
     (if s = '''' then Err (EmptyField ''version'')
      else
        rbind (splitEpoch s) (\<lambda>(epoch, rest).
          if rest = '''' then Err (EmptyField ''version after epoch'')
          else if CHR '':'' \<in> set rest then Err (BadShape ''more than one colon'')
          else
            (let (version, release) =
               (case index_byte CHR ''-'' rest of
                  None \<Rightarrow> (rest, '''')
                | Some i \<Rightarrow> (take i rest, drop (Suc i) rest))
             in if version = '''' then Err (EmptyField ''version part'')
                else Ok \<lparr>evr_epoch = epoch, evr_version = version, evr_release = release\<rparr>)))"

lemma parseRPMEVR_epoch: "parseRPMEVR s = Ok v \<Longrightarrow> all_digits (evr_epoch v)"
  by (auto simp: parseRPMEVR_def result_simps Let_def split: if_splits option.splits
      dest!: splitEpoch_digits)

section \<open>Comparing segments\<close>

definition isRPMAlphaNum :: "char \<Rightarrow> bool" where
  "isRPMAlphaNum b \<longleftrightarrow>
     (b \<ge> CHR ''0'' \<and> b \<le> CHR ''9'') \<or> (b \<ge> CHR ''a'' \<and> b \<le> CHR ''z'') \<or> (b \<ge> CHR ''A'' \<and> b \<le> CHR ''Z'')"

definition starts_tilde :: "string \<Rightarrow> bool" where
  "starts_tilde s \<longleftrightarrow> s \<noteq> [] \<and> hd s = CHR ''~''"

text \<open>A segment of digits runs to the next non-digit, one of letters to the next digit.\<close>

definition rpm_segment :: "string \<Rightarrow> string" where
  "rpm_segment s =
     (if isASCIIDigitByte (hd s) then takeWhile isASCIIDigitByte s
      else takeWhile (\<lambda>c. \<not> isASCIIDigitByte c) s)"

lemma rpm_segment_nonempty: "s \<noteq> [] \<Longrightarrow> rpm_segment s \<noteq> []"
  by (cases s) (auto simp: rpm_segment_def)

definition rpm_compare_segments :: "unicode \<Rightarrow> string \<Rightarrow> string \<Rightarrow> Ordering" where
  "rpm_compare_segments U segA segB =
     (let digA = isASCIIDigitByte (hd segA); digB = isASCIIDigitByte (hd segB) in
      if digA \<and> digB then
        (if length segA \<noteq> length segB then
           (if length segA < length segB then OrderingLess else OrderingGreater)
         else if segA \<noteq> segB then (if segA < segB then OrderingLess else OrderingGreater)
         else OrderingEqual)
      else if digA then OrderingGreater
      else if digB then OrderingLess
      else
        (let la = to_lower U segA; lb = to_lower U segB in
         if la \<noteq> lb then (if la < lb then OrderingLess else OrderingGreater) else OrderingEqual))"

text \<open>One side ran out of segments.\<close>

definition rpm_end :: "string \<Rightarrow> string \<Rightarrow> Ordering" where
  "rpm_end a b =
     (if a = [] \<and> b = [] then OrderingEqual else if a = [] then OrderingLess else OrderingGreater)"

function rpm_loop :: "unicode \<Rightarrow> string \<Rightarrow> string \<Rightarrow> Ordering" where
  "rpm_loop U a b =
     (if a = [] \<and> b = [] then rpm_end a b
      else if starts_tilde a \<or> starts_tilde b then
        (if \<not> starts_tilde a then OrderingGreater
         else if \<not> starts_tilde b then OrderingLess
         else rpm_loop U (tl a) (tl b))
      else
        (let a1 = dropWhile (\<lambda>c. \<not> isRPMAlphaNum c) a; b1 = dropWhile (\<lambda>c. \<not> isRPMAlphaNum c) b in
         if a1 = [] \<or> b1 = [] then rpm_end a1 b1
         else
           (let segA = rpm_segment a1; segB = rpm_segment b1; o' = rpm_compare_segments U segA segB in
            if o' \<noteq> OrderingEqual then o'
            else rpm_loop U (drop (length segA) a1) (drop (length segB) b1))))"
  by pat_completeness auto
termination
proof (relation "measure (\<lambda>(U, a, b). length a + length b)", simp, goal_cases)
  case (1 U a b)
  then show ?case by (cases a; cases b) (auto simp: starts_tilde_def)
next
  case (2 U a b a1 b1 segA segB o')
  have "length a1 \<le> length a" "length b1 \<le> length b"
    using 2 by (simp_all add: length_dropWhile_le)
  moreover have "0 < length segA" "0 < length a1"
    using 2 rpm_segment_nonempty [of a1] by simp_all
  moreover have "length (drop (length segA) a1) < length a1"
    using calculation by simp
  moreover have "length (drop (length segB) b1) \<le> length b1" by simp
  ultimately show ?case unfolding in_measure prod.case by linarith
qed

declare rpm_loop.simps [simp del]

definition rpmvercmpCompare :: "unicode \<Rightarrow> string \<Rightarrow> string \<Rightarrow> Ordering" where
  "rpmvercmpCompare U a b = (if a = b then OrderingEqual else rpm_loop U a b)"

definition CompareRPM :: "unicode \<Rightarrow> string \<Rightarrow> string \<Rightarrow> Ordering result" where
  "CompareRPM U a b =
     rbind (wrap_err ''rpm'' (parseRPMEVR a)) (\<lambda>av.
     rbind (wrap_err ''rpm'' (parseRPMEVR b)) (\<lambda>bv.
       Ok (and_then (compareDigitStrings (evr_epoch av) (evr_epoch bv))
            (and_then (rpmvercmpCompare U (evr_version av) (evr_version bv))
               (rpmvercmpCompare U (evr_release av) (evr_release bv))))))"

section \<open>Swapping the arguments\<close>

lemma rpm_compare_segments_ord:
  "rpm_compare_segments U s t =
     (if isASCIIDigitByte (hd s) \<and> isASCIIDigitByte (hd t) then
        and_then (ord_of (length s) (length t)) (ord_of s t)
      else if isASCIIDigitByte (hd s) then OrderingGreater
      else if isASCIIDigitByte (hd t) then OrderingLess
      else ord_of (to_lower U s) (to_lower U t))"
  by (auto simp: rpm_compare_segments_def Let_def and_then_def ord_of_def)

lemma rpm_compare_segments_swap: "rpm_compare_segments U t s = - rpm_compare_segments U s t"
  by (simp add: rpm_compare_segments_ord and_then_flip)

lemma rpm_end_swap: "a = [] \<or> b = [] \<Longrightarrow> rpm_end b a = - rpm_end a b"
  by (auto simp: rpm_end_def)

lemma rpm_loop_swap: "rpm_loop U b a = - rpm_loop U a b"
proof (induction U a b rule: rpm_loop.induct)
  case (1 U a b)
  let ?a1 = "dropWhile (\<lambda>c. \<not> isRPMAlphaNum c) a" and ?b1 = "dropWhile (\<lambda>c. \<not> isRPMAlphaNum c) b"
  let ?sa = "rpm_segment ?a1" and ?sb = "rpm_segment ?b1"
  note loop = rpm_loop.simps [of U a b] rpm_loop.simps [of U b a]
  consider (nil) "a = [] \<and> b = []" | (tilde) "\<not> (a = [] \<and> b = [])" "starts_tilde a \<or> starts_tilde b"
    | (out) "\<not> (a = [] \<and> b = [])" "\<not> (starts_tilde a \<or> starts_tilde b)" "?a1 = [] \<or> ?b1 = []"
    | (segs) "\<not> (a = [] \<and> b = [])" "\<not> (starts_tilde a \<or> starts_tilde b)" "\<not> (?a1 = [] \<or> ?b1 = [])"
    by blast
  then show ?case
  proof cases
    case nil
    then show ?thesis by (auto simp: rpm_loop.simps [of U "[]" "[]"] rpm_end_def)
  next
    case tilde
    then show ?thesis using "1.IH"(1) [OF tilde] by (auto simp: loop)
  next
    case out
    have r: "rpm_loop U a b = rpm_end ?a1 ?b1" "rpm_loop U b a = rpm_end ?b1 ?a1"
      unfolding loop using out by (simp_all only: Let_def if_False if_True disj_commute conj_commute)
    show ?thesis unfolding r by (rule rpm_end_swap [OF out(3)])
  next
    case segs
    let ?o = "rpm_compare_segments U ?sa ?sb"
    have sw: "rpm_compare_segments U ?sb ?sa = - ?o" by (rule rpm_compare_segments_swap)
    have r: "rpm_loop U a b = (if ?o \<noteq> OrderingEqual then ?o
          else rpm_loop U (drop (length ?sa) ?a1) (drop (length ?sb) ?b1))"
      "rpm_loop U b a = (if - ?o \<noteq> OrderingEqual then - ?o
          else rpm_loop U (drop (length ?sb) ?b1) (drop (length ?sa) ?a1))"
      unfolding loop using segs sw by (simp_all only: Let_def if_False disj_commute conj_commute)
    show ?thesis
    proof (cases "?o = OrderingEqual")
      case True
      with "1.IH"(2) [OF segs(1,2) refl refl segs(3) refl refl refl] r show ?thesis by simp
    next
      case False
      then show ?thesis unfolding r by simp
    qed
  qed
qed

lemma rpmvercmpCompare_swap: "rpmvercmpCompare U b a = - rpmvercmpCompare U a b"
  using rpm_loop_swap [of U b a] by (auto simp: rpmvercmpCompare_def)

interpretation rpm: version_order "CompareRPM U" "\<lambda>s. is_ok (parseRPMEVR s)" for U
proof
  show "is_ok (CompareRPM U a b) \<longleftrightarrow> is_ok (parseRPMEVR a) \<and> is_ok (parseRPMEVR b)" for a b
    by (auto simp: CompareRPM_def is_ok_iff result_simps)
  show "CompareRPM U a a = Ok OrderingEqual" if "is_ok (parseRPMEVR a)" for a
    using that parseRPMEVR_epoch [of a]
    by (auto simp: CompareRPM_def is_ok_iff compareDigitStrings_val all_digits_def and_then_def
        rpmvercmpCompare_def)
  show "CompareRPM U b a = Ok (- c)" if c: "CompareRPM U a b = Ok c" for a b c
  proof -
    from c obtain v w where p: "parseRPMEVR a = Ok v" "parseRPMEVR b = Ok w"
      by (auto simp: CompareRPM_def result_simps)
    then have "all_digits (evr_epoch v)" "all_digits (evr_epoch w)"
      by (simp_all add: parseRPMEVR_epoch)
    from compareDigitStrings_swap [OF this] c p
      rpmvercmpCompare_swap [of U "evr_version w" "evr_version v"]
      rpmvercmpCompare_swap [of U "evr_release w" "evr_release v"]
    show ?thesis by (auto simp: CompareRPM_def and_then_flip)
  qed
qed

section \<open>Dotted numbers\<close>

text \<open>Leading zeros are significant, so the numbers are written without them.\<close>

lemma itoa_order:
  "and_then (ord_of (length (itoa m)) (length (itoa n))) (ord_of (itoa m) (itoa n)) = ord_of m n"
proof -
  have d: "list_all is_digit (itoa k)" for k using itoa_digits [of k] by (simp add: all_digits_def)
  have less: "k < l" if "length (itoa k) < length (itoa l)" for k l
  proof -
    have "l > 0" using that itoa_nonempty [of k] by (cases l) (auto simp: itoa_0)
    with digits_shorter_less [OF that d d itoa_nonempty itoa_no_zero] show ?thesis by simp
  qed
  consider "length (itoa m) < length (itoa n)" | "length (itoa n) < length (itoa m)"
    | "length (itoa m) = length (itoa n)" by linarith
  then show ?thesis
  proof cases
    case 1
    with less [of m n] show ?thesis by (simp add: and_then_def ord_of_def)
  next
    case 2
    with less [of n m] show ?thesis by (simp add: and_then_def ord_of_def)
  next
    case 3
    with digits_less_iff [OF _ d d, of m n] digits_less_iff [OF _ d d, of n m]
    show ?thesis by (simp add: and_then_def ord_of_def)
  qed
qed

lemma digit_alnum: "is_digit c \<Longrightarrow> isRPMAlphaNum c"
  by (simp add: isRPMAlphaNum_def is_digit_def)

lemma rpm_numbers:
  assumes "\<not> starts_digit s" "\<not> starts_digit t"
  shows "rpm_loop U (itoa m @ s) (itoa n @ t) = and_then (ord_of m n) (rpm_loop U s t)"
proof -
  have d: "list_all is_digit (itoa k)" for k using itoa_digits [of k] by (simp add: all_digits_def)
  have h: "is_digit (hd (itoa k @ u))" for k u
    using d [of k] itoa_nonempty [of k] by (cases "itoa k") auto
  have seg: "rpm_segment (itoa k @ u) = itoa k" if "\<not> starts_digit u" for k u
  proof -
    have "takeWhile is_digit (itoa k @ u) = itoa k @ takeWhile is_digit u"
      using d [of k] by (intro takeWhile_append2) (auto simp: list_all_iff)
    moreover have "takeWhile is_digit u = []" using that by (cases u) auto
    ultimately show ?thesis
      using h [of k u] by (simp add: rpm_segment_def fun_eq_iff [of isASCIIDigitByte is_digit, simplified])
  qed
  have drop: "dropWhile (\<lambda>c. \<not> isRPMAlphaNum c) (itoa k @ u) = itoa k @ u" for k u
    using h [of k u] digit_alnum itoa_nonempty [of k] by (cases "itoa k") auto
  have t: "\<not> starts_tilde (itoa k @ u)" for k u
    using h [of k u] by (auto simp: starts_tilde_def is_digit_def)
  have c: "rpm_compare_segments U (itoa m) (itoa n) = ord_of m n"
    using h [of m "[]"] h [of n "[]"] by (simp add: rpm_compare_segments_ord itoa_order)
  show ?thesis
    unfolding rpm_loop.simps [of U "itoa m @ s"] Let_def drop seg [OF assms(1)] seg [OF assms(2)] c
    using t itoa_nonempty by (simp add: and_then_def)
qed

lemma starts_digit_itoa [simp]: "starts_digit (itoa k @ u)"
  using itoa_digits [of k] itoa_nonempty [of k] by (cases "itoa k") (auto simp: all_digits_def)

lemma rpm_dots:
  assumes "starts_digit s" "starts_digit t"
  shows "rpm_loop U (CHR ''.'' # s) (CHR ''.'' # t) = rpm_loop U s t"
    and "rpm_loop U (CHR ''.'' # s) [] = OrderingGreater"
proof -
  have nt: "\<not> starts_tilde u" if "starts_digit u" for u
    using that by (auto simp: starts_tilde_def starts_digit_def is_digit_def)
  have d: "\<not> isRPMAlphaNum CHR ''.''" by code_simp
  have k: "dropWhile (\<lambda>c. \<not> isRPMAlphaNum c) (CHR ''.'' # u) = u"
    "dropWhile (\<lambda>c. \<not> isRPMAlphaNum c) u = u" "u \<noteq> []"
    if "starts_digit u" for u
    using that d digit_alnum by (cases u; auto)+
  have dt: "\<not> starts_tilde (CHR ''.'' # u)" for u by (simp add: starts_tilde_def)
  show "rpm_loop U (CHR ''.'' # s) (CHR ''.'' # t) = rpm_loop U s t"
    unfolding rpm_loop.simps [of U "CHR ''.'' # s"] rpm_loop.simps [of U s]
    by (simp only: k [OF assms(1)] k [OF assms(2)] dt nt [OF assms(1)] nt [OF assms(2)]) simp
  show "rpm_loop U (CHR ''.'' # s) [] = OrderingGreater"
    unfolding rpm_loop.simps [of U "CHR ''.'' # s"]
    by (simp only: k [OF assms(1)] dt) (simp add: starts_tilde_def rpm_end_def k(3) [OF assms(1)])
qed

definition dotted :: "nat list \<Rightarrow> string" where
  "dotted ns = join_byte CHR ''.'' (map itoa ns)"

lemma dotted_Cons: "dotted (n # ns) = itoa n @ (if ns = [] then [] else CHR ''.'' # dotted ns)"
  by (simp add: dotted_def join_dot_Cons)

lemma starts_digit_dotted: "ns \<noteq> [] \<Longrightarrow> starts_digit (dotted ns)"
  by (cases ns) (simp_all add: dotted_Cons)

lemma ord_of_Nil: "xs \<noteq> [] \<Longrightarrow> ord_of xs [] = OrderingGreater" "xs \<noteq> [] \<Longrightarrow> ord_of [] xs = OrderingLess"
  by (cases xs; simp add: ord_of_def)+

lemma rpm_dotted: "ms \<noteq> [] \<Longrightarrow> ns \<noteq> [] \<Longrightarrow> rpm_loop U (dotted ms) (dotted ns) = ord_of ms ns"
proof (induction ms arbitrary: ns)
  case Nil
  then show ?case by simp
next
  case (Cons m ms)
  then obtain n ns' where ns: "ns = n # ns'" by (cases ns) auto
  let ?s = "if ms = [] then [] else CHR ''.'' # dotted ms"
  let ?t = "if ns' = [] then [] else CHR ''.'' # dotted ns'"
  have nd: "\<not> starts_digit ?s" "\<not> starts_digit ?t" by (simp_all add: is_digit_def)
  have "rpm_loop U ?s ?t = ord_of ms ns'"
  proof (cases "ms = [] \<or> ns' = []")
    case True
    then consider "ms = []" "ns' = []" | "ms \<noteq> []" "ns' = []" | "ms = []" "ns' \<noteq> []" by blast
    then show ?thesis
    proof cases
      case 1
      then show ?thesis by (simp add: rpm_loop.simps rpm_end_def)
    next
      case 2
      with rpm_dots(2) [of "dotted ms" "dotted ms"] show ?thesis
        by (simp add: starts_digit_dotted ord_of_Nil)
    next
      case 3
      with rpm_dots(2) [of "dotted ns'" "dotted ns'" U] rpm_loop_swap [of U "[]" "CHR ''.'' # dotted ns'"]
      show ?thesis by (simp add: starts_digit_dotted ord_of_Nil)
    qed
  next
    case False
    with Cons.IH [of ns'] show ?thesis by (simp add: rpm_dots(1) starts_digit_dotted)
  qed
  with rpm_numbers [OF nd, of U m n] show ?case by (simp add: ns dotted_Cons ord_of_Cons)
qed

text \<open>Such a version has no epoch, no revision and no release.\<close>

lemma dotted_chars: "c \<in> set (dotted ns) \<Longrightarrow> is_digit c \<or> c = CHR ''.''"
proof (induction ns)
  case Nil
  then show ?case by (simp add: dotted_def)
next
  case (Cons n ns)
  then show ?case using itoa_digits [of n]
    by (auto simp: dotted_Cons all_digits_def list_all_iff split: if_splits)
qed

lemma dotted_nonempty: "ns \<noteq> [] \<Longrightarrow> dotted ns \<noteq> []"
  using starts_digit_dotted by force

lemma parse_dotted:
  assumes "ns \<noteq> []"
  shows "parseRPMEVR (dotted ns) = Ok \<lparr>evr_epoch = ''0'', evr_version = dotted ns, evr_release = ''''\<rparr>"
    and "parseDebian (dotted ns) = Ok \<lparr>deb_epoch = ''0'', deb_upstream = dotted ns, deb_revision = ''''\<rparr>"
proof -
  have "CHR '':'' \<notin> set (dotted ns)" "CHR ''-'' \<notin> set (dotted ns)"
    using dotted_chars [of "CHR '':''" ns] dotted_chars [of "CHR ''-''" ns] by (auto simp: is_digit_def)
  then show "parseRPMEVR (dotted ns) = Ok \<lparr>evr_epoch = ''0'', evr_version = dotted ns, evr_release = ''''\<rparr>"
    "parseDebian (dotted ns) = Ok \<lparr>deb_epoch = ''0'', deb_upstream = dotted ns, deb_revision = ''''\<rparr>"
    using dotted_nonempty [OF assms] by (simp_all add: parseRPMEVR_def parseDebian_def splitEpoch_def)
qed

end
