(* ===== verification/VersionMaven.thy ===== *)
theory VersionMaven
  imports VersionRpm
begin

text \<open>
  The maven scheme of internal/domain/version_strategy.go: the tokens of a version, read off
  the lowercased string, their categories, and the position-wise comparison in which a missing
  token counts as the release. The tokeniser does not advance on an uppercase letter; it is a
  partial function here, and that it returns on every lowercased string is proved.
\<close>

section \<open>Tokens\<close>

datatype mavenItemKind = mavenItemPre | mavenItemRelease | mavenItemNumeric | mavenItemSP | mavenItemString

text \<open>The constants count from 0 in the order of their declaration.\<close>

fun kind_iota :: "mavenItemKind \<Rightarrow> nat" where
  "kind_iota mavenItemPre = 0"
| "kind_iota mavenItemRelease = 1"
| "kind_iota mavenItemNumeric = 2"
| "kind_iota mavenItemSP = 3"
| "kind_iota mavenItemString = 4"

record mavenItem =
  mi_pre :: int
  mi_num :: string
  mi_str :: string
  mi_kind :: mavenItemKind

definition mavenQualifiers :: "string \<rightharpoonup> int" where
  "mavenQualifiers =
     [''alpha'' \<mapsto> 0, ''beta'' \<mapsto> 1, ''milestone'' \<mapsto> 2, ''rc'' \<mapsto> 3, ''snapshot'' \<mapsto> 4]"

definition zero_item :: "mavenItemKind \<Rightarrow> mavenItem" where
  "zero_item k = \<lparr>mi_pre = 0, mi_num = '''', mi_str = '''', mi_kind = k\<rparr>"

definition number_item :: "string \<Rightarrow> mavenItem" where
  "number_item run =
     (let num = trim_zeros run in
      if num = '''' then zero_item mavenItemRelease
      else (zero_item mavenItemNumeric)\<lparr>mi_num := num\<rparr>)"

definition word_item :: "string \<Rightarrow> mavenItem" where
  "word_item word =
     (if word = ''ga'' \<or> word = ''final'' \<or> word = ''release'' then zero_item mavenItemRelease
      else if word = ''sp'' then zero_item mavenItemSP
      else
        (case mavenQualifiers word of
           Some rank \<Rightarrow> (zero_item mavenItemPre)\<lparr>mi_pre := rank\<rparr>
         | None \<Rightarrow> (zero_item mavenItemString)\<lparr>mi_str := word\<rparr>))"

definition is_az :: "char \<Rightarrow> bool" where
  "is_az c \<longleftrightarrow> c \<ge> CHR ''a'' \<and> c \<le> CHR ''z''"

text \<open>The loop of the tokeniser from a suffix of the lowercased string; \<open>None\<close> when it does
  not end.\<close>

partial_function (option) maven_items :: "string \<Rightarrow> mavenItem list option" where
  "maven_items s =
     (if s = [] then Some []
      else if \<not> isRPMAlphaNum (hd s) then maven_items (tl s)
      else if isASCIIDigitByte (hd s) then
        Option.bind (maven_items (dropWhile isASCIIDigitByte s))
          (\<lambda>items. Some (number_item (takeWhile isASCIIDigitByte s) # items))
      else
        Option.bind (maven_items (dropWhile is_az s))
          (\<lambda>items. Some (word_item (takeWhile is_az s) # items)))"

declare maven_items.simps [code]

definition parseMavenVersion :: "unicode \<Rightarrow> string \<Rightarrow> mavenItem list result option" where
  "parseMavenVersion U s =
     (if s = '''' then Some (Err (EmptyField ''version''))
      else map_option Ok (maven_items (to_lower U s)))"

section \<open>Comparison\<close>

definition compareMavenItems :: "mavenItem \<Rightarrow> mavenItem \<Rightarrow> Ordering" where
  "compareMavenItems x y =
     (if mi_kind x = mavenItemPre \<and> mi_kind y = mavenItemPre then orderFromSign (mi_pre x - mi_pre y)
      else if mi_kind x = mavenItemNumeric \<and> mi_kind y = mavenItemNumeric then
        compareDigitStrings (mi_num x) (mi_num y)
      else if mi_kind x = mavenItemString \<and> mi_kind y = mavenItemString then
        ord_of (mi_str x) (mi_str y)
      else if kind_iota (mi_kind x) < kind_iota (mi_kind y) then OrderingLess
      else if kind_iota (mi_kind x) > kind_iota (mi_kind y) then OrderingGreater
      else OrderingEqual)"

definition mavenReleasePad :: mavenItem where
  "mavenReleasePad = zero_item mavenItemRelease"

text \<open>The item at a position, or the padding.\<close>

fun maven_compare :: "mavenItem list \<Rightarrow> mavenItem list \<Rightarrow> Ordering" where
  "maven_compare [] [] = OrderingEqual"
| "maven_compare (x # xs) [] = and_then (compareMavenItems x mavenReleasePad) (maven_compare xs [])"
| "maven_compare [] (y # ys) = and_then (compareMavenItems mavenReleasePad y) (maven_compare [] ys)"
| "maven_compare (x # xs) (y # ys) = and_then (compareMavenItems x y) (maven_compare xs ys)"

definition CompareMaven :: "unicode \<Rightarrow> string \<Rightarrow> string \<Rightarrow> Ordering result option" where
  "CompareMaven U a b =
     Option.bind (parseMavenVersion U a) (\<lambda>ra.
       case wrap_err ''maven'' ra of
         Inl e \<Rightarrow> Some (Err e)
       | Inr av \<Rightarrow>
           Option.bind (parseMavenVersion U b) (\<lambda>rb.
             case wrap_err ''maven'' rb of
               Inl e \<Rightarrow> Some (Err e)
             | Inr bv \<Rightarrow> Some (Ok (maven_compare av bv))))"

section \<open>The tokeniser returns\<close>

definition no_upper :: "string \<Rightarrow> bool" where
  "no_upper s \<longleftrightarrow> list_all (\<lambda>c. \<not> is_upper c) s"

lemma no_upper_simps [simp]: "no_upper []" "no_upper (c # s) \<longleftrightarrow> \<not> is_upper c \<and> no_upper s"
  by (simp_all add: no_upper_def)

lemma no_upper_dropWhile: "no_upper s \<Longrightarrow> no_upper (dropWhile p s)"
  by (auto simp: no_upper_def list_all_iff dest: set_dropWhileD)

lemma no_upper_to_lower: "no_upper (to_lower U s)"
  using to_lower_no_upper by (auto simp: no_upper_def list_all_iff)

lemma alnum_cases: "isRPMAlphaNum c \<longleftrightarrow> is_digit c \<or> is_az c \<or> is_upper c"
  by (auto simp: isRPMAlphaNum_def is_digit_def is_az_def is_upper_def)

text \<open>The digits of a numeric token are digits.\<close>

definition item_ok :: "mavenItem \<Rightarrow> bool" where
  "item_ok x \<longleftrightarrow> list_all is_digit (mi_num x)"

lemma item_ok_items [simp]:
  "item_ok (word_item w)" "item_ok (number_item (takeWhile is_digit s))" "item_ok mavenReleasePad"
proof -
  have "list_all is_digit (takeWhile is_digit s)" by (auto simp: list_all_iff dest: set_takeWhileD)
  then show "item_ok (number_item (takeWhile is_digit s))"
    using trim_zeros_props(1) [of "takeWhile is_digit s"]
    by (auto simp: item_ok_def number_item_def zero_item_def Let_def)
qed (auto simp: item_ok_def word_item_def zero_item_def mavenReleasePad_def split: option.splits)

lemma isASCIIDigitByte_eq: "isASCIIDigitByte = is_digit"
  by (rule ext) simp

lemma maven_items_returns: "no_upper s \<Longrightarrow> \<exists>items. maven_items s = Some items \<and> list_all item_ok items"
proof (induction s rule: length_induct)
  case (1 s)
  show ?case
  proof (cases s)
    case Nil
    then show ?thesis by (simp add: maven_items.simps)
  next
    case (Cons c t)
    have IH: "\<exists>items. maven_items u = Some items \<and> list_all item_ok items"
      if "length u < length s" "no_upper u" for u
      using 1 that by blast
    have d: "length (dropWhile p t) < length s" "no_upper (dropWhile p t)" for p
      using 1 Cons by (auto simp: no_upper_dropWhile length_dropWhile_le le_imp_less_Suc)
    consider "\<not> isRPMAlphaNum c" | "isRPMAlphaNum c" "is_digit c" | "isRPMAlphaNum c" "\<not> is_digit c" "is_az c"
      using alnum_cases [of c] 1 Cons by auto
    then show ?thesis
    proof cases
      case 1
      then show ?thesis using IH [of t] \<open>no_upper s\<close> Cons by (subst maven_items.simps) auto
    next
      case 2
      then obtain items where "maven_items (dropWhile is_digit t) = Some items" "list_all item_ok items"
        using IH [OF d, of is_digit] by auto
      with 2 Cons item_ok_items(2) [of "c # t"] show ?thesis
        by (subst maven_items.simps) (simp add: isASCIIDigitByte_eq)
    next
      case 3
      then show ?thesis using IH [OF d, of is_az] Cons
        by (subst maven_items.simps) (auto simp: isASCIIDigitByte_eq)
    qed
  qed
qed

lemma parseMavenVersion_cases:
  "parseMavenVersion U s = (if s = '''' then Some (Err (EmptyField ''version''))
     else Some (Ok (the (maven_items (to_lower U s)))))"
  using maven_items_returns [OF no_upper_to_lower, of U s] by (auto simp: parseMavenVersion_def)

text \<open>The items of a version, once it is known that there are some.\<close>

definition items_of :: "unicode \<Rightarrow> string \<Rightarrow> mavenItem list" where
  "items_of U s = the (maven_items (to_lower U s))"

lemma CompareMaven_items:
  "a \<noteq> '''' \<Longrightarrow> b \<noteq> '''' \<Longrightarrow> CompareMaven U a b = Some (Ok (maven_compare (items_of U a) (items_of U b)))"
  by (simp add: CompareMaven_def parseMavenVersion_cases items_of_def)

lemma CompareMaven_empty:
  "a = '''' \<or> b = '''' \<Longrightarrow> CompareMaven U a b = Some (Err (Wrapped ''maven'' (EmptyField ''version'')))"
  by (auto simp: CompareMaven_def parseMavenVersion_cases)

section \<open>The order\<close>

definition item_key :: "mavenItem \<Rightarrow> nat \<times> int \<times> nat \<times> string" where
  "item_key x =
     (kind_iota (mi_kind x),
      (if mi_kind x = mavenItemPre then mi_pre x else 0),
      (if mi_kind x = mavenItemNumeric then digits_val (mi_num x) else 0),
      (if mi_kind x = mavenItemString then mi_str x else ''''))"

lemma compareMavenItems_key:
  assumes "item_ok x" "item_ok y"
  shows "compareMavenItems x y = ord_of (item_key x) (item_key y)"
proof -
  have d: "compareDigitStrings (mi_num x) (mi_num y) = ord_of (digits_val (mi_num x)) (digits_val (mi_num y))"
    using assms by (simp add: item_ok_def compareDigitStrings_val)
  show ?thesis
    by (cases "mi_kind x"; cases "mi_kind y")
      (auto simp: compareMavenItems_def item_key_def d orderFromSign_diff and_then_ord_of [symmetric],
       auto simp: ord_of_def and_then_def)
qed

definition pad_items :: "nat \<Rightarrow> mavenItem list \<Rightarrow> mavenItem list" where
  "pad_items n xs = xs @ replicate (n - length xs) mavenReleasePad"

lemma pad_items_simps [simp]:
  "pad_items (Suc n) (x # xs) = x # pad_items n xs"
  "pad_items (Suc n) [] = mavenReleasePad # pad_items n []"
  by (simp_all add: pad_items_def)

lemma maven_compare_padded:
  "length xs \<le> n \<Longrightarrow> length ys \<le> n \<Longrightarrow> list_all item_ok xs \<Longrightarrow> list_all item_ok ys \<Longrightarrow>
     maven_compare xs ys = ord_of (map item_key (pad_items n xs)) (map item_key (pad_items n ys))"
proof (induction xs ys arbitrary: n rule: maven_compare.induct)
  case (2 x xs)
  then obtain m where "n = Suc m" by (cases n) auto
  with 2 show ?case by (simp add: ord_of_Cons compareMavenItems_key)
next
  case (3 y ys)
  then obtain m where "n = Suc m" by (cases n) auto
  with 3 show ?case by (simp add: ord_of_Cons compareMavenItems_key)
next
  case (4 x xs y ys)
  then obtain m where "n = Suc m" by (cases n) auto
  with 4 show ?case by (simp add: ord_of_Cons compareMavenItems_key)
qed simp

lemma items_of_ok: "list_all item_ok (items_of U s)"
  using maven_items_returns [OF no_upper_to_lower, of U s] by (auto simp: items_of_def)

definition maven_decides :: "unicode \<Rightarrow> string \<Rightarrow> string \<Rightarrow> Ordering result" where
  "maven_decides U a b = the (CompareMaven U a b)"

lemma ord_of_trans: "ord_of p q \<le> OrderingEqual \<Longrightarrow> ord_of q r \<le> OrderingEqual \<Longrightarrow>
    ord_of p r = min (ord_of p q) (ord_of q r)"
  by (auto simp: ord_of_def min_def split: if_splits)

lemma maven_decides_Ok: "maven_decides U a b = Ok c \<longleftrightarrow>
    a \<noteq> '''' \<and> b \<noteq> '''' \<and> c = maven_compare (items_of U a) (items_of U b)"
  by (cases "a = '''' \<or> b = ''''") (auto simp: maven_decides_def CompareMaven_items CompareMaven_empty)

interpretation maven: version_preorder "maven_decides U" "\<lambda>s. s \<noteq> ''''" for U
proof
  have cmp: "maven_compare (items_of U a) (items_of U b) =
      ord_of (map item_key (pad_items n (items_of U a))) (map item_key (pad_items n (items_of U b)))"
    if "length (items_of U a) \<le> n" "length (items_of U b) \<le> n" for a b n
    using that by (simp add: maven_compare_padded items_of_ok)
  show "is_ok (maven_decides U a b) \<longleftrightarrow> a \<noteq> '''' \<and> b \<noteq> ''''" for a b
    by (auto simp: is_ok_iff maven_decides_Ok)
  show "maven_decides U a a = Ok OrderingEqual" if "a \<noteq> ''''" for a
    using that cmp [of a "length (items_of U a)" a] by (simp add: maven_decides_Ok)
  show "maven_decides U b a = Ok (- c)" if "maven_decides U a b = Ok c" for a b c
    using that cmp [of a "length (items_of U a) + length (items_of U b)" b]
      cmp [of b "length (items_of U a) + length (items_of U b)" a]
    by (simp add: maven_decides_Ok)
  show "maven_decides U a c = Ok (min x y)"
    if "maven_decides U a b = Ok x" "maven_decides U b c = Ok y" "x \<le> OrderingEqual" "y \<le> OrderingEqual"
    for a b c x y
  proof -
    let ?n = "length (items_of U a) + length (items_of U b) + length (items_of U c)"
    let ?k = "\<lambda>s. map item_key (pad_items ?n (items_of U s))"
    have "x = ord_of (?k a) (?k b)" "y = ord_of (?k b) (?k c)"
      "maven_compare (items_of U a) (items_of U c) = ord_of (?k a) (?k c)"
      using that cmp [of a ?n b] cmp [of b ?n c] cmp [of a ?n c] by (simp_all add: maven_decides_Ok)
    moreover have "a \<noteq> ''''" "c \<noteq> ''''" using that by (simp_all add: maven_decides_Ok)
    ultimately show ?thesis
      using that(3,4) ord_of_trans [of "?k a" "?k b" "?k c"] by (simp add: maven_decides_Ok)
  qed
qed

section \<open>Separators split a version\<close>

lemma maven_items_separator:
  "no_upper u \<Longrightarrow> \<not> isRPMAlphaNum c \<Longrightarrow>
     maven_items (u @ c # v) =
       Option.bind (maven_items u) (\<lambda>xs. Option.bind (maven_items v) (\<lambda>ys. Some (xs @ ys)))"
proof (induction u rule: length_induct)
  case (1 u)
  have c: "\<not> is_digit c" "\<not> is_az c" using 1 by (simp_all add: alnum_cases)
  show ?case
  proof (cases u)
    case Nil
    have "maven_items (c # v) = maven_items v" using 1 by (subst maven_items.simps) simp
    with Nil show ?thesis by (simp add: maven_items.simps [of "[]"])
  next
    case (Cons d t)
    have IH: "maven_items (w @ c # v) =
        Option.bind (maven_items w) (\<lambda>xs. Option.bind (maven_items v) (\<lambda>ys. Some (xs @ ys)))"
      if "length w < length u" "no_upper w" for w
      using 1 that by blast
    have drop: "length (dropWhile p t) < length u" "no_upper (dropWhile p t)" for p
      using 1 Cons by (auto simp: no_upper_dropWhile length_dropWhile_le le_imp_less_Suc)
    have len: "length t < length u" "no_upper t" using 1 Cons by auto
    consider "\<not> isRPMAlphaNum d" | "isRPMAlphaNum d" "is_digit d" | "isRPMAlphaNum d" "\<not> is_digit d" "is_az d"
      using alnum_cases [of d] 1 Cons by auto
    then show ?thesis
    proof cases
      case 1
      then show ?thesis
        using Cons IH [OF len] by (simp add: maven_items.simps [of "d # t @ c # v"] maven_items.simps [of "d # t"])
    next
      case 2
      then show ?thesis
        using Cons IH [OF drop, of is_digit] c
        by (simp add: maven_items.simps [of "d # t @ c # v"] maven_items.simps [of "d # t"]
            isASCIIDigitByte_eq dropWhile_append3 takeWhile_tail Option.bind_assoc)
    next
      case 3
      then show ?thesis
        using Cons IH [OF drop, of is_az] c
        by (simp add: maven_items.simps [of "d # t @ c # v"] maven_items.simps [of "d # t"]
            isASCIIDigitByte_eq dropWhile_append3 takeWhile_tail Option.bind_assoc)
    qed
  qed
qed

text \<open>The items of an ASCII literal do not depend on the Unicode data.\<close>

definition ascii_items :: "string \<Rightarrow> mavenItem list" where
  "ascii_items s = the (maven_items (map byte_lower s))"

lemma items_of_ascii: "is_ascii s \<Longrightarrow> items_of U s = ascii_items s"
  by (simp add: items_of_def ascii_items_def to_lower_ascii)

lemma no_upper_lowered: "no_upper (map byte_lower s)"
  using byte_lower_not_upper by (auto simp: no_upper_def list_all_iff)

lemma byte_lower_separator: "\<not> isRPMAlphaNum c \<Longrightarrow> byte_lower c = c"
  by (auto simp: byte_lower_def alnum_cases)

lemma ascii_items_separator:
  assumes "\<not> isRPMAlphaNum c"
  shows "ascii_items (u @ c # v) = ascii_items u @ ascii_items v"
  using maven_items_separator [OF no_upper_lowered [of u] assms, of "map byte_lower v"]
    maven_items_returns [OF no_upper_lowered [of u]] maven_items_returns [OF no_upper_lowered [of v]]
  by (auto simp: ascii_items_def byte_lower_separator [OF assms])

lemma compareMavenItems_refl [simp]: "compareMavenItems x x = OrderingEqual"
  by (simp add: compareMavenItems_def orderFromSign_def compareDigitStrings_def)

lemma maven_compare_prefix: "maven_compare (zs @ xs) (zs @ ys) = maven_compare xs ys"
  by (induction zs) (simp_all add: and_then_def)

text \<open>What follows a separator after a common version.\<close>

lemma CompareMaven_common:
  assumes "is_ascii v" "v \<noteq> ''''" "is_ascii q" "is_ascii r"
    "q = '''' \<or> \<not> isRPMAlphaNum (hd q)" "r = '''' \<or> \<not> isRPMAlphaNum (hd r)"
  shows "CompareMaven U (v @ q) (v @ r) = Some (Ok (maven_compare (ascii_items q) (ascii_items r)))"
proof -
  have "items_of U (v @ x) = ascii_items v @ ascii_items x"
    if "is_ascii x" "x = '''' \<or> \<not> isRPMAlphaNum (hd x)" for x
  proof (cases x)
    case Nil
    have "ascii_items [] = []" by code_simp
    with Nil assms(1) show ?thesis by (simp add: items_of_ascii)
  next
    case (Cons c y)
    have "ascii_items (c # y) = ascii_items y"
      using ascii_items_separator [of c "[]" y] that Cons by (simp add: ascii_items_def maven_items.simps [of "[]"])
    with ascii_items_separator [of c v y] that Cons assms(1) show ?thesis
      by (simp add: items_of_ascii is_ascii_def)
  qed
  with assms show ?thesis by (simp add: CompareMaven_items maven_compare_prefix)
qed

section \<open>Properties\<close>

text \<open>C37: The Maven comparison returns for every pair of strings and every treatment of
  non-ASCII letters, although its tokeniser has an iteration that would not advance: it fails
  exactly when a version is empty.\<close>

theorem maven_returns:
  "\<exists>r. CompareMaven U a b = Some r \<and> (is_ok r \<longleftrightarrow> a \<noteq> '''' \<and> b \<noteq> '''')"
  by (cases "a = '''' \<or> b = ''''") (auto simp: CompareMaven_empty CompareMaven_items)

definition maven_chain :: "string list" where
  "maven_chain = [''-alpha'', ''-Alpha-1'', ''-beta-1'', ''-milestone-1'', ''-rc-1'', ''-SNAPSHOT'', '''',
     ''-1'', ''-2'', ''-10'', ''-sp'', ''-sp-1'', ''-abc'', ''-xyz'']"

definition maven_same :: "string list" where
  "maven_same = ['''', ''.0'', ''.0.0'', ''-0'', ''-ga'', ''-Final'', ''-RELEASE'', ''.'']"

text \<open>The documented order of Maven qualifiers, after any ASCII version: every version of
  the chain (the alpha to snapshot pre-releases, the version itself, its numbered builds in
  numeric order, service packs, unknown qualifiers) is older than all later ones, and the
  spellings of the release itself are equal.\<close>

theorem maven_qualifier_order:
  assumes "is_ascii v" "v \<noteq> ''''"
  shows "sorted_wrt (\<lambda>q r. CompareMaven U (v @ q) (v @ r) = Some (Ok OrderingLess)) maven_chain \<and>
    list_all (\<lambda>q. CompareMaven U (v @ q) v = Some (Ok OrderingEqual)) maven_same"
proof
  have ok: "list_all (\<lambda>q. is_ascii q \<and> (q = '''' \<or> \<not> isRPMAlphaNum (hd q))) (maven_chain @ maven_same)"
    by code_simp
  have cmp: "CompareMaven U (v @ q) (v @ r) = Some (Ok (maven_compare (ascii_items q) (ascii_items r)))"
    if "q \<in> set (maven_chain @ maven_same)" "r \<in> set (maven_chain @ maven_same)" for q r
    using that ok assms by (intro CompareMaven_common) (auto simp: list_all_iff)
  have "sorted_wrt (\<lambda>x y. maven_compare x y = OrderingLess) (map ascii_items maven_chain)"
    by code_simp
  then have "sorted_wrt (\<lambda>q r. maven_compare (ascii_items q) (ascii_items r) = OrderingLess) maven_chain"
    by (simp add: sorted_wrt_map)
  then show "sorted_wrt (\<lambda>q r. CompareMaven U (v @ q) (v @ r) = Some (Ok OrderingLess)) maven_chain"
    by (rule sorted_wrt_mono_rel [rotated]) (simp add: cmp)
  have "list_all (\<lambda>x. maven_compare x (ascii_items '''') = OrderingEqual) (map ascii_items maven_same)"
    by code_simp
  then have "list_all (\<lambda>q. maven_compare (ascii_items q) (ascii_items '''') = OrderingEqual) maven_same"
    by (simp add: list.pred_map comp_def)
  then have eq: "maven_compare (ascii_items q) (ascii_items '''') = OrderingEqual" if "q \<in> set maven_same" for q
    using that unfolding list_all_iff by blast
  have nil: "'''' \<in> set (maven_chain @ maven_same)" by (simp add: maven_chain_def)
  have "CompareMaven U (v @ q) v = Some (Ok OrderingEqual)" if "q \<in> set maven_same" for q
    using cmp [OF _ nil, of q] eq [OF that] that by simp
  then show "list_all (\<lambda>q. CompareMaven U (v @ q) v = Some (Ok OrderingEqual)) maven_same"
    unfolding list_all_iff by blast
qed

theorem maven_qualifier_order_witness:
  "CompareMaven plain_unicode ''1.0-rc-1'' ''1.0'' = Some (Ok OrderingLess) \<and>
   CompareMaven plain_unicode ''1.0-ga'' ''1.0'' = Some (Ok OrderingEqual)"
proof -
  have "is_ascii ''1.0''" "''1.0'' \<noteq> ''''" by code_simp+
  from maven_qualifier_order [OF this, of plain_unicode] show ?thesis
    by (simp add: maven_chain_def maven_same_def)
qed

end
