(* ===== verification/VersionStrategy.thy ===== *)
theory VersionStrategy
  imports VersionSemver VersionMaven
begin

text \<open>
  The registry of version strategies (internal/domain/version_strategy.go) and what every
  strategy and every range evaluation promises; the window lemmas are proved once in the
  contract of a transitive comparator and used through its interpretations.
\<close>

section \<open>The registry\<close>

definition versionStrategies :: "unicode \<Rightarrow> VersionScheme \<rightharpoonup> versionStrategy" where
  "versionStrategies U =
     [VersionSchemeSemver \<mapsto> \<lparr>strategy_scheme = VersionSchemeSemver, strategy_compare = CompareSemver\<rparr>,
      VersionSchemeDebian \<mapsto> \<lparr>strategy_scheme = VersionSchemeDebian, strategy_compare = CompareDebian\<rparr>,
      VersionSchemeRPM \<mapsto> \<lparr>strategy_scheme = VersionSchemeRPM, strategy_compare = CompareRPM U\<rparr>,
      VersionSchemeMaven \<mapsto> \<lparr>strategy_scheme = VersionSchemeMaven, strategy_compare = maven_decides U\<rparr>,
      VersionSchemeCalver \<mapsto> \<lparr>strategy_scheme = VersionSchemeCalver, strategy_compare = CompareCalver\<rparr>,
      VersionSchemeGeneric \<mapsto> \<lparr>strategy_scheme = VersionSchemeGeneric, strategy_compare = CompareGeneric\<rparr>]"

definition StrategyFor :: "unicode \<Rightarrow> VersionScheme \<Rightarrow> versionStrategy" where
  "StrategyFor U scheme =
     (case versionStrategies U scheme of Some s \<Rightarrow> s | None \<Rightarrow> unknownVersionStrategy)"

definition ordered_schemes :: "VersionScheme list" where
  "ordered_schemes = [VersionSchemeSemver, VersionSchemeDebian, VersionSchemeRPM, VersionSchemeMaven,
     VersionSchemeCalver, VersionSchemeGeneric]"

lemma strategy_compare_simps [simp]:
  "strategy_compare (StrategyFor U VersionSchemeSemver) = CompareSemver"
  "strategy_compare (StrategyFor U VersionSchemeDebian) = CompareDebian"
  "strategy_compare (StrategyFor U VersionSchemeRPM) = CompareRPM U"
  "strategy_compare (StrategyFor U VersionSchemeMaven) = maven_decides U"
  "strategy_compare (StrategyFor U VersionSchemeCalver) = CompareCalver"
  "strategy_compare (StrategyFor U VersionSchemeGeneric) = CompareGeneric"
  "\<not> is_ok (strategy_compare (StrategyFor U VersionSchemeUnknown) a b)"
  "\<not> is_ok (strategy_compare (StrategyFor U (OtherVersionScheme t)) a b)"
  by (simp_all add: StrategyFor_def versionStrategies_def unknownVersionStrategy_def)

lemma StrategyFor_unordered:
  "sch \<notin> set ordered_schemes \<Longrightarrow> StrategyFor U sch = unknownVersionStrategy"
  by (cases sch) (auto simp: StrategyFor_def versionStrategies_def ordered_schemes_def)

section \<open>Windows\<close>

lemma inVersionRange_True:
  "inVersionRange v rng s = Ok True \<longleftrightarrow>
     trim_space v \<noteq> '''' \<and>
     (Range_Start rng \<noteq> '''' \<longrightarrow>
        (\<exists>c. strategy_compare s v (Range_Start rng) = Ok c \<and>
           (if Range_StartIncluding rng then c \<ge> OrderingEqual else c = OrderingGreater))) \<and>
     (Range_End rng \<noteq> '''' \<longrightarrow>
        (\<exists>c. strategy_compare s v (Range_End rng) = Ok c \<and>
           (if Range_EndIncluding rng then c \<le> OrderingEqual else c = OrderingLess)))"
  by (auto simp: inVersionRange_def result_simps split: if_splits)

context version_preorder
begin

lemma le_trans:
  "compare a b = Ok x \<Longrightarrow> x \<le> OrderingEqual \<Longrightarrow> compare b c = Ok y \<Longrightarrow> y \<le> OrderingEqual \<Longrightarrow>
     \<exists>z. compare a c = Ok z \<and> z \<le> OrderingEqual \<and> (x = OrderingLess \<or> y = OrderingLess \<longrightarrow> z = OrderingLess)"
  using trans [of a b x c y] by (cases x; cases y) (auto simp: min_def)

lemma ge_trans:
  "compare b a = Ok x \<Longrightarrow> x \<ge> OrderingEqual \<Longrightarrow> compare c b = Ok y \<Longrightarrow> y \<ge> OrderingEqual \<Longrightarrow>
     \<exists>z. compare c a = Ok z \<and> z \<ge> OrderingEqual \<and> (x = OrderingGreater \<or> y = OrderingGreater \<longrightarrow> z = OrderingGreater)"
proof -
  assume a: "compare b a = Ok x" "x \<ge> OrderingEqual" "compare c b = Ok y" "y \<ge> OrderingEqual"
  then have "compare a b = Ok (- x)" "- x \<le> OrderingEqual" "compare b c = Ok (- y)" "- y \<le> OrderingEqual"
    using flip by auto
  from le_trans [OF this] obtain z where "compare a c = Ok z" "z \<le> OrderingEqual"
    "- x = OrderingLess \<or> - y = OrderingLess \<longrightarrow> z = OrderingLess" by blast
  with flip [of a c z] show ?thesis by (intro exI [of _ "- z"]) auto
qed

text \<open>A window is an interval: what lies between two of its versions is in it.\<close>

lemma window_convex:
  assumes "inVersionRange u rng s = Ok True" "inVersionRange w rng s = Ok True"
    and "strategy_compare s = compare" "trim_space v \<noteq> ''''"
    and "compare u v = Ok x" "x \<le> OrderingEqual" "compare v w = Ok y" "y \<le> OrderingEqual"
  shows "inVersionRange v rng s = Ok True"
proof -
  have vu: "compare v u = Ok (- x)" "- x \<ge> OrderingEqual"
    using flip [OF assms(5)] assms(6) by auto
  have 1: "\<exists>c. compare v (Range_Start rng) = Ok c \<and>
      (if Range_StartIncluding rng then c \<ge> OrderingEqual else c = OrderingGreater)"
    if ne: "Range_Start rng \<noteq> ''''"
  proof -
    obtain c where "compare u (Range_Start rng) = Ok c"
      "if Range_StartIncluding rng then c \<ge> OrderingEqual else c = OrderingGreater"
      using assms(1,3) ne by (auto simp: inVersionRange_True)
    with ge_trans [OF this(1) _ vu] show ?thesis by (auto split: if_splits)
  qed
  have 2: "\<exists>c. compare v (Range_End rng) = Ok c \<and>
      (if Range_EndIncluding rng then c \<le> OrderingEqual else c = OrderingLess)"
    if ne: "Range_End rng \<noteq> ''''"
  proof -
    obtain c where "compare w (Range_End rng) = Ok c"
      "if Range_EndIncluding rng then c \<le> OrderingEqual else c = OrderingLess"
      using assms(2,3) ne by (auto simp: inVersionRange_True)
    with le_trans [OF assms(7,8) this(1)] show ?thesis by (auto split: if_splits)
  qed
  show ?thesis using 1 2 assms(3,4) by (simp add: inVersionRange_True)
qed

end

section \<open>Dotted numbers under the schemes\<close>

lemma dotted_3: "length ns = 3 \<Longrightarrow> \<exists>a b c. ns = [a, b, c]"
  by (auto simp: numeral_3_eq_3 length_Suc_conv)

lemma itoa_no_dot: "CHR ''.'' \<notin> set (itoa n)"
  using itoa_digits [of n] by (auto simp: all_digits_def list_all_iff is_digit_def)

lemma isDigits_itoa: "isDigits (itoa n)"
  by (simp add: isDigits_all_digits itoa_digits)

lemma parseSemver_dotted:
  "parseSemver (dotted [a, b, c]) =
     Ok \<lparr>sv_major = itoa a, sv_minor = itoa b, sv_patch = itoa c, sv_pre = []\<rparr>"
proof -
  let ?s = "dotted [a, b, c]"
  have "starts_digit ?s" by (simp add: starts_digit_dotted)
  then have drop: "dropWhile (\<lambda>c. c = CHR ''v'' \<or> c = CHR ''V'' \<or> c = CHR ''='') ?s = ?s"
    by (cases ?s) (auto simp: is_digit_def)
  have "split_byte CHR ''.'' ?s = [itoa a, itoa b, itoa c]"
    by (simp add: dotted_def split_append_sep split_no_sep itoa_no_dot)
  then have parts: "semver_parts ?s '''' =
      Ok \<lparr>sv_major = itoa a, sv_minor = itoa b, sv_patch = itoa c, sv_pre = []\<rparr>"
    by (simp add: semver_parts_def isDigits_itoa Let_def)
  have "CHR ''+'' \<notin> set ?s" "CHR ''-'' \<notin> set ?s"
    using dotted_chars [of "CHR ''+''" "[a, b, c]"] dotted_chars [of "CHR ''-''" "[a, b, c]"]
    by (auto simp: is_digit_def)
  with drop parts dotted_nonempty [of "[a, b, c]"] show ?thesis
    by (simp add: parseSemver_def Let_def)
qed

lemma CompareSemver_dotted: "CompareSemver (dotted [a, b, c]) (dotted [d, e, f]) = Ok (ord_of [a, b, c] [d, e, f])"
proof -
  have "compareDigitStrings (itoa m) (itoa n) = ord_of m n" for m n
    using itoa_digits [of m] itoa_digits [of n] by (simp add: compareDigitStrings_val all_digits_def)
  then show ?thesis
    by (simp add: CompareSemver_def parseSemver_dotted compare_semver_pre_def ord_of_Cons)
qed

lemma CompareDebian_dotted:
  assumes "ms \<noteq> []" "ns \<noteq> []"
  shows "CompareDebian (dotted ms) (dotted ns) = Ok (ord_of ms ns)"
    and "CompareRPM U (dotted ms) (dotted ns) = Ok (ord_of ms ns)"
    and "CompareGeneric (dotted ms) (dotted ns) = Ok (ord_of ms ns)"
proof -
  have d: "list_all all_digits (map itoa xs)" "map digits_val (map itoa xs) = xs" for xs
    using itoa_digits by (auto simp: list_all_iff comp_def)
  have dpkg: "dpkgOrderCompare (dotted ms) (dotted ns) = ord_of ms ns"
    using dpkg_dotted [of "map itoa ms" "map itoa ns"] assms d by (simp add: dotted_def comp_def)
  have rpm: "rpmvercmpCompare U (dotted ms) (dotted ns) = ord_of ms ns"
  proof (cases "dotted ms = dotted ns")
    case True
    have "ord_of ms ns = ord_of ms ms"
      using rpm_dotted [OF assms, of U] rpm_dotted [OF assms(1) assms(1), of U] True by metis
    with True show ?thesis by (simp add: rpmvercmpCompare_def)
  next
    case False
    with rpm_dotted [OF assms, of U] show ?thesis by (simp add: rpmvercmpCompare_def)
  qed
  show "CompareDebian (dotted ms) (dotted ns) = Ok (ord_of ms ns)"
    by (simp add: CompareDebian_def parse_dotted assms dpkg compareDigitStrings_def and_then_def)
  show "CompareRPM U (dotted ms) (dotted ns) = Ok (ord_of ms ns)"
    by (simp add: CompareRPM_def parse_dotted assms rpm compareDigitStrings_def and_then_def)
      (simp add: rpmvercmpCompare_def)
  show "CompareGeneric (dotted ms) (dotted ns) = Ok (ord_of ms ns)"
    using trim_space_plain [OF dotted_plain [OF d(1)]] dotted_nonempty [OF assms(1)] dotted_nonempty [OF assms(2)]
    by (simp add: CompareGeneric_def dpkg dotted_def [symmetric])
qed

lemma ascii_dotted: "is_ascii (dotted ns)"
  using dotted_chars [of _ ns]
  by (fastforce simp: is_ascii_def list_all_iff is_digit_nat)

lemma ascii_items_itoa: "ascii_items (itoa n) = [number_item (itoa n)]"
proof -
  have d: "\<forall>c\<in>set (itoa n). is_digit c" using itoa_digits [of n] by (auto simp: all_digits_def list_all_iff)
  then have "map byte_lower (itoa n) = itoa n"
    by (intro map_idI) (auto simp: byte_lower_def is_digit_nat is_upper_nat)
  moreover have t: "takeWhile is_digit (itoa n) = itoa n" "dropWhile is_digit (itoa n) = []"
    using d by (simp_all add: takeWhile_eq_all_conv)
  moreover have "is_digit (hd (itoa n))" "isRPMAlphaNum (hd (itoa n))"
    using d itoa_nonempty [of n] digit_alnum by (auto simp: hd_in_set)
  ultimately show ?thesis
    using itoa_nonempty [of n]
    by (simp add: ascii_items_def maven_items.simps [of "itoa n"] maven_items.simps [of "[]"] isASCIIDigitByte_eq t)
qed

lemma ascii_items_dotted: "ns \<noteq> [] \<Longrightarrow> ascii_items (dotted ns) = map (number_item \<circ> itoa) ns"
proof (induction ns)
  case (Cons n ns)
  have "\<not> isRPMAlphaNum CHR ''.''" by code_simp
  from ascii_items_separator [OF this] Cons show ?case
    by (cases "ns = []") (simp_all add: dotted_Cons ascii_items_itoa)
qed simp

lemma number_item_key: "item_key (number_item (itoa n)) = (if n = 0 then (1, 0, 0, '''') else (2, 0, n, ''''))"
proof -
  have "list_all is_digit (itoa n)" using itoa_digits [of n] by (simp add: all_digits_def)
  then have v: "digits_val (trim_zeros (itoa n)) = n" by (simp add: trim_zeros_props)
  show ?thesis
  proof (cases n)
    case 0
    then show ?thesis by (simp add: itoa_0) code_simp
  next
    case (Suc m)
    then have "trim_zeros (itoa n) \<noteq> ''''" using v by auto
    with Suc v show ?thesis by (simp add: item_key_def number_item_def zero_item_def Let_def)
  qed
qed

lemma maven_compare_numbers: "length ms = length ns \<Longrightarrow>
    maven_compare (map (number_item \<circ> itoa) ms) (map (number_item \<circ> itoa) ns) = ord_of ms ns"
proof (induction ms ns rule: list_induct2)
  case (Cons m ms n ns)
  have ok: "item_ok (number_item (itoa k))" for k
  proof -
    have tw: "takeWhile is_digit (itoa k) = itoa k"
      using itoa_digits [of k] by (simp add: all_digits_def list_all_iff takeWhile_eq_all_conv)
    show ?thesis using item_ok_items(2) [of "itoa k"] unfolding tw .
  qed
  have "compareMavenItems (number_item (itoa m)) (number_item (itoa n)) = ord_of m n"
    by (simp add: compareMavenItems_key ok number_item_key ord_of_def)
  with Cons show ?case by (simp add: ord_of_Cons)
qed simp

lemma maven_dotted:
  "length ms = length ns \<Longrightarrow> ms \<noteq> [] \<Longrightarrow> maven_decides U (dotted ms) (dotted ns) = Ok (ord_of ms ns)"
  by (cases "ns = []")
    (simp_all add: maven_decides_Ok items_of_ascii ascii_dotted ascii_items_dotted maven_compare_numbers dotted_nonempty)

section \<open>Properties\<close>

text \<open>No scheme fabricates an order: whenever a strategy orders two versions, it orders
  them the opposite way round when they are swapped, finds each of them equal to itself, and
  its scheme is one of the six that have an order; every other scheme fails on all pairs.\<close>

theorem strategy_contract:
  assumes "strategy_compare (StrategyFor U sch) a b = Ok c"
  shows "strategy_compare (StrategyFor U sch) b a = Ok (- c) \<and>
    strategy_compare (StrategyFor U sch) a a = Ok OrderingEqual \<and> sch \<in> set ordered_schemes"
proof (cases sch)
  case VersionSchemeSemver
  with assms semver.flip semver.decides_parses semver.refl show ?thesis by (auto simp: ordered_schemes_def)
next
  case VersionSchemeDebian
  with assms debian.flip debian.decides_parses debian.refl show ?thesis by (auto simp: ordered_schemes_def)
next
  case VersionSchemeRPM
  with assms rpm.flip rpm.decides_parses rpm.refl show ?thesis by (auto simp: ordered_schemes_def)
next
  case VersionSchemeMaven
  with assms maven.flip maven.decides_parses maven.refl show ?thesis by (auto simp: ordered_schemes_def)
next
  case VersionSchemeCalver
  with assms calver.flip calver.decides_parses calver.refl show ?thesis by (auto simp: ordered_schemes_def)
next
  case VersionSchemeGeneric
  with assms generic.flip generic.decides_parses generic.refl show ?thesis by (auto simp: ordered_schemes_def)
next
  case VersionSchemeUnknown
  with assms strategy_compare_simps(7) [of U a b] show ?thesis by simp
next
  case (OtherVersionScheme t)
  with assms strategy_compare_simps(8) [of U t a b] show ?thesis by simp
qed

theorem strategy_contract_witness:
  "strategy_compare (StrategyFor plain_unicode VersionSchemeDebian) ''1:0'' ''2.0-1'' = Ok OrderingGreater \<and>
   strategy_compare (StrategyFor plain_unicode VersionSchemeDebian) ''2.0-1'' ''1:0'' = Ok OrderingLess"
proof -
  have e: "CompareDebian ''1:0'' ''2.0-1'' = Ok OrderingGreater" by code_simp
  then show ?thesis using strategy_contract [of plain_unicode VersionSchemeDebian "''1:0''" "''2.0-1''" OrderingGreater]
    by simp
qed

text \<open>When a version is in a window: it is not blank, and it compares with each bound that
  is given as the bound's including flag demands. A window with no bounds contains every
  version that is not blank, under every scheme; with a bound, an unordered scheme fails.\<close>

theorem in_range_iff:
  "InRange v rng (StrategyFor U sch) = Ok True \<longleftrightarrow>
     trim_space v \<noteq> '''' \<and>
     (Range_Start rng = '''' \<or>
        (\<exists>c. strategy_compare (StrategyFor U sch) v (Range_Start rng) = Ok c \<and>
           (c = OrderingGreater \<or> (Range_StartIncluding rng \<and> c = OrderingEqual)))) \<and>
     (Range_End rng = '''' \<or>
        (\<exists>c. strategy_compare (StrategyFor U sch) v (Range_End rng) = Ok c \<and>
           (c = OrderingLess \<or> (Range_EndIncluding rng \<and> c = OrderingEqual))))"
proof -
  have o: "(if i then c \<ge> OrderingEqual else c = OrderingGreater) \<longleftrightarrow> c = OrderingGreater \<or> (i \<and> c = OrderingEqual)"
    "(if i then c \<le> OrderingEqual else c = OrderingLess) \<longleftrightarrow> c = OrderingLess \<or> (i \<and> c = OrderingEqual)" for i c
    by (cases c; auto)+
  show ?thesis unfolding InRange_def inVersionRange_True o by blast
qed

text \<open>A window of semver, Maven or calendar versions is an interval: a version between two
  versions of the window is in the window.\<close>

theorem range_convex:
  assumes "sch \<in> {VersionSchemeSemver, VersionSchemeMaven, VersionSchemeCalver}"
    and "InRange u rng (StrategyFor U sch) = Ok True" "InRange w rng (StrategyFor U sch) = Ok True"
    and "strategy_compare (StrategyFor U sch) u v = Ok x" "x \<le> OrderingEqual"
    and "strategy_compare (StrategyFor U sch) v w = Ok y" "y \<le> OrderingEqual"
    and "trim_space v \<noteq> ''''"
  shows "InRange v rng (StrategyFor U sch) = Ok True"
proof -
  consider "sch = VersionSchemeSemver" | "sch = VersionSchemeMaven" | "sch = VersionSchemeCalver"
    using assms(1) by blast
  then show ?thesis
  proof cases
    case 1
    with assms show ?thesis using semver.window_convex [of u rng "StrategyFor U sch" w v x y]
      by (simp add: InRange_def)
  next
    case 2
    with assms show ?thesis using maven.window_convex [of u rng "StrategyFor U sch" w U v x y]
      by (simp add: InRange_def)
  next
    case 3
    with assms show ?thesis using calver.window_convex [of u rng "StrategyFor U sch" w v x y]
      by (simp add: InRange_def)
  qed
qed

theorem range_convex_witness:
  "InRange ''1.5.0'' \<lparr>Range_Start = ''1.0.0'', Range_StartIncluding = True, Range_End = ''2.0.0'',
     Range_EndIncluding = False\<rparr> (StrategyFor U VersionSchemeSemver) = Ok True"
proof -
  let ?r = "\<lparr>Range_Start = ''1.0.0'', Range_StartIncluding = True, Range_End = ''2.0.0'',
     Range_EndIncluding = False\<rparr>"
  have c: "CompareSemver ''1.0.0'' ''1.0.0'' = Ok OrderingEqual" "CompareSemver ''1.0.0'' ''2.0.0'' = Ok OrderingLess"
    "CompareSemver ''2.0.0-rc.1'' ''1.0.0'' = Ok OrderingGreater"
    "CompareSemver ''2.0.0-rc.1'' ''2.0.0'' = Ok OrderingLess"
    "CompareSemver ''1.0.0'' ''1.5.0'' = Ok OrderingLess"
    "CompareSemver ''1.5.0'' ''2.0.0-rc.1'' = Ok OrderingLess" by code_simp+
  have t: "trim_space ''1.0.0'' = ''1.0.0''" "trim_space ''2.0.0-rc.1'' = ''2.0.0-rc.1''"
    "trim_space ''1.5.0'' = ''1.5.0''" by code_simp+
  have "InRange ''1.0.0'' ?r (StrategyFor U VersionSchemeSemver) = Ok True"
    "InRange ''2.0.0-rc.1'' ?r (StrategyFor U VersionSchemeSemver) = Ok True"
    by (simp_all add: InRange_def inVersionRange_True t c)
  then show ?thesis
    using range_convex [of VersionSchemeSemver "''1.0.0''" ?r U "''2.0.0-rc.1''" "''1.5.0''" OrderingLess OrderingLess]
    by (simp add: t c)
qed

text \<open>Plain release numbers are ordered alike by all schemes: versions of three numbers
  compare numerically, component by component, under semver, debian, rpm, maven and
  generic.\<close>

theorem release_numbers_agree:
  assumes "sch \<in> {VersionSchemeSemver, VersionSchemeDebian, VersionSchemeRPM, VersionSchemeMaven, VersionSchemeGeneric}"
    and "length ms = 3" "length ns = 3"
  shows "strategy_compare (StrategyFor U sch) (dotted ms) (dotted ns) = Ok (ord_of ms ns)"
proof -
  have ne: "ms \<noteq> []" "ns \<noteq> []" using assms by auto
  obtain a b c d e f where "ms = [a, b, c]" "ns = [d, e, f]"
    using dotted_3 [OF assms(2)] dotted_3 [OF assms(3)] by blast
  then have "CompareSemver (dotted ms) (dotted ns) = Ok (ord_of ms ns)"
    by (simp add: CompareSemver_dotted)
  with assms CompareDebian_dotted [OF ne] maven_dotted [of ms ns U] ne show ?thesis by auto
qed

theorem release_numbers_agree_witness:
  "strategy_compare (StrategyFor U VersionSchemeRPM) ''1.10.0'' ''1.9.12'' = Ok OrderingGreater"
proof -
  have "dotted [1, 10, 0] = ''1.10.0''" "dotted [1, 9, 12] = ''1.9.12''"
    "ord_of [1, 10, 0] [1, 9, 12 :: nat] = OrderingGreater" by code_simp+
  with release_numbers_agree [of VersionSchemeRPM "[1, 10, 0]" "[1, 9, 12]" U] show ?thesis by simp
qed

end
