(* ===== verification/NormaliseRules.thy ===== *)
theory NormaliseRules
  imports NormaliseImage MatchMapping Inventory VersionStrategy
begin

text \<open>
  Alias closure and validation (internal/application/normalise/alias.go) and the inference of a
  version scheme (inference.go), whose calendar shape is the calver parser's.
\<close>

section \<open>Alias closure\<close>

text \<open>The values the enabled rules of the scope connect with \<open>value\<close>, in rule order.\<close>

fun alias_edges :: "AliasScope \<Rightarrow> string \<Rightarrow> AliasRule list \<Rightarrow> string list" where
  "alias_edges scope value [] = []"
| "alias_edges scope value (r # rules) =
     (if \<not> Alias_Enabled r \<or> Alias_Scope r \<noteq> scope then alias_edges scope value rules
      else
        (if Alias_From r = value then [Alias_To r] else []) @
        (if Alias_To r = value then [Alias_From r] else []) @
        alias_edges scope value rules)"

definition AliasClosure :: "AliasScope \<Rightarrow> string \<Rightarrow> AliasRule list \<Rightarrow> string list" where
  "AliasClosure scope value rules = sort (remdups (value # alias_edges scope value rules))"

definition alias_hop :: "AliasRule list \<Rightarrow> AliasScope \<Rightarrow> string \<Rightarrow> string \<Rightarrow> bool" where
  "alias_hop rules scope v w \<longleftrightarrow>
     (\<exists>r\<in>set rules. Alias_Enabled r \<and> Alias_Scope r = scope \<and> Alias_From r = v \<and> Alias_To r = w)"

lemma set_alias_edges:
  "set (alias_edges scope v rules) = {w. alias_hop rules scope v w \<or> alias_hop rules scope w v}"
  by (induction rules) (auto simp: alias_hop_def)

lemma set_AliasClosure:
  "set (AliasClosure scope v rules) = insert v {w. alias_hop rules scope v w \<or> alias_hop rules scope w v}"
  by (auto simp: AliasClosure_def set_alias_edges)

lemma AliasClosure_sorted: "sorted (AliasClosure scope v rules)" "distinct (AliasClosure scope v rules)"
  by (simp_all add: AliasClosure_def)

section \<open>Alias validation\<close>

definition alias_rule_check :: "AliasRule \<Rightarrow> unit result" where
  "alias_rule_check r =
     (if \<not> Alias_Enabled r then Ok ()
      else
        guards
          [(Alias_From r = '''', EmptyField ''from_value''),
           (Alias_To r = '''', EmptyField ''to_value''),
           (Alias_From r = Alias_To r, BadShape ''alias must not map to itself'')]
          (Ok ()))"

text \<open>\<open>fromOf\<close>: scope and value to the id of the first enabled rule with it as from-value.\<close>

fun alias_from_of :: "(AliasScope \<times> string \<rightharpoonup> string) \<Rightarrow> AliasRule list \<Rightarrow> (AliasScope \<times> string \<rightharpoonup> string)" where
  "alias_from_of m [] = m"
| "alias_from_of m (r # rules) =
     (if \<not> Alias_Enabled r then alias_from_of m rules
      else if m (Alias_Scope r, Alias_From r) = None
      then alias_from_of (m((Alias_Scope r, Alias_From r) \<mapsto> Alias_ID r)) rules
      else alias_from_of m rules)"

definition ValidateAliasRules :: "AliasRule list \<Rightarrow> unit result" where
  "ValidateAliasRules rules =
     rbind (each alias_rule_check rules) (\<lambda>_.
       (let fromOf = alias_from_of Map.empty rules in
        each (\<lambda>r.
          if \<not> Alias_Enabled r then Ok ()
          else
            (case fromOf (Alias_Scope r, Alias_To r) of
               Some ident \<Rightarrow> Err (InvalidValue ''alias rules must not chain'' (Alias_To r))
             | None \<Rightarrow> Ok ()))
          rules))"

lemma alias_from_of_eq_None:
  "alias_from_of m rules k = None \<longleftrightarrow>
     m k = None \<and> (\<forall>r\<in>set rules. Alias_Enabled r \<longrightarrow> (Alias_Scope r, Alias_From r) \<noteq> k)"
proof (induction rules arbitrary: m)
  case (Cons r rules)
  have "(m(k' \<mapsto> v)) k = None \<longleftrightarrow> k' \<noteq> k \<and> m k = None" for k' v by auto
  with Cons show ?case by (auto simp del: fun_upd_apply)
qed simp

lemma alias_from_of_None:
  "alias_from_of Map.empty rules (scope, v) = None \<longleftrightarrow>
     (\<forall>r\<in>set rules. Alias_Enabled r \<longrightarrow> Alias_Scope r = scope \<longrightarrow> Alias_From r \<noteq> v)"
  by (auto simp: alias_from_of_eq_None)

lemma ValidateAliasRules_Ok:
  "is_ok (ValidateAliasRules rules) \<longleftrightarrow>
     (\<forall>r\<in>set rules. Alias_Enabled r \<longrightarrow>
        Alias_From r \<noteq> '''' \<and> Alias_To r \<noteq> '''' \<and> Alias_From r \<noteq> Alias_To r \<and>
        (\<forall>r'\<in>set rules. Alias_Enabled r' \<and> Alias_Scope r' = Alias_Scope r \<longrightarrow> Alias_From r' \<noteq> Alias_To r))"
proof -
  have c: "alias_rule_check r = Ok () \<longleftrightarrow>
      (Alias_Enabled r \<longrightarrow> Alias_From r \<noteq> '''' \<and> Alias_To r \<noteq> '''' \<and> Alias_From r \<noteq> Alias_To r)" for r
    by (simp add: alias_rule_check_def)
  have o: "(case x of Some i \<Rightarrow> Err e | None \<Rightarrow> Ok ()) = Ok () \<longleftrightarrow> x = None" for x :: "string option" and e :: derror
    by (cases x) auto
  show ?thesis
    unfolding ValidateAliasRules_def is_ok_iff Let_def rbind_Ok_iff each_Ok_iff c if_Err_Ok_iff o
    by (auto simp: o alias_from_of_None)
qed

section \<open>Scheme inference\<close>

definition purlSchemeHints :: "string \<rightharpoonup> VersionScheme" where
  "purlSchemeHints =
     [''golang'' \<mapsto> VersionSchemeSemver, ''npm'' \<mapsto> VersionSchemeSemver, ''deb'' \<mapsto> VersionSchemeDebian,
      ''rpm'' \<mapsto> VersionSchemeRPM, ''maven'' \<mapsto> VersionSchemeMaven]"

definition PURLSchemeHint :: "string \<Rightarrow> VersionScheme option" where
  "PURLSchemeHint purlType = purlSchemeHints purlType"

definition cpeOSDebianVendors :: "string list" where
  "cpeOSDebianVendors = [''debian'', ''canonical'']"

definition cpeOSRPMVendors :: "string list" where
  "cpeOSRPMVendors =
     [''redhat'', ''centos'', ''fedora'', ''almalinux'', ''rockylinux'', ''suse'', ''opensuse'',
      ''amazon'', ''oracle'']"

definition cpeSchemeHint :: "unicode \<Rightarrow> CPE23 \<Rightarrow> VersionScheme option" where
  "cpeSchemeHint U c =
     (if CPE_Part c \<noteq> ''o'' then None
      else
        (let vendor = to_lower U (CPE_Vendor c) in
         if vendor \<in> set cpeOSDebianVendors then Some VersionSchemeDebian
         else if vendor \<in> set cpeOSRPMVendors then Some VersionSchemeRPM
         else None))"

definition isAllASCIIDigits :: "string \<Rightarrow> bool" where
  "isAllASCIIDigits s = (if s = '''' then False else list_all (\<lambda>c. \<not> (c < CHR ''0'' \<or> c > CHR ''9'')) s)"

definition digitsSeparatedOnly :: "string \<Rightarrow> bool" where
  "digitsSeparatedOnly s =
     (if list_all (\<lambda>c. (c \<ge> CHR ''0'' \<and> c \<le> CHR ''9'') \<or> c = CHR ''.'' \<or> c = CHR ''-'') s
      then list_ex (\<lambda>c. c \<ge> CHR ''0'' \<and> c \<le> CHR ''9'') s
      else False)"

definition smallDigitsInRange :: "string \<Rightarrow> int \<Rightarrow> bool" where
  "smallDigitsInRange s mx =
     (if s = '''' \<or> length s > 2 \<or> \<not> isAllASCIIDigits s then False
      else (let n = int (digits_val s) in n \<ge> 1 \<and> n \<le> mx))"

definition calverPartsValid :: "string \<Rightarrow> string \<Rightarrow> string \<Rightarrow> bool" where
  "calverPartsValid year month day =
     (if length year \<noteq> 4 \<or> \<not> isAllASCIIDigits year then False
      else if month \<noteq> '''' \<and> \<not> smallDigitsInRange month 12 then False
      else if day \<noteq> '''' \<and> \<not> smallDigitsInRange day 31 then False
      else True)"

definition isCalverShape :: "string \<Rightarrow> bool" where
  "isCalverShape version =
     (if version = '''' then False
      else if length version = 8 \<and> isAllASCIIDigits version then
        calverPartsValid (take 4 version) (take 2 (drop 4 version)) (take 2 (drop 6 version))
      else if \<not> isAllASCIIDigits version \<and> \<not> digitsSeparatedOnly version then False
      else
        (let parts = fields_func (\<lambda>r. r = CHR ''.'' \<or> r = CHR ''-'') version in
         if length parts < 1 \<or> length parts > 3 then False
         else calverPartsValid (parts ! 0)
           (if length parts > 1 then parts ! 1 else '''')
           (if length parts > 2 then parts ! 2 else '''')))"

definition InferVersionScheme :: "unicode \<Rightarrow> ComponentIdentifiers \<Rightarrow> VersionScheme \<Rightarrow> VersionScheme" where
  "InferVersionScheme U ids explicit =
     (case (case ParsePURL (trim_space (Ids_PURL ids)) of
              Inr p \<Rightarrow> PURLSchemeHint (PURL_Type p) | Inl _ \<Rightarrow> None) of
        Some hint \<Rightarrow> hint
      | None \<Rightarrow>
          (case (case ParseCPE23 (trim_space (Ids_CPE ids)) of
                   Inr c \<Rightarrow> cpeSchemeHint U c | Inl _ \<Rightarrow> None) of
             Some hint \<Rightarrow> hint
           | None \<Rightarrow>
               (if VersionScheme_Valid explicit \<and> explicit \<noteq> VersionSchemeUnknown then explicit
                else
                  (let version = trim_space (Ids_Version ids) in
                   if version = '''' then VersionSchemeUnknown
                   else if isCalverShape version then VersionSchemeCalver
                   else VersionSchemeGeneric))))"

lemma isAllASCIIDigits_eq: "isAllASCIIDigits = isDigits"
  by (rule ext) (simp add: isAllASCIIDigits_def isDigits_def)

lemma digitsSeparatedOnly_eq: "digitsSeparatedOnly = allDigitsSeparated"
  by (rule ext) (simp add: digitsSeparatedOnly_def allDigitsSeparated_def)

lemma smallDigitsInRange_eq: "smallDigitsInRange s mx \<longleftrightarrow> parseSmallDigits s mx \<noteq> None"
  by (auto simp: smallDigitsInRange_def parseSmallDigits_def isAllASCIIDigits_eq Let_def)

lemma calverPartsValid_eq: "calverPartsValid y m d \<longleftrightarrow> is_ok (calverFromParts y m d)"
  by (auto simp: calverPartsValid_def calverFromParts_def isAllASCIIDigits_eq smallDigitsInRange_eq is_ok_iff
      result_simps split: option.splits)

lemma isCalverShape_eq: "isCalverShape v \<longleftrightarrow> is_ok (parseCalver v)"
  by (simp add: isCalverShape_def parseCalver_def isAllASCIIDigits_eq digitsSeparatedOnly_eq calverPartsValid_eq Let_def)

lemma hints_ordered:
  "PURLSchemeHint t = Some h \<Longrightarrow> h \<in> {VersionSchemeSemver, VersionSchemeDebian, VersionSchemeRPM, VersionSchemeMaven}"
  "cpeSchemeHint U c = Some h \<Longrightarrow> h \<in> {VersionSchemeDebian, VersionSchemeRPM}"
  by (auto simp: PURLSchemeHint_def purlSchemeHints_def cpeSchemeHint_def Let_def split: if_splits)

section \<open>Properties\<close>

text \<open>The alias closure of a name is the name and exactly the names one enabled rule of the
  scope away from it in either direction, sorted and without duplicates, so the relation is
  symmetric: a name is in the closure of another exactly when the converse holds.\<close>

theorem alias_closure_one_hop:
  "set (AliasClosure scope v rules) = insert v {w. alias_hop rules scope v w \<or> alias_hop rules scope w v} \<and>
   sorted (AliasClosure scope v rules) \<and> distinct (AliasClosure scope v rules) \<and>
   (w \<in> set (AliasClosure scope v rules) \<longleftrightarrow> v \<in> set (AliasClosure scope w rules))"
  using AliasClosure_sorted [of scope v rules] set_AliasClosure [of scope v rules] set_AliasClosure [of scope w rules]
  by auto

text \<open>Validation accepts an alias ruleset exactly when no enabled rule has an empty side or
  maps a name to itself and, within a scope, no name is both replaced and a replacement: no two
  hops chain.\<close>

theorem alias_rules_valid_iff:
  "is_ok (ValidateAliasRules rules) \<longleftrightarrow>
     (\<nexists>r. r \<in> set rules \<and> Alias_Enabled r \<and>
        (Alias_From r = '''' \<or> Alias_To r = '''' \<or> Alias_From r = Alias_To r)) \<and>
     (\<nexists>scope u v w. alias_hop rules scope u v \<and> alias_hop rules scope v w)"
proof -
  have "(\<exists>scope u v w. alias_hop rules scope u v \<and> alias_hop rules scope v w) \<longleftrightarrow>
      (\<exists>r\<in>set rules. \<exists>r'\<in>set rules. Alias_Enabled r \<and> Alias_Enabled r' \<and> Alias_Scope r' = Alias_Scope r \<and>
         Alias_From r' = Alias_To r)" (is "?L \<longleftrightarrow> ?R")
  proof
    assume ?R
    then obtain r r' where "r \<in> set rules" "r' \<in> set rules" "Alias_Enabled r" "Alias_Enabled r'"
      "Alias_Scope r' = Alias_Scope r" "Alias_From r' = Alias_To r" by blast
    then have "alias_hop rules (Alias_Scope r) (Alias_From r) (Alias_To r)"
      "alias_hop rules (Alias_Scope r) (Alias_To r) (Alias_To r')" by (auto simp: alias_hop_def)
    then show ?L by blast
  qed (auto simp: alias_hop_def)
  then show ?thesis unfolding ValidateAliasRules_Ok by auto
qed

text \<open>The inferred scheme orders the version it is inferred for, whenever the shape of the
  version decided: the calendar shape is the one the calver parser accepts, so an inferred
  calver or generic scheme compares the version with itself; and only a row without a hint, an
  explicit scheme and a version is unknown.\<close>

theorem inferred_scheme_orders:
  assumes "InferVersionScheme U ids VersionSchemeUnknown = sch"
    and "sch \<in> {VersionSchemeCalver, VersionSchemeGeneric, VersionSchemeUnknown}"
  shows "(sch = VersionSchemeUnknown \<longleftrightarrow> trim_space (Ids_Version ids) = '''') \<and>
    (sch \<noteq> VersionSchemeUnknown \<longrightarrow>
       strategy_compare (StrategyFor U' sch) (trim_space (Ids_Version ids)) (trim_space (Ids_Version ids)) =
         Ok OrderingEqual)"
proof -
  let ?v = "trim_space (Ids_Version ids)"
  have "sch = (if ?v = '''' then VersionSchemeUnknown
      else if isCalverShape ?v then VersionSchemeCalver else VersionSchemeGeneric)"
  proof (cases "case ParsePURL (trim_space (Ids_PURL ids)) of
        Inr p \<Rightarrow> PURLSchemeHint (PURL_Type p) | Inl _ \<Rightarrow> None")
    case None
    show ?thesis
    proof (cases "case ParseCPE23 (trim_space (Ids_CPE ids)) of
        Inr c \<Rightarrow> cpeSchemeHint U c | Inl _ \<Rightarrow> None")
      case 2: None
      show ?thesis using assms(1) unfolding InferVersionScheme_def None 2 by (simp add: Let_def)
    next
      case 2: (Some h)
      then have "sch = h" using assms(1) unfolding InferVersionScheme_def None by simp
      moreover have "h \<in> {VersionSchemeDebian, VersionSchemeRPM}"
        using 2 hints_ordered(2) by (simp split: sum.splits)
      ultimately show ?thesis using assms(2) by auto
    qed
  next
    case (Some h)
    then have "sch = h" using assms(1) unfolding InferVersionScheme_def by simp
    moreover have "h \<in> {VersionSchemeSemver, VersionSchemeDebian, VersionSchemeRPM, VersionSchemeMaven}"
      using Some hints_ordered(1) by (simp split: sum.splits)
    ultimately show ?thesis using assms(2) by auto
  qed
  then show ?thesis
    using calver.refl [of ?v] generic.refl [of ?v] by (auto simp: isCalverShape_eq split: if_splits)
qed

theorem inferred_scheme_orders_witness:
  "CompareCalver ''2024.06'' ''2024.06'' = Ok OrderingEqual"
proof -
  let ?ids = "\<lparr>Ids_Vendor = ''acme'', Ids_Product = ''tool'', Ids_Version = '' 2024.06 '', Ids_CPE = '''',
     Ids_PURL = '''', Ids_Image = '''', Ids_Digest = ''''\<rparr>"
  have "InferVersionScheme plain_unicode ?ids VersionSchemeUnknown = VersionSchemeCalver" by code_simp
  moreover have "trim_space '' 2024.06 '' = ''2024.06''" by code_simp
  ultimately show ?thesis
    using inferred_scheme_orders [of plain_unicode ?ids VersionSchemeCalver] by simp
qed

end
