(* ===== verification/Similarity.thy ===== *)
theory Similarity
  imports MatchMapping Float64
begin

text \<open>
  Candidate similarity (internal/domain/similarity.go): the token streams of two product names,
  their Jaccard overlap, the bounded Damerau-Levenshtein distance of the streams, and the score
  in the candidate band 1 to 54, computed in \<open>float64\<close> arithmetic.
\<close>

section \<open>Tokens\<close>

text \<open>On an ASCII string the letters and digits are the ASCII ones; beyond, the Unicode tables decide.\<close>

definition tokenise :: "unicode \<Rightarrow> string \<Rightarrow> string list" where
  "tokenise U s =
     (let l = to_lower U s in
      if is_ascii l then fields_func (\<lambda>r. \<not> (is_lower r \<or> is_upper r) \<and> \<not> is_digit r) l
      else uni_words U l)"

section \<open>Jaccard overlap\<close>

text \<open>The loop over the second stream; \<open>seen\<close> holds the tokens met so far.\<close>

fun jaccard_loop :: "string list \<Rightarrow> string list \<Rightarrow> string list \<Rightarrow> nat \<Rightarrow> nat \<Rightarrow> nat \<times> nat" where
  "jaccard_loop setA seen [] common joined = (common, joined)"
| "jaccard_loop setA seen (t # ts) common joined =
     (if t \<in> set seen then jaccard_loop setA seen ts common joined
      else if t \<in> set setA then jaccard_loop setA (t # seen) ts (common + 1) joined
      else jaccard_loop setA (t # seen) ts common (joined + 1))"

definition tokenJaccard :: "string list \<Rightarrow> string list \<Rightarrow> rat" where
  "tokenJaccard a b =
     (let (common, joined) = jaccard_loop a [] b 0 (length (remdups a)) in
      if joined = 0 then 1 else f_div (fl (of_nat common)) (fl (of_nat joined)))"

section \<open>Edit distance\<close>

text \<open>
  The table \<open>d\<close> with its sentinel row and column 0. \<open>dl_cols\<close> is the inner loop after its
  first columns, with the variable \<open>db\<close>; \<open>dl_rows\<close> the outer loop after its first rows, with
  the map \<open>lastSeen\<close> (0 for an absent token). Indices count from 1 as in the code.
\<close>

type_synonym table = "nat \<Rightarrow> nat \<Rightarrow> int"

definition set_cell :: "table \<Rightarrow> nat \<Rightarrow> nat \<Rightarrow> int \<Rightarrow> table" where
  "set_cell d i j x = d(i := (d i)(j := x))"

definition dl_init :: "nat \<Rightarrow> nat \<Rightarrow> table" where
  "dl_init m n =
     (\<lambda>i j. if i = 0 \<or> j = 0 then int (m + n)
            else if j = 1 then int i - 1
            else if i = 1 then int j - 1
            else 0)"

definition dl_cell :: "table \<Rightarrow> nat \<Rightarrow> nat \<Rightarrow> nat \<Rightarrow> nat \<Rightarrow> bool \<Rightarrow> int" where
  "dl_cell d i j k l same =
     (let cost = (if same then 0 else 1);
          sub = d i j + cost;
          ins = d (i + 1) j + 1;
          del = d i (j + 1) + 1;
          trans = d k l + (int i - int k - 1) + 1 + (int j - int l - 1);
          best = sub;
          best = (if ins < best then ins else best);
          best = (if del < best then del else best)
      in if trans < best then trans else best)"

primrec dl_cols :: "string \<Rightarrow> string list \<Rightarrow> (string \<Rightarrow> nat) \<Rightarrow> nat \<Rightarrow> table \<Rightarrow> nat \<Rightarrow> table \<times> nat" where
  "dl_cols t b lastSeen i d 0 = (d, 0)"
| "dl_cols t b lastSeen i d (Suc j) =
     (let (d', db) = dl_cols t b lastSeen i d j;
          k = lastSeen (b ! j);
          same = (t = b ! j)
      in (set_cell d' (i + 1) (Suc j + 1) (dl_cell d' i (Suc j) k db same),
          if same then Suc j else db))"

primrec dl_rows :: "string list \<Rightarrow> string list \<Rightarrow> nat \<Rightarrow> table \<times> (string \<Rightarrow> nat)" where
  "dl_rows a b 0 = (dl_init (length a) (length b), \<lambda>_. 0)"
| "dl_rows a b (Suc i) =
     (let (d, lastSeen) = dl_rows a b i
      in (fst (dl_cols (a ! i) b lastSeen (Suc i) d (length b)), lastSeen(a ! i := Suc i)))"

definition boundedDamerauLevenshtein :: "string list \<Rightarrow> string list \<Rightarrow> int \<Rightarrow> int" where
  "boundedDamerauLevenshtein a b cap =
     (let m = length a; n = length b in
      if m = 0 then (if int n > cap then cap else int n)
      else if n = 0 then (if int m > cap then cap else int m)
      else
        (let dist = fst (dl_rows a b m) (m + 1) (n + 1)
         in if dist > cap then cap else dist))"

section \<open>The score\<close>

definition candidateSimilarityDLBound :: int where "candidateSimilarityDLBound = 3"

definition CandidateSimilarity :: "unicode \<Rightarrow> string \<Rightarrow> string \<Rightarrow> int" where
  "CandidateSimilarity U a b =
     (let ta = tokenise U a; tb = tokenise U b in
      if length ta = 0 \<or> length tb = 0 then candidateScoreMin
      else
        (let jac = tokenJaccard ta tb;
             dl = boundedDamerauLevenshtein ta tb candidateSimilarityDLBound;
             dlSim = f_sub 1 (f_div (fl (of_int dl)) (fl (of_int candidateSimilarityDLBound)));
             sim = f_add (f_mul (fl (6 / 10)) jac) (f_mul (fl (4 / 10)) dlSim);
             score = candidateScoreMin +
               f_to_int (f_mul sim (fl (of_int (candidateScoreMax - candidateScoreMin))))
         in if score < candidateScoreMin then candidateScoreMin
            else if score > candidateScoreMax then candidateScoreMax
            else score))"

section \<open>Lemmas on the overlap\<close>

lemma jaccard_loop_counts:
  "jaccard_loop A seen b i u =
     (i + card (set A \<inter> (set b - set seen)), u + card (set b - set seen - set A))"
proof (induction A seen b i u rule: jaccard_loop.induct)
  case (2 A seen t ts i u)
  let ?new = "set ts - set (t # seen)"
  show ?case
  proof (cases "t \<in> set seen")
    case True
    then have "set (t # ts) - set seen = set ts - set seen" by auto
    with True 2 show ?thesis by simp
  next
    case False
    then have d: "set (t # ts) - set seen = insert t ?new" "t \<notin> ?new" by auto
    show ?thesis
    proof (cases "t \<in> set A")
      case True
      then have "set A \<inter> insert t ?new = insert t (set A \<inter> ?new)" "insert t ?new - set A = ?new - set A"
        by auto
      with True False 2 d show ?thesis by simp
    next
      case f: False
      then have "set A \<inter> insert t ?new = set A \<inter> ?new" "insert t ?new - set A = insert t (?new - set A)"
        by auto
      with f False 2 d show ?thesis by simp
    qed
  qed
qed simp

lemma tokenJaccard_cards:
  "tokenJaccard a b =
     (let u = card (set a \<union> set b) in
      if u = 0 then 1 else f_div (fl (of_nat (card (set a \<inter> set b)))) (fl (of_nat u)))"
proof -
  have "card (set a \<union> set b) = card (set a) + card (set b - set a)"
    by (metis card_Un_disjoint Diff_disjoint Un_Diff_cancel List.finite_set finite_Diff)
  then show ?thesis
    by (simp add: tokenJaccard_def jaccard_loop_counts Let_def length_remdups_card_conv)
qed

section \<open>Lemmas on the distance\<close>

text \<open>Cells hold the distance of prefixes: nonnegative, and zero exactly for equal prefixes.\<close>

definition cell_ok :: "string list \<Rightarrow> string list \<Rightarrow> int \<Rightarrow> nat \<Rightarrow> nat \<Rightarrow> bool" where
  "cell_ok a b x i j \<longleftrightarrow> 0 \<le> x \<and> (x = 0 \<longleftrightarrow> take i a = take j b)"

definition rows_ok :: "string list \<Rightarrow> string list \<Rightarrow> table \<Rightarrow> nat \<Rightarrow> bool" where
  "rows_ok a b d i \<longleftrightarrow>
     (\<forall>j. 0 \<le> d 0 j \<and> 0 \<le> d j 0) \<and>
     (\<forall>i'\<le>i. \<forall>j\<le>length b. cell_ok a b (d (Suc i') (Suc j)) i' j)"

definition row_ok_upto :: "string list \<Rightarrow> string list \<Rightarrow> table \<Rightarrow> nat \<Rightarrow> nat \<Rightarrow> bool" where
  "row_ok_upto a b d i j \<longleftrightarrow> (\<forall>j'\<le>j. cell_ok a b (d (Suc i) (Suc j')) i j')"

lemma take_Suc_eq:
  "i < length a \<Longrightarrow> j < length b \<Longrightarrow>
     take (Suc i) a = take (Suc j) b \<longleftrightarrow> take i a = take j b \<and> a ! i = b ! j"
  by (auto simp: take_Suc_conv_app_nth)

lemma dl_cell_min:
  "dl_cell d i j k l same =
     min (min (min (d i j + (if same then 0 else 1)) (d (i + 1) j + 1)) (d i (j + 1) + 1))
       (d k l + (int i - int k - 1) + 1 + (int j - int l - 1))"
  by (simp add: dl_cell_def Let_def min_def)

lemma dl_cell_ok:
  assumes "i < length a" "j < length b" "k \<le> i" "l \<le> j"
    and "cell_ok a b (d (Suc i) (Suc j)) i j"
    and "0 \<le> d (Suc i + 1) (Suc j)" "0 \<le> d (Suc i) (Suc j + 1)" "0 \<le> d k l"
  shows "cell_ok a b (dl_cell d (Suc i) (Suc j) k l (a ! i = b ! j)) (Suc i) (Suc j)"
  using assms by (auto simp: cell_ok_def dl_cell_min take_Suc_eq)

lemma dl_cols_frame:
  assumes "i' \<noteq> i + 1"
  shows "fst (dl_cols t b ls i d j) i' j' = d i' j'"
  using assms by (induction j) (simp_all add: Let_def case_prod_unfold set_cell_def)

lemma dl_cols_row_edge: "j' \<le> 1 \<Longrightarrow> fst (dl_cols t b ls i d j) i' j' = d i' j'"
  by (induction j arbitrary: i') (auto simp: Let_def case_prod_unfold set_cell_def)

lemma dl_cols_db: "snd (dl_cols t b ls i d j) \<le> j"
  by (induction j) (auto simp: Let_def case_prod_unfold)

text \<open>The first two columns of a row are never written after the initialisation.\<close>

lemma dl_rows_edge: "j' \<le> 1 \<Longrightarrow> fst (dl_rows a b i) i' j' = dl_init (length a) (length b) i' j'"
  by (induction i) (simp_all add: Let_def case_prod_unfold dl_cols_row_edge)

lemma dl_rows_seen: "snd (dl_rows a b i) t \<le> i"
  by (induction i arbitrary: t) (auto simp: Let_def case_prod_unfold intro: le_SucI)

lemma dl_cols_ok:
  assumes "rows_ok a b d i" "i < length a" "j \<le> length b" "\<And>t. ls t \<le> i"
    and "\<And>i'. d i' (Suc 0) = dl_init (length a) (length b) i' (Suc 0)"
  shows "row_ok_upto a b (fst (dl_cols (a ! i) b ls (Suc i) d j)) (Suc i) j"
  using assms(3)
proof (induction j)
  case 0
  have "cell_ok a b (d (Suc (Suc i)) (Suc 0)) (Suc i) 0"
    using assms(2) by (auto simp: assms(5) cell_ok_def dl_init_def)
  then show ?case by (simp add: row_ok_upto_def)
next
  case (Suc j)
  let ?d = "fst (dl_cols (a ! i) b ls (Suc i) d j)" and ?l = "snd (dl_cols (a ! i) b ls (Suc i) d j)"
  have prev: "?d i' j' = d i' j'" if "i' \<le> Suc i" for i' j'
    using that by (intro dl_cols_frame) simp
  have ih: "row_ok_upto a b ?d (Suc i) j" using Suc by simp
  have k: "ls (b ! j) \<le> i" and l: "?l \<le> j" using assms(4) dl_cols_db by auto
  have nonneg: "0 \<le> ?d i' j'" if "i' \<le> Suc i" "j' \<le> Suc (length b)" for i' j'
    using that assms(1) by (cases i'; cases j') (auto simp: prev rows_ok_def cell_ok_def)
  have "cell_ok a b (?d (Suc i) (Suc j)) i j" "0 \<le> ?d (Suc i) (Suc j + 1)" "0 \<le> ?d (ls (b ! j)) ?l"
    using assms(1) Suc.prems nonneg [of "Suc i" "Suc j + 1"] nonneg [of "ls (b ! j)" ?l] k l
    by (auto simp: prev rows_ok_def)
  moreover have "0 \<le> ?d (Suc i + 1) (Suc j)"
    using ih by (simp add: row_ok_upto_def cell_ok_def)
  ultimately have new: "cell_ok a b (dl_cell ?d (Suc i) (Suc j) (ls (b ! j)) ?l (a ! i = b ! j)) (Suc i) (Suc j)"
    using assms(2) Suc.prems k l by (intro dl_cell_ok) auto
  show ?case
    using ih new by (auto simp: row_ok_upto_def set_cell_def Let_def case_prod_unfold le_Suc_eq)
qed

lemma dl_rows_ok: "i \<le> length a \<Longrightarrow> rows_ok a b (fst (dl_rows a b i)) i"
proof (induction i)
  case 0
  then show ?case
    by (auto simp: rows_ok_def cell_ok_def dl_init_def)
next
  case (Suc i)
  let ?d = "fst (dl_rows a b i)"
  let ?e = "fst (dl_cols (a ! i) b (snd (dl_rows a b i)) (Suc i) ?d (length b))"
  have r: "rows_ok a b ?d i" using Suc by simp
  have "row_ok_upto a b ?e (Suc i) (length b)"
    using Suc.prems r by (intro dl_cols_ok) (simp_all add: dl_rows_seen dl_rows_edge)
  moreover have "?e 0 j' = ?d 0 j'" for j' by (intro dl_cols_frame) simp
  moreover have "?e (Suc i') j' = ?d (Suc i') j'" if "i' \<le> i" for i' j'
    using that by (intro dl_cols_frame) simp
  moreover have "?e i' 0 = ?d i' 0" for i' by (rule dl_cols_row_edge) simp
  ultimately show ?case
    using r by (auto simp: rows_ok_def row_ok_upto_def Let_def case_prod_unfold le_Suc_eq)
qed

lemma distance_bounds:
  assumes "0 < cap"
  shows "0 \<le> boundedDamerauLevenshtein a b cap" "boundedDamerauLevenshtein a b cap \<le> cap"
    "boundedDamerauLevenshtein a b cap = 0 \<longleftrightarrow> a = b"
proof -
  let ?x = "fst (dl_rows a b (length a)) (length a + 1) (length b + 1)"
  have "cell_ok a b ?x (length a) (length b)"
    using dl_rows_ok [of "length a" a b] by (simp add: rows_ok_def)
  then have x: "0 \<le> ?x" "?x = 0 \<longleftrightarrow> a = b" by (simp_all add: cell_ok_def)
  show "0 \<le> boundedDamerauLevenshtein a b cap" "boundedDamerauLevenshtein a b cap \<le> cap"
    "boundedDamerauLevenshtein a b cap = 0 \<longleftrightarrow> a = b"
    using x assms by (auto simp: boundedDamerauLevenshtein_def Let_def)
qed

section \<open>Lemmas on the arithmetic\<close>

lemma fl_rep:
  "pow2 e \<le> x \<Longrightarrow> x < pow2 (e + 1) \<Longrightarrow> - 1022 \<le> e \<Longrightarrow> x = of_int n * pow2 (e - 52) \<Longrightarrow> fl x = x"
  using fl_eq [of e x n] by simp

text \<open>The dyadic values that bound the score of streams that differ.\<close>

lemma fl_dyadic:
  "fl (5 / 16) = 5 / 16" "fl (11 / 16) = 11 / 16" "fl (11 / 32) = 11 / 32" "fl (5 / 8) = 5 / 8"
  "fl (31 / 32) = 31 / 32" "fl (1643 / 32) = 1643 / 32" "fl (1 / 2) = 1 / 2"
proof -
  show "fl (5 / 16) = 5 / 16" by (rule fl_rep [of "- 2" _ "5 * 2 ^ 50"]) (simp_all add: pow2_def)
  show "fl (11 / 16) = 11 / 16" by (rule fl_rep [of "- 1" _ "11 * 2 ^ 49"]) (simp_all add: pow2_def)
  show "fl (11 / 32) = 11 / 32" by (rule fl_rep [of "- 2" _ "11 * 2 ^ 49"]) (simp_all add: pow2_def)
  show "fl (5 / 8) = 5 / 8" by (rule fl_rep [of "- 1" _ "5 * 2 ^ 50"]) (simp_all add: pow2_def)
  show "fl (31 / 32) = 31 / 32" by (rule fl_rep [of "- 1" _ "31 * 2 ^ 48"]) (simp_all add: pow2_def)
  show "fl (1643 / 32) = 1643 / 32" by (rule fl_rep [of 5 _ "1643 * 2 ^ 42"]) (simp_all add: pow2_def)
  show "fl (1 / 2) = 1 / 2" by (rule fl_rep [of "- 1" _ "2 ^ 52"]) (simp_all add: pow2_def)
qed

lemma fl_small_int: "fl (of_int n) = of_int n" if "\<bar>n\<bar> < 2 ^ 53"
  using that by (rule fl_of_int)

lemma fl_1 [simp]: "fl 1 = 1" and fl_3 [simp]: "fl 3 = 3" and fl_53 [simp]: "fl 53 = 53"
  using fl_of_int [of 1] fl_of_int [of 3] fl_of_int [of 53] by simp_all

text \<open>The weights 0.6 and 0.4 as \<open>float64\<close> values add up to 1 exactly.\<close>

lemma weights: "fl (6 / 10) = 5404319552844595 / 9007199254740992"
  "fl (4 / 10) = 7205759403792794 / 18014398509481984"
  using fl_eq [of "- 1" "6 / 10" 5404319552844595] fl_eq [of "- 2" "4 / 10" 7205759403792794]
  by (simp_all add: pow2_def)

lemma weights_f64: "fl (fl (6 / 10)) = fl (6 / 10)" "fl (fl (4 / 10)) = fl (4 / 10)"
proof -
  show "fl (fl (6 / 10)) = fl (6 / 10)"
    unfolding weights by (rule fl_rep [of "- 1" _ 5404319552844595]) (simp_all add: pow2_def)
  show "fl (fl (4 / 10)) = fl (4 / 10)"
    unfolding weights by (rule fl_rep [of "- 2" _ 7205759403792794]) (simp_all add: pow2_def)
qed

lemma weights_sum: "fl (fl (6 / 10) + fl (4 / 10)) = 1"
proof -
  have "fl (6 / 10) + fl (4 / 10) = (1 :: rat)" unfolding weights by simp
  then show ?thesis by (simp only: fl_1)
qed

lemma tokenJaccard_range: "0 \<le> tokenJaccard a b" "tokenJaccard a b \<le> 1"
proof -
  let ?i = "of_nat (card (set a \<inter> set b)) :: rat" and ?u = "of_nat (card (set a \<union> set b)) :: rat"
  have "card (set a \<inter> set b) \<le> card (set a \<union> set b)" by (intro card_mono) auto
  then have le: "fl ?i \<le> fl ?u" by (intro fl_mono) simp
  have nn: "0 \<le> fl ?i" "0 \<le> fl ?u" by (simp_all add: fl_nonneg)
  show "0 \<le> tokenJaccard a b"
    using nn by (simp add: tokenJaccard_cards Let_def f_div_def fl_nonneg)
  have "fl ?i / fl ?u \<le> 1" using le nn by (cases "fl ?u = 0") (simp_all add: divide_le_eq_1)
  then have "fl (fl ?i / fl ?u) \<le> fl 1" by (rule fl_mono)
  then show "tokenJaccard a b \<le> 1" by (simp add: tokenJaccard_cards Let_def f_div_def)
qed

lemma tokenJaccard_same: "a \<noteq> [] \<Longrightarrow> length a < 2 ^ 53 \<Longrightarrow> tokenJaccard a a = 1"
proof -
  assume a: "a \<noteq> []" "length a < 2 ^ 53"
  have "card (set a) < 2 ^ 53" using a(2) card_length [of a] by linarith
  then have "fl (of_nat (card (set a))) = of_nat (card (set a))"
    using fl_of_int [of "int (card (set a))"] by simp
  moreover have "card (set a) \<noteq> 0" using a(1) by simp
  ultimately show ?thesis by (simp add: tokenJaccard_cards Let_def f_div_def)
qed

text \<open>The score before clamping, from the overlap and the distance.\<close>

definition raw_similarity :: "rat \<Rightarrow> int \<Rightarrow> rat" where
  "raw_similarity jac dl =
     f_add (f_mul (fl (6 / 10)) jac)
       (f_mul (fl (4 / 10)) (f_sub 1 (f_div (fl (of_int dl)) (fl (of_int candidateSimilarityDLBound)))))"

definition raw_score :: "rat \<Rightarrow> int \<Rightarrow> int" where
  "raw_score jac dl =
     candidateScoreMin + f_to_int (f_mul (raw_similarity jac dl)
       (fl (of_int (candidateScoreMax - candidateScoreMin))))"

lemma dl_term:
  assumes "0 \<le> dl" "dl \<le> 3"
  shows "0 \<le> f_sub 1 (f_div (fl (of_int dl)) (fl 3))" "f_sub 1 (f_div (fl (of_int dl)) (fl 3)) \<le> 1"
    "1 \<le> dl \<Longrightarrow> f_sub 1 (f_div (fl (of_int dl)) (fl 3)) \<le> 11 / 16"
proof -
  have d: "fl (of_int dl) = of_int dl" using assms by (intro fl_of_int) simp
  have lo: "0 \<le> fl (of_int dl / 3)" using assms by (simp add: fl_nonneg)
  have "fl (of_int dl / 3) \<le> fl 1" using assms by (intro fl_mono) simp
  then have hi: "fl (of_int dl / 3) \<le> 1" by simp
  show "0 \<le> f_sub 1 (f_div (fl (of_int dl)) (fl 3))"
    using hi by (simp add: f_sub_def f_div_def d fl_nonneg)
  have "fl (1 - fl (of_int dl / 3)) \<le> fl 1" using lo by (intro fl_mono) simp
  then show "f_sub 1 (f_div (fl (of_int dl)) (fl 3)) \<le> 1" by (simp add: f_sub_def f_div_def d)
  assume "1 \<le> dl"
  then have "fl (5 / 16) \<le> fl (of_int dl / 3)" by (intro fl_mono) simp
  then have "1 - fl (of_int dl / 3) \<le> 11 / 16" by (simp add: fl_dyadic)
  then have "fl (1 - fl (of_int dl / 3)) \<le> fl (11 / 16)" by (rule fl_mono)
  then show "f_sub 1 (f_div (fl (of_int dl)) (fl 3)) \<le> 11 / 16"
    by (simp add: f_sub_def f_div_def d fl_dyadic)
qed

lemma jaccard_term:
  assumes "0 \<le> jac" "jac \<le> 1"
  shows "0 \<le> f_mul (fl (6 / 10)) jac" "f_mul (fl (6 / 10)) jac \<le> fl (6 / 10)"
proof -
  have w: "0 \<le> fl (6 / 10 :: rat)" by (rule fl_nonneg) simp
  then show "0 \<le> f_mul (fl (6 / 10)) jac" using assms by (simp add: f_mul_def fl_nonneg)
  have "fl (fl (6 / 10) * jac) \<le> fl (fl (6 / 10))"
    using w assms mult_left_mono [of jac 1 "fl (6 / 10)"] by (intro fl_mono) simp
  then show "f_mul (fl (6 / 10)) jac \<le> fl (6 / 10)" unfolding f_mul_def weights_f64 .
qed

lemma raw_score_bounds:
  assumes "0 \<le> jac" "jac \<le> 1" "0 \<le> dl" "dl \<le> 3"
  shows "1 \<le> raw_score jac dl" "raw_score jac dl \<le> 54" "1 \<le> dl \<Longrightarrow> raw_score jac dl \<le> 52"
    "jac = 1 \<Longrightarrow> dl = 0 \<Longrightarrow> raw_score jac dl = 54"
proof -
  let ?t = "f_sub 1 (f_div (fl (of_int dl)) (fl 3))" and ?w6 = "fl (6 / 10) :: rat" and ?w4 = "fl (4 / 10) :: rat"
  note t = dl_term [OF assms(3,4)] and j = jaccard_term [OF assms(1,2)]
  have w4: "0 \<le> ?w4" by (rule fl_nonneg) simp
  have w4h: "?w4 \<le> 1 / 2" unfolding weights by simp
  have rs: "raw_similarity jac dl = f_add (f_mul ?w6 jac) (f_mul ?w4 ?t)"
    by (simp add: raw_similarity_def candidateSimilarityDLBound_def)
  have sc: "raw_score jac dl = 1 + f_to_int (f_mul (raw_similarity jac dl) 53)"
    by (simp add: raw_score_def candidateScoreMin_def candidateScoreMax_def)
  have m4: "0 \<le> f_mul ?w4 ?t" using w4 t(1) by (simp add: f_mul_def fl_nonneg)
  have "fl (?w4 * ?t) \<le> fl ?w4" using w4 t(2) mult_left_mono [of ?t 1 ?w4] by (intro fl_mono) simp
  then have m4': "f_mul ?w4 ?t \<le> ?w4" unfolding f_mul_def weights_f64 .
  have s0: "0 \<le> raw_similarity jac dl" using j(1) m4 by (simp add: rs f_add_def fl_nonneg)
  then show "1 \<le> raw_score jac dl" by (simp add: sc f_to_int_def f_mul_def fl_nonneg)
  have up: "raw_score jac dl \<le> 1 + n" if "raw_similarity jac dl \<le> q" "fl (q * 53) < of_int n + 1" for q n
  proof -
    have "f_mul (raw_similarity jac dl) 53 \<le> fl (q * 53)"
      unfolding f_mul_def using that(1) by (intro fl_mono) simp
    then have "\<lfloor>f_mul (raw_similarity jac dl) 53\<rfloor> \<le> n"
      using that(2) by (simp add: floor_le_iff)
    then show ?thesis using s0 by (simp add: sc f_to_int_def f_mul_def fl_nonneg)
  qed
  have "fl (f_mul ?w6 jac + f_mul ?w4 ?t) \<le> fl (?w6 + ?w4)" using j(2) m4' by (intro fl_mono) simp
  then have "raw_similarity jac dl \<le> 1" unfolding rs f_add_def weights_sum .
  from up [OF this, of 53] show "raw_score jac dl \<le> 54" by simp
  { assume "1 \<le> dl"
    have "fl (?w4 * ?t) \<le> fl (1 / 2 * (11 / 16))"
      using t(1) t(3) [OF \<open>1 \<le> dl\<close>] w4 w4h by (intro fl_mono mult_mono) simp_all
    then have "f_mul ?w4 ?t \<le> 11 / 32" by (simp add: f_mul_def fl_dyadic)
    moreover have "f_mul ?w6 jac \<le> 5 / 8" using j(2) unfolding weights by simp
    ultimately have "fl (f_mul ?w6 jac + f_mul ?w4 ?t) \<le> fl (31 / 32)" by (intro fl_mono) simp
    then have "raw_similarity jac dl \<le> 31 / 32" by (simp add: rs f_add_def fl_dyadic)
    from up [OF this, of 51] show "raw_score jac dl \<le> 52" by (simp add: fl_dyadic) }
  assume "jac = 1" "dl = 0"
  then have "raw_similarity jac dl = f_add (f_mul ?w6 1) (f_mul ?w4 (f_sub 1 (f_div (fl 0) (fl 3))))"
    using rs by simp
  then have "raw_similarity jac dl = fl (fl (?w6 * 1) + fl (?w4 * fl (1 - fl 0)))"
    by (simp only: f_add_def f_mul_def f_sub_def f_div_def fl_0 div_0)
  then have "raw_similarity jac dl = 1"
    by (simp only: fl_0 diff_zero fl_1 mult_1_right weights_f64 weights_sum)
  then show "raw_score jac dl = 54" by (simp add: sc f_mul_def f_to_int_def)
qed

lemma CandidateSimilarity_raw:
  assumes "tokenise U a \<noteq> []" "tokenise U b \<noteq> []"
  shows "CandidateSimilarity U a b =
    raw_score (tokenJaccard (tokenise U a) (tokenise U b))
      (boundedDamerauLevenshtein (tokenise U a) (tokenise U b) 3)"
proof -
  have "0 \<le> boundedDamerauLevenshtein x y 3" "boundedDamerauLevenshtein x y 3 \<le> 3" for x y
    using distance_bounds [of 3 x y] by simp_all
  note b = raw_score_bounds(1,2) [OF tokenJaccard_range this]
  show ?thesis
    using assms b [of "tokenise U a" "tokenise U b" "tokenise U a" "tokenise U b"]
    by (simp add: CandidateSimilarity_def Let_def raw_score_def raw_similarity_def
        candidateSimilarityDLBound_def candidateScoreMin_def candidateScoreMax_def)
qed

section \<open>Properties\<close>

text \<open>The candidate score. It always lies in the band 1 to 54, a name without tokens scores the
  minimum, and the maximum is reached exactly by names with the same non-empty token sequence, in
  the rounded arithmetic of the code (for fewer than two to the 53 tokens): a candidate can never
  reach the rank of a deterministic method.\<close>

theorem candidate_similarity_band:
  assumes "length (tokenise U a) < 2 ^ 53"
  shows "candidateScoreMin \<le> CandidateSimilarity U a b \<and> CandidateSimilarity U a b \<le> candidateScoreMax \<and>
    (CandidateSimilarity U a b = candidateScoreMax \<longleftrightarrow> tokenise U a = tokenise U b \<and> tokenise U a \<noteq> []) \<and>
    (if tokenise U a = [] \<or> tokenise U b = [] then CandidateSimilarity U a b = candidateScoreMin else True)"
proof (cases "tokenise U a = [] \<or> tokenise U b = []")
  case True
  then show ?thesis
    by (auto simp: CandidateSimilarity_def Let_def candidateScoreMin_def candidateScoreMax_def)
next
  case False
  let ?ta = "tokenise U a" and ?tb = "tokenise U b"
  let ?dl = "boundedDamerauLevenshtein ?ta ?tb 3"
  note d = distance_bounds [of 3 ?ta ?tb, simplified]
  note b = raw_score_bounds [OF tokenJaccard_range [of ?ta ?tb] d(1,2)]
  have "CandidateSimilarity U a b = raw_score (tokenJaccard ?ta ?tb) ?dl"
    using False by (simp add: CandidateSimilarity_raw)
  moreover have "raw_score (tokenJaccard ?ta ?tb) ?dl = 54 \<longleftrightarrow> ?ta = ?tb"
  proof
    assume "raw_score (tokenJaccard ?ta ?tb) ?dl = 54"
    then have "\<not> 1 \<le> ?dl" using b(3) by fastforce
    with d show "?ta = ?tb" by simp
  next
    assume "?ta = ?tb"
    then show "raw_score (tokenJaccard ?ta ?tb) ?dl = 54"
      using b(4) d(3) tokenJaccard_same [of ?ta] False assms by simp
  qed
  ultimately show ?thesis using b(1,2) False by (simp add: candidateScoreMin_def candidateScoreMax_def)
qed

theorem candidate_similarity_band_witness:
  "CandidateSimilarity plain_unicode ''Apache-HTTP'' ''apache http'' = 54"
proof -
  have "tokenise plain_unicode ''Apache-HTTP'' = [''apache'', ''http'']" by code_simp
  moreover have "tokenise plain_unicode ''apache http'' = [''apache'', ''http'']" by code_simp
  ultimately show ?thesis
    using candidate_similarity_band [of plain_unicode "''Apache-HTTP''" "''apache http''"]
    by (simp add: candidateScoreMax_def)
qed

text \<open>The bounded edit distance of two token streams is between 0 and the cap and is 0 exactly for
  equal streams, and the overlap is the quotient of the numbers of common and of all distinct
  tokens, between 0 and 1.\<close>

theorem token_measures:
  assumes "0 < cap"
  shows "0 \<le> boundedDamerauLevenshtein a b cap \<and> boundedDamerauLevenshtein a b cap \<le> cap \<and>
    (boundedDamerauLevenshtein a b cap = 0 \<longleftrightarrow> a = b) \<and>
    0 \<le> tokenJaccard a b \<and> tokenJaccard a b \<le> 1 \<and>
    tokenJaccard a b = (let u = card (set a \<union> set b) in
      if u = 0 then 1 else f_div (fl (of_nat (card (set a \<inter> set b)))) (fl (of_nat u)))"
  using distance_bounds [OF assms, of a b] tokenJaccard_range [of a b] tokenJaccard_cards [of a b]
  by simp

theorem token_measures_witness: "boundedDamerauLevenshtein [''b'', ''a''] [''a'', ''b''] 3 \<noteq> 0"
  using token_measures [of 3 "[''b'', ''a'']" "[''a'', ''b'']"] by simp

end
