(* ===== verification/Matching.thy ===== *)
theory Matching
  imports NormaliseRules Similarity
begin

text \<open>
  The matching engine (internal/application/matching): the evaluation input and its checks
  (types.go), the relation of a component version to an affected-version expression
  (version.go), the evidence ladder per statement and the aggregation across statements
  (evaluate.go), and the decision rules on top of the computed outcome (decision.go).
\<close>

section \<open>Inputs and outcomes\<close>

record AffectedProduct =
  AP_Vendor :: string
  AP_Product :: string
  AP_CPE :: string
  AP_PURL :: string
  AP_Repository :: string
  AP_Digest :: string
  AP_ExactVersions :: "string list"
  AP_Ranges :: "VersionRange list"

definition hasIdentity :: "AffectedProduct \<Rightarrow> bool" where
  "hasIdentity a =
     (if trim_space (AP_Vendor a) \<noteq> '''' \<and> trim_space (AP_Product a) \<noteq> '''' then True
      else if trim_space (AP_CPE a) \<noteq> '''' \<or> trim_space (AP_PURL a) \<noteq> '''' then True
      else trim_space (AP_Repository a) \<noteq> '''' \<and> trim_space (AP_Digest a) \<noteq> '''')"

record Input =
  In_CVEID :: string
  In_Statements :: "AffectedProduct list"
  In_Component :: Component
  In_AliasRules :: "AliasRule list"
  In_DecisionRules :: "DecisionRule list"
  In_AliasVersion :: int
  In_DecisionVersion :: int
  In_Now :: time

definition Input_validate :: "Input \<Rightarrow> unit result" where
  "Input_validate inp =
     (if In_Statements inp = [] then Err (EmptyField ''statements'')
      else
        each (\<lambda>a.
          if \<not> hasIdentity a then Err (BadShape ''statement names no product identity'')
          else
            each (\<lambda>v. if trim_space v = '''' then Err (EmptyField ''exact version'') else Ok ())
              (AP_ExactVersions a))
          (In_Statements inp))"

text \<open>A rendered reason; the one that quotes its arguments is kept as its arguments.\<close>

datatype reason = Reason string | WeakSimilarity string string int

record Outcome =
  Out_Method :: MatchMethod
  Out_Confidence :: Confidence
  Out_Score :: int
  Out_RuleVersion :: string
  Out_Reasons :: "reason list"
  Out_DecisionRuleID :: "string option"
  Out_AutoMethod :: "MatchMethod option"
  Out_AutoConfidence :: "Confidence option"
  Out_AutoScore :: "int option"

section \<open>The version relation\<close>

datatype versionState =
    versionNoExpression
  | versionAffectedExact
  | versionAffectedRange
  | versionProvablyNotAffected
  | versionMissing
  | versionAmbiguous

fun versionState_String :: "versionState \<Rightarrow> string" where
  "versionState_String versionNoExpression = ''no version expression''"
| "versionState_String versionAffectedExact = ''affected (exact version)''"
| "versionState_String versionAffectedRange = ''affected (in window)''"
| "versionState_String versionProvablyNotAffected = ''provably not affected''"
| "versionState_String versionMissing = ''version missing''"
| "versionState_String versionAmbiguous = ''ambiguous''"

record versionRelation =
  rel_state :: versionState
  rel_matchedExact :: string
  rel_matchedRange :: VersionRange

definition no_range :: VersionRange where
  "no_range = \<lparr>Range_Start = '''', Range_StartIncluding = False, Range_End = '''', Range_EndIncluding = False\<rparr>"

definition relation :: "versionState \<Rightarrow> versionRelation" where
  "relation s = \<lparr>rel_state = s, rel_matchedExact = '''', rel_matchedRange = no_range\<rparr>"

text \<open>The concrete version of a CPE or a package URL, if it parses and has one.\<close>

definition cpe_version :: "string \<Rightarrow> string option" where
  "cpe_version s =
     (case ParseCPE23 (trim_space s) of
        Inl _ \<Rightarrow> None
      | Inr c \<Rightarrow>
          (let v = trim_space (CPE_Version c) in
           if v \<noteq> '''' \<and> v \<noteq> ''*'' \<and> v \<noteq> ''-'' then Some v else None))"

definition purl_version :: "string \<Rightarrow> string option" where
  "purl_version s =
     (case ParsePURL (trim_space s) of
        Inl _ \<Rightarrow> None
      | Inr p \<Rightarrow> (let v = trim_space (PURL_Version p) in if v \<noteq> '''' then Some v else None))"

definition componentVersion :: "Component \<Rightarrow> string" where
  "componentVersion c =
     (let v = trim_space (Cmp_VersionNorm c) in
      if v \<noteq> '''' then v
      else
        (let v = trim_space (Cmp_Version c) in
         if v \<noteq> '''' then v
         else
           (case cpe_version (Cmp_CPE c) of
              Some v \<Rightarrow> v
            | None \<Rightarrow> (case purl_version (Cmp_PURL c) of Some v \<Rightarrow> v | None \<Rightarrow> ''''))))"

text \<open>A package URL is consulted only when the CPE does not parse.\<close>

definition statementExactVersions :: "AffectedProduct \<Rightarrow> string list" where
  "statementExactVersions a =
     map trim_space (AP_ExactVersions a) @
     (if is_ok (ParseCPE23 (trim_space (AP_CPE a)))
      then (case cpe_version (AP_CPE a) of Some v \<Rightarrow> [v] | None \<Rightarrow> [])
      else (case purl_version (AP_PURL a) of Some v \<Rightarrow> [v] | None \<Rightarrow> []))"

definition versionEqual :: "string \<Rightarrow> string \<Rightarrow> versionStrategy \<Rightarrow> bool" where
  "versionEqual a b strategy =
     (if a = b then True
      else if strategy_scheme strategy = VersionSchemeUnknown then False
      else (case strategy_compare strategy a b of Inl _ \<Rightarrow> False | Inr o' \<Rightarrow> o' = OrderingEqual))"

text \<open>The loop over the ranges, with the flag \<open>undecidable\<close>.\<close>

fun classify_ranges :: "string \<Rightarrow> versionStrategy \<Rightarrow> bool \<Rightarrow> bool \<Rightarrow> VersionRange list \<Rightarrow> versionRelation" where
  "classify_ranges version strategy orderable undecidable [] =
     (if undecidable then relation versionAmbiguous else relation versionProvablyNotAffected)"
| "classify_ranges version strategy orderable undecidable (rng # ranges) =
     (if Range_Start rng = '''' \<and> Range_End rng = '''' then
        (relation versionAffectedRange)\<lparr>rel_matchedRange := rng\<rparr>
      else if \<not> orderable then classify_ranges version strategy orderable True ranges
      else
        (case InRange version rng strategy of
           Inl _ \<Rightarrow> classify_ranges version strategy orderable True ranges
         | Inr isin \<Rightarrow>
             (if isin then (relation versionAffectedRange)\<lparr>rel_matchedRange := rng\<rparr>
              else classify_ranges version strategy orderable undecidable ranges)))"

definition classifyVersion ::
  "unicode \<Rightarrow> string \<Rightarrow> VersionScheme \<Rightarrow> string list \<Rightarrow> VersionRange list \<Rightarrow> versionRelation" where
  "classifyVersion U version scheme exacts ranges =
     (if \<not> (length exacts > 0 \<or> length ranges > 0) then relation versionNoExpression
      else if version = '''' then relation versionMissing
      else
        (let strategy = StrategyFor U scheme; orderable = (scheme \<noteq> VersionSchemeUnknown) in
         case find (\<lambda>e. versionEqual version e strategy) exacts of
           Some e \<Rightarrow> (relation versionAffectedExact)\<lparr>rel_matchedExact := e\<rparr>
         | None \<Rightarrow> classify_ranges version strategy orderable False ranges))"

definition renderWindow :: "VersionRange \<Rightarrow> string" where
  "renderWindow r =
     (if Range_Start r = '''' \<and> Range_End r = '''' then ''any version''
      else
        (let lower = (if Range_Start r \<noteq> ''''
               then [(if Range_StartIncluding r then ''v >= '' else ''v > '') @ Range_Start r] else []);
             upper = (if Range_End r \<noteq> ''''
               then [(if Range_EndIncluding r then ''v <= '' else ''v < '') @ Range_End r] else [])
         in (case lower @ upper of [x, y] \<Rightarrow> x @ '' and '' @ y | xs \<Rightarrow> concat xs)))"

definition versionAffectedNote :: "versionRelation \<Rightarrow> string" where
  "versionAffectedNote rel =
     (if rel_state rel = versionAffectedExact then ''version equals the affected version '' @ rel_matchedExact rel
      else if rel_state rel = versionAffectedRange
      then ''version lies in the affected window '' @ renderWindow (rel_matchedRange rel)
      else versionState_String (rel_state rel))"

section \<open>Identities\<close>

record statementResult =
  sr_method :: MatchMethod
  sr_similarity :: int
  sr_reasons :: "reason list"

record cpeIdentity =
  cpe_part :: string
  cpe_vendor :: string
  cpe_product :: string

definition cpeIdentityFrom :: "unicode \<Rightarrow> string \<Rightarrow> cpeIdentity option" where
  "cpeIdentityFrom U s =
     (case ParseCPE23 (trim_space s) of
        Inl _ \<Rightarrow> None
      | Inr c \<Rightarrow>
          (if CPE_Vendor c \<in> {'''', ''*'', ''-''} then None
           else if CPE_Product c \<in> {'''', ''*'', ''-''} then None
           else Some \<lparr>cpe_part = to_lower U (CPE_Part c), cpe_vendor = to_lower U (CPE_Vendor c),
                      cpe_product = to_lower U (CPE_Product c)\<rparr>))"

record purlIdentity =
  purl_typ :: string
  purl_namespace :: string
  purl_name :: string

definition purlIdentityFrom :: "string \<Rightarrow> purlIdentity option" where
  "purlIdentityFrom s =
     (case ParsePURL (trim_space s) of
        Inl _ \<Rightarrow> None
      | Inr p \<Rightarrow> Some \<lparr>purl_typ = PURL_Type p, purl_namespace = PURL_Namespace p, purl_name = PURL_Name p\<rparr>)"

record preparedComponent =
  pc_vendor :: string
  pc_product :: string
  pc_version :: string
  pc_scheme :: VersionScheme
  pc_imageOrigin :: string
  pc_imageDigest :: string
  pc_cpe :: "cpeIdentity option"
  pc_purl :: "purlIdentity option"

definition imageOrigin :: "string \<Rightarrow> string \<Rightarrow> string" where
  "imageOrigin registry repository = (if registry \<noteq> '''' then registry @ ''/'' @ repository else repository)"

definition prepareComponent :: "unicode \<Rightarrow> Component \<Rightarrow> preparedComponent" where
  "prepareComponent U c =
     (let digest = trim_space (Cmp_Digest c);
          img = trim_space (Cmp_Image c);
          (origin, digest) =
            (if img \<noteq> '''' then
               (case ParseImageRef img of
                  Inl _ \<Rightarrow> ('''', digest)
                | Inr ref \<Rightarrow>
                    (imageOrigin (Image_Registry ref) (Image_Repository ref),
                     if digest = '''' then Image_Digest ref else digest))
             else ('''', digest))
      in \<lparr>pc_vendor = NormaliseKey U (Cmp_VendorNorm c), pc_product = NormaliseKey U (Cmp_ProductNorm c),
          pc_version = componentVersion c, pc_scheme = Cmp_VersionScheme c,
          pc_imageOrigin = origin,
          pc_imageDigest = (if digest \<noteq> '''' then to_lower U digest else ''''),
          pc_cpe = cpeIdentityFrom U (Cmp_CPE c), pc_purl = purlIdentityFrom (Cmp_PURL c)\<rparr>)"

definition normalizeStatement :: "unicode \<Rightarrow> AffectedProduct \<Rightarrow> AffectedProduct" where
  "normalizeStatement U a =
     a\<lparr>AP_Vendor := NormaliseKey U (AP_Vendor a), AP_Product := NormaliseKey U (AP_Product a),
       AP_CPE := trim_space (AP_CPE a), AP_PURL := trim_space (AP_PURL a),
       AP_Repository := trim_space (AP_Repository a),
       AP_Digest := to_lower U (trim_space (AP_Digest a)),
       AP_ExactVersions := map trim_space (AP_ExactVersions a),
       AP_Ranges := map (\<lambda>r. r\<lparr>Range_Start := trim_space (Range_Start r), Range_End := trim_space (Range_End r)\<rparr>)
         (AP_Ranges a)\<rparr>"

definition statementImageOrigin :: "unicode \<Rightarrow> string \<Rightarrow> string option" where
  "statementImageOrigin U repository =
     (case ParseImageRef repository of
        Inl _ \<Rightarrow> None
      | Inr ref \<Rightarrow> Some (imageOrigin (to_lower U (Image_Registry ref)) (Image_Repository ref)))"

text \<open>The two-pointer walk over two sorted closures.\<close>

fun overlap_walk :: "string list \<Rightarrow> string list \<Rightarrow> bool" where
  "overlap_walk (x # xs) (y # ys) =
     (if x = y then True
      else if x < y then overlap_walk xs (y # ys)
      else overlap_walk (x # xs) ys)"
| "overlap_walk _ _ = False"

definition namesOverlap :: "AliasScope \<Rightarrow> string \<Rightarrow> string \<Rightarrow> AliasRule list \<Rightarrow> bool" where
  "namesOverlap scope a b rules = overlap_walk (AliasClosure scope a rules) (AliasClosure scope b rules)"

section \<open>The evidence ladder\<close>

text \<open>The dash of the rendered reasons, in UTF-8.\<close>

definition dash :: string where
  "dash = '' '' @ [CHR 0xE2, CHR 0x80, CHR 0x94] @ '' ''"

definition uncertainReason :: "string \<Rightarrow> versionRelation \<Rightarrow> VersionScheme \<Rightarrow> string" where
  "uncertainReason evidenceNote rel scheme =
     (case rel_state rel of
        versionMissing \<Rightarrow>
          evidenceNote @ ''; the component carries no version'' @ dash @ ''affected status unconfirmed''
      | versionAmbiguous \<Rightarrow>
          evidenceNote @ ''; the affected window cannot be evaluated for the component's version scheme '' @
            VersionScheme_str scheme @ dash @ ''affected status unconfirmed''
      | _ \<Rightarrow>
          evidenceNote @ ''; the affected product statement names no affected version'' @ dash @
            ''affected status unconfirmed'')"

definition notAffectedReason :: "string \<Rightarrow> string \<Rightarrow> string" where
  "notAffectedReason evidenceNote version =
     evidenceNote @ ''; version '' @ version @ '' is outside every affected window'' @ dash @ ''provably not affected''"

definition nameTierResult ::
  "unicode \<Rightarrow> MatchMethod \<Rightarrow> MatchMethod \<Rightarrow> preparedComponent \<Rightarrow> string list \<Rightarrow> VersionRange list \<Rightarrow> string \<Rightarrow>
     statementResult" where
  "nameTierResult U affectedMethod uncertainMethod cmp exacts ranges evidenceNote =
     (let rel = classifyVersion U (pc_version cmp) (pc_scheme cmp) exacts ranges in
      if rel_state rel \<in> {versionAffectedExact, versionAffectedRange} then
        \<lparr>sr_method = affectedMethod, sr_similarity = 0,
         sr_reasons = [Reason (evidenceNote @ ''; '' @ versionAffectedNote rel)]\<rparr>
      else if rel_state rel = versionProvablyNotAffected then
        \<lparr>sr_method = MatchMethodNoMatch, sr_similarity = 0,
         sr_reasons = [Reason (notAffectedReason evidenceNote (pc_version cmp))]\<rparr>
      else
        \<lparr>sr_method = uncertainMethod, sr_similarity = 0,
         sr_reasons = [Reason (uncertainReason evidenceNote rel (pc_scheme cmp))]\<rparr>)"

text \<open>The same switch with the methods of an exact identifier; the parameter \<open>kind\<close> is unused.\<close>

definition identifierResult ::
  "unicode \<Rightarrow> preparedComponent \<Rightarrow> string list \<Rightarrow> VersionRange list \<Rightarrow> string \<Rightarrow> statementResult" where
  "identifierResult U cmp exacts ranges evidenceNote =
     (let rel = classifyVersion U (pc_version cmp) (pc_scheme cmp) exacts ranges in
      if rel_state rel \<in> {versionAffectedExact, versionAffectedRange} then
        \<lparr>sr_method = MatchMethodExactIdentifier, sr_similarity = 0,
         sr_reasons = [Reason (evidenceNote @ ''; '' @ versionAffectedNote rel)]\<rparr>
      else if rel_state rel = versionProvablyNotAffected then
        \<lparr>sr_method = MatchMethodNoMatch, sr_similarity = 0,
         sr_reasons = [Reason (notAffectedReason evidenceNote (pc_version cmp))]\<rparr>
      else
        \<lparr>sr_method = MatchMethodProductUncertainVersion, sr_similarity = 0,
         sr_reasons = [Reason (uncertainReason evidenceNote rel (pc_scheme cmp))]\<rparr>)"

definition digest_matches :: "unicode \<Rightarrow> AffectedProduct \<Rightarrow> preparedComponent \<Rightarrow> bool" where
  "digest_matches U a cmp \<longleftrightarrow>
     AP_Repository a \<noteq> '''' \<and> AP_Digest a \<noteq> '''' \<and>
     (case statementImageOrigin U (AP_Repository a) of
        None \<Rightarrow> False
      | Some origin \<Rightarrow> pc_imageOrigin cmp \<noteq> '''' \<and> pc_imageDigest cmp \<noteq> '''' \<and>
          origin = pc_imageOrigin cmp \<and> AP_Digest a = pc_imageDigest cmp)"

definition canonical_names :: "AffectedProduct \<Rightarrow> preparedComponent \<Rightarrow> bool" where
  "canonical_names a cmp \<longleftrightarrow> pc_vendor cmp \<noteq> '''' \<and> pc_product cmp \<noteq> '''' \<and>
     AP_Vendor a = pc_vendor cmp \<and> AP_Product a = pc_product cmp"

definition alias_names :: "AffectedProduct \<Rightarrow> preparedComponent \<Rightarrow> AliasRule list \<Rightarrow> bool" where
  "alias_names a cmp aliasRules \<longleftrightarrow>
     \<not> canonical_names a cmp \<and> AP_Vendor a \<noteq> '''' \<and> AP_Product a \<noteq> '''' \<and>
     pc_vendor cmp \<noteq> '''' \<and> pc_product cmp \<noteq> '''' \<and>
     namesOverlap AliasScopeVendor (AP_Vendor a) (pc_vendor cmp) aliasRules \<and>
     namesOverlap AliasScopeProduct (AP_Product a) (pc_product cmp) aliasRules"

definition evaluateStatement ::
  "unicode \<Rightarrow> AffectedProduct \<Rightarrow> preparedComponent \<Rightarrow> AliasRule list \<Rightarrow> statementResult" where
  "evaluateStatement U a cmp aliasRules =
     (let exacts = statementExactVersions a;
          stmtCPE = cpeIdentityFrom U (AP_CPE a);
          stmtPURL = purlIdentityFrom (AP_PURL a);
          names = ''product '' @ pc_vendor cmp @ ''/'' @ pc_product cmp @
            '' matches the affected product '' @ AP_Vendor a @ ''/'' @ AP_Product a
      in
        if digest_matches U a cmp then
          \<lparr>sr_method = MatchMethodContainerDigest, sr_similarity = 0,
           sr_reasons = [Reason (''image repository '' @ pc_imageOrigin cmp @ '' with digest '' @
             pc_imageDigest cmp @ '' matches the affected container image'')]\<rparr>
        else if stmtCPE \<noteq> None \<and> pc_cpe cmp = stmtCPE then
          identifierResult U cmp exacts (AP_Ranges a)
            (''component CPE '' @ cpe_vendor (the stmtCPE) @ ''/'' @ cpe_product (the stmtCPE) @
             '' matches the affected CPE'')
        else if stmtPURL \<noteq> None \<and> pc_purl cmp = stmtPURL then
          (let p = the stmtPURL;
               desc = (if purl_namespace p \<noteq> ''''
                       then purl_typ p @ ''/'' @ purl_namespace p @ ''/'' @ purl_name p
                       else purl_typ p @ ''/'' @ purl_name p)
           in identifierResult U cmp exacts (AP_Ranges a)
                (''component purl '' @ desc @ '' matches the affected purl''))
        else if canonical_names a cmp then
          nameTierResult U MatchMethodCanonicalProductRange MatchMethodProductUncertainVersion
            cmp exacts (AP_Ranges a) names
        else if alias_names a cmp aliasRules then
          nameTierResult U MatchMethodAliasExactVersion MatchMethodControlledAliasOnly
            cmp exacts (AP_Ranges a) (names @ '' through a controlled alias'')
        else
          (let sim = CandidateSimilarity U (AP_Product a) (pc_product cmp) in
           \<lparr>sr_method = MatchMethodCandidate, sr_similarity = sim,
            sr_reasons = [WeakSimilarity (AP_Product a) (pc_product cmp) sim]\<rparr>))"

section \<open>Version lemmas\<close>

lemma relation_simps [simp]:
  "rel_state (relation s) = s" "rel_matchedExact (relation s) = ''''" "rel_matchedRange (relation s) = no_range"
  by (simp_all add: relation_def)

text \<open>A window decides for a version: it is unbounded, or the scheme compares the bounds.\<close>

definition window_covers :: "unicode \<Rightarrow> VersionScheme \<Rightarrow> string \<Rightarrow> VersionRange \<Rightarrow> bool" where
  "window_covers U scheme v r \<longleftrightarrow> Range_Start r = '''' \<and> Range_End r = '''' \<or>
     scheme \<noteq> VersionSchemeUnknown \<and> InRange v r (StrategyFor U scheme) = Ok True"

definition window_excludes :: "unicode \<Rightarrow> VersionScheme \<Rightarrow> string \<Rightarrow> VersionRange \<Rightarrow> bool" where
  "window_excludes U scheme v r \<longleftrightarrow> \<not> (Range_Start r = '''' \<and> Range_End r = '''') \<and>
     scheme \<noteq> VersionSchemeUnknown \<and> InRange v r (StrategyFor U scheme) = Ok False"

lemma classify_ranges_spec:
  "rel_state (classify_ranges v (StrategyFor U sch) (sch \<noteq> VersionSchemeUnknown) u rs) =
     (if \<exists>r\<in>set rs. window_covers U sch v r then versionAffectedRange
      else if u \<or> (\<exists>r\<in>set rs. \<not> window_excludes U sch v r) then versionAmbiguous
      else versionProvablyNotAffected)"
proof (induction rs arbitrary: u)
  case (Cons r rs)
  show ?case
  proof (cases "Range_Start r = '''' \<and> Range_End r = ''''")
    case True
    then show ?thesis by (simp add: window_covers_def)
  next
    case ne: False
    show ?thesis
    proof (cases "sch = VersionSchemeUnknown")
      case True
      with ne Cons show ?thesis by (auto simp: window_covers_def window_excludes_def)
    next
      case False
      with ne Cons show ?thesis
        by (cases "InRange v r (StrategyFor U sch)") (auto simp: window_covers_def window_excludes_def)
    qed
  qed
qed simp

lemma classify_ranges_window:
  "rel_state (classify_ranges v (StrategyFor U sch) (sch \<noteq> VersionSchemeUnknown) u rs) = versionAffectedRange \<Longrightarrow>
   rel_matchedRange (classify_ranges v (StrategyFor U sch) (sch \<noteq> VersionSchemeUnknown) u rs) \<in> set rs \<and>
   window_covers U sch v (rel_matchedRange (classify_ranges v (StrategyFor U sch) (sch \<noteq> VersionSchemeUnknown) u rs))"
proof (induction rs arbitrary: u)
  case Nil
  then show ?case by (simp split: if_splits)
next
  case (Cons r rs)
  then show ?case
    by (cases "InRange v r (StrategyFor U sch)") (auto simp: window_covers_def split: if_splits)
qed

lemma classifyVersion_state:
  "rel_state (classifyVersion U v sch exs rs) =
     (if exs = [] \<and> rs = [] then versionNoExpression
      else if v = '''' then versionMissing
      else if \<exists>e\<in>set exs. versionEqual v e (StrategyFor U sch) then versionAffectedExact
      else if \<exists>r\<in>set rs. window_covers U sch v r then versionAffectedRange
      else if \<exists>r\<in>set rs. \<not> window_excludes U sch v r then versionAmbiguous
      else versionProvablyNotAffected)"
proof (cases "find (\<lambda>e. versionEqual v e (StrategyFor U sch)) exs")
  case None
  then have "\<not> (\<exists>e\<in>set exs. versionEqual v e (StrategyFor U sch))" by (simp add: find_None_iff)
  with None show ?thesis by (simp add: classifyVersion_def Let_def classify_ranges_spec)
next
  case (Some e)
  then have "e \<in> set exs" "versionEqual v e (StrategyFor U sch)"
    by (auto simp: find_Some_iff)
  with Some show ?thesis by (auto simp: classifyVersion_def Let_def)
qed

section \<open>Ladder lemmas\<close>

lemma overlap_walk_iff:
  "sorted xs \<Longrightarrow> sorted ys \<Longrightarrow> overlap_walk xs ys \<longleftrightarrow> set xs \<inter> set ys \<noteq> {}"
proof (induction xs ys rule: overlap_walk.induct)
  case (1 x xs y ys)
  consider "x = y" | "x < y" | "y < x" by fastforce
  then show ?case
  proof cases
    case 2
    with 1 have "x \<notin> set (y # ys)" by auto
    with 1 2 show ?thesis by auto
  next
    case 3
    with 1 have "y \<notin> set (x # xs)" by auto
    with 1 3 show ?thesis by auto
  qed simp
qed auto

lemma namesOverlap_iff:
  "namesOverlap scope a b rules \<longleftrightarrow> (\<exists>v\<in>set (AliasClosure scope a rules). v \<in> set (AliasClosure scope b rules))"
  using overlap_walk_iff [OF AliasClosure_sorted(1) AliasClosure_sorted(1), of scope a rules scope b rules]
  by (auto simp: namesOverlap_def)

lemma namesOverlap_sym: "namesOverlap scope a b rules = namesOverlap scope b a rules"
  by (auto simp: namesOverlap_iff)

lemma CandidateSimilarity_bounds: "1 \<le> CandidateSimilarity U a b" "CandidateSimilarity U a b \<le> 54"
proof -
  have "1 \<le> CandidateSimilarity U a b \<and> CandidateSimilarity U a b \<le> 54"
  proof (cases "tokenise U a = [] \<or> tokenise U b = []")
    case True
    then show ?thesis by (auto simp: CandidateSimilarity_def Let_def candidateScoreMin_def)
  next
    case False
    let ?dl = "boundedDamerauLevenshtein (tokenise U a) (tokenise U b) 3"
    have "0 \<le> ?dl" "?dl \<le> 3" using distance_bounds [of 3 "tokenise U a" "tokenise U b"] by simp_all
    note b = raw_score_bounds(1,2) [OF tokenJaccard_range [of "tokenise U a" "tokenise U b"] this]
    show ?thesis using False b by (simp add: CandidateSimilarity_raw)
  qed
  then show "1 \<le> CandidateSimilarity U a b" "CandidateSimilarity U a b \<le> 54" by auto
qed

text \<open>The relation of an evidence tier to the method, shared by the two tier functions.\<close>

fun tier_method :: "MatchMethod \<Rightarrow> MatchMethod \<Rightarrow> versionState \<Rightarrow> MatchMethod" where
  "tier_method affected uncertain versionAffectedExact = affected"
| "tier_method affected uncertain versionAffectedRange = affected"
| "tier_method affected uncertain versionProvablyNotAffected = MatchMethodNoMatch"
| "tier_method affected uncertain _ = uncertain"

lemma tier_results:
  "sr_method (nameTierResult U m1 m2 cmp exs rs note) =
     tier_method m1 m2 (rel_state (classifyVersion U (pc_version cmp) (pc_scheme cmp) exs rs))"
  "sr_method (identifierResult U cmp exs rs note) =
     tier_method MatchMethodExactIdentifier MatchMethodProductUncertainVersion
       (rel_state (classifyVersion U (pc_version cmp) (pc_scheme cmp) exs rs))"
  "sr_similarity (nameTierResult U m1 m2 cmp exs rs note) = 0"
  "sr_similarity (identifierResult U cmp exs rs note) = 0"
  by (cases "rel_state (classifyVersion U (pc_version cmp) (pc_scheme cmp) exs rs)";
      simp add: nameTierResult_def identifierResult_def Let_def)+

text \<open>The statement and the component name the same product, short of the digest.\<close>

definition related :: "unicode \<Rightarrow> AffectedProduct \<Rightarrow> preparedComponent \<Rightarrow> AliasRule list \<Rightarrow> bool" where
  "related U a cmp rules \<longleftrightarrow>
     (cpeIdentityFrom U (AP_CPE a) \<noteq> None \<and> pc_cpe cmp = cpeIdentityFrom U (AP_CPE a)) \<or>
     (purlIdentityFrom (AP_PURL a) \<noteq> None \<and> pc_purl cmp = purlIdentityFrom (AP_PURL a)) \<or>
     canonical_names a cmp \<or> alias_names a cmp rules"

abbreviation stmt_state :: "unicode \<Rightarrow> AffectedProduct \<Rightarrow> preparedComponent \<Rightarrow> versionState" where
  "stmt_state U a cmp \<equiv>
     rel_state (classifyVersion U (pc_version cmp) (pc_scheme cmp) (statementExactVersions a) (AP_Ranges a))"

lemma evaluateStatement_cases:
  obtains
    (digest) "digest_matches U a cmp" "sr_method (evaluateStatement U a cmp rules) = MatchMethodContainerDigest"
      "sr_similarity (evaluateStatement U a cmp rules) = 0"
  | (tier) m1 m2 where "\<not> digest_matches U a cmp" "related U a cmp rules"
      "m1 \<in> {MatchMethodExactIdentifier, MatchMethodCanonicalProductRange, MatchMethodAliasExactVersion}"
      "m2 \<in> {MatchMethodProductUncertainVersion, MatchMethodControlledAliasOnly}"
      "sr_method (evaluateStatement U a cmp rules) = tier_method m1 m2 (stmt_state U a cmp)"
      "sr_similarity (evaluateStatement U a cmp rules) = 0"
  | (candidate) "\<not> digest_matches U a cmp" "\<not> related U a cmp rules"
      "sr_method (evaluateStatement U a cmp rules) = MatchMethodCandidate"
      "sr_similarity (evaluateStatement U a cmp rules) = CandidateSimilarity U (AP_Product a) (pc_product cmp)"
proof -
  let ?cpe = "cpeIdentityFrom U (AP_CPE a) \<noteq> None \<and> pc_cpe cmp = cpeIdentityFrom U (AP_CPE a)"
  let ?purl = "purlIdentityFrom (AP_PURL a) \<noteq> None \<and> pc_purl cmp = purlIdentityFrom (AP_PURL a)"
  note defs = evaluateStatement_def Let_def tier_results if_True if_False
  consider "digest_matches U a cmp" | "\<not> digest_matches U a cmp" "?cpe"
    | "\<not> digest_matches U a cmp" "\<not> ?cpe" "?purl"
    | "\<not> digest_matches U a cmp" "\<not> ?cpe" "\<not> ?purl" "canonical_names a cmp"
    | "\<not> digest_matches U a cmp" "\<not> ?cpe" "\<not> ?purl" "\<not> canonical_names a cmp" "alias_names a cmp rules"
    | "\<not> digest_matches U a cmp" "\<not> ?cpe" "\<not> ?purl" "\<not> canonical_names a cmp" "\<not> alias_names a cmp rules"
    by argo
  then show thesis
  proof cases
    case 1
    then show thesis by (intro digest) (simp_all only: defs statementResult.simps)
  next
    case 2
    then show thesis
      by (intro tier [of MatchMethodExactIdentifier MatchMethodProductUncertainVersion])
        (simp_all add: defs related_def)
  next
    case 3
    show thesis
      by (rule tier [of MatchMethodExactIdentifier MatchMethodProductUncertainVersion])
        (insert 3, auto simp only: defs related_def simp_thms insert_iff)
  next
    case 4
    show thesis
      by (rule tier [of MatchMethodCanonicalProductRange MatchMethodProductUncertainVersion])
        (insert 4, auto simp only: defs related_def simp_thms insert_iff)
  next
    case 5
    show thesis
      by (rule tier [of MatchMethodAliasExactVersion MatchMethodControlledAliasOnly])
        (insert 5, auto simp only: defs related_def simp_thms insert_iff)
  next
    case 6
    show thesis
      by (rule candidate) (insert 6, auto simp only: defs related_def simp_thms statementResult.simps)
  qed
qed

text \<open>Every statement result is derivable: the aggregation cannot fail.\<close>

lemma evaluateStatement_Derive:
  "\<exists>conf score. Derive (sr_method (evaluateStatement U a cmp rules))
     (sr_similarity (evaluateStatement U a cmp rules)) = Ok (conf, score)"
proof -
  let ?m = "sr_method (evaluateStatement U a cmp rules)" and ?s = "sr_similarity (evaluateStatement U a cmp rules)"
  have "is_ok (Derive ?m ?s)"
  proof (cases rule: evaluateStatement_cases [of U a cmp rules])
    case digest
    then show ?thesis by (simp add: Derive_Ok_iff matchRules_Valid [symmetric])
  next
    case (tier m1 m2)
    then have "?m \<noteq> MatchMethodCandidate" "MatchMethod_Valid ?m"
      by (cases "stmt_state U a cmp"; auto simp: matchRules_Valid [symmetric])+
    then show ?thesis by (simp add: Derive_Ok_iff)
  next
    case candidate
    then show ?thesis using CandidateSimilarity_bounds by (simp add: Derive_Ok_iff matchRules_Valid [symmetric])
  qed
  then show ?thesis by (auto simp: is_ok_iff)
qed

section \<open>Properties\<close>

text \<open>When a version is related to an affected-version expression: it is affected exactly when it
  equals a named version or lies in a window that is unbounded or decided, provably not affected
  exactly when the version is there and every named version and every window was decided
  against it, missing when there is none, and in every other case ambiguous; an unordered
  scheme never decides a bounded window.\<close>

theorem version_relation:
  "(rel_state (classifyVersion U v sch exs rs) \<in> {versionAffectedExact, versionAffectedRange} \<longleftrightarrow>
      v \<noteq> '''' \<and> ((\<exists>e\<in>set exs. versionEqual v e (StrategyFor U sch)) \<or> (\<exists>r\<in>set rs. window_covers U sch v r))) \<and>
   (rel_state (classifyVersion U v sch exs rs) = versionProvablyNotAffected \<longleftrightarrow>
      v \<noteq> '''' \<and> \<not> (exs = [] \<and> rs = []) \<and>
      (\<nexists>e. e \<in> set exs \<and> versionEqual v e (StrategyFor U sch)) \<and> list_all (window_excludes U sch v) rs) \<and>
   (rel_state (classifyVersion U v sch exs rs) = versionMissing \<longleftrightarrow> v = '''' \<and> \<not> (exs = [] \<and> rs = []))"
proof -
  have "window_covers U sch v r \<Longrightarrow> \<not> window_excludes U sch v r" for r
    by (auto simp: window_covers_def window_excludes_def)
  then show ?thesis unfolding classifyVersion_state list_all_iff by auto
qed

text \<open>A statement yields no match only as a proved negative: exactly when the statement and the
  component name the same product, no digest pins it, the component has a version, the
  statement has an expression, and each of its versions and windows was decided against the
  version.\<close>

theorem no_match_is_proved:
  "sr_method (evaluateStatement U a cmp rules) = MatchMethodNoMatch \<longleftrightarrow>
     \<not> digest_matches U a cmp \<and> related U a cmp rules \<and> stmt_state U a cmp = versionProvablyNotAffected"
proof (cases rule: evaluateStatement_cases [of U a cmp rules])
  case (tier m1 m2)
  then show ?thesis by (cases "stmt_state U a cmp") auto
qed simp_all

text \<open>C29: High confidence is never reached without evidence of the version: a statement of high
  confidence matched the immutable digest, or named the product and an affected version or
  window that holds the component's version; a pair with no relation is a candidate, of low
  confidence, whatever its names.\<close>

theorem high_confidence_is_proved:
  assumes "Derive (sr_method (evaluateStatement U a cmp rules))
     (sr_similarity (evaluateStatement U a cmp rules)) = Ok (conf, score)"
  shows "(conf = ConfidenceHigh \<longleftrightarrow>
      digest_matches U a cmp \<or>
      related U a cmp rules \<and> stmt_state U a cmp \<in> {versionAffectedExact, versionAffectedRange}) \<and>
    (conf = ConfidenceLow \<longleftrightarrow> \<not> digest_matches U a cmp \<and> \<not> related U a cmp rules)"
proof (cases rule: evaluateStatement_cases [of U a cmp rules])
  case digest
  then show ?thesis using assms by (auto simp: Derive_def)
next
  case (tier m1 m2)
  then show ?thesis using assms
    by (cases "stmt_state U a cmp") (auto simp: Derive_def)
next
  case candidate
  then show ?thesis using assms by (auto simp: Derive_def split: if_splits)
qed

definition ex_statement :: AffectedProduct where
  "ex_statement = \<lparr>AP_Vendor = ''acme'', AP_Product = ''tool'', AP_CPE = '''', AP_PURL = '''', AP_Repository = '''',
     AP_Digest = '''', AP_ExactVersions = [],
     AP_Ranges = [\<lparr>Range_Start = ''1.0'', Range_StartIncluding = True, Range_End = ''2.0'',
       Range_EndIncluding = False\<rparr>]\<rparr>"

definition ex_component :: Component where
  "ex_component = \<lparr>Cmp_ID = ''c1'', Cmp_AssetID = ''a1'', Cmp_Vendor = ''Acme'', Cmp_Product = ''Tool'',
     Cmp_Version = ''1.4.2'', Cmp_CPE = '''', Cmp_PURL = '''', Cmp_Image = '''', Cmp_Digest = '''',
     Cmp_VendorNorm = ''acme'', Cmp_ProductNorm = ''tool'', Cmp_VersionNorm = ''1.4.2'',
     Cmp_VersionScheme = VersionSchemeSemver, Cmp_NaturalKey = ''k'', Cmp_Deactivated = False\<rparr>"

lemma ex_evaluateStatement:
  "sr_method (evaluateStatement plain_unicode ex_statement (prepareComponent plain_unicode ex_component) []) =
     MatchMethodCanonicalProductRange"
  "sr_similarity (evaluateStatement plain_unicode ex_statement (prepareComponent plain_unicode ex_component) []) = 0"
  by code_simp+

theorem high_confidence_is_proved_witness:
  "related plain_unicode ex_statement (prepareComponent plain_unicode ex_component) [] \<or>
   digest_matches plain_unicode ex_statement (prepareComponent plain_unicode ex_component)"
proof -
  have "Derive MatchMethodCanonicalProductRange 0 = Ok (ConfidenceHigh, 80)" by (simp add: Derive_def)
  then show ?thesis
    using high_confidence_is_proved [of plain_unicode ex_statement "prepareComponent plain_unicode ex_component" "[]"
        ConfidenceHigh 80] ex_evaluateStatement by auto
qed

text \<open>Names meet through the aliases exactly when they share a name within one hop of both: the walk over
  the two sorted closures finds it, in either order of the names.\<close>

theorem names_overlap_iff:
  "(namesOverlap scope a b rules \<longleftrightarrow>
     (\<exists>c. (c = a \<or> alias_hop rules scope a c \<or> alias_hop rules scope c a) \<and>
          (c = b \<or> alias_hop rules scope b c \<or> alias_hop rules scope c b))) \<and>
   namesOverlap scope a b rules = namesOverlap scope b a rules"
  unfolding namesOverlap_sym [of scope b a rules] namesOverlap_iff Bex_def set_AliasClosure insert_iff mem_Collect_eq
  by (intro conjI refl) blast

text \<open>The statement side lowercases the registry of an image, the component side does not: an
  image whose registry has a capital never meets the statement that names it.\<close>

lemma registry_case_mismatch:
  "let repo = ''Registry.example.com/app''; d = ''sha256:'' @ replicate 64 CHR ''a'';
       a = ex_statement\<lparr>AP_Repository := repo, AP_Digest := d\<rparr>;
       c = ex_component\<lparr>Cmp_Image := repo @ ''@'' @ d\<rparr>
   in statementImageOrigin plain_unicode repo = Some ''registry.example.com/app'' \<and>
      pc_imageOrigin (prepareComponent plain_unicode c) = repo \<and>
      pc_imageDigest (prepareComponent plain_unicode c) = d \<and>
      \<not> digest_matches plain_unicode (normalizeStatement plain_unicode a) (prepareComponent plain_unicode c)"
  by code_simp

end
