(* ===== verification/MatchEvaluate.thy ===== *)
theory MatchEvaluate
  imports Matching
begin

text \<open>
  The aggregation of the statements of a vulnerability into one outcome (evaluate.go) and the
  decision rules stamped on top of it (decision.go).
\<close>

section \<open>Decision rules\<close>

definition decisionRuleApplies :: "unicode \<Rightarrow> DecisionRule \<Rightarrow> Input \<Rightarrow> bool" where
  "decisionRuleApplies U r inp =
     (if \<not> AppliesAt r (In_Now inp) then False
      else
        (let t = Rule_Target r in
         if Target_CVEID t \<noteq> '''' \<and> Target_CVEID t \<noteq> In_CVEID inp then False
         else if Target_ComponentID t \<noteq> '''' \<and> Target_ComponentID t \<noteq> Cmp_ID (In_Component inp) then False
         else if Target_Vendor t \<noteq> '''' \<and>
           Target_Vendor t \<noteq> NormaliseKey U (Cmp_VendorNorm (In_Component inp)) then False
         else if Target_Product t \<noteq> '''' \<and>
           Target_Product t \<noteq> NormaliseKey U (Cmp_ProductNorm (In_Component inp)) then False
         else True))"

text \<open>Rules sorted by version, then identifier; the stored rules have distinct identifiers, so
  the order of equal keys that \<open>sort.Slice\<close> leaves open does not arise.\<close>

definition applicableDecisionRule :: "unicode \<Rightarrow> Input \<Rightarrow> DecisionRule option" where
  "applicableDecisionRule U inp =
     (let rules = sort_key Rule_Version (sort_key Rule_ID (In_DecisionRules inp))
      in find (\<lambda>r. decisionRuleApplies U r inp) rules)"

definition applyDecisionRules :: "unicode \<Rightarrow> Outcome \<Rightarrow> Input \<Rightarrow> Outcome result" where
  "applyDecisionRules U raw inp =
     (case applicableDecisionRule U inp of
        None \<Rightarrow> Ok raw
      | Some rule \<Rightarrow>
          (if Rule_Type rule = DecisionRuleTypeExclude then
             rbind (wrap_err (''decision rule exclude '' @ Rule_ID rule) (Derive MatchMethodNoMatch 0))
               (\<lambda>(conf, score).
                 Ok (raw\<lparr>Out_Method := MatchMethodNoMatch, Out_Confidence := conf, Out_Score := score,
                      Out_DecisionRuleID := Some (Rule_ID rule),
                      Out_Reasons := Out_Reasons raw @
                        [Reason (''excluded by decision rule '' @ Rule_ID rule @ '': '' @ Rule_Reason rule)]\<rparr>))
           else if Rule_Type rule = DecisionRuleTypeOverride then
             (case Rule_Action rule of
                None \<Rightarrow> Err (BadShape (''decision rule override '' @ Rule_ID rule @ '' carries no action''))
              | Some a \<Rightarrow>
                  rbind (wrap_err (''decision rule override '' @ Rule_ID rule)
                      (Derive (Action_Method a) (Action_Similarity a)))
                    (\<lambda>(conf, score).
                      Ok (raw\<lparr>Out_Method := Action_Method a, Out_Confidence := conf, Out_Score := score,
                           Out_DecisionRuleID := Some (Rule_ID rule),
                           Out_AutoMethod := Some (Out_Method raw),
                           Out_AutoConfidence := Some (Out_Confidence raw),
                           Out_AutoScore := Some (Out_Score raw),
                           Out_Reasons := Out_Reasons raw @
                             [Reason (''overridden by decision rule '' @ Rule_ID rule @ '': '' @
                                Rule_Reason rule)]\<rparr>)))
           else Err (InvalidValue ''decision rule type'' (DecisionRuleType_str (Rule_Type rule)))))"

section \<open>Aggregation\<close>

text \<open>The zero \<open>statementResult\<close> has the empty method.\<close>

definition no_result :: statementResult where
  "no_result = \<lparr>sr_method = OtherMatchMethod '''', sr_similarity = 0, sr_reasons = []\<rparr>"

definition dominates :: "statementResult \<Rightarrow> statementResult \<Rightarrow> int result" where
  "dominates res best =
     (if sr_method best = OtherMatchMethod '''' then Ok 1
      else
        rbind (Derive (sr_method res) (sr_similarity res)) (\<lambda>(_, resScore).
        rbind (Derive (sr_method best) (sr_similarity best)) (\<lambda>(_, bestScore).
          Ok (if resScore > bestScore then 1 else if resScore < bestScore then - 1 else 0))))"

fun evaluate_statements ::
  "unicode \<Rightarrow> preparedComponent \<Rightarrow> AliasRule list \<Rightarrow> AffectedProduct list \<Rightarrow> statementResult \<Rightarrow>
     statementResult result" where
  "evaluate_statements U cmp aliasRules [] best = Ok best"
| "evaluate_statements U cmp aliasRules (a # stmts) best =
     (let res = evaluateStatement U (normalizeStatement U a) cmp aliasRules in
      rbind (dominates res best) (\<lambda>better.
        evaluate_statements U cmp aliasRules stmts
          (if better > 0 then res
           else if better = 0 then best\<lparr>sr_reasons := sr_reasons best @ sr_reasons res\<rparr>
           else best)))"

definition Evaluate :: "unicode \<Rightarrow> Input \<Rightarrow> Outcome result" where
  "Evaluate U inp =
     rbind (Input_validate inp) (\<lambda>_.
     rbind (ValidateAliasRules (In_AliasRules inp)) (\<lambda>_.
     rbind (RulesetVersion (In_AliasVersion inp) (In_DecisionVersion inp)) (\<lambda>ruleVersion.
       (let cmp = prepareComponent U (In_Component inp) in
        rbind (evaluate_statements U cmp (In_AliasRules inp) (In_Statements inp) no_result) (\<lambda>best.
        rbind (Derive (sr_method best) (sr_similarity best)) (\<lambda>(conf, score).
          applyDecisionRules U
            \<lparr>Out_Method = sr_method best, Out_Confidence = conf, Out_Score = score,
             Out_RuleVersion = ruleVersion, Out_Reasons = sr_reasons best,
             Out_DecisionRuleID = None, Out_AutoMethod = None, Out_AutoConfidence = None,
             Out_AutoScore = None\<rparr> inp))))))"

section \<open>Aggregation lemmas\<close>

definition result_score :: "statementResult \<Rightarrow> int" where
  "result_score r = (case Derive (sr_method r) (sr_similarity r) of Inr (_, score) \<Rightarrow> score | Inl _ \<Rightarrow> 0)"

definition result_valid :: "statementResult \<Rightarrow> bool" where
  "result_valid r \<longleftrightarrow> is_ok (Derive (sr_method r) (sr_similarity r))"

abbreviation result_of :: "unicode \<Rightarrow> preparedComponent \<Rightarrow> AliasRule list \<Rightarrow> AffectedProduct \<Rightarrow> statementResult" where
  "result_of U cmp rules a \<equiv> evaluateStatement U (normalizeStatement U a) cmp rules"

lemma result_valid_of [simp]: "result_valid (result_of U cmp rules a)"
  using evaluateStatement_Derive [of U "normalizeStatement U a" cmp rules] by (auto simp: result_valid_def)

lemma result_valid_Derive:
  "result_valid r \<Longrightarrow> \<exists>conf. Derive (sr_method r) (sr_similarity r) = Ok (conf, result_score r)"
  by (auto simp: result_valid_def result_score_def is_ok_iff)

lemma result_valid_nonempty: "result_valid r \<Longrightarrow> sr_method r \<noteq> OtherMatchMethod ''''"
  by (auto simp: result_valid_def Derive_Ok_iff)

lemma dominates_valid:
  assumes "result_valid r" "result_valid b"
  shows "dominates r b = Ok (sgn (result_score r - result_score b))"
proof -
  obtain c1 c2 where "Derive (sr_method r) (sr_similarity r) = Ok (c1, result_score r)"
    "Derive (sr_method b) (sr_similarity b) = Ok (c2, result_score b)"
    using assms result_valid_Derive by blast
  then show ?thesis using result_valid_nonempty [OF assms(2)] by (simp add: dominates_def)
qed

text \<open>The winner among a list of results: the first of the highest score, with the reasons of all
  that tie with it.\<close>

fun strongest :: "statementResult \<Rightarrow> statementResult list \<Rightarrow> statementResult" where
  "strongest b [] = b"
| "strongest b (r # rs) =
     strongest (if result_score r > result_score b then r
       else if result_score r = result_score b then b\<lparr>sr_reasons := sr_reasons b @ sr_reasons r\<rparr> else b) rs"

lemma result_score_reasons [simp]: "result_score (b\<lparr>sr_reasons := x\<rparr>) = result_score b"
  by (simp add: result_score_def)

lemma result_valid_reasons [simp]: "result_valid (b\<lparr>sr_reasons := x\<rparr>) = result_valid b"
  by (simp add: result_valid_def)

lemma evaluate_statements_strongest:
  "result_valid b \<Longrightarrow>
     evaluate_statements U cmp rules stmts b = Ok (strongest b (map (result_of U cmp rules) stmts))"
  by (induction stmts arbitrary: b) (auto simp: dominates_valid Let_def sgn_if)

lemma evaluate_statements_first:
  "evaluate_statements U cmp rules (a # stmts) no_result =
     Ok (strongest (result_of U cmp rules a) (map (result_of U cmp rules) stmts))"
  by (simp add: dominates_def no_result_def Let_def evaluate_statements_strongest)

lemma result_score_determines:
  "result_valid r \<Longrightarrow> result_valid s \<Longrightarrow> result_score r = result_score s \<Longrightarrow> sr_method r = sr_method s"
  using result_valid_Derive [of r] result_valid_Derive [of s] Derive_score_determines by metis

lemma strongest_props:
  assumes "result_valid b" "\<forall>r\<in>set rs. result_valid r"
  shows "result_valid (strongest b rs) \<and>
    result_score (strongest b rs) = Max (result_score ` set (b # rs)) \<and>
    sr_reasons (strongest b rs) =
      concat (map sr_reasons (filter (\<lambda>r. result_score r = result_score (strongest b rs)) (b # rs)))"
  using assms
proof (induction rs arbitrary: b)
  case (Cons r rs)
  let ?b = "if result_score r > result_score b then r
       else if result_score r = result_score b then b\<lparr>sr_reasons := sr_reasons b @ sr_reasons r\<rparr> else b"
  have v: "result_valid ?b" using Cons.prems by simp
  have sc: "result_score ?b = max (result_score b) (result_score r)" by (simp add: max_def)
  note IH = Cons.IH [OF v] and rv = Cons.prems(2)
  let ?w = "strongest ?b rs"
  have ih: "result_valid ?w" "result_score ?w = Max (result_score ` set (?b # rs))"
    "sr_reasons ?w = concat (map sr_reasons (filter (\<lambda>r. result_score r = result_score ?w) (?b # rs)))"
    using IH rv by auto
  have eq: "strongest b (r # rs) = ?w" by simp
  have m: "result_score ?w = Max (result_score ` set (b # r # rs))"
  proof (cases "rs = []")
    case True
    then show ?thesis by (simp add: max.commute)
  next
    case False
    then show ?thesis unfolding ih(2) list.set image_insert sc
      by (simp add: Max_insert max.assoc max.commute max.left_commute)
  qed
  have ge: "result_score b \<le> result_score ?w" "result_score r \<le> result_score ?w"
    unfolding m by (intro Max_ge; simp)+
  have "sr_reasons ?w = concat (map sr_reasons (filter (\<lambda>r. result_score r = result_score ?w) (b # r # rs)))"
  proof (cases "result_score ?w = result_score ?b")
    case True
    then show ?thesis using ih(3) sc ge by (auto split: if_splits)
  next
    case False
    then have "result_score b \<noteq> result_score ?w" "result_score r \<noteq> result_score ?w"
      using sc ge v ih(2) by (auto simp: max_def split: if_splits)
    with False ih(3) show ?thesis by simp
  qed
  then show ?case unfolding eq using ih(1) m by blast
qed simp

section \<open>Decision rule lemmas\<close>

lemma find_first: "find P xs = Some x \<Longrightarrow> x \<in> set xs \<and> P x"
  by (auto simp: find_Some_iff)

text \<open>The rule order: version, then identifier.\<close>

definition rule_le :: "DecisionRule \<Rightarrow> DecisionRule \<Rightarrow> bool" where
  "rule_le r s \<longleftrightarrow> Rule_Version r < Rule_Version s \<or> Rule_Version r = Rule_Version s \<and> Rule_ID r \<le> Rule_ID s"

lemma insort_rule_sorted:
  "sorted_wrt rule_le xs \<Longrightarrow> \<forall>y\<in>set xs. Rule_ID r \<le> Rule_ID y \<Longrightarrow>
     sorted_wrt rule_le (insort_key Rule_Version r xs)"
  by (induction xs) (auto simp: rule_le_def set_insort_key)

lemma rules_sorted: "sorted_wrt rule_le (sort_key Rule_Version (sort_key Rule_ID rules))"
proof -
  have "sorted (map Rule_ID xs) \<Longrightarrow> sorted_wrt rule_le (sort_key Rule_Version xs)" for xs
    by (induction xs) (auto intro: insort_rule_sorted)
  then show ?thesis by simp
qed

lemma find_sorted:
  "sorted_wrt R xs \<Longrightarrow> (\<And>x. R x x) \<Longrightarrow> find P xs = Some x \<Longrightarrow> y \<in> set xs \<Longrightarrow> P y \<Longrightarrow> R x y"
  by (induction xs) (auto split: if_splits)

lemma applicable_rule_first:
  "applicableDecisionRule U inp = Some r \<Longrightarrow>
     r \<in> set (In_DecisionRules inp) \<and> decisionRuleApplies U r inp \<and>
     (\<forall>s\<in>set (In_DecisionRules inp). decisionRuleApplies U s inp \<longrightarrow> rule_le r s)"
  using find_sorted [OF rules_sorted [of "In_DecisionRules inp"], of "\<lambda>r. decisionRuleApplies U r inp" r]
    find_first [of "\<lambda>r. decisionRuleApplies U r inp" "sort_key Rule_Version (sort_key Rule_ID (In_DecisionRules inp))" r]
  by (auto simp: applicableDecisionRule_def Let_def rule_le_def)

lemma applicable_rule_None:
  "applicableDecisionRule U inp = None \<longleftrightarrow> (\<forall>s\<in>set (In_DecisionRules inp). \<not> decisionRuleApplies U s inp)"
  by (auto simp: applicableDecisionRule_def Let_def find_None_iff)

text \<open>A rule that can be stamped.\<close>

definition rule_effective :: "DecisionRule \<Rightarrow> bool" where
  "rule_effective r \<longleftrightarrow> Rule_Type r = DecisionRuleTypeExclude \<or>
     Rule_Type r = DecisionRuleTypeOverride \<and>
       (case Rule_Action r of None \<Rightarrow> False | Some a \<Rightarrow> is_ok (Derive (Action_Method a) (Action_Similarity a)))"

lemma applyDecisionRules_ok:
  "is_ok (applyDecisionRules U raw inp) \<longleftrightarrow>
     (case applicableDecisionRule U inp of None \<Rightarrow> True | Some r \<Rightarrow> rule_effective r)"
proof (cases "applicableDecisionRule U inp")
  case (Some r)
  show ?thesis
  proof (cases "Rule_Action r")
    case None
    with Some show ?thesis by (simp add: applyDecisionRules_def rule_effective_def)
  next
    case (Some a)
    with \<open>applicableDecisionRule U inp = Some r\<close> show ?thesis
      by (cases "Derive (Action_Method a) (Action_Similarity a)")
        (auto simp: applyDecisionRules_def rule_effective_def split: prod.splits)
  qed
qed (simp add: applyDecisionRules_def)

text \<open>The raw outcome of the aggregation, before the decision rules.\<close>

definition raw_outcome :: "unicode \<Rightarrow> Input \<Rightarrow> Outcome" where
  "raw_outcome U inp =
     (let cmp = prepareComponent U (In_Component inp);
          rs = map (result_of U cmp (In_AliasRules inp)) (In_Statements inp);
          best = strongest (hd rs) (tl rs)
      in \<lparr>Out_Method = sr_method best,
          Out_Confidence = (case Derive (sr_method best) (sr_similarity best) of Inr (c, _) \<Rightarrow> c | Inl _ \<Rightarrow> ConfidenceNone),
          Out_Score = result_score best,
          Out_RuleVersion = (case RulesetVersion (In_AliasVersion inp) (In_DecisionVersion inp) of
             Inr v \<Rightarrow> v | Inl _ \<Rightarrow> ''''),
          Out_Reasons = sr_reasons best, Out_DecisionRuleID = None, Out_AutoMethod = None,
          Out_AutoConfidence = None, Out_AutoScore = None\<rparr>)"

lemma raw_best_valid:
  assumes "In_Statements inp \<noteq> []"
  shows "let rs = map (result_of U cmp (In_AliasRules inp)) (In_Statements inp)
         in result_valid (strongest (hd rs) (tl rs))"
  using assms strongest_props [of "result_of U cmp (In_AliasRules inp) (hd (In_Statements inp))"
      "map (result_of U cmp (In_AliasRules inp)) (tl (In_Statements inp))"]
  by (cases "In_Statements inp") auto

lemma Evaluate_eq:
  "Evaluate U inp =
     rbind (Input_validate inp) (\<lambda>_.
     rbind (ValidateAliasRules (In_AliasRules inp)) (\<lambda>_.
     rbind (RulesetVersion (In_AliasVersion inp) (In_DecisionVersion inp)) (\<lambda>_.
       applyDecisionRules U (raw_outcome U inp) inp)))"
proof (cases "In_Statements inp")
  case Nil
  then show ?thesis by (simp add: Evaluate_def Input_validate_def)
next
  case (Cons a stmts)
  let ?cmp = "prepareComponent U (In_Component inp)"
  let ?best = "strongest (result_of U ?cmp (In_AliasRules inp) a) (map (result_of U ?cmp (In_AliasRules inp)) stmts)"
  have "result_valid ?best" using raw_best_valid [of inp U ?cmp] Cons by simp
  then obtain conf where d: "Derive (sr_method ?best) (sr_similarity ?best) = Ok (conf, result_score ?best)"
    using result_valid_Derive by blast
  show ?thesis
    by (cases "RulesetVersion (In_AliasVersion inp) (In_DecisionVersion inp)")
      (simp_all add: Evaluate_def Let_def Cons evaluate_statements_first d raw_outcome_def del: evaluate_statements.simps)
qed

section \<open>Properties\<close>

text \<open>The strongest evidence wins. Aggregating the statements of a vulnerability never fails; the winner's
  score is the maximum of the derived scores of the statements, its method is the method of
  every statement that reaches it, and it keeps the reasons of all of those, in statement
  order.\<close>

theorem strongest_evidence_wins:
  "\<exists>best conf. evaluate_statements U cmp rules (a # stmts) no_result = Ok best \<and>
     Derive (sr_method best) (sr_similarity best) =
       Ok (conf, Max (result_score ` result_of U cmp rules ` set (a # stmts))) \<and>
     list_all (\<lambda>s. result_score (result_of U cmp rules s) < result_score best \<or>
        sr_method (result_of U cmp rules s) = sr_method best) (a # stmts) \<and>
     sr_reasons best = concat (map (sr_reasons \<circ> result_of U cmp rules)
       (filter (\<lambda>s. result_score (result_of U cmp rules s) = result_score best) (a # stmts)))"
proof -
  let ?f = "result_of U cmp rules"
  let ?best = "strongest (?f a) (map ?f stmts)"
  have "\<forall>r\<in>set (map ?f stmts). result_valid r" by auto
  from strongest_props [OF result_valid_of [where U = U and cmp = cmp and rules = rules and a = a] this]
  have p: "result_valid ?best" "result_score ?best = Max (result_score ` set (?f a # map ?f stmts))"
    "sr_reasons ?best = concat (map sr_reasons (filter (\<lambda>r. result_score r = result_score ?best) (?f a # map ?f stmts)))"
    by blast+
  obtain conf where d: "Derive (sr_method ?best) (sr_similarity ?best) = Ok (conf, result_score ?best)"
    using result_valid_Derive [OF p(1)] by blast
  have sc: "result_score ?best = Max (result_score ` ?f ` set (a # stmts))"
    unfolding p(2) by (simp add: image_image)
  have "result_score (?f s) < result_score ?best \<or> sr_method (?f s) = sr_method ?best" if "s \<in> set (a # stmts)" for s
  proof -
    have "result_score (?f s) \<le> result_score ?best" unfolding sc using that by (intro Max_ge) auto
    then show ?thesis using result_score_determines [of "?f s" ?best] p(1) by fastforce
  qed
  then have "list_all (\<lambda>s. result_score (?f s) < result_score ?best \<or> sr_method (?f s) = sr_method ?best) (a # stmts)"
    unfolding list_all_iff by blast
  moreover have "sr_reasons ?best = concat (map (sr_reasons \<circ> ?f)
       (filter (\<lambda>s. result_score (?f s) = result_score ?best) (a # stmts)))"
    unfolding p(3) list.map(2) [symmetric, of ?f] filter_map map_map comp_def by (rule refl)
  moreover have "Derive (sr_method ?best) (sr_similarity ?best) = Ok (conf, Max (result_score ` ?f ` set (a # stmts)))"
    unfolding d sc ..
  ultimately show ?thesis
    by (intro exI [of _ ?best] exI [of _ conf] conjI evaluate_statements_first)
qed

text \<open>C39: When an evaluation succeeds: exactly when there is a statement, every statement names a product and
  no blank version, the alias rules are valid, both ruleset counters are non-negative, and the
  decision rule that applies to the pair first, if any, is an exclusion or an override with a
  derivable action.\<close>

theorem evaluate_succeeds_iff:
  "is_ok (Evaluate U inp) \<longleftrightarrow>
     In_Statements inp \<noteq> [] \<and>
     list_all (\<lambda>a. hasIdentity a \<and> list_all (\<lambda>v. trim_space v \<noteq> '''') (AP_ExactVersions a)) (In_Statements inp) \<and>
     is_ok (ValidateAliasRules (In_AliasRules inp)) \<and> 0 \<le> In_AliasVersion inp \<and> 0 \<le> In_DecisionVersion inp \<and>
     (case applicableDecisionRule U inp of None \<Rightarrow> True | Some r \<Rightarrow> rule_effective r)"
proof -
  have v: "is_ok (Input_validate inp) \<longleftrightarrow> In_Statements inp \<noteq> [] \<and>
     list_all (\<lambda>a. hasIdentity a \<and> list_all (\<lambda>v. trim_space v \<noteq> '''') (AP_ExactVersions a)) (In_Statements inp)"
    by (auto simp: is_ok_iff Input_validate_def result_simps list_all_iff)
  have r: "is_ok (RulesetVersion i j) \<longleftrightarrow> 0 \<le> i \<and> 0 \<le> j" for i j
    by (auto simp: is_ok_iff RulesetVersion_def result_simps)
  have "is_ok (Evaluate U inp) \<longleftrightarrow> is_ok (Input_validate inp) \<and> is_ok (ValidateAliasRules (In_AliasRules inp)) \<and>
      is_ok (RulesetVersion (In_AliasVersion inp) (In_DecisionVersion inp)) \<and>
      is_ok (applyDecisionRules U (raw_outcome U inp) inp)"
    unfolding Evaluate_eq
    by (cases "Input_validate inp"; cases "ValidateAliasRules (In_AliasRules inp)";
        cases "RulesetVersion (In_AliasVersion inp) (In_DecisionVersion inp)") simp_all
  then show ?thesis unfolding v r applyDecisionRules_ok by blast
qed

definition Outcome_wf :: "Outcome \<Rightarrow> bool" where
  "Outcome_wf out \<longleftrightarrow> triple_ok (Out_Method out) (Out_Confidence out) (Out_Score out) \<and>
     (case (Out_AutoMethod out, Out_AutoConfidence out, Out_AutoScore out) of
        (None, None, None) \<Rightarrow> True
      | (Some am, Some ac, Some asc) \<Rightarrow> Out_DecisionRuleID out \<noteq> None \<and> triple_ok am ac asc
      | _ \<Rightarrow> False)"

lemma raw_outcome_wf: "In_Statements inp \<noteq> [] \<Longrightarrow> Outcome_wf (raw_outcome U inp)"
proof -
  let ?rs = "map (result_of U (prepareComponent U (In_Component inp)) (In_AliasRules inp)) (In_Statements inp)"
  assume "In_Statements inp \<noteq> []"
  then have "result_valid (strongest (hd ?rs) (tl ?rs))" using raw_best_valid [of inp U] unfolding Let_def by blast
  then obtain conf where "Derive (sr_method (strongest (hd ?rs) (tl ?rs))) (sr_similarity (strongest (hd ?rs) (tl ?rs))) =
      Ok (conf, result_score (strongest (hd ?rs) (tl ?rs)))"
    using result_valid_Derive by blast
  then show ?thesis by (auto simp: raw_outcome_def Let_def Outcome_wf_def dest: Derive_triple_ok)
qed

lemma applyDecisionRules_cases:
  assumes "applyDecisionRules U raw inp = Ok out"
  obtains
    (none) "applicableDecisionRule U inp = None" "out = raw"
  | (exclude) r where "applicableDecisionRule U inp = Some r" "Rule_Type r = DecisionRuleTypeExclude"
      "Out_Method out = MatchMethodNoMatch" "Out_Confidence out = ConfidenceNone" "Out_Score out = 0"
      "Out_DecisionRuleID out = Some (Rule_ID r)" "Out_AutoMethod out = Out_AutoMethod raw"
      "Out_AutoConfidence out = Out_AutoConfidence raw" "Out_AutoScore out = Out_AutoScore raw"
      "Out_RuleVersion out = Out_RuleVersion raw"
  | (override) r a conf score where "applicableDecisionRule U inp = Some r" "Rule_Type r = DecisionRuleTypeOverride"
      "Rule_Action r = Some a" "Derive (Action_Method a) (Action_Similarity a) = Ok (conf, score)"
      "Out_Method out = Action_Method a" "Out_Confidence out = conf" "Out_Score out = score"
      "Out_DecisionRuleID out = Some (Rule_ID r)" "Out_AutoMethod out = Some (Out_Method raw)"
      "Out_AutoConfidence out = Some (Out_Confidence raw)" "Out_AutoScore out = Some (Out_Score raw)"
      "Out_RuleVersion out = Out_RuleVersion raw"
proof (cases "applicableDecisionRule U inp")
  case None
  with assms show thesis by (intro none) (auto simp: applyDecisionRules_def)
next
  case (Some r)
  consider "Rule_Type r = DecisionRuleTypeExclude"
    | a conf score where "Rule_Type r = DecisionRuleTypeOverride" "Rule_Action r = Some a"
        "Derive (Action_Method a) (Action_Similarity a) = Ok (conf, score)"
    using assms Some by (auto simp: applyDecisionRules_def result_simps split: if_splits option.splits)
  then show thesis
  proof cases
    case 1
    with assms Some show thesis by (intro exclude [of r]) (auto simp: applyDecisionRules_def)
  next
    case 2
    with assms Some show thesis by (intro override [of r a conf score]) (auto simp: applyDecisionRules_def)
  qed
qed

text \<open>C26: The outcome of an evaluation: its confidence and score are the ones its method derives, never set apart
  from it, and it carries the ruleset version of the two counters. It names a decision rule
  exactly when one applies, the first of them by version and identifier; an exclusion leaves no
  match of score 0, and an override leaves the forced method beside the computed triple, which
  is again derived.\<close>

theorem evaluate_outcome:
  assumes "Evaluate U inp = Ok out"
  shows "Outcome_wf out \<and>
    RulesetVersion (In_AliasVersion inp) (In_DecisionVersion inp) = Ok (Out_RuleVersion out) \<and>
    Out_DecisionRuleID out = map_option Rule_ID (applicableDecisionRule U inp) \<and>
    (case applicableDecisionRule U inp of
       None \<Rightarrow> out = raw_outcome U inp
     | Some r \<Rightarrow>
         list_all (\<lambda>s. decisionRuleApplies U s inp \<longrightarrow> rule_le r s) (In_DecisionRules inp) \<and>
         (if Rule_Type r = DecisionRuleTypeExclude then Out_Method out = MatchMethodNoMatch \<and> Out_Score out = 0
          else Out_AutoMethod out = Some (Out_Method (raw_outcome U inp)) \<and>
               Out_AutoScore out = Some (Out_Score (raw_outcome U inp)) \<and>
               Out_Method out = Action_Method (the (Rule_Action r))))"
proof -
  obtain v where ok: "Input_validate inp = Ok ()" "RulesetVersion (In_AliasVersion inp) (In_DecisionVersion inp) = Ok v"
    and ap: "applyDecisionRules U (raw_outcome U inp) inp = Ok out"
    using assms unfolding Evaluate_eq result_simps by auto
  have ne: "In_Statements inp \<noteq> []" using ok(1) by (auto simp: Input_validate_def)
  have rv: "Out_RuleVersion (raw_outcome U inp) = v" "Out_DecisionRuleID (raw_outcome U inp) = None"
    "Out_AutoMethod (raw_outcome U inp) = None" "Out_AutoConfidence (raw_outcome U inp) = None"
    "Out_AutoScore (raw_outcome U inp) = None"
    by (simp_all add: raw_outcome_def Let_def ok(2))
  note wf = raw_outcome_wf [OF ne, of U]
  from ap show ?thesis
  proof (cases rule: applyDecisionRules_cases)
    case none
    then show ?thesis using wf rv ok by simp
  next
    case (exclude r)
    have "list_all (\<lambda>s. decisionRuleApplies U s inp \<longrightarrow> rule_le r s) (In_DecisionRules inp)"
      using applicable_rule_first [OF exclude(1)] unfolding list_all_iff by blast
    with exclude rv ok show ?thesis by (simp add: Outcome_wf_def)
  next
    case (override r a conf score)
    have "list_all (\<lambda>s. decisionRuleApplies U s inp \<longrightarrow> rule_le r s) (In_DecisionRules inp)"
      using applicable_rule_first [OF override(1)] unfolding list_all_iff by blast
    moreover have "triple_ok (Action_Method a) conf score" by (rule Derive_triple_ok [OF override(4)])
    moreover have "triple_ok (Out_Method (raw_outcome U inp)) (Out_Confidence (raw_outcome U inp))
        (Out_Score (raw_outcome U inp))" using wf unfolding Outcome_wf_def by blast
    ultimately show ?thesis using override rv ok by (simp add: Outcome_wf_def)
  qed
qed

definition ex_rule :: DecisionRule where
  "ex_rule = \<lparr>Rule_ID = ''r7'', Rule_Type = DecisionRuleTypeExclude,
     Rule_Target = \<lparr>Target_CVEID = ''CVE-2024-1'', Target_Vendor = '''', Target_Product = ''tool'', Target_ComponentID = ''''\<rparr>,
     Rule_Action = None, Rule_Reason = ''not installed'', Rule_Version = 3, Rule_ActorID = ''u1'',
     Rule_ValidFrom = 0, Rule_ValidUntil = 0, Rule_Revoked = False\<rparr>"

definition ex_input :: Input where
  "ex_input = \<lparr>In_CVEID = ''CVE-2024-1'', In_Statements = [ex_statement], In_Component = ex_component,
     In_AliasRules = [], In_DecisionRules = [ex_rule], In_AliasVersion = 0, In_DecisionVersion = 3, In_Now = 5\<rparr>"

theorem evaluate_outcome_witness:
  "\<exists>out. Evaluate plain_unicode ex_input = Ok out \<and> Out_DecisionRuleID out = Some ''r7'' \<and> Out_Score out = 0"
proof -
  have "is_ok (Evaluate plain_unicode ex_input)" by code_simp
  then obtain out where o: "Evaluate plain_unicode ex_input = Ok out" by (auto simp: is_ok_iff)
  have "applicableDecisionRule plain_unicode ex_input = Some ex_rule" by code_simp
  then show ?thesis using evaluate_outcome [OF o] o by (simp add: ex_rule_def)
qed

text \<open>The outcome as a stored match; the identities are the caller's, and the reasons are text.\<close>

definition as_match :: "string \<Rightarrow> string \<Rightarrow> string \<Rightarrow> Outcome \<Rightarrow> Match" where
  "as_match mid vid cid out =
     \<lparr>Match_ID = mid, Match_VulnerabilityID = vid, Match_ComponentID = cid, Match_Method = Out_Method out,
      Match_Confidence = Out_Confidence out, Match_Score = Out_Score out,
      Match_RuleVersion = Out_RuleVersion out, Match_Reasons = [],
      Match_DecisionRuleID = Out_DecisionRuleID out, Match_AutoMethod = Out_AutoMethod out,
      Match_AutoConfidence = Out_AutoConfidence out, Match_AutoScore = Out_AutoScore out\<rparr>"

text \<open>C27: The engine's decision rules refine the domain's: stamping the applicable rule onto an outcome and
  reading it as a match is the same as stamping the rule onto the match, and one fails exactly
  when the other does.\<close>

theorem decision_rules_refine_the_match:
  assumes "applicableDecisionRule U inp = Some r" "Rule_ID r \<noteq> ''''" "Out_RuleVersion raw \<noteq> ''''"
  shows "case applyDecisionRules U raw inp of
      Inr out \<Rightarrow> ApplyDecisionRule (as_match mid vid cid raw) (Rule_ID r) r (Out_RuleVersion raw) =
        Ok (as_match mid vid cid out)
    | Inl _ \<Rightarrow> \<not> is_ok (ApplyDecisionRule (as_match mid vid cid raw) (Rule_ID r) r (Out_RuleVersion raw))"
proof -
  have nr: "\<not> Rule_Revoked r"
    using applicable_rule_first [OF assms(1)] by (auto simp: decisionRuleApplies_def AppliesAt_def split: if_splits)
  show ?thesis
  proof (cases "Rule_Action r")
    case None
    with assms nr show ?thesis
      by (simp add: applyDecisionRules_def ApplyDecisionRule_def as_match_def Let_def)
  next
    case (Some a)
    with assms nr show ?thesis
      by (cases "Derive (Action_Method a) (Action_Similarity a)")
        (auto simp: applyDecisionRules_def ApplyDecisionRule_def as_match_def Let_def)
  qed
qed

theorem decision_rules_refine_the_match_witness:
  "is_ok (ApplyDecisionRule (as_match ''m'' ''v'' ''c'' (raw_outcome plain_unicode ex_input)) ''r7'' ex_rule
     (Out_RuleVersion (raw_outcome plain_unicode ex_input)))"
proof -
  let ?raw = "raw_outcome plain_unicode ex_input"
  have a: "applicableDecisionRule plain_unicode ex_input = Some ex_rule" by code_simp
  have i: "Rule_ID ex_rule = ''r7''" by (simp add: ex_rule_def)
  then have i': "Rule_ID ex_rule \<noteq> ''''" by simp
  have v: "Out_RuleVersion ?raw \<noteq> ''''" by (simp add: raw_outcome_def Let_def RulesetVersion_def ex_input_def)
  have "is_ok (applyDecisionRules plain_unicode ?raw ex_input)"
    unfolding applyDecisionRules_ok a by (simp add: rule_effective_def ex_rule_def)
  then obtain out where o: "applyDecisionRules plain_unicode ?raw ex_input = Ok out" unfolding is_ok_iff by blast
  have "ApplyDecisionRule (as_match ''m'' ''v'' ''c'' ?raw) ''r7'' ex_rule (Out_RuleVersion ?raw) =
      Ok (as_match ''m'' ''v'' ''c'' out)"
    using decision_rules_refine_the_match [OF a i' v, where mid = "''m''" and vid = "''v''" and cid = "''c''"]
    unfolding o i sum.case .
  then show ?thesis unfolding is_ok_iff by blast
qed

end
