(* ===== verification/Prefilter.thy ===== *)
theory Prefilter
  imports MatchEvaluate
begin

text \<open>
  The candidate pre-filter (internal/application/candidate_prefilter.go): the alias closure of
  the vulnerability's names joined with the inventory index. The index is the parameter
  \<open>lister\<close>, the port \<open>ListByVendorProductNorm\<close>: a query may fail.
\<close>

section \<open>Definitions\<close>

record VendorProductPair =
  Pair_Vendor :: string
  Pair_Product :: string

type_synonym lister = "string \<Rightarrow> string \<Rightarrow> Component list result"

text \<open>The set of seen identifiers is kept as a list; it is sorted and deduplicated at the end.\<close>

definition add_ids :: "Component list \<Rightarrow> string list \<Rightarrow> string list" where
  "add_ids components seen = seen @ filter (\<lambda>i. i \<noteq> '''') (map Cmp_ID components)"

fun query_products :: "lister \<Rightarrow> string \<Rightarrow> string list \<Rightarrow> string list \<Rightarrow> string list result" where
  "query_products lister vendor [] seen = Ok seen"
| "query_products lister vendor (product # products) seen =
     (case lister vendor product of
        Inl e \<Rightarrow> Err (Wrapped ''candidate_prefilter'' e)
      | Inr components \<Rightarrow> query_products lister vendor products (add_ids components seen))"

fun query_vendors :: "lister \<Rightarrow> string list \<Rightarrow> string list \<Rightarrow> string list \<Rightarrow> string list result" where
  "query_vendors lister [] products seen = Ok seen"
| "query_vendors lister (vendor # vendors) products seen =
     rbind (query_products lister vendor products seen) (query_vendors lister vendors products)"

fun query_pairs :: "lister \<Rightarrow> AliasRule list \<Rightarrow> VendorProductPair list \<Rightarrow> string list \<Rightarrow> string list result" where
  "query_pairs lister rules [] seen = Ok seen"
| "query_pairs lister rules (pair # pairs) seen =
     (if Pair_Vendor pair = '''' \<or> Pair_Product pair = '''' then query_pairs lister rules pairs seen
      else
        rbind (query_vendors lister (AliasClosure AliasScopeVendor (Pair_Vendor pair) rules)
                 (AliasClosure AliasScopeProduct (Pair_Product pair) rules) seen)
          (query_pairs lister rules pairs))"

definition CandidateComponentIDs ::
  "lister \<Rightarrow> VendorProductPair list \<Rightarrow> AliasRule list \<Rightarrow> string list result" where
  "CandidateComponentIDs lister pairs rules =
     rbind (query_pairs lister rules pairs []) (\<lambda>seen. Ok (sort (remdups seen)))"

section \<open>The queries\<close>

text \<open>The queries a run makes, in order, and the answers of a lister that does not fail.\<close>

definition pair_queries :: "AliasRule list \<Rightarrow> VendorProductPair \<Rightarrow> (string \<times> string) list" where
  "pair_queries rules pair =
     (if Pair_Vendor pair = '''' \<or> Pair_Product pair = '''' then []
      else List.product (AliasClosure AliasScopeVendor (Pair_Vendor pair) rules)
             (AliasClosure AliasScopeProduct (Pair_Product pair) rules))"

definition queries :: "AliasRule list \<Rightarrow> VendorProductPair list \<Rightarrow> (string \<times> string) list" where
  "queries rules pairs = concat (map (pair_queries rules) pairs)"

definition answer :: "lister \<Rightarrow> string \<times> string \<Rightarrow> Component list" where
  "answer lister q = (case lister (fst q) (snd q) of Inr cs \<Rightarrow> cs | Inl _ \<Rightarrow> [])"

definition answer_ids :: "lister \<Rightarrow> (string \<times> string) list \<Rightarrow> string set" where
  "answer_ids lister qs = {i. i \<noteq> '''' \<and> (\<exists>q\<in>set qs. i \<in> Cmp_ID ` set (answer lister q))}"

text \<open>What a loop over queries does: it fails at the first failing query, and otherwise collects.\<close>

definition collects :: "lister \<Rightarrow> (string \<times> string) list \<Rightarrow> (string list \<Rightarrow> string list result) \<Rightarrow> bool" where
  "collects lister qs f \<longleftrightarrow> (\<forall>seen.
     if \<forall>q\<in>set qs. is_ok (lister (fst q) (snd q))
     then \<exists>seen'. f seen = Ok seen' \<and> set seen' = set seen \<union> answer_ids lister qs
     else \<not> is_ok (f seen))"

lemma answer_ids_Nil [simp]: "answer_ids lister [] = {}"
  by (simp add: answer_ids_def)

lemma answer_ids_append: "answer_ids lister (ps @ qs) = answer_ids lister ps \<union> answer_ids lister qs"
  by (auto simp: answer_ids_def)

lemma collects_Nil: "collects lister [] Ok"
  by (simp add: collects_def)

lemma collects_append:
  assumes "collects lister ps f" "collects lister qs g"
  shows "collects lister (ps @ qs) (\<lambda>seen. rbind (f seen) g)"
  unfolding collects_def
proof (rule allI)
  fix seen
  show "if \<forall>q\<in>set (ps @ qs). is_ok (lister (fst q) (snd q))
     then \<exists>seen'. rbind (f seen) g = Ok seen' \<and> set seen' = set seen \<union> answer_ids lister (ps @ qs)
     else \<not> is_ok (rbind (f seen) g)"
  proof (cases "\<forall>q\<in>set ps. is_ok (lister (fst q) (snd q))")
    case False
    then have "\<not> is_ok (f seen)" using assms(1) unfolding collects_def by meson
    then have "\<not> is_ok (rbind (f seen) g)" by (cases "f seen") auto
    moreover have "\<not> (\<forall>q\<in>set (ps @ qs). is_ok (lister (fst q) (snd q)))" using False by auto
    ultimately show ?thesis by (simp only: if_False simp_thms)
  next
    case ps: True
    then obtain s1 where s1: "f seen = Ok s1" "set s1 = set seen \<union> answer_ids lister ps"
      using assms(1) unfolding collects_def by meson
    show ?thesis
    proof (cases "\<forall>q\<in>set qs. is_ok (lister (fst q) (snd q))")
      case False
      then have "\<not> is_ok (g s1)" using assms(2) unfolding collects_def by meson
      with False s1 show ?thesis by auto
    next
      case True
      then obtain s2 where "g s1 = Ok s2" "set s2 = set s1 \<union> answer_ids lister qs"
        using assms(2) unfolding collects_def by meson
      with True ps s1 show ?thesis by (auto simp: answer_ids_append)
    qed
  qed
qed

lemma collects_query:
  "collects lister [(v, p)] (query_products lister v [p])"
  by (cases "lister v p") (auto simp: collects_def answer_ids_def answer_def add_ids_def)

lemma query_products_bind:
  "query_products lister v (p # ps) = (\<lambda>seen. rbind (query_products lister v [p] seen) (query_products lister v ps))"
  by (rule ext) (simp split: sum.split)

lemma collects_products: "collects lister (map (Pair v) ps) (query_products lister v ps)"
proof (induction ps)
  case Nil
  then show ?case using collects_Nil [of lister] by (simp add: collects_def)
next
  case (Cons p ps)
  show ?case
    using collects_append [OF collects_query [of lister v p] Cons.IH]
    unfolding query_products_bind [of lister v p ps] by simp
qed

lemma collects_vendors: "collects lister (List.product vs ps) (query_vendors lister vs ps)"
proof (induction vs)
  case Nil
  then show ?case using collects_Nil [of lister] by (simp add: collects_def)
next
  case (Cons v vs)
  have "query_vendors lister (v # vs) ps = (\<lambda>seen. rbind (query_products lister v ps seen) (query_vendors lister vs ps))"
    by (rule ext) simp
  then show ?case using collects_append [OF collects_products [of lister v ps] Cons.IH] by simp
qed

lemma collects_pairs: "collects lister (queries rules pairs) (query_pairs lister rules pairs)"
proof (induction pairs)
  case Nil
  then show ?case using collects_Nil [of lister] by (simp add: collects_def queries_def)
next
  case (Cons pair pairs)
  show ?case
  proof (cases "Pair_Vendor pair = '''' \<or> Pair_Product pair = ''''")
    case True
    then have "query_pairs lister rules (pair # pairs) = query_pairs lister rules pairs" by (intro ext) simp
    with True Cons show ?thesis by (simp add: queries_def pair_queries_def)
  next
    case False
    let ?f = "query_vendors lister (AliasClosure AliasScopeVendor (Pair_Vendor pair) rules)
        (AliasClosure AliasScopeProduct (Pair_Product pair) rules)"
    have "query_pairs lister rules (pair # pairs) = (\<lambda>seen. rbind (?f seen) (query_pairs lister rules pairs))"
      using False by (intro ext) simp
    with False collects_append [OF collects_vendors Cons.IH,
        of "AliasClosure AliasScopeVendor (Pair_Vendor pair) rules" "AliasClosure AliasScopeProduct (Pair_Product pair) rules"]
    show ?thesis by (simp add: queries_def pair_queries_def)
  qed
qed

lemma set_queries:
  "(v, p) \<in> set (queries rules pairs) \<longleftrightarrow>
     (\<exists>pair\<in>set pairs. Pair_Vendor pair \<noteq> '''' \<and> Pair_Product pair \<noteq> '''' \<and>
        v \<in> set (AliasClosure AliasScopeVendor (Pair_Vendor pair) rules) \<and>
        p \<in> set (AliasClosure AliasScopeProduct (Pair_Product pair) rules))"
  by (auto simp: queries_def pair_queries_def split: if_splits)

lemma query_products_Err:
  "query_products lister v ps seen = Err e \<Longrightarrow> \<exists>e'. e = Wrapped ''candidate_prefilter'' e'"
  by (induction ps arbitrary: seen) (auto split: sum.splits)

lemma query_vendors_Err:
  "query_vendors lister vs ps seen = Err e \<Longrightarrow> \<exists>e'. e = Wrapped ''candidate_prefilter'' e'"
  by (induction vs arbitrary: seen) (auto simp: rbind_Err_iff dest: query_products_Err)

lemma query_pairs_Err:
  "query_pairs lister rules pairs seen = Err e \<Longrightarrow> \<exists>e'. e = Wrapped ''candidate_prefilter'' e'"
  by (induction pairs arbitrary: seen) (auto simp: rbind_Err_iff dest: query_vendors_Err split: if_splits)

lemma query_pairs_result:
  "is_ok (query_pairs lister rules pairs []) \<longleftrightarrow> (\<forall>q\<in>set (queries rules pairs). is_ok (lister (fst q) (snd q)))"
  "query_pairs lister rules pairs [] = Ok seen \<Longrightarrow> set seen = answer_ids lister (queries rules pairs)"
proof -
  have "if \<forall>q\<in>set (queries rules pairs). is_ok (lister (fst q) (snd q))
     then \<exists>seen'. query_pairs lister rules pairs [] = Ok seen' \<and> set seen' = set [] \<union> answer_ids lister (queries rules pairs)
     else \<not> is_ok (query_pairs lister rules pairs [])"
    using collects_pairs unfolding collects_def by (rule spec)
  then show "is_ok (query_pairs lister rules pairs []) \<longleftrightarrow> (\<forall>q\<in>set (queries rules pairs). is_ok (lister (fst q) (snd q)))"
    "query_pairs lister rules pairs [] = Ok seen \<Longrightarrow> set seen = answer_ids lister (queries rules pairs)"
    by (auto split: if_splits)
qed

text \<open>The inventory index over the rows of the table, \<open>ORDER BY natural_key\<close>.\<close>

definition norm_index :: "Component list \<Rightarrow> lister" where
  "norm_index rows v p =
     Ok (sort_key Cmp_NaturalKey (filter (\<lambda>c. Cmp_VendorNorm c = v \<and> Cmp_ProductNorm c = p) rows))"

section \<open>Properties\<close>

text \<open>The pre-filter succeeds exactly when none of its queries fails, and then returns, sorted and without
  duplicates, the non-empty identifiers of the answers; a failing query ends the run with an
  error of the pre-filter, never with a partial candidate set.\<close>

theorem candidate_ids:
  "(is_ok (CandidateComponentIDs lister pairs rules) \<longleftrightarrow>
      list_all (\<lambda>q. is_ok (lister (fst q) (snd q))) (queries rules pairs)) \<and>
   (case CandidateComponentIDs lister pairs rules of
      Inr ids \<Rightarrow> sorted ids \<and> distinct ids \<and> set ids = answer_ids lister (queries rules pairs)
    | Inl e \<Rightarrow> \<exists>e'. e = Wrapped ''candidate_prefilter'' e')"
proof (cases "query_pairs lister rules pairs []")
  case (Inl e)
  with query_pairs_Err [OF Inl] query_pairs_result(1) [of lister rules pairs] show ?thesis
    by (simp add: CandidateComponentIDs_def list_all_iff)
next
  case (Inr seen)
  with query_pairs_result [of lister rules pairs] show ?thesis
    by (simp add: CandidateComponentIDs_def list_all_iff)
qed

lemma norm_index_semi_join:
  "CandidateComponentIDs (norm_index rows) pairs rules =
     Ok (sorted_list_of_set {Cmp_ID c |c. c \<in> set rows \<and> Cmp_ID c \<noteq> '''' \<and>
       (\<exists>pair. pair \<in> set pairs \<and> Pair_Vendor pair \<noteq> '''' \<and> Pair_Product pair \<noteq> '''' \<and>
          Cmp_VendorNorm c \<in> set (AliasClosure AliasScopeVendor (Pair_Vendor pair) rules) \<and>
          Cmp_ProductNorm c \<in> set (AliasClosure AliasScopeProduct (Pair_Product pair) rules))})"
    (is "_ = Ok (sorted_list_of_set ?S)")
proof -
  have ok: "list_all (\<lambda>q. is_ok (norm_index rows (fst q) (snd q))) (queries rules pairs)"
    by (simp add: list_all_iff norm_index_def)
  then obtain ids where ids: "CandidateComponentIDs (norm_index rows) pairs rules = Ok ids"
    using candidate_ids [of "norm_index rows" pairs rules] by (auto simp: is_ok_iff)
  have a: "set (answer (norm_index rows) q) = {c \<in> set rows. (Cmp_VendorNorm c, Cmp_ProductNorm c) = q}" for q
    by (cases q) (auto simp: answer_def norm_index_def)
  have "i \<in> answer_ids (norm_index rows) (queries rules pairs) \<longleftrightarrow> i \<noteq> '''' \<and>
      (\<exists>c. c \<in> set rows \<and> i = Cmp_ID c \<and> (Cmp_VendorNorm c, Cmp_ProductNorm c) \<in> set (queries rules pairs))" for i
  proof
    assume "i \<in> answer_ids (norm_index rows) (queries rules pairs)"
    then show "i \<noteq> '''' \<and> (\<exists>c. c \<in> set rows \<and> i = Cmp_ID c \<and> (Cmp_VendorNorm c, Cmp_ProductNorm c) \<in> set (queries rules pairs))"
      by (auto simp: answer_ids_def a)
  next
    assume "i \<noteq> '''' \<and> (\<exists>c. c \<in> set rows \<and> i = Cmp_ID c \<and> (Cmp_VendorNorm c, Cmp_ProductNorm c) \<in> set (queries rules pairs))"
    then obtain c where "i \<noteq> ''''" "c \<in> set rows" "i = Cmp_ID c" "(Cmp_VendorNorm c, Cmp_ProductNorm c) \<in> set (queries rules pairs)"
      by blast
    then show "i \<in> answer_ids (norm_index rows) (queries rules pairs)"
      unfolding answer_ids_def by (intro CollectI conjI bexI) (auto simp: a)
  qed
  note ids_iff = this
  have q: "(i \<noteq> '''' \<and> (\<exists>c. c \<in> set rows \<and> i = Cmp_ID c \<and> Q c)) =
      (\<exists>c. i = Cmp_ID c \<and> c \<in> set rows \<and> Cmp_ID c \<noteq> '''' \<and> Q c)" for i Q by auto
  have "answer_ids (norm_index rows) (queries rules pairs) = ?S"
    unfolding set_eq_iff ids_iff mem_Collect_eq set_queries Bex_def by (intro allI q)
  then have "sorted ids" "distinct ids" "set ids = ?S"
    using candidate_ids [of "norm_index rows" pairs rules] ids by simp_all
  then have "ids = sorted_list_of_set ?S"
    using sorted_list_of_set.idem_if_sorted_distinct [of ids] by simp
  with ids show ?thesis by simp
qed

text \<open>C28: Over an index that answers with the rows of the queried keys, the pre-filter computes the semi-join
  of the pairs with the inventory through the alias closures: the identifiers of exactly the
  components whose vendor and product are each one hop at most from those of one pair.\<close>

theorem prefilter_is_the_semi_join:
  "CandidateComponentIDs (norm_index rows) pairs rules =
     Ok (sorted_list_of_set {Cmp_ID c |c. c \<in> set rows \<and> Cmp_ID c \<noteq> '''' \<and>
       (\<exists>pair. pair \<in> set pairs \<and> Pair_Vendor pair \<noteq> '''' \<and> Pair_Product pair \<noteq> '''' \<and>
          Cmp_VendorNorm c \<in> set (AliasClosure AliasScopeVendor (Pair_Vendor pair) rules) \<and>
          Cmp_ProductNorm c \<in> set (AliasClosure AliasScopeProduct (Pair_Product pair) rules))})"
  by (rule norm_index_semi_join)

text \<open>The pre-filter loses no component that the matcher relates by its names directly: a stored component
  whose folded names equal those of a statement, or are one alias hop from them, is a
  candidate of every vulnerability with the statement's pair.\<close>

theorem named_component_is_candidate:
  assumes "c \<in> set rows" "Cmp_ID c \<noteq> ''''"
    and "pc_vendor (prepareComponent U c) = Cmp_VendorNorm c" "pc_product (prepareComponent U c) = Cmp_ProductNorm c"
    and "canonical_names a (prepareComponent U c) \<or>
      AP_Vendor a \<noteq> '''' \<and> AP_Product a \<noteq> '''' \<and>
      alias_hop rules AliasScopeVendor (Cmp_VendorNorm c) (AP_Vendor a) \<and>
      alias_hop rules AliasScopeProduct (Cmp_ProductNorm c) (AP_Product a)"
    and "\<lparr>Pair_Vendor = AP_Vendor a, Pair_Product = AP_Product a\<rparr> \<in> set pairs"
  shows "\<exists>ids. CandidateComponentIDs (norm_index rows) pairs rules = Ok ids \<and> Cmp_ID c \<in> set ids"
proof -
  let ?S = "{Cmp_ID c |c. c \<in> set rows \<and> Cmp_ID c \<noteq> '''' \<and>
       (\<exists>pair. pair \<in> set pairs \<and> Pair_Vendor pair \<noteq> '''' \<and> Pair_Product pair \<noteq> '''' \<and>
          Cmp_VendorNorm c \<in> set (AliasClosure AliasScopeVendor (Pair_Vendor pair) rules) \<and>
          Cmp_ProductNorm c \<in> set (AliasClosure AliasScopeProduct (Pair_Product pair) rules))}"
  have "?S \<subseteq> Cmp_ID ` set rows" by auto
  then have "finite ?S" by (rule finite_subset) simp
  moreover have "AP_Vendor a \<noteq> ''''" "AP_Product a \<noteq> ''''"
    "Cmp_VendorNorm c \<in> set (AliasClosure AliasScopeVendor (AP_Vendor a) rules)"
    "Cmp_ProductNorm c \<in> set (AliasClosure AliasScopeProduct (AP_Product a) rules)"
    using assms(3-5) by (auto simp: canonical_names_def set_AliasClosure)
  then have "Cmp_ID c \<in> ?S" using assms(1,2,6)
    by (intro CollectI exI [of _ c] conjI exI [of _ "\<lparr>Pair_Vendor = AP_Vendor a, Pair_Product = AP_Product a\<rparr>"]) simp_all
  ultimately show ?thesis unfolding norm_index_semi_join by simp
qed

theorem named_component_is_candidate_witness:
  "\<exists>ids. CandidateComponentIDs (norm_index [ex_component]) [\<lparr>Pair_Vendor = ''acme'', Pair_Product = ''tool''\<rparr>] [] = Ok ids \<and>
     ''c1'' \<in> set ids"
proof -
  have "pc_vendor (prepareComponent plain_unicode ex_component) = ''acme''"
    "pc_product (prepareComponent plain_unicode ex_component) = ''tool''" by code_simp+
  then show ?thesis
    using named_component_is_candidate [of ex_component "[ex_component]" plain_unicode ex_statement "[]"
        "[\<lparr>Pair_Vendor = ''acme'', Pair_Product = ''tool''\<rparr>]"]
    by (simp add: ex_component_def ex_statement_def canonical_names_def)
qed

text \<open>Two variants of one canonical name meet in the matcher, which closes both sides, and not in
  the pre-filter, which closes the vulnerability's side only.\<close>

definition sibling_rules :: "AliasRule list" where
  "sibling_rules =
     (let r = (\<lambda>i f. \<lparr>Alias_ID = i, Alias_Scope = AliasScopeProduct, Alias_From = f, Alias_To = ''tool'',
        Alias_Version = 1, Alias_Enabled = True, Alias_Reason = ''''\<rparr>)
      in [r ''1'' ''tool-ce'', r ''2'' ''tool-ee''])"

lemma prefilter_misses_siblings:
  "let a = ex_statement\<lparr>AP_Product := ''tool-ce''\<rparr>;
       c = ex_component\<lparr>Cmp_ProductNorm := ''tool-ee''\<rparr>
   in is_ok (ValidateAliasRules sibling_rules) \<and>
      alias_names a (prepareComponent plain_unicode c) sibling_rules \<and>
      sr_method (evaluateStatement plain_unicode a (prepareComponent plain_unicode c) sibling_rules) =
        MatchMethodAliasExactVersion \<and>
      CandidateComponentIDs (norm_index [c]) [\<lparr>Pair_Vendor = AP_Vendor a, Pair_Product = AP_Product a\<rparr>] sibling_rules =
        Ok []"
  by code_simp

end
