(* ===== verification/AuditNumber.thy ===== *)
theory AuditNumber
  imports Prelude
begin

text \<open>
  The canonical form of a JSON number (internal/adapters/postgres/repo/audit_chain.go): the
  decimal form in which the database's numeric type stores and prints it, so that a snapshot
  hashes alike before and after it is stored.
\<close>

section \<open>Definitions\<close>

text \<open>\<open>strconv.Atoi\<close>: an optional sign and decimal digits, within 64 bits.\<close>

definition Atoi :: "string \<Rightarrow> int option" where
  "Atoi s =
     (let (neg, ds) =
        (case s of
           c # cs \<Rightarrow> (if c = CHR ''-'' then (True, cs) else if c = CHR ''+'' then (False, cs) else (False, s))
         | [] \<Rightarrow> (False, []))
      in if \<not> all_digits ds then None
         else
           (let v = (if neg then - int (digits_val ds) else int (digits_val ds))
            in if - (2 ^ 63) \<le> v \<and> v < 2 ^ 63 then Some v else None))"

definition maxNumericIntegerDigits :: int where "maxNumericIntegerDigits = 131072"
definition maxNumericScale :: int where "maxNumericScale = 16383"

text \<open>\<open>strings.Repeat("0", n)\<close>; a negative count panics, and so does one beyond the address
  space, of 48 bits.\<close>

definition repeat_zeros :: "int \<Rightarrow> string option" where
  "repeat_zeros n = (if n < 0 \<or> n > 2 ^ 48 then None else Some (replicate (nat n) CHR ''0''))"

text \<open>Sign, mantissa digits before and after the point, and exponent, of which one out of range
  counts as 0.\<close>

definition number_parts :: "string \<Rightarrow> bool \<times> string \<times> string \<times> int" where
  "number_parts n =
     (let (neg, s) =
        (case n of
           c # cs \<Rightarrow> (if c = CHR ''-'' \<or> c = CHR ''+'' then (c = CHR ''-'', cs) else (False, n))
         | [] \<Rightarrow> (False, n));
          (ex, s) =
        (case index_any ''eE'' s of
           Some i \<Rightarrow> ((case Atoi (drop (Suc i) s) of Some e \<Rightarrow> e | None \<Rightarrow> 0), take i s)
         | None \<Rightarrow> (0, s));
          (intPart, fracPart) =
        (case index_byte CHR ''.'' s of
           Some i \<Rightarrow> (take i s, drop (Suc i) s)
         | None \<Rightarrow> (s, ''''))
      in (neg, intPart, fracPart, ex))"

definition all_in :: "string \<Rightarrow> string \<Rightarrow> bool" where
  "all_in cs s = list_all (\<lambda>c. c \<in> set cs) s"

text \<open>The decimal with \<open>scale\<close> digits after the point; the sign is dropped from zero.\<close>

definition render_decimal :: "bool \<Rightarrow> string \<Rightarrow> nat \<Rightarrow> string" where
  "render_decimal neg digits scale =
     (let out =
        (if scale = 0 then (let o' = trim_zeros digits in if o' = '''' then ''0'' else o')
         else
           (let digits = (if length digits < scale
                  then replicate (scale - length digits) CHR ''0'' @ digits else digits);
                whole = trim_zeros (take (length digits - scale) digits)
            in (if whole = '''' then ''0'' else whole) @ ''.'' @ drop (length digits - scale) digits))
      in if neg \<and> \<not> all_in ''0.'' out then CHR ''-'' # out else out)"

definition normaliseJSONNumber :: "string \<Rightarrow> string option" where
  "normaliseJSONNumber n =
     (let (neg, intPart, fracPart, ex) = number_parts n;
          digits = intPart @ fracPart;
          scale = wrap64 (int (length fracPart) - ex)
      in if all_in ''0'' digits then
           (if scale > maxNumericScale then Some n
            else if scale \<le> 0 then Some ''0''
            else map_option (\<lambda>z. ''0.'' @ z) (repeat_zeros scale))
         else if scale > maxNumericScale \<or>
           (scale < 0 \<and> wrap64 (int (length (trim_zeros digits)) - scale) > maxNumericIntegerDigits) then Some n
         else if scale < 0 then
           map_option (\<lambda>z. render_decimal neg (digits @ z) 0) (repeat_zeros (wrap64 (- scale)))
         else Some (render_decimal neg digits (nat scale)))"

section \<open>The numeric a lexeme denotes\<close>

text \<open>The database's numeric: an integer and a scale. A positive exponent is expanded.\<close>

definition numeric_of :: "string \<Rightarrow> int \<times> nat" where
  "numeric_of n =
     (let (neg, ip, fp, ex) = number_parts n;
          m = int (digits_val (ip @ fp)) * 10 ^ nat (ex - int (length fp))
      in (if neg then - m else m, nat (int (length fp) - ex)))"

definition number_wf :: "string \<Rightarrow> bool" where
  "number_wf n \<longleftrightarrow>
     (case number_parts n of (neg, ip, fp, ex) \<Rightarrow>
        all_digits ip \<and> list_all is_digit fp \<and> \<bar>ex\<bar> \<le> 2 ^ 62)"

text \<open>Within the limits of the numeric type.\<close>

definition number_fits :: "string \<Rightarrow> bool" where
  "number_fits n \<longleftrightarrow>
     (case number_parts n of (neg, ip, fp, ex) \<Rightarrow>
        int (length fp) - ex \<le> maxNumericScale \<and>
        (digits_val (ip @ fp) = 0 \<or> int (length fp) - ex \<ge> 0 \<or>
         int (length (trim_zeros (ip @ fp))) + ex - int (length fp) \<le> maxNumericIntegerDigits))"

definition render_numeric :: "int \<times> nat \<Rightarrow> string" where
  "render_numeric x =
     (case x of (m, s) \<Rightarrow> render_decimal (m < 0) (itoa (nat \<bar>m\<bar>)) s)"

section \<open>Lemmas\<close>

lemma all_in_0: "all_in ''0'' s \<longleftrightarrow> trim_zeros s = ''''"
  by (auto simp: all_in_def trim_zeros_def list_all_iff dropWhile_eq_Nil_conv)

lemma trim_zeros_value:
  assumes "list_all is_digit s"
  shows "trim_zeros s = (if digits_val s = 0 then '''' else itoa (digits_val s))"
proof (cases "trim_zeros s = ''''")
  case True
  then have "digits_val s = 0" using trim_zeros_props(2) [OF assms] by simp
  with True show ?thesis by simp
next
  case False
  let ?t = "trim_zeros s"
  note t = trim_zeros_props(1,2) [OF assms] trim_zeros_props(3) [OF assms False]
  have "digits_val ?t \<noteq> 0"
    using digits_shorter_less [of "''''" ?t] t False by simp
  then have v: "digits_val s > 0" using t(2) by simp
  have d: "list_all is_digit (itoa k)" for k using itoa_digits [of k] by (simp add: all_digits_def)
  have "length ?t = length (itoa (digits_val s))"
  proof (rule ccontr)
    assume "length ?t \<noteq> length (itoa (digits_val s))"
    then consider "length ?t < length (itoa (digits_val s))" | "length (itoa (digits_val s)) < length ?t" by linarith
    then show False
    proof cases
      case 1
      from digits_shorter_less [OF 1 t(1) d itoa_nonempty itoa_no_zero [OF v]] t(2) show False by simp
    next
      case 2
      from digits_shorter_less [OF 2 d t(1) False t(3)] t(2) show False by simp
    qed
  qed
  then have "?t = itoa (digits_val s)" using digits_eq_iff [OF _ t(1) d] t(2) by simp
  with v show ?thesis by simp
qed

lemma digits_val_0_iff: "list_all is_digit s \<Longrightarrow> digits_val s = 0 \<longleftrightarrow> all_in ''0'' s"
  using trim_zeros_value [of s] itoa_nonempty by (auto simp: all_in_0)

lemma whole_value:
  "list_all is_digit s \<Longrightarrow> (if trim_zeros s = '''' then ''0'' else trim_zeros s) = itoa (digits_val s)"
  by (auto simp: trim_zeros_value itoa_0 itoa_nonempty)

text \<open>The rendered decimal depends on the value of the digits only.\<close>

lemma render_decimal_digits:
  assumes "list_all is_digit ds" "s > 0"
  shows "\<exists>f. length f = s \<and> list_all is_digit f \<and> digits_val f = digits_val ds mod 10 ^ s \<and>
    render_decimal neg ds s =
      (let out = itoa (digits_val ds div 10 ^ s) @ ''.'' @ f in if neg \<and> \<not> all_in ''0.'' out then CHR ''-'' # out else out)"
proof -
  let ?ds = "if length ds < s then replicate (s - length ds) CHR ''0'' @ ds else ds"
  let ?w = "take (length ?ds - s) ?ds" and ?f = "drop (length ?ds - s) ?ds"
  have d: "list_all is_digit ?ds" using assms(1) by (auto simp: list_all_iff is_digit_def)
  have v: "digits_val ?ds = digits_val ds" by simp
  have l: "length ?f = s" by auto
  have w: "list_all is_digit ?w" "list_all is_digit ?f"
    using d by (auto simp: list_all_iff dest: in_set_takeD in_set_dropD)
  have "digits_val (?w @ ?f) = digits_val ?w * 10 ^ s + digits_val ?f"
    unfolding digits_val_append l ..
  then have e: "digits_val ds = digits_val ?w * 10 ^ s + digits_val ?f" unfolding append_take_drop_id v .
  have "digits_val ?f < 10 ^ s" using digits_val_bound [OF w(2)] unfolding l .
  then have "digits_val ds div 10 ^ s = digits_val ?w" "digits_val ds mod 10 ^ s = digits_val ?f"
    unfolding e by simp_all
  moreover have "render_decimal neg ds s =
      (let out = (if trim_zeros ?w = '''' then ''0'' else trim_zeros ?w) @ ''.'' @ ?f
       in if neg \<and> \<not> all_in ''0.'' out then CHR ''-'' # out else out)"
    using assms(2) by (simp add: render_decimal_def Let_def)
  ultimately show ?thesis using l w whole_value [OF w(1)] by (intro exI [of _ ?f]) simp
qed

lemma all_in_append: "all_in cs (xs @ ys) \<longleftrightarrow> all_in cs xs \<and> all_in cs ys"
  by (simp add: all_in_def)

lemma all_in_digits: "list_all is_digit s \<Longrightarrow> all_in ''0.'' s \<longleftrightarrow> digits_val s = 0"
proof -
  assume d: "list_all is_digit s"
  have "\<not> is_digit CHR ''.''" by code_simp
  with d have "CHR ''.'' \<notin> set s" by (auto simp: list_all_iff)
  then have "all_in ''0.'' s \<longleftrightarrow> all_in ''0'' s" by (auto simp: all_in_def list_all_iff)
  with digits_val_0_iff [OF d] show ?thesis by simp
qed

lemma digits_of_itoa: "list_all is_digit (itoa k)"
  using itoa_digits [of k] by (simp add: all_digits_def)

text \<open>A rendered decimal, for a mantissa of either sign.\<close>

lemma render_decimal_eq:
  assumes "list_all is_digit ds"
  shows "render_decimal neg ds s =
     (let v = digits_val ds
      in (if neg \<and> v \<noteq> 0 then ''-'' else '''') @ itoa (v div 10 ^ s) @
         (if s = 0 then '''' else ''.'' @ pad_zeros s (itoa (v mod 10 ^ s))))"
proof (cases "s = 0")
  case True
  have "all_in ''0.'' (itoa (digits_val ds)) \<longleftrightarrow> digits_val ds = 0" using all_in_digits [OF digits_of_itoa] by simp
  then show ?thesis using True whole_value [OF assms] by (auto simp: render_decimal_def Let_def)
next
  case False
  let ?v = "digits_val ds"
  obtain f where f: "length f = s" "list_all is_digit f" "digits_val f = ?v mod 10 ^ s"
    and r: "render_decimal neg ds s =
      (let out = itoa (?v div 10 ^ s) @ ''.'' @ f in if neg \<and> \<not> all_in ''0.'' out then CHR ''-'' # out else out)"
    using render_decimal_digits [OF assms, of s neg] False by auto
  have "length (pad_zeros s (itoa (?v mod 10 ^ s))) = s" using False by (intro pad_zeros_length) auto
  then have pad: "f = pad_zeros s (itoa (?v mod 10 ^ s))"
    using digits_eq_iff [of f "pad_zeros s (itoa (?v mod 10 ^ s))"] f pad_zeros_props [of s "?v mod 10 ^ s"] by simp
  have "all_in ''0.'' (itoa (?v div 10 ^ s) @ ''.'' @ f) \<longleftrightarrow> ?v div 10 ^ s = 0 \<and> ?v mod 10 ^ s = 0"
    using all_in_digits [OF digits_of_itoa] all_in_digits [OF f(2)] f(3) by (simp add: all_in_append) (simp add: all_in_def)
  also have "\<dots> \<longleftrightarrow> ?v = 0"
    using div_mult_mod_eq [of ?v "10 ^ s"] by auto
  finally show ?thesis using False r pad by (auto simp: Let_def)
qed

lemma render_decimal_numeric:
  assumes "list_all is_digit ds"
  shows "render_decimal neg ds s =
    render_numeric (if neg then - int (digits_val ds) else int (digits_val ds), s)"
  unfolding render_numeric_def prod.case render_decimal_eq [OF assms] render_decimal_eq [OF digits_of_itoa]
  by (auto simp: Let_def)

lemma render_numeric_eq:
  "render_numeric (m, s) =
     (if m < 0 then ''-'' else '''') @ itoa (nat \<bar>m\<bar> div 10 ^ s) @
     (if s = 0 then '''' else ''.'' @ pad_zeros s (itoa (nat \<bar>m\<bar> mod 10 ^ s)))"
  unfolding render_numeric_def prod.case render_decimal_eq [OF digits_of_itoa] by (auto simp: Let_def)

text \<open>Reading a rendered decimal back.\<close>

lemma digit_not: "is_digit c \<Longrightarrow> c \<noteq> CHR ''-'' \<and> c \<noteq> CHR ''+'' \<and> c \<noteq> CHR ''.'' \<and> c \<noteq> CHR ''e'' \<and> c \<noteq> CHR ''E''"
  by (auto simp: is_digit_def)

lemma number_parts_plain:
  assumes "all_digits ip" "list_all is_digit fp"
  shows "number_parts ((if neg then ''-'' else '''') @ ip @ (if dot then ''.'' @ fp else '''')) =
    (neg, ip, if dot then fp else '''', 0)"
proof -
  let ?body = "ip @ (if dot then ''.'' @ fp else '''')"
  obtain c cs where ip: "ip = c # cs" "is_digit c" using assms(1) by (cases ip) (auto simp: all_digits_def)
  have ds: "\<forall>c\<in>set ip. is_digit c" "\<forall>c\<in>set fp. is_digit c"
    using assms by (auto simp: all_digits_def list_all_iff)
  have e: "index_any ''eE'' ?body = None"
    unfolding index_any_def index_where_None using ds digit_not by auto
  have dt: "index_byte CHR ''.'' ?body = (if dot then Some (length ip) else None)"
  proof (cases dot)
    case True
    have "CHR ''.'' \<notin> set ip" using ds digit_not by blast
    with True show ?thesis using index_byte_append [of "CHR ''.''" ip fp] by simp
  next
    case False
    have "CHR ''.'' \<notin> set ip" using ds digit_not by blast
    with False show ?thesis by simp
  qed
  have s: "(case (if neg then ''-'' else '''') @ ?body of
           c # cs \<Rightarrow> (if c = CHR ''-'' \<or> c = CHR ''+'' then (c = CHR ''-'', cs) else (False, (if neg then ''-'' else '''') @ ?body))
         | [] \<Rightarrow> (False, (if neg then ''-'' else '''') @ ?body)) = (neg, ?body)"
    using ip digit_not [of c] by simp
  show ?thesis unfolding number_parts_def s Let_def prod.case e option.case dt
    by simp
qed

lemma number_parts_render:
  "number_parts (render_numeric (m, s)) =
     (m < 0, itoa (nat \<bar>m\<bar> div 10 ^ s), if s = 0 then '''' else pad_zeros s (itoa (nat \<bar>m\<bar> mod 10 ^ s)), 0)"
  using number_parts_plain [OF itoa_digits pad_zeros_props(2), of "m < 0" "nat \<bar>m\<bar> div 10 ^ s" "s \<noteq> 0" s "nat \<bar>m\<bar> mod 10 ^ s"]
  unfolding render_numeric_eq by (simp split: if_splits)

lemma numeric_of_render: "numeric_of (render_numeric (m, s)) = (m, s)"
proof -
  let ?v = "nat \<bar>m\<bar>"
  have l: "s > 0 \<Longrightarrow> length (pad_zeros s (itoa (?v mod 10 ^ s))) = s" by (intro pad_zeros_length) auto
  have "digits_val (itoa (?v div 10 ^ s) @ (if s = 0 then '''' else pad_zeros s (itoa (?v mod 10 ^ s)))) = ?v"
    using l div_mult_mod_eq [of ?v "10 ^ s"] by (auto simp: digits_val_append pad_zeros_props(1))
  then show ?thesis using l by (auto simp: numeric_of_def number_parts_render Let_def)
qed

lemma digits_val_pad: "digits_val (s @ replicate k CHR ''0'') = digits_val s * 10 ^ k"
  using digits_val_zeros [of k "''''"] by (simp add: digits_val_append)

lemma number_parts_length:
  "number_parts n = (neg, ip, fp, ex) \<Longrightarrow> length ip + length fp \<le> length n"
  by (auto simp: number_parts_def Let_def split: list.splits if_splits option.splits)

text \<open>Within the limits, the canonical form is the rendering of the numeric the lexeme denotes.\<close>

lemma normalise_eq_render:
  assumes "number_wf n" "number_fits n" "length n \<le> 2 ^ 61"
  shows "normaliseJSONNumber n = Some (render_numeric (numeric_of n))"
proof -
  obtain neg ip fp ex where p: "number_parts n = (neg, ip, fp, ex)" by (metis prod_cases4)
  let ?ds = "ip @ fp" and ?sc = "int (length fp) - ex"
  have d: "list_all is_digit ?ds" "\<bar>ex\<bar> \<le> 2 ^ 62" "?ds \<noteq> ''''"
    using assms(1) p by (auto simp: number_wf_def all_digits_def)
  have len: "length ip + length fp \<le> 2 ^ 61" using number_parts_length [OF p] assms(3) by linarith
  have fits: "?sc \<le> maxNumericScale"
    "digits_val ?ds = 0 \<or> ?sc \<ge> 0 \<or> int (length (trim_zeros ?ds)) - ?sc \<le> maxNumericIntegerDigits"
    using assms(2) p by (auto simp: number_fits_def)
  have w: "wrap64 ?sc = ?sc" using len d(2) by (intro wrap64_id) auto
  have tz: "length (trim_zeros ?ds) \<le> length ?ds" unfolding trim_zeros_def by (rule length_dropWhile_le)
  have w2: "wrap64 (int (length (trim_zeros ?ds)) - ?sc) = int (length (trim_zeros ?ds)) - ?sc"
    using len d(2) tz by (intro wrap64_id) auto
  have num: "numeric_of n =
      ((if neg then - 1 else 1) * (int (digits_val ?ds) * 10 ^ nat (- ?sc)), nat ?sc)"
    by (simp add: numeric_of_def p)
  show ?thesis
  proof (cases "digits_val ?ds = 0")
    case True
    then have z: "all_in ''0'' ?ds" using digits_val_0_iff [OF d(1)] by simp
    have r: "render_numeric (0, s) = (if s = 0 then ''0'' else ''0.'' @ replicate s CHR ''0'')" for s
    proof (cases "s = 0")
      case True
      then show ?thesis by (simp add: render_numeric_eq itoa_0)
    next
      case False
      then have "replicate (s - Suc 0) CHR ''0'' @ ''0'' = replicate s CHR ''0''"
        by (metis One_nat_def Suc_pred' append.left_neutral bot_nat_0.not_eq_extremum replicate.simps(2) replicate_append_same)
      with False show ?thesis by (simp add: render_numeric_eq itoa_0 pad_zeros_def)
    qed
    show ?thesis
    proof (cases "?sc \<le> 0")
      case True
      with z fits \<open>digits_val ?ds = 0\<close> show ?thesis
        by (simp add: normaliseJSONNumber_def p w num r maxNumericScale_def)
    next
      case False
      then have "repeat_zeros ?sc = Some (replicate (nat ?sc) CHR ''0'')"
        using fits(1) by (simp add: repeat_zeros_def maxNumericScale_def)
      with False z fits \<open>digits_val ?ds = 0\<close> show ?thesis
        by (simp add: normaliseJSONNumber_def p w num r)
    qed
  next
    case False
    then have z: "\<not> all_in ''0'' ?ds" using digits_val_0_iff [OF d(1)] by simp
    show ?thesis
    proof (cases "?sc < 0")
      case True
      then have le: "- ?sc \<le> maxNumericIntegerDigits" using fits(2) False by linarith
      have w3: "wrap64 (- ?sc) = - ?sc" using len d(2) by (intro wrap64_id) auto
      have rp: "repeat_zeros (- ?sc) = Some (replicate (nat (- ?sc)) CHR ''0'')"
        using True le by (simp add: repeat_zeros_def maxNumericIntegerDigits_def)
      have dz: "list_all is_digit (?ds @ replicate (nat (- ?sc)) CHR ''0'')"
        using d(1) by (auto simp: list_all_iff is_digit_def)
      have "digits_val (?ds @ replicate (nat (- ?sc)) CHR ''0'') = digits_val ?ds * 10 ^ nat (- ?sc)"
        by (rule digits_val_pad)
      then have "render_decimal neg (?ds @ replicate (nat (- ?sc)) CHR ''0'') 0 = render_numeric (numeric_of n)"
        unfolding render_decimal_numeric [OF dz] num using True by simp
      with True z fits rp False show ?thesis
        unfolding normaliseJSONNumber_def p Let_def prod.case w w2 w3 by auto
    next
      case nn: False
      have "render_decimal neg ?ds (nat ?sc) = render_numeric (numeric_of n)"
        unfolding render_decimal_numeric [OF d(1)] num using nn by simp
      with nn z fits show ?thesis
        unfolding normaliseJSONNumber_def p Let_def prod.case w w2 by auto
    qed
  qed
qed

lemma itoa_length_digits: "list_all is_digit ds \<Longrightarrow> ds \<noteq> [] \<Longrightarrow> length (itoa (digits_val ds)) \<le> length ds"
  using digits_val_bound [of ds] by (intro itoa_length) auto

lemma itoa_mono_length: "m \<le> n \<Longrightarrow> length (itoa m) \<le> length (itoa n)"
  using digits_val_bound [OF digits_of_itoa, of n] by (intro itoa_length) (simp_all add: itoa_nonempty)

text \<open>The canonical form is again a well-formed lexeme within the limits.\<close>

lemma render_fits:
  "s \<le> nat maxNumericScale \<Longrightarrow> number_wf (render_numeric (m, s)) \<and> number_fits (render_numeric (m, s))"
proof -
  assume "s \<le> nat maxNumericScale"
  moreover have "s > 0 \<Longrightarrow> length (pad_zeros s (itoa (nat \<bar>m\<bar> mod 10 ^ s))) = s" by (intro pad_zeros_length) auto
  ultimately show ?thesis
    using itoa_digits pad_zeros_props(2) by (auto simp: number_wf_def number_fits_def number_parts_render maxNumericScale_def)
qed

lemma numeric_scale: "number_fits n \<Longrightarrow> snd (numeric_of n) \<le> nat maxNumericScale"
  by (cases "number_parts n") (auto simp: number_fits_def numeric_of_def Let_def)

lemma render_length:
  assumes "number_wf n" "number_fits n" "length n \<le> 2 ^ 48"
  shows "length (render_numeric (numeric_of n)) \<le> 2 ^ 61"
proof -
  obtain neg ip fp ex where p: "number_parts n = (neg, ip, fp, ex)" by (metis prod_cases4)
  let ?ds = "ip @ fp" and ?sc = "int (length fp) - ex"
  have d: "list_all is_digit ?ds" "?ds \<noteq> ''''"
    using assms(1) p by (auto simp: number_wf_def all_digits_def)
  have len: "length ?ds \<le> 2 ^ 48" using number_parts_length [OF p] assms(3) by simp
  obtain m s where ms: "numeric_of n = (m, s)" by (cases "numeric_of n")
  have s: "s \<le> 16383" using numeric_scale [OF assms(2)] ms by (simp add: maxNumericScale_def)
  have "length (itoa (nat \<bar>m\<bar>)) \<le> 2 ^ 50"
  proof (cases "digits_val ?ds = 0")
    case True
    then have "m = 0" using ms p by (auto simp: numeric_of_def Let_def)
    then show ?thesis by (simp add: itoa_0)
  next
    case False
    have bound: "nat (- ?sc) \<le> 2 ^ 48"
      using assms(2) p False by (auto simp: number_fits_def maxNumericIntegerDigits_def)
    have "nat \<bar>m\<bar> = digits_val ?ds * 10 ^ nat (- ?sc)"
      using ms p by (auto simp: numeric_of_def Let_def nat_mult_distrib nat_power_eq abs_mult)
    also have "\<dots> = digits_val (?ds @ replicate (nat (- ?sc)) CHR ''0'')"
      by (rule digits_val_pad [symmetric])
    finally have m: "nat \<bar>m\<bar> = digits_val (?ds @ replicate (nat (- ?sc)) CHR ''0'')" .
    have "length (itoa (nat \<bar>m\<bar>)) \<le> length (?ds @ replicate (nat (- ?sc)) CHR ''0'')"
      unfolding m using d by (intro itoa_length_digits) (auto simp: list_all_iff is_digit_def)
    with len bound show ?thesis by simp
  qed
  moreover have "length (itoa (nat \<bar>m\<bar> div 10 ^ s)) \<le> length (itoa (nat \<bar>m\<bar>))"
    by (intro itoa_mono_length) simp
  moreover have "s > 0 \<Longrightarrow> length (pad_zeros s (itoa (nat \<bar>m\<bar> mod 10 ^ s))) = s" by (intro pad_zeros_length) auto
  moreover obtain v where v: "v = nat \<bar>m\<bar>" by blast
  ultimately have "length (itoa (v div 10 ^ s)) \<le> 2 ^ 50" "s > 0 \<Longrightarrow> length (pad_zeros s (itoa (v mod 10 ^ s))) = s"
    by simp_all
  then show ?thesis using s unfolding ms render_numeric_eq v [symmetric] by (cases "s = 0") simp_all
qed

section \<open>Properties\<close>

text \<open>The canonical form of a number is canonical: for a JSON number within the limits of the database's
  numeric type, whose exponent is not astronomically large, it exists, denotes the same integer
  and scale, is its own canonical form, and two such numbers have the same form exactly when the
  database stores the same numeric for both.\<close>

theorem number_form_is_canonical:
  assumes "number_wf n" "number_fits n" "length n \<le> 2 ^ 48"
    and "number_wf n'" "number_fits n'" "length n' \<le> 2 ^ 48"
  shows "\<exists>c. normaliseJSONNumber n = Some c \<and> numeric_of c = numeric_of n \<and> normaliseJSONNumber c = Some c \<and>
    (normaliseJSONNumber n' = Some c \<longleftrightarrow> numeric_of n' = numeric_of n)"
proof -
  let ?c = "render_numeric (numeric_of n)"
  have c: "numeric_of (render_numeric x) = x" for x by (cases x) (simp add: numeric_of_render)
  have "number_wf ?c" "number_fits ?c"
    using render_fits [OF numeric_scale [OF assms(2)], of "fst (numeric_of n)"] by simp_all
  then have 1: "normaliseJSONNumber ?c = Some ?c"
    using normalise_eq_render [OF _ _ render_length [OF assms(1-3)]] unfolding c by simp
  have 2: "normaliseJSONNumber n = Some ?c" using assms(1-3) by (intro normalise_eq_render) auto
  have n': "normaliseJSONNumber n' = Some (render_numeric (numeric_of n'))"
    using assms(4-6) by (intro normalise_eq_render) auto
  have 3: "normaliseJSONNumber n' = Some ?c \<longleftrightarrow> numeric_of n' = numeric_of n"
    unfolding n' option.inject
  proof
    assume "render_numeric (numeric_of n') = ?c"
    from arg_cong [OF this, of numeric_of] show "numeric_of n' = numeric_of n" unfolding c .
  qed simp
  from 2 c 1 3 show ?thesis by (intro exI conjI)
qed

theorem number_form_is_canonical_witness:
  "normaliseJSONNumber ''1.50e1'' = normaliseJSONNumber ''15.0''"
proof -
  have "number_wf ''1.50e1''" "number_fits ''1.50e1''" "number_wf ''15.0''" "number_fits ''15.0''"
    "numeric_of ''15.0'' = numeric_of ''1.50e1''" by code_simp+
  with number_form_is_canonical [of "''1.50e1''" "''15.0''"] show ?thesis by auto
qed

text \<open>The bound on the exponent is needed: the width check wraps around, and the expansion of an
  exponent next to the 64-bit limit panics instead of being left as it is.\<close>

lemma number_form_panics: "normaliseJSONNumber ''1e9223372036854775807'' = None"
proof -
  have "digits_val ''9223372036854775807'' = 9223372036854775807"
    by (simp add: digits_val_def digit_val_def)
  moreover have "all_digits ''9223372036854775807''" by code_simp
  ultimately have "Atoi ''9223372036854775807'' = Some 9223372036854775807" by (simp add: Atoi_def)
  then have "number_parts ''1e9223372036854775807'' = (False, ''1'', '''', 9223372036854775807)"
    by (simp add: number_parts_def index_any_def)
  then show ?thesis
    by (simp add: normaliseJSONNumber_def wrap64_def all_in_def repeat_zeros_def trim_zeros_def
        maxNumericScale_def maxNumericIntegerDigits_def)
qed

lemma number_form_examples:
  "normaliseJSONNumber ''1e2'' = Some ''100''" "normaliseJSONNumber ''-0.0'' = Some ''0.0''"
  "normaliseJSONNumber ''-12.3E-2'' = Some ''-0.123''"
  by code_simp+

end
