(* ===== verification/AuditChain.thy ===== *)
theory AuditChain
  imports AuditNumber Inventory "HOL-Library.Multiset"
begin

text \<open>
  The audit hash chain (internal/adapters/postgres/repo: audit_chain.go and audit.go, with the
  query of LatestAuditHash and the pseudonymising update): the canonical bytes of a row, the
  stamp of an appended row, and the verifier that follows the links.
\<close>

section \<open>Canonical bytes\<close>

datatype json =
    JNull | JBool bool | JNumber string | JString string
  | JArray "json list" | JObject "(string \<times> json) list"

text \<open>
  What the code takes from the standard library and does not read itself: the hash with its
  hexadecimal text, the layout RFC 3339 of a UTC instant, and the JSON decoder and encoder.
\<close>

record codec =
  sha256_hex :: "string \<Rightarrow> string"
  rfc3339 :: "time \<Rightarrow> string"
  json_decode :: "string \<Rightarrow> json option"
  json_marshal :: "json \<Rightarrow> string option"

record auditChainRow =
  ACR_AggregateType :: string
  ACR_AggregateID :: string
  ACR_ActorType :: string
  ACR_ActorID :: string
  ACR_ActorDisplayName :: string
  ACR_Action :: string
  ACR_OccurredAt :: time
  ACR_Before :: string
  ACR_After :: string
  ACR_CorrelationID :: string

text \<open>\<open>None\<close> is the panic of a number's expansion.\<close>

fun normaliseJSONNumbers :: "json \<Rightarrow> json option" where
  "normaliseJSONNumbers (JNumber n) = map_option JNumber (normaliseJSONNumber n)"
| "normaliseJSONNumbers (JArray vs) = map_option JArray (those (map normaliseJSONNumbers vs))"
| "normaliseJSONNumbers (JObject kvs) =
     map_option JObject (those (map (\<lambda>(k, v). map_option (Pair k) (normaliseJSONNumbers v)) kvs))"
| "normaliseJSONNumbers v = Some v"

definition canonicalJSON :: "codec \<Rightarrow> string \<Rightarrow> string option" where
  "canonicalJSON K raw =
     (if raw = '''' then Some ''''
      else
        (case json_decode K raw of
           None \<Rightarrow> Some raw
         | Some v \<Rightarrow>
             (case normaliseJSONNumbers v of
                None \<Rightarrow> None
              | Some w \<Rightarrow> (case json_marshal K w of None \<Rightarrow> Some raw | Some out \<Rightarrow> Some out))))"

definition writeChainField :: "string \<Rightarrow> string" where
  "writeChainField s = itoa (length s) @ CHR '':'' # s"

definition time_Microsecond :: duration where "time_Microsecond = 1000"

definition chain_fields :: "codec \<Rightarrow> string \<Rightarrow> auditChainRow \<Rightarrow> string list option" where
  "chain_fields K prevHash row =
     (case (canonicalJSON K (ACR_Before row), canonicalJSON K (ACR_After row)) of
        (Some before, Some after) \<Rightarrow>
          Some [prevHash, ACR_AggregateType row, ACR_AggregateID row, ACR_ActorType row, ACR_ActorID row,
                ACR_ActorDisplayName row, ACR_Action row,
                rfc3339 K (ACR_OccurredAt row - ACR_OccurredAt row mod time_Microsecond),
                before, after, ACR_CorrelationID row]
      | _ \<Rightarrow> None)"

definition canonicalAuditRow :: "codec \<Rightarrow> string \<Rightarrow> auditChainRow \<Rightarrow> string option" where
  "canonicalAuditRow K prevHash row =
     map_option (\<lambda>fields. concat (map writeChainField fields)) (chain_fields K prevHash row)"

definition auditRowHash :: "codec \<Rightarrow> string \<Rightarrow> auditChainRow \<Rightarrow> string option" where
  "auditRowHash K prevHash row = map_option (sha256_hex K) (canonicalAuditRow K prevHash row)"

section \<open>Stored rows\<close>

text \<open>A row of \<open>audit_events\<close>; identifiers are the canonical text of their UUIDs.\<close>

record AuditEventRow =
  AE_ID :: string
  AE_AggregateType :: string
  AE_AggregateID :: string
  AE_ActorType :: string
  AE_ActorID :: string
  AE_ActorDisplayName :: "string option"
  AE_Action :: string
  AE_OccurredAt :: time
  AE_Before :: string
  AE_After :: string
  AE_CorrelationID :: string
  AE_PrevHash :: "string option"
  AE_RowHash :: "string option"

definition textValue :: "string option \<Rightarrow> string" where
  "textValue t = (case t of None \<Rightarrow> '''' | Some s \<Rightarrow> s)"

definition toTextOpt :: "string \<Rightarrow> string option" where
  "toTextOpt s = (if s = '''' then None else Some s)"

definition chainRowOf :: "AuditEventRow \<Rightarrow> auditChainRow" where
  "chainRowOf row =
     \<lparr>ACR_AggregateType = AE_AggregateType row, ACR_AggregateID = AE_AggregateID row,
      ACR_ActorType = AE_ActorType row, ACR_ActorID = AE_ActorID row,
      ACR_ActorDisplayName = textValue (AE_ActorDisplayName row), ACR_Action = AE_Action row,
      ACR_OccurredAt = AE_OccurredAt row, ACR_Before = AE_Before row, ACR_After = AE_After row,
      ACR_CorrelationID = AE_CorrelationID row\<rparr>"

section \<open>The verifier\<close>

record ChainStatus =
  CS_Rows :: nat
  CS_Chained :: nat
  CS_Unchained :: nat
  CS_FirstChainedAt :: time
  CS_LastChainedAt :: time

datatype chain_error = ChainMismatch string nat string | ChainPanic

text \<open>The stored hash of a chained row.\<close>

abbreviation row_hash :: "AuditEventRow \<Rightarrow> string" where
  "row_hash row \<equiv> textValue (AE_RowHash row)"

text \<open>The first loop: counts and time bounds.\<close>

fun chain_partition :: "ChainStatus \<Rightarrow> AuditEventRow list \<Rightarrow> ChainStatus \<times> AuditEventRow list" where
  "chain_partition st [] = (st, [])"
| "chain_partition st (row # rows) =
     (if AE_RowHash row = None then chain_partition (st\<lparr>CS_Unchained := CS_Unchained st + 1\<rparr>) rows
      else
        (let at' = AE_OccurredAt row;
             st = (if time_IsZero (CS_FirstChainedAt st) \<or> time_Before at' (CS_FirstChainedAt st)
                   then st\<lparr>CS_FirstChainedAt := at'\<rparr> else st);
             st = (if time_After at' (CS_LastChainedAt st) then st\<lparr>CS_LastChainedAt := at'\<rparr> else st);
             (st', chained) = chain_partition st rows
         in (st', row # chained)))"

text \<open>The index: positions by row hash and by previous hash.\<close>

fun chain_index ::
  "nat \<Rightarrow> AuditEventRow list \<Rightarrow> (string \<rightharpoonup> nat) \<Rightarrow> (string \<Rightarrow> nat list) \<Rightarrow>
     chain_error + (string \<rightharpoonup> nat) \<times> (string \<Rightarrow> nat list)" where
  "chain_index i [] byRowHash byPrev = Inr (byRowHash, byPrev)"
| "chain_index i (row # rows) byRowHash byPrev =
     (if byRowHash (row_hash row) \<noteq> None
      then Inl (ChainMismatch (AE_ID row) 0 ''chain is forked: two rows share a row_hash'')
      else
        (let prev = textValue (AE_PrevHash row)
         in chain_index (Suc i) rows (byRowHash(row_hash row \<mapsto> i)) (byPrev(prev := byPrev prev @ [i]))))"

definition chain_dangling :: "(string \<rightharpoonup> nat) \<Rightarrow> AuditEventRow list \<Rightarrow> chain_error option" where
  "chain_dangling byRowHash chained =
     (case find (\<lambda>row. AE_PrevHash row \<noteq> None \<and> byRowHash (textValue (AE_PrevHash row)) = None) chained of
        None \<Rightarrow> None
      | Some row \<Rightarrow> Some (ChainMismatch (AE_ID row) 0 ''prev_hash does not link to the previous row_hash''))"

text \<open>The loop for the head: a position, or -1 while there is none.\<close>

fun chain_head :: "nat \<Rightarrow> AuditEventRow list \<Rightarrow> nat option \<Rightarrow> chain_error + nat option" where
  "chain_head i [] head = Inr head"
| "chain_head i (row # rows) head =
     (if AE_PrevHash row \<noteq> None then chain_head (Suc i) rows head
      else if head \<noteq> None
      then Inl (ChainMismatch (AE_ID row) 0 ''chain is forked: more than one row links to NULL'')
      else chain_head (Suc i) rows (Some i))"

text \<open>The walk; it yields how many rows it counted, the last position and what it visited. An index
  out of range would panic.\<close>

function chain_walk ::
  "codec \<Rightarrow> AuditEventRow list \<Rightarrow> (string \<Rightarrow> nat list) \<Rightarrow> bool list \<Rightarrow> nat \<Rightarrow> nat \<Rightarrow> nat \<Rightarrow>
     nat \<times> (chain_error + nat \<times> bool list)" where
  "chain_walk K chained byPrev visited cur pos n =
     (if \<not> cur < length visited \<or> \<not> cur < length chained then (n, Inl ChainPanic)
      else if visited ! cur
      then (n, Inl (ChainMismatch (AE_ID (chained ! cur)) pos ''chain is forked or loops: a row is reached twice''))
      else
        (let visited = visited[cur := True]; row = chained ! cur
         in case auditRowHash K (textValue (AE_PrevHash row)) (chainRowOf row) of
              None \<Rightarrow> (n, Inl ChainPanic)
            | Some got \<Rightarrow>
                (if got \<noteq> row_hash row
                 then (n, Inl (ChainMismatch (AE_ID row) pos ''row_hash does not match the recomputed value''))
                 else
                   (case byPrev (row_hash row) of
                      [] \<Rightarrow> (n + 1, Inr (pos, visited))
                    | [next'] \<Rightarrow> chain_walk K chained byPrev visited next' (pos + 1) (n + 1)
                    | _ \<Rightarrow> (n + 1, Inl (ChainMismatch (AE_ID row) pos
                             ''chain is forked: two rows link to the same predecessor''))))))"
  by pat_completeness auto

termination
proof (relation "measure (\<lambda>(K, chained, byPrev, visited, cur, pos, n). length (filter Not visited))", goal_cases)
  case 1
  then show ?case by simp
next
  case (2 K chained byPrev visited cur pos n visited' row got next' xs)
  then have c: "cur < length visited" "\<not> visited ! cur" by auto
  have "filter Not (visited[cur := True]) = filter Not (take cur visited) @ filter Not (drop (Suc cur) visited)"
    using c by (simp add: upd_conv_take_nth_drop)
  moreover have "filter Not visited = filter Not (take cur visited) @ filter Not (visited ! cur # drop (Suc cur) visited)"
    using c(1) by (metis filter_append id_take_nth_drop)
  ultimately show ?case using c 2 by simp
qed

declare chain_walk.simps [simp del]

definition verify_rows :: "codec \<Rightarrow> AuditEventRow list \<Rightarrow> ChainStatus \<times> chain_error option" where
  "verify_rows K rows =
     (let st0 = \<lparr>CS_Rows = length rows, CS_Chained = 0, CS_Unchained = 0, CS_FirstChainedAt = 0, CS_LastChainedAt = 0\<rparr>;
          (st, chained) = chain_partition st0 rows
      in if chained = [] then (st, None)
         else
           (case chain_index 0 chained Map.empty (\<lambda>_. []) of
              Inl e \<Rightarrow> (st, Some e)
            | Inr (byRowHash, byPrev) \<Rightarrow>
                (case chain_dangling byRowHash chained of
                   Some e \<Rightarrow> (st, Some e)
                 | None \<Rightarrow>
                     (case chain_head 0 chained None of
                        Inl e \<Rightarrow> (st, Some e)
                      | Inr None \<Rightarrow>
                          (st, Some (ChainMismatch (AE_ID (chained ! 0)) 0 ''chain has no head: no chained row links to NULL''))
                      | Inr (Some head) \<Rightarrow>
                          (case chain_walk K chained byPrev (replicate (length chained) False) head 0 0 of
                             (n, Inl e) \<Rightarrow> (st\<lparr>CS_Chained := n\<rparr>, Some e)
                           | (n, Inr (pos, visited)) \<Rightarrow>
                               (st\<lparr>CS_Chained := n\<rparr>,
                                (case find (\<lambda>i. \<not> visited ! i) [0..<length chained] of
                                   None \<Rightarrow> None
                                 | Some i \<Rightarrow> Some (ChainMismatch (AE_ID (chained ! i)) pos
                                     ''chained row is unreachable from the chain head''))))))))"

text \<open>The rows are read with one query, which may fail.\<close>

definition VerifyChain :: "codec \<Rightarrow> AuditEventRow list result \<Rightarrow> (ChainStatus \<times> chain_error option) result" where
  "VerifyChain K query =
     rbind (wrap_err ''audit.verify_chain'' query) (\<lambda>rows. Ok (verify_rows K rows))"

section \<open>The writer\<close>

record AuditEvent =
  Ev_AggregateType :: string
  Ev_AggregateID :: string
  Ev_ActorType :: string
  Ev_ActorID :: string
  Ev_ActorDisplayName :: string
  Ev_Action :: string
  Ev_OccurredAt :: time
  Ev_Before :: string
  Ev_After :: string
  Ev_CorrelationID :: string

text \<open>\<open>LatestAuditHash\<close>: the stamped row that is last by time, then identifier.\<close>

definition row_after :: "AuditEventRow \<Rightarrow> AuditEventRow \<Rightarrow> bool" where
  "row_after r s \<longleftrightarrow> AE_OccurredAt r > AE_OccurredAt s \<or> AE_OccurredAt r = AE_OccurredAt s \<and> AE_ID r > AE_ID s"

definition LatestAuditHash :: "AuditEventRow list \<Rightarrow> string option" where
  "LatestAuditHash table =
     (case filter (\<lambda>r. AE_RowHash r \<noteq> None) table of
        [] \<Rightarrow> None
      | r # rs \<Rightarrow> AE_RowHash (fold (\<lambda>s latest. if row_after s latest then s else latest) rs r))"

text \<open>
  What the database does to a value it stores: the text of a \<open>jsonb\<close>, the resolution of a
  timestamp, the identifier of the column default, and the parser of identifiers.
\<close>

record store =
  store_json :: "string \<Rightarrow> string"
  store_time :: "time \<Rightarrow> time"
  parse_uuid :: "string \<Rightarrow> string option"

definition stampChain :: "codec \<Rightarrow> AuditEventRow list \<Rightarrow> AuditEvent \<Rightarrow> string \<Rightarrow> (string option \<times> string) option" where
  "stampChain K table ev aggregateID =
     (let prev = LatestAuditHash table;
          row = \<lparr>ACR_AggregateType = Ev_AggregateType ev, ACR_AggregateID = aggregateID,
             ACR_ActorType = Ev_ActorType ev, ACR_ActorID = Ev_ActorID ev,
             ACR_ActorDisplayName = Ev_ActorDisplayName ev, ACR_Action = Ev_Action ev,
             ACR_OccurredAt = Ev_OccurredAt ev, ACR_Before = Ev_Before ev, ACR_After = Ev_After ev,
             ACR_CorrelationID = Ev_CorrelationID ev\<rparr>
      in map_option (\<lambda>h. (prev, h)) (auditRowHash K (textValue prev) row))"

text \<open>\<open>Append\<close> on a table, with the identifier of the new row; \<open>None\<close> is the panic.\<close>

definition Append ::
  "codec \<Rightarrow> store \<Rightarrow> bool \<Rightarrow> string \<Rightarrow> AuditEvent \<Rightarrow> AuditEventRow list \<Rightarrow> AuditEventRow list result option" where
  "Append K S hashChain newid ev table =
     (case parse_uuid S (Ev_AggregateID ev) of
        None \<Rightarrow> Some (Err (Wrapped ''audit.append'' (BadShape ''uuid'')))
      | Some aggregateID \<Rightarrow>
          (let row = (\<lambda>prev hash.
             \<lparr>AE_ID = newid, AE_AggregateType = Ev_AggregateType ev, AE_AggregateID = aggregateID,
              AE_ActorType = Ev_ActorType ev, AE_ActorID = Ev_ActorID ev,
              AE_ActorDisplayName = toTextOpt (Ev_ActorDisplayName ev), AE_Action = Ev_Action ev,
              AE_OccurredAt = store_time S (Ev_OccurredAt ev), AE_Before = store_json S (Ev_Before ev),
              AE_After = store_json S (Ev_After ev), AE_CorrelationID = Ev_CorrelationID ev,
              AE_PrevHash = prev, AE_RowHash = hash\<rparr>)
           in if hashChain then
                map_option (\<lambda>(prev, h). Ok (table @ [row prev (Some h)])) (stampChain K table ev aggregateID)
              else Some (Ok (table @ [row None None]))))"

text \<open>\<open>ClearSignalAuditActorDisplayNames\<close>, with the number of rows changed.\<close>

definition ClearSignalAuditActorDisplayNames :: "string \<Rightarrow> AuditEventRow list \<Rightarrow> AuditEventRow list \<times> nat" where
  "ClearSignalAuditActorDisplayNames signalID table =
     (let hit = (\<lambda>r. AE_AggregateType r = ''risk_signal'' \<and> AE_AggregateID r = signalID \<and>
             AE_ActorDisplayName r \<noteq> None)
      in (map (\<lambda>r. if hit r then r\<lparr>AE_ActorDisplayName := None\<rparr> else r) table, length (filter hit table)))"

end
