(* ===== verification/AuditVerify.thy ===== *)
theory AuditVerify
  imports AuditChain
begin

text \<open>
  What the audit chain promises: the canonical bytes determine the row, the verifier accepts
  exactly the trails whose stamped rows form one chain, and the writer and the verifier agree on
  rows appended in time order.
\<close>

section \<open>Canonical bytes\<close>

lemma writeChainField_inj: "writeChainField a @ x = writeChainField b @ y \<Longrightarrow> a = b \<and> x = y"
  using lengthPrefixed_inj [of a x b y] by (simp add: lengthPrefixed_def writeChainField_def)

lemma fields_inj:
  "length xs = length ys \<Longrightarrow> concat (map writeChainField xs) = concat (map writeChainField ys) \<Longrightarrow> xs = ys"
  by (induction xs ys rule: list_induct2) (auto dest: writeChainField_inj)

lemma chain_fields_length: "chain_fields K p row = Some fs \<Longrightarrow> length fs = 11"
  by (auto simp: chain_fields_def split: option.splits)

lemma canonicalAuditRow_inj:
  "canonicalAuditRow K p row = Some b \<Longrightarrow> canonicalAuditRow K p' row' = Some b \<Longrightarrow>
     chain_fields K p row = chain_fields K p' row'"
  using fields_inj chain_fields_length by (fastforce simp: canonicalAuditRow_def)

section \<open>The loops of the verifier\<close>

abbreviation is_chained :: "AuditEventRow \<Rightarrow> bool" where
  "is_chained r \<equiv> AE_RowHash r \<noteq> None"

lemma chain_partition_spec:
  "chain_partition st rows = (st', ch) \<Longrightarrow>
     ch = filter is_chained rows \<and> CS_Rows st' = CS_Rows st \<and> CS_Chained st' = CS_Chained st \<and>
     CS_Unchained st' = CS_Unchained st + length (filter (Not \<circ> is_chained) rows)"
  by (induction rows arbitrary: st st' ch) (auto simp: Let_def split: if_splits prod.splits; fastforce)+

abbreviation prev_key :: "AuditEventRow \<Rightarrow> string" where
  "prev_key r \<equiv> textValue (AE_PrevHash r)"

definition successors :: "AuditEventRow list \<Rightarrow> string \<Rightarrow> nat list" where
  "successors ch k = filter (\<lambda>j. prev_key (ch ! j) = k) [0..<length ch]"

lemma chain_index_Inr:
  "chain_index i rows m p = Inr (m', p') \<Longrightarrow>
     distinct (map row_hash rows) \<and> (\<forall>r\<in>set rows. m (row_hash r) = None) \<and>
     dom m' = dom m \<union> row_hash ` set rows \<and>
     (\<forall>k. p' k = p k @ map ((+) i) (successors rows k))"
proof (induction i rows m p rule: chain_index.induct)
  case (1 i m p)
  then show ?case by (simp add: successors_def)
next
  case (2 i row rows m p)
  have "map ((+) (Suc i)) (successors rows k) = map ((+) i) (filter (\<lambda>j. prev_key ((row # rows) ! j) = k) [1..<Suc (length rows)])" for k
    unfolding successors_def by (simp add: map_Suc_upt [symmetric] filter_map comp_def del: map_Suc_upt upt_Suc)
  then have "map ((+) i) (successors (row # rows) k) =
      (if prev_key row = k then [i] else []) @ map ((+) (Suc i)) (successors rows k)" for k
    by (simp add: successors_def upt_conv_Cons del: upt_Suc)
  note succ = this
  let ?m = "m(row_hash row \<mapsto> i)" and ?p = "p(prev_key row := p (prev_key row) @ [i])"
  have fresh: "m (row_hash row) = None" and rest: "chain_index (Suc i) rows ?m ?p = Inr (m', p')"
    using "2.prems" by (auto simp: Let_def split: if_splits)
  have ih: "distinct (map row_hash rows)" "\<forall>r\<in>set rows. ?m (row_hash r) = None"
    "dom m' = dom ?m \<union> row_hash ` set rows" "p' k = ?p k @ map ((+) (Suc i)) (successors rows k)" for k
    using "2.IH" [OF _ refl rest] fresh by blast+
  have ne: "\<forall>r\<in>set rows. row_hash r \<noteq> row_hash row \<and> m (row_hash r) = None"
  proof
    fix r assume "r \<in> set rows"
    with ih(2) show "row_hash r \<noteq> row_hash row \<and> m (row_hash r) = None"
      by (cases "row_hash r = row_hash row") auto
  qed
  have "p' k = p k @ map ((+) i) (successors (row # rows) k)" for k
    unfolding ih(4) succ by simp
  with ih(1,3) ne fresh show ?case by (auto simp: image_iff)
qed

lemma chain_index_total:
  "distinct (map row_hash rows) \<Longrightarrow> \<forall>r\<in>set rows. m (row_hash r) = None \<Longrightarrow>
     \<exists>m' p'. chain_index i rows m p = Inr (m', p')"
proof (induction i rows m p rule: chain_index.induct)
  case (2 i row rows m p)
  have "\<forall>r\<in>set rows. row_hash r \<noteq> row_hash row" using "2.prems"(1) by (auto simp: image_iff)
  then have "\<forall>r\<in>set rows. (m(row_hash row \<mapsto> i)) (row_hash r) = None" using "2.prems"(2) by auto
  with 2 show ?case by (auto simp: Let_def simp del: fun_upd_apply)
qed simp

lemma chain_dangling_None:
  "chain_dangling m ch = None \<longleftrightarrow> (\<forall>r\<in>set ch. AE_PrevHash r \<noteq> None \<longrightarrow> prev_key r \<in> dom m)"
proof -
  have "chain_dangling m ch = None \<longleftrightarrow>
      find (\<lambda>row. AE_PrevHash row \<noteq> None \<and> m (prev_key row) = None) ch = None"
    unfolding chain_dangling_def by (simp add: option.case_eq_if)
  then show ?thesis unfolding find_None_iff by (auto simp: domIff)
qed

lemma chain_head_Some:
  "chain_head i rows (Some h) = Inr x \<longleftrightarrow> x = Some h \<and> (\<forall>r\<in>set rows. AE_PrevHash r \<noteq> None)"
  by (induction rows arbitrary: i) auto

lemma chain_head_None:
  "chain_head i rows None = Inr (Some h) \<longleftrightarrow>
     i \<le> h \<and> h < i + length rows \<and> (\<forall>j<length rows. AE_PrevHash (rows ! j) = None \<longleftrightarrow> i + j = h)"
proof (induction rows arbitrary: i)
  case (Cons r rows)
  show ?case
  proof (cases "AE_PrevHash r")
    case None
    have "(\<forall>r\<in>set rows. AE_PrevHash r \<noteq> None) \<longleftrightarrow> (\<forall>j<length rows. AE_PrevHash (rows ! j) \<noteq> None)"
      by (metis in_set_conv_nth)
    with None show ?thesis by (auto simp: chain_head_Some All_less_Suc2)
  next
    case (Some a)
    with Cons.IH [of "Suc i"] show ?thesis by (auto simp: All_less_Suc2)
  qed
qed simp

section \<open>The walk\<close>

definition hash_ok :: "codec \<Rightarrow> AuditEventRow \<Rightarrow> bool" where
  "hash_ok K r \<longleftrightarrow> auditRowHash K (prev_key r) (chainRowOf r) = Some (row_hash r)"

text \<open>The positions a successful walk passes.\<close>

fun walk_path :: "codec \<Rightarrow> AuditEventRow list \<Rightarrow> (string \<Rightarrow> nat list) \<Rightarrow> nat list \<Rightarrow> bool" where
  "walk_path K ch bp [] = False"
| "walk_path K ch bp (i # is) =
     (i < length ch \<and> hash_ok K (ch ! i) \<and>
      (case is of [] \<Rightarrow> bp (row_hash (ch ! i)) = [] | j # _ \<Rightarrow> bp (row_hash (ch ! i)) = [j] \<and> walk_path K ch bp is))"

definition marked :: "bool list \<Rightarrow> nat list \<Rightarrow> bool list" where
  "marked visited path = fold (\<lambda>i v. v[i := True]) path visited"

lemma length_marked [simp]: "length (marked visited path) = length visited"
  unfolding marked_def by (induction path arbitrary: visited) auto

lemma marked_nth: "i < length visited \<Longrightarrow> marked visited path ! i \<longleftrightarrow> visited ! i \<or> i \<in> set path"
proof (induction path arbitrary: visited)
  case (Cons a path)
  have "marked visited (a # path) = marked (visited[a := True]) path" by (simp add: marked_def)
  with Cons show ?case by (cases "a = i") (auto simp: nth_list_update)
qed (simp add: marked_def)

lemma chain_walk_path:
  "walk_path K ch bp path \<Longrightarrow> distinct path \<Longrightarrow> \<forall>i\<in>set path. \<not> visited ! i \<Longrightarrow> length visited = length ch \<Longrightarrow>
     chain_walk K ch bp visited (hd path) pos n =
       (n + length path, Inr (pos + length path - 1, marked visited path))"
proof (induction path arbitrary: visited pos n)
  case (Cons i path)
  let ?v = "visited[i := True]"
  show ?case
  proof (cases path)
    case Nil
    with Cons show ?thesis
      by (subst chain_walk.simps) (simp add: hash_ok_def marked_def Let_def)
  next
    case (Cons j path')
    have "\<forall>k\<in>set path. \<not> ?v ! k" using Cons.prems(2,3) by (metis distinct.simps(2) list.set_intros(2) nth_list_update_neq)
    then have "chain_walk K ch bp ?v (hd path) (pos + 1) (n + 1) =
        (n + 1 + length path, Inr (pos + 1 + length path - 1, marked ?v path))"
      using Cons.IH [of ?v "pos + 1" "n + 1"] Cons.prems Cons by simp
    with Cons Cons.prems show ?thesis
      by (subst chain_walk.simps) (simp add: hash_ok_def marked_def Let_def)
  qed
qed simp

lemma chain_walk_Inr:
  "chain_walk K ch bp visited cur pos n = (n', Inr r) \<Longrightarrow> length visited = length ch \<Longrightarrow>
     \<exists>path. walk_path K ch bp path \<and> hd path = cur \<and> distinct path \<and> (\<forall>i\<in>set path. \<not> visited ! i)"
proof (induction K ch bp visited cur pos n arbitrary: n' r rule: chain_walk.induct)
  case (1 K ch bp visited cur pos n)
  let ?row = "ch ! cur"
  have c: "cur < length ch" "\<not> visited ! cur" "hash_ok K ?row"
    using "1.prems" by (subst (asm) chain_walk.simps; auto simp: Let_def hash_ok_def split: if_splits option.splits)+
  show ?case
  proof (cases "bp (row_hash ?row)")
    case Nil
    with c show ?thesis by (intro exI [of _ "[cur]"]) simp
  next
    case (Cons j js)
    then have js: "js = []" "chain_walk K ch bp (visited[cur := True]) j (pos + 1) (n + 1) = (n', Inr r)"
      using "1.prems" c by (subst (asm) chain_walk.simps; auto simp: Let_def hash_ok_def split: if_splits list.splits)+
    obtain path where p: "walk_path K ch bp path" "hd path = j" "distinct path" "\<forall>i\<in>set path. \<not> visited[cur := True] ! i"
      using "1.IH" [OF _ c(2) refl refl c(3) [unfolded hash_ok_def] _ Cons js(1) js(2)] c(1) "1.prems"(2) by auto
    have "cur \<notin> set path" using p(4) c(1) "1.prems"(2) by auto
    moreover have "\<forall>i\<in>set path. \<not> visited ! i"
      using p(4) \<open>cur \<notin> set path\<close> by (metis nth_list_update_neq)
    ultimately show ?thesis using p c Cons js(1)
      by (intro exI [of _ "cur # path"]) (cases path; auto)
  qed
qed

section \<open>Chains\<close>

text \<open>
  The specification: rows that each carry their own hash and link to the one before, the first to
  none, with pairwise different hashes.
\<close>

fun linked :: "codec \<Rightarrow> string option \<Rightarrow> AuditEventRow list \<Rightarrow> bool" where
  "linked K prev [] = True"
| "linked K prev (r # rs) = (AE_PrevHash r = prev \<and> hash_ok K r \<and> linked K (Some (row_hash r)) rs)"

definition chain_ok :: "codec \<Rightarrow> AuditEventRow list \<Rightarrow> bool" where
  "chain_ok K cs \<longleftrightarrow> linked K None cs \<and> distinct (map row_hash cs) \<and> '''' \<notin> row_hash ` set cs"

lemma linked_nth:
  "linked K prev cs \<longleftrightarrow> (\<forall>j<length cs. hash_ok K (cs ! j) \<and>
     AE_PrevHash (cs ! j) = (if j = 0 then prev else Some (row_hash (cs ! (j - 1)))))"
  by (induction cs arbitrary: prev) (auto simp: All_less_Suc2 nth_Cons')

lemma walk_path_nth:
  "walk_path K ch bp path \<longleftrightarrow> path \<noteq> [] \<and> (\<forall>j<length path. path ! j < length ch \<and> hash_ok K (ch ! (path ! j)) \<and>
     bp (row_hash (ch ! (path ! j))) = (if Suc j < length path then [path ! Suc j] else []))"
proof (induction path)
  case (Cons i path)
  then show ?case by (cases path) (auto simp: All_less_Suc2)
qed simp

text \<open>A rearrangement of distinct rows is given by their positions.\<close>

lemma rearranged_positions:
  assumes "mset cs = mset ch" "distinct ch"
  shows "\<exists>path. distinct path \<and> set path = {..<length ch} \<and> cs = map ((!) ch) path"
proof -
  define pos where "pos = (\<lambda>r. THE i. i < length ch \<and> ch ! i = r)"
  have pos: "pos r < length ch \<and> ch ! pos r = r" if "r \<in> set ch" for r
  proof -
    obtain i where "i < length ch" "ch ! i = r" using \<open>r \<in> set ch\<close> by (auto simp: in_set_conv_nth)
    then have "\<exists>!i. i < length ch \<and> ch ! i = r" using nth_eq_iff_index_eq [OF assms(2)] by (intro ex1I [of _ i]) auto
    then show ?thesis unfolding pos_def by (rule theI')
  qed
  have s: "set cs = set ch" using assms(1) by (rule mset_eq_setD)
  have d: "distinct cs" using assms mset_eq_imp_distinct_iff by blast
  have "map ((!) ch \<circ> pos) cs = cs" using pos s by (intro map_idI) auto
  then have "cs = map ((!) ch) (map pos cs)" by simp
  moreover have dp: "distinct (map pos cs)"
    unfolding distinct_map
  proof (intro conjI d inj_onI)
    fix x y assume xy: "x \<in> set cs" "y \<in> set cs" "pos x = pos y"
    have "x \<in> set ch" "y \<in> set ch" using xy(1,2) unfolding s .
    then have "ch ! pos x = x" "ch ! pos y = y" using pos by blast+
    then show "x = y" unfolding xy(3) by (rule box_equals [OF refl])
  qed
  moreover have "set (map pos cs) = {..<length ch}"
  proof (rule card_subset_eq)
    show "set (map pos cs) \<subseteq> {..<length ch}" using pos s by auto
    show "card (set (map pos cs)) = card {..<length ch}"
      using distinct_card [OF dp] mset_eq_length [OF assms(1)] by simp
  qed simp
  ultimately show ?thesis by blast
qed

text \<open>The same chain, over the positions: each row but the first links to the one before it.\<close>

definition chain_path :: "codec \<Rightarrow> AuditEventRow list \<Rightarrow> nat list \<Rightarrow> bool" where
  "chain_path K ch path \<longleftrightarrow> distinct path \<and> set path = {..<length ch} \<and>
     (\<forall>j<length path. hash_ok K (ch ! (path ! j)) \<and>
        AE_PrevHash (ch ! (path ! j)) = (if j = 0 then None else Some (row_hash (ch ! (path ! (j - 1)))))) \<and>
     distinct (map row_hash ch) \<and> '''' \<notin> row_hash ` set ch"

lemma chain_path_exists:
  "(\<exists>cs. mset cs = mset ch \<and> chain_ok K cs) \<longleftrightarrow> (\<exists>path. chain_path K ch path)"
proof
  assume "\<exists>cs. mset cs = mset ch \<and> chain_ok K cs"
  then obtain cs where cs: "mset cs = mset ch" "chain_ok K cs" by blast
  have s: "set cs = set ch" using cs(1) by (rule mset_eq_setD)
  have d: "distinct (map row_hash ch)"
    using cs mset_eq_imp_distinct_iff [of "map row_hash cs" "map row_hash ch"] by (simp add: chain_ok_def)
  then obtain path where p: "distinct path" "set path = {..<length ch}" "cs = map ((!) ch) path"
    using rearranged_positions [OF cs(1)] distinct_map by blast
  have "chain_path K ch path"
    using cs(2) s d p(1,2) unfolding chain_ok_def linked_nth chain_path_def p(3) by auto
  then show "\<exists>path. chain_path K ch path" by blast
next
  assume "\<exists>path. chain_path K ch path"
  then obtain path where p: "chain_path K ch path" by blast
  let ?cs = "map ((!) ch) path"
  have lt: "j < length path \<Longrightarrow> path ! j < length ch" for j
    using p nth_mem [of j path] unfolding chain_path_def by auto
  have "mset path = mset [0..<length ch]"
    using p by (intro iffD1 [OF set_eq_iff_mset_eq_distinct]) (auto simp: chain_path_def)
  then have "mset ?cs = mset (map ((!) ch) [0..<length ch])" by (metis mset_map)
  then have m: "mset ?cs = mset ch" by (simp add: map_nth)
  then have "set ?cs = set ch" by (rule mset_eq_setD)
  moreover have "distinct (map row_hash ?cs)"
  proof -
    have "mset (map row_hash ?cs) = mset (map row_hash ch)" by (simp only: mset_map [of row_hash] m)
    then show ?thesis using p mset_eq_imp_distinct_iff unfolding chain_path_def by blast
  qed
  moreover have "linked K None ?cs" using p lt unfolding linked_nth chain_path_def by auto
  ultimately have "chain_ok K ?cs" using p unfolding chain_ok_def chain_path_def by auto
  with m show "\<exists>cs. mset cs = mset ch \<and> chain_ok K cs" by blast
qed

lemma chain_path_lt: "chain_path K ch path \<Longrightarrow> j < length path \<Longrightarrow> path ! j < length ch"
  using nth_mem [of j path] by (auto simp: chain_path_def)

lemma chain_path_at:
  assumes "chain_path K ch path" "i < length ch"
  obtains j where "j < length path" "path ! j = i"
proof -
  have "set path = {..<length ch}" using assms(1) unfolding chain_path_def by blast
  with assms(2) have "i \<in> set path" by simp
  then obtain j where "j < length path" "path ! j = i" unfolding in_set_conv_nth by blast
  then show thesis by (rule that)
qed

lemma singleton_filter:
  assumes "distinct xs" "x \<in> set xs" "P x" "\<And>y. y \<in> set xs \<Longrightarrow> P y \<Longrightarrow> y = x"
  shows "filter P xs = [x]"
proof -
  obtain ys zs where xs: "xs = ys @ x # zs" using assms(2) by (auto simp: in_set_conv_decomp)
  then have "x \<notin> set ys \<union> set zs" using assms(1) by auto
  then have "\<forall>y\<in>set ys \<union> set zs. \<not> P y" using assms(4) unfolding xs by auto
  then have "filter P ys = []" "filter P zs = []" by (auto simp: filter_empty_conv)
  then show ?thesis using assms(3) by (simp add: xs)
qed

lemma chain_path_successors:
  assumes p: "chain_path K ch path" and j: "j < length path"
  shows "successors ch (row_hash (ch ! (path ! j))) = (if Suc j < length path then [path ! Suc j] else [])"
proof -
  let ?h = "row_hash (ch ! (path ! j))"
  have links: "k < length path \<Longrightarrow> AE_PrevHash (ch ! (path ! k)) =
      (if k = 0 then None else Some (row_hash (ch ! (path ! (k - 1)))))" for k
    using p by (simp add: chain_path_def)
  have ne: "?h \<noteq> ''''" using p nth_mem [OF chain_path_lt [OF p j]] unfolding chain_path_def by (metis image_eqI)
  have key: "prev_key (ch ! (path ! k)) = ?h \<longleftrightarrow> k = Suc j" if k: "k < length path" for k
  proof (cases k)
    case 0
    with links [OF k] ne show ?thesis by (simp add: textValue_def)
  next
    case (Suc k')
    then have "prev_key (ch ! (path ! k)) = row_hash (ch ! (path ! k'))" using links [OF k] by (simp add: textValue_def)
    moreover have "k' < length path" using Suc k by simp
    note k' = this chain_path_lt [OF p this]
    have "distinct (map row_hash ch)" "distinct path" using p by (simp_all add: chain_path_def)
    then have "row_hash (ch ! (path ! k')) = ?h \<longleftrightarrow> path ! k' = path ! j" "path ! k' = path ! j \<longleftrightarrow> k' = j"
      using nth_eq_iff_index_eq [of "map row_hash ch" "path ! k'" "path ! j"] k' chain_path_lt [OF p j] j
      by (simp_all add: nth_eq_iff_index_eq)
    ultimately show ?thesis using Suc by simp
  qed
  show ?thesis
  proof (cases "Suc j < length path")
    case True
    have "filter (\<lambda>i. prev_key (ch ! i) = ?h) [0..<length ch] = [path ! Suc j]"
    proof (rule singleton_filter)
      fix i assume "i \<in> set [0..<length ch]" and i: "prev_key (ch ! i) = ?h"
      then obtain k where "k < length path" "path ! k = i" using chain_path_at [OF p, of i] by auto
      with key i show "i = path ! Suc j" by blast
    qed (use True key chain_path_lt [OF p True] in auto)
    with True show ?thesis by (simp add: successors_def)
  next
    case False
    have "prev_key (ch ! i) \<noteq> ?h" if "i < length ch" for i
    proof
      assume i: "prev_key (ch ! i) = ?h"
      obtain k where "k < length path" "path ! k = i" using chain_path_at [OF p \<open>i < length ch\<close>] .
      with key i False show False by auto
    qed
    with False show ?thesis by (simp add: successors_def filter_empty_conv)
  qed
qed

lemma chain_path_walk:
  assumes "chain_path K ch path" "ch \<noteq> []"
  shows "walk_path K ch (successors ch) path"
proof -
  have "path \<noteq> []" using assms by (auto simp: chain_path_def)
  then show ?thesis unfolding walk_path_nth
    using chain_path_lt [OF assms(1)] chain_path_successors [OF assms(1)] assms(1) by (simp add: chain_path_def)
qed

lemma find_upt_None: "find (\<lambda>i. \<not> v ! i) [0..<n] = None \<longleftrightarrow> (\<forall>i<n. v ! i)"
  unfolding find_None_iff by auto

text \<open>The verifier on the chained rows, once the partition is done.\<close>

lemma verify_rows_eq:
  assumes "chain_partition \<lparr>CS_Rows = length rows, CS_Chained = 0, CS_Unchained = 0, CS_FirstChainedAt = 0,
      CS_LastChainedAt = 0\<rparr> rows = (st, ch)"
  shows "snd (verify_rows K rows) = None \<longleftrightarrow> ch = [] \<or>
    (\<exists>m p h n pos v. chain_index 0 ch Map.empty (\<lambda>_. []) = Inr (m, p) \<and> chain_dangling m ch = None \<and>
       chain_head 0 ch None = Inr (Some h) \<and>
       chain_walk K ch p (replicate (length ch) False) h 0 0 = (n, Inr (pos, v)) \<and> (\<forall>i<length ch. v ! i))"
  unfolding verify_rows_def Let_def assms find_upt_None [symmetric]
  by (auto split: sum.splits prod.splits option.splits)

lemma verify_if_path:
  assumes p: "chain_path K ch path" and ne: "ch \<noteq> []"
  shows "\<exists>m h n pos v. chain_index 0 ch Map.empty (\<lambda>_. []) = Inr (m, successors ch) \<and> chain_dangling m ch = None \<and>
     chain_head 0 ch None = Inr (Some h) \<and>
     chain_walk K ch (successors ch) (replicate (length ch) False) h 0 0 = (n, Inr (pos, v)) \<and> (\<forall>i<length ch. v ! i) \<and>
     n = length ch"
proof -
  obtain m bp where mb: "chain_index 0 ch Map.empty (\<lambda>_. []) = Inr (m, bp)"
    using chain_index_total [of ch Map.empty 0 "\<lambda>_. []"] p by (auto simp: chain_path_def)
  have dm: "dom m = row_hash ` set ch" and bp: "bp = successors ch"
    using chain_index_Inr [OF mb] by (simp_all add: fun_eq_iff map_idI)
  have links: "k < length path \<Longrightarrow> AE_PrevHash (ch ! (path ! k)) =
      (if k = 0 then None else Some (row_hash (ch ! (path ! (k - 1)))))" for k
    using p by (simp add: chain_path_def)
  have pne: "0 < length path" using ne p by (auto simp: chain_path_def)
  have "chain_dangling m ch = None"
    unfolding chain_dangling_None dm
  proof (intro ballI impI)
    fix r assume "r \<in> set ch" and r: "AE_PrevHash r \<noteq> None"
    then obtain i where "i < length ch" "ch ! i = r" by (auto simp: in_set_conv_nth)
    then obtain k where k: "k < length path" "ch ! (path ! k) = r" using chain_path_at [OF p] by metis
    with r links [OF k(1)] have "k \<noteq> 0" "prev_key r = row_hash (ch ! (path ! (k - 1)))"
      by (auto simp: textValue_def split: if_splits)
    moreover have "ch ! (path ! (k - 1)) \<in> set ch" using chain_path_lt [OF p, of "k - 1"] k(1) by simp
    ultimately show "prev_key r \<in> row_hash ` set ch" by blast
  qed
  moreover have "chain_head 0 ch None = Inr (Some (hd path))"
    unfolding chain_head_None
  proof (intro conjI allI impI)
    show "hd path < 0 + length ch" using chain_path_lt [OF p pne] pne by (simp add: hd_conv_nth)
    fix i assume i: "i < length ch"
    then obtain k where k: "k < length path" "path ! k = i" using chain_path_at [OF p] by metis
    have "path ! k = path ! 0 \<longleftrightarrow> k = 0" using p k(1) pne by (simp add: chain_path_def nth_eq_iff_index_eq)
    then show "(AE_PrevHash (ch ! i) = None) = (0 + i = hd path)"
      using links [OF k(1)] k pne by (auto simp: hd_conv_nth split: if_splits)
  qed simp
  moreover have "chain_walk K ch (successors ch) (replicate (length ch) False) (hd path) 0 0 =
      (0 + length path, Inr (0 + length path - 1, marked (replicate (length ch) False) path))"
    using p by (intro chain_walk_path chain_path_walk ne) (auto simp: chain_path_def)
  moreover have "\<forall>i<length ch. marked (replicate (length ch) False) path ! i"
    using p by (simp add: marked_nth chain_path_def)
  moreover have "length path = length ch"
    using p distinct_card [of path] by (auto simp: chain_path_def)
  ultimately show ?thesis using mb bp by auto
qed

lemma path_if_verify:
  assumes idx: "chain_index 0 ch Map.empty (\<lambda>_. []) = Inr (m, p)" and dang: "chain_dangling m ch = None"
    and head: "chain_head 0 ch None = Inr (Some h)"
    and walk: "chain_walk K ch p (replicate (length ch) False) h 0 0 = (n, Inr (pos, v))"
    and all: "\<forall>i<length ch. v ! i"
  shows "\<exists>path. chain_path K ch path"
proof -
  have dist: "distinct (map row_hash ch)" and bp: "p = successors ch"
    using chain_index_Inr [OF idx] by (simp_all add: fun_eq_iff map_idI)
  have none: "i < length ch \<Longrightarrow> AE_PrevHash (ch ! i) = None \<longleftrightarrow> i = h" and h: "h < length ch" for i
    using head unfolding chain_head_None by simp_all
  obtain path where path: "walk_path K ch p path" "hd path = h" "distinct path"
    using chain_walk_Inr [OF walk] by auto
  have "chain_walk K ch p (replicate (length ch) False) (hd path) 0 0 =
      (0 + length path, Inr (0 + length path - 1, marked (replicate (length ch) False) path))"
    using path walk_path_nth [of K ch p path]
    by (intro chain_walk_path) (auto simp: in_set_conv_nth)
  then have v: "v = marked (replicate (length ch) False) path" using walk path(2) by simp
  have w: "path \<noteq> []" "j < length path \<Longrightarrow> path ! j < length ch \<and> hash_ok K (ch ! (path ! j)) \<and>
      successors ch (row_hash (ch ! (path ! j))) = (if Suc j < length path then [path ! Suc j] else [])" for j
    using path(1) unfolding walk_path_nth bp by blast+
  have set: "set path = {..<length ch}"
  proof
    show "set path \<subseteq> {..<length ch}" using w(2) by (auto simp: in_set_conv_nth)
    show "{..<length ch} \<subseteq> set path" using all unfolding v by (auto simp: marked_nth)
  qed
  have p0: "path ! 0 = h" using path(2) w(1) by (simp add: hd_conv_nth)
  have first: "path ! j = h \<longleftrightarrow> j = 0" if "j < length path" for j
    using nth_eq_iff_index_eq [OF path(3) that, of 0] w(1) p0 by simp
  have link: "AE_PrevHash (ch ! (path ! j)) = (if j = 0 then None else Some (row_hash (ch ! (path ! (j - 1)))))"
    if j: "j < length path" for j
  proof (cases j)
    case 0
    then show ?thesis using none [OF h] p0 by simp
  next
    case (Suc k)
    then have "path ! j \<in> set (successors ch (row_hash (ch ! (path ! k))))" using w(2) [of k] j by simp
    then have "prev_key (ch ! (path ! j)) = row_hash (ch ! (path ! k))" by (simp add: successors_def)
    moreover have "AE_PrevHash (ch ! (path ! j)) \<noteq> None" using none w(2) [OF j] first [OF j] Suc by simp
    ultimately show ?thesis using Suc by (auto simp: textValue_def)
  qed
  have "'''' \<notin> row_hash ` set ch"
  proof
    assume "'''' \<in> row_hash ` set ch"
    then obtain i where i: "i < length ch" "row_hash (ch ! i) = ''''" by (auto simp: in_set_conv_nth)
    then have "i \<in> set path" using set by simp
    then obtain j where j: "j < length path" "path ! j = i" unfolding in_set_conv_nth by blast
    have "h \<in> set (successors ch '''')" using h none [OF h] by (simp add: successors_def textValue_def)
    then have "Suc j < length path" "path ! Suc j = h" using w(2) [OF j(1)] i j by (auto split: if_splits)
    then show False using first [of "Suc j"] by simp
  qed
  then have "chain_path K ch path"
    unfolding chain_path_def using path(3) set w(2) link dist by blast
  then show ?thesis by blast
qed

section \<open>Properties\<close>

text \<open>The canonical bytes of an audit row determine it: two rows with the same bytes have the same
  previous hash and agree in every field, the snapshots up to the canonical JSON form and the
  instant up to its text in microseconds; no field can be moved into its neighbour.\<close>

theorem canonical_row_determines:
  assumes "canonicalAuditRow K prev row = Some b" "canonicalAuditRow K prev' row' = Some b"
  shows "prev = prev' \<and> ACR_AggregateType row = ACR_AggregateType row' \<and> ACR_AggregateID row = ACR_AggregateID row' \<and>
    ACR_ActorType row = ACR_ActorType row' \<and> ACR_ActorID row = ACR_ActorID row' \<and>
    ACR_ActorDisplayName row = ACR_ActorDisplayName row' \<and> ACR_Action row = ACR_Action row' \<and>
    rfc3339 K (ACR_OccurredAt row - ACR_OccurredAt row mod time_Microsecond) =
      rfc3339 K (ACR_OccurredAt row' - ACR_OccurredAt row' mod time_Microsecond) \<and>
    canonicalJSON K (ACR_Before row) = canonicalJSON K (ACR_Before row') \<and>
    canonicalJSON K (ACR_After row) = canonicalJSON K (ACR_After row') \<and>
    ACR_CorrelationID row = ACR_CorrelationID row'"
proof -
  have "chain_fields K prev row = chain_fields K prev' row'" "chain_fields K prev row \<noteq> None"
    using canonicalAuditRow_inj [OF assms] assms(1) by (auto simp: canonicalAuditRow_def)
  then show ?thesis by (auto simp: chain_fields_def split: option.splits)
qed

text \<open>A codec for examples: it hashes to the capital letters.\<close>

definition ex_codec :: codec where
  "ex_codec = \<lparr>sha256_hex = filter is_upper, rfc3339 = (\<lambda>_. ''t''), json_decode = (\<lambda>_. None), json_marshal = (\<lambda>_. None)\<rparr>"

definition ex_event :: "string \<Rightarrow> time \<Rightarrow> AuditEvent" where
  "ex_event actor t = \<lparr>Ev_AggregateType = ''risk_signal'', Ev_AggregateID = ''s1'', Ev_ActorType = ''user'',
     Ev_ActorID = ''u1'', Ev_ActorDisplayName = actor, Ev_Action = ''signal.created'', Ev_OccurredAt = t,
     Ev_Before = '''', Ev_After = ''{}'', Ev_CorrelationID = ''c1''\<rparr>"

definition ex_store :: store where
  "ex_store = \<lparr>store_json = (\<lambda>s. s), store_time = (\<lambda>t. t), parse_uuid = Some\<rparr>"

definition ex_chain_row :: "string \<Rightarrow> auditChainRow" where
  "ex_chain_row actor = \<lparr>ACR_AggregateType = ''risk_signal'', ACR_AggregateID = ''s1'', ACR_ActorType = ''user'',
     ACR_ActorID = ''u1'', ACR_ActorDisplayName = actor, ACR_Action = ''a'', ACR_OccurredAt = 5000,
     ACR_Before = '''', ACR_After = ''{}'', ACR_CorrelationID = ''c''\<rparr>"

theorem canonical_row_determines_witness:
  "canonicalAuditRow ex_codec '''' (ex_chain_row ''Ann'') \<noteq> canonicalAuditRow ex_codec '''' (ex_chain_row ''Bob'')"
proof
  assume e: "canonicalAuditRow ex_codec '''' (ex_chain_row ''Ann'') = canonicalAuditRow ex_codec '''' (ex_chain_row ''Bob'')"
  have "canonicalAuditRow ex_codec '''' (ex_chain_row ''Ann'') \<noteq> None" by code_simp
  then obtain b where "canonicalAuditRow ex_codec '''' (ex_chain_row ''Ann'') = Some b" by blast
  with canonical_row_determines [OF this, of "''''" "ex_chain_row ''Bob''"] e show False
    by (simp add: ex_chain_row_def)
qed

lemma verify_rows_iff:
  "snd (verify_rows K rows) = None \<longleftrightarrow> (\<exists>cs. mset cs = mset (filter is_chained rows) \<and> chain_ok K cs)"
proof -
  obtain st ch where part: "chain_partition \<lparr>CS_Rows = length rows, CS_Chained = 0, CS_Unchained = 0, CS_FirstChainedAt = 0,
      CS_LastChainedAt = 0\<rparr> rows = (st, ch)" by (cases "chain_partition \<lparr>CS_Rows = length rows, CS_Chained = 0,
      CS_Unchained = 0, CS_FirstChainedAt = 0, CS_LastChainedAt = 0\<rparr> rows")
  have ch: "ch = filter is_chained rows" using chain_partition_spec [OF part] by simp
  show ?thesis
  proof (cases "ch = []")
    case True
    then have "chain_ok K [] \<and> mset [] = mset ch" by (simp add: chain_ok_def)
    with True show ?thesis unfolding verify_rows_eq [OF part] ch [symmetric] by blast
  next
    case False
    have "(\<exists>m p h n pos v. chain_index 0 ch Map.empty (\<lambda>_. []) = Inr (m, p) \<and> chain_dangling m ch = None \<and>
       chain_head 0 ch None = Inr (Some h) \<and>
       chain_walk K ch p (replicate (length ch) False) h 0 0 = (n, Inr (pos, v)) \<and> (\<forall>i<length ch. v ! i)) \<longleftrightarrow>
       (\<exists>path. chain_path K ch path)" (is "?L \<longleftrightarrow> ?R")
    proof
      assume ?L
      then show ?R by (elim exE conjE) (rule path_if_verify)
    next
      assume ?R
      then obtain path where "chain_path K ch path" ..
      from verify_if_path [OF this False] show ?L by (elim exE conjE) (intro exI conjI)
    qed
    with False show ?thesis unfolding verify_rows_eq [OF part] ch [symmetric] chain_path_exists by blast
  qed
qed

text \<open>C8: The verifier accepts a trail exactly when its stamped rows, in some order, form one chain: the first
  links to nothing and each other row to the hash of the row before it, every stored hash is the
  recomputed one, and the hashes are non-empty and pairwise different. The order in which the
  rows are read does not matter, and rows without a stamp are ignored.\<close>

theorem verify_chain_iff:
  "snd (verify_rows K rows) = None \<longleftrightarrow> (\<exists>cs. mset cs = mset (filter is_chained rows) \<and> chain_ok K cs)"
  by (rule verify_rows_iff)

lemma chain_rows_distinct:
  "snd (verify_rows K rows) = None \<Longrightarrow> distinct (map row_hash (filter is_chained rows))"
  unfolding verify_rows_iff chain_path_exists chain_path_def by blast

lemma verified_hash:
  assumes "snd (verify_rows K rows) = None" "r \<in> set rows" "is_chained r"
  shows "hash_ok K r" "AE_PrevHash r = None \<or> (\<exists>s\<in>set rows. is_chained s \<and> s \<noteq> r \<and> AE_PrevHash r = AE_RowHash s)"
proof -
  obtain cs where cs: "mset cs = mset (filter is_chained rows)" "chain_ok K cs"
    using assms(1) verify_rows_iff by blast
  have set: "set cs = {s \<in> set rows. is_chained s}" using mset_eq_setD [OF cs(1)] by auto
  then obtain j where j: "j < length cs" "cs ! j = r" using assms(2,3) by (metis (mono_tags, lifting) in_set_conv_nth mem_Collect_eq)
  have l: "hash_ok K (cs ! j)" "AE_PrevHash (cs ! j) = (if j = 0 then None else Some (row_hash (cs ! (j - 1))))"
    using cs(2) j(1) unfolding chain_ok_def linked_nth by blast+
  then show "hash_ok K r" using j by simp
  show "AE_PrevHash r = None \<or> (\<exists>s\<in>set rows. is_chained s \<and> s \<noteq> r \<and> AE_PrevHash r = AE_RowHash s)"
  proof (cases "j = 0")
    case False
    let ?s = "cs ! (j - 1)"
    have "?s \<in> set cs" using j by simp
    then have s: "?s \<in> set rows" "is_chained ?s" using set by auto
    have "distinct cs" using cs(2) by (simp add: chain_ok_def distinct_map)
    then have "?s \<noteq> r" using j False nth_eq_iff_index_eq [of cs "j - 1" j] by auto
    moreover have "AE_PrevHash r = AE_RowHash ?s" using l(2) False j(2) s(2) by (auto simp: textValue_def)
    ultimately show ?thesis using s by blast
  qed (use l j in simp)
qed

text \<open>C30: Editing is detected. If a trail verifies and what became of it verifies too, then every row that
  kept its stored hash kept its previous hash and its content, unless two different canonical
  byte strings with that very hash are at hand.\<close>

theorem edit_is_detected:
  assumes "snd (verify_rows K rows) = None" "snd (verify_rows K rows') = None"
    and "r \<in> set rows" "r' \<in> set rows'" "AE_RowHash r = Some h" "AE_RowHash r' = Some h"
  shows "chain_fields K (prev_key r) (chainRowOf r) = chain_fields K (prev_key r') (chainRowOf r') \<or>
      (\<exists>b b'. canonicalAuditRow K (prev_key r) (chainRowOf r) = Some b \<and>
         canonicalAuditRow K (prev_key r') (chainRowOf r') = Some b' \<and> b \<noteq> b' \<and> sha256_hex K b = sha256_hex K b')"
proof -
  have "hash_ok K r" "hash_ok K r'"
    using verified_hash(1) [OF assms(1,3)] verified_hash(1) [OF assms(2,4)] assms by simp_all
  then obtain b b' where "canonicalAuditRow K (prev_key r) (chainRowOf r) = Some b"
    "canonicalAuditRow K (prev_key r') (chainRowOf r') = Some b'" "sha256_hex K b = sha256_hex K b'"
    using assms by (auto simp: hash_ok_def auditRowHash_def)
  then show ?thesis using canonicalAuditRow_inj by metis
qed

text \<open>C31: Removal is detected: taking a row that another one links to out of a verified trail never
  leaves a verified trail. Only the last row can go unnoticed.\<close>

theorem removal_is_detected:
  assumes "snd (verify_rows K (xs @ d # ys)) = None" "is_chained d"
    and "s \<in> set (xs @ d # ys)" "is_chained s" "AE_PrevHash s = AE_RowHash d"
  shows "snd (verify_rows K (xs @ ys)) \<noteq> None"
proof
  assume v: "snd (verify_rows K (xs @ ys)) = None"
  have linked_to: "\<exists>t\<in>set ts. is_chained t \<and> t \<noteq> s \<and> AE_RowHash t = AE_RowHash d"
    if "snd (verify_rows K ts) = None" "s \<in> set ts" for ts
    using verified_hash(2) [OF that assms(4)] assms(2,5) by auto
  have dist: "distinct (map row_hash (filter is_chained (xs @ d # ys)))" by (rule chain_rows_distinct [OF assms(1)])
  have other: "AE_RowHash t \<noteq> AE_RowHash d" if "t \<in> set (xs @ ys)" "is_chained t" for t
    using dist that assms(2) by (auto simp: image_iff)
  have "s \<noteq> d" using linked_to [OF assms(1,3)] other by fastforce
  then have "s \<in> set (xs @ ys)" using assms(3) by auto
  then obtain t where "t \<in> set (xs @ ys)" "is_chained t" "AE_RowHash t = AE_RowHash d"
    using linked_to [OF v] by blast
  with other show False by blast
qed

section \<open>The writer\<close>

text \<open>A run of appends, each with the identifier of its row.\<close>

fun append_all :: "codec \<Rightarrow> store \<Rightarrow> (string \<times> AuditEvent) list \<Rightarrow> AuditEventRow list \<Rightarrow> AuditEventRow list result option" where
  "append_all K S [] table = Some (Ok table)"
| "append_all K S ((i, ev) # es) table =
     (case Append K S True i ev table of
        Some (Inr table') \<Rightarrow> append_all K S es table'
      | r \<Rightarrow> r)"

text \<open>What the database must keep: the canonical form of a snapshot, and the microseconds.\<close>

definition store_faithful :: "codec \<Rightarrow> store \<Rightarrow> bool" where
  "store_faithful K S \<longleftrightarrow> (\<forall>s. canonicalJSON K (store_json S s) = canonicalJSON K s) \<and>
     (\<forall>t. store_time S t - store_time S t mod time_Microsecond = t - t mod time_Microsecond)"

abbreviation row_times :: "AuditEventRow list \<Rightarrow> time list" where
  "row_times table \<equiv> map AE_OccurredAt table"

lemma linked_snoc:
  "linked K p (cs @ [r]) \<longleftrightarrow>
     linked K p cs \<and> hash_ok K r \<and> AE_PrevHash r = (if cs = [] then p else Some (row_hash (last cs)))"
  by (induction cs arbitrary: p) auto

lemma fold_latest:
  "sorted_wrt (<) (row_times (r # rs)) \<Longrightarrow>
     fold (\<lambda>s latest. if row_after s latest then s else latest) rs r = last (r # rs)"
  by (induction rs arbitrary: r) (auto simp: row_after_def)

lemma LatestAuditHash_last:
  "sorted_wrt (<) (row_times table) \<Longrightarrow> \<forall>r\<in>set table. is_chained r \<Longrightarrow> table \<noteq> [] \<Longrightarrow>
     LatestAuditHash table = AE_RowHash (last table)"
  by (cases table) (auto simp: LatestAuditHash_def fold_latest filter_id_conv simp del: fold_simps last.simps)

lemma Append_row:
  assumes "Append K S True i ev table = Some (Ok table')" "store_faithful K S"
  obtains row where "table' = table @ [row]" "AE_OccurredAt row = store_time S (Ev_OccurredAt ev)" "is_chained row"
    "AE_PrevHash row = LatestAuditHash table" "hash_ok K row"
proof -
  obtain aid h where a: "parse_uuid S (Ev_AggregateID ev) = Some aid"
    and h: "stampChain K table ev aid = Some (LatestAuditHash table, h)"
    using assms(1) by (auto simp: Append_def stampChain_def Let_def split: option.splits)
  let ?row = "\<lparr>AE_ID = i, AE_AggregateType = Ev_AggregateType ev, AE_AggregateID = aid,
              AE_ActorType = Ev_ActorType ev, AE_ActorID = Ev_ActorID ev,
              AE_ActorDisplayName = toTextOpt (Ev_ActorDisplayName ev), AE_Action = Ev_Action ev,
              AE_OccurredAt = store_time S (Ev_OccurredAt ev), AE_Before = store_json S (Ev_Before ev),
              AE_After = store_json S (Ev_After ev), AE_CorrelationID = Ev_CorrelationID ev,
              AE_PrevHash = LatestAuditHash table, AE_RowHash = Some h\<rparr>"
  have "table' = table @ [?row]" using assms(1) a h by (simp add: Append_def Let_def)
  moreover have "hash_ok K ?row"
  proof -
    let ?w = "\<lparr>ACR_AggregateType = Ev_AggregateType ev, ACR_AggregateID = aid,
             ACR_ActorType = Ev_ActorType ev, ACR_ActorID = Ev_ActorID ev,
             ACR_ActorDisplayName = Ev_ActorDisplayName ev, ACR_Action = Ev_Action ev,
             ACR_OccurredAt = Ev_OccurredAt ev, ACR_Before = Ev_Before ev, ACR_After = Ev_After ev,
             ACR_CorrelationID = Ev_CorrelationID ev\<rparr>"
    have n: "textValue (toTextOpt s) = s" for s by (simp add: textValue_def toTextOpt_def)
    have f: "canonicalJSON K (store_json S s) = canonicalJSON K s"
      "store_time S t - store_time S t mod time_Microsecond = t - t mod time_Microsecond" for s t
      using assms(2) unfolding store_faithful_def by blast+
    have "chain_fields K p (chainRowOf ?row) = chain_fields K p ?w" for p
      unfolding chain_fields_def chainRowOf_def auditChainRow.simps AuditEventRow.simps n f by (rule refl)
    then have "auditRowHash K p (chainRowOf ?row) = auditRowHash K p ?w" for p
      by (simp only: auditRowHash_def canonicalAuditRow_def)
    moreover have "auditRowHash K (textValue (LatestAuditHash table)) ?w = Some h"
      using h by (simp add: stampChain_def Let_def)
    ultimately show ?thesis by (simp add: hash_ok_def textValue_def [of "Some h"])
  qed
  ultimately show thesis by (intro that [of ?row]) simp_all
qed

lemma append_all_linked:
  assumes "store_faithful K S"
  shows "append_all K S es table = Some (Ok table') \<Longrightarrow> linked K None table \<Longrightarrow> \<forall>r\<in>set table. is_chained r \<Longrightarrow>
    sorted_wrt (<) (row_times table @ map (\<lambda>(i, ev). store_time S (Ev_OccurredAt ev)) es) \<Longrightarrow>
    linked K None table' \<and> (\<forall>r\<in>set table'. is_chained r)"
proof (induction es arbitrary: table)
  case (Cons e es)
  obtain i ev where e: "e = (i, ev)" by (cases e)
  obtain t1 where t1: "Append K S True i ev table = Some (Ok t1)" "append_all K S es t1 = Some (Ok table')"
    using Cons.prems(1) e by (auto split: option.splits sum.splits)
  obtain row where row: "t1 = table @ [row]" "AE_OccurredAt row = store_time S (Ev_OccurredAt ev)" "is_chained row"
    "AE_PrevHash row = LatestAuditHash table" "hash_ok K row"
    using Append_row [OF t1(1) assms] .
  have sorted: "sorted_wrt (<) (row_times t1 @ map (\<lambda>(i, ev). store_time S (Ev_OccurredAt ev)) es)"
    using Cons.prems(4) e row(1,2) by simp
  have "AE_PrevHash row = (if table = [] then None else Some (row_hash (last table)))"
  proof (cases "table = []")
    case True
    then show ?thesis using row(4) by (simp add: LatestAuditHash_def)
  next
    case False
    then have "is_chained (last table)" using Cons.prems(3) by simp
    moreover have "AE_PrevHash row = AE_RowHash (last table)"
      using LatestAuditHash_last [OF _ Cons.prems(3) False] Cons.prems(4) row(4) by (simp add: sorted_wrt_append)
    ultimately show ?thesis using False by (auto simp: textValue_def)
  qed
  then have "linked K None t1" using Cons.prems(2) row(1,5) by (simp add: linked_snoc)
  moreover have "\<forall>r\<in>set t1. is_chained r" using Cons.prems(3) row(1,3) by simp
  ultimately show ?case using Cons.IH [OF t1(2) _ _ sorted] by blast
qed simp

text \<open>C32: The writer and the verifier agree: rows appended to an empty trail at increasing times, over a
  database that keeps canonical snapshots and microseconds, make a trail that the verifier
  accepts, as long as no two of them collide.\<close>

theorem ordered_appends_verify:
  assumes "append_all K S es [] = Some (Ok table)" "store_faithful K S"
    and "sorted_wrt (<) (map (\<lambda>(i, ev). store_time S (Ev_OccurredAt ev)) es)"
    and "distinct (map row_hash table)" "'''' \<notin> row_hash ` set table"
  shows "snd (verify_rows K table) = None"
proof -
  have "linked K None table \<and> (\<forall>r\<in>set table. is_chained r)"
    using append_all_linked [OF assms(2,1)] assms(3) by simp
  then have "chain_ok K table" "filter is_chained table = table"
    using assms(4,5) by (simp_all add: chain_ok_def)
  then show ?thesis unfolding verify_rows_iff by metis
qed

definition ex_table :: "(string \<times> string \<times> time) list \<Rightarrow> AuditEventRow list" where
  "ex_table es =
     (case append_all ex_codec ex_store (map (\<lambda>(i, actor, t). (i, ex_event actor t)) es) [] of
        Some (Inr table) \<Rightarrow> table | _ \<Rightarrow> [])"

theorem ordered_appends_verify_witness:
  "snd (verify_rows ex_codec (ex_table [(''1'', ''A'', 10), (''2'', ''B'', 20)])) = None"
proof -
  let ?es = "[(''1'', ex_event ''A'' 10), (''2'', ex_event ''B'' 20)]"
  let ?t = "ex_table [(''1'', ''A'', 10), (''2'', ''B'', 20)]"
  have "append_all ex_codec ex_store ?es [] = Some (Ok ?t)" by code_simp
  moreover have "store_faithful ex_codec ex_store" by (simp add: store_faithful_def ex_store_def)
  moreover have "sorted_wrt (<) (map (\<lambda>(i, ev). store_time ex_store (Ev_OccurredAt ev)) ?es)" by code_simp
  moreover have "map row_hash ?t = [''A'', ''AB'']" by code_simp
  then have "distinct (map row_hash ?t)" "'''' \<notin> set (map row_hash ?t)" by simp_all
  ultimately show ?thesis using ordered_appends_verify [of ex_codec ex_store ?es ?t] by simp
qed

text \<open>
  The order matters. The writer links to the row that is last by time, not to the one appended
  last: after a row with an earlier time, or two rows of one instant whose random identifiers
  fall the other way, the next row forks the chain, and an untouched trail fails to verify.
\<close>

lemma late_clock_forks_the_chain:
  "snd (verify_rows ex_codec (ex_table [(''1'', ''A'', 10), (''2'', ''B'', 5), (''3'', ''C'', 11)])) =
     Some (ChainMismatch ''1'' 0 ''chain is forked: two rows link to the same predecessor'')"
  by code_simp

lemma same_instant_forks_the_chain:
  "snd (verify_rows ex_codec (ex_table [(''2'', ''A'', 10), (''1'', ''B'', 10), (''3'', ''C'', 10)])) =
     Some (ChainMismatch ''2'' 0 ''chain is forked: two rows link to the same predecessor'')"
  by code_simp

text \<open>Pseudonymising a signal clears display names that the stored hashes cover.\<close>

lemma pseudonymising_breaks_the_chain:
  "snd (verify_rows ex_codec (ex_table [(''1'', ''A'', 10)])) = None"
  "snd (verify_rows ex_codec (fst (ClearSignalAuditActorDisplayNames ''s1'' (ex_table [(''1'', ''A'', 10)])))) =
     Some (ChainMismatch ''1'' 0 ''row_hash does not match the recomputed value'')"
  by code_simp+

definition ex_trail :: "AuditEventRow list" where
  "ex_trail = ex_table [(''1'', ''A'', 10), (''2'', ''B'', 20)]"

lemma ex_trail_facts:
  "snd (verify_rows ex_codec ex_trail) = None" "snd (verify_rows ex_codec (rev ex_trail)) = None"
  "map AE_RowHash ex_trail = [Some ''A'', Some ''AB'']" "map AE_PrevHash ex_trail = [None, Some ''A'']"
  by code_simp+

lemma ex_trail_rows:
  obtains a b where "ex_trail = [a, b]" "AE_RowHash a = Some ''A''" "AE_RowHash b = Some ''AB''" "AE_PrevHash b = Some ''A''"
proof -
  have "length ex_trail = 2" using arg_cong [OF ex_trail_facts(3), of length] by simp
  then obtain a b where t: "ex_trail = [a, b]" by (auto simp: numeral_2_eq_2 length_Suc_conv)
  show thesis using ex_trail_facts(3,4) unfolding t by (intro that [OF t]) simp_all
qed

theorem edit_is_detected_witness:
  "let r = ex_trail ! 0; r' = rev ex_trail ! 1 in
   chain_fields ex_codec (prev_key r) (chainRowOf r) = chain_fields ex_codec (prev_key r') (chainRowOf r') \<or>
      (\<exists>b b'. canonicalAuditRow ex_codec (prev_key r) (chainRowOf r) = Some b \<and>
         canonicalAuditRow ex_codec (prev_key r') (chainRowOf r') = Some b' \<and> b \<noteq> b' \<and>
         sha256_hex ex_codec b = sha256_hex ex_codec b')"
proof -
  obtain a b where t: "ex_trail = [a, b]" and "AE_RowHash a = Some ''A''" using ex_trail_rows .
  then have "ex_trail ! 0 \<in> set ex_trail" "rev ex_trail ! 1 \<in> set (rev ex_trail)"
    "AE_RowHash (ex_trail ! 0) = Some ''A''" "AE_RowHash (rev ex_trail ! 1) = Some ''A''" unfolding t by simp_all
  from edit_is_detected [OF ex_trail_facts(1,2) this] show ?thesis unfolding Let_def .
qed

theorem removal_is_detected_witness: "snd (verify_rows ex_codec (tl ex_trail)) \<noteq> None"
proof -
  obtain a b where t: "ex_trail = [a, b]" and "AE_RowHash a = Some ''A''" "AE_RowHash b = Some ''AB''" "AE_PrevHash b = Some ''A''"
    using ex_trail_rows .
  then show ?thesis
    using removal_is_detected [of ex_codec "[]" a "[b]" b] ex_trail_facts(1) unfolding t by simp
qed

end
