(* ===== verification/Outbox.thy ===== *)
theory Outbox
  imports Prelude "HOL-Library.Option_ord"
begin

text \<open>
  The transactional outbox: the error classes of the application layer (application/errors.go),
  the table and its statements (postgres: outbox.sql.go, outbox.go, outboxrelay.go) and the relay
  that drains it (adapters/worker/relay.go).
\<close>

section \<open>Errors of the application layer\<close>

datatype ErrorKind = KindValidation | KindConflict | KindNotFound | KindForbidden | KindInfra

text \<open>An error of the layer, with the operation that failed, or one from elsewhere.\<close>

datatype app_error = AppError ErrorKind string | ForeignError string

definition ErrorKindOf :: "app_error option \<Rightarrow> ErrorKind option" where
  "ErrorKindOf err =
     (case err of
        None \<Rightarrow> None
      | Some (AppError kind _) \<Rightarrow> Some kind
      | Some (ForeignError _) \<Rightarrow> Some KindInfra)"

section \<open>The table\<close>

datatype outbox_status = Pending | Claimed | Done | DeadLettered

record OutboxRow =
  Ob_ID :: string
  Ob_Type :: string
  Ob_Payload :: string
  Ob_Status :: outbox_status
  Ob_AvailableAt :: time
  Ob_LeaseUntil :: "time option"
  Ob_Attempts :: int
  Ob_LastError :: "string option"
  Ob_DedupeKey :: string
  Ob_CreatedAt :: time

record OutboxEvent =
  OE_Type :: string
  OE_Payload :: string
  OE_DedupeKey :: string
  OE_AvailableAt :: time
  OE_CreatedAt :: time

type_synonym outbox = "OutboxRow list"

text \<open>\<open>INSERT\<close> with the identifier of the column default; the key is unique.\<close>

definition OutboxRepo_Append :: "string \<Rightarrow> OutboxEvent \<Rightarrow> outbox \<Rightarrow> app_error + outbox" where
  "OutboxRepo_Append newid ev table =
     (if list_ex (\<lambda>r. Ob_DedupeKey r = OE_DedupeKey ev) table then Err (AppError KindConflict ''outbox.append'')
      else Ok (table @
        [\<lparr>Ob_ID = newid, Ob_Type = OE_Type ev, Ob_Payload = OE_Payload ev, Ob_Status = Pending,
          Ob_AvailableAt = OE_AvailableAt ev, Ob_LeaseUntil = None, Ob_Attempts = 0,
          Ob_LastError = None, Ob_DedupeKey = OE_DedupeKey ev, Ob_CreatedAt = OE_CreatedAt ev\<rparr>]))"

definition ExistsDedupeKey :: "string \<Rightarrow> outbox \<Rightarrow> bool" where
  "ExistsDedupeKey key table = list_ex (\<lambda>r. Ob_DedupeKey r = key) table"

definition outbox_lease :: duration where
  "outbox_lease = 60 * time_Second"

text \<open>Due: pending, or claimed with an expired lease; \<open>now\<close> is the database clock.\<close>

definition outbox_due :: "time \<Rightarrow> OutboxRow \<Rightarrow> bool" where
  "outbox_due now r \<longleftrightarrow> Ob_AvailableAt r \<le> now \<and>
     (Ob_Status r = Pending \<or> Ob_Status r = Claimed \<and> (case Ob_LeaseUntil r of None \<Rightarrow> False | Some l \<Rightarrow> l < now))"

record ClaimedEvent =
  CE_ID :: string
  CE_Type :: string
  CE_Payload :: string
  CE_Attempts :: int

definition outbox_claim :: "time \<Rightarrow> OutboxRow \<Rightarrow> OutboxRow" where
  "outbox_claim now r = r\<lparr>Ob_Status := Claimed, Ob_LeaseUntil := Some (now + outbox_lease), Ob_Attempts := Ob_Attempts r + 1\<rparr>"

definition claimed_event :: "OutboxRow \<Rightarrow> ClaimedEvent" where
  "claimed_event r = \<lparr>CE_ID = Ob_ID r, CE_Type = Ob_Type r, CE_Payload = Ob_Payload r, CE_Attempts = Ob_Attempts r\<rparr>"

text \<open>The rows other workers hold are skipped: \<open>locked\<close> lists their identifiers. The claimed rows are
  returned in table order; the statement leaves their order open.\<close>

definition claim_ids :: "time \<Rightarrow> string list \<Rightarrow> nat \<Rightarrow> outbox \<Rightarrow> string list" where
  "claim_ids now locked limit table =
     map Ob_ID (take limit (sort_key Ob_AvailableAt (sort_key Ob_ID
       (filter (\<lambda>r. outbox_due now r \<and> Ob_ID r \<notin> set locked) table))))"

definition claim_rows :: "time \<Rightarrow> string list \<Rightarrow> outbox \<Rightarrow> ClaimedEvent list \<times> outbox" where
  "claim_rows now ids table =
     (let table' = map (\<lambda>r. if Ob_ID r \<in> set ids then outbox_claim now r else r) table
      in (map claimed_event (filter (\<lambda>r. Ob_ID r \<in> set ids) table'), table'))"

definition ClaimOutboxBatch :: "time \<Rightarrow> string list \<Rightarrow> nat \<Rightarrow> outbox \<Rightarrow> ClaimedEvent list \<times> outbox" where
  "ClaimOutboxBatch now locked limit table = claim_rows now (claim_ids now locked limit table) table"

definition ClaimBatch :: "time \<Rightarrow> string list \<Rightarrow> int \<Rightarrow> outbox \<Rightarrow> app_error + ClaimedEvent list \<times> outbox" where
  "ClaimBatch now locked limit table =
     (if limit \<le> 0 \<or> limit > 2147483647 then Err (AppError KindValidation ''outbox.claim_batch'')
      else Ok (ClaimOutboxBatch now locked (nat limit) table))"

text \<open>The focused form of the reclaim: expired leases only, the longest expired first.\<close>

definition reclaim_ids :: "time \<Rightarrow> string list \<Rightarrow> nat \<Rightarrow> outbox \<Rightarrow> string list" where
  "reclaim_ids now locked limit table =
     map Ob_ID (take limit (sort_key Ob_LeaseUntil (sort_key Ob_ID
       (filter (\<lambda>r. Ob_Status r = Claimed \<and> (case Ob_LeaseUntil r of None \<Rightarrow> False | Some l \<Rightarrow> l < now) \<and>
          Ob_ID r \<notin> set locked) table))))"

definition ReclaimExpiredOutboxLeases :: "time \<Rightarrow> string list \<Rightarrow> nat \<Rightarrow> outbox \<Rightarrow> ClaimedEvent list \<times> outbox" where
  "ReclaimExpiredOutboxLeases now locked limit table = claim_rows now (reclaim_ids now locked limit table) table"

text \<open>\<open>UPDATE ... WHERE id = $1 AND status = 'claimed'\<close>, with the number of rows.\<close>

definition update_claimed :: "(OutboxRow \<Rightarrow> OutboxRow) \<Rightarrow> string \<Rightarrow> outbox \<Rightarrow> outbox \<times> nat" where
  "update_claimed f i table =
     (map (\<lambda>r. if Ob_ID r = i \<and> Ob_Status r = Claimed then f r else r) table,
      length (filter (\<lambda>r. Ob_ID r = i \<and> Ob_Status r = Claimed) table))"

definition AckOutbox :: "string \<Rightarrow> outbox \<Rightarrow> outbox \<times> nat" where
  "AckOutbox i table = update_claimed (\<lambda>r. r\<lparr>Ob_Status := Done\<rparr>) i table"

definition DeadLetterOutbox :: "string \<Rightarrow> string option \<Rightarrow> outbox \<Rightarrow> outbox \<times> nat" where
  "DeadLetterOutbox i lastError table =
     update_claimed (\<lambda>r. r\<lparr>Ob_Status := DeadLettered, Ob_LastError := lastError\<rparr>) i table"

text \<open>The identifiers of the relay are those of the table, so they parse.\<close>

definition OutboxRelay_Ack :: "string \<Rightarrow> outbox \<Rightarrow> app_error + outbox" where
  "OutboxRelay_Ack i table = Ok (fst (AckOutbox i table))"

definition OutboxRelay_DeadLetter :: "string \<Rightarrow> string \<Rightarrow> outbox \<Rightarrow> app_error + outbox" where
  "OutboxRelay_DeadLetter i lastError table =
     (if lastError = '''' then Err (AppError KindValidation ''outbox.dead_letter'')
      else Ok (fst (DeadLetterOutbox i (Some lastError) table)))"

section \<open>The relay\<close>

definition claimBatchSize :: int where "claimBatchSize = 50"
definition maxAttempts :: int where "maxAttempts = 5"

text \<open>What a handler returns: nil, an error marked with \<open>Retry\<close>, or any other error, with its text.
  The handlers are a parameter; what they do elsewhere does not touch the outbox.\<close>

datatype delivery = Delivered | Temporary string | Permanent string

fun error_text :: "delivery \<Rightarrow> string" where
  "error_text Delivered = ''''"
| "error_text (Temporary s) = ''retry: '' @ s"
| "error_text (Permanent s) = s"

fun isRetryable :: "delivery \<Rightarrow> bool" where
  "isRetryable (Temporary _) = True"
| "isRetryable _ = False"

type_synonym handlers = "string \<rightharpoonup> (ClaimedEvent \<Rightarrow> delivery)"

definition Register :: "handlers \<Rightarrow> string \<Rightarrow> (ClaimedEvent \<Rightarrow> delivery) option \<Rightarrow> app_error + handlers" where
  "Register hs eventType handler =
     (if eventType = '''' then Err (ForeignError ''event type must not be empty'')
      else
        (case handler of
           None \<Rightarrow> Err (ForeignError ''handler must not be nil'')
         | Some h \<Rightarrow>
             (if hs eventType \<noteq> None then Err (ForeignError ''a handler is already registered'')
              else Ok (hs(eventType \<mapsto> h)))))"

record 's OutboxStore =
  st_claim :: "int \<Rightarrow> 's \<Rightarrow> app_error + ClaimedEvent list \<times> 's"
  st_ack :: "string \<Rightarrow> 's \<Rightarrow> app_error + 's"
  st_dead :: "string \<Rightarrow> string \<Rightarrow> 's \<Rightarrow> app_error + 's"

datatype drainOutcome = outcomeDelivered | outcomeRetryLater | outcomeDeadLettered

text \<open>An operation of the relay yields its result and the store; a failing statement changes nothing.\<close>

definition deadLetter :: "'s OutboxStore \<Rightarrow> ClaimedEvent \<Rightarrow> string \<Rightarrow> 's \<Rightarrow> (app_error + drainOutcome) \<times> 's" where
  "deadLetter S ev cause s =
     (case st_dead S (CE_ID ev) cause s of
        Inl e \<Rightarrow> (Err e, s)
      | Inr s' \<Rightarrow> (Ok outcomeDeadLettered, s'))"

definition dispatch :: "'s OutboxStore \<Rightarrow> handlers \<Rightarrow> ClaimedEvent \<Rightarrow> 's \<Rightarrow> (app_error + drainOutcome) \<times> 's" where
  "dispatch S hs ev s =
     (case hs (CE_Type ev) of
        None \<Rightarrow> deadLetter S ev (''no handler registered for outbox type '' @ CE_Type ev) s
      | Some handler \<Rightarrow>
          (let d = handler ev in
           if d \<noteq> Delivered then
             (if isRetryable d \<and> CE_Attempts ev < maxAttempts then (Ok outcomeRetryLater, s)
              else deadLetter S ev (error_text d) s)
           else
             (case st_ack S (CE_ID ev) s of
                Inl e \<Rightarrow> (Err e, s)
              | Inr s' \<Rightarrow> (Ok outcomeDelivered, s'))))"

fun drain_events :: "'s OutboxStore \<Rightarrow> handlers \<Rightarrow> ClaimedEvent list \<Rightarrow> nat \<times> nat \<Rightarrow> 's \<Rightarrow> (app_error + nat \<times> nat) \<times> 's" where
  "drain_events S hs [] counts s = (Ok counts, s)"
| "drain_events S hs (ev # evs) counts s =
     (case dispatch S hs ev s of
        (Inl e, s') \<Rightarrow> (Err e, s')
      | (Inr out, s') \<Rightarrow>
          drain_events S hs evs
            (case out of
               outcomeDelivered \<Rightarrow> (fst counts + 1, snd counts)
             | outcomeDeadLettered \<Rightarrow> (fst counts, snd counts + 1)
             | outcomeRetryLater \<Rightarrow> counts) s')"

definition Drain :: "'s OutboxStore \<Rightarrow> handlers \<Rightarrow> 's \<Rightarrow> (app_error + nat \<times> nat) \<times> 's" where
  "Drain S hs s =
     (case st_claim S claimBatchSize s of
        Inl e \<Rightarrow> (Err e, s)
      | Inr (evs, s') \<Rightarrow> (if evs = [] then (Ok (0, 0), s') else drain_events S hs evs (0, 0) s'))"

definition pg_store :: "time \<Rightarrow> string list \<Rightarrow> outbox OutboxStore" where
  "pg_store now locked =
     \<lparr>st_claim = ClaimBatch now locked, st_ack = OutboxRelay_Ack, st_dead = OutboxRelay_DeadLetter\<rparr>"

section \<open>The contract between the relay and its store\<close>

text \<open>The state the relay gives a claimed event.\<close>

definition settled :: "handlers \<Rightarrow> ClaimedEvent \<Rightarrow> outbox_status" where
  "settled hs ev =
     (case hs (CE_Type ev) of
        None \<Rightarrow> DeadLettered
      | Some h \<Rightarrow>
          (case h ev of
             Delivered \<Rightarrow> Done
           | Temporary _ \<Rightarrow> (if CE_Attempts ev < maxAttempts then Claimed else DeadLettered)
           | Permanent _ \<Rightarrow> DeadLettered))"

text \<open>A handler that fails permanently says why.\<close>

definition explains :: "handlers \<Rightarrow> ClaimedEvent \<Rightarrow> bool" where
  "explains hs ev \<longleftrightarrow> (case hs (CE_Type ev) of None \<Rightarrow> True | Some h \<Rightarrow> h ev \<noteq> Permanent '''')"

definition settle :: "handlers \<Rightarrow> ClaimedEvent list \<Rightarrow> (string \<Rightarrow> outbox_status option) \<Rightarrow> string \<Rightarrow> outbox_status option" where
  "settle hs evs st i =
     (case filter (\<lambda>e. CE_ID e = i) evs of [] \<Rightarrow> st i | e # _ \<Rightarrow> Some (settled hs e))"

lemma settle_Nil: "settle hs [] st = st"
  by (simp add: settle_def fun_eq_iff)

lemma settle_Cons:
  assumes "CE_ID ev \<notin> CE_ID ` set evs"
  shows "settle hs (ev # evs) st = settle hs evs (st(CE_ID ev \<mapsto> settled hs ev))"
proof
  fix i
  show "settle hs (ev # evs) st i = settle hs evs (st(CE_ID ev \<mapsto> settled hs ev)) i"
  proof (cases "i = CE_ID ev")
    case True
    then have "filter (\<lambda>e. CE_ID e = i) evs = []"
      using assms by (metis (mono_tags, lifting) filter_False image_eqI)
    then show ?thesis using True by (simp add: settle_def)
  next
    case False
    then show ?thesis by (auto simp: settle_def split: list.split)
  qed
qed

lemma settle_in:
  assumes "distinct (map CE_ID evs)" "ev \<in> set evs"
  shows "settle hs evs st (CE_ID ev) = Some (settled hs ev)"
  using assms
proof (induction evs arbitrary: st)
  case (Cons e evs)
  then show ?case
    by (cases "e = ev") (auto simp: settle_def image_iff)
qed simp

lemma settle_out: "i \<notin> CE_ID ` set evs \<Longrightarrow> settle hs evs st i = st i"
proof -
  assume "i \<notin> CE_ID ` set evs"
  then have "filter (\<lambda>e. CE_ID e = i) evs = []"
    by (metis (mono_tags, lifting) filter_False image_eqI)
  then show ?thesis by (simp add: settle_def)
qed

text \<open>
  What the relay relies on. \<open>status\<close> reads the state of a row; \<open>inv\<close> is what the store keeps. A
  claim hands out rows that are then claimed, each once; an ack or a dead-letter moves that one
  row, provided it is still claimed; an empty error text is refused.
\<close>

locale outbox_store =
  fixes S :: "'s OutboxStore"
    and status :: "'s \<Rightarrow> string \<Rightarrow> outbox_status option"
    and inv :: "'s \<Rightarrow> bool"
  assumes claim_law: "inv s \<Longrightarrow> st_claim S n s = Inr (evs, s') \<Longrightarrow>
      inv s' \<and> distinct (map CE_ID evs) \<and> (\<forall>e\<in>set evs. status s' (CE_ID e) = Some Claimed) \<and>
      (\<forall>i. i \<notin> CE_ID ` set evs \<longrightarrow> status s' i = status s i)"
    and ack_law: "inv s \<Longrightarrow> status s i = Some Claimed \<Longrightarrow>
      \<exists>s'. st_ack S i s = Inr s' \<and> inv s' \<and> status s' = (status s)(i \<mapsto> Done)"
    and dead_law: "inv s \<Longrightarrow> status s i = Some Claimed \<Longrightarrow> cause \<noteq> '''' \<Longrightarrow>
      \<exists>s'. st_dead S i cause s = Inr s' \<and> inv s' \<and> status s' = (status s)(i \<mapsto> DeadLettered)"
    and dead_empty: "\<exists>e. st_dead S i '''' s = Inl e"
begin

lemma deadLetter_row:
  assumes "inv s" "status s (CE_ID ev) = Some Claimed" "cause \<noteq> ''''"
  shows "\<exists>s'. deadLetter S ev cause s = (Ok outcomeDeadLettered, s') \<and> inv s' \<and>
    status s' = (status s)(CE_ID ev \<mapsto> DeadLettered)"
  using dead_law [OF assms] by (auto simp: deadLetter_def)

lemma dispatch_row:
  assumes "inv s" "status s (CE_ID ev) = Some Claimed" "explains hs ev"
  shows "\<exists>s' out. dispatch S hs ev s = (Ok out, s') \<and> inv s' \<and>
    status s' = (status s)(CE_ID ev \<mapsto> settled hs ev) \<and>
    (out = outcomeDelivered \<longleftrightarrow> settled hs ev = Done) \<and>
    (out = outcomeDeadLettered \<longleftrightarrow> settled hs ev = DeadLettered)"
proof (cases "hs (CE_Type ev)")
  case None
  have "''no handler registered for outbox type '' @ CE_Type ev \<noteq> ''''" by simp
  from deadLetter_row [OF assms(1,2) this] None show ?thesis
    by (auto simp: dispatch_def settled_def)
next
  case (Some h)
  show ?thesis
  proof (cases "h ev")
    case Delivered
    then show ?thesis
      using ack_law [OF assms(1,2)] Some by (auto simp: dispatch_def settled_def)
  next
    case (Temporary t)
    show ?thesis
    proof (cases "CE_Attempts ev < maxAttempts")
      case True
      have "(status s)(CE_ID ev \<mapsto> Claimed) = status s"
        using assms(2) by auto
      with True Temporary Some assms(1) show ?thesis
        by (simp add: dispatch_def settled_def)
    next
      case False
      have "error_text (h ev) \<noteq> ''''" using Temporary by simp
      from deadLetter_row [OF assms(1,2) this] False Temporary Some show ?thesis
        by (auto simp: dispatch_def settled_def)
    qed
  next
    case (Permanent t)
    have "error_text (h ev) \<noteq> ''''" using Permanent Some assms(3) by (auto simp: explains_def)
    from deadLetter_row [OF assms(1,2) this] Permanent Some show ?thesis
      by (auto simp: dispatch_def settled_def)
  qed
qed

lemma drain_events_settles:
  assumes "inv s" "distinct (map CE_ID evs)" "\<forall>e\<in>set evs. status s (CE_ID e) = Some Claimed"
    "\<forall>e\<in>set evs. explains hs e"
  shows "\<exists>s'. drain_events S hs evs (d, l) s =
      (Ok (d + length (filter (\<lambda>e. settled hs e = Done) evs),
           l + length (filter (\<lambda>e. settled hs e = DeadLettered) evs)), s') \<and>
    inv s' \<and> status s' = settle hs evs (status s)"
  using assms
proof (induction evs arbitrary: s d l)
  case Nil
  then show ?case by (simp add: settle_Nil)
next
  case (Cons ev evs)
  obtain s1 out where 1: "dispatch S hs ev s = (Ok out, s1)" "inv s1"
      "status s1 = (status s)(CE_ID ev \<mapsto> settled hs ev)"
    and o: "out = outcomeDelivered \<longleftrightarrow> settled hs ev = Done"
      "out = outcomeDeadLettered \<longleftrightarrow> settled hs ev = DeadLettered"
    using dispatch_row [of s ev hs] Cons.prems by auto
  have fresh: "CE_ID ev \<notin> CE_ID ` set evs" using Cons.prems(2) by simp
  have "\<forall>e\<in>set evs. status s1 (CE_ID e) = Some Claimed"
    using 1(3) fresh Cons.prems(3) by (metis fun_upd_other image_eqI list.set_intros(2))
  note IH = Cons.IH [OF 1(2) _ this, of "if out = outcomeDelivered then d + 1 else d"
      "if out = outcomeDeadLettered then l + 1 else l"]
  have "distinct (map CE_ID evs)" "\<forall>e\<in>set evs. explains hs e" using Cons.prems by simp_all
  from IH [OF this] obtain s' where
    "drain_events S hs evs (if out = outcomeDelivered then d + 1 else d, if out = outcomeDeadLettered then l + 1 else l) s1 =
      (Ok ((if out = outcomeDelivered then d + 1 else d) + length (filter (\<lambda>e. settled hs e = Done) evs),
           (if out = outcomeDeadLettered then l + 1 else l) + length (filter (\<lambda>e. settled hs e = DeadLettered) evs)), s')"
    "inv s'" "status s' = settle hs evs (status s1)" by blast
  then show ?case
    using 1 o by (cases out) (simp_all add: settle_Cons [OF fresh])
qed

lemma Drain_settles:
  assumes "inv s" "st_claim S claimBatchSize s = Inr (evs, s1)" "\<forall>e\<in>set evs. explains hs e"
  shows "\<exists>s'. Drain S hs s =
      (Ok (length (filter (\<lambda>e. settled hs e = Done) evs),
           length (filter (\<lambda>e. settled hs e = DeadLettered) evs)), s') \<and>
    inv s' \<and> (\<forall>e\<in>set evs. status s' (CE_ID e) = Some (settled hs e)) \<and>
    (\<forall>i. i \<notin> CE_ID ` set evs \<longrightarrow> status s' i = status s i)"
proof -
  note c = claim_law [OF assms(1,2)]
  obtain s' where d: "drain_events S hs evs (0, 0) s1 =
      (Ok (0 + length (filter (\<lambda>e. settled hs e = Done) evs),
           0 + length (filter (\<lambda>e. settled hs e = DeadLettered) evs)), s')"
      "inv s'" "status s' = settle hs evs (status s1)"
    using drain_events_settles [of s1 evs hs 0 0] c assms(3) by blast
  have "Drain S hs s = (Ok (length (filter (\<lambda>e. settled hs e = Done) evs),
           length (filter (\<lambda>e. settled hs e = DeadLettered) evs)), s')"
    using assms(2) d(1) by (cases evs) (simp_all add: Drain_def)
  moreover have "\<forall>e\<in>set evs. status s' (CE_ID e) = Some (settled hs e)"
    using c d(3) by (simp add: settle_in)
  moreover have "\<forall>i. i \<notin> CE_ID ` set evs \<longrightarrow> status s' i = status s i"
    using c d(3) by (simp add: settle_out)
  ultimately show ?thesis using d(2) by blast
qed

text \<open>A permanent failure without a text cannot be recorded: the drain stops there.\<close>

lemma dispatch_unexplained:
  assumes "hs (CE_Type ev) = Some h" "h ev = Permanent ''''"
  shows "\<exists>e. dispatch S hs ev s = (Err e, s)"
proof -
  obtain e where "st_dead S (CE_ID ev) '''' s = Inl e" using dead_empty by blast
  with assms show ?thesis by (simp add: dispatch_def deadLetter_def)
qed

end

section \<open>The table keeps the contract\<close>

definition ob_ids :: "outbox \<Rightarrow> string list" where
  "ob_ids table = map Ob_ID table"

definition row_status :: "outbox \<Rightarrow> string \<Rightarrow> outbox_status option" where
  "row_status table i = map_of (map (\<lambda>r. (Ob_ID r, Ob_Status r)) table) i"

lemma outbox_claim_simps [simp]:
  "Ob_ID (outbox_claim now r) = Ob_ID r" "Ob_DedupeKey (outbox_claim now r) = Ob_DedupeKey r"
  "Ob_Status (outbox_claim now r) = Claimed" "Ob_LeaseUntil (outbox_claim now r) = Some (now + outbox_lease)"
  "Ob_Attempts (outbox_claim now r) = Ob_Attempts r + 1" "Ob_LastError (outbox_claim now r) = Ob_LastError r"
  "Ob_Type (outbox_claim now r) = Ob_Type r" "Ob_Payload (outbox_claim now r) = Ob_Payload r"
  "Ob_AvailableAt (outbox_claim now r) = Ob_AvailableAt r" "Ob_CreatedAt (outbox_claim now r) = Ob_CreatedAt r"
  by (simp_all add: outbox_claim_def)

lemma claimed_event_simps [simp]:
  "CE_ID (claimed_event r) = Ob_ID r" "CE_Attempts (claimed_event r) = Ob_Attempts r"
  "CE_Type (claimed_event r) = Ob_Type r" "CE_Payload (claimed_event r) = Ob_Payload r"
  by (simp_all add: claimed_event_def)

lemma claim_rows_table:
  "snd (claim_rows now ids table) = map (\<lambda>r. if Ob_ID r \<in> set ids then outbox_claim now r else r) table"
  by (simp add: claim_rows_def Let_def)

lemma claim_rows_events:
  "fst (claim_rows now ids table) =
     map (\<lambda>r. claimed_event (outbox_claim now r)) (filter (\<lambda>r. Ob_ID r \<in> set ids) table)"
  by (induction table) (simp_all add: claim_rows_def Let_def)

lemma claim_rows_ids: "ob_ids (snd (claim_rows now ids table)) = ob_ids table"
  by (simp add: ob_ids_def claim_rows_table)

lemma claim_rows_event_ids:
  "map CE_ID (fst (claim_rows now ids table)) = filter (\<lambda>i. i \<in> set ids) (ob_ids table)"
  by (induction table) (simp_all add: ob_ids_def claim_rows_events)

lemma row_status_claim:
  "row_status (snd (claim_rows now ids table)) i =
     (if i \<in> set ids \<and> i \<in> set (ob_ids table) then Some Claimed else row_status table i)"
  by (induction table) (auto simp: row_status_def claim_rows_table ob_ids_def)

lemma update_claimed_ids:
  "(\<And>r. Ob_ID (f r) = Ob_ID r) \<Longrightarrow> ob_ids (fst (update_claimed f i table)) = ob_ids table"
  by (simp add: update_claimed_def ob_ids_def)

lemma update_claimed_other:
  "i \<notin> set (ob_ids table) \<Longrightarrow> fst (update_claimed f i table) = table"
  by (induction table) (auto simp: update_claimed_def ob_ids_def)

lemma row_status_update:
  assumes "distinct (ob_ids table)" "row_status table i = Some Claimed"
    "\<And>r. Ob_ID (f r) = Ob_ID r" "\<And>r. Ob_Status (f r) = s"
  shows "row_status (fst (update_claimed f i table)) = (row_status table)(i \<mapsto> s)"
  using assms(1,2)
proof (induction table)
  case (Cons a table)
  have split: "row_status (b # t) = (row_status t)(Ob_ID b \<mapsto> Ob_Status b)" for b t
    by (simp add: row_status_def fun_eq_iff)
  have step: "fst (update_claimed f i (a # table)) =
      (if Ob_ID a = i \<and> Ob_Status a = Claimed then f a else a) # fst (update_claimed f i table)"
    by (simp add: update_claimed_def)
  show ?case
  proof (cases "Ob_ID a = i")
    case True
    then have "fst (update_claimed f i table) = table"
      using Cons.prems(1) by (simp add: update_claimed_other ob_ids_def)
    then show ?thesis
      using True Cons.prems(2) by (simp add: step split assms(3,4) fun_eq_iff)
  next
    case False
    then show ?thesis
      using Cons by (simp add: step split ob_ids_def fun_eq_iff)
  qed
qed (simp add: row_status_def)

interpretation pg: outbox_store "pg_store now locked" row_status "\<lambda>table. distinct (ob_ids table)"
  for now locked
proof unfold_locales
  fix s n evs s'
  assume d: "distinct (ob_ids s)" and "st_claim (pg_store now locked) n s = Inr (evs, s')"
  then have c: "(evs, s') = claim_rows now (claim_ids now locked (nat n) s) s"
    by (auto simp: pg_store_def ClaimBatch_def ClaimOutboxBatch_def split: if_splits)
  let ?ids = "claim_ids now locked (nat n) s"
  have e: "evs = fst (claim_rows now ?ids s)" "s' = snd (claim_rows now ?ids s)"
    using c by (metis fst_conv, metis snd_conv)
  have ids: "map CE_ID evs = filter (\<lambda>i. i \<in> set ?ids) (ob_ids s)"
    unfolding e(1) by (rule claim_rows_event_ids)
  then have set: "CE_ID ` set evs = set (ob_ids s) \<inter> set ?ids"
    by (metis filter_set inter_set_filter list.set_map set_map Int_commute)
  show "distinct (ob_ids s') \<and> distinct (map CE_ID evs) \<and>
       (\<forall>e\<in>set evs. row_status s' (CE_ID e) = Some Claimed) \<and>
       (\<forall>i. i \<notin> CE_ID ` set evs \<longrightarrow> row_status s' i = row_status s i)"
    using d set unfolding ids by (auto simp: e(2) claim_rows_ids row_status_claim)
next
  fix s i
  assume "distinct (ob_ids s)" "row_status s i = Some Claimed"
  then show "\<exists>s'. st_ack (pg_store now locked) i s = Inr s' \<and> distinct (ob_ids s') \<and>
      row_status s' = (row_status s)(i \<mapsto> Done)"
    by (simp add: pg_store_def OutboxRelay_Ack_def AckOutbox_def update_claimed_ids row_status_update)
next
  fix s i and cause :: string
  assume "distinct (ob_ids s)" "row_status s i = Some Claimed" "cause \<noteq> ''''"
  then show "\<exists>s'. st_dead (pg_store now locked) i cause s = Inr s' \<and> distinct (ob_ids s') \<and>
      row_status s' = (row_status s)(i \<mapsto> DeadLettered)"
    by (simp add: pg_store_def OutboxRelay_DeadLetter_def DeadLetterOutbox_def update_claimed_ids row_status_update)
next
  fix i s
  show "\<exists>e. st_dead (pg_store now locked) i '''' s = Inl e"
    by (simp add: pg_store_def OutboxRelay_DeadLetter_def)
qed

section \<open>The life of a row\<close>

text \<open>What any number of commands and relays do to the table, one statement at a time. The
  identifier of a new row is fresh, which the primary key enforces.\<close>

inductive outbox_step :: "outbox \<Rightarrow> outbox \<Rightarrow> bool" where
  Append: "newid \<notin> set (ob_ids t) \<Longrightarrow> OutboxRepo_Append newid ev t = Inr t' \<Longrightarrow> outbox_step t t'"
| Claim: "ClaimBatch now locked limit t = Inr (evs, t') \<Longrightarrow> outbox_step t t'"
| Reclaim: "ReclaimExpiredOutboxLeases now locked n t = (evs, t') \<Longrightarrow> outbox_step t t'"
| Ack: "OutboxRelay_Ack i t = Inr t' \<Longrightarrow> outbox_step t t'"
| DeadLetter: "OutboxRelay_DeadLetter i cause t = Inr t' \<Longrightarrow> outbox_step t t'"

definition outbox_reaches :: "outbox \<Rightarrow> outbox \<Rightarrow> bool" where
  "outbox_reaches t t' \<longleftrightarrow> outbox_step\<^sup>*\<^sup>* t t'"

fun row_ok :: "OutboxRow \<Rightarrow> bool" where
  "row_ok r =
     (case Ob_Status r of
        Pending \<Rightarrow> Ob_Attempts r = 0 \<and> Ob_LeaseUntil r = None \<and> Ob_LastError r = None
      | Claimed \<Rightarrow> 1 \<le> Ob_Attempts r \<and> Ob_LeaseUntil r \<noteq> None \<and> Ob_LastError r = None
      | Done \<Rightarrow> 1 \<le> Ob_Attempts r \<and> Ob_LastError r = None
      | DeadLettered \<Rightarrow> 1 \<le> Ob_Attempts r \<and> Ob_LastError r \<noteq> None \<and> Ob_LastError r \<noteq> Some '''')"

definition outbox_ok :: "outbox \<Rightarrow> bool" where
  "outbox_ok t \<longleftrightarrow> distinct (ob_ids t) \<and> distinct (map Ob_DedupeKey t) \<and> (\<forall>r\<in>set t. row_ok r)"

text \<open>How one row may change: what it carries never does; the attempts only grow.\<close>

definition same_row :: "OutboxRow \<Rightarrow> OutboxRow \<Rightarrow> bool" where
  "same_row r r' \<longleftrightarrow> Ob_ID r' = Ob_ID r \<and> Ob_Type r' = Ob_Type r \<and> Ob_Payload r' = Ob_Payload r \<and>
     Ob_DedupeKey r' = Ob_DedupeKey r \<and> Ob_AvailableAt r' = Ob_AvailableAt r \<and> Ob_CreatedAt r' = Ob_CreatedAt r"

definition row_later :: "OutboxRow \<Rightarrow> OutboxRow \<Rightarrow> bool" where
  "row_later r r' \<longleftrightarrow> same_row r r' \<and> Ob_Attempts r \<le> Ob_Attempts r' \<and>
     (Ob_Status r = Done \<or> Ob_Status r = DeadLettered \<longrightarrow> r' = r) \<and>
     (Ob_Status r = Claimed \<longrightarrow> Ob_Status r' \<noteq> Pending)"

lemma row_later_refl: "row_later r r"
  by (simp add: row_later_def same_row_def)

lemma row_later_trans: "row_later r r' \<Longrightarrow> row_later r' r'' \<Longrightarrow> row_later r r''"
  by (cases "Ob_Status r'") (auto simp: row_later_def same_row_def)

definition table_later :: "outbox \<Rightarrow> outbox \<Rightarrow> bool" where
  "table_later t t' \<longleftrightarrow> length t \<le> length t' \<and> list_all2 row_later t (take (length t) t')"

lemma table_later_map: "(\<And>r. r \<in> set t \<Longrightarrow> row_later r (f r)) \<Longrightarrow> table_later t (map f t)"
  by (simp add: table_later_def list_all2_conv_all_nth)

lemma table_later_trans:
  assumes "table_later t t'" "table_later t' t''"
  shows "table_later t t''"
  using assms unfolding table_later_def list_all2_conv_all_nth
  by (auto intro: row_later_trans)

text \<open>The rows a claim picks are due.\<close>

lemma sorted_pick_sub:
  "set (map f (take n (sort_key g (sort_key h (filter P t))))) \<subseteq> f ` {r \<in> set t. P r}"
  by (auto dest!: in_set_takeD)

lemma claim_ids_due:
  "set (claim_ids now locked n t) \<subseteq> Ob_ID ` {r \<in> set t. outbox_due now r \<and> Ob_ID r \<notin> set locked}"
  unfolding claim_ids_def by (rule sorted_pick_sub)

lemma by_id: "distinct (ob_ids t) \<Longrightarrow> r \<in> set t \<Longrightarrow> r' \<in> set t \<Longrightarrow> Ob_ID r = Ob_ID r' \<Longrightarrow> r = r'"
  by (auto simp: ob_ids_def distinct_map dest: inj_onD)

lemma claimed_row_due:
  assumes "distinct (ob_ids t)" "r \<in> set t" "Ob_ID r \<in> set (claim_ids now locked n t)"
  shows "outbox_due now r \<and> Ob_ID r \<notin> set locked"
  using assms claim_ids_due [of now locked n t] by (auto dest: by_id)

lemma reclaimed_row_claimed:
  assumes "distinct (ob_ids t)" "r \<in> set t" "Ob_ID r \<in> set (reclaim_ids now locked n t)"
  shows "Ob_Status r = Claimed"
proof -
  have "set (reclaim_ids now locked n t) \<subseteq> Ob_ID ` {r \<in> set t. Ob_Status r = Claimed \<and>
      (case Ob_LeaseUntil r of None \<Rightarrow> False | Some l \<Rightarrow> l < now) \<and> Ob_ID r \<notin> set locked}"
    unfolding reclaim_ids_def by (rule sorted_pick_sub)
  with assms show ?thesis by (auto dest: by_id)
qed

lemma row_later_claim:
  "Ob_Status r = Pending \<or> Ob_Status r = Claimed \<Longrightarrow> row_later r (outbox_claim now r)"
  by (auto simp: row_later_def same_row_def)

lemma row_later_terminal:
  "Ob_Status r = Claimed \<Longrightarrow> row_later r (r\<lparr>Ob_Status := Done\<rparr>)"
  "Ob_Status r = Claimed \<Longrightarrow> row_later r (r\<lparr>Ob_Status := DeadLettered, Ob_LastError := e\<rparr>)"
  by (auto simp: row_later_def same_row_def)

text \<open>A step is a pointwise change of the rows, or a fresh pending row at the end.\<close>

inductive row_change :: "OutboxRow \<Rightarrow> OutboxRow \<Rightarrow> bool" where
  Keep: "row_change r r"
| Take: "Ob_Status r = Pending \<or> Ob_Status r = Claimed \<Longrightarrow> row_change r (outbox_claim now r)"
| Finish: "Ob_Status r = Claimed \<Longrightarrow> row_change r (r\<lparr>Ob_Status := Done\<rparr>)"
| Fail: "Ob_Status r = Claimed \<Longrightarrow> e \<noteq> '''' \<Longrightarrow> row_change r (r\<lparr>Ob_Status := DeadLettered, Ob_LastError := Some e\<rparr>)"

lemma row_change_later: "row_change r r' \<Longrightarrow> row_later r r'"
  by (induction rule: row_change.induct) (simp_all add: row_later_refl row_later_claim row_later_terminal)

lemma row_change_ok: "row_change r r' \<Longrightarrow> row_ok r \<Longrightarrow> row_ok r'"
  by (induction rule: row_change.induct) (auto split: outbox_status.splits)

lemma row_change_keys: "row_change r r' \<Longrightarrow> Ob_ID r' = Ob_ID r \<and> Ob_DedupeKey r' = Ob_DedupeKey r"
  by (induction rule: row_change.induct) simp_all

lemma claim_rows_change:
  assumes "\<And>r. r \<in> set t \<Longrightarrow> Ob_ID r \<in> set ids \<Longrightarrow> Ob_Status r = Pending \<or> Ob_Status r = Claimed"
  shows "\<exists>f. snd (claim_rows now ids t) = map f t \<and> (\<forall>r\<in>set t. row_change r (f r))"
  unfolding claim_rows_table using assms
  by (intro exI [of _ "\<lambda>r. if Ob_ID r \<in> set ids then outbox_claim now r else r"]) (simp add: row_change.intros)

lemma update_claimed_change:
  assumes "\<And>r. Ob_Status r = Claimed \<Longrightarrow> row_change r (g r)"
  shows "\<exists>f. fst (update_claimed g i t) = map f t \<and> (\<forall>r\<in>set t. row_change r (f r))"
  unfolding update_claimed_def using assms
  by (intro exI [of _ "\<lambda>r. if Ob_ID r = i \<and> Ob_Status r = Claimed then g r else r"]) (simp add: row_change.Keep)

lemma outbox_step_shape:
  assumes "outbox_step t t'" "distinct (ob_ids t)"
  shows "(\<exists>f. t' = map f t \<and> (\<forall>r\<in>set t. row_change r (f r))) \<or>
    (\<exists>r. t' = t @ [r] \<and> row_ok r \<and> Ob_ID r \<notin> set (ob_ids t) \<and> Ob_DedupeKey r \<notin> Ob_DedupeKey ` set t)"
  using assms
proof (induction rule: outbox_step.induct)
  case (Append newid t ev t')
  then have "\<forall>r\<in>set t. Ob_DedupeKey r \<noteq> OE_DedupeKey ev"
    by (auto simp: OutboxRepo_Append_def list_ex_iff split: if_splits)
  then have "OE_DedupeKey ev \<notin> Ob_DedupeKey ` set t" by (metis imageE)
  then show ?case using Append by (auto simp: OutboxRepo_Append_def split: if_splits)
next
  case (Claim now locked limit t evs t')
  have "t' = snd (claim_rows now (claim_ids now locked (nat limit) t) t)"
    using Claim(1) by (auto simp: ClaimBatch_def ClaimOutboxBatch_def split: if_splits)
  moreover have "Ob_Status r = Pending \<or> Ob_Status r = Claimed"
    if "r \<in> set t" "Ob_ID r \<in> set (claim_ids now locked (nat limit) t)" for r
    using claimed_row_due [OF Claim(2) that] by (auto simp: outbox_due_def)
  ultimately show ?case using claim_rows_change by metis
next
  case (Reclaim now locked n t evs t')
  have "t' = snd (claim_rows now (reclaim_ids now locked n t) t)"
    using Reclaim(1) by (simp add: ReclaimExpiredOutboxLeases_def)
  moreover have "Ob_Status r = Pending \<or> Ob_Status r = Claimed"
    if "r \<in> set t" "Ob_ID r \<in> set (reclaim_ids now locked n t)" for r
    using reclaimed_row_claimed [OF Reclaim(2) that] by simp
  ultimately show ?case using claim_rows_change by metis
next
  case (Ack i t t')
  then have "t' = fst (update_claimed (\<lambda>r. r\<lparr>Ob_Status := Done\<rparr>) i t)"
    by (simp add: OutboxRelay_Ack_def AckOutbox_def)
  then show ?case using update_claimed_change [of "\<lambda>r. r\<lparr>Ob_Status := Done\<rparr>"] row_change.Finish by metis
next
  case (DeadLetter i cause t t')
  then have "cause \<noteq> ''''"
    and "t' = fst (update_claimed (\<lambda>r. r\<lparr>Ob_Status := DeadLettered, Ob_LastError := Some cause\<rparr>) i t)"
    by (simp_all add: OutboxRelay_DeadLetter_def DeadLetterOutbox_def split: if_splits)
  then show ?case
    using update_claimed_change [of "\<lambda>r. r\<lparr>Ob_Status := DeadLettered, Ob_LastError := Some cause\<rparr>"]
      row_change.Fail by metis
qed

lemma outbox_step_ok:
  assumes "outbox_step t t'" "outbox_ok t"
  shows "outbox_ok t'"
proof -
  have "distinct (ob_ids t)" using assms(2) by (simp add: outbox_ok_def)
  from outbox_step_shape [OF assms(1) this] show ?thesis
  proof (elim disjE exE conjE)
    fix f assume f: "t' = map f t" "\<forall>r\<in>set t. row_change r (f r)"
    then have "map Ob_ID t' = map Ob_ID t" "map Ob_DedupeKey t' = map Ob_DedupeKey t"
      by (auto dest: row_change_keys)
    moreover have "\<forall>r\<in>set t'. row_ok r"
      using f assms(2) row_change_ok unfolding outbox_ok_def by (metis (no_types, lifting) imageE list.set_map)
    ultimately show ?thesis using assms(2) by (simp add: outbox_ok_def ob_ids_def)
  next
    fix r assume "t' = t @ [r]" "row_ok r" "Ob_ID r \<notin> set (ob_ids t)" "Ob_DedupeKey r \<notin> Ob_DedupeKey ` set t"
    then show ?thesis using assms(2) by (auto simp: outbox_ok_def ob_ids_def simp del: row_ok.simps)
  qed
qed

lemma outbox_step_later:
  assumes "outbox_step t t'" "outbox_ok t"
  shows "table_later t t'"
proof -
  have "distinct (ob_ids t)" using assms(2) by (simp add: outbox_ok_def)
  from outbox_step_shape [OF assms(1) this] show ?thesis
  proof (elim disjE exE conjE)
    fix f assume "t' = map f t" "\<forall>r\<in>set t. row_change r (f r)"
    then show ?thesis by (simp add: table_later_map row_change_later)
  next
    fix r assume "t' = t @ [r]"
    then show ?thesis by (simp add: table_later_def list_all2_refl row_later_refl)
  qed
qed

lemma outbox_reaches_ok_later:
  assumes "outbox_reaches t t'" "outbox_ok t"
  shows "outbox_ok t' \<and> table_later t t'"
  using assms unfolding outbox_reaches_def
proof (induction rule: rtranclp_induct)
  case base
  then show ?case by (simp add: table_later_def list_all2_refl row_later_refl)
next
  case (step t' t'')
  then show ?case
    using outbox_step_ok outbox_step_later table_later_trans by blast
qed

text \<open>Whatever commands and relays do to the queue from empty, in any order, its identifiers and keys stay
  unique and each row is in a state of its machine: a pending row was never attempted, a claimed
  one has a lease, a dead-lettered one says why.\<close>

theorem outbox_invariant: "outbox_reaches [] t \<Longrightarrow> outbox_ok t"
  using outbox_reaches_ok_later [of "[]" t] by (simp add: outbox_ok_def ob_ids_def)

text \<open>C21: No row is lost or rewritten: after any further steps it is at its place with its content, with at
  least as many attempts, and exactly as it was once delivered or dead-lettered.\<close>

theorem outbox_rows_are_final:
  assumes "outbox_reaches [] t" "outbox_reaches t t'" "k < length t"
  shows "k < length t' \<and> same_row (t ! k) (t' ! k) \<and> Ob_Attempts (t ! k) \<le> Ob_Attempts (t' ! k) \<and>
    (Ob_Status (t ! k) = Done \<or> Ob_Status (t ! k) = DeadLettered \<longrightarrow> t' ! k = t ! k) \<and>
    (Ob_Status (t ! k) = Claimed \<longrightarrow> Ob_Status (t' ! k) \<noteq> Pending)"
proof -
  have "outbox_ok t"
    using outbox_reaches_ok_later [of "[]" t] assms(1) by (simp add: outbox_ok_def ob_ids_def)
  from outbox_reaches_ok_later [OF assms(2) this] have "table_later t t'" by blast
  then have "length t \<le> length t'" "row_later (t ! k) (t' ! k)"
    using assms(3) by (auto simp: table_later_def list_all2_conv_all_nth)
  then show ?thesis using assms(3) by (simp add: row_later_def)
qed

section \<open>Claims\<close>

text \<open>The due rows no other worker holds, in the order of the claim.\<close>

definition due_rows :: "time \<Rightarrow> string list \<Rightarrow> outbox \<Rightarrow> outbox" where
  "due_rows now locked t = sort_key Ob_AvailableAt (sort_key Ob_ID
     (filter (\<lambda>r. outbox_due now r \<and> Ob_ID r \<notin> set locked) t))"

lemma set_due_rows: "set (due_rows now locked t) = {r \<in> set t. outbox_due now r \<and> Ob_ID r \<notin> set locked}"
  by (simp add: due_rows_def)

lemma distinct_due_rows: "distinct (ob_ids t) \<Longrightarrow> distinct (map Ob_ID (due_rows now locked t))"
proof -
  assume "distinct (ob_ids t)"
  then have "inj_on Ob_ID (set t)" "distinct t" by (simp_all add: ob_ids_def distinct_map)
  then show ?thesis
    by (auto simp: due_rows_def distinct_map intro: inj_on_subset)
qed

lemma claim_ids_due_rows: "claim_ids now locked n t = map Ob_ID (take n (due_rows now locked t))"
  by (simp add: claim_ids_def due_rows_def)

lemma ClaimBatch_Ok:
  assumes "ClaimBatch now locked limit t = Inr (evs, t')"
  shows "evs = fst (claim_rows now (claim_ids now locked (nat limit) t) t)"
    "t' = snd (claim_rows now (claim_ids now locked (nat limit) t) t)"
  using assms by (auto simp: ClaimBatch_def ClaimOutboxBatch_def split: if_splits)

lemma claim_event_ids:
  assumes "ClaimBatch now locked limit t = Inr (evs, t')"
  shows "CE_ID ` set evs = set (claim_ids now locked (nat limit) t)"
proof -
  let ?ids = "claim_ids now locked (nat limit) t"
  have "CE_ID ` set evs = set (filter (\<lambda>i. i \<in> set ?ids) (ob_ids t))"
    unfolding ClaimBatch_Ok(1) [OF assms] by (metis claim_rows_event_ids list.set_map)
  moreover have "set ?ids \<subseteq> set (ob_ids t)"
    using claim_ids_due [of now locked "nat limit" t] by (auto simp: ob_ids_def)
  ultimately show ?thesis by auto
qed

text \<open>A claim hands out the oldest due rows, as many as the limit allows, with the attempt counted; none
  that another worker holds.\<close>

theorem claim_takes_the_oldest_due:
  assumes "distinct (ob_ids t)" "ClaimBatch now locked limit t = Inr (evs, t')"
  shows "length evs = min (nat limit) (length (due_rows now locked t)) \<and>
    (\<forall>e\<in>set evs. \<exists>r\<in>set (due_rows now locked t). e = claimed_event r\<lparr>CE_Attempts := Ob_Attempts r + 1\<rparr>) \<and>
    (\<forall>r\<in>set (due_rows now locked t). \<forall>r'\<in>set (due_rows now locked t).
       Ob_ID r \<in> CE_ID ` set evs \<and> Ob_ID r' \<notin> CE_ID ` set evs \<longrightarrow> Ob_AvailableAt r \<le> Ob_AvailableAt r')"
proof (intro conjI ballI impI)
  let ?rows = "due_rows now locked t"
  let ?ids = "claim_ids now locked (nat limit) t"
  have d: "distinct (map CE_ID evs)"
    using pg.claim_law [of t now locked limit evs t'] assms by (simp add: pg_store_def)
  have "length evs = card (CE_ID ` set evs)"
    using distinct_card [OF d] by simp
  also have "\<dots> = card (set ?ids)"
    by (simp add: claim_event_ids [OF assms(2)])
  also have "\<dots> = length ?ids"
    using distinct_due_rows [OF assms(1)] unfolding claim_ids_due_rows
    by (metis distinct_card distinct_take take_map)
  finally show "length evs = min (nat limit) (length ?rows)"
    by (simp add: claim_ids_due_rows min.commute)
  fix e
  assume "e \<in> set evs"
  then obtain r where r: "r \<in> set t" "Ob_ID r \<in> set ?ids" "e = claimed_event (outbox_claim now r)"
    unfolding ClaimBatch_Ok(1) [OF assms(2)] claim_rows_events by auto
  then have "r \<in> set ?rows"
    using claimed_row_due [OF assms(1)] by (simp add: set_due_rows)
  moreover have "e = claimed_event r\<lparr>CE_Attempts := Ob_Attempts r + 1\<rparr>"
    using r(3) by (simp add: claimed_event_def outbox_claim_def)
  ultimately show "\<exists>r\<in>set ?rows. e = claimed_event r\<lparr>CE_Attempts := Ob_Attempts r + 1\<rparr>" by blast
next
  let ?rows = "due_rows now locked t"
  fix r r'
  assume r: "r \<in> set ?rows" "r' \<in> set ?rows"
    and c: "Ob_ID r \<in> CE_ID ` set evs \<and> Ob_ID r' \<notin> CE_ID ` set evs"
  have inj: "inj_on Ob_ID (set ?rows)"
    using distinct_due_rows [OF assms(1)] by (simp add: distinct_map)
  have "r \<in> set (take (nat limit) ?rows)" "r' \<notin> set (take (nat limit) ?rows)"
    using c r inj unfolding claim_event_ids [OF assms(2)] claim_ids_due_rows
    by (auto dest: inj_onD in_set_takeD)
  then have "r' \<in> set (drop (nat limit) ?rows)" "r \<in> set (take (nat limit) ?rows)"
    using r(2) by (metis Un_iff append_take_drop_id set_append, blast)
  moreover have "sorted (map Ob_AvailableAt (take (nat limit) ?rows @ drop (nat limit) ?rows))"
    by (simp add: due_rows_def)
  ultimately show "Ob_AvailableAt r \<le> Ob_AvailableAt r'"
    by (auto simp: sorted_append simp del: append_take_drop_id)
qed



section \<open>Witnesses\<close>

definition sample_row :: "string \<Rightarrow> string \<Rightarrow> OutboxRow" where
  "sample_row i ty = \<lparr>Ob_ID = i, Ob_Type = ty, Ob_Payload = '''', Ob_Status = Pending, Ob_AvailableAt = 5,
     Ob_LeaseUntil = None, Ob_Attempts = 0, Ob_LastError = None, Ob_DedupeKey = ''k:'' @ i, Ob_CreatedAt = 5\<rparr>"

definition sample_table :: outbox where
  "sample_table = [sample_row ''1'' ''mail'', sample_row ''2'' ''hook'', (sample_row ''3'' ''hook'')
     \<lparr>Ob_Status := Claimed, Ob_LeaseUntil := Some 6, Ob_Attempts := 4\<rparr>, sample_row ''4'' ''odd'']"

definition sample_handlers :: handlers where
  "sample_handlers = [''mail'' \<mapsto> (\<lambda>e. Delivered), ''hook'' \<mapsto> (\<lambda>e. Temporary ''down'')]"

lemmas sample_defs = sample_table_def sample_row_def sample_handlers_def

lemma claim_two: "ClaimBatch now locked 2 t =
    Inr (fst (ClaimOutboxBatch now locked 2 t), snd (ClaimOutboxBatch now locked 2 t))"
  by (simp add: ClaimBatch_def)

lemma claim_takes_the_oldest_due_witness:
  "length (fst (ClaimOutboxBatch 7 [''2''] 2 sample_table)) = 2"
proof -
  have "distinct (ob_ids sample_table)" by (simp add: ob_ids_def sample_defs)
  moreover have "length (due_rows 7 [''2''] sample_table) = 3" by code_simp
  ultimately show ?thesis using claim_takes_the_oldest_due [OF _ claim_two, of sample_table 7 "[''2'']"] by simp
qed



lemma one_step: "outbox_step s t \<Longrightarrow> outbox_reaches s t"
  by (simp add: outbox_reaches_def)

lemma three_steps: "outbox_step s t \<Longrightarrow> outbox_step t u \<Longrightarrow> outbox_step u v \<Longrightarrow> outbox_reaches s v"
  by (simp add: outbox_reaches_def)

lemma outbox_rows_are_final_witness:
  "\<exists>t t'. outbox_reaches [] t \<and> outbox_reaches t t' \<and> 0 < length t \<and> Ob_Status (t ! 0) = Done \<and> t' ! 0 = t ! 0"
proof -
  define ev where "ev = \<lparr>OE_Type = ''mail'', OE_Payload = '''', OE_DedupeKey = ''k:1'', OE_AvailableAt = 5, OE_CreatedAt = 5\<rparr>"
  let ?t1 = "[sample_row ''1'' ''mail'']"
  let ?t2 = "snd (ClaimOutboxBatch 7 [] 2 ?t1)"
  let ?t3 = "fst (AckOutbox ''1'' ?t2)"
  let ?t4 = "fst (DeadLetterOutbox ''1'' (Some ''late'') ?t3)"
  have a: "outbox_step [] ?t1"
    by (rule outbox_step.Append [of "''1''" _ ev]) (simp_all add: ob_ids_def OutboxRepo_Append_def ev_def sample_row_def)
  have b: "outbox_step ?t1 ?t2"
    by (rule outbox_step.Claim [of 7 "[]" 2 _ "fst (ClaimOutboxBatch 7 [] 2 ?t1)"]) (simp add: ClaimBatch_def)
  have c: "outbox_step ?t2 ?t3"
    by (rule outbox_step.Ack [of "''1''"]) (simp add: OutboxRelay_Ack_def)
  have l: "outbox_step ?t3 ?t4"
    by (rule outbox_step.DeadLetter [of "''1''" "''late''"]) (simp add: OutboxRelay_DeadLetter_def)
  have r: "outbox_reaches [] ?t3" "outbox_reaches ?t3 ?t4"
    by (rule three_steps [OF a b c], rule one_step [OF l])
  have s: "0 < length ?t3 \<and> Ob_Status (?t3 ! 0) = Done" by code_simp
  have "?t4 ! 0 = ?t3 ! 0" using outbox_rows_are_final [OF r, of 0] s by simp
  with r s show ?thesis by blast
qed

lemma outbox_invariant_witness: "outbox_ok (fst (AckOutbox ''1'' [sample_row ''1'' ''mail'']))"
proof -
  define ev where "ev = \<lparr>OE_Type = ''mail'', OE_Payload = '''', OE_DedupeKey = ''k:1'', OE_AvailableAt = 5, OE_CreatedAt = 5\<rparr>"
  have "outbox_step [] [sample_row ''1'' ''mail'']"
    by (rule outbox_step.Append [of "''1''" _ ev]) (simp_all add: ob_ids_def OutboxRepo_Append_def ev_def sample_row_def)
  moreover have "outbox_step [sample_row ''1'' ''mail''] (fst (AckOutbox ''1'' [sample_row ''1'' ''mail'']))"
    by (rule outbox_step.Ack [of "''1''"]) (simp add: OutboxRelay_Ack_def)
  ultimately have "outbox_reaches [] (fst (AckOutbox ''1'' [sample_row ''1'' ''mail'']))"
    unfolding outbox_reaches_def by (rule rtranclp.rtrancl_into_rtrancl [OF r_into_rtranclp])
  then show ?thesis by (rule outbox_invariant)
qed

text \<open>A permanent failure with an empty text: the row stays claimed, the drain stops with the rows after it
  untouched, and the same happens after every lease.\<close>

lemma unexplained_failure_blocks_the_drain:
  "Drain (pg_store 7 []) [''hook'' \<mapsto> (\<lambda>e. Permanent ''''), ''mail'' \<mapsto> (\<lambda>e. Delivered)]
     [sample_row ''1'' ''hook'', sample_row ''2'' ''mail''] =
   (Err (AppError KindValidation ''outbox.dead_letter''),
    snd (ClaimOutboxBatch 7 [] 50 [sample_row ''1'' ''hook'', sample_row ''2'' ''mail'']))"
  by code_simp

end
