(* ===== verification/PgStore.thy ===== *)
theory PgStore
  imports Outbox
begin

text \<open>
  What the repositories share (internal/adapters/postgres/repo/dbmap.go): the failures of a statement
  and their classes, timestamps of microsecond resolution, nullable columns; and the runner of a
  transaction, which keeps the state of the database unless the body succeeds.
\<close>

section \<open>Failures of a statement\<close>

datatype db_error =
    NoRows | UniqueViolation | ForeignKeyViolation | NotNullViolation | CheckViolation
  | InvalidText | OtherFailure

text \<open>\<open>mapDBError\<close>, with the error of the application layer it makes of a driver error.\<close>

fun db_error_class :: "db_error \<Rightarrow> ErrorKind" where
  "db_error_class NoRows = KindNotFound"
| "db_error_class UniqueViolation = KindConflict"
| "db_error_class ForeignKeyViolation = KindValidation"
| "db_error_class NotNullViolation = KindValidation"
| "db_error_class CheckViolation = KindValidation"
| "db_error_class InvalidText = KindValidation"
| "db_error_class OtherFailure = KindInfra"

definition mapDBError :: "string \<Rightarrow> db_error \<Rightarrow> app_error" where
  "mapDBError op err = AppError (db_error_class err) op"

definition db_result :: "string \<Rightarrow> db_error + 'a \<Rightarrow> app_error + 'a" where
  "db_result op m = (case m of Inl e \<Rightarrow> Err (mapDBError op e) | Inr a \<Rightarrow> Ok a)"

lemma db_result_simps [simp]:
  "db_result op (Inl e) = Inl (mapDBError op e)"
  "db_result op (Inr a) = Inr a"
  by (simp_all add: db_result_def)

lemma db_result_Ok_iff [result_simps]: "db_result op m = Inr a \<longleftrightarrow> m = Inr a"
  by (cases m) auto

abbreviation Validationf :: "string \<Rightarrow> app_error + 'a" where
  "Validationf op \<equiv> Err (AppError KindValidation op)"
abbreviation InfraError :: "string \<Rightarrow> app_error + 'a" where
  "InfraError op \<equiv> Err (AppError KindInfra op)"
abbreviation ConflictError :: "string \<Rightarrow> app_error + 'a" where
  "ConflictError op \<equiv> Err (AppError KindConflict op)"
abbreviation Forbiddenf :: "string \<Rightarrow> app_error + 'a" where
  "Forbiddenf op \<equiv> Err (AppError KindForbidden op)"

text \<open>A failure of the domain or of the encoder, given a class of the application layer.\<close>

definition app_result :: "ErrorKind \<Rightarrow> string \<Rightarrow> 'e + 'a \<Rightarrow> app_error + 'a" where
  "app_result kind op m = (case m of Inl _ \<Rightarrow> Err (AppError kind op) | Inr a \<Rightarrow> Ok a)"

lemma app_result_simps [simp]:
  "app_result kind op (Inl e) = Inl (AppError kind op)"
  "app_result kind op (Inr a) = Inr a"
  by (simp_all add: app_result_def)

lemma app_result_Ok_iff [result_simps]: "app_result kind op m = Inr a \<longleftrightarrow> m = Inr a"
  by (cases m) auto

section \<open>Columns\<close>

text \<open>An instant as the driver writes it: the microsecond it lies in.\<close>

definition time_Micro :: duration where "time_Micro = 1000"

definition pg_time :: "time \<Rightarrow> time" where
  "pg_time t = t - t mod time_Micro"

text \<open>\<open>toTSPtr\<close>, \<open>tsTime\<close>: the zero time is \<open>NULL\<close>.\<close>

definition toTSPtr :: "time \<Rightarrow> time option" where
  "toTSPtr t = (if time_IsZero t then None else Some (pg_time t))"

fun tsTime :: "time option \<Rightarrow> time" where
  "tsTime None = 0"
| "tsTime (Some t) = t"

definition max_int32 :: int where "max_int32 = 2147483647"
definition max_int64 :: int where "max_int64 = 9223372036854775807"

lemma pg_time_le: "pg_time t \<le> t"
  by (simp add: pg_time_def time_Micro_def)

lemma pg_time_near: "t < pg_time t + time_Micro"
proof -
  have "t mod time_Micro < time_Micro" by (simp add: time_Micro_def)
  then show ?thesis by (simp add: pg_time_def)
qed

lemma pg_time_idem: "pg_time (pg_time t) = pg_time t"
  by (simp add: pg_time_def time_Micro_def)

lemma pg_time_mono: "s \<le> t \<Longrightarrow> pg_time s \<le> pg_time t"
  unfolding pg_time_def minus_mod_eq_mult_div by (simp add: time_Micro_def zdiv_mono1)

section \<open>Transactions\<close>

text \<open>The body of a transaction reads and writes the database; a failure rolls back.\<close>

definition runTx :: "('db \<Rightarrow> 'e + 'a \<times> 'db) \<Rightarrow> 'db \<Rightarrow> ('e + 'a) \<times> 'db" where
  "runTx body db = (case body db of Inl e \<Rightarrow> (Err e, db) | Inr (a, db') \<Rightarrow> (Ok a, db'))"

definition tx_bind :: "('db \<Rightarrow> 'e + 'a \<times> 'db) \<Rightarrow> ('a \<Rightarrow> 'db \<Rightarrow> 'e + 'b \<times> 'db) \<Rightarrow> 'db \<Rightarrow> 'e + 'b \<times> 'db" where
  "tx_bind m f db = (case m db of Inl e \<Rightarrow> Err e | Inr (a, db') \<Rightarrow> f a db')"

definition tx_return :: "'a \<Rightarrow> 'db \<Rightarrow> 'e + 'a \<times> 'db" where
  "tx_return a db = Ok (a, db)"

definition tx_lift :: "'e + 'a \<Rightarrow> 'db \<Rightarrow> 'e + 'a \<times> 'db" where
  "tx_lift m db = (case m of Inl e \<Rightarrow> Err e | Inr a \<Rightarrow> Ok (a, db))"

fun tx_each :: "('v \<Rightarrow> 'db \<Rightarrow> 'e + unit \<times> 'db) \<Rightarrow> 'v list \<Rightarrow> 'db \<Rightarrow> 'e + unit \<times> 'db" where
  "tx_each f [] = tx_return ()"
| "tx_each f (x # xs) = tx_bind (f x) (\<lambda>_. tx_each f xs)"

named_theorems tx_simps "how transactions are taken apart"

lemma tx_bind_Ok_iff [tx_simps]:
  "tx_bind m f db = Inr r \<longleftrightarrow> (\<exists>a db'. m db = Inr (a, db') \<and> f a db' = Inr r)"
  by (auto simp: tx_bind_def split: sum.splits prod.splits)

lemma tx_return_Ok_iff [tx_simps]: "tx_return a db = Inr r \<longleftrightarrow> r = (a, db)"
  by (auto simp: tx_return_def)

lemma tx_lift_Ok_iff [tx_simps]: "tx_lift m db = Inr r \<longleftrightarrow> m = Inr (fst r) \<and> snd r = db"
  by (cases r) (auto simp: tx_lift_def split: sum.splits)

lemma runTx_Ok_iff [tx_simps]: "runTx body db = (Inr a, db') \<longleftrightarrow> body db = Inr (a, db')"
  by (auto simp: runTx_def split: sum.splits prod.splits)

text \<open>A failed transaction leaves no trace.\<close>

lemma runTx_Err: "runTx body db = (Inl e, db') \<Longrightarrow> db' = db"
  by (auto simp: runTx_def split: sum.splits prod.splits)

lemma runTx_keeps:
  "(\<And>a db'. body db = Inr (a, db') \<Longrightarrow> P db') \<Longrightarrow> P db \<Longrightarrow> P (snd (runTx body db))"
  by (auto simp: runTx_def split: sum.splits prod.splits)

section \<open>Tables\<close>

text \<open>\<open>UPDATE ... WHERE key AND guard RETURNING\<close> on a table whose key is unique: the row that
  matches is replaced and returned; no row is \<open>NoRows\<close>; the update may violate a constraint.\<close>

definition update_row ::
  "('r \<Rightarrow> bool) \<Rightarrow> ('r \<Rightarrow> db_error + 'r) \<Rightarrow> 'r list \<Rightarrow> db_error + 'r \<times> 'r list" where
  "update_row P f rows =
     (case find P rows of
        None \<Rightarrow> Err NoRows
      | Some r \<Rightarrow> rbind (f r) (\<lambda>r'. Ok (r', map (\<lambda>x. if P x then r' else x) rows)))"

definition select_row :: "('r \<Rightarrow> bool) \<Rightarrow> 'r list \<Rightarrow> db_error + 'r" where
  "select_row P rows = (case find P rows of None \<Rightarrow> Err NoRows | Some r \<Rightarrow> Ok r)"

lemma update_row_Ok_iff [result_simps]:
  "update_row P f rows = Inr (r', rows') \<longleftrightarrow>
     (\<exists>r. find P rows = Some r \<and> f r = Inr r' \<and> rows' = map (\<lambda>x. if P x then r' else x) rows)"
  by (auto simp: update_row_def result_simps split: option.splits)

lemma select_row_Ok_iff [result_simps]: "select_row P rows = Inr r \<longleftrightarrow> find P rows = Some r"
  by (auto simp: select_row_def split: option.splits)

lemma find_SomeD: "find P xs = Some x \<Longrightarrow> x \<in> set xs \<and> P x"
  by (auto simp: find_Some_iff in_set_conv_nth)

lemma find_unique:
  assumes "distinct (map key xs)" "x \<in> set xs" "P x" "\<And>y. P y \<Longrightarrow> key y = key x"
  shows "find P xs = Some x"
  using assms
proof (induction xs)
  case (Cons y ys)
  show ?case
  proof (cases "y = x")
    case True
    then show ?thesis using Cons.prems(3) by simp
  next
    case False
    then have x: "x \<in> set ys" using Cons.prems(2) by simp
    then have "key y \<noteq> key x" using Cons.prems(1) by (metis distinct.simps(2) image_eqI list.set_map list.simps(9))
    then have "\<not> P y" using Cons.prems(4) by blast
    moreover have "find P ys = Some x"
      by (rule Cons.IH [OF _ x Cons.prems(3,4)]) (use Cons.prems(1) in simp_all)
    ultimately show ?thesis by simp
  qed
qed simp

section \<open>Guarded updates of a keyed table\<close>

definition row_at :: "('r \<Rightarrow> 'k) \<Rightarrow> 'k \<Rightarrow> 'r list \<Rightarrow> 'r option" where
  "row_at key k rows = find (\<lambda>r. key r = k) rows"

lemma row_at_Some: "row_at key k rows = Some r \<Longrightarrow> r \<in> set rows \<and> key r = k"
  unfolding row_at_def by (rule find_SomeD)

lemma row_at_None: "row_at key k rows = None \<longleftrightarrow> k \<notin> key ` set rows"
  by (auto simp: row_at_def find_None_iff)

lemma row_at_unique: "distinct (map key rows) \<Longrightarrow> r \<in> set rows \<Longrightarrow> row_at key (key r) rows = Some r"
  unfolding row_at_def by (rule find_unique [where key = key]) simp_all

lemma row_at_append:
  "key r \<notin> key ` set rows \<Longrightarrow> row_at key j (rows @ [r]) = (if j = key r then Some r else row_at key j rows)"
  by (induction rows) (auto simp: row_at_def)

lemma row_at_map_other:
  assumes "\<And>x. x \<in> set rows \<Longrightarrow> key (g x) = key x" "\<And>x. x \<in> set rows \<Longrightarrow> key x = j \<Longrightarrow> g x = x"
  shows "row_at key j (map g rows) = row_at key j rows"
  using assms by (induction rows) (auto simp: row_at_def)

text \<open>
  A guarded update: its guard selects by the key, its assignment keeps the key. Over a table with
  unique keys it changes the row of that key alone, provided that the guard holds of it.
\<close>

locale guarded_update =
  fixes key :: "'r \<Rightarrow> 'k" and k :: 'k and P :: "'r \<Rightarrow> bool" and f :: "'r \<Rightarrow> db_error + 'r"
  assumes guard_key: "P r \<Longrightarrow> key r = k"
    and keeps_key: "P r \<Longrightarrow> f r = Inr r' \<Longrightarrow> key r' = key r"
begin

lemma find_guard: "distinct (map key rows) \<Longrightarrow> P r \<Longrightarrow> r \<in> set rows \<Longrightarrow> find P rows = Some r"
  by (rule find_unique [where key = key]) (simp_all add: guard_key)

lemma update_hit:
  assumes "distinct (map key rows)" "row_at key k rows = Some r" "P r"
  shows "update_row P f rows = rbind (f r) (\<lambda>r'. Ok (r', map (\<lambda>x. if P x then r' else x) rows))"
  using find_guard [OF assms(1,3)] row_at_Some [OF assms(2)] by (simp add: update_row_def)

lemma update_miss:
  assumes "distinct (map key rows)" "\<And>r. row_at key k rows = Some r \<Longrightarrow> \<not> P r"
  shows "update_row P f rows = Err NoRows"
proof -
  have "find P rows = None"
    unfolding find_None_iff
  proof
    assume "\<exists>x. x \<in> set rows \<and> P x"
    then obtain x where "x \<in> set rows" "P x" by blast
    then show False using assms(2) row_at_unique [OF assms(1)] guard_key by metis
  qed
  then show ?thesis by (simp add: update_row_def)
qed

lemma update_Ok:
  assumes "distinct (map key rows)" "update_row P f rows = Inr (r', rows')"
  shows "\<exists>r. row_at key k rows = Some r \<and> P r \<and> f r = Inr r'"
    "map key rows' = map key rows"
    "row_at key j rows' = (if j = k then Some r' else row_at key j rows)"
    "set rows' \<subseteq> insert r' (set rows)"
proof -
  obtain r where r: "find P rows = Some r" "f r = Inr r'" "rows' = map (\<lambda>x. if P x then r' else x) rows"
    using assms(2) by (auto simp: update_row_Ok_iff)
  have m: "r \<in> set rows" "P r" using find_SomeD [OF r(1)] by simp_all
  have k: "key r = k" "key r' = k" using guard_key [OF m(2)] keeps_key [OF m(2) r(2)] by simp_all
  show "\<exists>r. row_at key k rows = Some r \<and> P r \<and> f r = Inr r'"
    using row_at_unique [OF assms(1) m(1)] m(2) r(2) k by auto
  have only: "x = r" if "x \<in> set rows" "P x" for x
    using find_guard [OF assms(1) that(2,1)] r(1) by simp
  show keys: "map key rows' = map key rows"
    using only k by (auto simp: r(3))
  show "set rows' \<subseteq> insert r' (set rows)" by (auto simp: r(3))
  show "row_at key j rows' = (if j = k then Some r' else row_at key j rows)"
  proof (cases "j = k")
    case True
    have "r' \<in> set rows'" using m by (auto simp: r(3))
    then show ?thesis using True row_at_unique [of key rows' r'] keys assms(1) k by simp
  next
    case False
    have "row_at key j (map (\<lambda>x. if P x then r' else x) rows) = row_at key j rows"
      by (rule row_at_map_other) (use guard_key k False in auto)
    then show ?thesis using False by (simp add: r(3))
  qed
qed

end

end
