(* ===== verification/SlaStore.thy ===== *)
theory SlaStore
  imports PgStore Sla
begin

text \<open>
  The table of SLA clocks: its statements (postgres/gen/sla_clocks.sql.go) and its repository
  (postgres/repo/slaclock.go). One row per signal and target; the statements repeat the
  preconditions of the domain operations of theory Sla as guards of an update.
\<close>

section \<open>Rows\<close>

record SlaClockRow =
  SCR_ID :: string
  SCR_SignalID :: string
  SCR_Target :: SLATarget
  SCR_StartedAt :: time
  SCR_DeadlineAt :: time
  SCR_FulfilledAt :: "time option"
  SCR_PausedSeconds :: int
  SCR_PausedAt :: "time option"

type_synonym clocks = "SlaClockRow list"

definition slaClockFromRow :: "SlaClockRow \<Rightarrow> SlaClock" where
  "slaClockFromRow r =
     \<lparr>Clk_ID = SCR_ID r, Clk_SignalID = SCR_SignalID r, Clk_Target = SCR_Target r,
      Clk_StartedAt = SCR_StartedAt r, Clk_DeadlineAt = SCR_DeadlineAt r,
      Clk_FulfilledAt = tsTime (SCR_FulfilledAt r), Clk_PausedSeconds = SCR_PausedSeconds r,
      Clk_PausedAt = tsTime (SCR_PausedAt r)\<rparr>"

definition clock_key :: "string \<Rightarrow> SLATarget \<Rightarrow> SlaClockRow \<Rightarrow> bool" where
  "clock_key sid target r \<longleftrightarrow> SCR_SignalID r = sid \<and> SCR_Target r = target"

section \<open>Statements\<close>

definition FulfilSlaClock :: "time \<Rightarrow> string \<Rightarrow> SLATarget \<Rightarrow> clocks \<Rightarrow> db_error + SlaClockRow \<times> clocks" where
  "FulfilSlaClock t sid target =
     update_row (\<lambda>r. clock_key sid target r \<and> SCR_FulfilledAt r = None)
       (\<lambda>r. Ok (r\<lparr>SCR_FulfilledAt := Some t\<rparr>))"

definition GetSlaClock :: "string \<Rightarrow> SLATarget \<Rightarrow> clocks \<Rightarrow> db_error + SlaClockRow" where
  "GetSlaClock sid target = select_row (clock_key sid target)"

definition PauseSlaClock :: "time \<Rightarrow> string \<Rightarrow> SLATarget \<Rightarrow> clocks \<Rightarrow> db_error + SlaClockRow \<times> clocks" where
  "PauseSlaClock t sid target =
     update_row (\<lambda>r. clock_key sid target r \<and> SCR_FulfilledAt r = None \<and> SCR_PausedAt r = None)
       (\<lambda>r. Ok (r\<lparr>SCR_PausedAt := Some t\<rparr>))"

definition ResetSlaClock :: "time \<Rightarrow> time \<Rightarrow> string \<Rightarrow> SLATarget \<Rightarrow> clocks \<Rightarrow> db_error + SlaClockRow \<times> clocks" where
  "ResetSlaClock startedAt deadlineAt sid target =
     update_row (clock_key sid target)
       (\<lambda>r. Ok (r\<lparr>SCR_StartedAt := startedAt, SCR_DeadlineAt := deadlineAt, SCR_FulfilledAt := None,
                  SCR_PausedSeconds := 0, SCR_PausedAt := None\<rparr>))"

text \<open>The cast of a numeric to \<open>bigint\<close> rounds to the nearest integer, halves away from zero; here
  of a number of nanoseconds that is not negative, to seconds.\<close>

definition pg_round_seconds :: "duration \<Rightarrow> int" where
  "pg_round_seconds d = (d + time_Second div 2) div time_Second"

definition ResumeSlaClock :: "time \<Rightarrow> string \<Rightarrow> SLATarget \<Rightarrow> clocks \<Rightarrow> db_error + SlaClockRow \<times> clocks" where
  "ResumeSlaClock t sid target =
     update_row (\<lambda>r. clock_key sid target r \<and> (case SCR_PausedAt r of None \<Rightarrow> False | Some p \<Rightarrow> p \<le> t))
       (\<lambda>r. let n = SCR_PausedSeconds r + pg_round_seconds (t - tsTime (SCR_PausedAt r)) in
          if n > max_int64 then Err OtherFailure
          else Ok (r\<lparr>SCR_PausedSeconds := n, SCR_PausedAt := None\<rparr>))"

text \<open>The scan for breaches; \<open>now\<close> is the database clock.\<close>

definition clock_due :: "time \<Rightarrow> SlaClockRow \<Rightarrow> bool" where
  "clock_due now r \<longleftrightarrow> SCR_FulfilledAt r = None \<and>
     SCR_DeadlineAt r + SCR_PausedSeconds r * time_Second
       + (case SCR_PausedAt r of None \<Rightarrow> 0 | Some p \<Rightarrow> now - p) \<le> now"

definition ScanDueSlaClocks :: "time \<Rightarrow> clocks \<Rightarrow> SlaClockRow list" where
  "ScanDueSlaClocks now rows =
     sort_key SCR_DeadlineAt (sort_key SCR_SignalID (sort_key (SLATarget_str \<circ> SCR_Target)
       (filter (clock_due now) rows)))"

definition TightenSlaClock :: "time \<Rightarrow> string \<Rightarrow> SLATarget \<Rightarrow> clocks \<Rightarrow> db_error + SlaClockRow \<times> clocks" where
  "TightenSlaClock deadlineAt sid target =
     update_row (\<lambda>r. clock_key sid target r \<and> SCR_FulfilledAt r = None \<and> SCR_DeadlineAt r > deadlineAt)
       (\<lambda>r. Ok (r\<lparr>SCR_DeadlineAt := deadlineAt\<rparr>))"

text \<open>\<open>newid\<close> is the column default of a fresh row; a conflicting row keeps its own.\<close>

definition UpsertSlaClock ::
  "string \<Rightarrow> string \<Rightarrow> SLATarget \<Rightarrow> time \<Rightarrow> time \<Rightarrow> time option \<Rightarrow> int \<Rightarrow> time option \<Rightarrow> clocks \<Rightarrow>
     db_error + SlaClockRow \<times> clocks" where
  "UpsertSlaClock newid sid target startedAt deadlineAt fulfilledAt pausedSeconds pausedAt rows =
     (let row = \<lparr>SCR_ID = newid, SCR_SignalID = sid, SCR_Target = target, SCR_StartedAt = startedAt,
            SCR_DeadlineAt = deadlineAt, SCR_FulfilledAt = fulfilledAt,
            SCR_PausedSeconds = pausedSeconds, SCR_PausedAt = pausedAt\<rparr>
      in if list_ex (clock_key sid target) rows
         then update_row (clock_key sid target) (\<lambda>r. Ok (row\<lparr>SCR_ID := SCR_ID r\<rparr>)) rows
         else Ok (row, rows @ [row]))"

section \<open>Repository\<close>

text \<open>\<open>toUUID\<close> and \<open>uuidString\<close>: the canonical text of an identifier, if it is one.\<close>

type_synonym uuids = "string \<Rightarrow> string option"

definition with_uuid :: "uuids \<Rightarrow> string \<Rightarrow> string \<Rightarrow> (string \<Rightarrow> app_error + 'a) \<Rightarrow> app_error + 'a" where
  "with_uuid U op ident k = (case U ident of None \<Rightarrow> Validationf op | Some uid \<Rightarrow> k uid)"

lemma with_uuid_Ok_iff [result_simps]: "with_uuid U op i k = Inr a \<longleftrightarrow> (\<exists>uid. U i = Some uid \<and> k uid = Inr a)"
  by (auto simp: with_uuid_def split: option.splits)

definition guardedClockError :: "string \<Rightarrow> db_error \<Rightarrow> app_error" where
  "guardedClockError op err = (if err = NoRows then AppError KindConflict op else mapDBError op err)"

definition SlaClockRepo_Upsert :: "uuids \<Rightarrow> string \<Rightarrow> SlaClock \<Rightarrow> clocks \<Rightarrow> app_error + SlaClock \<times> clocks" where
  "SlaClockRepo_Upsert U newid clock rows =
     with_uuid U ''sla_clocks.upsert'' (Clk_SignalID clock) (\<lambda>uid.
       guards [(\<not> SLATarget_Valid (Clk_Target clock), AppError KindValidation ''sla_clocks.upsert''),
               (time_IsZero (Clk_StartedAt clock) \<or> time_IsZero (Clk_DeadlineAt clock),
                AppError KindValidation ''sla_clocks.upsert'')]
         (rbind (db_result ''sla_clocks.upsert''
             (UpsertSlaClock newid uid (Clk_Target clock) (pg_time (Clk_StartedAt clock))
                (pg_time (Clk_DeadlineAt clock)) (toTSPtr (Clk_FulfilledAt clock))
                (Clk_PausedSeconds clock) (toTSPtr (Clk_PausedAt clock)) rows))
           (\<lambda>(row, rows'). Ok (slaClockFromRow row, rows'))))"

definition SlaClockRepo_Get :: "uuids \<Rightarrow> string \<Rightarrow> SLATarget \<Rightarrow> clocks \<Rightarrow> app_error + SlaClock option" where
  "SlaClockRepo_Get U signalID target rows =
     with_uuid U ''sla_clocks.get'' signalID (\<lambda>uid.
       if \<not> SLATarget_Valid target then Validationf ''sla_clocks.get''
       else
         (case GetSlaClock uid target rows of
            Inl e \<Rightarrow> (if e = NoRows then Ok None else Err (mapDBError ''sla_clocks.get'' e))
          | Inr row \<Rightarrow> Ok (Some (slaClockFromRow row))))"

text \<open>The guarded writes that report whether they changed the clock.\<close>

definition clock_changed ::
  "string \<Rightarrow> clocks \<Rightarrow> db_error + SlaClockRow \<times> clocks \<Rightarrow> app_error + (SlaClock option) \<times> clocks" where
  "clock_changed op rows m =
     (case m of
        Inl e \<Rightarrow> (if e = NoRows then Ok (None, rows) else Err (mapDBError op e))
      | Inr (row, rows') \<Rightarrow> Ok (Some (slaClockFromRow row), rows'))"

definition SlaClockRepo_Tighten ::
  "uuids \<Rightarrow> string \<Rightarrow> SLATarget \<Rightarrow> time \<Rightarrow> clocks \<Rightarrow> app_error + (SlaClock option) \<times> clocks" where
  "SlaClockRepo_Tighten U signalID target deadlineAt rows =
     with_uuid U ''sla_clocks.tighten'' signalID (\<lambda>uid.
       guards [(\<not> SLATarget_Valid target, AppError KindValidation ''sla_clocks.tighten''),
               (time_IsZero deadlineAt, AppError KindValidation ''sla_clocks.tighten'')]
         (clock_changed ''sla_clocks.tighten'' rows (TightenSlaClock (pg_time deadlineAt) uid target rows)))"

definition SlaClockRepo_Fulfil ::
  "uuids \<Rightarrow> string \<Rightarrow> SLATarget \<Rightarrow> time \<Rightarrow> clocks \<Rightarrow> app_error + (SlaClock option) \<times> clocks" where
  "SlaClockRepo_Fulfil U signalID target t rows =
     with_uuid U ''sla_clocks.fulfil'' signalID (\<lambda>uid.
       guards [(\<not> SLATarget_Valid target, AppError KindValidation ''sla_clocks.fulfil''),
               (time_IsZero t, AppError KindValidation ''sla_clocks.fulfil'')]
         (clock_changed ''sla_clocks.fulfil'' rows (FulfilSlaClock (pg_time t) uid target rows)))"

text \<open>The guarded writes for which a guard that does not match is a conflict.\<close>

definition clock_guarded :: "string \<Rightarrow> db_error + SlaClockRow \<times> clocks \<Rightarrow> app_error + SlaClock \<times> clocks" where
  "clock_guarded op m =
     (case m of
        Inl e \<Rightarrow> Err (guardedClockError op e)
      | Inr (row, rows') \<Rightarrow> Ok (slaClockFromRow row, rows'))"

definition SlaClockRepo_Pause :: "uuids \<Rightarrow> string \<Rightarrow> SLATarget \<Rightarrow> time \<Rightarrow> clocks \<Rightarrow> app_error + SlaClock \<times> clocks" where
  "SlaClockRepo_Pause U signalID target t rows =
     with_uuid U ''sla_clocks.pause'' signalID (\<lambda>uid.
       guards [(\<not> SLATarget_Valid target, AppError KindValidation ''sla_clocks.pause''),
               (time_IsZero t, AppError KindValidation ''sla_clocks.pause'')]
         (clock_guarded ''sla_clocks.pause'' (PauseSlaClock (pg_time t) uid target rows)))"

definition SlaClockRepo_Resume :: "uuids \<Rightarrow> string \<Rightarrow> SLATarget \<Rightarrow> time \<Rightarrow> clocks \<Rightarrow> app_error + SlaClock \<times> clocks" where
  "SlaClockRepo_Resume U signalID target t rows =
     with_uuid U ''sla_clocks.resume'' signalID (\<lambda>uid.
       guards [(\<not> SLATarget_Valid target, AppError KindValidation ''sla_clocks.resume''),
               (time_IsZero t, AppError KindValidation ''sla_clocks.resume'')]
         (clock_guarded ''sla_clocks.resume'' (ResumeSlaClock (pg_time t) uid target rows)))"

definition SlaClockRepo_Reset ::
  "uuids \<Rightarrow> string \<Rightarrow> SLATarget \<Rightarrow> time \<Rightarrow> time \<Rightarrow> clocks \<Rightarrow> app_error + SlaClock \<times> clocks" where
  "SlaClockRepo_Reset U signalID target startedAt deadlineAt rows =
     with_uuid U ''sla_clocks.reset'' signalID (\<lambda>uid.
       guards [(\<not> SLATarget_Valid target, AppError KindValidation ''sla_clocks.reset''),
               (time_IsZero startedAt \<or> time_IsZero deadlineAt, AppError KindValidation ''sla_clocks.reset'')]
         (rbind (db_result ''sla_clocks.reset'' (ResetSlaClock (pg_time startedAt) (pg_time deadlineAt) uid target rows))
           (\<lambda>(row, rows'). Ok (slaClockFromRow row, rows'))))"

definition SlaClockRepo_Due :: "time \<Rightarrow> clocks \<Rightarrow> SlaClock list" where
  "SlaClockRepo_Due now rows = map slaClockFromRow (ScanDueSlaClocks now rows)"

section \<open>The table as a map of clocks\<close>

definition row_key :: "SlaClockRow \<Rightarrow> string \<times> SLATarget" where
  "row_key r = (SCR_SignalID r, SCR_Target r)"

definition clock_view :: "clocks \<Rightarrow> string \<times> SLATarget \<Rightarrow> SlaClock option" where
  "clock_view rows k = map_option slaClockFromRow (row_at row_key k rows)"

text \<open>A stored instant is never the zero time, which is \<open>NULL\<close>.\<close>

definition clock_row_ok :: "SlaClockRow \<Rightarrow> bool" where
  "clock_row_ok r \<longleftrightarrow> SCR_FulfilledAt r \<noteq> Some 0 \<and> SCR_PausedAt r \<noteq> Some 0 \<and>
     0 \<le> SCR_PausedSeconds r \<and> SCR_PausedSeconds r \<le> max_int64"

definition clocks_ok :: "clocks \<Rightarrow> bool" where
  "clocks_ok rows \<longleftrightarrow> distinct (map row_key rows) \<and> (\<forall>r\<in>set rows. clock_row_ok r)"

lemma clock_key_iff: "clock_key sid target r \<longleftrightarrow> row_key r = (sid, target)"
  by (auto simp: clock_key_def row_key_def)

lemma tsTime_zero: "o' \<noteq> Some 0 \<Longrightarrow> tsTime o' = 0 \<longleftrightarrow> o' = None"
  by (cases o') auto

lemma slaClockFromRow_simps [simp]:
  "Clk_DeadlineAt (slaClockFromRow r) = SCR_DeadlineAt r"
  "Clk_PausedSeconds (slaClockFromRow r) = SCR_PausedSeconds r"
  "Clk_FulfilledAt (slaClockFromRow r) = tsTime (SCR_FulfilledAt r)"
  "Clk_PausedAt (slaClockFromRow r) = tsTime (SCR_PausedAt r)"
  "Clk_StartedAt (slaClockFromRow r) = SCR_StartedAt r"
  "Clk_SignalID (slaClockFromRow r) = SCR_SignalID r"
  "Clk_Target (slaClockFromRow r) = SCR_Target r"
  by (simp_all add: slaClockFromRow_def)

interpretation fulfil: guarded_update row_key "(sid, target)"
  "\<lambda>r. clock_key sid target r \<and> SCR_FulfilledAt r = None" "\<lambda>r. Ok (r\<lparr>SCR_FulfilledAt := Some t\<rparr>)"
  for sid target t
  by unfold_locales (auto simp: clock_key_iff row_key_def)

interpretation pause: guarded_update row_key "(sid, target)"
  "\<lambda>r. clock_key sid target r \<and> SCR_FulfilledAt r = None \<and> SCR_PausedAt r = None"
  "\<lambda>r. Ok (r\<lparr>SCR_PausedAt := Some t\<rparr>)"
  for sid target t
  by unfold_locales (auto simp: clock_key_iff row_key_def)

interpretation tighten: guarded_update row_key "(sid, target)"
  "\<lambda>r. clock_key sid target r \<and> SCR_FulfilledAt r = None \<and> SCR_DeadlineAt r > t"
  "\<lambda>r. Ok (r\<lparr>SCR_DeadlineAt := t\<rparr>)"
  for sid target t
  by unfold_locales (auto simp: clock_key_iff row_key_def)

interpretation reset: guarded_update row_key "(sid, target)" "clock_key sid target"
  "\<lambda>r. Ok (r\<lparr>SCR_StartedAt := s, SCR_DeadlineAt := d, SCR_FulfilledAt := None,
       SCR_PausedSeconds := 0, SCR_PausedAt := None\<rparr>)"
  for sid target s d
  by unfold_locales (auto simp: clock_key_iff row_key_def)

interpretation resume: guarded_update row_key "(sid, target)"
  "\<lambda>r. clock_key sid target r \<and> (case SCR_PausedAt r of None \<Rightarrow> False | Some p \<Rightarrow> p \<le> t)"
  "\<lambda>r. let n = SCR_PausedSeconds r + pg_round_seconds (t - tsTime (SCR_PausedAt r)) in
     if n > max_int64 then Err OtherFailure
     else Ok (r\<lparr>SCR_PausedSeconds := n, SCR_PausedAt := None\<rparr>)"
  for sid target t
  by unfold_locales (auto simp: clock_key_iff row_key_def Let_def split: if_splits)

interpretation upsert: guarded_update row_key "(sid, target)" "clock_key sid target"
  "\<lambda>r. Ok (row\<lparr>SCR_ID := SCR_ID r, SCR_SignalID := sid, SCR_Target := target\<rparr>)"
  for sid target row
  by unfold_locales (auto simp: clock_key_iff row_key_def)

lemma update_view:
  assumes "guarded_update row_key k P f" "distinct (map row_key rows)"
    "update_row P f rows = Inr (r', rows')"
  shows "clock_view rows' = (clock_view rows)(k \<mapsto> slaClockFromRow r')"
  using guarded_update.update_Ok(3) [OF assms] by (auto simp: clock_view_def fun_eq_iff)

lemma update_ok:
  assumes "guarded_update row_key k P f" "clocks_ok rows"
    "update_row P f rows = Inr (r', rows')" "\<And>r. clock_row_ok r \<Longrightarrow> P r \<Longrightarrow> f r = Inr r' \<Longrightarrow> clock_row_ok r'"
  shows "clocks_ok rows'"
proof -
  have d: "distinct (map row_key rows)" "\<forall>r\<in>set rows. clock_row_ok r" using assms(2) by (simp_all add: clocks_ok_def)
  note u = guarded_update.update_Ok [OF assms(1) d(1) assms(3)]
  obtain r where "row_at row_key k rows = Some r" "P r" "f r = Inr r'" using u(1) by blast
  then have "clock_row_ok r'" using row_at_Some [of row_key k rows r] d(2) assms(4) by blast
  then show ?thesis using u(2,4) d unfolding clocks_ok_def by (metis insertE subsetD)
qed

section \<open>The statements and the domain operations\<close>

lemma view_row:
  assumes "clocks_ok rows" "clock_view rows (sid, target) = Some c"
  obtains r where "row_at row_key (sid, target) rows = Some r" "c = slaClockFromRow r" "clock_row_ok r"
    "clock_key sid target r" "distinct (map row_key rows)"
  using assms row_at_Some [of row_key "(sid, target)" rows]
  by (auto simp: clock_view_def clocks_ok_def clock_key_iff)

lemma pause_refines:
  assumes "clocks_ok rows" "clock_view rows (sid, target) = Some c" "U ident = Some sid"
    "SLATarget_Valid target" "t \<noteq> 0" "pg_time t = t"
  shows "case SlaClockRepo_Pause U ident target t rows of
      Inl e \<Rightarrow> e = AppError KindConflict ''sla_clocks.pause'' \<and> \<not> is_ok (Pause c t)
    | Inr (c', rows') \<Rightarrow> Pause c t = Ok c' \<and> clock_view rows' = (clock_view rows)((sid, target) \<mapsto> c')"
proof -
  obtain r where r: "row_at row_key (sid, target) rows = Some r" "c = slaClockFromRow r" "clock_row_ok r"
    "clock_key sid target r" "distinct (map row_key rows)"
    using view_row [OF assms(1,2)] by blast
  have z: "Clk_FulfilledAt c = 0 \<longleftrightarrow> SCR_FulfilledAt r = None" "Clk_PausedAt c = 0 \<longleftrightarrow> SCR_PausedAt r = None"
    using r(3) by (simp_all add: r(2) tsTime_zero clock_row_ok_def)
  have only: "r' = r" if "row_at row_key (sid, target) rows = Some r'" for r' using that r(1) by simp
  show ?thesis
  proof (cases "SCR_FulfilledAt r = None \<and> SCR_PausedAt r = None")
    case True
    obtain rows' where u: "PauseSlaClock t sid target rows = Inr (r\<lparr>SCR_PausedAt := Some t\<rparr>, rows')"
      using pause.update_hit [OF r(5,1), of t] r(4) True by (simp add: PauseSlaClock_def)
    then have "clock_view rows' = (clock_view rows)((sid, target) \<mapsto> slaClockFromRow (r\<lparr>SCR_PausedAt := Some t\<rparr>))"
      unfolding PauseSlaClock_def by (rule update_view [OF pause.guarded_update_axioms r(5)])
    moreover have "Pause c t = Ok (slaClockFromRow (r\<lparr>SCR_PausedAt := Some t\<rparr>))"
      using True z assms(5) by (simp add: Pause_Ok_iff r(2) slaClockFromRow_def)
    ultimately show ?thesis
      using u assms(3-6) by (simp add: SlaClockRepo_Pause_def with_uuid_def clock_guarded_def time_IsZero_def)
  next
    case False
    have "PauseSlaClock t sid target rows = Inl NoRows"
      unfolding PauseSlaClock_def by (rule pause.update_miss [OF r(5)]) (use only False in blast)
    moreover have "\<not> is_ok (Pause c t)" using False z by (auto simp: is_ok_iff Pause_Ok_iff)
    ultimately show ?thesis
      using assms(3-6) by (simp add: SlaClockRepo_Pause_def with_uuid_def clock_guarded_def guardedClockError_def time_IsZero_def)
  qed
qed

lemma tighten_refines:
  assumes "clocks_ok rows" "clock_view rows (sid, target) = Some c" "U ident = Some sid"
    "SLATarget_Valid target" "t \<noteq> 0" "pg_time t = t" "0 < d" "t + d \<noteq> 0" "pg_time (t + d) = t + d"
  shows "case SlaClockRepo_Tighten U ident target (t + d) rows of
      Inl _ \<Rightarrow> False
    | Inr (None, rows') \<Rightarrow> rows' = rows \<and> (case Tighten c t d of Inl _ \<Rightarrow> True | Inr c' \<Rightarrow> c' = c)
    | Inr (Some c', rows') \<Rightarrow> Tighten c t d = Ok c' \<and> clock_view rows' = (clock_view rows)((sid, target) \<mapsto> c')"
proof -
  obtain r where r: "row_at row_key (sid, target) rows = Some r" "c = slaClockFromRow r" "clock_row_ok r"
    "clock_key sid target r" "distinct (map row_key rows)"
    using view_row [OF assms(1,2)] by blast
  have z: "Clk_FulfilledAt c = 0 \<longleftrightarrow> SCR_FulfilledAt r = None" "Clk_PausedAt c = 0 \<longleftrightarrow> SCR_PausedAt r = None"
    using r(3) by (simp_all add: r(2) tsTime_zero clock_row_ok_def)
  have only: "r' = r" if "row_at row_key (sid, target) rows = Some r'" for r' using that r(1) by simp
  show ?thesis
  proof (cases "SCR_FulfilledAt r = None \<and> SCR_DeadlineAt r > t + d")
    case True
    obtain rows' where u: "TightenSlaClock (t + d) sid target rows = Inr (r\<lparr>SCR_DeadlineAt := t + d\<rparr>, rows')"
      using tighten.update_hit [OF r(5,1), of "t + d"] r(4) True by (simp add: TightenSlaClock_def)
    then have "clock_view rows' = (clock_view rows)((sid, target) \<mapsto> slaClockFromRow (r\<lparr>SCR_DeadlineAt := t + d\<rparr>))"
      unfolding TightenSlaClock_def by (rule update_view [OF tighten.guarded_update_axioms r(5)])
    moreover have "Tighten c t d = Ok (slaClockFromRow (r\<lparr>SCR_DeadlineAt := t + d\<rparr>))"
      using True z assms(5,7) by (simp add: Tighten_Ok_iff r(2) slaClockFromRow_def)
    ultimately show ?thesis
      using u assms(3-9) by (simp add: SlaClockRepo_Tighten_def with_uuid_def clock_changed_def time_IsZero_def)
  next
    case False
    have "TightenSlaClock (t + d) sid target rows = Inl NoRows"
      unfolding TightenSlaClock_def by (rule tighten.update_miss [OF r(5)]) (use only False in blast)
    moreover have "case Tighten c t d of Inl _ \<Rightarrow> True | Inr c' \<Rightarrow> c' = c"
      using False z by (auto simp: Tighten_Ok_iff r(2) slaClockFromRow_def min_def split: sum.split)
    ultimately show ?thesis
      using assms(3-9) by (simp add: SlaClockRepo_Tighten_def with_uuid_def clock_changed_def time_IsZero_def)
  qed
qed

lemma reset_refines:
  assumes "clocks_ok rows" "clock_view rows (sid, target) = Some c" "U ident = Some sid"
    "SLATarget_Valid target" "t \<noteq> 0" "pg_time t = t" "0 < d" "t + d \<noteq> 0" "pg_time (t + d) = t + d"
  shows "case SlaClockRepo_Reset U ident target t (t + d) rows of
      Inl _ \<Rightarrow> False
    | Inr (c', rows') \<Rightarrow> Reset c t d = Ok c' \<and> clock_view rows' = (clock_view rows)((sid, target) \<mapsto> c')"
proof -
  obtain r where r: "row_at row_key (sid, target) rows = Some r" "c = slaClockFromRow r" "clock_row_ok r"
    "clock_key sid target r" "distinct (map row_key rows)"
    using view_row [OF assms(1,2)] by blast
  have z: "Clk_FulfilledAt c = 0 \<longleftrightarrow> SCR_FulfilledAt r = None" "Clk_PausedAt c = 0 \<longleftrightarrow> SCR_PausedAt r = None"
    using r(3) by (simp_all add: r(2) tsTime_zero clock_row_ok_def)
  have only: "r' = r" if "row_at row_key (sid, target) rows = Some r'" for r' using that r(1) by simp
  show ?thesis
  proof -
    let ?r' = "r\<lparr>SCR_StartedAt := t, SCR_DeadlineAt := t + d, SCR_FulfilledAt := None, SCR_PausedSeconds := 0, SCR_PausedAt := None\<rparr>"
    obtain rows' where u: "ResetSlaClock t (t + d) sid target rows = Inr (?r', rows')"
      using reset.update_hit [OF r(5,1,4), of "t + d" t] by (simp add: ResetSlaClock_def)
    then have "clock_view rows' = (clock_view rows)((sid, target) \<mapsto> slaClockFromRow ?r')"
      unfolding ResetSlaClock_def by (rule update_view [OF reset.guarded_update_axioms r(5)])
    moreover have "Reset c t d = Ok (slaClockFromRow ?r')"
      using assms(5,7) by (simp add: Reset_Ok_iff r(2) slaClockFromRow_def)
    ultimately show ?thesis
      using u assms(3-9) by (simp add: SlaClockRepo_Reset_def with_uuid_def time_IsZero_def)
  qed
qed

text \<open>C25: Over a table in order, pausing, tightening and resetting a clock in the database is the domain operation on
  that clock and changes no other: a pause is refused, as a conflict, exactly when the domain
  refuses it; a tightening that reports no change is one the domain refuses or that changes
  nothing.\<close>

theorem clock_statements_refine_the_domain:
  assumes "clocks_ok rows" "clock_view rows (sid, target) = Some c" "U ident = Some sid"
    "SLATarget_Valid target" "t \<noteq> 0" "pg_time t = t" "0 < d" "t + d \<noteq> 0" "pg_time (t + d) = t + d"
  shows "(case SlaClockRepo_Pause U ident target t rows of
      Inl e \<Rightarrow> e = AppError KindConflict ''sla_clocks.pause'' \<and> \<not> is_ok (Pause c t)
    | Inr (c', rows') \<Rightarrow> Pause c t = Ok c' \<and> clock_view rows' = (clock_view rows)((sid, target) \<mapsto> c')) \<and>
   (case SlaClockRepo_Tighten U ident target (t + d) rows of
      Inl _ \<Rightarrow> False
    | Inr (None, rows') \<Rightarrow> rows' = rows \<and> (case Tighten c t d of Inl _ \<Rightarrow> True | Inr c' \<Rightarrow> c' = c)
    | Inr (Some c', rows') \<Rightarrow> Tighten c t d = Ok c' \<and> clock_view rows' = (clock_view rows)((sid, target) \<mapsto> c')) \<and>
   (case SlaClockRepo_Reset U ident target t (t + d) rows of
      Inl _ \<Rightarrow> False
    | Inr (c', rows') \<Rightarrow> Reset c t d = Ok c' \<and> clock_view rows' = (clock_view rows)((sid, target) \<mapsto> c'))"
  using pause_refines [where U = U, OF assms(1-6)] tighten_refines [where U = U, OF assms]
    reset_refines [where U = U, OF assms] by blast

text \<open>Ending a pause. The database adds the pause rounded to the nearest second, where the domain
  operation adds its whole seconds: the stored clock is the domain's, one second more if the
  fraction is half a second or more.\<close>

theorem resume_rounds_to_the_nearest_second:
  assumes "clocks_ok rows" "clock_view rows (sid, target) = Some c" "U ident = Some sid"
    "SLATarget_Valid target" "t \<noteq> 0" "pg_time t = t"
    "Clk_PausedAt c \<noteq> 0" "Clk_PausedAt c \<le> t" "t - Clk_PausedAt c \<le> max_int64"
    "Clk_PausedSeconds c + (t - Clk_PausedAt c) div time_Second < max_int64"
  shows "\<exists>c' cd rows'. SlaClockRepo_Resume U ident target t rows = Ok (c', rows') \<and>
    clock_view rows' = (clock_view rows)((sid, target) \<mapsto> c') \<and> Resume c t = Ok cd \<and>
    c' = cd\<lparr>Clk_PausedSeconds := Clk_PausedSeconds cd +
            (if (t - Clk_PausedAt c) mod time_Second < time_Second div 2 then 0 else 1)\<rparr>"
proof -
  obtain r where r: "row_at row_key (sid, target) rows = Some r" "c = slaClockFromRow r" "clock_row_ok r"
    "clock_key sid target r" "distinct (map row_key rows)"
    using view_row [OF assms(1,2)] by blast
  obtain p where p: "SCR_PausedAt r = Some p" "Clk_PausedAt c = p"
    using assms(7) by (cases "SCR_PausedAt r") (simp_all add: r(2))
  let ?q = "(t - p) div time_Second" and ?n = "SCR_PausedSeconds r + pg_round_seconds (t - p)"
  have round: "pg_round_seconds (t - p) = ?q + (if (t - p) mod time_Second < time_Second div 2 then 0 else 1)"
  proof -
    define m where "m = (t - p) mod time_Second"
    have m: "0 \<le> m" "m < time_Second" "t - p = ?q * time_Second + m"
      by (simp_all add: m_def time_Second_def)
    have "(t - p + time_Second div 2) div time_Second = ?q + (m + time_Second div 2) div time_Second"
      using m(3) by (smt (verit) div_mult_self3 mult.commute time_Second_def)
    moreover have "(m + time_Second div 2) div time_Second = (if m < time_Second div 2 then 0 else 1)"
      using m(1,2) by (auto simp: time_Second_def)
    ultimately show ?thesis by (simp add: pg_round_seconds_def m_def)
  qed
  have q: "0 \<le> ?q" using assms(8) p by (simp add: time_Second_def)
  have le: "?n \<le> max_int64" using assms(10) round p by (simp add: r(2))
  let ?r' = "r\<lparr>SCR_PausedSeconds := ?n, SCR_PausedAt := None\<rparr>"
  obtain rows' where u: "ResumeSlaClock t sid target rows = Inr (?r', rows')"
    using resume.update_hit [OF r(5,1), of t] r(4) p assms(8) le by (simp add: ResumeSlaClock_def Let_def)
  then have v: "clock_view rows' = (clock_view rows)((sid, target) \<mapsto> slaClockFromRow ?r')"
    unfolding ResumeSlaClock_def by (rule update_view [OF resume.guarded_update_axioms r(5)])
  have repo: "SlaClockRepo_Resume U ident target t rows = Ok (slaClockFromRow ?r', rows')"
    using u assms(3-6) by (simp add: SlaClockRepo_Resume_def with_uuid_def clock_guarded_def time_IsZero_def)
  have ps: "0 \<le> Clk_PausedSeconds c" using r(3) by (simp add: r(2) clock_row_ok_def)
  have "sat64 (t - p) = t - p" using assms(8,9) p by (intro sat64_id) (simp_all add: max_int64_def)
  then have "Resume c t = Ok (c\<lparr>Clk_PausedSeconds := wrap64 (Clk_PausedSeconds c + ?q), Clk_PausedAt := 0\<rparr>)"
    using assms(7,8) p by (simp add: Resume_Ok_iff trunc_div_nonneg time_Second_def)
  moreover have "wrap64 (Clk_PausedSeconds c + ?q) = Clk_PausedSeconds c + ?q"
    using ps q assms(10) p by (intro wrap64_id) (simp_all add: max_int64_def)
  ultimately have "Resume c t = Ok (c\<lparr>Clk_PausedSeconds := Clk_PausedSeconds c + ?q, Clk_PausedAt := 0\<rparr>)" by simp
  with repo v round p show ?thesis by (simp add: r(2) slaClockFromRow_def)
qed

text \<open>The breach scan. A running clock is due when its effective deadline is reached; a paused clock is due
  exactly when it already was at the start of the pause, however long the pause lasts. (The sums stay
  within 64 bits.)\<close>

theorem due_clocks_are_past_their_deadline:
  assumes "clock_row_ok r" "SCR_PausedSeconds r * time_Second < 2 ^ 63"
    "\<bar>now - tsTime (SCR_PausedAt r)\<bar> < 2 ^ 63"
  shows "(clock_due now r \<longleftrightarrow> \<not> Fulfilled (slaClockFromRow r) \<and> EffectiveDeadline (slaClockFromRow r) now \<le> now) \<and>
    (if Paused (slaClockFromRow r)
     then clock_due now r \<longleftrightarrow> \<not> Fulfilled (slaClockFromRow r) \<and>
       SCR_DeadlineAt r + SCR_PausedSeconds r * time_Second \<le> Clk_PausedAt (slaClockFromRow r)
     else True)"
proof -
  have z: "tsTime (SCR_FulfilledAt r) = 0 \<longleftrightarrow> SCR_FulfilledAt r = None" "tsTime (SCR_PausedAt r) = 0 \<longleftrightarrow> SCR_PausedAt r = None"
    using assms(1) by (simp_all add: tsTime_zero clock_row_ok_def)
  have "0 \<le> SCR_PausedSeconds r * time_Second" using assms(1) by (simp add: clock_row_ok_def time_Second_def)
  then have w: "wrap64 (SCR_PausedSeconds r * time_Second) = SCR_PausedSeconds r * time_Second"
    using assms(2) by (intro wrap64_id) simp_all
  have s: "sat64 (now - tsTime (SCR_PausedAt r)) = now - tsTime (SCR_PausedAt r)"
    using assms(3) by (intro sat64_id) simp_all
  have "SCR_PausedAt r \<noteq> Some 0" using assms(1) by (simp add: clock_row_ok_def)
  then show ?thesis
    by (cases "SCR_PausedAt r")
      (use s in \<open>auto simp: clock_due_def clock_defs z w dur_mul_def Let_def\<close>)
qed

section \<open>Witnesses\<close>

definition ex_clock_row :: SlaClockRow where
  "ex_clock_row = \<lparr>SCR_ID = ''k1'', SCR_SignalID = ''s1'', SCR_Target = SLATargetAssessment,
     SCR_StartedAt = 5000, SCR_DeadlineAt = 3600000000000, SCR_FulfilledAt = None,
     SCR_PausedSeconds = 0, SCR_PausedAt = None\<rparr>"

definition ex_paused_row :: SlaClockRow where
  "ex_paused_row = ex_clock_row\<lparr>SCR_PausedAt := Some 1000000000\<rparr>"

lemmas ex_row_defs = ex_clock_row_def ex_paused_row_def

lemma ex_clocks_ok: "clocks_ok [ex_clock_row]" "clocks_ok [ex_paused_row]"
  by (simp_all add: clocks_ok_def clock_row_ok_def ex_row_defs max_int64_def)

lemma ex_view:
  "clock_view [ex_clock_row] (''s1'', SLATargetAssessment) = Some (slaClockFromRow ex_clock_row)"
  "clock_view [ex_paused_row] (''s1'', SLATargetAssessment) = Some (slaClockFromRow ex_paused_row)"
  by (simp_all add: clock_view_def row_at_def row_key_def ex_row_defs)

lemma clock_statements_refine_the_domain_witness:
  "\<exists>c' rows'. SlaClockRepo_Pause Some ''s1'' SLATargetAssessment 2000 [ex_clock_row] = Inr (c', rows') \<and>
     Pause (slaClockFromRow ex_clock_row) 2000 = Ok c'"
proof -
  have "is_ok (SlaClockRepo_Pause Some ''s1'' SLATargetAssessment 2000 [ex_clock_row])" by code_simp
  then show ?thesis
    using clock_statements_refine_the_domain [of "[ex_clock_row]" "''s1''" SLATargetAssessment
        "slaClockFromRow ex_clock_row" Some "''s1''" 2000 3000]
    by (auto simp: is_ok_iff ex_clocks_ok ex_view pg_time_def time_Micro_def)
qed

lemma resume_rounds_to_the_nearest_second_witness:
  "\<exists>c' cd rows'. SlaClockRepo_Resume Some ''s1'' SLATargetAssessment 2600000000 [ex_paused_row] = Ok (c', rows') \<and>
     Resume (slaClockFromRow ex_paused_row) 2600000000 = Ok cd \<and> Clk_PausedSeconds c' = Clk_PausedSeconds cd + 1"
proof -
  have p: "Clk_PausedAt (slaClockFromRow ex_paused_row) = 1000000000"
    "Clk_PausedSeconds (slaClockFromRow ex_paused_row) = 0" by (simp_all add: ex_row_defs)
  have "\<exists>c' cd rows'. SlaClockRepo_Resume Some ''s1'' SLATargetAssessment 2600000000 [ex_paused_row] = Ok (c', rows') \<and>
    clock_view rows' = (clock_view [ex_paused_row])((''s1'', SLATargetAssessment) \<mapsto> c') \<and>
    Resume (slaClockFromRow ex_paused_row) 2600000000 = Ok cd \<and>
    c' = cd\<lparr>Clk_PausedSeconds := Clk_PausedSeconds cd +
      (if (2600000000 - Clk_PausedAt (slaClockFromRow ex_paused_row)) mod time_Second < time_Second div 2 then 0 else 1)\<rparr>"
    by (rule resume_rounds_to_the_nearest_second)
      (simp_all only: ex_clocks_ok ex_view p, simp_all add: pg_time_def time_Micro_def time_Second_def max_int64_def)
  then show ?thesis unfolding p by (auto simp: time_Second_def)
qed

lemma due_clocks_are_past_their_deadline_witness:
  "\<not> clock_due 9000000000000 ex_paused_row"
proof -
  have row: "SCR_PausedSeconds ex_paused_row = 0" "tsTime (SCR_PausedAt ex_paused_row) = 1000000000"
    "SCR_DeadlineAt ex_paused_row = 3600000000000" "clock_row_ok ex_paused_row"
    by (simp_all add: clock_row_ok_def ex_row_defs max_int64_def)
  then have "Paused (slaClockFromRow ex_paused_row)" by (simp add: Paused_def time_IsZero_def)
  with due_clocks_are_past_their_deadline [OF row(4), of 9000000000000] row
  show ?thesis by simp blast
qed

text \<open>A paused clock is fulfilled by the statement, where the domain demands that it be resumed first; it is then
  paused and fulfilled at once.\<close>

lemma paused_clock_is_fulfilled:
  "SlaClockRepo_Fulfil Some ''s1'' SLATargetAssessment 2000000000 [ex_paused_row] =
     Ok (Some (slaClockFromRow (ex_paused_row\<lparr>SCR_FulfilledAt := Some 2000000000\<rparr>)),
       [ex_paused_row\<lparr>SCR_FulfilledAt := Some 2000000000\<rparr>]) \<and>
   \<not> is_ok (Fulfil (slaClockFromRow ex_paused_row) 2000000000)"
  by code_simp

end
