(* ===== verification/SignalStore.thy ===== *)
theory SignalStore
  imports SlaStore Signal Authz AuditChain
begin

text \<open>
  The database as the signal commands see it: the table of risk signals with its guarded
  statements (postgres/gen/risk_signals.sql.go) and repository (postgres/repo: signal.go,
  signaltriage.go), the comments, the users and their roles (user.go), beside the SLA clocks
  (SlaStore), the audit events handed to the chain (AuditChain) and the outbox (Outbox).
\<close>

section \<open>Rows of risk signals\<close>

record SignalRow =
  SR_ID :: string
  SR_MatchID :: string
  SR_Priority :: Priority
  SR_Status :: SignalStatus
  SR_Owner :: "string option"
  SR_ClosedAt :: "time option"
  SR_Version :: int
  SR_RuleVersion :: string
  SR_Factors :: PriorityFactors
  SR_CreatedAt :: time
  SR_AutoPriority :: "Priority option"
  SR_OverrideReason :: "string option"
  SR_OverrideActorID :: "string option"
  SR_OverrideAt :: "time option"
  SR_EscalatedAt :: "time option"

type_synonym signals = "SignalRow list"

definition riskSignalFromRow :: "SignalRow \<Rightarrow> RiskSignal" where
  "riskSignalFromRow r =
     \<lparr>Sig_ID = SR_ID r, Sig_MatchID = SR_MatchID r, Sig_Priority = SR_Priority r, Sig_Status = SR_Status r,
      Sig_Owner = textValue (SR_Owner r), Sig_Version = SR_Version r, Sig_RuleVersion = SR_RuleVersion r,
      Sig_Factors = SR_Factors r, Sig_AutoPriority = SR_AutoPriority r,
      Sig_OverrideReason = textValue (SR_OverrideReason r),
      Sig_OverrideActorID = textValue (SR_OverrideActorID r), Sig_OverrideAt = tsTime (SR_OverrideAt r),
      Sig_EscalatedAt = tsTime (SR_EscalatedAt r)\<rparr>"

section \<open>Statements\<close>

text \<open>\<open>version = version + 1\<close> in a column of 32 bits.\<close>

definition bump :: "SignalRow \<Rightarrow> db_error + SignalRow" where
  "bump r = (if SR_Version r + 1 > max_int32 then Err OtherFailure else Ok (r\<lparr>SR_Version := SR_Version r + 1\<rparr>))"

definition guarded_signal ::
  "string \<Rightarrow> int \<Rightarrow> (SignalRow \<Rightarrow> SignalRow) \<Rightarrow> signals \<Rightarrow> db_error + SignalRow \<times> signals" where
  "guarded_signal uid version f =
     update_row (\<lambda>r. SR_ID r = uid \<and> SR_Version r = version) (\<lambda>r. bump (f r))"

definition AssignRiskSignalOwner :: "string option \<Rightarrow> string \<Rightarrow> int \<Rightarrow> signals \<Rightarrow> db_error + SignalRow \<times> signals" where
  "AssignRiskSignalOwner owner uid version = guarded_signal uid version (\<lambda>r. r\<lparr>SR_Owner := owner\<rparr>)"

definition GetRiskSignalByID :: "string \<Rightarrow> signals \<Rightarrow> db_error + SignalRow" where
  "GetRiskSignalByID uid = select_row (\<lambda>r. SR_ID r = uid)"

text \<open>The column defaults: status new, version 1, and \<open>newid\<close>. One signal per match.\<close>

definition InsertRiskSignal ::
  "string list \<Rightarrow> string \<Rightarrow> string \<Rightarrow> Priority \<Rightarrow> string \<Rightarrow> PriorityFactors \<Rightarrow> time \<Rightarrow> signals \<Rightarrow>
     db_error + SignalRow \<times> signals" where
  "InsertRiskSignal matches newid matchID priority ruleVersion factors createdAt rows =
     (if list_ex (\<lambda>r. SR_MatchID r = matchID) rows then Err UniqueViolation
      else if matchID \<notin> set matches then Err ForeignKeyViolation
      else
        (let row = \<lparr>SR_ID = newid, SR_MatchID = matchID, SR_Priority = priority, SR_Status = SignalStatusNew,
            SR_Owner = None, SR_ClosedAt = None, SR_Version = 1, SR_RuleVersion = ruleVersion,
            SR_Factors = factors, SR_CreatedAt = createdAt, SR_AutoPriority = None,
            SR_OverrideReason = None, SR_OverrideActorID = None, SR_OverrideAt = None,
            SR_EscalatedAt = None\<rparr>
         in Ok (row, rows @ [row])))"

definition MarkRiskSignalEscalated :: "time \<Rightarrow> string \<Rightarrow> signals \<Rightarrow> db_error + SignalRow \<times> signals" where
  "MarkRiskSignalEscalated t uid =
     update_row (\<lambda>r. SR_ID r = uid \<and> SR_EscalatedAt r = None) (\<lambda>r. bump (r\<lparr>SR_EscalatedAt := Some t\<rparr>))"

definition OverrideRiskSignalPriority ::
  "Priority \<Rightarrow> Priority \<Rightarrow> string \<Rightarrow> string \<Rightarrow> time \<Rightarrow> string \<Rightarrow> int \<Rightarrow> signals \<Rightarrow>
     db_error + SignalRow \<times> signals" where
  "OverrideRiskSignalPriority priority auto reason actorID t uid version =
     guarded_signal uid version (\<lambda>r. r\<lparr>SR_Priority := priority, SR_AutoPriority := Some auto,
        SR_OverrideReason := Some reason, SR_OverrideActorID := Some actorID, SR_OverrideAt := Some t\<rparr>)"

text \<open>\<open>CASE WHEN auto_priority IS NULL\<close>: an override keeps its priority.\<close>

definition RecomputeRiskSignalPriority ::
  "Priority \<Rightarrow> string \<Rightarrow> PriorityFactors \<Rightarrow> string \<Rightarrow> signals \<Rightarrow> db_error + SignalRow \<times> signals" where
  "RecomputeRiskSignalPriority priority ruleVersion factors uid =
     update_row (\<lambda>r. SR_ID r = uid)
       (\<lambda>r. bump (r\<lparr>SR_Priority := (if SR_AutoPriority r = None then priority else SR_Priority r),
          SR_AutoPriority := (if SR_AutoPriority r = None then None else Some priority),
          SR_RuleVersion := ruleVersion, SR_Factors := factors\<rparr>))"

text \<open>\<open>priority = auto_priority\<close>, which a row without an override cannot take.\<close>

definition RevertRiskSignalPriority :: "string \<Rightarrow> int \<Rightarrow> signals \<Rightarrow> db_error + SignalRow \<times> signals" where
  "RevertRiskSignalPriority uid version =
     update_row (\<lambda>r. SR_ID r = uid \<and> SR_Version r = version)
       (\<lambda>r. case SR_AutoPriority r of
          None \<Rightarrow> Err NotNullViolation
        | Some auto \<Rightarrow> bump (r\<lparr>SR_Priority := auto, SR_AutoPriority := None, SR_OverrideReason := None,
              SR_OverrideActorID := None, SR_OverrideAt := None\<rparr>))"

definition TransitionRiskSignal ::
  "SignalStatus \<Rightarrow> time option \<Rightarrow> string \<Rightarrow> int \<Rightarrow> signals \<Rightarrow> db_error + SignalRow \<times> signals" where
  "TransitionRiskSignal status closedAt uid version =
     guarded_signal uid version (\<lambda>r. r\<lparr>SR_Status := status, SR_ClosedAt := closedAt\<rparr>)"

text \<open>The stored rows, for the fan-in of a recompute.\<close>

definition ListOpenRecomputeTargets :: "signals \<Rightarrow> (string \<times> PriorityFactors) list" where
  "ListOpenRecomputeTargets rows =
     map (\<lambda>r. (SR_ID r, SR_Factors r)) (sort_key SR_ID (filter (\<lambda>r. \<not> IsClosed (SR_Status r)) rows))"

section \<open>Repository\<close>

definition guardedSignalError :: "string \<Rightarrow> db_error \<Rightarrow> app_error" where
  "guardedSignalError op err = (if err = NoRows then AppError KindConflict op else mapDBError op err)"

definition versionInt32 :: "string \<Rightarrow> int \<Rightarrow> (int \<Rightarrow> app_error + 'a) \<Rightarrow> app_error + 'a" where
  "versionInt32 op v k = (if v < 0 \<or> v > max_int32 then Validationf op else k v)"

text \<open>The tail of the guarded writes.\<close>

definition signal_guarded :: "string \<Rightarrow> db_error + SignalRow \<times> signals \<Rightarrow> app_error + RiskSignal \<times> signals" where
  "signal_guarded op m =
     (case m of
        Inl e \<Rightarrow> Err (guardedSignalError op e)
      | Inr (row, rows) \<Rightarrow> Ok (riskSignalFromRow row, rows))"

definition SignalRepo_GetRiskSignal :: "uuids \<Rightarrow> string \<Rightarrow> signals \<Rightarrow> app_error + RiskSignal" where
  "SignalRepo_GetRiskSignal U ident rows =
     with_uuid U ''signals.get_risk_signal'' ident (\<lambda>uid.
       rbind (db_result ''signals.get_risk_signal'' (GetRiskSignalByID uid rows)) (\<lambda>row.
       Ok (riskSignalFromRow row)))"

definition SignalRepo_Transition ::
  "uuids \<Rightarrow> string \<Rightarrow> SignalStatus \<Rightarrow> time option \<Rightarrow> int \<Rightarrow> signals \<Rightarrow> app_error + RiskSignal \<times> signals" where
  "SignalRepo_Transition U ident to closedAt expected rows =
     (if \<not> SignalStatus_Valid to then Validationf ''signals.transition''
      else with_uuid U ''signals.transition'' ident (\<lambda>uid.
        versionInt32 ''signals.transition'' expected (\<lambda>ver.
          signal_guarded ''signals.transition'' (TransitionRiskSignal to (map_option pg_time closedAt) uid ver rows))))"

definition SignalRepo_OverridePriority ::
  "uuids \<Rightarrow> string \<Rightarrow> Priority \<Rightarrow> Priority \<Rightarrow> string \<Rightarrow> string \<Rightarrow> time \<Rightarrow> int \<Rightarrow> signals \<Rightarrow>
     app_error + RiskSignal \<times> signals" where
  "SignalRepo_OverridePriority U ident priority auto reason actorID t expected rows =
     guards [(\<not> Priority_Valid priority \<or> \<not> Priority_Valid auto, AppError KindValidation ''signals.override_priority''),
             (reason = '''' \<or> actorID = '''', AppError KindValidation ''signals.override_priority''),
             (time_IsZero t, AppError KindValidation ''signals.override_priority'')]
       (with_uuid U ''signals.override_priority'' ident (\<lambda>uid.
         versionInt32 ''signals.override_priority'' expected (\<lambda>ver.
           signal_guarded ''signals.override_priority''
             (OverrideRiskSignalPriority priority auto reason actorID (pg_time t) uid ver rows))))"

definition SignalRepo_RevertPriority :: "uuids \<Rightarrow> string \<Rightarrow> int \<Rightarrow> signals \<Rightarrow> app_error + RiskSignal \<times> signals" where
  "SignalRepo_RevertPriority U ident expected rows =
     with_uuid U ''signals.revert_priority'' ident (\<lambda>uid.
       versionInt32 ''signals.revert_priority'' expected (\<lambda>ver.
         signal_guarded ''signals.revert_priority'' (RevertRiskSignalPriority uid ver rows)))"

definition SignalRepo_AssignOwner ::
  "uuids \<Rightarrow> string \<Rightarrow> string \<Rightarrow> int \<Rightarrow> signals \<Rightarrow> app_error + RiskSignal \<times> signals" where
  "SignalRepo_AssignOwner U ident owner expected rows =
     with_uuid U ''signals.assign_owner'' ident (\<lambda>uid.
       versionInt32 ''signals.assign_owner'' expected (\<lambda>ver.
         signal_guarded ''signals.assign_owner'' (AssignRiskSignalOwner (toTextOpt owner) uid ver rows)))"

definition SignalRepo_RecomputePriority ::
  "uuids \<Rightarrow> string \<Rightarrow> Priority \<Rightarrow> string \<Rightarrow> PriorityFactors \<Rightarrow> signals \<Rightarrow> app_error + RiskSignal \<times> signals" where
  "SignalRepo_RecomputePriority U ident priority ruleVersion factors rows =
     guards [(\<not> Priority_Valid priority, AppError KindValidation ''signals.recompute_priority''),
             (ruleVersion = '''', AppError KindValidation ''signals.recompute_priority'')]
       (with_uuid U ''signals.recompute_priority'' ident (\<lambda>uid.
         rbind (db_result ''signals.recompute_priority'' (RecomputeRiskSignalPriority priority ruleVersion factors uid rows))
           (\<lambda>(row, rows'). Ok (riskSignalFromRow row, rows'))))"

definition SignalRepo_MarkEscalated :: "uuids \<Rightarrow> string \<Rightarrow> time \<Rightarrow> signals \<Rightarrow> app_error + bool \<times> signals" where
  "SignalRepo_MarkEscalated U ident t rows =
     (if time_IsZero t then Validationf ''signals.mark_escalated''
      else with_uuid U ''signals.mark_escalated'' ident (\<lambda>uid.
        (case MarkRiskSignalEscalated (pg_time t) uid rows of
           Inl e \<Rightarrow> (if e = NoRows then Ok (False, rows) else Err (mapDBError ''signals.mark_escalated'' e))
         | Inr (_, rows') \<Rightarrow> Ok (True, rows'))))"

record SignalRecord =
  Rec_MatchID :: string
  Rec_Priority :: Priority
  Rec_RuleVersion :: string
  Rec_Factors :: PriorityFactors

definition SignalRepo_Create ::
  "uuids \<Rightarrow> string list \<Rightarrow> string \<Rightarrow> SignalRecord \<Rightarrow> time \<Rightarrow> signals \<Rightarrow> app_error + RiskSignal \<times> signals" where
  "SignalRepo_Create U matches newid rec createdAt rows =
     with_uuid U ''create_signal'' (Rec_MatchID rec) (\<lambda>matchID.
       rbind (db_result ''create_signal'' (InsertRiskSignal matches newid matchID (Rec_Priority rec)
           (Rec_RuleVersion rec) (Rec_Factors rec) (pg_time createdAt) rows))
         (\<lambda>(row, rows'). Ok (riskSignalFromRow row, rows')))"

section \<open>Users\<close>

record UserIdentity =
  UI_ID :: string
  UI_SubjectID :: string
  UI_DisplayName :: string
  UI_DeactivatedAt :: time

definition UserRepo_GetUserByID :: "uuids \<Rightarrow> string \<Rightarrow> UserIdentity list \<Rightarrow> app_error + UserIdentity" where
  "UserRepo_GetUserByID U ident users =
     with_uuid U ''user.get_by_id'' ident (\<lambda>uid.
       db_result ''user.get_by_id'' (select_row (\<lambda>u. UI_ID u = uid) users))"

text \<open>The grants of a user, by role; a text that is no role grants nothing.\<close>

definition UserRepo_RolesByUserID :: "uuids \<Rightarrow> string \<Rightarrow> (string \<times> string) list \<Rightarrow> app_error + Role list" where
  "UserRepo_RolesByUserID U userID grants =
     with_uuid U ''user.list_roles_by_user'' userID (\<lambda>uid.
       Ok (concat (map (\<lambda>(_, s). case ParseRole s of Inl _ \<Rightarrow> [] | Inr r \<Rightarrow> [r])
             (sort_key snd (filter (\<lambda>(u, _). u = uid) grants)))))"

section \<open>Rules\<close>

text \<open>A row of the published rulesets; its column of JSON as the predicate it encodes.\<close>

record PriorityRuleRow =
  PRR_RuleID :: Priority
  PRR_Version :: int
  PRR_Definition :: RuleDefinition
  PRR_Enabled :: bool
  PRR_EffectiveFrom :: time
  PRR_Reason :: "string option"
  PRR_ActorID :: string
  PRR_CreatedAt :: time

section \<open>The database\<close>

record Db =
  db_matches :: "string list"
  db_signals :: signals
  db_clocks :: clocks
  db_comments :: "Comment list"
  db_audit :: "AuditEvent list"
  db_outbox :: outbox
  db_users :: "UserIdentity list"
  db_roles :: "(string \<times> string) list"
  db_rules :: "PriorityRuleRow list"

text \<open>A statement on one table, as a step of a transaction.\<close>

definition on_signals :: "(signals \<Rightarrow> app_error + 'a \<times> signals) \<Rightarrow> Db \<Rightarrow> app_error + 'a \<times> Db" where
  "on_signals f db = rbind (f (db_signals db)) (\<lambda>(a, rows). Ok (a, db\<lparr>db_signals := rows\<rparr>))"

definition on_clocks :: "(clocks \<Rightarrow> app_error + 'a \<times> clocks) \<Rightarrow> Db \<Rightarrow> app_error + 'a \<times> Db" where
  "on_clocks f db = rbind (f (db_clocks db)) (\<lambda>(a, rows). Ok (a, db\<lparr>db_clocks := rows\<rparr>))"

lemma on_signals_Ok_iff [tx_simps]:
  "on_signals f db = Inr (a, db') \<longleftrightarrow> (\<exists>rows. f (db_signals db) = Inr (a, rows) \<and> db' = db\<lparr>db_signals := rows\<rparr>)"
  by (auto simp: on_signals_def result_simps)

lemma on_clocks_Ok_iff [tx_simps]:
  "on_clocks f db = Inr (a, db') \<longleftrightarrow> (\<exists>rows. f (db_clocks db) = Inr (a, rows) \<and> db' = db\<lparr>db_clocks := rows\<rparr>)"
  by (auto simp: on_clocks_def result_simps)

definition CommentRepo_Add :: "uuids \<Rightarrow> string \<Rightarrow> string \<Rightarrow> string \<Rightarrow> string \<Rightarrow> Db \<Rightarrow> app_error + Comment \<times> Db" where
  "CommentRepo_Add U newid signalID actorID body db =
     with_uuid U ''comments.add'' signalID (\<lambda>uid.
       if \<not> list_ex (\<lambda>r. SR_ID r = uid) (db_signals db) then Err (mapDBError ''comments.add'' ForeignKeyViolation)
       else
         (let c = \<lparr>Com_ID = newid, Com_SignalID = uid, Com_ActorID = actorID, Com_Body = body\<rparr>
          in Ok (c, db\<lparr>db_comments := db_comments db @ [c]\<rparr>)))"

text \<open>The audit port takes the event; theory AuditChain says how it is stored. An identifier that is none is
  refused, as there.\<close>

definition audit_Append :: "uuids \<Rightarrow> AuditEvent \<Rightarrow> Db \<Rightarrow> app_error + unit \<times> Db" where
  "audit_Append U ev db =
     with_uuid U ''audit.append'' (Ev_AggregateID ev) (\<lambda>_.
       Ok ((), db\<lparr>db_audit := db_audit db @ [ev]\<rparr>))"

definition outbox_Append :: "string \<Rightarrow> OutboxEvent \<Rightarrow> Db \<Rightarrow> app_error + unit \<times> Db" where
  "outbox_Append newid ev db =
     rbind (OutboxRepo_Append newid ev (db_outbox db)) (\<lambda>rows. Ok ((), db\<lparr>db_outbox := rows\<rparr>))"

lemma audit_Append_Ok_iff [tx_simps]:
  "audit_Append U ev db = Inr (u, db') \<longleftrightarrow> U (Ev_AggregateID ev) \<noteq> None \<and> db' = db\<lparr>db_audit := db_audit db @ [ev]\<rparr>"
  by (auto simp: audit_Append_def with_uuid_def split: option.splits)

lemma outbox_Append_Ok_iff [tx_simps]:
  "outbox_Append newid ev db = Inr (u, db') \<longleftrightarrow>
     (\<exists>rows. OutboxRepo_Append newid ev (db_outbox db) = Inr rows \<and> db' = db\<lparr>db_outbox := rows\<rparr>)"
  by (auto simp: outbox_Append_def result_simps)

end
