(* ===== verification/Triage.thy ===== *)
theory Triage
  imports SignalStore
begin

text \<open>
  The triage and SLA commands (internal/application: signal_triage.go, with the authorisation seam
  of authz.go and the vocabulary of create_signal.go). A command checks its input and the state it
  has read (\<open>seen\<close>), then runs one transaction on the database, which other commands may have
  changed since: status, audit event, clocks and outbox event commit together.
\<close>

section \<open>Environment\<close>

record Actor =
  Act_Type :: string
  Act_ID :: string
  Act_DisplayName :: string

definition ActorTypeSystem :: string where "ActorTypeSystem = ''system''"
definition ActorTypeUser :: string where "ActorTypeUser = ''user''"
definition ActorTypeService :: string where "ActorTypeService = ''service''"

definition validActorType :: "string \<Rightarrow> bool" where
  "validActorType t \<longleftrightarrow> t \<in> {ActorTypeSystem, ActorTypeUser, ActorTypeService}"

text \<open>What the service is built with, and from the libraries: the parser of identifiers, the
  encoder of encoding/json with its texts of an instant and of a factor set, and the SHA-256
  digest as hexadecimal text.\<close>

record Service =
  sv_uuid :: uuids
  sv_users_wired :: bool
  sv_profile :: SLATimeProfile
  sv_cadence :: duration
  sv_marshal :: "json \<Rightarrow> string option"
  sv_json_time :: "time \<Rightarrow> string"
  sv_json_factors :: "PriorityFactors \<Rightarrow> string option"
  sv_sha256_hex :: "string \<Rightarrow> string"

text \<open>What one call draws: the clock, the fresh identifiers of \<open>uuid.New\<close>, and those of the column
  defaults of the rows it inserts.\<close>

record Env =
  en_now :: time
  en_correlation_id :: string
  en_event_id :: string
  en_outbox_id :: string
  en_comment_id :: string
  en_signal_id :: string
  en_clock_id :: "SLATarget \<Rightarrow> string"
  en_clock_row_id :: "SLATarget \<Rightarrow> string"

definition correlationOrNew :: "Env \<Rightarrow> string \<Rightarrow> string" where
  "correlationOrNew en ident = (if ident = '''' then en_correlation_id en else ident)"

text \<open>A command: its checks, then its transaction.\<close>

definition command ::
  "app_error + 'c \<Rightarrow> ('c \<Rightarrow> 'db \<Rightarrow> app_error + 'a \<times> 'db) \<Rightarrow> 'db \<Rightarrow> (app_error + 'a) \<times> 'db" where
  "command checked body db = (case checked of Inl e \<Rightarrow> (Err e, db) | Inr c \<Rightarrow> runTx (body c) db)"

lemma command_Ok_iff [tx_simps]:
  "command checked body db = (Inr a, db') \<longleftrightarrow> (\<exists>c. checked = Inr c \<and> body c db = Inr (a, db'))"
  by (auto simp: command_def tx_simps split: sum.splits)

lemma command_Err: "command checked body db = (Inl e, db') \<Longrightarrow> db' = db"
  by (auto simp: command_def dest: runTx_Err split: sum.splits)

section \<open>JSON texts\<close>

definition int_text :: "int \<Rightarrow> string" where
  "int_text n = (if n < 0 then ''-'' @ itoa (nat (- n)) else itoa (nat n))"

definition jtext :: "string \<Rightarrow> string \<Rightarrow> (string \<times> json) list" where
  "jtext k s = [(k, JString s)]"

text \<open>The tag \<open>omitempty\<close>.\<close>

definition jomit :: "string \<Rightarrow> string \<Rightarrow> (string \<times> json) list" where
  "jomit k s = (if s = '''' then [] else [(k, JString s)])"

definition jint :: "string \<Rightarrow> int \<Rightarrow> (string \<times> json) list" where
  "jint k n = [(k, JNumber (int_text n))]"

definition jtime :: "Service \<Rightarrow> string \<Rightarrow> time \<Rightarrow> (string \<times> json) list" where
  "jtime sv k t = [(k, JString (sv_json_time sv t))]"

definition jtime_omit :: "Service \<Rightarrow> string \<Rightarrow> time \<Rightarrow> (string \<times> json) list" where
  "jtime_omit sv k t = (if time_IsZero t then [] else jtime sv k t)"

definition marshal :: "Service \<Rightarrow> string \<Rightarrow> (string \<times> json) list list \<Rightarrow> app_error + string" where
  "marshal sv op parts =
     (case sv_marshal sv (JObject (concat parts)) of None \<Rightarrow> InfraError op | Some b \<Rightarrow> Ok b)"

definition signalStateSnapshot :: "Service \<Rightarrow> string \<Rightarrow> RiskSignal \<Rightarrow> string \<Rightarrow> app_error + string" where
  "signalStateSnapshot sv op s reason =
     marshal sv op
       [jtext ''id'' (Sig_ID s), jtext ''status'' (SignalStatus_str (Sig_Status s)),
        jtext ''priority'' (Priority_str (Sig_Priority s)), jomit ''owner'' (Sig_Owner s),
        jint ''version'' (Sig_Version s),
        jomit ''auto_priority'' (case Sig_AutoPriority s of None \<Rightarrow> '''' | Some p \<Rightarrow> Priority_str p),
        jomit ''reason'' reason]"

definition commentSnapshot :: "Service \<Rightarrow> string \<Rightarrow> Comment \<Rightarrow> app_error + string" where
  "commentSnapshot sv op c =
     marshal sv op
       [jtext ''comment_id'' (Com_ID c), jtext ''signal_id'' (Com_SignalID c), jtext ''actor_id'' (Com_ActorID c)]"

definition slaClockSnapshot :: "Service \<Rightarrow> string \<Rightarrow> SlaClock \<Rightarrow> string \<Rightarrow> app_error + string" where
  "slaClockSnapshot sv op c reason =
     marshal sv op
       [jtext ''target'' (SLATarget_str (Clk_Target c)), jtime sv ''deadline_at'' (Clk_DeadlineAt c),
        jint ''paused_seconds'' (Clk_PausedSeconds c), jtime_omit sv ''paused_at'' (Clk_PausedAt c),
        jtime_omit sv ''fulfilled_at'' (Clk_FulfilledAt c), jomit ''reason'' reason]"

definition slaClockMutationSnapshot :: "Service \<Rightarrow> string \<Rightarrow> SlaClock \<Rightarrow> time \<Rightarrow> app_error + string" where
  "slaClockMutationSnapshot sv op c oldDeadline =
     marshal sv op
       [jtext ''target'' (SLATarget_str (Clk_Target c)), jtime sv ''started_at'' (Clk_StartedAt c),
        jtime sv ''deadline_at'' (Clk_DeadlineAt c), jtime_omit sv ''old_deadline_at'' oldDeadline]"

section \<open>Audit and outbox of a command\<close>

definition AuditAggregateRiskSignal :: string where "AuditAggregateRiskSignal = ''risk_signal''"

definition appendSignalAudit ::
  "Service \<Rightarrow> string \<Rightarrow> string \<Rightarrow> Actor \<Rightarrow> string \<Rightarrow> time \<Rightarrow> string \<Rightarrow> string \<Rightarrow> Db \<Rightarrow> app_error + unit \<times> Db" where
  "appendSignalAudit sv action signalID actor correlationID now before after =
     audit_Append (sv_uuid sv)
       \<lparr>Ev_AggregateType = AuditAggregateRiskSignal, Ev_AggregateID = signalID, Ev_ActorType = Act_Type actor,
        Ev_ActorID = Act_ID actor, Ev_ActorDisplayName = Act_DisplayName actor, Ev_Action = action,
        Ev_OccurredAt = now, Ev_Before = before, Ev_After = after, Ev_CorrelationID = correlationID\<rparr>"

record signalCommandPayload =
  Pl_Version :: int
  Pl_From :: string
  Pl_To :: string
  Pl_Owner :: string
  Pl_Priority :: string
  Pl_AutoPriority :: string
  Pl_Target :: string
  Pl_CommentID :: string
  Pl_CveID :: string
  Pl_RuleVersion :: string
  Pl_InputHash :: string

definition no_payload :: signalCommandPayload where
  "no_payload = \<lparr>Pl_Version = 0, Pl_From = '''', Pl_To = '''', Pl_Owner = '''', Pl_Priority = '''',
     Pl_AutoPriority = '''', Pl_Target = '''', Pl_CommentID = '''', Pl_CveID = '''',
     Pl_RuleVersion = '''', Pl_InputHash = ''''\<rparr>"

definition payload_text ::
  "Service \<Rightarrow> string \<Rightarrow> string \<Rightarrow> string \<Rightarrow> string \<Rightarrow> time \<Rightarrow> string \<Rightarrow> signalCommandPayload \<Rightarrow> app_error + string" where
  "payload_text sv op eventID evtType signalID now correlationID p =
     marshal sv op
       [jtext ''event_id'' eventID, jtext ''type'' evtType, jtext ''signal_id'' signalID,
        jtime sv ''occurred_at'' now, jtext ''correlation_id'' correlationID,
        (if Pl_Version p = 0 then [] else jint ''version'' (Pl_Version p)),
        jomit ''from'' (Pl_From p), jomit ''to'' (Pl_To p), jomit ''owner'' (Pl_Owner p),
        jomit ''priority'' (Pl_Priority p), jomit ''auto_priority'' (Pl_AutoPriority p),
        jomit ''target'' (Pl_Target p), jomit ''comment_id'' (Pl_CommentID p), jomit ''cve_id'' (Pl_CveID p),
        jomit ''rule_version'' (Pl_RuleVersion p), jomit ''input_hash'' (Pl_InputHash p)]"

definition appendSignalOutbox ::
  "Service \<Rightarrow> Env \<Rightarrow> string \<Rightarrow> string \<Rightarrow> string \<Rightarrow> time \<Rightarrow> signalCommandPayload \<Rightarrow> Db \<Rightarrow> app_error + unit \<times> Db" where
  "appendSignalOutbox sv en evtType signalID correlationID now p =
     tx_bind (tx_lift (payload_text sv ''signal_command'' (en_event_id en) evtType signalID now correlationID p)) (\<lambda>payload.
       outbox_Append (en_outbox_id en)
         \<lparr>OE_Type = evtType, OE_Payload = payload,
          OE_DedupeKey = evtType @ '':'' @ signalID @ '':'' @ en_event_id en,
          OE_AvailableAt = now, OE_CreatedAt = now\<rparr>)"

section \<open>The authorisation seam\<close>

text \<open>What authorize.go keeps of a principal; the zero principal stands for an internal caller.\<close>

definition zero_principal :: Principal where
  "zero_principal = \<lparr>SubjectID = '''', DisplayName = '''', Email = '''', InternalID = '''', Roles = [], DeactivatedAt = 0\<rparr>"

definition resolvePrincipal :: "Service \<Rightarrow> string \<Rightarrow> Actor \<Rightarrow> Db \<Rightarrow> app_error + Principal" where
  "resolvePrincipal sv op a seen =
     (if Act_ID a = '''' then Forbiddenf op
      else if \<not> sv_users_wired sv then InfraError op
      else
        (case UserRepo_GetUserByID (sv_uuid sv) (Act_ID a) (db_users seen) of
           Inl (AppError kind _) \<Rightarrow> (if kind = KindNotFound then Forbiddenf op else InfraError op)
         | Inl (ForeignError _) \<Rightarrow> InfraError op
         | Inr u \<Rightarrow>
             (if \<not> time_IsZero (UI_DeactivatedAt u) then Forbiddenf op
              else
                (case UserRepo_RolesByUserID (sv_uuid sv) (Act_ID a) (db_roles seen) of
                   Inl _ \<Rightarrow> InfraError op
                 | Inr roles \<Rightarrow>
                     Ok (zero_principal\<lparr>DisplayName := UI_DisplayName u, InternalID := UI_ID u, Roles := roles,
                         DeactivatedAt := UI_DeactivatedAt u\<rparr>)))))"

definition principalFor :: "Service \<Rightarrow> string \<Rightarrow> Actor \<Rightarrow> Db \<Rightarrow> app_error + Principal" where
  "principalFor sv op a seen =
     (if Act_Type a \<noteq> ActorTypeUser then Ok zero_principal else resolvePrincipal sv op a seen)"

definition authorizeObject :: "string \<Rightarrow> Principal \<Rightarrow> Permission \<Rightarrow> Scope \<Rightarrow> string \<Rightarrow> app_error + unit" where
  "authorizeObject op p perm scope ownerID =
     (if InternalID p = '''' then Ok ()
      else
        (case Authorize (Roles p) perm scope ownerID (InternalID p) of
           Inl _ \<Rightarrow> InfraError op
         | Inr permit \<Rightarrow> (if \<not> permit then Forbiddenf op else Ok ())))"

definition authorize ::
  "Service \<Rightarrow> string \<Rightarrow> Actor \<Rightarrow> Permission \<Rightarrow> Scope \<Rightarrow> string \<Rightarrow> Db \<Rightarrow> app_error + Principal" where
  "authorize sv op a perm scope ownerID seen =
     rbind (principalFor sv op a seen) (\<lambda>p.
     rbind (authorizeObject op p perm scope ownerID) (\<lambda>_. Ok p))"

definition signalActor :: "string \<Rightarrow> Actor \<Rightarrow> app_error + Actor" where
  "signalActor op a =
     guards [(\<not> validActorType (Act_Type a), AppError KindValidation op), (Act_ID a = '''', AppError KindValidation op)]
       (Ok a)"

section \<open>The clocks of a signal\<close>

definition definedAt :: "Service \<Rightarrow> Priority \<Rightarrow> SLATarget \<Rightarrow> bool" where
  "definedAt sv priority target \<longleftrightarrow> Duration (sv_profile sv) priority target > 0"

definition clocks_Fulfil :: "Service \<Rightarrow> string \<Rightarrow> SLATarget \<Rightarrow> time \<Rightarrow> Db \<Rightarrow> app_error + (SlaClock option) \<times> Db" where
  "clocks_Fulfil sv signalID target t = on_clocks (SlaClockRepo_Fulfil (sv_uuid sv) signalID target t)"

definition fulfilClock :: "Service \<Rightarrow> RiskSignal \<Rightarrow> SLATarget \<Rightarrow> time \<Rightarrow> Db \<Rightarrow> app_error + unit \<times> Db" where
  "fulfilClock sv s target t =
     (if \<not> definedAt sv (Sig_Priority s) target then tx_return ()
      else tx_bind (clocks_Fulfil sv (Sig_ID s) target t) (\<lambda>_. tx_return ()))"

definition resetClock :: "Service \<Rightarrow> RiskSignal \<Rightarrow> time \<Rightarrow> SLATarget \<Rightarrow> Db \<Rightarrow> app_error + unit \<times> Db" where
  "resetClock sv s now target =
     (let deadline = time_Add now (Duration (sv_profile sv) (Sig_Priority s) target)
      in tx_bind (on_clocks (SlaClockRepo_Reset (sv_uuid sv) (Sig_ID s) target now deadline)) (\<lambda>_. tx_return ()))"

definition resetClocks :: "Service \<Rightarrow> RiskSignal \<Rightarrow> time \<Rightarrow> Db \<Rightarrow> app_error + unit \<times> Db" where
  "resetClocks sv s now = tx_each (resetClock sv s now) (Targets (sv_profile sv) (Sig_Priority s))"

definition applyTransitionClocks ::
  "Service \<Rightarrow> SignalStatus \<Rightarrow> RiskSignal \<Rightarrow> SignalStatus \<Rightarrow> time \<Rightarrow> Db \<Rightarrow> app_error + unit \<times> Db" where
  "applyTransitionClocks sv frm s to now =
     (case to of
        SignalStatusActionPlanned \<Rightarrow> tx_bind (fulfilClock sv s SLATargetAssessment now) (\<lambda>_. fulfilClock sv s SLATargetDecision now)
      | SignalStatusAccepted \<Rightarrow> tx_bind (fulfilClock sv s SLATargetAssessment now) (\<lambda>_. fulfilClock sv s SLATargetDecision now)
      | SignalStatusResolved \<Rightarrow> tx_bind (fulfilClock sv s SLATargetAssessment now) (\<lambda>_. fulfilClock sv s SLATargetDecision now)
      | SignalStatusNotAffected \<Rightarrow> fulfilClock sv s SLATargetAssessment now
      | SignalStatusInReview \<Rightarrow> (if IsReopen frm to then resetClocks sv s now else tx_return ())
      | _ \<Rightarrow> tx_return ())"

definition createClock :: "Service \<Rightarrow> Env \<Rightarrow> string \<Rightarrow> Priority \<Rightarrow> time \<Rightarrow> SLATarget \<Rightarrow> Db \<Rightarrow> app_error + unit \<times> Db" where
  "createClock sv en signalID priority now target =
     tx_bind (tx_lift (app_result KindInfra ''sla_clocks.create''
         (NewSlaClock (en_clock_id en target) signalID target priority (sv_profile sv) now))) (\<lambda>clock.
     tx_bind (on_clocks (SlaClockRepo_Upsert (sv_uuid sv) (en_clock_row_id en target) clock)) (\<lambda>_.
     tx_return ()))"

definition createClocks :: "Service \<Rightarrow> Env \<Rightarrow> string \<Rightarrow> Priority \<Rightarrow> time \<Rightarrow> Db \<Rightarrow> app_error + unit \<times> Db" where
  "createClocks sv en signalID priority now =
     tx_each (createClock sv en signalID priority now) (Targets (sv_profile sv) priority)"

definition EventTypeSignalSLAClockCreated :: string where
  "EventTypeSignalSLAClockCreated = ''signal.sla_clock_created''"
definition EventTypeSignalSLAClockTightened :: string where
  "EventTypeSignalSLAClockTightened = ''signal.sla_clock_tightened''"

text \<open>One round of the loop over the targets of the new priority: create the clock that is missing, or tighten the
  one that would end later.\<close>

definition clocks_Get :: "Service \<Rightarrow> string \<Rightarrow> SLATarget \<Rightarrow> Db \<Rightarrow> app_error + (SlaClock option) \<times> Db" where
  "clocks_Get sv signalID target db =
     rbind (SlaClockRepo_Get (sv_uuid sv) signalID target (db_clocks db)) (\<lambda>c. Ok (c, db))"

definition upgrade_create ::
  "Service \<Rightarrow> Env \<Rightarrow> string \<Rightarrow> Priority \<Rightarrow> Actor \<Rightarrow> string \<Rightarrow> time \<Rightarrow> SLATarget \<Rightarrow> Db \<Rightarrow> app_error + unit \<times> Db" where
  "upgrade_create sv en signalID priority actor correlationID now target =
     tx_bind (tx_lift (app_result KindInfra ''sla_clocks.upgrade''
         (NewSlaClock (en_clock_id en target) signalID target priority (sv_profile sv) now))) (\<lambda>created.
     tx_bind (on_clocks (SlaClockRepo_Upsert (sv_uuid sv) (en_clock_row_id en target) created)) (\<lambda>stored.
     tx_bind (tx_lift (slaClockMutationSnapshot sv ''sla_clocks.upgrade'' stored 0)) (\<lambda>after.
     appendSignalAudit sv EventTypeSignalSLAClockCreated signalID actor correlationID now '''' after)))"

definition upgrade_tighten ::
  "Service \<Rightarrow> string \<Rightarrow> Priority \<Rightarrow> Actor \<Rightarrow> string \<Rightarrow> time \<Rightarrow> SLATarget \<Rightarrow> SlaClock \<Rightarrow> Db \<Rightarrow> app_error + unit \<times> Db" where
  "upgrade_tighten sv signalID priority actor correlationID now target existing =
     (let newDeadline = time_Add now (Duration (sv_profile sv) priority target) in
      tx_bind (on_clocks (SlaClockRepo_Tighten (sv_uuid sv) signalID target newDeadline)) (\<lambda>tightened.
        case tightened of
          None \<Rightarrow> tx_return ()
        | Some clock \<Rightarrow>
            tx_bind (tx_lift (slaClockMutationSnapshot sv ''sla_clocks.upgrade'' clock (Clk_DeadlineAt existing))) (\<lambda>after.
            appendSignalAudit sv EventTypeSignalSLAClockTightened signalID actor correlationID now '''' after)))"

definition upgradeClock ::
  "Service \<Rightarrow> Env \<Rightarrow> string \<Rightarrow> Priority \<Rightarrow> Actor \<Rightarrow> string \<Rightarrow> time \<Rightarrow> SLATarget \<Rightarrow> Db \<Rightarrow> app_error + unit \<times> Db" where
  "upgradeClock sv en signalID priority actor correlationID now target =
     tx_bind (clocks_Get sv signalID target) (\<lambda>found.
       case found of
         None \<Rightarrow> upgrade_create sv en signalID priority actor correlationID now target
       | Some existing \<Rightarrow> upgrade_tighten sv signalID priority actor correlationID now target existing)"

definition applyUpgradeClocks ::
  "Service \<Rightarrow> Env \<Rightarrow> string \<Rightarrow> Priority \<Rightarrow> Actor \<Rightarrow> string \<Rightarrow> time \<Rightarrow> Db \<Rightarrow> app_error + unit \<times> Db" where
  "applyUpgradeClocks sv en signalID priority actor correlationID now =
     tx_each (upgradeClock sv en signalID priority actor correlationID now) (Targets (sv_profile sv) priority)"

end
