(* ===== verification/SignalCommands.thy ===== *)
theory SignalCommands
  imports Triage
begin

text \<open>
  The commands of a risk signal (internal/application: signal_triage.go, create_signal.go). Each is
  given in two parts, as the code has them: what it checks before its transaction, on the tables
  as it has read them (\<open>seen\<close>), and the body of the transaction, on the database as it is then.
\<close>

section \<open>Inputs and event types\<close>

definition EventTypeSignalTransitioned :: string where "EventTypeSignalTransitioned = ''signal.transitioned''"
definition EventTypeSignalOwnerAssigned :: string where "EventTypeSignalOwnerAssigned = ''signal.owner_assigned''"
definition EventTypeSignalCommented :: string where "EventTypeSignalCommented = ''signal.commented''"
definition EventTypeSignalAcknowledged :: string where "EventTypeSignalAcknowledged = ''signal.acknowledged''"
definition EventTypeSignalPriorityOverridden :: string where
  "EventTypeSignalPriorityOverridden = ''signal.priority_overridden''"
definition EventTypeSignalPriorityReverted :: string where
  "EventTypeSignalPriorityReverted = ''signal.priority_reverted''"
definition EventTypeSignalSLAPaused :: string where "EventTypeSignalSLAPaused = ''signal.sla_paused''"
definition EventTypeSignalSLAResumed :: string where "EventTypeSignalSLAResumed = ''signal.sla_resumed''"
definition EventTypeSignalCreated :: string where "EventTypeSignalCreated = ''signal.created''"

record TransitionSignalInput =
  TS_SignalID :: string
  TS_To :: SignalStatus
  TS_Reason :: string
  TS_ExpectedVersion :: int
  TS_Actor :: Actor
  TS_CorrelationID :: string

record AssignOwnerInput =
  AO_SignalID :: string
  AO_Owner :: string
  AO_ExpectedVersion :: int
  AO_Actor :: Actor
  AO_CorrelationID :: string

record AddCommentInput =
  AC_SignalID :: string
  AC_Body :: string
  AC_Actor :: Actor
  AC_CorrelationID :: string

record AcknowledgeSignalInput =
  AK_SignalID :: string
  AK_ExpectedVersion :: int
  AK_Actor :: Actor
  AK_CorrelationID :: string

record OverridePriorityInput =
  OP_SignalID :: string
  OP_Priority :: Priority
  OP_Reason :: string
  OP_ExpectedVersion :: int
  OP_Actor :: Actor
  OP_CorrelationID :: string

record RevertPriorityInput =
  RP_SignalID :: string
  RP_ExpectedVersion :: int
  RP_Actor :: Actor
  RP_CorrelationID :: string

record PauseSlaInput =
  PS_SignalID :: string
  PS_Target :: SLATarget
  PS_Reason :: string
  PS_Actor :: Actor
  PS_CorrelationID :: string

record ResumeSlaInput =
  RS_SignalID :: string
  RS_Target :: SLATarget
  RS_Reason :: string
  RS_Actor :: Actor
  RS_CorrelationID :: string

record CreateSignalInput =
  CS_MatchID :: string
  CS_CveID :: string
  CS_Factors :: PriorityFactors
  CS_CorrelationID :: string
  CS_Actor :: Actor

abbreviation invalid :: "string \<Rightarrow> app_error" where
  "invalid op \<equiv> AppError KindValidation op"

section \<open>TransitionSignal\<close>

definition TransitionSignal_check ::
  "Service \<Rightarrow> TransitionSignalInput \<Rightarrow> Db \<Rightarrow> app_error + RiskSignal \<times> string" where
  "TransitionSignal_check sv inp seen =
     (let op = ''transition_signal'' in
      rbind (principalFor sv op (TS_Actor inp) seen) (\<lambda>principal.
      guards [(TS_SignalID inp = '''', invalid op),
              (\<not> SignalStatus_Valid (TS_To inp), invalid op),
              (TS_ExpectedVersion inp < 1, invalid op)]
        (rbind (signalActor op (TS_Actor inp)) (\<lambda>actor.
         rbind (SignalRepo_GetRiskSignal (sv_uuid sv) (TS_SignalID inp) (db_signals seen)) (\<lambda>current.
         rbind (authorizeObject op principal PermissionSignalsTriage ScopeAssigned (Sig_Owner current)) (\<lambda>_.
         rbind (app_result KindConflict op (Transition (Sig_Status current) (TS_To inp))) (\<lambda>_.
         if TransitionRequiresReason (Sig_Status current) (TS_To inp) \<and> trim_space (TS_Reason inp) = ''''
         then Validationf op
         else rbind (signalStateSnapshot sv op current '''') (\<lambda>before. Ok (current, before)))))))))"

definition TransitionSignal_body ::
  "Service \<Rightarrow> Env \<Rightarrow> TransitionSignalInput \<Rightarrow> RiskSignal \<times> string \<Rightarrow> Db \<Rightarrow> app_error + RiskSignal \<times> Db" where
  "TransitionSignal_body sv en inp = (\<lambda>(current, before).
     let op = ''transition_signal''; correlationID = correlationOrNew en (TS_CorrelationID inp);
         now = en_now en; closedAt = (if IsClosed (TS_To inp) then Some now else None)
     in
      tx_bind (on_signals (SignalRepo_Transition (sv_uuid sv) (TS_SignalID inp) (TS_To inp) closedAt
          (TS_ExpectedVersion inp))) (\<lambda>row.
      tx_bind (tx_lift (signalStateSnapshot sv op row (TS_Reason inp))) (\<lambda>after.
      tx_bind (appendSignalAudit sv EventTypeSignalTransitioned (Sig_ID row) (TS_Actor inp) correlationID now before after) (\<lambda>_.
      tx_bind (applyTransitionClocks sv (Sig_Status current) row (TS_To inp) now) (\<lambda>_.
      tx_bind (appendSignalOutbox sv en EventTypeSignalTransitioned (Sig_ID row) correlationID now
        (no_payload\<lparr>Pl_Version := Sig_Version row, Pl_From := SignalStatus_str (Sig_Status current),
                    Pl_To := SignalStatus_str (TS_To inp)\<rparr>)) (\<lambda>_.
      tx_return row))))))"

definition TransitionSignal ::
  "Service \<Rightarrow> Env \<Rightarrow> TransitionSignalInput \<Rightarrow> Db \<Rightarrow> Db \<Rightarrow> (app_error + RiskSignal) \<times> Db" where
  "TransitionSignal sv en inp seen = command (TransitionSignal_check sv inp seen) (TransitionSignal_body sv en inp)"

section \<open>AssignOwner\<close>

definition AssignOwner_check :: "Service \<Rightarrow> AssignOwnerInput \<Rightarrow> Db \<Rightarrow> app_error + RiskSignal \<times> string" where
  "AssignOwner_check sv inp seen =
     (let op = ''assign_owner'' in
      rbind (principalFor sv op (AO_Actor inp) seen) (\<lambda>principal.
      guards [(AO_SignalID inp = '''', invalid op), (AO_ExpectedVersion inp < 1, invalid op)]
        (rbind (signalActor op (AO_Actor inp)) (\<lambda>actor.
         rbind (SignalRepo_GetRiskSignal (sv_uuid sv) (AO_SignalID inp) (db_signals seen)) (\<lambda>current.
         rbind (authorizeObject op principal PermissionSignalsTriage ScopeAssigned (Sig_Owner current)) (\<lambda>_.
         rbind (signalStateSnapshot sv op current '''') (\<lambda>before. Ok (current, before))))))))"

definition AssignOwner_body ::
  "Service \<Rightarrow> Env \<Rightarrow> AssignOwnerInput \<Rightarrow> RiskSignal \<times> string \<Rightarrow> Db \<Rightarrow> app_error + RiskSignal \<times> Db" where
  "AssignOwner_body sv en inp = (\<lambda>(current, before).
     let op = ''assign_owner''; correlationID = correlationOrNew en (AO_CorrelationID inp); now = en_now en in
      tx_bind (on_signals (SignalRepo_AssignOwner (sv_uuid sv) (AO_SignalID inp) (AO_Owner inp) (AO_ExpectedVersion inp))) (\<lambda>row.
      tx_bind (tx_lift (signalStateSnapshot sv op row '''')) (\<lambda>after.
      tx_bind (appendSignalAudit sv EventTypeSignalOwnerAssigned (Sig_ID row) (AO_Actor inp) correlationID now before after) (\<lambda>_.
      tx_bind (appendSignalOutbox sv en EventTypeSignalOwnerAssigned (Sig_ID row) correlationID now
        (no_payload\<lparr>Pl_Version := Sig_Version row, Pl_Owner := Sig_Owner row\<rparr>)) (\<lambda>_.
      tx_return row)))))"

definition AssignOwner :: "Service \<Rightarrow> Env \<Rightarrow> AssignOwnerInput \<Rightarrow> Db \<Rightarrow> Db \<Rightarrow> (app_error + RiskSignal) \<times> Db" where
  "AssignOwner sv en inp seen = command (AssignOwner_check sv inp seen) (AssignOwner_body sv en inp)"

section \<open>AddComment\<close>

definition AddComment_check :: "Service \<Rightarrow> AddCommentInput \<Rightarrow> Db \<Rightarrow> app_error + unit" where
  "AddComment_check sv inp seen =
     (let op = ''add_comment'' in
      rbind (principalFor sv op (AC_Actor inp) seen) (\<lambda>principal.
      guards [(AC_SignalID inp = '''', invalid op), (trim_space (AC_Body inp) = '''', invalid op)]
        (rbind (signalActor op (AC_Actor inp)) (\<lambda>actor.
         rbind (SignalRepo_GetRiskSignal (sv_uuid sv) (AC_SignalID inp) (db_signals seen)) (\<lambda>current.
         authorizeObject op principal PermissionSignalsTriage ScopeAssigned (Sig_Owner current))))))"

definition AddComment_body :: "Service \<Rightarrow> Env \<Rightarrow> AddCommentInput \<Rightarrow> unit \<Rightarrow> Db \<Rightarrow> app_error + Comment \<times> Db" where
  "AddComment_body sv en inp u =
     (let op = ''add_comment''; correlationID = correlationOrNew en (AC_CorrelationID inp); now = en_now en in
      tx_bind (CommentRepo_Add (sv_uuid sv) (en_comment_id en) (AC_SignalID inp) (Act_ID (AC_Actor inp)) (AC_Body inp)) (\<lambda>comment.
      tx_bind (tx_lift (commentSnapshot sv op comment)) (\<lambda>after.
      tx_bind (appendSignalAudit sv EventTypeSignalCommented (AC_SignalID inp) (AC_Actor inp) correlationID now '''' after) (\<lambda>_.
      tx_bind (appendSignalOutbox sv en EventTypeSignalCommented (AC_SignalID inp) correlationID now
        (no_payload\<lparr>Pl_CommentID := Com_ID comment\<rparr>)) (\<lambda>_.
      tx_return comment)))))"

definition AddComment :: "Service \<Rightarrow> Env \<Rightarrow> AddCommentInput \<Rightarrow> Db \<Rightarrow> Db \<Rightarrow> (app_error + Comment) \<times> Db" where
  "AddComment sv en inp seen = command (AddComment_check sv inp seen) (AddComment_body sv en inp)"

section \<open>AcknowledgeSignal\<close>

definition AcknowledgeSignal_check ::
  "Service \<Rightarrow> AcknowledgeSignalInput \<Rightarrow> Db \<Rightarrow> app_error + RiskSignal \<times> string" where
  "AcknowledgeSignal_check sv inp seen =
     (let op = ''acknowledge_signal'' in
      rbind (principalFor sv op (AK_Actor inp) seen) (\<lambda>principal.
      guards [(AK_SignalID inp = '''', invalid op), (AK_ExpectedVersion inp < 1, invalid op)]
        (rbind (signalActor op (AK_Actor inp)) (\<lambda>actor.
         rbind (SignalRepo_GetRiskSignal (sv_uuid sv) (AK_SignalID inp) (db_signals seen)) (\<lambda>current.
         rbind (authorizeObject op principal PermissionSignalsTriage ScopeAssigned (Sig_Owner current)) (\<lambda>_.
         rbind (app_result KindConflict op (Transition (Sig_Status current) SignalStatusInReview)) (\<lambda>_.
         rbind (signalStateSnapshot sv op current '''') (\<lambda>before. Ok (current, before)))))))))"

definition AcknowledgeSignal_body ::
  "Service \<Rightarrow> Env \<Rightarrow> AcknowledgeSignalInput \<Rightarrow> RiskSignal \<times> string \<Rightarrow> Db \<Rightarrow> app_error + RiskSignal \<times> Db" where
  "AcknowledgeSignal_body sv en inp = (\<lambda>(current, before).
     let op = ''acknowledge_signal''; correlationID = correlationOrNew en (AK_CorrelationID inp); now = en_now en in
      tx_bind (on_signals (SignalRepo_Transition (sv_uuid sv) (AK_SignalID inp) SignalStatusInReview None
          (AK_ExpectedVersion inp))) (\<lambda>row.
      tx_bind (tx_lift (signalStateSnapshot sv op row '''')) (\<lambda>after.
      tx_bind (appendSignalAudit sv EventTypeSignalAcknowledged (Sig_ID row) (AK_Actor inp) correlationID now before after) (\<lambda>_.
      tx_bind (clocks_Fulfil sv (Sig_ID row) SLATargetAcknowledgement now) (\<lambda>_.
      tx_bind (appendSignalOutbox sv en EventTypeSignalAcknowledged (Sig_ID row) correlationID now
        (no_payload\<lparr>Pl_Version := Sig_Version row, Pl_From := SignalStatus_str (Sig_Status current),
                    Pl_To := SignalStatus_str SignalStatusInReview\<rparr>)) (\<lambda>_.
      tx_return row))))))"

definition AcknowledgeSignal ::
  "Service \<Rightarrow> Env \<Rightarrow> AcknowledgeSignalInput \<Rightarrow> Db \<Rightarrow> Db \<Rightarrow> (app_error + RiskSignal) \<times> Db" where
  "AcknowledgeSignal sv en inp seen = command (AcknowledgeSignal_check sv inp seen) (AcknowledgeSignal_body sv en inp)"

section \<open>OverridePriority and RevertPriority\<close>

definition OverridePriority_check ::
  "Service \<Rightarrow> Env \<Rightarrow> OverridePriorityInput \<Rightarrow> Db \<Rightarrow> app_error + RiskSignal \<times> string" where
  "OverridePriority_check sv en inp seen =
     (let op = ''override_priority'' in
      rbind (authorize sv op (OP_Actor inp) PermissionSignalsOverride ScopeAll '''' seen) (\<lambda>_.
      guards [(OP_SignalID inp = '''', invalid op),
              (\<not> Priority_Valid (OP_Priority inp), invalid op),
              (trim_space (OP_Reason inp) = '''', invalid op),
              (OP_ExpectedVersion inp < 1, invalid op)]
        (rbind (signalActor op (OP_Actor inp)) (\<lambda>actor.
         rbind (SignalRepo_GetRiskSignal (sv_uuid sv) (OP_SignalID inp) (db_signals seen)) (\<lambda>current.
         rbind (app_result KindValidation op
           (Override current (OP_Priority inp) (OP_Reason inp) (Act_ID actor) (en_now en))) (\<lambda>_.
         rbind (signalStateSnapshot sv op current '''') (\<lambda>before. Ok (current, before))))))))"

definition OverridePriority_body ::
  "Service \<Rightarrow> Env \<Rightarrow> OverridePriorityInput \<Rightarrow> RiskSignal \<times> string \<Rightarrow> Db \<Rightarrow> app_error + RiskSignal \<times> Db" where
  "OverridePriority_body sv en inp = (\<lambda>(current, before).
     let op = ''override_priority''; correlationID = correlationOrNew en (OP_CorrelationID inp);
         now = en_now en; auto = Sig_Priority current; actor = OP_Actor inp
     in
      tx_bind (on_signals (SignalRepo_OverridePriority (sv_uuid sv) (OP_SignalID inp) (OP_Priority inp) auto
          (OP_Reason inp) (Act_ID actor) now (OP_ExpectedVersion inp))) (\<lambda>row.
      tx_bind (tx_lift (signalStateSnapshot sv op row (OP_Reason inp))) (\<lambda>after.
      tx_bind (appendSignalAudit sv EventTypeSignalPriorityOverridden (Sig_ID row) actor correlationID now before after) (\<lambda>_.
      tx_bind (applyUpgradeClocks sv en (Sig_ID row) (Sig_Priority row) actor correlationID now) (\<lambda>_.
      tx_bind (appendSignalOutbox sv en EventTypeSignalPriorityOverridden (Sig_ID row) correlationID now
        (no_payload\<lparr>Pl_Version := Sig_Version row, Pl_Priority := Priority_str (Sig_Priority row),
                    Pl_AutoPriority := Priority_str auto\<rparr>)) (\<lambda>_.
      tx_return row))))))"

definition OverridePriority ::
  "Service \<Rightarrow> Env \<Rightarrow> OverridePriorityInput \<Rightarrow> Db \<Rightarrow> Db \<Rightarrow> (app_error + RiskSignal) \<times> Db" where
  "OverridePriority sv en inp seen = command (OverridePriority_check sv en inp seen) (OverridePriority_body sv en inp)"

definition RevertPriority_check :: "Service \<Rightarrow> RevertPriorityInput \<Rightarrow> Db \<Rightarrow> app_error + RiskSignal \<times> string" where
  "RevertPriority_check sv inp seen =
     (let op = ''revert_priority'' in
      rbind (authorize sv op (RP_Actor inp) PermissionSignalsOverride ScopeAll '''' seen) (\<lambda>_.
      guards [(RP_SignalID inp = '''', invalid op), (RP_ExpectedVersion inp < 1, invalid op)]
        (rbind (signalActor op (RP_Actor inp)) (\<lambda>actor.
         rbind (SignalRepo_GetRiskSignal (sv_uuid sv) (RP_SignalID inp) (db_signals seen)) (\<lambda>current.
         rbind (app_result KindValidation op (Revert current)) (\<lambda>_.
         rbind (signalStateSnapshot sv op current '''') (\<lambda>before. Ok (current, before))))))))"

definition RevertPriority_body ::
  "Service \<Rightarrow> Env \<Rightarrow> RevertPriorityInput \<Rightarrow> RiskSignal \<times> string \<Rightarrow> Db \<Rightarrow> app_error + RiskSignal \<times> Db" where
  "RevertPriority_body sv en inp = (\<lambda>(current, before).
     let op = ''revert_priority''; correlationID = correlationOrNew en (RP_CorrelationID inp); now = en_now en in
      tx_bind (on_signals (SignalRepo_RevertPriority (sv_uuid sv) (RP_SignalID inp) (RP_ExpectedVersion inp))) (\<lambda>row.
      tx_bind (tx_lift (signalStateSnapshot sv op row '''')) (\<lambda>after.
      tx_bind (appendSignalAudit sv EventTypeSignalPriorityReverted (Sig_ID row) (RP_Actor inp) correlationID now before after) (\<lambda>_.
      tx_bind (appendSignalOutbox sv en EventTypeSignalPriorityReverted (Sig_ID row) correlationID now
        (no_payload\<lparr>Pl_Version := Sig_Version row, Pl_Priority := Priority_str (Sig_Priority row)\<rparr>)) (\<lambda>_.
      tx_return row)))))"

definition RevertPriority ::
  "Service \<Rightarrow> Env \<Rightarrow> RevertPriorityInput \<Rightarrow> Db \<Rightarrow> Db \<Rightarrow> (app_error + RiskSignal) \<times> Db" where
  "RevertPriority sv en inp seen = command (RevertPriority_check sv inp seen) (RevertPriority_body sv en inp)"

section \<open>PauseSla and ResumeSla\<close>

definition PauseSla_check :: "Service \<Rightarrow> PauseSlaInput \<Rightarrow> Db \<Rightarrow> app_error + unit" where
  "PauseSla_check sv inp seen =
     (let op = ''pause_sla'' in
      rbind (principalFor sv op (PS_Actor inp) seen) (\<lambda>principal.
      guards [(PS_SignalID inp = '''', invalid op),
              (\<not> SLATarget_Valid (PS_Target inp), invalid op),
              (trim_space (PS_Reason inp) = '''', invalid op)]
        (rbind (signalActor op (PS_Actor inp)) (\<lambda>actor.
         rbind (SignalRepo_GetRiskSignal (sv_uuid sv) (PS_SignalID inp) (db_signals seen)) (\<lambda>current.
         authorizeObject op principal PermissionSignalsTriage ScopeAssigned (Sig_Owner current))))))"

definition PauseSla_body :: "Service \<Rightarrow> Env \<Rightarrow> PauseSlaInput \<Rightarrow> unit \<Rightarrow> Db \<Rightarrow> app_error + SlaClock \<times> Db" where
  "PauseSla_body sv en inp u =
     (let op = ''pause_sla''; correlationID = correlationOrNew en (PS_CorrelationID inp); now = en_now en in
      tx_bind (on_clocks (SlaClockRepo_Pause (sv_uuid sv) (PS_SignalID inp) (PS_Target inp) now)) (\<lambda>clock.
      tx_bind (tx_lift (slaClockSnapshot sv op clock (PS_Reason inp))) (\<lambda>after.
      tx_bind (appendSignalAudit sv EventTypeSignalSLAPaused (PS_SignalID inp) (PS_Actor inp) correlationID now '''' after) (\<lambda>_.
      tx_bind (appendSignalOutbox sv en EventTypeSignalSLAPaused (PS_SignalID inp) correlationID now
        (no_payload\<lparr>Pl_Target := SLATarget_str (PS_Target inp)\<rparr>)) (\<lambda>_.
      tx_return clock)))))"

definition PauseSla :: "Service \<Rightarrow> Env \<Rightarrow> PauseSlaInput \<Rightarrow> Db \<Rightarrow> Db \<Rightarrow> (app_error + SlaClock) \<times> Db" where
  "PauseSla sv en inp seen = command (PauseSla_check sv inp seen) (PauseSla_body sv en inp)"

definition ResumeSla_check :: "Service \<Rightarrow> ResumeSlaInput \<Rightarrow> Db \<Rightarrow> app_error + unit" where
  "ResumeSla_check sv inp seen =
     (let op = ''resume_sla'' in
      rbind (principalFor sv op (RS_Actor inp) seen) (\<lambda>principal.
      guards [(RS_SignalID inp = '''', invalid op),
              (\<not> SLATarget_Valid (RS_Target inp), invalid op),
              (trim_space (RS_Reason inp) = '''', invalid op)]
        (rbind (signalActor op (RS_Actor inp)) (\<lambda>actor.
         rbind (SignalRepo_GetRiskSignal (sv_uuid sv) (RS_SignalID inp) (db_signals seen)) (\<lambda>current.
         authorizeObject op principal PermissionSignalsTriage ScopeAssigned (Sig_Owner current))))))"

definition ResumeSla_body :: "Service \<Rightarrow> Env \<Rightarrow> ResumeSlaInput \<Rightarrow> unit \<Rightarrow> Db \<Rightarrow> app_error + SlaClock \<times> Db" where
  "ResumeSla_body sv en inp u =
     (let op = ''resume_sla''; correlationID = correlationOrNew en (RS_CorrelationID inp); now = en_now en in
      tx_bind (on_clocks (SlaClockRepo_Resume (sv_uuid sv) (RS_SignalID inp) (RS_Target inp) now)) (\<lambda>clock.
      tx_bind (tx_lift (slaClockSnapshot sv op clock (RS_Reason inp))) (\<lambda>after.
      tx_bind (appendSignalAudit sv EventTypeSignalSLAResumed (RS_SignalID inp) (RS_Actor inp) correlationID now '''' after) (\<lambda>_.
      tx_bind (appendSignalOutbox sv en EventTypeSignalSLAResumed (RS_SignalID inp) correlationID now
        (no_payload\<lparr>Pl_Target := SLATarget_str (RS_Target inp)\<rparr>)) (\<lambda>_.
      tx_return clock)))))"

definition ResumeSla :: "Service \<Rightarrow> Env \<Rightarrow> ResumeSlaInput \<Rightarrow> Db \<Rightarrow> Db \<Rightarrow> (app_error + SlaClock) \<times> Db" where
  "ResumeSla sv en inp seen = command (ResumeSla_check sv inp seen) (ResumeSla_body sv en inp)"

section \<open>CreateSignal\<close>

definition CreateSignal_check :: "CreateSignalInput \<Rightarrow> app_error + unit" where
  "CreateSignal_check inp =
     (let op = ''create_signal'' in
      guards [(CS_MatchID inp = '''', invalid op), (CS_CveID inp = '''', invalid op),
              (\<not> validActorType (Act_Type (CS_Actor inp)), invalid op), (Act_ID (CS_Actor inp) = '''', invalid op)]
        (app_result KindValidation op (PriorityFactors_Validate (CS_Factors inp))))"

definition signalSnapshot :: "Service \<Rightarrow> string \<Rightarrow> RiskSignal \<Rightarrow> time \<Rightarrow> app_error + string" where
  "signalSnapshot sv op s now =
     marshal sv op
       [jtext ''id'' (Sig_ID s), jtext ''match_id'' (Sig_MatchID s), jtext ''priority'' (Priority_str (Sig_Priority s)),
        jtext ''status'' (SignalStatus_str (Sig_Status s)), jint ''version'' (Sig_Version s),
        jtext ''rule_version'' (Sig_RuleVersion s), jtime sv ''created_at'' now]"

definition signalCreatedPayload :: "Service \<Rightarrow> Env \<Rightarrow> string \<Rightarrow> RiskSignal \<Rightarrow> string \<Rightarrow> time \<Rightarrow> string \<Rightarrow> app_error + string" where
  "signalCreatedPayload sv en op s cveID now correlationID =
     marshal sv op
       [jtext ''event_id'' (en_event_id en), jtext ''type'' EventTypeSignalCreated, jtext ''signal_id'' (Sig_ID s),
        jtext ''match_id'' (Sig_MatchID s), jtext ''cve_id'' cveID, jtext ''priority'' (Priority_str (Sig_Priority s)),
        jtime sv ''occurred_at'' now, jtext ''correlation_id'' correlationID]"

definition signalDedupeKey :: "string \<Rightarrow> string" where
  "signalDedupeKey signalID = ''signal.created:'' @ signalID"

definition signals_Create :: "Service \<Rightarrow> Env \<Rightarrow> SignalRecord \<Rightarrow> time \<Rightarrow> Db \<Rightarrow> app_error + RiskSignal \<times> Db" where
  "signals_Create sv en rec now db =
     on_signals (SignalRepo_Create (sv_uuid sv) (db_matches db) (en_signal_id en) rec now) db"

definition CreateSignal_body ::
  "Service \<Rightarrow> Env \<Rightarrow> CreateSignalInput \<Rightarrow> unit \<Rightarrow> Db \<Rightarrow> app_error + (RiskSignal \<times> string) \<times> Db" where
  "CreateSignal_body sv en inp u =
     (let op = ''create_signal''; correlationID = correlationOrNew en (CS_CorrelationID inp); now = en_now en;
          record = \<lparr>Rec_MatchID = CS_MatchID inp, Rec_Priority = ComputePriority (CS_Factors inp),
                    Rec_RuleVersion = PriorityRuleVersionI1b, Rec_Factors = CS_Factors inp\<rparr>
      in
      tx_bind (signals_Create sv en record now) (\<lambda>created.
      tx_bind (tx_lift (signalSnapshot sv op created now)) (\<lambda>after.
      tx_bind (appendSignalAudit sv EventTypeSignalCreated (Sig_ID created) (CS_Actor inp) correlationID now '''' after) (\<lambda>_.
      tx_bind (createClocks sv en (Sig_ID created) (Sig_Priority created) now) (\<lambda>_.
      tx_bind (tx_lift (signalCreatedPayload sv en op created (CS_CveID inp) now correlationID)) (\<lambda>payload.
      tx_bind (outbox_Append (en_outbox_id en)
        \<lparr>OE_Type = EventTypeSignalCreated, OE_Payload = payload, OE_DedupeKey = signalDedupeKey (Sig_ID created),
         OE_AvailableAt = now, OE_CreatedAt = now\<rparr>) (\<lambda>_.
      tx_return (created, correlationID))))))))"

definition CreateSignal :: "Service \<Rightarrow> Env \<Rightarrow> CreateSignalInput \<Rightarrow> Db \<Rightarrow> (app_error + RiskSignal \<times> string) \<times> Db" where
  "CreateSignal sv en inp = command (CreateSignal_check inp) (CreateSignal_body sv en inp)"

end
