(* ===== verification/SignalHistory.thy ===== *)
theory SignalHistory
  imports SignalCommands
begin

text \<open>
  What the signal commands do to the database: the gate of the authorisation, the rows each command
  leaves, the optimistic lock, and the invariant of every history of commands.
\<close>

section \<open>Commands\<close>

datatype signal_command =
    CmdTransition TransitionSignalInput
  | CmdAssignOwner AssignOwnerInput
  | CmdComment AddCommentInput
  | CmdAcknowledge AcknowledgeSignalInput
  | CmdOverride OverridePriorityInput
  | CmdRevert RevertPriorityInput
  | CmdPause PauseSlaInput
  | CmdResume ResumeSlaInput

definition forget :: "(app_error + 'a) \<times> Db \<Rightarrow> (app_error + unit) \<times> Db" where
  "forget res = (rbind (fst res) (\<lambda>_. Ok ()), snd res)"

fun run_command :: "Service \<Rightarrow> Env \<Rightarrow> signal_command \<Rightarrow> Db \<Rightarrow> Db \<Rightarrow> (app_error + unit) \<times> Db" where
  "run_command sv en (CmdTransition i) seen db = forget (TransitionSignal sv en i seen db)"
| "run_command sv en (CmdAssignOwner i) seen db = forget (AssignOwner sv en i seen db)"
| "run_command sv en (CmdComment i) seen db = forget (AddComment sv en i seen db)"
| "run_command sv en (CmdAcknowledge i) seen db = forget (AcknowledgeSignal sv en i seen db)"
| "run_command sv en (CmdOverride i) seen db = forget (OverridePriority sv en i seen db)"
| "run_command sv en (CmdRevert i) seen db = forget (RevertPriority sv en i seen db)"
| "run_command sv en (CmdPause i) seen db = forget (PauseSla sv en i seen db)"
| "run_command sv en (CmdResume i) seen db = forget (ResumeSla sv en i seen db)"

fun command_actor :: "signal_command \<Rightarrow> Actor" where
  "command_actor (CmdTransition i) = TS_Actor i"
| "command_actor (CmdAssignOwner i) = AO_Actor i"
| "command_actor (CmdComment i) = AC_Actor i"
| "command_actor (CmdAcknowledge i) = AK_Actor i"
| "command_actor (CmdOverride i) = OP_Actor i"
| "command_actor (CmdRevert i) = RP_Actor i"
| "command_actor (CmdPause i) = PS_Actor i"
| "command_actor (CmdResume i) = RS_Actor i"

fun command_signal :: "signal_command \<Rightarrow> string" where
  "command_signal (CmdTransition i) = TS_SignalID i"
| "command_signal (CmdAssignOwner i) = AO_SignalID i"
| "command_signal (CmdComment i) = AC_SignalID i"
| "command_signal (CmdAcknowledge i) = AK_SignalID i"
| "command_signal (CmdOverride i) = OP_SignalID i"
| "command_signal (CmdRevert i) = RP_SignalID i"
| "command_signal (CmdPause i) = PS_SignalID i"
| "command_signal (CmdResume i) = RS_SignalID i"

fun command_event :: "signal_command \<Rightarrow> string" where
  "command_event (CmdTransition i) = EventTypeSignalTransitioned"
| "command_event (CmdAssignOwner i) = EventTypeSignalOwnerAssigned"
| "command_event (CmdComment i) = EventTypeSignalCommented"
| "command_event (CmdAcknowledge i) = EventTypeSignalAcknowledged"
| "command_event (CmdOverride i) = EventTypeSignalPriorityOverridden"
| "command_event (CmdRevert i) = EventTypeSignalPriorityReverted"
| "command_event (CmdPause i) = EventTypeSignalSLAPaused"
| "command_event (CmdResume i) = EventTypeSignalSLAResumed"

text \<open>The version a command expects; comments and pauses expect none.\<close>

fun command_version :: "signal_command \<Rightarrow> int option" where
  "command_version (CmdTransition i) = Some (TS_ExpectedVersion i)"
| "command_version (CmdAssignOwner i) = Some (AO_ExpectedVersion i)"
| "command_version (CmdAcknowledge i) = Some (AK_ExpectedVersion i)"
| "command_version (CmdOverride i) = Some (OP_ExpectedVersion i)"
| "command_version (CmdRevert i) = Some (RP_ExpectedVersion i)"
| "command_version _ = None"

text \<open>The permission a command needs, and whether it looks at the owner of the signal.\<close>

fun command_permission :: "signal_command \<Rightarrow> Permission \<times> Scope" where
  "command_permission (CmdOverride _) = (PermissionSignalsOverride, ScopeAll)"
| "command_permission (CmdRevert _) = (PermissionSignalsOverride, ScopeAll)"
| "command_permission _ = (PermissionSignalsTriage, ScopeAssigned)"

lemma forget_Ok_iff: "forget res = (Inr u, db') \<longleftrightarrow> (\<exists>a. res = (Inr a, db'))"
  by (cases res) (auto simp: forget_def result_simps)

lemma forget_Err_iff: "forget res = (Inl e, db') \<longleftrightarrow> res = (Inl e, db')"
  by (cases res; cases "fst res") (auto simp: forget_def)

text \<open>The parser of identifiers returns a canonical text, which is not empty.\<close>

definition canonical :: "uuids \<Rightarrow> bool" where
  "canonical U \<longleftrightarrow> (\<forall>s u. U s = Some u \<longrightarrow> U u = Some u \<and> u \<noteq> '''')"

section \<open>The gate\<close>

lemma authorizeObject_Ok:
  "authorizeObject op p perm scope owner = Inr u \<longleftrightarrow>
     (if InternalID p = '''' then True else Authorize (Roles p) perm scope owner (InternalID p) = Ok True)"
  by (auto simp: authorizeObject_def split: sum.splits if_splits)

lemma principalFor_user:
  assumes "principalFor sv op a seen = Inr p" "Act_Type a = ActorTypeUser"
  shows "\<exists>uid u. sv_uuid sv (Act_ID a) = Some uid \<and> find (\<lambda>u. UI_ID u = uid) (db_users seen) = Some u \<and>
    UI_DeactivatedAt u = 0 \<and> InternalID p = uid \<and>
    UserRepo_RolesByUserID (sv_uuid sv) (Act_ID a) (db_roles seen) = Ok (Roles p)"
  using assms
  by (auto simp: principalFor_def resolvePrincipal_def UserRepo_GetUserByID_def result_simps time_IsZero_def
      split: if_splits sum.splits app_error.splits dest: find_SomeD)

lemma signalActor_Ok:
  "signalActor op a = Inr a' \<longleftrightarrow> validActorType (Act_Type a) \<and> Act_ID a \<noteq> '''' \<and> a' = a"
  by (auto simp: signalActor_def result_simps)

lemmas check_defs = TransitionSignal_check_def AssignOwner_check_def AddComment_check_def
  AcknowledgeSignal_check_def OverridePriority_check_def RevertPriority_check_def PauseSla_check_def
  ResumeSla_check_def Let_def authorize_def

lemmas command_defs = TransitionSignal_def AssignOwner_def AddComment_def AcknowledgeSignal_def
  OverridePriority_def RevertPriority_def PauseSla_def ResumeSla_def

text \<open>What the checks of every command have established when it succeeds.\<close>

lemma run_command_checked:
  assumes "run_command sv en cmd seen db = (Inr u, db')"
  shows "validActorType (Act_Type (command_actor cmd)) \<and> Act_ID (command_actor cmd) \<noteq> '''' \<and>
    (\<exists>op p s. principalFor sv op (command_actor cmd) seen = Ok p \<and>
       SignalRepo_GetRiskSignal (sv_uuid sv) (command_signal cmd) (db_signals seen) = Ok s \<and>
       authorizeObject op p (fst (command_permission cmd)) (snd (command_permission cmd))
         (if snd (command_permission cmd) = ScopeAll then '''' else Sig_Owner s) = Ok ())"
proof (cases cmd)
  case (CmdTransition i)
  then show ?thesis using assms
    by (auto simp: forget_Ok_iff command_defs command_Ok_iff check_defs result_simps signalActor_Ok split: if_splits)
next
  case (CmdOverride i)
  then show ?thesis using assms
    by (auto simp: forget_Ok_iff command_defs command_Ok_iff check_defs result_simps signalActor_Ok)
next
  case (CmdRevert i)
  then show ?thesis using assms
    by (auto simp: forget_Ok_iff command_defs command_Ok_iff check_defs result_simps signalActor_Ok)
qed (use assms in \<open>auto simp: forget_Ok_iff command_defs command_Ok_iff check_defs result_simps signalActor_Ok\<close>)

lemma run_command_Err: "run_command sv en cmd seen db = (Inl e, db') \<Longrightarrow> db' = db"
  by (cases cmd) (auto simp: forget_Err_iff command_defs dest: command_Err)

text \<open>Who may triage, and who may override.\<close>

lemma Authorize_triage:
  assumes "Authorize rs PermissionSignalsTriage ScopeAssigned owner pid = Ok True"
  shows "RoleSecurityAnalyst \<in> set rs \<or> (RoleSystemResponsible \<in> set rs \<and> owner = pid)"
proof -
  obtain r gs where "r \<in> set rs" "rolePermissions r PermissionSignalsTriage = Some gs" "covers gs ScopeAssigned owner pid"
    using assms by (auto simp: Authorize_True_iff role_grants_matrix)
  then show ?thesis by - (cases r; auto simp: covers_def)
qed

lemma Authorize_override:
  assumes "Authorize rs PermissionSignalsOverride scope owner pid = Ok True"
  shows "RoleSecurityAnalyst \<in> set rs"
proof -
  obtain r gs where "r \<in> set rs" "rolePermissions r PermissionSignalsOverride = Some gs"
    using assms by (auto simp: Authorize_True_iff role_grants_matrix)
  then show ?thesis by - (cases r; auto)
qed

lemma command_permission_cases:
  "command_permission cmd = (PermissionSignalsOverride, ScopeAll) \<or>
   command_permission cmd = (PermissionSignalsTriage, ScopeAssigned)"
  by (cases cmd) auto

text \<open>C9: Deny by default, end to end. A command that a user issues succeeds only if the user is known and not
  deactivated, and the roles granted to him now let him: overriding and reverting a priority need
  the analyst; every other command needs the analyst, or a system responsible to whom the signal
  is assigned. An actor of another type is one of the trusted types, and every actor is named.\<close>

theorem commands_are_authorised:
  assumes "run_command sv en cmd seen db = (Ok (), db')" "canonical (sv_uuid sv)"
  shows "validActorType (Act_Type (command_actor cmd)) \<and> Act_ID (command_actor cmd) \<noteq> '''' \<and>
    (if Act_Type (command_actor cmd) = ActorTypeUser
     then \<exists>uid u roles s. sv_uuid sv (Act_ID (command_actor cmd)) = Some uid \<and>
       find (\<lambda>u. UI_ID u = uid) (db_users seen) = Some u \<and> UI_DeactivatedAt u = 0 \<and>
       UserRepo_RolesByUserID (sv_uuid sv) (Act_ID (command_actor cmd)) (db_roles seen) = Ok roles \<and>
       SignalRepo_GetRiskSignal (sv_uuid sv) (command_signal cmd) (db_signals seen) = Ok s \<and>
       (RoleSecurityAnalyst \<in> set roles \<or>
        (command_permission cmd = (PermissionSignalsTriage, ScopeAssigned) \<and>
         RoleSystemResponsible \<in> set roles \<and> Sig_Owner s = uid))
     else True)"
proof (cases "Act_Type (command_actor cmd) = ActorTypeUser")
  case user: True
  obtain op p s where c: "principalFor sv op (command_actor cmd) seen = Ok p"
    "SignalRepo_GetRiskSignal (sv_uuid sv) (command_signal cmd) (db_signals seen) = Ok s"
    "authorizeObject op p (fst (command_permission cmd)) (snd (command_permission cmd))
       (if snd (command_permission cmd) = ScopeAll then '''' else Sig_Owner s) = Ok ()"
    using run_command_checked [OF assms(1)] by blast
  obtain uid u where u: "sv_uuid sv (Act_ID (command_actor cmd)) = Some uid" "InternalID p = uid"
    "find (\<lambda>u. UI_ID u = uid) (db_users seen) = Some u" "UI_DeactivatedAt u = 0"
    "UserRepo_RolesByUserID (sv_uuid sv) (Act_ID (command_actor cmd)) (db_roles seen) = Ok (Roles p)"
    using principalFor_user [OF c(1) user] by blast
  have "uid \<noteq> ''''" using u(1) assms(2) by (auto simp: canonical_def)
  then have "RoleSecurityAnalyst \<in> set (Roles p) \<or>
      (command_permission cmd = (PermissionSignalsTriage, ScopeAssigned) \<and>
       RoleSystemResponsible \<in> set (Roles p) \<and> Sig_Owner s = uid)"
    using c(3) u(2) command_permission_cases [of cmd]
    by (auto simp: authorizeObject_Ok dest: Authorize_triage Authorize_override split: if_splits)
  with u c(2) user run_command_checked [OF assms(1)] show ?thesis by auto
qed (use run_command_checked [OF assms(1)] in simp)

section \<open>What a command leaves\<close>

lemmas result_Ok_iffs = result_simps guards_Ok_iff

lemma marshal_total: "marshal sv op parts = Inr b \<longleftrightarrow> sv_marshal sv (JObject (concat parts)) = Some b"
  by (auto simp: marshal_def split: option.splits)

lemma appendSignalAudit_Ok [tx_simps]:
  "appendSignalAudit sv action sid actor cid now before after db = Inr (u, db') \<longleftrightarrow>
     sv_uuid sv sid \<noteq> None \<and>
     db' = db\<lparr>db_audit := db_audit db @
       [\<lparr>Ev_AggregateType = AuditAggregateRiskSignal, Ev_AggregateID = sid, Ev_ActorType = Act_Type actor,
         Ev_ActorID = Act_ID actor, Ev_ActorDisplayName = Act_DisplayName actor, Ev_Action = action,
         Ev_OccurredAt = now, Ev_Before = before, Ev_After = after, Ev_CorrelationID = cid\<rparr>]\<rparr>"
  by (simp add: appendSignalAudit_def audit_Append_Ok_iff)

lemma OutboxRepo_Append_Ok:
  "OutboxRepo_Append newid ev rows = Inr rows' \<longleftrightarrow>
     OE_DedupeKey ev \<notin> Ob_DedupeKey ` set rows \<and>
     rows' = rows @ [\<lparr>Ob_ID = newid, Ob_Type = OE_Type ev, Ob_Payload = OE_Payload ev, Ob_Status = Pending,
       Ob_AvailableAt = OE_AvailableAt ev, Ob_LeaseUntil = None, Ob_Attempts = 0,
       Ob_LastError = None, Ob_DedupeKey = OE_DedupeKey ev, Ob_CreatedAt = OE_CreatedAt ev\<rparr>]"
  by (auto simp: OutboxRepo_Append_def list_ex_iff image_iff dest: sym)

lemma appendSignalOutbox_Ok:
  assumes "appendSignalOutbox sv en evt sid cid now p db = Inr (u, db')"
  shows "\<exists>row. db' = db\<lparr>db_outbox := db_outbox db @ [row]\<rparr> \<and> Ob_Type row = evt \<and> Ob_Status row = Pending \<and>
    Ob_ID row = en_outbox_id en \<and> Ob_DedupeKey row = evt @ '':'' @ sid @ '':'' @ en_event_id en \<and>
    Ob_AvailableAt row = now \<and> Ob_DedupeKey row \<notin> Ob_DedupeKey ` set (db_outbox db)"
  using assms by (auto simp: appendSignalOutbox_def tx_simps OutboxRepo_Append_Ok)

text \<open>Work on the clocks of a signal, with its audit: nothing else of the database changes, and the
  clocks change as \<open>R\<close> says.\<close>

definition clock_work :: "(clocks \<Rightarrow> clocks \<Rightarrow> bool) \<Rightarrow> (Db \<Rightarrow> app_error + 'a \<times> Db) \<Rightarrow> bool" where
  "clock_work R m \<longleftrightarrow> (\<forall>db a db'. m db = Inr (a, db') \<longrightarrow>
     (\<exists>rows evs. db' = db\<lparr>db_clocks := rows, db_audit := db_audit db @ evs\<rparr> \<and> R (db_clocks db) rows))"

lemma clock_workD:
  "clock_work R m \<Longrightarrow> m db = Inr (a, db') \<Longrightarrow>
    \<exists>rows evs. db' = db\<lparr>db_clocks := rows, db_audit := db_audit db @ evs\<rparr> \<and> R (db_clocks db) rows"
  by (auto simp: clock_work_def)

lemma clock_work_unchanged:
  assumes "reflp R"
  shows "\<exists>rows evs. db = db\<lparr>db_clocks := rows, db_audit := db_audit db @ evs\<rparr> \<and> R (db_clocks db) rows"
    "\<exists>rows evs'. db\<lparr>db_audit := db_audit db @ evs\<rparr> = db\<lparr>db_clocks := rows, db_audit := db_audit db @ evs'\<rparr> \<and> R (db_clocks db) rows"
   by (rule exI [of _ "db_clocks db"], rule exI [of _ "[]"], use assms in \<open>simp add: reflp_def\<close>)
     (rule exI [of _ "db_clocks db"], rule exI [of _ evs], use assms in \<open>simp add: reflp_def\<close>)

lemma clock_work_return: "reflp R \<Longrightarrow> clock_work R (tx_return a)"
  by (auto simp: clock_work_def tx_simps simp del: ex_simps intro!: clock_work_unchanged)

lemma clock_work_lift: "reflp R \<Longrightarrow> clock_work R (tx_lift m)"
  by (auto simp: clock_work_def tx_simps simp del: ex_simps intro!: clock_work_unchanged)

lemma clock_work_bind:
  assumes "transp R" "clock_work R m" "\<And>a. clock_work R (f a)"
  shows "clock_work R (tx_bind m f)"
  unfolding clock_work_def
proof (intro allI impI)
  fix db b db' assume "tx_bind m f db = Inr (b, db')"
  then obtain a db1 where "m db = Inr (a, db1)" "f a db1 = Inr (b, db')" by (auto simp: tx_simps)
  moreover obtain rows evs where 1: "db1 = db\<lparr>db_clocks := rows, db_audit := db_audit db @ evs\<rparr>" "R (db_clocks db) rows"
    using clock_workD [OF assms(2)] calculation(1) by blast
  moreover obtain rows' evs' where "db' = db1\<lparr>db_clocks := rows', db_audit := db_audit db1 @ evs'\<rparr>" "R (db_clocks db1) rows'"
    using clock_workD [OF assms(3)] calculation(2) by blast
  ultimately have "db' = db\<lparr>db_clocks := rows', db_audit := db_audit db @ (evs @ evs')\<rparr>" "R (db_clocks db) rows'"
    using assms(1) by (auto dest: transpD)
  then show "\<exists>rows evs. db' = db\<lparr>db_clocks := rows, db_audit := db_audit db @ evs\<rparr> \<and> R (db_clocks db) rows" by blast
qed

lemma clock_work_each:
  "reflp R \<Longrightarrow> transp R \<Longrightarrow> (\<And>x. x \<in> set xs \<Longrightarrow> clock_work R (f x)) \<Longrightarrow> clock_work R (tx_each f xs)"
  by (induction xs) (auto intro: clock_work_return clock_work_bind)

lemma clock_work_audit: "reflp R \<Longrightarrow> clock_work R (appendSignalAudit sv action sid actor cid now before after)"
  by (auto simp: clock_work_def tx_simps simp del: ex_simps intro!: clock_work_unchanged)

lemma clock_work_on_clocks:
  assumes "\<And>rows a rows'. f rows = Inr (a, rows') \<Longrightarrow> R rows rows'"
  shows "clock_work R (on_clocks f)"
  unfolding clock_work_def tx_simps
proof (clarify, rule exI, rule exI [of _ "[]"])
  fix db a rows assume "f (db_clocks db) = Inr (a, rows)"
  then show "db\<lparr>db_clocks := rows\<rparr> = db\<lparr>db_clocks := rows, db_audit := db_audit db @ []\<rparr> \<and> R (db_clocks db) rows"
    using assms by simp
qed

lemma clock_work_get: "reflp R \<Longrightarrow> clock_work R (clocks_Get sv sid target)"
  by (auto simp: clock_work_def clocks_Get_def result_simps simp del: ex_simps intro!: clock_work_unchanged)

section \<open>The table of clocks over time\<close>

text \<open>A step of the table: it stays in order, and no clock is lost.\<close>

definition clocks_step :: "clocks \<Rightarrow> clocks \<Rightarrow> bool" where
  "clocks_step rows rows' \<longleftrightarrow>
     (clocks_ok rows \<longrightarrow> clocks_ok rows' \<and> row_key ` set rows \<subseteq> row_key ` set rows')"

lemma clocks_step_refl: "reflp clocks_step"
  by (simp add: reflp_def clocks_step_def)

lemma clocks_step_trans: "transp clocks_step"
  by (auto simp: transp_def clocks_step_def)

lemma update_clocks_step:
  assumes "guarded_update row_key k P f" "\<And>r r'. P r \<Longrightarrow> clock_row_ok r \<Longrightarrow> f r = Inr r' \<Longrightarrow> clock_row_ok r'"
    "update_row P f rows = Inr (r', rows')"
  shows "clocks_step rows rows'"
  unfolding clocks_step_def
proof (intro impI conjI)
  assume ok: "clocks_ok rows"
  then have d: "distinct (map row_key rows)" by (simp add: clocks_ok_def)
  note u = guarded_update.update_Ok [OF assms(1) d assms(3)]
  obtain r where "row_at row_key k rows = Some r" "P r" "f r = Inr r'" using u(1) by blast
  then have "clock_row_ok r'" using assms(2) [of r r'] ok row_at_Some [of row_key k rows r] by (auto simp: clocks_ok_def)
  then show "clocks_ok rows'" using ok u(2,4) by (auto simp: clocks_ok_def)
  show "row_key ` set rows \<subseteq> row_key ` set rows'" using u(2) by (metis list.set_map subset_refl)
qed

text \<open>An instant the service takes is later than the zero time by a microsecond, at least.\<close>

lemma pg_time_pos: "time_Micro \<le> t \<Longrightarrow> 0 < pg_time t"
  using pg_time_near [of t] by (auto simp: pg_time_def time_Micro_def) presburger?

lemma clock_changed_Ok:
  "clock_changed op rows m = Inr (a, rows') \<longleftrightarrow>
     (m = Inl NoRows \<and> a = None \<and> rows' = rows) \<or> (\<exists>row. m = Inr (row, rows') \<and> a = Some (slaClockFromRow row))"
  by (auto simp: clock_changed_def split: sum.splits prod.splits if_splits)

lemma Fulfil_step:
  assumes "time_Micro \<le> t" "SlaClockRepo_Fulfil U sid target t rows = Inr (a, rows')"
  shows "clocks_step rows rows'"
proof -
  obtain uid where "rows' = rows \<or> (\<exists>row. FulfilSlaClock (pg_time t) uid target rows = Inr (row, rows'))"
    using assms(2) by (auto simp: SlaClockRepo_Fulfil_def result_simps clock_changed_Ok)
  then show ?thesis
  proof (elim disjE exE)
    fix row assume "FulfilSlaClock (pg_time t) uid target rows = Inr (row, rows')"
    then show ?thesis
      unfolding FulfilSlaClock_def
      by (rule update_clocks_step [OF fulfil.guarded_update_axioms, rotated]) (use pg_time_pos [OF assms(1)] in \<open>auto simp: clock_row_ok_def\<close>)
  qed (use clocks_step_refl in \<open>simp add: reflp_def\<close>)
qed

lemma Reset_step:
  assumes "SlaClockRepo_Reset U sid target t d rows = Inr (a, rows')"
  shows "clocks_step rows rows'"
proof -
  obtain uid row where "ResetSlaClock (pg_time t) (pg_time d) uid target rows = Inr (row, rows')"
    using assms by (auto simp: SlaClockRepo_Reset_def result_simps)
  then show ?thesis
    unfolding ResetSlaClock_def
    by (rule update_clocks_step [OF reset.guarded_update_axioms, rotated]) (auto simp: clock_row_ok_def max_int64_def)
qed

lemma clock_guarded_Ok: "clock_guarded op m = Inr (a, rows') \<longleftrightarrow> (\<exists>row. m = Inr (row, rows') \<and> a = slaClockFromRow row)"
  by (auto simp: clock_guarded_def split: sum.splits prod.splits)

lemma Pause_step:
  assumes "time_Micro \<le> t" "SlaClockRepo_Pause U sid target t rows = Inr (a, rows')"
  shows "clocks_step rows rows'"
proof -
  obtain uid row where "PauseSlaClock (pg_time t) uid target rows = Inr (row, rows')"
    using assms(2) by (auto simp: SlaClockRepo_Pause_def result_simps clock_guarded_Ok)
  then show ?thesis
    unfolding PauseSlaClock_def
    by (rule update_clocks_step [OF pause.guarded_update_axioms, rotated])
      (use pg_time_pos [OF assms(1)] in \<open>auto simp: clock_row_ok_def\<close>)
qed

lemma Resume_step:
  assumes "SlaClockRepo_Resume U sid target t rows = Inr (a, rows')"
  shows "clocks_step rows rows'"
proof -
  obtain uid row where "ResumeSlaClock (pg_time t) uid target rows = Inr (row, rows')"
    using assms by (auto simp: SlaClockRepo_Resume_def result_simps clock_guarded_Ok)
  then show ?thesis
    unfolding ResumeSlaClock_def
    by (rule update_clocks_step [OF resume.guarded_update_axioms, rotated])
      (auto simp: clock_row_ok_def Let_def pg_round_seconds_def time_Second_def div_int_pos_iff
        split: if_splits option.splits)
qed

lemma Tighten_step:
  assumes "SlaClockRepo_Tighten U sid target t rows = Inr (a, rows')"
  shows "clocks_step rows rows'"
proof -
  obtain uid where "rows' = rows \<or> (\<exists>row. TightenSlaClock (pg_time t) uid target rows = Inr (row, rows'))"
    using assms by (auto simp: SlaClockRepo_Tighten_def result_simps clock_changed_Ok)
  then show ?thesis
  proof (elim disjE exE)
    fix row assume "TightenSlaClock (pg_time t) uid target rows = Inr (row, rows')"
    then show ?thesis
      unfolding TightenSlaClock_def
      by (rule update_clocks_step [OF tighten.guarded_update_axioms, rotated]) (auto simp: clock_row_ok_def)
  qed (use clocks_step_refl in \<open>simp add: reflp_def\<close>)
qed

lemma list_ex_key: "list_ex (clock_key sid target) rows \<longleftrightarrow> (sid, target) \<in> row_key ` set rows"
  by (force simp: list_ex_iff clock_key_iff)

lemma Upsert_step:
  assumes "SlaClockRepo_Upsert U newid c rows = Inr (a, rows')"
    "Clk_FulfilledAt c = 0" "Clk_PausedAt c = 0" "Clk_PausedSeconds c = 0"
  shows "clocks_step rows rows'"
proof -
  obtain uid row where u: "UpsertSlaClock newid uid (Clk_Target c) (pg_time (Clk_StartedAt c)) (pg_time (Clk_DeadlineAt c))
      None 0 None rows = Inr (row, rows')"
    using assms by (auto simp: SlaClockRepo_Upsert_def result_simps toTSPtr_def time_IsZero_def)
  let ?row = "\<lparr>SCR_ID = newid, SCR_SignalID = uid, SCR_Target = Clk_Target c, SCR_StartedAt = pg_time (Clk_StartedAt c),
    SCR_DeadlineAt = pg_time (Clk_DeadlineAt c), SCR_FulfilledAt = None, SCR_PausedSeconds = 0, SCR_PausedAt = None\<rparr>"
  show ?thesis
  proof (cases "list_ex (clock_key uid (Clk_Target c)) rows")
    case True
    then have "update_row (clock_key uid (Clk_Target c))
        (\<lambda>r. Ok (?row\<lparr>SCR_ID := SCR_ID r, SCR_SignalID := uid, SCR_Target := Clk_Target c\<rparr>)) rows = Inr (row, rows')"
      using u by (simp add: UpsertSlaClock_def Let_def)
    then show ?thesis
      by (rule update_clocks_step [OF upsert.guarded_update_axioms, rotated]) (auto simp: clock_row_ok_def max_int64_def)
  next
    case False
    then have "rows' = rows @ [?row]" "(uid, Clk_Target c) \<notin> row_key ` set rows"
      using u by (auto simp: UpsertSlaClock_def Let_def list_ex_key)
    then show ?thesis by (auto simp: clocks_step_def clocks_ok_def clock_row_ok_def row_key_def max_int64_def)
  qed
qed

section \<open>The table of signals over time\<close>

text \<open>A row in order: its status is known, it is closed exactly when it bears the instant of closing, the
  columns of an override are set together or clear together, and no stored instant is the zero time.\<close>

definition signal_row_ok :: "SignalRow \<Rightarrow> bool" where
  "signal_row_ok r \<longleftrightarrow> 1 \<le> SR_Version r \<and> SR_Version r \<le> max_int32 \<and> SignalStatus_Valid (SR_Status r) \<and>
     Priority_Valid (SR_Priority r) \<and> (SR_ClosedAt r \<noteq> None \<longleftrightarrow> IsClosed (SR_Status r)) \<and>
     (case SR_AutoPriority r of
        None \<Rightarrow> SR_OverrideReason r = None \<and> SR_OverrideActorID r = None \<and> SR_OverrideAt r = None
      | Some p \<Rightarrow> Priority_Valid p \<and> textValue (SR_OverrideReason r) \<noteq> '''' \<and>
          textValue (SR_OverrideActorID r) \<noteq> '''' \<and> SR_OverrideAt r \<noteq> None) \<and>
     SR_EscalatedAt r \<noteq> Some 0"

text \<open>One write: the identity of the row stays, its version grows by one, and it stays in order.\<close>

definition signal_write :: "SignalRow \<Rightarrow> SignalRow \<Rightarrow> bool" where
  "signal_write r r' \<longleftrightarrow> SR_ID r' = SR_ID r \<and> SR_MatchID r' = SR_MatchID r \<and> SR_CreatedAt r' = SR_CreatedAt r \<and>
     SR_Version r' = SR_Version r + 1 \<and> (signal_row_ok r \<longrightarrow> signal_row_ok r')"

definition signals_ok :: "signals \<Rightarrow> bool" where
  "signals_ok rows \<longleftrightarrow> distinct (map SR_ID rows) \<and> distinct (map SR_MatchID rows) \<and> (\<forall>r\<in>set rows. signal_row_ok r)"

text \<open>The effect of a write on the table: the row \<open>uid\<close> goes from \<open>r\<close> to \<open>r'\<close>, no other changes.\<close>

definition signal_written :: "string \<Rightarrow> SignalRow \<Rightarrow> SignalRow \<Rightarrow> signals \<Rightarrow> signals \<Rightarrow> bool" where
  "signal_written uid r r' rows rows' \<longleftrightarrow> row_at SR_ID uid rows = Some r \<and> map SR_ID rows' = map SR_ID rows \<and>
     (\<forall>j. row_at SR_ID j rows' = (if j = uid then Some r' else row_at SR_ID j rows))"

lemma bump_Ok: "bump r = Inr r' \<longleftrightarrow> SR_Version r + 1 \<le> max_int32 \<and> r' = r\<lparr>SR_Version := SR_Version r + 1\<rparr>"
  by (auto simp: bump_def)

interpretation transition_row: guarded_update SR_ID uid "\<lambda>r. SR_ID r = uid \<and> SR_Version r = version"
  "\<lambda>r. bump (r\<lparr>SR_Status := status, SR_ClosedAt := closedAt\<rparr>)" for uid version status closedAt
  by unfold_locales (auto simp: bump_Ok)

interpretation owner_row: guarded_update SR_ID uid "\<lambda>r. SR_ID r = uid \<and> SR_Version r = version"
  "\<lambda>r. bump (r\<lparr>SR_Owner := owner\<rparr>)" for uid version owner
  by unfold_locales (auto simp: bump_Ok)

interpretation override_row: guarded_update SR_ID uid "\<lambda>r. SR_ID r = uid \<and> SR_Version r = version"
  "\<lambda>r. bump (r\<lparr>SR_Priority := priority, SR_AutoPriority := Some auto, SR_OverrideReason := Some reason,
     SR_OverrideActorID := Some actorID, SR_OverrideAt := Some t\<rparr>)" for uid version priority auto reason actorID t
  by unfold_locales (auto simp: bump_Ok)

interpretation revert_row: guarded_update SR_ID uid "\<lambda>r. SR_ID r = uid \<and> SR_Version r = version"
  "\<lambda>r. case SR_AutoPriority r of
          None \<Rightarrow> Err NotNullViolation
        | Some auto \<Rightarrow> bump (r\<lparr>SR_Priority := auto, SR_AutoPriority := None, SR_OverrideReason := None,
              SR_OverrideActorID := None, SR_OverrideAt := None\<rparr>)" for uid version
  by unfold_locales (auto simp: bump_Ok split: option.splits)

interpretation escalate_row: guarded_update SR_ID uid "\<lambda>r. SR_ID r = uid \<and> SR_EscalatedAt r = None"
  "\<lambda>r. bump (r\<lparr>SR_EscalatedAt := Some t\<rparr>)" for uid t
  by unfold_locales (auto simp: bump_Ok)

interpretation recompute_row: guarded_update SR_ID uid "\<lambda>r. SR_ID r = uid"
  "\<lambda>r. bump (r\<lparr>SR_Priority := (if SR_AutoPriority r = None then priority else SR_Priority r),
          SR_AutoPriority := (if SR_AutoPriority r = None then None else Some priority),
          SR_RuleVersion := ruleVersion, SR_Factors := factors\<rparr>)" for uid priority ruleVersion factors
  by unfold_locales (auto simp: bump_Ok)

text \<open>A successful guarded write: the row of the identifier, at the guard, and the effect on the table.\<close>

lemma signal_update_written:
  assumes "guarded_update SR_ID uid P f" "distinct (map SR_ID rows)" "update_row P f rows = Inr (r', rows')"
  shows "\<exists>r. P r \<and> f r = Inr r' \<and> signal_written uid r r' rows rows'"
  using guarded_update.update_Ok [OF assms] by (auto simp: signal_written_def)

lemma signal_guarded_Ok:
  "signal_guarded op m = Inr (s, rows') \<longleftrightarrow> (\<exists>row. m = Inr (row, rows') \<and> s = riskSignalFromRow row)"
  by (auto simp: signal_guarded_def split: sum.splits prod.splits)

lemma versionInt32_Ok: "versionInt32 op v k = Inr a \<longleftrightarrow> 0 \<le> v \<and> v \<le> max_int32 \<and> k v = Inr a"
  by (auto simp: versionInt32_def)

lemma Transition_written:
  assumes "distinct (map SR_ID rows)" "SignalRepo_Transition U ident to closedAt ver rows = Inr (s, rows')"
  shows "\<exists>uid r r'. U ident = Some uid \<and> SignalStatus_Valid to \<and> SR_Version r = ver \<and> SR_Version r + 1 \<le> max_int32 \<and>
    r' = r\<lparr>SR_Status := to, SR_ClosedAt := map_option pg_time closedAt, SR_Version := SR_Version r + 1\<rparr> \<and>
    s = riskSignalFromRow r' \<and> SR_ID r = uid \<and> signal_written uid r r' rows rows'"
proof -
  obtain uid row where u: "U ident = Some uid" "SignalStatus_Valid to" "s = riskSignalFromRow row"
    "TransitionRiskSignal to (map_option pg_time closedAt) uid ver rows = Inr (row, rows')"
    using assms(2) by (auto simp: SignalRepo_Transition_def result_simps signal_guarded_Ok versionInt32_Ok split: if_splits)
  show ?thesis
    using signal_update_written [OF transition_row.guarded_update_axioms assms(1)
        u(4) [unfolded TransitionRiskSignal_def guarded_signal_def]] u(1-3)
    by (auto simp: bump_Ok)
qed

lemma AssignOwner_written:
  assumes "distinct (map SR_ID rows)" "SignalRepo_AssignOwner U ident owner ver rows = Inr (s, rows')"
  shows "\<exists>uid r r'. U ident = Some uid \<and> SR_Version r = ver \<and> SR_Version r + 1 \<le> max_int32 \<and>
    r' = r\<lparr>SR_Owner := toTextOpt owner, SR_Version := SR_Version r + 1\<rparr> \<and>
    s = riskSignalFromRow r' \<and> SR_ID r = uid \<and> signal_written uid r r' rows rows'"
proof -
  obtain uid row where u: "U ident = Some uid" "s = riskSignalFromRow row"
    "AssignRiskSignalOwner (toTextOpt owner) uid ver rows = Inr (row, rows')"
    using assms(2) by (auto simp: SignalRepo_AssignOwner_def result_simps signal_guarded_Ok versionInt32_Ok)
  show ?thesis
    using signal_update_written [OF owner_row.guarded_update_axioms assms(1)
        u(3) [unfolded AssignRiskSignalOwner_def guarded_signal_def]] u(1-2)
    by (auto simp: bump_Ok)
qed

lemma Override_written:
  assumes "distinct (map SR_ID rows)"
    "SignalRepo_OverridePriority U ident priority auto reason actorID t ver rows = Inr (s, rows')"
  shows "\<exists>uid r r'. U ident = Some uid \<and> Priority_Valid priority \<and> Priority_Valid auto \<and> reason \<noteq> '''' \<and> actorID \<noteq> '''' \<and>
    SR_Version r = ver \<and> SR_Version r + 1 \<le> max_int32 \<and>
    r' = r\<lparr>SR_Priority := priority, SR_AutoPriority := Some auto, SR_OverrideReason := Some reason,
           SR_OverrideActorID := Some actorID, SR_OverrideAt := Some (pg_time t), SR_Version := SR_Version r + 1\<rparr> \<and>
    s = riskSignalFromRow r' \<and> SR_ID r = uid \<and> signal_written uid r r' rows rows'"
proof -
  obtain uid row where u: "U ident = Some uid" "s = riskSignalFromRow row" "Priority_Valid priority" "Priority_Valid auto"
    "reason \<noteq> ''''" "actorID \<noteq> ''''"
    "OverrideRiskSignalPriority priority auto reason actorID (pg_time t) uid ver rows = Inr (row, rows')"
    using assms(2) by (auto simp: SignalRepo_OverridePriority_def result_simps signal_guarded_Ok versionInt32_Ok)
  show ?thesis
    using signal_update_written [OF override_row.guarded_update_axioms assms(1)
        u(7) [unfolded OverrideRiskSignalPriority_def guarded_signal_def]] u(1-6)
    by (auto simp: bump_Ok)
qed

lemma Revert_written:
  assumes "distinct (map SR_ID rows)" "SignalRepo_RevertPriority U ident ver rows = Inr (s, rows')"
  shows "\<exists>uid r r' auto. U ident = Some uid \<and> SR_Version r = ver \<and> SR_Version r + 1 \<le> max_int32 \<and> SR_AutoPriority r = Some auto \<and>
    r' = r\<lparr>SR_Priority := auto, SR_AutoPriority := None, SR_OverrideReason := None,
           SR_OverrideActorID := None, SR_OverrideAt := None, SR_Version := SR_Version r + 1\<rparr> \<and>
    s = riskSignalFromRow r' \<and> SR_ID r = uid \<and> signal_written uid r r' rows rows'"
proof -
  obtain uid row where u: "U ident = Some uid" "s = riskSignalFromRow row"
    "RevertRiskSignalPriority uid ver rows = Inr (row, rows')"
    using assms(2) by (auto simp: SignalRepo_RevertPriority_def result_simps signal_guarded_Ok versionInt32_Ok)
  show ?thesis
    using signal_update_written [OF revert_row.guarded_update_axioms assms(1)
        u(3) [unfolded RevertRiskSignalPriority_def guarded_signal_def]] u(1-2)
    by (auto simp: bump_Ok split: option.splits)
qed

section \<open>The effect of a command\<close>

text \<open>The effect all commands share: one audit event of the command's own kind, with the audit of the clocks
  after it; one event in the outbox; clocks, users, roles and matches as described.\<close>

definition command_effect :: "Service \<Rightarrow> Env \<Rightarrow> signal_command \<Rightarrow> Db \<Rightarrow> Db \<Rightarrow> bool" where
  "command_effect sv en cmd db db' \<longleftrightarrow>
     (\<exists>uid ev evs row. sv_uuid sv (command_signal cmd) = Some uid \<and>
        db_audit db' = db_audit db @ ev # evs \<and> Ev_Action ev = command_event cmd \<and>
        Ev_ActorID ev = Act_ID (command_actor cmd) \<and> sv_uuid sv (Ev_AggregateID ev) = Some uid \<and>
        db_outbox db' = db_outbox db @ [row] \<and> Ob_Type row = command_event cmd \<and>
        Ob_DedupeKey row \<notin> Ob_DedupeKey ` set (db_outbox db)) \<and>
     clocks_step (db_clocks db) (db_clocks db') \<and> prefix (db_comments db) (db_comments db') \<and>
     db_users db' = db_users db \<and> db_roles db' = db_roles db \<and> db_matches db' = db_matches db"

lemma clock_work_fulfil: "time_Micro \<le> t \<Longrightarrow> clock_work clocks_step (clocks_Fulfil sv sid target t)"
  unfolding clocks_Fulfil_def by (rule clock_work_on_clocks) (rule Fulfil_step)

lemmas clock_work_intros = clock_work_return clock_work_bind clock_work_each clock_work_on_clocks
  clock_work_lift clock_work_audit clock_work_get clocks_step_refl clocks_step_trans

lemma fulfilClock_work: "time_Micro \<le> t \<Longrightarrow> clock_work clocks_step (fulfilClock sv s target t)"
  by (auto simp: fulfilClock_def intro!: clock_work_intros clock_work_fulfil)

lemma resetClocks_work: "clock_work clocks_step (resetClocks sv s now)"
  by (auto simp: resetClocks_def resetClock_def Let_def intro!: clock_work_intros intro: Reset_step)

lemma applyTransitionClocks_work:
  "time_Micro \<le> now \<Longrightarrow> clock_work clocks_step (applyTransitionClocks sv frm s to now)"
  by (auto simp: applyTransitionClocks_def split: SignalStatus.split
      intro!: clock_work_intros fulfilClock_work resetClocks_work)

lemma NewSlaClock_Ok_fields:
  "NewSlaClock i sid target priority profile now = Inr c \<Longrightarrow>
     Clk_FulfilledAt c = 0 \<and> Clk_PausedAt c = 0 \<and> Clk_PausedSeconds c = 0 \<and> Clk_SignalID c = sid \<and>
     Clk_Target c = target \<and> Clk_StartedAt c = now \<and> Clk_DeadlineAt c = time_Add now (Duration profile priority target) \<and>
     0 < Duration profile priority target"
  by (auto simp: NewSlaClock_def Let_def result_simps)

lemma clock_work_lift_bind:
  assumes "\<And>a. m = Inr a \<Longrightarrow> clock_work R (f a)"
  shows "clock_work R (tx_bind (tx_lift m) f)"
  using assms by (fastforce simp: clock_work_def tx_simps)

lemma upsert_work:
  "NewSlaClock i sid target priority profile now = Inr c \<Longrightarrow> clock_work clocks_step (on_clocks (SlaClockRepo_Upsert U newid c))"
  using NewSlaClock_Ok_fields [of i sid target priority profile now c]
  by (auto intro!: clock_work_on_clocks Upsert_step)

lemma createClocks_work: "clock_work clocks_step (createClocks sv en sid priority now)"
  unfolding createClocks_def createClock_def
  by (intro clock_work_each clocks_step_refl clocks_step_trans clock_work_lift_bind clock_work_bind clock_work_return)
    (erule upsert_work [OF app_result_Ok_iff [THEN iffD1]])

lemma upgradeClock_work: "clock_work clocks_step (upgradeClock sv en sid priority actor cid now target)"
proof -
  have "clock_work clocks_step (upgrade_create sv en sid priority actor cid now target)"
    unfolding upgrade_create_def
    by (intro clock_work_lift_bind clock_work_bind clock_work_audit clocks_step_refl clocks_step_trans)
      (erule upsert_work [OF app_result_Ok_iff [THEN iffD1]])
  moreover have "clock_work clocks_step (upgrade_tighten sv sid priority actor cid now target c)" for c
    by (auto simp: upgrade_tighten_def Let_def intro!: clock_work_intros intro: Tighten_step split: option.splits)
  ultimately show ?thesis
    by (auto simp: upgradeClock_def intro!: clock_work_bind clock_work_get clocks_step_refl clocks_step_trans split: option.splits)
qed

lemma applyUpgradeClocks_work: "clock_work clocks_step (applyUpgradeClocks sv en sid priority actor cid now)"
  by (auto simp: applyUpgradeClocks_def intro!: clock_work_each clocks_step_refl clocks_step_trans upgradeClock_work)

text \<open>The shape all commands share: a write, the audit event, the treatment of the clocks, the event in the outbox.\<close>

lemma command_effect_return: "clock_work clocks_step (tx_return ())"
  by (intro clock_work_intros)

lemma tx_bind_return: "tx_bind (tx_return a) f = f a"
  by (simp add: tx_bind_def tx_return_def fun_eq_iff)

lemma command_shape:
  assumes "tx_bind W (\<lambda>row. tx_bind (tx_lift (snap row)) (\<lambda>after.
      tx_bind (appendSignalAudit sv evt (sid row) actor cid now before after) (\<lambda>_.
      tx_bind (treat row) (\<lambda>_.
      tx_bind (appendSignalOutbox sv en evt (sid row) cid now (pl row)) (\<lambda>_. tx_return row))))) db = Inr (s, db')"
    "\<And>row. clock_work clocks_step (treat row)"
  shows "\<exists>db1 clk ev evs row. W db = Inr (s, db1) \<and> sv_uuid sv (sid s) \<noteq> None \<and>
    db' = db1\<lparr>db_clocks := clk, db_audit := db_audit db1 @ ev # evs, db_outbox := db_outbox db1 @ [row]\<rparr> \<and>
    clocks_step (db_clocks db1) clk \<and> Ev_Action ev = evt \<and> Ev_ActorID ev = Act_ID actor \<and> Ev_AggregateID ev = sid s \<and>
    Ob_Type row = evt \<and> Ob_DedupeKey row \<notin> Ob_DedupeKey ` set (db_outbox db1)"
proof -
  obtain after db1 db2 db3 t where p: "W db = Inr (s, db1)"
    "appendSignalAudit sv evt (sid s) actor cid now before after db1 = Inr ((), db2)"
    "treat s db2 = Inr (t, db3)" "appendSignalOutbox sv en evt (sid s) cid now (pl s) db3 = Inr ((), db')"
    using assms(1) unfolding tx_bind_Ok_iff tx_lift_Ok_iff tx_return_Ok_iff by auto
  obtain rows evs where c: "db3 = db2\<lparr>db_clocks := rows, db_audit := db_audit db2 @ evs\<rparr>" "clocks_step (db_clocks db2) rows"
    using clock_workD [OF assms(2) p(3)] by blast
  obtain row where o': "db' = db3\<lparr>db_outbox := db_outbox db3 @ [row]\<rparr>" "Ob_Type row = evt"
    "Ob_DedupeKey row \<notin> Ob_DedupeKey ` set (db_outbox db3)"
    using appendSignalOutbox_Ok [OF p(4)] by blast
  obtain ev where a: "db2 = db1\<lparr>db_audit := db_audit db1 @ [ev]\<rparr>" "Ev_Action ev = evt" "Ev_ActorID ev = Act_ID actor"
    "Ev_AggregateID ev = sid s" "sv_uuid sv (sid s) \<noteq> None"
    using p(2) by (auto simp: appendSignalAudit_Ok)
  show ?thesis
    by (rule exI [of _ db1], rule exI [of _ rows], rule exI [of _ ev], rule exI [of _ evs], rule exI [of _ row])
      (use p(1) a c o' in simp)
qed

lemmas command_shape_plain = command_shape [where treat = "\<lambda>_. tx_return ()", unfolded tx_bind_return]

lemma command_shape_effect:
  assumes "db' = db1\<lparr>db_clocks := clk, db_audit := db_audit db1 @ ev # evs, db_outbox := db_outbox db1 @ [row]\<rparr> \<and>
    clocks_step (db_clocks db1) clk \<and> Ev_Action ev = command_event cmd \<and> Ev_ActorID ev = Act_ID (command_actor cmd) \<and>
    Ev_AggregateID ev = sid \<and> Ob_Type row = command_event cmd \<and> Ob_DedupeKey row \<notin> Ob_DedupeKey ` set (db_outbox db1)"
    "sv_uuid sv (command_signal cmd) = Some uid" "sv_uuid sv sid = Some uid"
    "db_audit db1 = db_audit db" "db_outbox db1 = db_outbox db" "clocks_step (db_clocks db) (db_clocks db1)"
    "prefix (db_comments db) (db_comments db1)" "db_users db1 = db_users db" "db_roles db1 = db_roles db"
    "db_matches db1 = db_matches db"
  shows "command_effect sv en cmd db db'"
proof -
  have "clocks_step (db_clocks db) clk"
    using assms(1,6) clocks_step_trans by (auto dest: transpD)
  then show ?thesis using assms by (auto simp: command_effect_def)
qed

lemma riskSignalFromRow_simps [simp]:
  "Sig_ID (riskSignalFromRow r) = SR_ID r" "Sig_Status (riskSignalFromRow r) = SR_Status r"
  "Sig_Priority (riskSignalFromRow r) = SR_Priority r" "Sig_Version (riskSignalFromRow r) = SR_Version r"
  "Sig_Owner (riskSignalFromRow r) = textValue (SR_Owner r)" "Sig_AutoPriority (riskSignalFromRow r) = SR_AutoPriority r"
  "Sig_MatchID (riskSignalFromRow r) = SR_MatchID r"
  by (simp_all add: riskSignalFromRow_def)

lemma clocks_step_same [simp]: "clocks_step rows rows"
  by (simp add: clocks_step_def)

lemma signals_command:
  assumes "\<exists>db1 clk ev evs row. on_signals W db = Inr (s, db1) \<and> sv_uuid sv sid \<noteq> None \<and>
    db' = db1\<lparr>db_clocks := clk, db_audit := db_audit db1 @ ev # evs, db_outbox := db_outbox db1 @ [row]\<rparr> \<and>
    clocks_step (db_clocks db1) clk \<and> Ev_Action ev = command_event cmd \<and> Ev_ActorID ev = Act_ID (command_actor cmd) \<and>
    Ev_AggregateID ev = sid \<and> Ob_Type row = command_event cmd \<and> Ob_DedupeKey row \<notin> Ob_DedupeKey ` set (db_outbox db1)"
  shows "\<exists>rows. W (db_signals db) = Inr (s, rows) \<and> db_signals db' = rows \<and>
    (\<forall>uid. sv_uuid sv (command_signal cmd) = Some uid \<longrightarrow> sv_uuid sv sid = Some uid \<longrightarrow> command_effect sv en cmd db db')"
proof -
  obtain db1 clk ev evs row where b: "on_signals W db = Inr (s, db1)"
    "db' = db1\<lparr>db_clocks := clk, db_audit := db_audit db1 @ ev # evs, db_outbox := db_outbox db1 @ [row]\<rparr> \<and>
     clocks_step (db_clocks db1) clk \<and> Ev_Action ev = command_event cmd \<and> Ev_ActorID ev = Act_ID (command_actor cmd) \<and>
     Ev_AggregateID ev = sid \<and> Ob_Type row = command_event cmd \<and> Ob_DedupeKey row \<notin> Ob_DedupeKey ` set (db_outbox db1)"
    using assms by blast
  obtain rows where r: "W (db_signals db) = Inr (s, rows)" "db1 = db\<lparr>db_signals := rows\<rparr>"
    using b(1) by (auto simp: on_signals_Ok_iff)
  have "command_effect sv en cmd db db'" if "sv_uuid sv (command_signal cmd) = Some uid" "sv_uuid sv sid = Some uid" for uid
    by (rule command_shape_effect [OF b(2) that]) (simp_all add: r(2))
  then show ?thesis using r b(2) by auto
qed

lemma TransitionSignal_effect:
  assumes "TransitionSignal sv en i seen db = (Ok s, db')" "distinct (map SR_ID (db_signals db))"
    "canonical (sv_uuid sv)" "time_Micro \<le> en_now en"
  shows "command_effect sv en (CmdTransition i) db db' \<and>
    (\<exists>uid r r' current. sv_uuid sv (TS_SignalID i) = Some uid \<and> SR_ID r = uid \<and> SR_Version r = TS_ExpectedVersion i \<and>
       SR_Version r + 1 \<le> max_int32 \<and> SignalStatus_Valid (TS_To i) \<and>
       r' = r\<lparr>SR_Status := TS_To i, SR_ClosedAt := map_option pg_time (if IsClosed (TS_To i) then Some (en_now en) else None),
              SR_Version := SR_Version r + 1\<rparr> \<and>
       signal_written uid r r' (db_signals db) (db_signals db') \<and>
       SignalRepo_GetRiskSignal (sv_uuid sv) (TS_SignalID i) (db_signals seen) = Ok current \<and>
       CanTransition (Sig_Status current) (TS_To i))"
proof -
  obtain cur before where c: "TransitionSignal_check sv i seen = Inr (cur, before)" "TransitionSignal_body sv en i (cur, before) db = Inr (s, db')"
    using assms(1) by (auto simp: TransitionSignal_def command_Ok_iff)
  let ?closed = "if IsClosed (TS_To i) then Some (en_now en) else None"
  obtain rows where r: "SignalRepo_Transition (sv_uuid sv) (TS_SignalID i) (TS_To i) ?closed (TS_ExpectedVersion i) (db_signals db) = Inr (s, rows)"
    "db_signals db' = rows" "\<And>uid. sv_uuid sv (TS_SignalID i) = Some uid \<Longrightarrow> sv_uuid sv (Sig_ID s) = Some uid \<Longrightarrow>
       command_effect sv en (CmdTransition i) db db'"
    using signals_command [where cmd = "CmdTransition i", simplified command_event.simps command_actor.simps command_signal.simps,
        OF command_shape [OF c(2) [unfolded TransitionSignal_body_def Let_def prod.case] applyTransitionClocks_work [OF assms(4)]]]
    by blast
  obtain uid r r' where w: "sv_uuid sv (TS_SignalID i) = Some uid" "SR_Version r = TS_ExpectedVersion i"
    "SR_Version r + 1 \<le> max_int32" "SignalStatus_Valid (TS_To i)"
    "r' = r\<lparr>SR_Status := TS_To i, SR_ClosedAt := map_option pg_time ?closed, SR_Version := SR_Version r + 1\<rparr>"
    "s = riskSignalFromRow r'" "SR_ID r = uid" "signal_written uid r r' (db_signals db) rows"
    using Transition_written [OF assms(2) r(1)] by blast
  have "sv_uuid sv (Sig_ID s) = Some uid" using w assms(3) by (auto simp: canonical_def)
  then have "command_effect sv en (CmdTransition i) db db'" using r(3) w(1) by blast
  moreover have "SignalRepo_GetRiskSignal (sv_uuid sv) (TS_SignalID i) (db_signals seen) = Ok cur"
    "CanTransition (Sig_Status cur) (TS_To i)"
    using c(1) by (auto simp: check_defs result_simps Transition_Ok_iff split: if_splits)
  ultimately show ?thesis using w r(2) by blast
qed

lemma AcknowledgeSignal_effect:
  assumes "AcknowledgeSignal sv en i seen db = (Ok s, db')" "distinct (map SR_ID (db_signals db))"
    "canonical (sv_uuid sv)" "time_Micro \<le> en_now en"
  shows "command_effect sv en (CmdAcknowledge i) db db' \<and>
    (\<exists>uid r r' current. sv_uuid sv (AK_SignalID i) = Some uid \<and> SR_ID r = uid \<and> SR_Version r = AK_ExpectedVersion i \<and>
       SR_Version r + 1 \<le> max_int32 \<and>
       r' = r\<lparr>SR_Status := SignalStatusInReview, SR_ClosedAt := None, SR_Version := SR_Version r + 1\<rparr> \<and>
       signal_written uid r r' (db_signals db) (db_signals db') \<and>
       SignalRepo_GetRiskSignal (sv_uuid sv) (AK_SignalID i) (db_signals seen) = Ok current \<and>
       CanTransition (Sig_Status current) SignalStatusInReview)"
proof -
  obtain cur before where c: "AcknowledgeSignal_check sv i seen = Inr (cur, before)" "AcknowledgeSignal_body sv en i (cur, before) db = Inr (s, db')"
    using assms(1) by (auto simp: AcknowledgeSignal_def command_Ok_iff)
  obtain rows where r: "SignalRepo_Transition (sv_uuid sv) (AK_SignalID i) SignalStatusInReview None (AK_ExpectedVersion i) (db_signals db) = Inr (s, rows)"
    "db_signals db' = rows" "\<And>uid. sv_uuid sv (AK_SignalID i) = Some uid \<Longrightarrow> sv_uuid sv (Sig_ID s) = Some uid \<Longrightarrow>
       command_effect sv en (CmdAcknowledge i) db db'"
    using signals_command [where cmd = "CmdAcknowledge i", simplified command_event.simps command_actor.simps command_signal.simps,
        OF command_shape [OF c(2) [unfolded AcknowledgeSignal_body_def Let_def prod.case] clock_work_fulfil [OF assms(4)]]]
    by blast
  obtain uid r r' where w: "sv_uuid sv (AK_SignalID i) = Some uid" "SR_Version r = AK_ExpectedVersion i"
    "SR_Version r + 1 \<le> max_int32" "r' = r\<lparr>SR_Status := SignalStatusInReview, SR_ClosedAt := None, SR_Version := SR_Version r + 1\<rparr>"
    "s = riskSignalFromRow r'" "SR_ID r = uid" "signal_written uid r r' (db_signals db) rows"
    using Transition_written [OF assms(2) r(1)] by auto
  have "sv_uuid sv (Sig_ID s) = Some uid" using w assms(3) by (auto simp: canonical_def)
  then have "command_effect sv en (CmdAcknowledge i) db db'" using r(3) w(1) by blast
  moreover have "SignalRepo_GetRiskSignal (sv_uuid sv) (AK_SignalID i) (db_signals seen) = Ok cur"
    "CanTransition (Sig_Status cur) SignalStatusInReview"
    using c(1) by (auto simp: check_defs result_simps Transition_Ok_iff)
  ultimately show ?thesis using w r(2) by blast
qed

lemma AssignOwner_effect:
  assumes "AssignOwner sv en i seen db = (Ok s, db')" "distinct (map SR_ID (db_signals db))" "canonical (sv_uuid sv)"
  shows "command_effect sv en (CmdAssignOwner i) db db' \<and>
    (\<exists>uid r r'. sv_uuid sv (AO_SignalID i) = Some uid \<and> SR_ID r = uid \<and> SR_Version r = AO_ExpectedVersion i \<and>
       SR_Version r + 1 \<le> max_int32 \<and>
       r' = r\<lparr>SR_Owner := toTextOpt (AO_Owner i), SR_Version := SR_Version r + 1\<rparr> \<and>
       signal_written uid r r' (db_signals db) (db_signals db'))"
proof -
  obtain cur before where c: "AssignOwner_body sv en i (cur, before) db = Inr (s, db')"
    using assms(1) by (auto simp: AssignOwner_def command_Ok_iff)
  obtain rows where r: "SignalRepo_AssignOwner (sv_uuid sv) (AO_SignalID i) (AO_Owner i) (AO_ExpectedVersion i) (db_signals db) = Inr (s, rows)"
    "db_signals db' = rows" "\<And>uid. sv_uuid sv (AO_SignalID i) = Some uid \<Longrightarrow> sv_uuid sv (Sig_ID s) = Some uid \<Longrightarrow>
       command_effect sv en (CmdAssignOwner i) db db'"
    using signals_command [where cmd = "CmdAssignOwner i", simplified command_event.simps command_actor.simps command_signal.simps,
        OF command_shape_plain [OF c [unfolded AssignOwner_body_def Let_def prod.case] command_effect_return]]
    by blast
  obtain uid r r' where w: "sv_uuid sv (AO_SignalID i) = Some uid" "SR_Version r = AO_ExpectedVersion i"
    "SR_Version r + 1 \<le> max_int32" "r' = r\<lparr>SR_Owner := toTextOpt (AO_Owner i), SR_Version := SR_Version r + 1\<rparr>"
    "s = riskSignalFromRow r'" "SR_ID r = uid" "signal_written uid r r' (db_signals db) rows"
    using AssignOwner_written [OF assms(2) r(1)] by blast
  have "sv_uuid sv (Sig_ID s) = Some uid" using w assms(3) by (auto simp: canonical_def)
  then have "command_effect sv en (CmdAssignOwner i) db db'" using r(3) w(1) by blast
  then show ?thesis using w r(2) by blast
qed

lemma OverridePriority_effect:
  assumes "OverridePriority sv en i seen db = (Ok s, db')" "distinct (map SR_ID (db_signals db))" "canonical (sv_uuid sv)"
  shows "command_effect sv en (CmdOverride i) db db' \<and>
    (\<exists>uid r r' current. sv_uuid sv (OP_SignalID i) = Some uid \<and> SR_ID r = uid \<and> SR_Version r = OP_ExpectedVersion i \<and>
       SR_Version r + 1 \<le> max_int32 \<and> Priority_Valid (OP_Priority i) \<and> Priority_Valid (Sig_Priority current) \<and>
       OP_Reason i \<noteq> '''' \<and> Act_ID (OP_Actor i) \<noteq> '''' \<and>
       r' = r\<lparr>SR_Priority := OP_Priority i, SR_AutoPriority := Some (Sig_Priority current),
              SR_OverrideReason := Some (OP_Reason i), SR_OverrideActorID := Some (Act_ID (OP_Actor i)),
              SR_OverrideAt := Some (pg_time (en_now en)), SR_Version := SR_Version r + 1\<rparr> \<and>
       signal_written uid r r' (db_signals db) (db_signals db') \<and>
       SignalRepo_GetRiskSignal (sv_uuid sv) (OP_SignalID i) (db_signals seen) = Ok current \<and>
       Sig_AutoPriority current = None)"
proof -
  obtain cur before where c: "OverridePriority_check sv en i seen = Inr (cur, before)" "OverridePriority_body sv en i (cur, before) db = Inr (s, db')"
    using assms(1) by (auto simp: OverridePriority_def command_Ok_iff)
  obtain rows where r: "SignalRepo_OverridePriority (sv_uuid sv) (OP_SignalID i) (OP_Priority i) (Sig_Priority cur)
      (OP_Reason i) (Act_ID (OP_Actor i)) (en_now en) (OP_ExpectedVersion i) (db_signals db) = Inr (s, rows)"
    "db_signals db' = rows" "\<And>uid. sv_uuid sv (OP_SignalID i) = Some uid \<Longrightarrow> sv_uuid sv (Sig_ID s) = Some uid \<Longrightarrow>
       command_effect sv en (CmdOverride i) db db'"
    using signals_command [where cmd = "CmdOverride i", simplified command_event.simps command_actor.simps command_signal.simps,
        OF command_shape [OF c(2) [unfolded OverridePriority_body_def Let_def prod.case] applyUpgradeClocks_work]]
    by blast
  obtain uid r r' where w: "sv_uuid sv (OP_SignalID i) = Some uid" "SR_Version r = OP_ExpectedVersion i"
    "SR_Version r + 1 \<le> max_int32" "Priority_Valid (OP_Priority i)" "Priority_Valid (Sig_Priority cur)"
    "OP_Reason i \<noteq> ''''" "Act_ID (OP_Actor i) \<noteq> ''''"
    "r' = r\<lparr>SR_Priority := OP_Priority i, SR_AutoPriority := Some (Sig_Priority cur),
              SR_OverrideReason := Some (OP_Reason i), SR_OverrideActorID := Some (Act_ID (OP_Actor i)),
              SR_OverrideAt := Some (pg_time (en_now en)), SR_Version := SR_Version r + 1\<rparr>"
    "s = riskSignalFromRow r'" "SR_ID r = uid" "signal_written uid r r' (db_signals db) rows"
    using Override_written [OF assms(2) r(1)] by blast
  have "sv_uuid sv (Sig_ID s) = Some uid" using w assms(3) by (auto simp: canonical_def)
  then have "command_effect sv en (CmdOverride i) db db'" using r(3) w(1) by blast
  moreover have "SignalRepo_GetRiskSignal (sv_uuid sv) (OP_SignalID i) (db_signals seen) = Ok cur" "Sig_AutoPriority cur = None"
    using c(1) by (auto simp: check_defs result_simps Override_Ok_iff)
  ultimately show ?thesis using w r(2) by blast
qed

lemma RevertPriority_effect:
  assumes "RevertPriority sv en i seen db = (Ok s, db')" "distinct (map SR_ID (db_signals db))" "canonical (sv_uuid sv)"
  shows "command_effect sv en (CmdRevert i) db db' \<and>
    (\<exists>uid r r' auto. sv_uuid sv (RP_SignalID i) = Some uid \<and> SR_ID r = uid \<and> SR_Version r = RP_ExpectedVersion i \<and>
       SR_Version r + 1 \<le> max_int32 \<and> SR_AutoPriority r = Some auto \<and>
       r' = r\<lparr>SR_Priority := auto, SR_AutoPriority := None, SR_OverrideReason := None,
           SR_OverrideActorID := None, SR_OverrideAt := None, SR_Version := SR_Version r + 1\<rparr> \<and>
       signal_written uid r r' (db_signals db) (db_signals db'))"
proof -
  obtain cur before where c: "RevertPriority_body sv en i (cur, before) db = Inr (s, db')"
    using assms(1) by (auto simp: RevertPriority_def command_Ok_iff)
  obtain rows where r: "SignalRepo_RevertPriority (sv_uuid sv) (RP_SignalID i) (RP_ExpectedVersion i) (db_signals db) = Inr (s, rows)"
    "db_signals db' = rows" "\<And>uid. sv_uuid sv (RP_SignalID i) = Some uid \<Longrightarrow> sv_uuid sv (Sig_ID s) = Some uid \<Longrightarrow>
       command_effect sv en (CmdRevert i) db db'"
    using signals_command [where cmd = "CmdRevert i", simplified command_event.simps command_actor.simps command_signal.simps,
        OF command_shape_plain [OF c [unfolded RevertPriority_body_def Let_def prod.case] command_effect_return]]
    by blast
  obtain uid r r' auto where w: "sv_uuid sv (RP_SignalID i) = Some uid" "SR_Version r = RP_ExpectedVersion i"
    "SR_Version r + 1 \<le> max_int32" "SR_AutoPriority r = Some auto"
    "r' = r\<lparr>SR_Priority := auto, SR_AutoPriority := None, SR_OverrideReason := None,
           SR_OverrideActorID := None, SR_OverrideAt := None, SR_Version := SR_Version r + 1\<rparr>"
    "s = riskSignalFromRow r'" "SR_ID r = uid" "signal_written uid r r' (db_signals db) rows"
    using Revert_written [OF assms(2) r(1)] by blast
  have "sv_uuid sv (Sig_ID s) = Some uid" using w assms(3) by (auto simp: canonical_def)
  then have "command_effect sv en (CmdRevert i) db db'" using r(3) w(1) by blast
  then show ?thesis using w r(2) by blast
qed

lemma AddComment_effect:
  assumes "AddComment sv en i seen db = (Ok c, db')"
  shows "command_effect sv en (CmdComment i) db db' \<and> db_signals db' = db_signals db"
proof -
  have b: "AddComment_body sv en i () db = Inr (c, db')"
    using assms by (auto simp: AddComment_def command_Ok_iff)
  obtain db1 clk ev evs row where s: "CommentRepo_Add (sv_uuid sv) (en_comment_id en) (AC_SignalID i) (Act_ID (AC_Actor i)) (AC_Body i) db = Inr (c, db1)"
    "db' = db1\<lparr>db_clocks := clk, db_audit := db_audit db1 @ ev # evs, db_outbox := db_outbox db1 @ [row]\<rparr> \<and>
     clocks_step (db_clocks db1) clk \<and> Ev_Action ev = EventTypeSignalCommented \<and> Ev_ActorID ev = Act_ID (AC_Actor i) \<and>
     Ev_AggregateID ev = AC_SignalID i \<and> Ob_Type row = EventTypeSignalCommented \<and>
     Ob_DedupeKey row \<notin> Ob_DedupeKey ` set (db_outbox db1)"
    using command_shape_plain [OF b [unfolded AddComment_body_def Let_def] command_effect_return] by blast
  obtain uid where u: "sv_uuid sv (AC_SignalID i) = Some uid" "db_comments db1 = db_comments db @ [c]"
    "db1 = db\<lparr>db_comments := db_comments db1\<rparr>"
    using s(1) by (auto simp: CommentRepo_Add_def result_simps Let_def split: if_splits)
  have "command_effect sv en (CmdComment i) db db'"
    by (rule command_shape_effect [where cmd = "CmdComment i", simplified command_event.simps command_actor.simps command_signal.simps, OF s(2) u(1,1)])
      (use u(2) in \<open>simp_all, (subst u(3), simp)+\<close>)
  moreover have "db_signals db1 = db_signals db" by (subst u(3)) simp
  ultimately show ?thesis using s(2) by simp
qed

lemma PauseSla_effect:
  assumes "PauseSla sv en i seen db = (Ok c, db')" "time_Micro \<le> en_now en"
  shows "command_effect sv en (CmdPause i) db db' \<and> db_signals db' = db_signals db"
proof -
  have b: "PauseSla_body sv en i () db = Inr (c, db')"
    using assms by (auto simp: PauseSla_def command_Ok_iff)
  obtain db1 clk ev evs row where s: "on_clocks (SlaClockRepo_Pause (sv_uuid sv) (PS_SignalID i) (PS_Target i) (en_now en)) db = Inr (c, db1)"
    "db' = db1\<lparr>db_clocks := clk, db_audit := db_audit db1 @ ev # evs, db_outbox := db_outbox db1 @ [row]\<rparr> \<and>
     clocks_step (db_clocks db1) clk \<and> Ev_Action ev = EventTypeSignalSLAPaused \<and> Ev_ActorID ev = Act_ID (PS_Actor i) \<and>
     Ev_AggregateID ev = PS_SignalID i \<and> Ob_Type row = EventTypeSignalSLAPaused \<and>
     Ob_DedupeKey row \<notin> Ob_DedupeKey ` set (db_outbox db1)"
    using command_shape_plain [OF b [unfolded PauseSla_body_def Let_def] command_effect_return] by blast
  obtain rows where u: "SlaClockRepo_Pause (sv_uuid sv) (PS_SignalID i) (PS_Target i) (en_now en) (db_clocks db) = Inr (c, rows)"
    "db1 = db\<lparr>db_clocks := rows\<rparr>" using s(1) by (auto simp: on_clocks_Ok_iff)
  obtain uid where uid: "sv_uuid sv (PS_SignalID i) = Some uid" using u(1) by (auto simp: SlaClockRepo_Pause_def result_simps)
  have "command_effect sv en (CmdPause i) db db'"
    by (rule command_shape_effect [where cmd = "CmdPause i", simplified command_event.simps command_actor.simps command_signal.simps, OF s(2) uid uid])
      (simp_all add: u(2) Pause_step [OF assms(2) u(1)])
  then show ?thesis using s(2) u(2) by simp
qed

lemma ResumeSla_effect:
  assumes "ResumeSla sv en i seen db = (Ok c, db')"
  shows "command_effect sv en (CmdResume i) db db' \<and> db_signals db' = db_signals db"
proof -
  have b: "ResumeSla_body sv en i () db = Inr (c, db')"
    using assms by (auto simp: ResumeSla_def command_Ok_iff)
  obtain db1 clk ev evs row where s: "on_clocks (SlaClockRepo_Resume (sv_uuid sv) (RS_SignalID i) (RS_Target i) (en_now en)) db = Inr (c, db1)"
    "db' = db1\<lparr>db_clocks := clk, db_audit := db_audit db1 @ ev # evs, db_outbox := db_outbox db1 @ [row]\<rparr> \<and>
     clocks_step (db_clocks db1) clk \<and> Ev_Action ev = EventTypeSignalSLAResumed \<and> Ev_ActorID ev = Act_ID (RS_Actor i) \<and>
     Ev_AggregateID ev = RS_SignalID i \<and> Ob_Type row = EventTypeSignalSLAResumed \<and>
     Ob_DedupeKey row \<notin> Ob_DedupeKey ` set (db_outbox db1)"
    using command_shape_plain [OF b [unfolded ResumeSla_body_def Let_def] command_effect_return] by blast
  obtain rows where u: "SlaClockRepo_Resume (sv_uuid sv) (RS_SignalID i) (RS_Target i) (en_now en) (db_clocks db) = Inr (c, rows)"
    "db1 = db\<lparr>db_clocks := rows\<rparr>" using s(1) by (auto simp: on_clocks_Ok_iff)
  obtain uid where uid: "sv_uuid sv (RS_SignalID i) = Some uid" using u(1) by (auto simp: SlaClockRepo_Resume_def result_simps)
  have "command_effect sv en (CmdResume i) db db'"
    by (rule command_shape_effect [where cmd = "CmdResume i", simplified command_event.simps command_actor.simps command_signal.simps, OF s(2) uid uid])
      (simp_all add: u(2) Resume_step [OF u(1)])
  then show ?thesis using s(2) u(2) by simp
qed

section \<open>Properties\<close>

lemma run_command_effect:
  assumes "run_command sv en cmd seen db = (Ok u, db')" "distinct (map SR_ID (db_signals db))"
    "canonical (sv_uuid sv)" "time_Micro \<le> en_now en"
  shows "command_effect sv en cmd db db'"
proof (cases cmd)
  case (CmdTransition i)
  then show ?thesis using assms TransitionSignal_effect [of sv en i seen db _ db'] by (auto simp: forget_Ok_iff)
next
  case (CmdAssignOwner i)
  then show ?thesis using assms AssignOwner_effect [of sv en i seen db _ db'] by (auto simp: forget_Ok_iff)
next
  case (CmdComment i)
  then show ?thesis using assms AddComment_effect [of sv en i seen db _ db'] by (auto simp: forget_Ok_iff)
next
  case (CmdAcknowledge i)
  then show ?thesis using assms AcknowledgeSignal_effect [of sv en i seen db _ db'] by (auto simp: forget_Ok_iff)
next
  case (CmdOverride i)
  then show ?thesis using assms OverridePriority_effect [of sv en i seen db _ db'] by (auto simp: forget_Ok_iff)
next
  case (CmdRevert i)
  then show ?thesis using assms RevertPriority_effect [of sv en i seen db _ db'] by (auto simp: forget_Ok_iff)
next
  case (CmdPause i)
  then show ?thesis using assms PauseSla_effect [of sv en i seen db _ db'] by (auto simp: forget_Ok_iff)
next
  case (CmdResume i)
  then show ?thesis using assms ResumeSla_effect [of sv en i seen db _ db'] by (auto simp: forget_Ok_iff)
qed

text \<open>What a command with an expected version writes.\<close>

definition command_write :: "Service \<Rightarrow> signal_command \<Rightarrow> Db \<Rightarrow> Db \<Rightarrow> bool" where
  "command_write sv cmd db db' \<longleftrightarrow>
     (\<exists>uid r r'. sv_uuid sv (command_signal cmd) = Some uid \<and> command_version cmd = Some (SR_Version r) \<and>
        SR_ID r = uid \<and> signal_write r r' \<and> signal_written uid r r' (db_signals db) (db_signals db'))"

lemma command_writeI:
  assumes "sv_uuid sv (command_signal cmd) = Some uid" "command_version cmd = Some (SR_Version r)" "SR_ID r = uid"
    "signal_write r r'" "signal_written uid r r' (db_signals db) (db_signals db')"
  shows "if command_version cmd = None then db_signals db' = db_signals db else command_write sv cmd db db'"
proof -
  have "command_write sv cmd db db'"
    unfolding command_write_def by (intro exI [of _ uid] exI [of _ r] exI [of _ r']) (simp add: assms)
  then show ?thesis by (simp add: assms(2))
qed

text \<open>The writes of the commands are writes in order.\<close>

lemma command_rows:
  assumes "SR_Version r + 1 \<le> max_int32"
  shows "SignalStatus_Valid to \<Longrightarrow> signal_write r (r\<lparr>SR_Status := to,
      SR_ClosedAt := map_option f (if IsClosed to then Some t else None), SR_Version := SR_Version r + 1\<rparr>)"
    "signal_write r (r\<lparr>SR_Status := SignalStatusInReview, SR_ClosedAt := None, SR_Version := SR_Version r + 1\<rparr>)"
    "signal_write r (r\<lparr>SR_Owner := owner, SR_Version := SR_Version r + 1\<rparr>)"
    "Priority_Valid p \<Longrightarrow> Priority_Valid auto \<Longrightarrow> reason \<noteq> '''' \<Longrightarrow> actor \<noteq> '''' \<Longrightarrow>
     signal_write r (r\<lparr>SR_Priority := p, SR_AutoPriority := Some auto, SR_OverrideReason := Some reason,
       SR_OverrideActorID := Some actor, SR_OverrideAt := Some t, SR_Version := SR_Version r + 1\<rparr>)"
    "SR_AutoPriority r = Some auto \<Longrightarrow>
     signal_write r (r\<lparr>SR_Priority := auto, SR_AutoPriority := None, SR_OverrideReason := None,
       SR_OverrideActorID := None, SR_OverrideAt := None, SR_Version := SR_Version r + 1\<rparr>)"
  using assms by (auto simp: signal_write_def signal_row_ok_def textValue_def split: option.splits)

lemma run_command_write:
  assumes "run_command sv en cmd seen db = (Ok u, db')" "distinct (map SR_ID (db_signals db))"
    "canonical (sv_uuid sv)" "time_Micro \<le> en_now en"
  shows "if command_version cmd = None then db_signals db' = db_signals db else command_write sv cmd db db'"
proof (cases cmd)
  case (CmdTransition i)
  then obtain s where "TransitionSignal sv en i seen db = (Ok s, db')" using assms(1) by (auto simp: forget_Ok_iff)
  from TransitionSignal_effect [OF this assms(2-4)] obtain uid r r' where
    w: "sv_uuid sv (TS_SignalID i) = Some uid" "SR_ID r = uid" "SR_Version r = TS_ExpectedVersion i"
    "SR_Version r + 1 \<le> max_int32" "SignalStatus_Valid (TS_To i)"
    "r' = r\<lparr>SR_Status := TS_To i, SR_ClosedAt := map_option pg_time (if IsClosed (TS_To i) then Some (en_now en) else None),
              SR_Version := SR_Version r + 1\<rparr>" "signal_written uid r r' (db_signals db) (db_signals db')"
    by blast
  have "signal_write r r'" unfolding w(6) by (rule command_rows(1) [OF w(4,5)])
  then show ?thesis using w(1-3,7) by (intro command_writeI [of sv cmd uid r r']) (simp_all add: CmdTransition)
next
  case (CmdAssignOwner i)
  then obtain s where "AssignOwner sv en i seen db = (Ok s, db')" using assms(1) by (auto simp: forget_Ok_iff)
  from AssignOwner_effect [OF this assms(2,3)] obtain uid r r' where
    w: "sv_uuid sv (AO_SignalID i) = Some uid" "SR_ID r = uid" "SR_Version r = AO_ExpectedVersion i"
    "SR_Version r + 1 \<le> max_int32" "r' = r\<lparr>SR_Owner := toTextOpt (AO_Owner i), SR_Version := SR_Version r + 1\<rparr>"
    "signal_written uid r r' (db_signals db) (db_signals db')"
    by blast
  have "signal_write r r'" unfolding w(5) by (rule command_rows(3) [OF w(4)])
  then show ?thesis using w(1-3,6) by (intro command_writeI [of sv cmd uid r r']) (simp_all add: CmdAssignOwner)
next
  case (CmdAcknowledge i)
  then obtain s where "AcknowledgeSignal sv en i seen db = (Ok s, db')" using assms(1) by (auto simp: forget_Ok_iff)
  from AcknowledgeSignal_effect [OF this assms(2-4)] obtain uid r r' where
    w: "sv_uuid sv (AK_SignalID i) = Some uid" "SR_ID r = uid" "SR_Version r = AK_ExpectedVersion i"
    "SR_Version r + 1 \<le> max_int32"
    "r' = r\<lparr>SR_Status := SignalStatusInReview, SR_ClosedAt := None, SR_Version := SR_Version r + 1\<rparr>"
    "signal_written uid r r' (db_signals db) (db_signals db')"
    by blast
  have "signal_write r r'" unfolding w(5) by (rule command_rows(2) [OF w(4)])
  then show ?thesis using w(1-3,6) by (intro command_writeI [of sv cmd uid r r']) (simp_all add: CmdAcknowledge)
next
  case (CmdOverride i)
  then obtain s where "OverridePriority sv en i seen db = (Ok s, db')" using assms(1) by (auto simp: forget_Ok_iff)
  from OverridePriority_effect [OF this assms(2,3)] obtain uid r r' and cur :: RiskSignal where
    w: "sv_uuid sv (OP_SignalID i) = Some uid" "SR_ID r = uid" "SR_Version r = OP_ExpectedVersion i"
    "SR_Version r + 1 \<le> max_int32" "Priority_Valid (OP_Priority i)" "Priority_Valid (Sig_Priority cur)"
    "OP_Reason i \<noteq> ''''" "Act_ID (OP_Actor i) \<noteq> ''''"
    "r' = r\<lparr>SR_Priority := OP_Priority i, SR_AutoPriority := Some (Sig_Priority cur),
              SR_OverrideReason := Some (OP_Reason i), SR_OverrideActorID := Some (Act_ID (OP_Actor i)),
              SR_OverrideAt := Some (pg_time (en_now en)), SR_Version := SR_Version r + 1\<rparr>"
    "signal_written uid r r' (db_signals db) (db_signals db')"
    by blast
  have "signal_write r r'" unfolding w(9) by (rule command_rows(4) [OF w(4-8)])
  then show ?thesis using w(1-3,10) by (intro command_writeI [of sv cmd uid r r']) (simp_all add: CmdOverride)
next
  case (CmdRevert i)
  then obtain s where "RevertPriority sv en i seen db = (Ok s, db')" using assms(1) by (auto simp: forget_Ok_iff)
  from RevertPriority_effect [OF this assms(2,3)] obtain uid r r' auto where
    w: "sv_uuid sv (RP_SignalID i) = Some uid" "SR_ID r = uid" "SR_Version r = RP_ExpectedVersion i"
    "SR_Version r + 1 \<le> max_int32" "SR_AutoPriority r = Some auto"
    "r' = r\<lparr>SR_Priority := auto, SR_AutoPriority := None, SR_OverrideReason := None,
           SR_OverrideActorID := None, SR_OverrideAt := None, SR_Version := SR_Version r + 1\<rparr>"
    "signal_written uid r r' (db_signals db) (db_signals db')"
    by blast
  have "signal_write r r'" unfolding w(6) by (rule command_rows(5) [OF w(4,5)])
  then show ?thesis using w(1-3,7) by (intro command_writeI [of sv cmd uid r r']) (simp_all add: CmdRevert)
next
  case (CmdComment i)
  then show ?thesis using assms AddComment_effect [of sv en i seen db _ db'] by (auto simp: forget_Ok_iff)
next
  case (CmdPause i)
  then show ?thesis using assms PauseSla_effect [of sv en i seen db _ db'] by (auto simp: forget_Ok_iff)
next
  case (CmdResume i)
  then show ?thesis using assms ResumeSla_effect [of sv en i seen db _ db'] by (auto simp: forget_Ok_iff)
qed

text \<open>C1: A command commits as a whole. A failure leaves the database as it was. A success appends exactly one event
  of the command's type to the outbox, and at least one event to the audit trail, the first of them of the
  command's kind, by its actor, on its signal; it loses no clock and no comment and touches no user;
  and a command that expects a version has found it and left the next one, on that signal alone,
  while the others change no signal.\<close>

theorem commands_commit_whole:
  assumes "run_command sv en cmd seen db = (res, db')" "distinct (map SR_ID (db_signals db))"
    "canonical (sv_uuid sv)" "time_Micro \<le> en_now en"
  shows "if is_ok res
    then command_effect sv en cmd db db' \<and>
      (case command_version cmd of
         None \<Rightarrow> db_signals db' = db_signals db
       | Some v \<Rightarrow> \<exists>uid r r'. sv_uuid sv (command_signal cmd) = Some uid \<and> SR_Version r = v \<and> SR_Version r' = v + 1 \<and>
           signal_written uid r r' (db_signals db) (db_signals db'))
    else db' = db"
proof (cases res)
  case (Inl e)
  then show ?thesis using assms(1) run_command_Err by (simp add: is_ok_def)
next
  case (Inr u)
  note e = run_command_effect [OF assms(1) [unfolded Inr] assms(2-4)]
    run_command_write [OF assms(1) [unfolded Inr] assms(2-4)]
  show ?thesis
  proof (cases "command_version cmd")
    case None
    then show ?thesis using e Inr by (simp add: is_ok_def)
  next
    case (Some v)
    then show ?thesis using e Inr by (auto simp: is_ok_def command_write_def signal_write_def)
  qed
qed

text \<open>C11: No lost updates. Of two commands on the same signal that expect the same version, the second is refused,
  whatever it had read, and changes nothing.\<close>

theorem second_writer_is_refused:
  assumes "run_command sv en cmd seen db = (Ok (), db1)" "distinct (map SR_ID (db_signals db))"
    "canonical (sv_uuid sv)" "time_Micro \<le> en_now en" "time_Micro \<le> en_now en'"
    "command_version cmd = Some v" "command_version cmd' = Some v"
    "sv_uuid sv (command_signal cmd') = sv_uuid sv (command_signal cmd)"
  shows "\<exists>e. run_command sv en' cmd' seen' db1 = (Err e, db1)"
proof (cases "fst (run_command sv en' cmd' seen' db1)")
  case (Inl e)
  then show ?thesis using run_command_Err [of sv en' cmd' seen' db1 e] by (cases "run_command sv en' cmd' seen' db1") auto
next
  case (Inr u)
  then obtain db2 where r: "run_command sv en' cmd' seen' db1 = (Ok u, db2)"
    by (cases "run_command sv en' cmd' seen' db1") auto
  obtain uid r r' where 1: "sv_uuid sv (command_signal cmd) = Some uid" "SR_Version r = v" "signal_write r r'"
    "signal_written uid r r' (db_signals db) (db_signals db1)"
    using run_command_write [OF assms(1-4)] assms(6) by (auto simp: command_write_def)
  then have d: "distinct (map SR_ID (db_signals db1))" using assms(2) by (simp add: signal_written_def)
  obtain uid' s s' where "sv_uuid sv (command_signal cmd') = Some uid'" "SR_Version s = v"
    "signal_written uid' s s' (db_signals db1) (db_signals db2)"
    using run_command_write [OF r d assms(3,5)] assms(7) by (auto simp: command_write_def)
  then have "SR_Version r' = v" using 1(1,4) assms(8) by (auto simp: signal_written_def)
  then show ?thesis using 1(2,3) by (simp add: signal_write_def)
qed

section \<open>Witnesses\<close>

definition sample_service :: Service where
  "sample_service = \<lparr>sv_uuid = (\<lambda>s. if s = '''' then None else Some s), sv_users_wired = True,
     sv_profile = DefaultSLATimeProfile, sv_cadence = 600000000000, sv_marshal = (\<lambda>_. Some ''{}''),
     sv_json_time = (\<lambda>_. ''t''), sv_json_factors = (\<lambda>_. Some ''f''), sv_sha256_hex = (\<lambda>s. s)\<rparr>"

definition sample_env :: Env where
  "sample_env = \<lparr>en_now = 5000, en_correlation_id = ''c1'', en_event_id = ''e1'', en_outbox_id = ''o1'',
     en_comment_id = ''k1'', en_signal_id = ''s2'', en_clock_id = (\<lambda>_. ''x''), en_clock_row_id = (\<lambda>_. ''y'')\<rparr>"

definition sample_signal :: SignalRow where
  "sample_signal = \<lparr>SR_ID = ''s1'', SR_MatchID = ''m1'', SR_Priority = PriorityP4, SR_Status = SignalStatusNew,
     SR_Owner = None, SR_ClosedAt = None, SR_Version = 1, SR_RuleVersion = ''i1b-1'', SR_Factors = ex_factors,
     SR_CreatedAt = 1000, SR_AutoPriority = None, SR_OverrideReason = None, SR_OverrideActorID = None,
     SR_OverrideAt = None, SR_EscalatedAt = None\<rparr>"

definition sample_db :: Db where
  "sample_db = \<lparr>db_matches = [''m1'', ''m2''], db_signals = [sample_signal], db_clocks = [], db_comments = [],
     db_audit = [], db_outbox = [],
     db_users = [\<lparr>UI_ID = ''u1'', UI_SubjectID = ''sub'', UI_DisplayName = ''Ada'', UI_DeactivatedAt = 0\<rparr>],
     db_roles = [(''u1'', ''security_analyst'')], db_rules = []\<rparr>"

definition sample_actor :: Actor where
  "sample_actor = \<lparr>Act_Type = ''user'', Act_ID = ''u1'', Act_DisplayName = ''Ada''\<rparr>"

definition sample_transition :: "SignalStatus \<Rightarrow> int \<Rightarrow> TransitionSignalInput" where
  "sample_transition to ver = \<lparr>TS_SignalID = ''s1'', TS_To = to, TS_Reason = ''done'', TS_ExpectedVersion = ver,
     TS_Actor = sample_actor, TS_CorrelationID = ''c''\<rparr>"

lemma sample_canonical: "canonical (sv_uuid sample_service)"
  by (simp add: canonical_def sample_service_def)

lemma sample_run: "is_ok (fst (run_command sample_service sample_env
    (CmdTransition (sample_transition SignalStatusInReview 1)) sample_db sample_db))"
  by code_simp

definition sample_command :: signal_command where
  "sample_command = CmdTransition (sample_transition SignalStatusInReview 1)"

definition sample_after :: Db where
  "sample_after = snd (run_command sample_service sample_env sample_command sample_db sample_db)"

lemma sample_command_ok: "run_command sample_service sample_env sample_command sample_db sample_db = (Ok (), sample_after)"
  using sample_run by (cases "run_command sample_service sample_env sample_command sample_db sample_db")
    (auto simp: sample_command_def [symmetric] sample_after_def is_ok_iff)

lemma sample_env_now: "time_Micro \<le> en_now sample_env"
  by (simp add: sample_env_def time_Micro_def)

lemma sample_distinct: "distinct (map SR_ID (db_signals sample_db))"
  by (simp add: sample_db_def)

lemma sample_command_simps [simp]:
  "command_version sample_command = Some 1" "Act_Type (command_actor sample_command) = ActorTypeUser"
  "command_signal sample_command = ''s1''" "Act_ID (command_actor sample_command) = ''u1''"
  "command_event sample_command = EventTypeSignalTransitioned"
  by (simp_all add: sample_command_def sample_transition_def sample_actor_def ActorTypeUser_def)

lemma commands_are_authorised_witness:
  "\<exists>u. find (\<lambda>u. UI_ID u = ''u1'') (db_users sample_db) = Some u \<and> UI_DeactivatedAt u = 0"
  using commands_are_authorised [OF sample_command_ok sample_canonical]
  by (auto simp: sample_service_def)

lemma commands_commit_whole_witness:
  "\<exists>row. db_outbox sample_after = [row] \<and> Ob_Type row = EventTypeSignalTransitioned"
  using commands_commit_whole [OF sample_command_ok sample_distinct sample_canonical sample_env_now]
  by (auto simp: is_ok_def command_effect_def) (simp add: sample_db_def)

lemma second_writer_is_refused_witness:
  "\<exists>e. run_command sample_service sample_env
     (CmdTransition (sample_transition SignalStatusNotAffected 1)) sample_db sample_after = (Err e, sample_after)"
  by (rule second_writer_is_refused [OF sample_command_ok sample_distinct sample_canonical sample_env_now sample_env_now])
    (simp_all add: sample_transition_def)

end
