(* ===== verification/ClockTreatment.thy ===== *)
theory ClockTreatment
  imports SignalHistory
begin

text \<open>
  What the signal commands do to the clocks of their signal (signal_triage.go: createClocks, applyUpgradeClocks,
  resetClocks): the treatment of a changed priority covers every target of the new priority and
  never lengthens a deadline; a fresh signal has all its clocks.
\<close>

section \<open>No deadline is lengthened\<close>

definition never_later :: "clocks \<Rightarrow> clocks \<Rightarrow> bool" where
  "never_later rows rows' \<longleftrightarrow> (clocks_ok rows \<longrightarrow> clocks_ok rows' \<and>
     (\<forall>k r. row_at row_key k rows = Some r \<longrightarrow>
        (\<exists>r'. row_at row_key k rows' = Some r' \<and> SCR_DeadlineAt r' \<le> SCR_DeadlineAt r \<and>
              r' = r\<lparr>SCR_DeadlineAt := SCR_DeadlineAt r'\<rparr>)))"

lemma never_later_refl: "never_later rows rows"
  by (auto simp: never_later_def)

lemma never_later_trans: "never_later a b \<Longrightarrow> never_later b c \<Longrightarrow> never_later a c"
  unfolding never_later_def
proof (intro impI conjI allI)
  fix k r
  assume h: "clocks_ok a \<longrightarrow> clocks_ok b \<and> (\<forall>k r. row_at row_key k a = Some r \<longrightarrow>
      (\<exists>r'. row_at row_key k b = Some r' \<and> SCR_DeadlineAt r' \<le> SCR_DeadlineAt r \<and> r' = r\<lparr>SCR_DeadlineAt := SCR_DeadlineAt r'\<rparr>))"
    "clocks_ok b \<longrightarrow> clocks_ok c \<and> (\<forall>k r. row_at row_key k b = Some r \<longrightarrow>
      (\<exists>r'. row_at row_key k c = Some r' \<and> SCR_DeadlineAt r' \<le> SCR_DeadlineAt r \<and> r' = r\<lparr>SCR_DeadlineAt := SCR_DeadlineAt r'\<rparr>))"
    "clocks_ok a" "row_at row_key k a = Some r"
  obtain r1 where 1: "row_at row_key k b = Some r1" "SCR_DeadlineAt r1 \<le> SCR_DeadlineAt r" "r1 = r\<lparr>SCR_DeadlineAt := SCR_DeadlineAt r1\<rparr>"
    using h(1,3,4) by blast
  obtain r2 where 2: "row_at row_key k c = Some r2" "SCR_DeadlineAt r2 \<le> SCR_DeadlineAt r1" "r2 = r1\<lparr>SCR_DeadlineAt := SCR_DeadlineAt r2\<rparr>"
    using h(1-3) 1(1) by blast
  have "r2 = r\<lparr>SCR_DeadlineAt := SCR_DeadlineAt r2\<rparr>" by (subst 2(3), subst 1(3)) simp
  then show "\<exists>r'. row_at row_key k c = Some r' \<and> SCR_DeadlineAt r' \<le> SCR_DeadlineAt r \<and> r' = r\<lparr>SCR_DeadlineAt := SCR_DeadlineAt r'\<rparr>"
    using 1(2) 2(1,2) by (intro exI [of _ r2]) simp
qed auto

text \<open>A target is covered: its clock is met, or ends by the deadline.\<close>

definition covered :: "string \<Rightarrow> SLATarget \<Rightarrow> time \<Rightarrow> clocks \<Rightarrow> bool" where
  "covered sid target deadline rows \<longleftrightarrow>
     (\<exists>r. row_at row_key (sid, target) rows = Some r \<and> (SCR_FulfilledAt r \<noteq> None \<or> SCR_DeadlineAt r \<le> deadline))"

lemma covered_later: "covered sid target d rows \<Longrightarrow> never_later rows rows' \<Longrightarrow> clocks_ok rows \<Longrightarrow> covered sid target d rows'"
  unfolding covered_def never_later_def
  by (metis (no_types, lifting) SlaClockRow.ext_inject SlaClockRow.surjective SlaClockRow.update_convs(5) order_trans)

text \<open>One target of the treatment.\<close>

lemma clocks_Get_Ok:
  assumes "clocks_Get sv sid target db = Inr (c, db')"
  shows "db' = db \<and> (\<exists>uid. sv_uuid sv sid = Some uid \<and> c = map_option slaClockFromRow (row_at row_key (uid, target) (db_clocks db)))"
proof -
  have "clock_key uid target = (\<lambda>r. row_key r = (uid, target))" for uid by (simp add: clock_key_iff fun_eq_iff)
  with assms show ?thesis
    by (auto simp: clocks_Get_def result_simps SlaClockRepo_Get_def GetSlaClock_def select_row_def row_at_def
        split: if_splits option.splits)
qed

lemma upgrade_create_ok:
  assumes "upgrade_create sv en sid priority actor cid now target db = Inr (u, db')"
    "sv_uuid sv sid = Some uid" "row_at row_key (uid, target) (db_clocks db) = None"
  shows "\<exists>rows evs. db' = db\<lparr>db_clocks := rows, db_audit := db_audit db @ evs\<rparr> \<and> never_later (db_clocks db) rows \<and>
    covered uid target (pg_time (time_Add now (Duration (sv_profile sv) priority target))) rows"
proof -
  let ?d = "time_Add now (Duration (sv_profile sv) priority target)"
  obtain c stored db1 after where p: "NewSlaClock (en_clock_id en target) sid target priority (sv_profile sv) now = Inr c"
    "on_clocks (SlaClockRepo_Upsert (sv_uuid sv) (en_clock_row_id en target) c) db = Inr (stored, db1)"
    "appendSignalAudit sv EventTypeSignalSLAClockCreated sid actor cid now '''' after db1 = Inr ((), db')"
    using assms(1) by (auto simp: upgrade_create_def tx_bind_Ok_iff tx_lift_Ok_iff result_simps)
  note f = NewSlaClock_Ok_fields [OF p(1)]
  obtain rows where r: "SlaClockRepo_Upsert (sv_uuid sv) (en_clock_row_id en target) c (db_clocks db) = Inr (stored, rows)"
    "db1 = db\<lparr>db_clocks := rows\<rparr>" using p(2) by (auto simp: on_clocks_Ok_iff)
  have n: "(uid, target) \<notin> row_key ` set (db_clocks db)" using assms(3) by (simp add: row_at_None)
  let ?row = "\<lparr>SCR_ID = en_clock_row_id en target, SCR_SignalID = uid, SCR_Target = target, SCR_StartedAt = pg_time now,
    SCR_DeadlineAt = pg_time ?d, SCR_FulfilledAt = None, SCR_PausedSeconds = 0, SCR_PausedAt = None\<rparr>"
  have rows: "rows = db_clocks db @ [?row]"
    using r(1) f assms(2) n
    by (auto simp: SlaClockRepo_Upsert_def result_simps toTSPtr_def time_IsZero_def UpsertSlaClock_def Let_def list_ex_key)
  have k: "row_key ?row = (uid, target)" by (simp add: row_key_def)
  have "never_later (db_clocks db) rows"
    unfolding never_later_def
  proof (intro impI conjI allI)
    assume ok: "clocks_ok (db_clocks db)"
    then show "clocks_ok rows" using n k by (simp add: rows clocks_ok_def clock_row_ok_def max_int64_def)
    fix j r assume j: "row_at row_key j (db_clocks db) = Some r"
    then have "j \<noteq> (uid, target)" using assms(3) by auto
    then have "row_at row_key j rows = Some r" using j n k unfolding rows by (subst row_at_append) auto
    then show "\<exists>r'. row_at row_key j rows = Some r' \<and> SCR_DeadlineAt r' \<le> SCR_DeadlineAt r \<and> r' = r\<lparr>SCR_DeadlineAt := SCR_DeadlineAt r'\<rparr>"
      by simp
  qed
  moreover have "covered uid target (pg_time ?d) rows"
    unfolding covered_def rows using n k by (intro exI [of _ ?row]) (simp add: row_at_append)
  moreover obtain evs where "db' = db\<lparr>db_clocks := rows, db_audit := db_audit db @ evs\<rparr>"
    using p(3) r(2) by (auto simp: appendSignalAudit_Ok)
  ultimately show ?thesis by blast
qed

lemma Tighten_row:
  assumes "SlaClockRepo_Tighten U sid target d rows = Inr (a, rows')" "U sid = Some uid" "clocks_ok rows"
    "row_at row_key (uid, target) rows = Some r"
  shows "never_later rows rows' \<and> covered uid target (pg_time d) rows'"
proof -
  have dis: "distinct (map row_key rows)" using assms(3) by (simp add: clocks_ok_def)
  let ?P = "\<lambda>r. clock_key uid target r \<and> SCR_FulfilledAt r = None \<and> SCR_DeadlineAt r > pg_time d"
  have c: "clock_changed ''sla_clocks.tighten'' rows (TightenSlaClock (pg_time d) uid target rows) = Inr (a, rows')"
    using assms(1,2) by (auto simp: SlaClockRepo_Tighten_def result_simps)
  show ?thesis
  proof (cases "?P r")
    case True
    let ?r' = "r\<lparr>SCR_DeadlineAt := pg_time d\<rparr>"
    have u: "update_row ?P (\<lambda>r. Ok (r\<lparr>SCR_DeadlineAt := pg_time d\<rparr>)) rows = Inr (?r', rows')"
      using c tighten.update_hit [OF dis assms(4) True]
      by (auto simp: TightenSlaClock_def clock_changed_Ok)
    note w = tighten.update_Ok [OF dis u]
    have "clock_row_ok ?r'" using assms(3,4) row_at_Some [OF assms(4)] by (auto simp: clocks_ok_def clock_row_ok_def)
    then have "clocks_ok rows'" using assms(3) w(2,4) by (auto simp: clocks_ok_def)
    then have "never_later rows rows'"
      using True assms(4) by (auto simp: never_later_def w(3))
    moreover have "covered uid target (pg_time d) rows'" by (simp add: covered_def w(3))
    ultimately show ?thesis by simp
  next
    case False
    have "TightenSlaClock (pg_time d) uid target rows = Inl NoRows"
      unfolding TightenSlaClock_def by (rule tighten.update_miss [OF dis]) (use False assms(4) in auto)
    then have "rows' = rows" using c by (simp add: clock_changed_def)
    moreover have "clock_key uid target r" using row_at_Some [OF assms(4)] by (simp add: clock_key_iff)
    ultimately show ?thesis using False assms(4) by (auto simp: never_later_refl covered_def)
  qed
qed

lemma audit_grows:
  "appendSignalAudit sv action sid actor cid now before after db = Inr (u, db') \<Longrightarrow>
     \<exists>evs. db' = db\<lparr>db_audit := db_audit db @ evs\<rparr>"
  unfolding appendSignalAudit_Ok by blast

lemma upgrade_tighten_ok:
  assumes "upgrade_tighten sv sid priority actor cid now target c db = Inr (u, db')"
    "sv_uuid sv sid = Some uid" "clocks_ok (db_clocks db)" "row_at row_key (uid, target) (db_clocks db) = Some r"
  shows "\<exists>rows evs. db' = db\<lparr>db_clocks := rows, db_audit := db_audit db @ evs\<rparr> \<and> never_later (db_clocks db) rows \<and>
    covered uid target (pg_time (time_Add now (Duration (sv_profile sv) priority target))) rows"
proof -
  let ?d = "time_Add now (Duration (sv_profile sv) priority target)"
  obtain t db1 where p: "on_clocks (SlaClockRepo_Tighten (sv_uuid sv) sid target ?d) db = Inr (t, db1)"
    "(case t of None \<Rightarrow> tx_return ()
      | Some clock \<Rightarrow> tx_bind (tx_lift (slaClockMutationSnapshot sv ''sla_clocks.upgrade'' clock (Clk_DeadlineAt c)))
          (\<lambda>after. appendSignalAudit sv EventTypeSignalSLAClockTightened sid actor cid now '''' after)) db1 = Inr (u, db')"
    using assms(1) by (auto simp: upgrade_tighten_def Let_def tx_bind_Ok_iff)
  have audited: "db' = db1 \<or> (\<exists>evs. db' = db1\<lparr>db_audit := db_audit db1 @ evs\<rparr>)"
    using p(2) by (cases t) (auto simp: tx_bind_Ok_iff tx_return_Ok_iff tx_lift_Ok_iff dest: audit_grows)
  obtain rows where r: "SlaClockRepo_Tighten (sv_uuid sv) sid target ?d (db_clocks db) = Inr (t, rows)" "db1 = db\<lparr>db_clocks := rows\<rparr>"
    using p(1) by (auto simp: on_clocks_Ok_iff)
  have "db1 = db1\<lparr>db_audit := db_audit db1 @ []\<rparr>" by simp
  then obtain evs where "db' = db1\<lparr>db_audit := db_audit db1 @ evs\<rparr>" using audited by metis
  then have "db' = db\<lparr>db_clocks := rows, db_audit := db_audit db @ evs\<rparr>" by (simp add: r(2))
  with Tighten_row [OF r(1) assms(2-4)] show ?thesis by blast
qed

lemma upgradeClock_ok:
  assumes "upgradeClock sv en sid priority actor cid now target db = Inr (u, db')"
    "sv_uuid sv sid = Some uid" "clocks_ok (db_clocks db)"
  shows "\<exists>rows evs. db' = db\<lparr>db_clocks := rows, db_audit := db_audit db @ evs\<rparr> \<and> never_later (db_clocks db) rows \<and>
    covered uid target (pg_time (time_Add now (Duration (sv_profile sv) priority target))) rows"
proof -
  obtain found where f: "clocks_Get sv sid target db = Inr (found, db)"
    "(case found of None \<Rightarrow> upgrade_create sv en sid priority actor cid now target
      | Some existing \<Rightarrow> upgrade_tighten sv sid priority actor cid now target existing) db = Inr (u, db')"
    using assms(1) clocks_Get_Ok by (auto simp: upgradeClock_def tx_bind_Ok_iff) metis
  show ?thesis
  proof (cases found)
    case None
    then have "row_at row_key (uid, target) (db_clocks db) = None" using clocks_Get_Ok [OF f(1)] assms(2) by auto
    then show ?thesis using upgrade_create_ok [OF _ assms(2)] f(2) None by simp
  next
    case (Some c)
    then obtain r where "row_at row_key (uid, target) (db_clocks db) = Some r"
      using clocks_Get_Ok [OF f(1)] assms(2) by (cases "row_at row_key (uid, target) (db_clocks db)") auto
    then show ?thesis using upgrade_tighten_ok [OF _ assms(2,3)] f(2) Some by simp
  qed
qed

lemma upgrade_loop:
  assumes "tx_each (upgradeClock sv en sid priority actor cid now) ts db = Inr (u, db')"
    "sv_uuid sv sid = Some uid" "clocks_ok (db_clocks db)"
  shows "never_later (db_clocks db) (db_clocks db') \<and>
    (\<forall>t\<in>set ts. covered uid t (pg_time (time_Add now (Duration (sv_profile sv) priority t))) (db_clocks db'))"
  using assms
proof (induction ts arbitrary: db)
  case Nil
  then show ?case by (simp add: tx_return_Ok_iff never_later_refl)
next
  case (Cons t ts)
  obtain db1 where s: "upgradeClock sv en sid priority actor cid now t db = Inr ((), db1)"
    "tx_each (upgradeClock sv en sid priority actor cid now) ts db1 = Inr (u, db')"
    using Cons.prems(1) by (auto simp: tx_bind_Ok_iff)
  obtain rows evs where r: "db1 = db\<lparr>db_clocks := rows, db_audit := db_audit db @ evs\<rparr>" "never_later (db_clocks db) rows"
    "covered uid t (pg_time (time_Add now (Duration (sv_profile sv) priority t))) rows"
    using upgradeClock_ok [OF s(1) Cons.prems(2,3)] by blast
  then have ok: "clocks_ok (db_clocks db1)" using Cons.prems(3) by (simp add: never_later_def)
  note ih = Cons.IH [OF s(2) Cons.prems(2) ok]
  then have "never_later rows (db_clocks db')" using r(1) by simp
  then have "covered uid t (pg_time (time_Add now (Duration (sv_profile sv) priority t))) (db_clocks db')"
    "never_later (db_clocks db) (db_clocks db')"
    using covered_later [OF r(3)] ok r(1) never_later_trans [OF r(2)] by simp_all
  with ih show ?case by simp
qed

text \<open>C24: The clocks of an overridden priority. When an override succeeds, no deadline of any clock is later than it was
  and nothing else of a clock that was there has changed; and every target that the profile
  defines for the new priority has a clock that is met or ends within the target's duration from
  now, whether the override raised the priority or lowered it.\<close>

theorem override_covers_every_target:
  assumes "OverridePriority sv en inp seen db = (Ok s, db')" "canonical (sv_uuid sv)"
    "clocks_ok (db_clocks db)" "distinct (map SR_ID (db_signals db))"
  shows "never_later (db_clocks db) (db_clocks db') \<and>
    (\<exists>uid. sv_uuid sv (OP_SignalID inp) = Some uid \<and>
      (\<forall>target\<in>set (Targets (sv_profile sv) (OP_Priority inp)).
        covered uid target (pg_time (time_Add (en_now en) (Duration (sv_profile sv) (OP_Priority inp) target))) (db_clocks db')))"
proof -
  obtain cur before where "OverridePriority_body sv en inp (cur, before) db = Inr (s, db')"
    using assms(1) by (auto simp: OverridePriority_def command_Ok_iff)
  then obtain db1 db2 db3 p cid after where b: "on_signals (SignalRepo_OverridePriority (sv_uuid sv) (OP_SignalID inp) (OP_Priority inp)
      (Sig_Priority cur) (OP_Reason inp) (Act_ID (OP_Actor inp)) (en_now en) (OP_ExpectedVersion inp)) db = Inr (s, db1)"
    "appendSignalAudit sv EventTypeSignalPriorityOverridden (Sig_ID s) (OP_Actor inp) cid (en_now en) before after db1 = Inr ((), db2)"
    "applyUpgradeClocks sv en (Sig_ID s) (Sig_Priority s) (OP_Actor inp) cid (en_now en) db2 = Inr ((), db3)"
    "appendSignalOutbox sv en EventTypeSignalPriorityOverridden (Sig_ID s) cid (en_now en) p db3 = Inr ((), db')"
    unfolding OverridePriority_body_def Let_def prod.case tx_bind_Ok_iff tx_lift_Ok_iff tx_return_Ok_iff by auto
  obtain rows where r: "SignalRepo_OverridePriority (sv_uuid sv) (OP_SignalID inp) (OP_Priority inp)
      (Sig_Priority cur) (OP_Reason inp) (Act_ID (OP_Actor inp)) (en_now en) (OP_ExpectedVersion inp) (db_signals db) = Inr (s, rows)"
    "db1 = db\<lparr>db_signals := rows\<rparr>" using b(1) by (auto simp: on_signals_Ok_iff)
  obtain uid where u: "sv_uuid sv (OP_SignalID inp) = Some uid" "Sig_ID s = uid" "Sig_Priority s = OP_Priority inp"
    using Override_written [OF assms(4) r(1)] by auto
  have c2: "db_clocks db2 = db_clocks db" using b(2) r(2) by (auto simp: appendSignalAudit_Ok)
  have "sv_uuid sv (Sig_ID s) = Some uid" using u(1,2) assms(2) by (auto simp: canonical_def)
  from upgrade_loop [OF b(3) [unfolded applyUpgradeClocks_def] this] c2 assms(3)
  have "never_later (db_clocks db) (db_clocks db3) \<and> (\<forall>t\<in>set (Targets (sv_profile sv) (OP_Priority inp)).
      covered uid t (pg_time (time_Add (en_now en) (Duration (sv_profile sv) (OP_Priority inp) t))) (db_clocks db3))"
    by (simp add: u(3))
  moreover have "db_clocks db' = db_clocks db3" using appendSignalOutbox_Ok [OF b(4)] by auto
  ultimately show ?thesis using u(1) by auto
qed

section \<open>The clocks of a fresh signal\<close>

definition fresh_clock :: "Service \<Rightarrow> Env \<Rightarrow> string \<Rightarrow> Priority \<Rightarrow> time \<Rightarrow> SLATarget \<Rightarrow> SlaClockRow" where
  "fresh_clock sv en uid priority now target =
     \<lparr>SCR_ID = en_clock_row_id en target, SCR_SignalID = uid, SCR_Target = target, SCR_StartedAt = pg_time now,
      SCR_DeadlineAt = pg_time (time_Add now (Duration (sv_profile sv) priority target)),
      SCR_FulfilledAt = None, SCR_PausedSeconds = 0, SCR_PausedAt = None\<rparr>"

lemma createClock_ok:
  assumes "createClock sv en sid priority now target db = Inr (u, db')" "sv_uuid sv sid = Some uid"
    "(uid, target) \<notin> row_key ` set (db_clocks db)"
  shows "db' = db\<lparr>db_clocks := db_clocks db @ [fresh_clock sv en uid priority now target]\<rparr>"
proof -
  obtain c stored where p: "NewSlaClock (en_clock_id en target) sid target priority (sv_profile sv) now = Inr c"
    "on_clocks (SlaClockRepo_Upsert (sv_uuid sv) (en_clock_row_id en target) c) db = Inr (stored, db')"
    using assms(1) by (auto simp: createClock_def tx_bind_Ok_iff tx_lift_Ok_iff tx_return_Ok_iff result_simps)
  note f = NewSlaClock_Ok_fields [OF p(1)]
  show ?thesis
    using p(2) f assms(2,3)
    by (auto simp: on_clocks_Ok_iff SlaClockRepo_Upsert_def result_simps toTSPtr_def time_IsZero_def UpsertSlaClock_def
        Let_def list_ex_key fresh_clock_def)
qed

lemma create_loop:
  assumes "tx_each (createClock sv en sid priority now) ts db = Inr (u, db')" "sv_uuid sv sid = Some uid"
    "distinct ts" "\<forall>t\<in>set ts. (uid, t) \<notin> row_key ` set (db_clocks db)"
  shows "db' = db\<lparr>db_clocks := db_clocks db @ map (fresh_clock sv en uid priority now) ts\<rparr>"
  using assms
proof (induction ts arbitrary: db)
  case Nil
  then show ?case by (simp add: tx_return_Ok_iff)
next
  case (Cons t ts)
  obtain db1 where s: "createClock sv en sid priority now t db = Inr ((), db1)"
    "tx_each (createClock sv en sid priority now) ts db1 = Inr (u, db')"
    using Cons.prems(1) by (auto simp: tx_bind_Ok_iff)
  have 1: "db1 = db\<lparr>db_clocks := db_clocks db @ [fresh_clock sv en uid priority now t]\<rparr>"
    using createClock_ok [OF s(1) Cons.prems(2)] Cons.prems(4) by simp
  have "db' = db1\<lparr>db_clocks := db_clocks db1 @ map (fresh_clock sv en uid priority now) ts\<rparr>"
    by (rule Cons.IH [OF s(2) Cons.prems(2)])
      (use Cons.prems(3,4) in \<open>auto simp: 1 fresh_clock_def row_key_def\<close>)
  then show ?case by (simp add: 1)
qed

lemma Targets_distinct: "distinct (Targets p priority)"
  by (simp add: Targets_def)

lemma signals_Create_ok:
  assumes "signals_Create sv en rec now db = Inr (s, db')"
  shows "\<exists>row. db' = db\<lparr>db_signals := db_signals db @ [row]\<rparr> \<and> s = riskSignalFromRow row \<and> SR_ID row = en_signal_id en \<and>
    sv_uuid sv (Rec_MatchID rec) = Some (SR_MatchID row) \<and> SR_MatchID row \<notin> SR_MatchID ` set (db_signals db) \<and>
    SR_Priority row = Rec_Priority rec \<and> SR_Factors row = Rec_Factors rec \<and> SR_Status row = SignalStatusNew \<and>
    SR_Version row = 1 \<and> SR_ClosedAt row = None \<and> SR_AutoPriority row = None \<and> SR_OverrideReason row = None \<and>
    SR_OverrideActorID row = None \<and> SR_OverrideAt row = None \<and> SR_EscalatedAt row = None"
proof -
  obtain m row rows where i: "sv_uuid sv (Rec_MatchID rec) = Some m" "s = riskSignalFromRow row" "db' = db\<lparr>db_signals := rows\<rparr>"
    "InsertRiskSignal (db_matches db) (en_signal_id en) m (Rec_Priority rec) (Rec_RuleVersion rec) (Rec_Factors rec)
       (pg_time now) (db_signals db) = Inr (row, rows)"
    using assms by (auto simp: signals_Create_def on_signals_Ok_iff SignalRepo_Create_def result_simps)
  show ?thesis
    by (rule exI [of _ row]) (use i in \<open>auto simp: InsertRiskSignal_def Let_def list_ex_iff split: if_splits\<close>)
qed

text \<open>The steps of a creation that succeeds.\<close>

lemma CreateSignal_steps:
  assumes "CreateSignal sv en inp db = (Inr (s, cid), db')"
  obtains row ev db3 out where "PriorityFactors_Validate (CS_Factors inp) = Ok ()" "s = riskSignalFromRow row"
    "SR_ID row = en_signal_id en" "sv_uuid sv (CS_MatchID inp) = Some (SR_MatchID row)"
    "SR_MatchID row \<notin> SR_MatchID ` set (db_signals db)" "SR_Priority row = ComputePriority (CS_Factors inp)"
    "SR_Factors row = CS_Factors inp" "SR_Status row = SignalStatusNew" "SR_Version row = 1" "SR_ClosedAt row = None"
    "SR_AutoPriority row = None" "SR_OverrideReason row = None" "SR_OverrideActorID row = None" "SR_OverrideAt row = None"
    "SR_EscalatedAt row = None" "Ev_Action ev = EventTypeSignalCreated" "Ev_AggregateID ev = SR_ID row"
    "Ev_ActorID ev = Act_ID (CS_Actor inp)"
    "createClocks sv en (SR_ID row) (SR_Priority row) (en_now en)
       (db\<lparr>db_signals := db_signals db @ [row], db_audit := db_audit db @ [ev]\<rparr>) = Inr ((), db3)"
    "db' = db3\<lparr>db_outbox := db_outbox db3 @ [out]\<rparr>" "Ob_Type out = EventTypeSignalCreated"
    "Ob_DedupeKey out = signalDedupeKey (SR_ID row)" "Ob_DedupeKey out \<notin> Ob_DedupeKey ` set (db_outbox db3)"
proof -
  have c: "CreateSignal_check inp = Ok ()" "CreateSignal_body sv en inp () db = Inr ((s, cid), db')"
    using assms by (auto simp: CreateSignal_def command_Ok_iff)
  let ?rec = "\<lparr>Rec_MatchID = CS_MatchID inp, Rec_Priority = ComputePriority (CS_Factors inp),
     Rec_RuleVersion = PriorityRuleVersionI1b, Rec_Factors = CS_Factors inp\<rparr>"
  obtain db1 db2 db3 after payload where b: "signals_Create sv en ?rec (en_now en) db = Inr (s, db1)"
    "appendSignalAudit sv EventTypeSignalCreated (Sig_ID s) (CS_Actor inp) cid (en_now en) '''' after db1 = Inr ((), db2)"
    "createClocks sv en (Sig_ID s) (Sig_Priority s) (en_now en) db2 = Inr ((), db3)"
    "outbox_Append (en_outbox_id en) \<lparr>OE_Type = EventTypeSignalCreated, OE_Payload = payload, OE_DedupeKey = signalDedupeKey (Sig_ID s),
         OE_AvailableAt = en_now en, OE_CreatedAt = en_now en\<rparr> db3 = Inr ((), db')"
    using c(2) unfolding CreateSignal_body_def Let_def tx_bind_Ok_iff tx_lift_Ok_iff tx_return_Ok_iff by auto
  obtain row where r: "db1 = db\<lparr>db_signals := db_signals db @ [row]\<rparr>" "s = riskSignalFromRow row" "SR_ID row = en_signal_id en"
    "SR_Status row = SignalStatusNew" "SR_Version row = 1" "SR_Priority row = ComputePriority (CS_Factors inp)"
    "SR_Factors row = CS_Factors inp" "SR_ClosedAt row = None" "SR_AutoPriority row = None" "SR_OverrideReason row = None"
    "SR_OverrideActorID row = None" "SR_OverrideAt row = None" "SR_EscalatedAt row = None"
    "sv_uuid sv (CS_MatchID inp) = Some (SR_MatchID row)" "SR_MatchID row \<notin> SR_MatchID ` set (db_signals db)"
    using signals_Create_ok [OF b(1)] by auto
  obtain ev where a: "db2 = db1\<lparr>db_audit := db_audit db1 @ [ev]\<rparr>" "Ev_Action ev = EventTypeSignalCreated"
    "Ev_AggregateID ev = Sig_ID s" "Ev_ActorID ev = Act_ID (CS_Actor inp)"
    using b(2) by (auto simp: appendSignalAudit_Ok)
  obtain out where o': "db' = db3\<lparr>db_outbox := db_outbox db3 @ [out]\<rparr>" "Ob_Type out = EventTypeSignalCreated"
    "Ob_DedupeKey out = signalDedupeKey (Sig_ID s)" "Ob_DedupeKey out \<notin> Ob_DedupeKey ` set (db_outbox db3)"
    using b(4) by (auto simp: outbox_Append_Ok_iff OutboxRepo_Append_Ok)
  have "PriorityFactors_Validate (CS_Factors inp) = Ok ()"
    using c(1) by (auto simp: CreateSignal_check_def Let_def result_simps)
  then show ?thesis
    by (rule that [of row ev db3 out]) (use r b(3) a o' in simp_all)
qed

text \<open>C23: The creation of a signal. A failure leaves no trace. A success appends the signal, new, at version 1 and with the
  priority the seed rules compute from the factors; a clock for every target that the profile
  defines for this priority, started now; one audit event and one outbox event, whose key only the
  creation of this signal has. (The identifiers that the database draws are new.)\<close>

theorem create_signal_commits_whole:
  assumes "CreateSignal sv en inp db = (res, db')" "sv_uuid sv (en_signal_id en) = Some (en_signal_id en)"
    "\<forall>r\<in>set (db_clocks db). SCR_SignalID r \<noteq> en_signal_id en"
  shows "case res of
      Inl _ \<Rightarrow> db' = db
    | Inr (s, cid) \<Rightarrow> \<exists>row ev out.
        db' = db\<lparr>db_signals := db_signals db @ [row],
          db_clocks := db_clocks db @ map (fresh_clock sv en (SR_ID row) (SR_Priority row) (en_now en)) (Targets (sv_profile sv) (SR_Priority row)),
          db_audit := db_audit db @ [ev], db_outbox := db_outbox db @ [out]\<rparr> \<and>
        s = riskSignalFromRow row \<and> SR_ID row = en_signal_id en \<and> SR_Status row = SignalStatusNew \<and> SR_Version row = 1 \<and>
        SR_Priority row = ch93_priority (CS_Factors inp) \<and> SR_Factors row = CS_Factors inp \<and> SR_ClosedAt row = None \<and>
        SR_AutoPriority row = None \<and> sv_uuid sv (CS_MatchID inp) = Some (SR_MatchID row) \<and> SR_MatchID row \<notin> SR_MatchID ` set (db_signals db) \<and>
        Ev_Action ev = EventTypeSignalCreated \<and> Ev_AggregateID ev = SR_ID row \<and> Ev_ActorID ev = Act_ID (CS_Actor inp) \<and>
        Ob_Type out = EventTypeSignalCreated \<and> Ob_DedupeKey out = signalDedupeKey (SR_ID row) \<and>
        Ob_DedupeKey out \<notin> Ob_DedupeKey ` set (db_outbox db)"
proof (cases res)
  case (Inl e)
  then show ?thesis using assms(1) by (auto simp: CreateSignal_def dest: command_Err)
next
  case (Inr res')
  obtain s cid where res': "res' = (s, cid)" by (cases res')
  from assms(1) have "CreateSignal sv en inp db = (Inr (s, cid), db')" by (simp add: Inr res')
  then show ?thesis
  proof (rule CreateSignal_steps, goal_cases)
    case (1 row ev db3 out)
    note st = this
    have k: "db3 = db\<lparr>db_signals := db_signals db @ [row], db_audit := db_audit db @ [ev],
        db_clocks := db_clocks db @ map (fresh_clock sv en (SR_ID row) (SR_Priority row) (en_now en)) (Targets (sv_profile sv) (SR_Priority row))\<rparr>"
    proof -
      have "sv_uuid sv (SR_ID row) = Some (SR_ID row)" "\<forall>t\<in>set ts. (SR_ID row, t) \<notin> row_key ` set (db_clocks db)" for ts
        using assms(2,3) st(3) by (auto simp: row_key_def)
      from create_loop [OF st(19) [unfolded createClocks_def] this(1) Targets_distinct] this(2) show ?thesis by simp
    qed
    have p: "SR_Priority row = ch93_priority (CS_Factors inp)"
      using st(1,6) EvaluatePriority_seed [of "CS_Factors inp"] by (simp add: PriorityFactors_Validate_iff ComputePriority_def)
    show ?thesis
      unfolding Inr res' sum.case prod.case
      by (rule exI [of _ row], rule exI [of _ ev], rule exI [of _ out]) (use st(2-23) p in \<open>simp add: k\<close>)
  qed
qed

section \<open>Reopening\<close>

definition restarted :: "Service \<Rightarrow> Priority \<Rightarrow> time \<Rightarrow> SLATarget \<Rightarrow> SlaClockRow \<Rightarrow> SlaClockRow" where
  "restarted sv priority now target r =
     r\<lparr>SCR_StartedAt := pg_time now, SCR_DeadlineAt := pg_time (time_Add now (Duration (sv_profile sv) priority target)),
       SCR_FulfilledAt := None, SCR_PausedSeconds := 0, SCR_PausedAt := None\<rparr>"

lemma resetClock_ok:
  assumes "resetClock sv s now target db = Inr (u, db')" "sv_uuid sv (Sig_ID s) = Some uid" "clocks_ok (db_clocks db)"
  shows "\<exists>rows r. db' = db\<lparr>db_clocks := rows\<rparr> \<and> clocks_ok rows \<and> row_at row_key (uid, target) (db_clocks db) = Some r \<and>
    (\<forall>j. row_at row_key j rows = (if j = (uid, target) then Some (restarted sv (Sig_Priority s) now target r) else row_at row_key j (db_clocks db)))"
proof -
  have d: "distinct (map row_key (db_clocks db))" using assms(3) by (simp add: clocks_ok_def)
  let ?d = "time_Add now (Duration (sv_profile sv) (Sig_Priority s) target)"
  obtain c rows where r: "SlaClockRepo_Reset (sv_uuid sv) (Sig_ID s) target now ?d (db_clocks db) = Inr (c, rows)" "db' = db\<lparr>db_clocks := rows\<rparr>"
    using assms(1) by (auto simp: resetClock_def Let_def tx_bind_Ok_iff tx_return_Ok_iff on_clocks_Ok_iff)
  obtain row where u: "ResetSlaClock (pg_time now) (pg_time ?d) uid target (db_clocks db) = Inr (row, rows)"
    using r(1) assms(2) by (auto simp: SlaClockRepo_Reset_def result_simps)
  note w = reset.update_Ok [OF d u [unfolded ResetSlaClock_def]]
  have "clocks_ok rows" using Reset_step [OF r(1)] assms(3) by (simp add: clocks_step_def)
  with w(1,3) r(2) show ?thesis by (auto simp: restarted_def)
qed

lemma reset_loop:
  assumes "tx_each (resetClock sv s now) ts db = Inr (u, db')" "sv_uuid sv (Sig_ID s) = Some uid" "clocks_ok (db_clocks db)" "distinct ts"
  shows "(\<forall>t\<in>set ts. \<exists>r. row_at row_key (uid, t) (db_clocks db) = Some r \<and>
      row_at row_key (uid, t) (db_clocks db') = Some (restarted sv (Sig_Priority s) now t r)) \<and>
    (\<forall>j. j \<notin> (\<lambda>t. (uid, t)) ` set ts \<longrightarrow> row_at row_key j (db_clocks db') = row_at row_key j (db_clocks db))"
  using assms
proof (induction ts arbitrary: db)
  case Nil
  then show ?case by (simp add: tx_return_Ok_iff)
next
  case (Cons t ts)
  obtain db1 where s: "resetClock sv s now t db = Inr ((), db1)" "tx_each (resetClock sv s now) ts db1 = Inr (u, db')"
    using Cons.prems(1) by (auto simp: tx_bind_Ok_iff)
  obtain rows r where r: "db1 = db\<lparr>db_clocks := rows\<rparr>" "clocks_ok rows" "row_at row_key (uid, t) (db_clocks db) = Some r"
    "\<And>j. row_at row_key j rows = (if j = (uid, t) then Some (restarted sv (Sig_Priority s) now t r) else row_at row_key j (db_clocks db))"
    using resetClock_ok [OF s(1) Cons.prems(2,3)] by blast
  have ih: "(\<forall>t\<in>set ts. \<exists>r. row_at row_key (uid, t) rows = Some r \<and>
      row_at row_key (uid, t) (db_clocks db') = Some (restarted sv (Sig_Priority s) now t r)) \<and>
    (\<forall>j. j \<notin> (\<lambda>t. (uid, t)) ` set ts \<longrightarrow> row_at row_key j (db_clocks db') = row_at row_key j rows)"
    using Cons.IH [OF s(2) Cons.prems(2)] Cons.prems(4) r(1,2) by simp
  have "t \<notin> set ts" using Cons.prems(4) by simp
  then have "(uid, t) \<notin> (\<lambda>t. (uid, t)) ` set ts" by auto
  then have "row_at row_key (uid, t) (db_clocks db') = Some (restarted sv (Sig_Priority s) now t r)"
    using ih r(4) [of "(uid, t)"] by simp
  moreover have "\<exists>r. row_at row_key (uid, t') (db_clocks db) = Some r \<and>
      row_at row_key (uid, t') (db_clocks db') = Some (restarted sv (Sig_Priority s) now t' r)" if "t' \<in> set ts" for t'
    using ih that r(4) [of "(uid, t')"] \<open>t \<notin> set ts\<close> by (metis prod.inject)
  ultimately show ?case using r(3,4) ih by auto
qed

text \<open>Reopening restarts the clocks. When a closed signal is reopened, each target that the profile defines for its
  priority had a clock, and that clock runs again from now: full duration, not met, no pause; no
  other clock changes. So a signal that lacks one of these clocks cannot be reopened.\<close>

theorem reopen_restarts_every_clock:
  assumes "TransitionSignal sv en inp seen db = (Ok s, db')" "canonical (sv_uuid sv)"
    "clocks_ok (db_clocks db)" "distinct (map SR_ID (db_signals db))"
    "SignalRepo_GetRiskSignal (sv_uuid sv) (TS_SignalID inp) (db_signals seen) = Ok cur" "IsReopen (Sig_Status cur) (TS_To inp)"
  shows "\<exists>uid. sv_uuid sv (TS_SignalID inp) = Some uid \<and>
    (\<forall>t\<in>set (Targets (sv_profile sv) (Sig_Priority s)). \<exists>r. row_at row_key (uid, t) (db_clocks db) = Some r \<and>
       row_at row_key (uid, t) (db_clocks db') = Some (restarted sv (Sig_Priority s) (en_now en) t r)) \<and>
    (\<forall>j. j \<notin> (\<lambda>t. (uid, t)) ` set (Targets (sv_profile sv) (Sig_Priority s)) \<longrightarrow>
       row_at row_key j (db_clocks db') = row_at row_key j (db_clocks db))"
proof -
  obtain cur' before where c: "TransitionSignal_check sv inp seen = Ok (cur', before)" "TransitionSignal_body sv en inp (cur', before) db = Inr (s, db')"
    using assms(1) by (auto simp: TransitionSignal_def command_Ok_iff)
  have cur: "cur' = cur" using c(1) assms(5) by (auto simp: check_defs result_simps split: if_splits)
  let ?closed = "if IsClosed (TS_To inp) then Some (en_now en) else None"
  obtain db1 db2 db3 p cid after where b:
    "on_signals (SignalRepo_Transition (sv_uuid sv) (TS_SignalID inp) (TS_To inp) ?closed (TS_ExpectedVersion inp)) db = Inr (s, db1)"
    "appendSignalAudit sv EventTypeSignalTransitioned (Sig_ID s) (TS_Actor inp) cid (en_now en) before after db1 = Inr ((), db2)"
    "applyTransitionClocks sv (Sig_Status cur) s (TS_To inp) (en_now en) db2 = Inr ((), db3)"
    "appendSignalOutbox sv en EventTypeSignalTransitioned (Sig_ID s) cid (en_now en) p db3 = Inr ((), db')"
    using c(2) unfolding cur TransitionSignal_body_def Let_def prod.case tx_bind_Ok_iff tx_lift_Ok_iff tx_return_Ok_iff by auto
  obtain rows where r: "SignalRepo_Transition (sv_uuid sv) (TS_SignalID inp) (TS_To inp) ?closed (TS_ExpectedVersion inp) (db_signals db) = Inr (s, rows)"
    "db1 = db\<lparr>db_signals := rows\<rparr>" using b(1) by (auto simp: on_signals_Ok_iff)
  obtain uid where u: "sv_uuid sv (TS_SignalID inp) = Some uid" "Sig_ID s = uid"
    using Transition_written [OF assms(4) r(1)] by auto
  have su: "sv_uuid sv (Sig_ID s) = Some uid" using u assms(2) by (auto simp: canonical_def)
  have c2: "db_clocks db2 = db_clocks db" using b(2) r(2) by (auto simp: appendSignalAudit_Ok)
  have "tx_each (resetClock sv s (en_now en)) (Targets (sv_profile sv) (Sig_Priority s)) db2 = Inr ((), db3)"
    using b(3) assms(6) by (auto simp: applyTransitionClocks_def IsReopen_def resetClocks_def)
  from reset_loop [OF this su _ Targets_distinct] c2 assms(3) u(1) show ?thesis
    using appendSignalOutbox_Ok [OF b(4)] by auto
qed

section \<open>Witnesses\<close>

definition sample_override :: OverridePriorityInput where
  "sample_override = \<lparr>OP_SignalID = ''s1'', OP_Priority = PriorityP3, OP_Reason = ''exposed'', OP_ExpectedVersion = 1,
     OP_Actor = sample_actor, OP_CorrelationID = ''c''\<rparr>"

lemma override_covers_every_target_witness:
  "\<exists>s db'. OverridePriority sample_service sample_env sample_override sample_db sample_db = (Ok s, db') \<and>
     (\<exists>d. covered ''s1'' SLATargetAcknowledgement d (db_clocks db'))"
proof -
  have "is_ok (fst (OverridePriority sample_service sample_env sample_override sample_db sample_db))" by code_simp
  then obtain s db' where o': "OverridePriority sample_service sample_env sample_override sample_db sample_db = (Ok s, db')"
    by (cases "OverridePriority sample_service sample_env sample_override sample_db sample_db") (auto simp: is_ok_iff)
  have "clocks_ok (db_clocks sample_db)" by (simp add: sample_db_def clocks_ok_def)
  moreover have "SLATargetAcknowledgement \<in> set (Targets (sv_profile sample_service) (OP_Priority sample_override))" by code_simp
  ultimately show ?thesis
    using override_covers_every_target [OF o' sample_canonical _ sample_distinct] o'
    by (auto simp: sample_service_def sample_override_def)
qed

definition sample_creation :: CreateSignalInput where
  "sample_creation = \<lparr>CS_MatchID = ''m2'', CS_CveID = ''CVE-2024-1'', CS_Factors = ex_factors, CS_CorrelationID = '''',
     CS_Actor = \<lparr>Act_Type = ''system'', Act_ID = ''matching'', Act_DisplayName = ''''\<rparr>\<rparr>"

lemma create_signal_commits_whole_witness:
  "length (db_clocks (snd (CreateSignal sample_service sample_env sample_creation sample_db))) =
     length (Targets DefaultSLATimeProfile (ch93_priority ex_factors))"
proof -
  have "is_ok (fst (CreateSignal sample_service sample_env sample_creation sample_db))" by code_simp
  then obtain s cid db' where c: "CreateSignal sample_service sample_env sample_creation sample_db = (Ok (s, cid), db')"
    by (cases "CreateSignal sample_service sample_env sample_creation sample_db") (auto simp: is_ok_iff)
  have "sv_uuid sample_service (en_signal_id sample_env) = Some (en_signal_id sample_env)"
    "\<forall>r\<in>set (db_clocks sample_db). SCR_SignalID r \<noteq> en_signal_id sample_env"
    by (simp_all add: sample_service_def sample_env_def sample_db_def)
  from create_signal_commits_whole [OF c this] show ?thesis
    using c by (auto simp: sample_db_def sample_service_def sample_creation_def)
qed

text \<open>A closed signal with the clock of its priority.\<close>

definition sample_closed :: Db where
  "sample_closed = sample_db\<lparr>
     db_signals := [sample_signal\<lparr>SR_Status := SignalStatusNotAffected, SR_ClosedAt := Some 3000, SR_Version := 2\<rparr>],
     db_clocks := [\<lparr>SCR_ID = ''k'', SCR_SignalID = ''s1'', SCR_Target = SLATargetAssessment, SCR_StartedAt = 1000,
       SCR_DeadlineAt = 9000, SCR_FulfilledAt = Some 3000, SCR_PausedSeconds = 0, SCR_PausedAt = None\<rparr>]\<rparr>"

lemma reopen_restarts_every_clock_witness:
  "\<exists>s db' r. TransitionSignal sample_service sample_env (sample_transition SignalStatusInReview 2) sample_closed sample_closed = (Ok s, db') \<and>
     row_at row_key (''s1'', SLATargetAssessment) (db_clocks db') = Some r \<and> SCR_FulfilledAt r = None"
proof -
  have "is_ok (fst (TransitionSignal sample_service sample_env (sample_transition SignalStatusInReview 2) sample_closed sample_closed))"
    by code_simp
  then obtain s db' where t: "TransitionSignal sample_service sample_env (sample_transition SignalStatusInReview 2) sample_closed sample_closed = (Ok s, db')"
    by (cases "TransitionSignal sample_service sample_env (sample_transition SignalStatusInReview 2) sample_closed sample_closed") (auto simp: is_ok_iff)
  let ?cur = "riskSignalFromRow (sample_signal\<lparr>SR_Status := SignalStatusNotAffected, SR_ClosedAt := Some 3000, SR_Version := 2\<rparr>)"
  have h: "clocks_ok (db_clocks sample_closed)" "distinct (map SR_ID (db_signals sample_closed))"
    "SignalRepo_GetRiskSignal (sv_uuid sample_service) ''s1'' (db_signals sample_closed) = Ok ?cur"
    "IsReopen (Sig_Status ?cur) SignalStatusInReview"
    by (simp_all add: sample_closed_def clocks_ok_def clock_row_ok_def max_int64_def SignalRepo_GetRiskSignal_def with_uuid_def
        sample_service_def GetRiskSignalByID_def select_row_def sample_signal_def IsReopen_def CanTransition_edges)
  have "SLATargetAssessment \<in> set (Targets (sv_profile sample_service) PriorityP4)"
    "is_ok (fst (TransitionSignal sample_service sample_env (sample_transition SignalStatusInReview 2) sample_closed sample_closed)) \<and>
     (case fst (TransitionSignal sample_service sample_env (sample_transition SignalStatusInReview 2) sample_closed sample_closed) of
        Inl _ \<Rightarrow> False | Inr s \<Rightarrow> Sig_Priority s = PriorityP4)" by code_simp+
  then have "SLATargetAssessment \<in> set (Targets (sv_profile sample_service) (Sig_Priority s))" using t by simp
  then show ?thesis
    using reopen_restarts_every_clock [OF t sample_canonical h(1,2), of ?cur] h(3,4) t
    by (auto simp: sample_transition_def sample_service_def restarted_def)
qed

text \<open>A closed signal is acknowledged: it is open again, without a reason and with the clock it had met still met, where
  the transition to review asks for the reason and restarts the clock.\<close>

lemma acknowledge_reopens_a_closed_signal:
  "(case AcknowledgeSignal sample_service sample_env
       \<lparr>AK_SignalID = ''s1'', AK_ExpectedVersion = 2, AK_Actor = sample_actor, AK_CorrelationID = ''c''\<rparr> sample_closed sample_closed of
     (Inl _, _) \<Rightarrow> False
   | (Inr s, db') \<Rightarrow> Sig_Status s = SignalStatusInReview \<and> map SCR_FulfilledAt (db_clocks db') = [Some 3000])"
  by code_simp

end
