(* ===== verification/SlaEvaluate.thy ===== *)
theory SlaEvaluate
  imports ClockTreatment
begin

text \<open>
  The evaluation of breached clocks (internal/application/sla_evaluate.go): the pass over the due
  acknowledgement clocks that escalates an unacknowledged P1 signal once and then reminds of it,
  once in every window of the cadence. Each write is a transaction of its own.
\<close>

section \<open>The pass\<close>

definition EventTypeSignalEscalated :: string where "EventTypeSignalEscalated = ''signal.escalated''"
definition EventTypeSignalReminder :: string where "EventTypeSignalReminder = ''reminder''"
definition ActorSLAEvaluator :: string where "ActorSLAEvaluator = ''sla-evaluator''"

record SlaEvaluateResult =
  Res_Due :: nat
  Res_Escalated :: nat
  Res_Reminders :: nat

definition slaEvaluatorActor :: Actor where
  "slaEvaluatorActor = \<lparr>Act_Type = ActorTypeSystem, Act_ID = ActorSLAEvaluator, Act_DisplayName = ''''\<rparr>"

definition slaEscalationSnapshot :: "Service \<Rightarrow> string \<Rightarrow> RiskSignal \<Rightarrow> SlaClock \<Rightarrow> time \<Rightarrow> app_error + string" where
  "slaEscalationSnapshot sv op s clock now =
     marshal sv op
       [jtext ''id'' (Sig_ID s), jtext ''status'' (SignalStatus_str (Sig_Status s)),
        jtext ''priority'' (Priority_str (Sig_Priority s)), jtext ''target'' (SLATarget_str (Clk_Target clock)),
        jtime sv ''deadline_at'' (EffectiveDeadline clock now), jtime sv ''escalated_at'' now]"

definition slaReminderSnapshot :: "Service \<Rightarrow> string \<Rightarrow> RiskSignal \<Rightarrow> SlaClock \<Rightarrow> int \<Rightarrow> time \<Rightarrow> app_error + string" where
  "slaReminderSnapshot sv op s clock index now =
     marshal sv op
       [jtext ''id'' (Sig_ID s), jtext ''status'' (SignalStatus_str (Sig_Status s)),
        jtext ''priority'' (Priority_str (Sig_Priority s)), jtext ''target'' (SLATarget_str (Clk_Target clock)),
        jtime sv ''deadline_at'' (EffectiveDeadline clock now), jtime sv ''escalated_at'' (Sig_EscalatedAt s),
        jint ''reminder_index'' index]"

text \<open>The payload of both events; the tag \<open>omitempty\<close> never omits an instant.\<close>

definition slaEvaluationPayload ::
  "Service \<Rightarrow> Env \<Rightarrow> string \<Rightarrow> string \<Rightarrow> RiskSignal \<Rightarrow> SlaClock \<Rightarrow> time \<Rightarrow> int \<Rightarrow> time \<Rightarrow> string \<Rightarrow> app_error + string" where
  "slaEvaluationPayload sv en op evt s clock escalatedAt index now correlationID =
     marshal sv op
       [jtext ''event_id'' (en_event_id en), jtext ''type'' evt, jtext ''signal_id'' (Sig_ID s),
        jtext ''priority'' (Priority_str (Sig_Priority s)), jtext ''target'' (SLATarget_str (Clk_Target clock)),
        jtime sv ''deadline_at'' (EffectiveDeadline clock now), jtime sv ''escalated_at'' escalatedAt,
        (if index = 0 then [] else jint ''reminder_index'' index),
        jtime sv ''occurred_at'' now, jtext ''correlation_id'' correlationID]"

definition outbox_event :: "string \<Rightarrow> string \<Rightarrow> string \<Rightarrow> time \<Rightarrow> OutboxEvent" where
  "outbox_event evt payload key now =
     \<lparr>OE_Type = evt, OE_Payload = payload, OE_DedupeKey = key, OE_AvailableAt = now, OE_CreatedAt = now\<rparr>"

definition escalation_key :: "string \<Rightarrow> string" where
  "escalation_key uid = EventTypeSignalEscalated @ '':'' @ uid"

definition escalateSignal ::
  "Service \<Rightarrow> Env \<Rightarrow> string \<Rightarrow> RiskSignal \<Rightarrow> SlaClock \<Rightarrow> time \<Rightarrow> Db \<Rightarrow> (app_error + bool) \<times> Db" where
  "escalateSignal sv en op s clock now =
     (let correlationID = correlationOrNew en '''' in
      runTx
        (tx_bind (on_signals (SignalRepo_MarkEscalated (sv_uuid sv) (Sig_ID s) now)) (\<lambda>changed.
         if \<not> changed then tx_return False
         else
           tx_bind (tx_lift (slaEscalationSnapshot sv op s clock now)) (\<lambda>after.
           tx_bind (appendSignalAudit sv EventTypeSignalEscalated (Sig_ID s) slaEvaluatorActor correlationID now '''' after) (\<lambda>_.
           tx_bind (tx_lift (slaEvaluationPayload sv en op EventTypeSignalEscalated s clock now 0 now correlationID)) (\<lambda>payload.
           tx_bind (outbox_Append (en_outbox_id en)
             (outbox_event EventTypeSignalEscalated payload (escalation_key (Sig_ID s)) now)) (\<lambda>_.
           tx_return True)))))))"

definition outbox_ExistsDedupeKey :: "string \<Rightarrow> Db \<Rightarrow> app_error + bool \<times> Db" where
  "outbox_ExistsDedupeKey key db = Ok (ExistsDedupeKey key (db_outbox db), db)"

definition reminder_key :: "string \<Rightarrow> int \<Rightarrow> string" where
  "reminder_key uid index = EventTypeSignalReminder @ '':'' @ uid @ '':'' @ int_text index"

definition remindEscalatedSignal ::
  "Service \<Rightarrow> Env \<Rightarrow> string \<Rightarrow> RiskSignal \<Rightarrow> SlaClock \<Rightarrow> time \<Rightarrow> Db \<Rightarrow> (app_error + bool) \<times> Db" where
  "remindEscalatedSignal sv en op s clock now db =
     (let cadence = sv_cadence sv; elapsed = time_Sub now (Sig_EscalatedAt s) in
      if cadence \<le> 0 \<or> time_IsZero (Sig_EscalatedAt s) then (Ok False, db)
      else if elapsed < cadence then (Ok False, db)
      else
        (let index = trunc_div elapsed cadence; dedupeKey = reminder_key (Sig_ID s) index;
             correlationID = correlationOrNew en '''' in
         runTx
           (tx_bind (outbox_ExistsDedupeKey dedupeKey) (\<lambda>exists.
            if exists then tx_return False
            else
              tx_bind (tx_lift (slaReminderSnapshot sv op s clock index now)) (\<lambda>after.
              tx_bind (appendSignalAudit sv EventTypeSignalReminder (Sig_ID s) slaEvaluatorActor correlationID now '''' after) (\<lambda>_.
              tx_bind (tx_lift (slaEvaluationPayload sv en op EventTypeSignalReminder s clock (Sig_EscalatedAt s) index now correlationID)) (\<lambda>payload.
              tx_bind (outbox_Append (en_outbox_id en) (outbox_event EventTypeSignalReminder payload dedupeKey now)) (\<lambda>_.
              tx_return True)))))) db))"

text \<open>One round of the loop: what it adds to the counters.\<close>

definition no_counts :: SlaEvaluateResult where
  "no_counts = \<lparr>Res_Due = 0, Res_Escalated = 0, Res_Reminders = 0\<rparr>"

definition evaluate_clock :: "Service \<Rightarrow> Env \<Rightarrow> time \<Rightarrow> SlaClock \<Rightarrow> Db \<Rightarrow> (app_error + SlaEvaluateResult) \<times> Db" where
  "evaluate_clock sv en now clock db =
     (let op = ''evaluate_sla''; due = no_counts\<lparr>Res_Due := 1\<rparr> in
      if Clk_Target clock \<noteq> SLATargetAcknowledgement then (Ok no_counts, db)
      else
        (case SignalRepo_GetRiskSignal (sv_uuid sv) (Clk_SignalID clock) (db_signals db) of
           Inl (AppError kind at_op) \<Rightarrow> if kind = KindNotFound then (Ok due, db) else (Err (AppError kind at_op), db)
         | Inl (ForeignError m) \<Rightarrow> (Err (ForeignError m), db)
         | Inr s \<Rightarrow>
             if Sig_Priority s \<noteq> PriorityP1 \<or> Sig_Status s \<noteq> SignalStatusNew then (Ok due, db)
             else if time_IsZero (Sig_EscalatedAt s) then
               (case escalateSignal sv en op s clock now db of
                  (Inl e, db') \<Rightarrow> (Err e, db')
                | (Inr escalated, db') \<Rightarrow> (Ok (due\<lparr>Res_Escalated := (if escalated then 1 else 0)\<rparr>), db'))
             else
               (case remindEscalatedSignal sv en op s clock now db of
                  (Inl e, db') \<Rightarrow> (Err e, db')
                | (Inr reminded, db') \<Rightarrow> (Ok (due\<lparr>Res_Reminders := (if reminded then 1 else 0)\<rparr>), db'))))"

definition add_counts :: "SlaEvaluateResult \<Rightarrow> SlaEvaluateResult \<Rightarrow> SlaEvaluateResult" where
  "add_counts a b = \<lparr>Res_Due = Res_Due a + Res_Due b, Res_Escalated = Res_Escalated a + Res_Escalated b,
     Res_Reminders = Res_Reminders a + Res_Reminders b\<rparr>"

text \<open>The loop; each round draws identifiers of its own, and what earlier rounds wrote stays if a later
  one fails.\<close>

fun evaluate_loop ::
  "Service \<Rightarrow> (nat \<Rightarrow> Env) \<Rightarrow> time \<Rightarrow> nat \<Rightarrow> SlaClock list \<Rightarrow> SlaEvaluateResult \<Rightarrow> Db \<Rightarrow> (app_error + SlaEvaluateResult) \<times> Db" where
  "evaluate_loop sv ens now i [] res db = (Ok res, db)"
| "evaluate_loop sv ens now i (clock # due) res db =
     (case evaluate_clock sv (ens i) now clock db of
        (Inl e, db') \<Rightarrow> (Err e, db')
      | (Inr counts, db') \<Rightarrow> evaluate_loop sv ens now (Suc i) due (add_counts res counts) db')"

text \<open>\<open>scan_now\<close> is the clock of the database, \<open>now\<close> that of the service.\<close>

definition EvaluateSla :: "Service \<Rightarrow> (nat \<Rightarrow> Env) \<Rightarrow> time \<Rightarrow> time \<Rightarrow> Db \<Rightarrow> (app_error + SlaEvaluateResult) \<times> Db" where
  "EvaluateSla sv ens scan_now now db =
     evaluate_loop sv ens now 0 (SlaClockRepo_Due scan_now (db_clocks db)) no_counts db"

section \<open>What a round does\<close>

text \<open>A round passes, escalates, or reminds.\<close>

inductive evaluate_round :: "Service \<Rightarrow> time \<Rightarrow> SlaClock \<Rightarrow> SlaEvaluateResult \<Rightarrow> Db \<Rightarrow> Db \<Rightarrow> bool" for sv now clock where
  pass: "Res_Escalated c = 0 \<Longrightarrow> Res_Reminders c = 0 \<Longrightarrow> evaluate_round sv now clock c db db"
| escalate:
    "\<lbrakk>Clk_Target clock = SLATargetAcknowledgement; sv_uuid sv (Clk_SignalID clock) = Some uid;
      SR_ID r = uid; SR_Priority r = PriorityP1; SR_Status r = SignalStatusNew; SR_EscalatedAt r = None;
      signal_written uid r (r\<lparr>SR_EscalatedAt := Some (pg_time now), SR_Version := SR_Version r + 1\<rparr>) (db_signals db) rows;
      SR_Version r + 1 \<le> max_int32;
      Ev_Action ev = EventTypeSignalEscalated; Ev_AggregateID ev = uid; Ob_Type out = EventTypeSignalEscalated;
      Ob_DedupeKey out = escalation_key uid; Ob_DedupeKey out \<notin> Ob_DedupeKey ` set (db_outbox db);
      Res_Escalated c = 1; Res_Reminders c = 0\<rbrakk> \<Longrightarrow>
     evaluate_round sv now clock c db
       (db\<lparr>db_signals := rows, db_audit := db_audit db @ [ev], db_outbox := db_outbox db @ [out]\<rparr>)"
| remind:
    "\<lbrakk>Clk_Target clock = SLATargetAcknowledgement; sv_uuid sv (Clk_SignalID clock) = Some uid;
      row_at SR_ID uid (db_signals db) = Some r; SR_Priority r = PriorityP1; SR_Status r = SignalStatusNew;
      SR_EscalatedAt r = Some t; 0 < sv_cadence sv; sv_cadence sv \<le> time_Sub now t;
      Ev_Action ev = EventTypeSignalReminder; Ev_AggregateID ev = uid; Ob_Type out = EventTypeSignalReminder;
      Ob_DedupeKey out = reminder_key uid (time_Sub now t div sv_cadence sv);
      Ob_DedupeKey out \<notin> Ob_DedupeKey ` set (db_outbox db); Res_Escalated c = 0; Res_Reminders c = 1\<rbrakk> \<Longrightarrow>
     evaluate_round sv now clock c db (db\<lparr>db_audit := db_audit db @ [ev], db_outbox := db_outbox db @ [out]\<rparr>)"

inductive_cases evaluate_roundE: "evaluate_round sv now clock c db db'"

lemma GetRiskSignal_row:
  "SignalRepo_GetRiskSignal U ident rows = Inr s \<longleftrightarrow>
     (\<exists>uid r. U ident = Some uid \<and> row_at SR_ID uid rows = Some r \<and> s = riskSignalFromRow r)"
  by (auto simp: SignalRepo_GetRiskSignal_def result_simps GetRiskSignalByID_def row_at_def)

lemma riskSignalFromRow_escalated [simp]: "Sig_EscalatedAt (riskSignalFromRow r) = tsTime (SR_EscalatedAt r)"
  by (simp add: riskSignalFromRow_def)

lemma ExistsDedupeKey_iff: "ExistsDedupeKey key rows \<longleftrightarrow> key \<in> Ob_DedupeKey ` set rows"
  by (auto simp: ExistsDedupeKey_def list_ex_iff)

lemma MarkEscalated_ok:
  assumes "SignalRepo_MarkEscalated U ident now rows = Inr (changed, rows')" "U ident = Some uid" "distinct (map SR_ID rows)"
  shows "if changed
    then \<exists>r. SR_EscalatedAt r = None \<and> SR_ID r = uid \<and> SR_Version r + 1 \<le> max_int32 \<and>
      signal_written uid r (r\<lparr>SR_EscalatedAt := Some (pg_time now), SR_Version := SR_Version r + 1\<rparr>) rows rows'
    else rows' = rows \<and> (\<forall>r. row_at SR_ID uid rows = Some r \<longrightarrow> SR_EscalatedAt r \<noteq> None)"
proof (cases "MarkRiskSignalEscalated (pg_time now) uid rows")
  case (Inl e)
  then have e: "e = NoRows" "\<not> changed" "rows' = rows"
    using assms(1,2) by (auto simp: SignalRepo_MarkEscalated_def with_uuid_def split: if_splits)
  have "SR_EscalatedAt r \<noteq> None" if "row_at SR_ID uid rows = Some r" for r
  proof
    assume "SR_EscalatedAt r = None"
    then have "update_row (\<lambda>r. SR_ID r = uid \<and> SR_EscalatedAt r = None) (\<lambda>r. bump (r\<lparr>SR_EscalatedAt := Some (pg_time now)\<rparr>)) rows
        = rbind (bump (r\<lparr>SR_EscalatedAt := Some (pg_time now)\<rparr>))
            (\<lambda>r'. Ok (r', map (\<lambda>x. if SR_ID x = uid \<and> SR_EscalatedAt x = None then r' else x) rows))"
      using escalate_row.update_hit [OF assms(3) that] row_at_Some [OF that] by simp
    then show False using Inl e(1) by (simp add: MarkRiskSignalEscalated_def bump_def split: if_splits)
  qed
  then show ?thesis using e by simp
next
  case (Inr res)
  then obtain r' where r': "MarkRiskSignalEscalated (pg_time now) uid rows = Inr (r', rows')" "changed"
    using assms(1,2) by (cases res) (auto simp: SignalRepo_MarkEscalated_def with_uuid_def split: if_splits)
  from signal_update_written [OF escalate_row.guarded_update_axioms assms(3) r'(1) [unfolded MarkRiskSignalEscalated_def]] r'(2)
  show ?thesis by (auto simp: bump_Ok)
qed

lemma escalateSignal_ok:
  assumes "escalateSignal sv en op (riskSignalFromRow r) clock now db = (Ok escalated, db')" "canonical (sv_uuid sv)"
    "distinct (map SR_ID (db_signals db))" "row_at SR_ID uid (db_signals db) = Some r" "sv_uuid sv i = Some uid"
  shows "if escalated
    then SR_EscalatedAt r = None \<and> SR_Version r + 1 \<le> max_int32 \<and> (\<exists>rows ev out.
      signal_written uid r (r\<lparr>SR_EscalatedAt := Some (pg_time now), SR_Version := SR_Version r + 1\<rparr>) (db_signals db) rows \<and>
      db' = db\<lparr>db_signals := rows, db_audit := db_audit db @ [ev], db_outbox := db_outbox db @ [out]\<rparr> \<and>
      Ev_Action ev = EventTypeSignalEscalated \<and> Ev_AggregateID ev = uid \<and> Ob_Type out = EventTypeSignalEscalated \<and>
      Ob_DedupeKey out = escalation_key uid \<and> Ob_DedupeKey out \<notin> Ob_DedupeKey ` set (db_outbox db))
    else db' = db \<and> SR_EscalatedAt r \<noteq> None"
proof -
  have rid: "SR_ID r = uid" using row_at_Some [OF assms(4)] by simp
  have uu: "sv_uuid sv uid = Some uid" using assms(2,5) by (auto simp: canonical_def)
  let ?s = "riskSignalFromRow r" and ?cid = "correlationOrNew en ''''"
  obtain changed rows where m: "SignalRepo_MarkEscalated (sv_uuid sv) uid now (db_signals db) = Inr (changed, rows)"
    "(if \<not> changed then tx_return False
      else tx_bind (tx_lift (slaEscalationSnapshot sv op ?s clock now)) (\<lambda>after.
           tx_bind (appendSignalAudit sv EventTypeSignalEscalated (Sig_ID ?s) slaEvaluatorActor ?cid now '''' after) (\<lambda>_.
           tx_bind (tx_lift (slaEvaluationPayload sv en op EventTypeSignalEscalated ?s clock now 0 now ?cid)) (\<lambda>payload.
           tx_bind (outbox_Append (en_outbox_id en)
             (outbox_event EventTypeSignalEscalated payload (escalation_key (Sig_ID ?s)) now)) (\<lambda>_.
           tx_return True))))) (db\<lparr>db_signals := rows\<rparr>) = Inr (escalated, db')"
    using assms(1) unfolding escalateSignal_def Let_def runTx_Ok_iff tx_bind_Ok_iff [of "on_signals _"] on_signals_Ok_iff
    by (auto simp: rid)
  note w = MarkEscalated_ok [OF m(1) uu assms(3)]
  show ?thesis
  proof (cases changed)
    case False
    then show ?thesis using m(2) w assms(4) by (auto simp: tx_return_Ok_iff)
  next
    case True
    obtain after payload db1 where b: "appendSignalAudit sv EventTypeSignalEscalated (Sig_ID ?s) slaEvaluatorActor ?cid now '''' after (db\<lparr>db_signals := rows\<rparr>) = Inr ((), db1)"
      "outbox_Append (en_outbox_id en) (outbox_event EventTypeSignalEscalated payload (escalation_key (Sig_ID ?s)) now) db1 = Inr ((), db')" "escalated"
      using m(2) True by (simp add: tx_bind_Ok_iff tx_lift_Ok_iff tx_return_Ok_iff) blast
    obtain ev where ev: "db1 = db\<lparr>db_signals := rows, db_audit := db_audit db @ [ev]\<rparr>" "Ev_Action ev = EventTypeSignalEscalated" "Ev_AggregateID ev = uid"
      using b(1) rid by (auto simp: appendSignalAudit_Ok)
    obtain out where out: "db' = db1\<lparr>db_outbox := db_outbox db1 @ [out]\<rparr>" "Ob_Type out = EventTypeSignalEscalated"
      "Ob_DedupeKey out = escalation_key uid" "Ob_DedupeKey out \<notin> Ob_DedupeKey ` set (db_outbox db1)"
      using b(2) rid by (auto simp: outbox_Append_Ok_iff OutboxRepo_Append_Ok outbox_event_def)
    obtain r0 where r0: "SR_EscalatedAt r0 = None" "SR_Version r0 + 1 \<le> max_int32"
      "signal_written uid r0 (r0\<lparr>SR_EscalatedAt := Some (pg_time now), SR_Version := SR_Version r0 + 1\<rparr>) (db_signals db) rows"
      using w True by auto
    have "r0 = r" using r0(3) assms(4) by (simp add: signal_written_def)
    then show ?thesis
      using r0 ev b(3) out by (simp, intro exI [of _ rows] exI [of _ ev] exI [of _ out] conjI) simp_all
  qed
qed

lemma tx_bind_exists: "tx_bind (outbox_ExistsDedupeKey key) f db = f (ExistsDedupeKey key (db_outbox db)) db"
  by (simp add: tx_bind_def outbox_ExistsDedupeKey_def)

lemma remindEscalatedSignal_ok:
  assumes "remindEscalatedSignal sv en op (riskSignalFromRow r) clock now db = (Ok reminded, db')" "SR_ID r = uid"
    "SR_EscalatedAt r = Some t" "t \<noteq> 0"
  shows "if reminded
    then 0 < sv_cadence sv \<and> sv_cadence sv \<le> time_Sub now t \<and> (\<exists>ev out.
      db' = db\<lparr>db_audit := db_audit db @ [ev], db_outbox := db_outbox db @ [out]\<rparr> \<and>
      Ev_Action ev = EventTypeSignalReminder \<and> Ev_AggregateID ev = uid \<and> Ob_Type out = EventTypeSignalReminder \<and>
      Ob_DedupeKey out = reminder_key uid (time_Sub now t div sv_cadence sv) \<and>
      Ob_DedupeKey out \<notin> Ob_DedupeKey ` set (db_outbox db))
    else db' = db \<and> (sv_cadence sv \<le> 0 \<or> time_Sub now t < sv_cadence sv \<or>
      reminder_key uid (time_Sub now t div sv_cadence sv) \<in> Ob_DedupeKey ` set (db_outbox db))"
proof (cases "sv_cadence sv \<le> 0 \<or> time_Sub now t < sv_cadence sv")
  case True
  then show ?thesis using assms by (auto simp: remindEscalatedSignal_def Let_def time_IsZero_def split: if_splits)
next
  case False
  let ?s = "riskSignalFromRow r" and ?cid = "correlationOrNew en ''''"
  define index where "index = trunc_div (time_Sub now t) (sv_cadence sv)"
  have idx: "index = time_Sub now t div sv_cadence sv" using False by (simp add: index_def trunc_div_nonneg)
  have run: "(if ExistsDedupeKey (reminder_key uid index) (db_outbox db) then tx_return False
     else tx_bind (tx_lift (slaReminderSnapshot sv op ?s clock index now)) (\<lambda>after.
          tx_bind (appendSignalAudit sv EventTypeSignalReminder uid slaEvaluatorActor ?cid now '''' after) (\<lambda>_.
          tx_bind (tx_lift (slaEvaluationPayload sv en op EventTypeSignalReminder ?s clock t index now ?cid)) (\<lambda>payload.
          tx_bind (outbox_Append (en_outbox_id en) (outbox_event EventTypeSignalReminder payload (reminder_key uid index) now)) (\<lambda>_.
          tx_return True))))) db = Inr (reminded, db')"
    using assms False
    by (auto simp: remindEscalatedSignal_def Let_def time_IsZero_def runTx_Ok_iff tx_bind_exists index_def)
  show ?thesis
  proof (cases "ExistsDedupeKey (reminder_key uid index) (db_outbox db)")
    case True
    then show ?thesis using run idx by (simp add: tx_return_Ok_iff ExistsDedupeKey_iff)
  next
    case new: False
    obtain after payload db1 where b: "appendSignalAudit sv EventTypeSignalReminder uid slaEvaluatorActor ?cid now '''' after db = Inr ((), db1)"
      "outbox_Append (en_outbox_id en) (outbox_event EventTypeSignalReminder payload (reminder_key uid index) now) db1 = Inr ((), db')" "reminded"
      using run new by (simp add: tx_bind_Ok_iff tx_lift_Ok_iff tx_return_Ok_iff) blast
    obtain ev where ev: "db1 = db\<lparr>db_audit := db_audit db @ [ev]\<rparr>" "Ev_Action ev = EventTypeSignalReminder" "Ev_AggregateID ev = uid"
      using b(1) by (auto simp: appendSignalAudit_Ok)
    obtain out where "db' = db1\<lparr>db_outbox := db_outbox db1 @ [out]\<rparr>" "Ob_Type out = EventTypeSignalReminder"
      "Ob_DedupeKey out = reminder_key uid index" "Ob_DedupeKey out \<notin> Ob_DedupeKey ` set (db_outbox db1)"
      using b(2) by (auto simp: outbox_Append_Ok_iff OutboxRepo_Append_Ok outbox_event_def)
    then show ?thesis
      using ev b(3) idx False by (simp, intro exI [of _ ev] exI [of _ out] conjI) simp_all
  qed
qed

text \<open>No instant of escalation is the zero time.\<close>

definition escalations_ok :: "signals \<Rightarrow> bool" where
  "escalations_ok rows \<longleftrightarrow> distinct (map SR_ID rows) \<and> (\<forall>r\<in>set rows. SR_EscalatedAt r \<noteq> Some 0)"

lemma evaluate_clock_round:
  assumes "evaluate_clock sv en now clock db = (Ok c, db')" "canonical (sv_uuid sv)" "escalations_ok (db_signals db)"
  shows "evaluate_round sv now clock c db db'"
proof (cases "Clk_Target clock = SLATargetAcknowledgement")
  case False
  then show ?thesis using assms(1) by (auto simp: evaluate_clock_def no_counts_def intro: evaluate_round.pass)
next
  case ack: True
  show ?thesis
  proof (cases "SignalRepo_GetRiskSignal (sv_uuid sv) (Clk_SignalID clock) (db_signals db)")
    case (Inl e)
    then show ?thesis using assms(1) ack
      by (cases e) (auto simp: evaluate_clock_def no_counts_def Let_def intro!: evaluate_round.pass split: if_splits)
  next
    case (Inr s)
    then obtain uid r where r: "sv_uuid sv (Clk_SignalID clock) = Some uid" "row_at SR_ID uid (db_signals db) = Some r"
      "s = riskSignalFromRow r" by (auto simp: GetRiskSignal_row)
    note rid = row_at_Some [OF r(2)]
    have dis: "distinct (map SR_ID (db_signals db))" using assms(3) by (simp add: escalations_ok_def)
    show ?thesis
    proof (cases "SR_Priority r = PriorityP1 \<and> SR_Status r = SignalStatusNew")
      case False
      then show ?thesis using assms(1) ack Inr r(3)
        by (auto simp: evaluate_clock_def no_counts_def Let_def intro!: evaluate_round.pass)
    next
      case new: True
      show ?thesis
      proof (cases "SR_EscalatedAt r")
        case None
        then obtain escalated where e: "escalateSignal sv en ''evaluate_sla'' (riskSignalFromRow r) clock now db = (Ok escalated, db')"
          "Res_Escalated c = (if escalated then 1 else 0)" "Res_Reminders c = 0"
          using assms(1) ack Inr r(3) new
          by (auto simp: evaluate_clock_def no_counts_def Let_def time_IsZero_def split: prod.splits sum.splits)
        from escalateSignal_ok [OF e(1) assms(2) dis r(2,1)] e(2,3) None ack r(1) rid new
        show ?thesis by (cases escalated) (auto intro: evaluate_round.intros)
      next
        case (Some t)
        then have t: "t \<noteq> 0" using assms(3) rid by (auto simp: escalations_ok_def)
        then obtain reminded where e: "remindEscalatedSignal sv en ''evaluate_sla'' (riskSignalFromRow r) clock now db = (Ok reminded, db')"
          "Res_Escalated c = 0" "Res_Reminders c = (if reminded then 1 else 0)"
          using assms(1) ack Inr r(3) new Some
          by (auto simp: evaluate_clock_def no_counts_def Let_def time_IsZero_def split: prod.splits sum.splits)
        from remindEscalatedSignal_ok [OF e(1) _ Some t, of uid] e(2,3) Some ack r(1,2) rid new
        show ?thesis by (cases reminded) (auto intro: evaluate_round.intros)
      qed
    qed
  qed
qed

section \<open>What a pass does\<close>

inductive evaluate_pass :: "Service \<Rightarrow> time \<Rightarrow> Db \<Rightarrow> Db \<Rightarrow> bool" for sv now where
  stop: "evaluate_pass sv now db db"
| go_on: "evaluate_round sv now clock c db db1 \<Longrightarrow> evaluate_pass sv now db1 db' \<Longrightarrow> evaluate_pass sv now db db'"

lemma written_escalations_ok:
  assumes "escalations_ok rows" "signal_written uid r (r\<lparr>SR_EscalatedAt := Some t, SR_Version := v\<rparr>) rows rows'" "t \<noteq> 0" "SR_ID r = uid"
  shows "escalations_ok rows'"
proof -
  have m: "map SR_ID rows' = map SR_ID rows" using assms(2) by (simp add: signal_written_def)
  then have d: "distinct (map SR_ID rows')" using assms(1) by (simp add: escalations_ok_def)
  have "SR_EscalatedAt x \<noteq> Some 0" if "x \<in> set rows'" for x
  proof -
    have "row_at SR_ID (SR_ID x) rows' = Some x" using row_at_unique [OF d that] .
    then have "x = r\<lparr>SR_EscalatedAt := Some t, SR_Version := v\<rparr> \<or> row_at SR_ID (SR_ID x) rows = Some x"
      using assms(2) by (auto simp: signal_written_def split: if_splits)
    then show ?thesis using assms(1,3) row_at_Some [of SR_ID _ rows x] by (auto simp: escalations_ok_def)
  qed
  with d show ?thesis by (simp add: escalations_ok_def)
qed

lemma evaluate_round_ok:
  assumes "evaluate_round sv now clock c db db'" "escalations_ok (db_signals db)" "time_Micro \<le> now"
  shows "escalations_ok (db_signals db')" "db_clocks db' = db_clocks db"
  using assms(1) pg_time_pos [OF assms(3)] written_escalations_ok [OF assms(2)]
  by (cases rule: evaluate_round.cases; use assms(2) in simp)+

lemma evaluate_clock_Err:
  assumes "evaluate_clock sv en now clock db = (Err e, db')"
  shows "db' = db"
  using assms
  by (auto simp: evaluate_clock_def Let_def escalateSignal_def remindEscalatedSignal_def dest: runTx_Err
      split: if_splits sum.splits app_error.splits prod.splits)

lemma evaluate_loop_pass:
  assumes "evaluate_loop sv ens now i due res db = (out, db')" "canonical (sv_uuid sv)" "escalations_ok (db_signals db)" "time_Micro \<le> now"
  shows "evaluate_pass sv now db db'"
  using assms(1,3)
proof (induction due arbitrary: i res db)
  case Nil
  then show ?case by (simp add: evaluate_pass.stop)
next
  case (Cons clock due)
  show ?case
  proof (cases "evaluate_clock sv (ens i) now clock db")
    case (Pair o1 db1)
    show ?thesis
    proof (cases o1)
      case (Inl e)
      then have "db' = db" using Cons.prems(1) Pair evaluate_clock_Err [of sv "ens i" now clock db e db1] by simp
      then show ?thesis by (simp add: evaluate_pass.stop)
    next
      case (Inr c)
      have r: "evaluate_round sv now clock c db db1"
        using evaluate_clock_round [OF _ assms(2) Cons.prems(2)] Pair Inr by simp
      have "evaluate_pass sv now db1 db'"
        by (rule Cons.IH) (use Cons.prems Pair Inr evaluate_round_ok [OF r _ assms(4)] in simp_all)
      with r show ?thesis by (rule evaluate_pass.go_on)
    qed
  qed
qed

lemma escalation_key_inj [simp]: "escalation_key a = escalation_key b \<longleftrightarrow> a = b"
  by (simp add: escalation_key_def)

lemma reminder_no_escalation [simp]: "reminder_key a k \<noteq> escalation_key b" "escalation_key b \<noteq> reminder_key a k"
  by (simp_all add: reminder_key_def escalation_key_def EventTypeSignalReminder_def EventTypeSignalEscalated_def)

text \<open>The fate of one signal in a pass.\<close>

definition escalated_now :: "time \<Rightarrow> SignalRow \<Rightarrow> SignalRow" where
  "escalated_now now r = r\<lparr>SR_EscalatedAt := Some (pg_time now), SR_Version := SR_Version r + 1\<rparr>"

definition escalation_fate :: "time \<Rightarrow> string \<Rightarrow> Db \<Rightarrow> Db \<Rightarrow> bool" where
  "escalation_fate now uid db db' \<longleftrightarrow>
     (if escalation_key uid \<in> Ob_DedupeKey ` set (db_outbox db) \<longleftrightarrow> escalation_key uid \<in> Ob_DedupeKey ` set (db_outbox db')
      then row_at SR_ID uid (db_signals db') = row_at SR_ID uid (db_signals db)
      else \<exists>r. row_at SR_ID uid (db_signals db) = Some r \<and> SR_Priority r = PriorityP1 \<and> SR_Status r = SignalStatusNew \<and>
        SR_EscalatedAt r = None \<and> row_at SR_ID uid (db_signals db') = Some (escalated_now now r))"

lemma evaluate_pass_grows: "evaluate_pass sv now db db' \<Longrightarrow> set (db_outbox db) \<subseteq> set (db_outbox db') \<and> db_clocks db' = db_clocks db"
proof (induction rule: evaluate_pass.induct)
  case (go_on clock c db db1 db')
  from go_on.hyps(1) go_on.IH show ?case by (cases rule: evaluate_round.cases) auto
qed simp

lemma evaluate_pass_fate:
  "evaluate_pass sv now db db' \<Longrightarrow> escalation_fate now uid db db'"
proof (induction rule: evaluate_pass.induct)
  case (stop db)
  then show ?case by (simp add: escalation_fate_def)
next
  case (go_on clock c db db1 db')
  note grows = evaluate_pass_grows [OF go_on.hyps(2)]
  from go_on.hyps(1) show ?case
  proof (cases rule: evaluate_round.cases)
    case pass
    then show ?thesis using go_on.IH by simp
  next
    case (remind uid' r t ev out)
    then show ?thesis using go_on.IH by (auto simp: escalation_fate_def)
  next
    case (escalate uid' r rows ev out)
    show ?thesis
    proof (cases "uid = uid'")
      case True
      have "escalation_key uid \<in> Ob_DedupeKey ` set (db_outbox db1)" using escalate True by auto
      moreover have "escalation_key uid \<notin> Ob_DedupeKey ` set (db_outbox db)" using escalate True by simp
      moreover have "escalation_key uid \<in> Ob_DedupeKey ` set (db_outbox db')" using calculation(1) grows by blast
      ultimately show ?thesis
        using go_on.IH escalate True by (auto simp: escalation_fate_def signal_written_def escalated_now_def)
    next
      case False
      then have "row_at SR_ID uid (db_signals db1) = row_at SR_ID uid (db_signals db)"
        "escalation_key uid \<in> Ob_DedupeKey ` set (db_outbox db1) \<longleftrightarrow> escalation_key uid \<in> Ob_DedupeKey ` set (db_outbox db)"
        using escalate by (auto simp: signal_written_def)
      then show ?thesis using go_on.IH by (auto simp: escalation_fate_def split: if_splits)
    qed
  qed
qed

section \<open>A second pass\<close>

text \<open>A clock is settled when the pass has nothing more to do for it.\<close>

definition settled_row :: "Service \<Rightarrow> time \<Rightarrow> outbox \<Rightarrow> SignalRow \<Rightarrow> bool" where
  "settled_row sv now table r \<longleftrightarrow> (SR_Priority r = PriorityP1 \<and> SR_Status r = SignalStatusNew \<longrightarrow>
     (case SR_EscalatedAt r of
        None \<Rightarrow> False
      | Some t \<Rightarrow> sv_cadence sv \<le> 0 \<or> time_Sub now t < sv_cadence sv \<or>
          reminder_key (SR_ID r) (time_Sub now t div sv_cadence sv) \<in> Ob_DedupeKey ` set table))"

definition clock_settled :: "Service \<Rightarrow> time \<Rightarrow> SlaClock \<Rightarrow> Db \<Rightarrow> bool" where
  "clock_settled sv now clock db \<longleftrightarrow> (Clk_Target clock = SLATargetAcknowledgement \<longrightarrow>
     (\<exists>uid. sv_uuid sv (Clk_SignalID clock) = Some uid \<and>
        (\<forall>r. row_at SR_ID uid (db_signals db) = Some r \<longrightarrow> settled_row sv now (db_outbox db) r)))"

lemma GetRiskSignal_missing:
  "U ident = Some uid \<Longrightarrow> row_at SR_ID uid rows = None \<Longrightarrow>
     SignalRepo_GetRiskSignal U ident rows = Inl (AppError KindNotFound ''signals.get_risk_signal'')"
  by (simp add: SignalRepo_GetRiskSignal_def with_uuid_def GetRiskSignalByID_def select_row_def row_at_def mapDBError_def)

lemma settled_passes:
  assumes "clock_settled sv now clock db" "escalations_ok (db_signals db)"
  shows "\<exists>c. evaluate_clock sv en now clock db = (Ok c, db) \<and> Res_Escalated c = 0 \<and> Res_Reminders c = 0"
proof (cases "Clk_Target clock = SLATargetAcknowledgement")
  case False
  then show ?thesis by (simp add: evaluate_clock_def no_counts_def)
next
  case True
  then obtain uid where u: "sv_uuid sv (Clk_SignalID clock) = Some uid"
    "\<And>r. row_at SR_ID uid (db_signals db) = Some r \<Longrightarrow> settled_row sv now (db_outbox db) r"
    using assms(1) by (auto simp: clock_settled_def)
  show ?thesis
  proof (cases "row_at SR_ID uid (db_signals db)")
    case None
    then show ?thesis using True GetRiskSignal_missing [where U = "sv_uuid sv", OF u(1)] by (simp add: evaluate_clock_def no_counts_def)
  next
    case (Some r)
    have g: "SignalRepo_GetRiskSignal (sv_uuid sv) (Clk_SignalID clock) (db_signals db) = Inr (riskSignalFromRow r)"
      using u(1) Some by (auto simp: GetRiskSignal_row)
    show ?thesis
    proof (cases "SR_Priority r = PriorityP1 \<and> SR_Status r = SignalStatusNew")
      case False
      then show ?thesis using True g by (auto simp: evaluate_clock_def no_counts_def)
    next
      case new: True
      then obtain t where t: "SR_EscalatedAt r = Some t" "sv_cadence sv \<le> 0 \<or> time_Sub now t < sv_cadence sv \<or>
          reminder_key (SR_ID r) (time_Sub now t div sv_cadence sv) \<in> Ob_DedupeKey ` set (db_outbox db)"
        using u(2) [OF Some] by (auto simp: settled_row_def split: option.splits)
      have z: "t \<noteq> 0" using assms(2) row_at_Some [OF Some] t(1) by (auto simp: escalations_ok_def)
      have "remindEscalatedSignal sv en op (riskSignalFromRow r) clock now db = (Ok False, db)" for op
      proof (cases "sv_cadence sv \<le> 0 \<or> time_Sub now t < sv_cadence sv")
        case True
        then show ?thesis using t(1) z by (auto simp: remindEscalatedSignal_def Let_def)
      next
        case False
        then have "trunc_div (time_Sub now t) (sv_cadence sv) = time_Sub now t div sv_cadence sv" by (simp add: trunc_div_nonneg)
        then show ?thesis using False t z
          by (auto simp: remindEscalatedSignal_def Let_def time_IsZero_def runTx_def tx_bind_exists tx_return_def ExistsDedupeKey_iff)
      qed
      then show ?thesis using True g new t(1) z by (simp add: evaluate_clock_def no_counts_def Let_def time_IsZero_def)
    qed
  qed
qed

lemma settled_after:
  assumes "evaluate_round sv now clock c db db'" "Res_Escalated c = 1 \<or> Res_Reminders c = 1"
    "time_Micro \<le> sv_cadence sv" "time_Micro \<le> now"
  shows "clock_settled sv now clock db'"
  using assms(1)
proof (cases rule: evaluate_round.cases)
  case pass
  then show ?thesis using assms(2) by simp
next
  case (escalate uid r rows ev out)
  have "0 \<le> now - pg_time now" "now - pg_time now < time_Micro" using pg_time_le [of now] pg_time_near [of now] by simp_all
  then have "time_Sub now (pg_time now) < sv_cadence sv"
    using assms(3) by (simp add: time_Sub_def sat64_def time_Micro_def)
  then show ?thesis using escalate by (auto simp: clock_settled_def settled_row_def signal_written_def)
next
  case (remind uid r t ev out)
  then have "SR_ID r = uid" using row_at_Some by metis
  then show ?thesis using remind by (auto simp: clock_settled_def settled_row_def)
qed

lemma settled_stays:
  assumes "evaluate_round sv now clock c db db'" "clock_settled sv now other db"
  shows "clock_settled sv now other db'"
proof (cases "Clk_Target other = SLATargetAcknowledgement")
  case True
  then obtain uid where u: "sv_uuid sv (Clk_SignalID other) = Some uid"
    "\<And>r. row_at SR_ID uid (db_signals db) = Some r \<Longrightarrow> settled_row sv now (db_outbox db) r"
    using assms(2) by (auto simp: clock_settled_def)
  have "settled_row sv now (db_outbox db') r" if r: "row_at SR_ID uid (db_signals db') = Some r" for r
    using assms(1)
  proof (cases rule: evaluate_round.cases)
    case pass
    then show ?thesis using u(2) r by simp
  next
    case (escalate uid' r' rows ev out)
    have "uid \<noteq> uid'"
      using u(2) [of r'] escalate by (auto simp: signal_written_def settled_row_def)
    then have "row_at SR_ID uid (db_signals db) = Some r" using r escalate by (simp add: signal_written_def)
    from u(2) [OF this] show ?thesis using escalate(1) by (auto simp: settled_row_def split: option.splits)
  next
    case (remind uid' r' t ev out)
    then have "settled_row sv now (db_outbox db) r" using u(2) r by simp
    then show ?thesis using remind(1) by (auto simp: settled_row_def split: option.splits)
  qed
  with u(1) show ?thesis by (auto simp: clock_settled_def)
qed (simp add: clock_settled_def)

lemma quiet_settled:
  assumes "evaluate_clock sv en now clock db = (Ok c, db')" "canonical (sv_uuid sv)" "escalations_ok (db_signals db)"
    "Res_Escalated c = 0" "Res_Reminders c = 0"
  shows "clock_settled sv now clock db"
proof (cases "Clk_Target clock = SLATargetAcknowledgement")
  case ack: True
  show ?thesis
  proof (cases "SignalRepo_GetRiskSignal (sv_uuid sv) (Clk_SignalID clock) (db_signals db)")
    case (Inl e)
    then have "db_error_class NoRows = KindNotFound \<and> (\<exists>op. e = AppError KindNotFound op)"
      using assms(1) ack by (cases e) (auto simp: evaluate_clock_def Let_def split: if_splits)
    then obtain uid where "sv_uuid sv (Clk_SignalID clock) = Some uid" "row_at SR_ID uid (db_signals db) = None"
      using Inl by (auto simp: SignalRepo_GetRiskSignal_def with_uuid_def GetRiskSignalByID_def select_row_def row_at_def
          split: option.splits)
    then show ?thesis by (simp add: clock_settled_def)
  next
    case (Inr s)
    then obtain uid r where r: "sv_uuid sv (Clk_SignalID clock) = Some uid" "row_at SR_ID uid (db_signals db) = Some r"
      "s = riskSignalFromRow r" by (auto simp: GetRiskSignal_row)
    note rid = row_at_Some [OF r(2)]
    have dis: "distinct (map SR_ID (db_signals db))" using assms(3) by (simp add: escalations_ok_def)
    have "settled_row sv now (db_outbox db) r"
    proof (cases "SR_Priority r = PriorityP1 \<and> SR_Status r = SignalStatusNew")
      case new: True
      show ?thesis
      proof (cases "SR_EscalatedAt r")
        case None
        then have "escalateSignal sv en ''evaluate_sla'' (riskSignalFromRow r) clock now db = (Ok False, db')"
          using assms(1,4) ack Inr r(3) new
          by (auto simp: evaluate_clock_def no_counts_def Let_def time_IsZero_def split: prod.splits sum.splits if_splits)
        from escalateSignal_ok [OF this assms(2) dis r(2,1)] None show ?thesis by simp
      next
        case (Some t)
        then have t: "t \<noteq> 0" using assms(3) rid by (auto simp: escalations_ok_def)
        have "remindEscalatedSignal sv en ''evaluate_sla'' (riskSignalFromRow r) clock now db = (Ok False, db')"
          using assms(1,5) ack Inr r(3) new Some t
          by (auto simp: evaluate_clock_def no_counts_def Let_def time_IsZero_def split: prod.splits sum.splits if_splits)
        from remindEscalatedSignal_ok [OF this _ Some t, of uid] rid Some show ?thesis by (auto simp: settled_row_def)
      qed
    qed (auto simp: settled_row_def)
    with r show ?thesis by (simp add: clock_settled_def)
  qed
qed (simp add: clock_settled_def)

lemma evaluate_clock_settles:
  assumes "evaluate_clock sv en now clock db = (Ok c, db')" "canonical (sv_uuid sv)" "escalations_ok (db_signals db)"
    "time_Micro \<le> sv_cadence sv" "time_Micro \<le> now"
  shows "clock_settled sv now clock db'"
proof -
  have round: "evaluate_round sv now clock c db db'" by (rule evaluate_clock_round [OF assms(1-3)])
  then show ?thesis
  proof (cases rule: evaluate_round.cases)
    case pass
    then show ?thesis using quiet_settled [OF assms(1-3)] by simp
  qed (use settled_after [OF round _ assms(4,5)] in simp_all)
qed

lemma evaluate_loop_settles:
  assumes "evaluate_loop sv ens now i due res db = (Ok out, db')" "canonical (sv_uuid sv)" "escalations_ok (db_signals db)"
    "time_Micro \<le> sv_cadence sv" "time_Micro \<le> now" "\<forall>c\<in>set done. clock_settled sv now c db"
  shows "(\<forall>c\<in>set due \<union> set done. clock_settled sv now c db') \<and> escalations_ok (db_signals db') \<and> db_clocks db' = db_clocks db"
  using assms(1,3,6)
proof (induction due arbitrary: i res db "done")
  case (Cons clock due)
  obtain c db1 where e: "evaluate_clock sv (ens i) now clock db = (Ok c, db1)"
    "evaluate_loop sv ens now (Suc i) due (add_counts res c) db1 = (Ok out, db')"
    using Cons.prems(1) by (auto split: prod.splits sum.splits)
  have r: "evaluate_round sv now clock c db db1" by (rule evaluate_clock_round [OF e(1) assms(2) Cons.prems(2)])
  note ok = evaluate_round_ok [OF r Cons.prems(2) assms(5)]
  have "clock_settled sv now clock db1" by (rule evaluate_clock_settles [OF e(1) assms(2) Cons.prems(2) assms(4,5)])
  then have "\<forall>c\<in>set (clock # done). clock_settled sv now c db1" using Cons.prems(3) settled_stays [OF r] by simp
  from Cons.IH [OF e(2) ok(1) this] ok(2) show ?case by auto
qed simp

lemma settled_loop:
  assumes "\<forall>c\<in>set due. clock_settled sv now c db" "escalations_ok (db_signals db)"
  shows "\<exists>out. evaluate_loop sv ens now i due res db = (Ok out, db) \<and>
    Res_Escalated out = Res_Escalated res \<and> Res_Reminders out = Res_Reminders res"
  using assms(1)
proof (induction due arbitrary: i res)
  case (Cons clock due)
  obtain c where c: "evaluate_clock sv (ens i) now clock db = (Ok c, db)" "Res_Escalated c = 0" "Res_Reminders c = 0"
    using settled_passes [of sv now clock db "ens i"] Cons.prems assms(2) by auto
  then show ?case using Cons.IH [of "Suc i" "add_counts res c"] Cons.prems by (auto simp: add_counts_def)
qed simp

section \<open>Properties\<close>


text \<open>C16: The evaluation is idempotent. Repeated at the same instant, a pass that succeeded escalates nothing, reminds of
  nothing and changes nothing. (A cadence is a microsecond at least, the resolution of the stored instants.)\<close>

theorem evaluation_is_idempotent:
  assumes "EvaluateSla sv ens scan_now now db = (Ok out, db')" "canonical (sv_uuid sv)"
    "escalations_ok (db_signals db)" "time_Micro \<le> now" "time_Micro \<le> sv_cadence sv"
  shows "\<exists>out'. EvaluateSla sv ens' scan_now now db' = (Ok out', db') \<and> Res_Escalated out' = 0 \<and> Res_Reminders out' = 0"
proof -
  have s: "(\<forall>c\<in>set (SlaClockRepo_Due scan_now (db_clocks db)). clock_settled sv now c db') \<and> escalations_ok (db_signals db') \<and>
      db_clocks db' = db_clocks db"
    using evaluate_loop_settles [OF assms(1) [unfolded EvaluateSla_def] assms(2,3,5,4), of "[]"] by simp
  then show ?thesis
    using settled_loop [of "SlaClockRepo_Due scan_now (db_clocks db)" sv now db' ens' 0 no_counts]
    by (auto simp: EvaluateSla_def no_counts_def)
qed

section \<open>Witnesses\<close>

definition breached_db :: Db where
  "breached_db = sample_db\<lparr>db_signals := [sample_signal\<lparr>SR_Priority := PriorityP1\<rparr>],
     db_clocks := [\<lparr>SCR_ID = ''k'', SCR_SignalID = ''s1'', SCR_Target = SLATargetAcknowledgement, SCR_StartedAt = 1000,
       SCR_DeadlineAt = 3000, SCR_FulfilledAt = None, SCR_PausedSeconds = 0, SCR_PausedAt = None\<rparr>]\<rparr>"

definition breached_pass :: "(app_error + SlaEvaluateResult) \<times> Db" where
  "breached_pass = EvaluateSla sample_service (\<lambda>_. sample_env) 5000 5000 breached_db"

lemma breached_pass_ok: "\<exists>out. breached_pass = (Ok out, snd breached_pass)"
proof -
  have "is_ok (fst breached_pass)" by code_simp
  then obtain out where "fst breached_pass = Ok out" by (auto simp: is_ok_iff)
  then show ?thesis by (intro exI [of _ out]) (simp add: prod_eq_iff)
qed

lemma breached_escalated: "row_at SR_ID ''s1'' (db_signals (snd breached_pass)) \<noteq> row_at SR_ID ''s1'' (db_signals breached_db)"
  by code_simp

lemma breached_hyps: "escalations_ok (db_signals breached_db)" "time_Micro \<le> (5000::int)" "time_Micro \<le> sv_cadence sample_service"
  by (simp_all add: escalations_ok_def breached_db_def sample_signal_def time_Micro_def sample_service_def)


lemma evaluation_is_idempotent_witness:
  "snd (EvaluateSla sample_service (\<lambda>_. sample_env) 5000 5000 (snd breached_pass)) = snd breached_pass"
proof -
  obtain out where "breached_pass = (Ok out, snd breached_pass)" using breached_pass_ok by blast
  then have "EvaluateSla sample_service (\<lambda>_. sample_env) 5000 5000 breached_db = (Ok out, snd breached_pass)"
    by (simp add: breached_pass_def)
  from evaluation_is_idempotent [OF this sample_canonical breached_hyps, of "\<lambda>_. sample_env"] show ?thesis by auto
qed

end
