(* ===== verification/Recompute.thy ===== *)
theory Recompute
  imports SlaEvaluate
begin

text \<open>
  The recomputation of priorities (internal/application/priority_recompute.go): the publication of a
  ruleset with its fan-in over the open signals, and the recomputation of one signal from the
  rebuilt factors (postgres/repo/priorityfactor.go), with the table of rulesets
  (postgres/gen/priority_rules.sql.go, postgres/repo/priorityrule.go).
\<close>

section \<open>Rulesets in the database\<close>

definition GetEffectivePriorityRulesVersion :: "PriorityRuleRow list \<Rightarrow> int" where
  "GetEffectivePriorityRulesVersion rows = Max (set (0 # map PRR_Version rows))"

definition ListEffectivePriorityRules :: "PriorityRuleRow list \<Rightarrow> PriorityRuleRow list" where
  "ListEffectivePriorityRules rows =
     sort_key (Priority_str \<circ> PRR_RuleID)
       (filter (\<lambda>r. PRR_Version r = Max (set (map PRR_Version rows))) rows)"

text \<open>The four rows of a snapshot, at the next version, which all of them share; a rule id is unique in a version.\<close>

definition PublishRules_statement ::
  "time \<Rightarrow> string option \<Rightarrow> string \<Rightarrow> time \<Rightarrow> PriorityRule list \<Rightarrow> PriorityRuleRow list \<Rightarrow> db_error + int list \<times> PriorityRuleRow list" where
  "PublishRules_statement effectiveFrom reason actorID createdAt rules rows =
     (let version = GetEffectivePriorityRulesVersion rows + 1;
          fresh = map (\<lambda>r. \<lparr>PRR_RuleID = PRule_RuleID r, PRR_Version = version, PRR_Definition = PRule_Definition r,
                   PRR_Enabled = PRule_Enabled r, PRR_EffectiveFrom = effectiveFrom, PRR_Reason = reason,
                   PRR_ActorID = actorID, PRR_CreatedAt = createdAt\<rparr>) rules
      in if version > max_int32 then Err OtherFailure
         else if \<not> distinct (map PRule_RuleID rules) then Err UniqueViolation
         else Ok (map PRR_Version fresh, rows @ fresh))"

definition PriorityRuleRepo_Publish ::
  "PriorityRule list \<Rightarrow> time \<Rightarrow> string \<Rightarrow> string \<Rightarrow> time \<Rightarrow> PriorityRuleRow list \<Rightarrow> app_error + int \<times> PriorityRuleRow list" where
  "PriorityRuleRepo_Publish rules effectiveFrom reason actorID createdAt rows =
     (let op = ''priority_rules.publish'' in
      guards [(length rules \<noteq> 4, AppError KindValidation op),
              (actorID = '''', AppError KindValidation op),
              (time_IsZero effectiveFrom \<or> time_IsZero createdAt, AppError KindValidation op)]
        (rbind (each (\<lambda>r. app_result KindValidation op (PriorityRule_Validate r)) rules) (\<lambda>_.
         rbind (db_result op (PublishRules_statement (pg_time effectiveFrom) (toTextOpt reason) actorID (pg_time createdAt) rules rows))
           (\<lambda>(versions, rows'). case versions of [] \<Rightarrow> InfraError op | v # _ \<Rightarrow> Ok (v, rows')))))"

definition priorityRuleFromRow :: "PriorityRuleRow \<Rightarrow> PriorityRule result" where
  "priorityRuleFromRow row =
     (let rule = \<lparr>PRule_RuleID = PRR_RuleID row, PRule_Version = PRR_Version row, PRule_Definition = PRR_Definition row,
          PRule_Enabled = PRR_Enabled row, PRule_Reason = textValue (PRR_Reason row), PRule_ActorID = PRR_ActorID row\<rparr>
      in rbind (PriorityRule_Validate rule) (\<lambda>_. Ok rule))"

fun rules_from_rows :: "PriorityRuleRow list \<Rightarrow> app_error + PriorityRule list" where
  "rules_from_rows [] = Ok []"
| "rules_from_rows (row # rows) =
     rbind (app_result KindValidation ''priority_rules.effective'' (priorityRuleFromRow row)) (\<lambda>r.
     rbind (rules_from_rows rows) (\<lambda>rs. Ok (r # rs)))"

definition PriorityRuleRepo_Effective :: "PriorityRuleRow list \<Rightarrow> app_error + PriorityRule list" where
  "PriorityRuleRepo_Effective rows = rules_from_rows (ListEffectivePriorityRules rows)"

section \<open>The factors of a signal\<close>

record factor_source =
  FS_VulnerabilityID :: string
  FS_Method :: string
  FS_CveID :: string
  FS_Criticality :: string
  FS_Exposure :: string

record factor_evidence =
  FE_Type :: string
  FE_Value :: string
  FE_ObservedAt :: time

text \<open>The decoders of the two payloads, from encoding/json.\<close>

record factor_json =
  dec_base_score :: "string \<Rightarrow> rat option"
  dec_known_exploited :: "string \<Rightarrow> bool option"

record factor_state =
  fst_factors :: PriorityFactors
  fst_kev_at :: time
  fst_removed_at :: time

fun evidence_loop :: "factor_json \<Rightarrow> string \<Rightarrow> factor_evidence list \<Rightarrow> factor_state \<Rightarrow> app_error + factor_state" where
  "evidence_loop J op [] st = Ok st"
| "evidence_loop J op (row # rows) st =
     (case to_EvidenceType (FE_Type row) of
        EvidenceTypeCVSS \<Rightarrow>
          (case dec_base_score J (FE_Value row) of
             None \<Rightarrow> InfraError op
           | Some v \<Rightarrow> evidence_loop J op rows (st\<lparr>fst_factors := (fst_factors st)\<lparr>F_CVSS := v\<rparr>\<rparr>))
      | EvidenceTypeKEV \<Rightarrow>
          (case dec_known_exploited J (FE_Value row) of
             None \<Rightarrow> InfraError op
           | Some v \<Rightarrow> evidence_loop J op rows
               (st\<lparr>fst_factors := (fst_factors st)\<lparr>F_KEV := v\<rparr>, fst_kev_at := FE_ObservedAt row\<rparr>))
      | EvidenceTypeKEVRemoved \<Rightarrow> evidence_loop J op rows (st\<lparr>fst_removed_at := FE_ObservedAt row\<rparr>)
      | _ \<Rightarrow> evidence_loop J op rows st)"

definition factorsFromSource :: "factor_json \<Rightarrow> string \<Rightarrow> factor_source \<Rightarrow> factor_evidence list \<Rightarrow> app_error + PriorityFactors" where
  "factorsFromSource J op src rows =
     (let method = to_MatchMethod (FS_Method src); (conf, ok) = MatchMethod_Confidence method in
      if \<not> ok then InfraError op
      else
        rbind (evidence_loop J op rows
          \<lparr>fst_factors = \<lparr>F_Method = method, F_Confidence = conf, F_KEV = False, F_CVSS = 0, F_EPSS = 0,
             F_Criticality = to_Criticality (FS_Criticality src), F_Exposure = to_Exposure (FS_Exposure src)\<rparr>,
           fst_kev_at = 0, fst_removed_at = 0\<rparr>) (\<lambda>st.
        Ok (if \<not> time_IsZero (fst_removed_at st) \<and>
               (time_IsZero (fst_kev_at st) \<or> time_After (fst_removed_at st) (fst_kev_at st))
            then (fst_factors st)\<lparr>F_KEV := False\<rparr> else fst_factors st)))"

record PriorityFactorRebuild =
  RB_CVEID :: string
  RB_Factors :: PriorityFactors

text \<open>The three reads of a rebuild: the source of a signal, the newest evidence of each type, the percentile.\<close>

record factor_reads =
  read_source :: "string \<Rightarrow> db_error + factor_source"
  read_evidence :: "string \<Rightarrow> db_error + factor_evidence list"
  read_percentile :: "string \<Rightarrow> db_error + rat option"

definition factorEPSS :: "factor_reads \<Rightarrow> string \<Rightarrow> string \<Rightarrow> app_error + rat" where
  "factorEPSS R op cveID =
     (case read_percentile R cveID of
        Inl e \<Rightarrow> (if e = NoRows then Ok 0 else Err (mapDBError op e))
      | Inr p \<Rightarrow> Ok (case p of None \<Rightarrow> 0 | Some x \<Rightarrow> x))"

definition Rebuild :: "uuids \<Rightarrow> factor_json \<Rightarrow> factor_reads \<Rightarrow> string \<Rightarrow> app_error + PriorityFactorRebuild" where
  "Rebuild U J R signalID =
     (let op = ''priority_factors.rebuild'' in
      with_uuid U op signalID (\<lambda>uid.
        rbind (db_result op (read_source R uid)) (\<lambda>src.
        rbind (db_result op (read_evidence R (FS_VulnerabilityID src))) (\<lambda>rows.
        rbind (factorsFromSource J op src rows) (\<lambda>factors.
        rbind (factorEPSS R op (FS_CveID src)) (\<lambda>epss.
        let factors' = factors\<lparr>F_EPSS := epss\<rparr> in
        rbind (app_result KindValidation op (PriorityFactors_Validate factors')) (\<lambda>_.
        Ok \<lparr>RB_CVEID = FS_CveID src, RB_Factors = factors'\<rparr>)))))))"

section \<open>Keys\<close>

definition EventTypePriorityRulesPublished :: string where "EventTypePriorityRulesPublished = ''priority_rules.published''"
definition EventTypeSignalPriorityRecomputed :: string where "EventTypeSignalPriorityRecomputed = ''signal.priority_recomputed''"
definition EventTypeSignalReopenProposed :: string where "EventTypeSignalReopenProposed = ''signal.reopen_proposed''"
definition AuditAggregatePriorityRules :: string where "AuditAggregatePriorityRules = ''priority_rules''"
definition EventTypePriorityRecompute :: string where "EventTypePriorityRecompute = ''priority.recompute''"

definition PriorityRecomputeDedupeKey :: "string \<Rightarrow> string \<Rightarrow> string \<Rightarrow> string" where
  "PriorityRecomputeDedupeKey signalID ruleVersion inputHash =
     EventTypePriorityRecompute @ '':'' @ signalID @ '':'' @ ruleVersion @ '':'' @ inputHash"

text \<open>What is hashed: the version, the unit separator, the text of the factors.\<close>

definition hash_input :: "string \<Rightarrow> string \<Rightarrow> string" where
  "hash_input ruleVersion text = ruleVersion @ CHR 0x1F # text"

definition PriorityInputHash :: "Service \<Rightarrow> string \<Rightarrow> string \<Rightarrow> PriorityFactors \<Rightarrow> app_error + string" where
  "PriorityInputHash sv op ruleVersion f =
     (case sv_json_factors sv f of
        None \<Rightarrow> InfraError op
      | Some b \<Rightarrow> Ok (sv_sha256_hex sv (hash_input ruleVersion b)))"

section \<open>The fan-in\<close>

record PriorityRecomputeTarget =
  PT_SignalID :: string
  PT_Factors :: PriorityFactors

definition OpenRecomputeTargets :: "signals \<Rightarrow> PriorityRecomputeTarget list" where
  "OpenRecomputeTargets rows = map (\<lambda>(i, f). \<lparr>PT_SignalID = i, PT_Factors = f\<rparr>) (ListOpenRecomputeTargets rows)"

text \<open>\<open>event_ids n\<close>, \<open>outbox_ids n\<close>: the identifiers drawn for the n-th target.\<close>

definition recomputePayload :: "Service \<Rightarrow> string \<Rightarrow> string \<Rightarrow> string \<Rightarrow> string \<Rightarrow> string \<Rightarrow> time \<Rightarrow> string \<Rightarrow> app_error + string" where
  "recomputePayload sv op eventID signalID ruleVersion inputHash now correlationID =
     marshal sv op
       [jtext ''event_id'' eventID, jtext ''type'' EventTypePriorityRecompute, jtext ''signal_id'' signalID,
        jtext ''rule_version'' ruleVersion, jtext ''input_hash'' inputHash, jtime sv ''occurred_at'' now,
        jtext ''correlation_id'' correlationID]"

definition enqueuePriorityRecompute ::
  "Service \<Rightarrow> string \<Rightarrow> string \<Rightarrow> PriorityRecomputeTarget \<Rightarrow> string \<Rightarrow> string \<Rightarrow> time \<Rightarrow> Db \<Rightarrow> app_error + bool \<times> Db" where
  "enqueuePriorityRecompute sv eventID outboxID target ruleVersion correlationID now =
     (let op = ''priority_recompute.enqueue'' in
      tx_bind (tx_lift (PriorityInputHash sv op ruleVersion (PT_Factors target))) (\<lambda>inputHash.
      let dedupeKey = PriorityRecomputeDedupeKey (PT_SignalID target) ruleVersion inputHash in
      tx_bind (outbox_ExistsDedupeKey dedupeKey) (\<lambda>exists.
      if exists then tx_return False
      else
        tx_bind (tx_lift (recomputePayload sv op eventID (PT_SignalID target) ruleVersion inputHash now correlationID)) (\<lambda>payload.
        tx_bind (outbox_Append outboxID (outbox_event EventTypePriorityRecompute payload dedupeKey now)) (\<lambda>_.
        tx_return True)))))"

fun enqueue_targets ::
  "Service \<Rightarrow> (nat \<Rightarrow> string) \<Rightarrow> (nat \<Rightarrow> string) \<Rightarrow> nat \<Rightarrow> PriorityRecomputeTarget list \<Rightarrow> string \<Rightarrow> string \<Rightarrow> time \<Rightarrow> nat \<Rightarrow> Db \<Rightarrow>
     app_error + nat \<times> Db" where
  "enqueue_targets sv event_ids outbox_ids i [] ruleVersion correlationID now enqueued = tx_return enqueued"
| "enqueue_targets sv event_ids outbox_ids i (target # targets) ruleVersion correlationID now enqueued =
     tx_bind (enqueuePriorityRecompute sv (event_ids i) (outbox_ids i) target ruleVersion correlationID now) (\<lambda>appended.
     enqueue_targets sv event_ids outbox_ids (Suc i) targets ruleVersion correlationID now (if appended then Suc enqueued else enqueued))"

text \<open>The read of the open signals is outside of the transaction: \<open>pool\<close> is what is committed then.\<close>

definition enqueueOpenPriorityRecomputes ::
  "Service \<Rightarrow> (nat \<Rightarrow> string) \<Rightarrow> (nat \<Rightarrow> string) \<Rightarrow> signals \<Rightarrow> string \<Rightarrow> string \<Rightarrow> time \<Rightarrow> Db \<Rightarrow> app_error + nat \<times> Db" where
  "enqueueOpenPriorityRecomputes sv event_ids outbox_ids pool ruleVersion correlationID now =
     enqueue_targets sv event_ids outbox_ids 0 (OpenRecomputeTargets pool) ruleVersion correlationID now 0"

text \<open>The fan-in of a matching run, on the targets it has read.\<close>

definition EnqueuePriorityRecomputeForVulnerabilities ::
  "Service \<Rightarrow> Env \<Rightarrow> (nat \<Rightarrow> string) \<Rightarrow> (nat \<Rightarrow> string) \<Rightarrow> string list \<Rightarrow> app_error + PriorityRecomputeTarget list \<Rightarrow>
     PriorityRuleRow list \<Rightarrow> Db \<Rightarrow> (app_error + nat) \<times> Db" where
  "EnqueuePriorityRecomputeForVulnerabilities sv en event_ids outbox_ids vulnerabilityIDs targets rules db =
     (let op = ''priority_recompute.fan_in''; version = GetEffectivePriorityRulesVersion rules in
      if vulnerabilityIDs = [] then (Ok 0, db)
      else if version < 1 then (Ok 0, db)
      else
        command
          (rbind (app_result KindInfra op (PriorityRuleVersion version)) (\<lambda>ruleVersion.
           rbind targets (\<lambda>ts. Ok (ruleVersion, ts))))
          (\<lambda>(ruleVersion, ts).
             enqueue_targets sv event_ids outbox_ids 0 ts ruleVersion (correlationOrNew en '''') (en_now en) 0) db)"

section \<open>PublishPriorityRules\<close>

record PublishPriorityRulesInput =
  PP_Reason :: string
  PP_Actor :: Actor
  PP_Rules :: "PriorityRule list"
  PP_CorrelationID :: string

definition stampRules :: "PriorityRule list \<Rightarrow> string \<Rightarrow> string \<Rightarrow> PriorityRule list" where
  "stampRules rules reason actorID =
     map (\<lambda>r. (if PRule_Version r < 1 then r\<lparr>PRule_Version := SeedPriorityRulesVersion\<rparr> else r)
            \<lparr>PRule_Reason := reason, PRule_ActorID := actorID\<rparr>) rules"

definition ruleIDs :: "PriorityRule list \<Rightarrow> string list" where
  "ruleIDs rules = map (\<lambda>r. Priority_str (PRule_RuleID r)) rules"

definition priorityRulesSnapshot :: "Service \<Rightarrow> string \<Rightarrow> int \<Rightarrow> string \<Rightarrow> PriorityRule list \<Rightarrow> app_error + string" where
  "priorityRulesSnapshot sv op version ruleVersion rules =
     marshal sv op [jint ''version'' version, jtext ''rule_version'' ruleVersion,
       [(''rule_ids'', JArray (map JString (ruleIDs rules)))]]"

definition priorityRulesPublishedPayload ::
  "Service \<Rightarrow> string \<Rightarrow> string \<Rightarrow> int \<Rightarrow> string \<Rightarrow> PriorityRule list \<Rightarrow> time \<Rightarrow> string \<Rightarrow> app_error + string" where
  "priorityRulesPublishedPayload sv op eventID version ruleVersion rules now correlationID =
     marshal sv op
       [jtext ''event_id'' eventID, jtext ''type'' EventTypePriorityRulesPublished, jint ''version'' version,
        jtext ''rule_version'' ruleVersion, [(''rule_ids'', JArray (map JString (ruleIDs rules)))],
        jtime sv ''occurred_at'' now, jtext ''correlation_id'' correlationID]"

text \<open>The audit of a ruleset has an aggregate identifier of its own, \<open>aggregateID\<close>, drawn for it.\<close>

definition appendRulesAudit ::
  "Service \<Rightarrow> string \<Rightarrow> string \<Rightarrow> Actor \<Rightarrow> string \<Rightarrow> time \<Rightarrow> string \<Rightarrow> Db \<Rightarrow> app_error + unit \<times> Db" where
  "appendRulesAudit sv aggregateID action actor correlationID now after =
     audit_Append (sv_uuid sv)
       \<lparr>Ev_AggregateType = AuditAggregatePriorityRules, Ev_AggregateID = aggregateID, Ev_ActorType = Act_Type actor,
        Ev_ActorID = Act_ID actor, Ev_ActorDisplayName = Act_DisplayName actor, Ev_Action = action,
        Ev_OccurredAt = now, Ev_Before = '''', Ev_After = after, Ev_CorrelationID = correlationID\<rparr>"

definition on_rules :: "(PriorityRuleRow list \<Rightarrow> app_error + 'a \<times> PriorityRuleRow list) \<Rightarrow> Db \<Rightarrow> app_error + 'a \<times> Db" where
  "on_rules f db = rbind (f (db_rules db)) (\<lambda>(a, rows). Ok (a, db\<lparr>db_rules := rows\<rparr>))"

definition PublishPriorityRules_check :: "Service \<Rightarrow> PublishPriorityRulesInput \<Rightarrow> Db \<Rightarrow> app_error + PriorityRule list" where
  "PublishPriorityRules_check sv inp seen =
     (let op = ''publish_priority_rules'' in
      rbind (authorize sv op (PP_Actor inp) PermissionRulesManage ScopeAll '''' seen) (\<lambda>_.
      if trim_space (PP_Reason inp) = '''' then Validationf op
      else
        rbind (signalActor op (PP_Actor inp)) (\<lambda>actor.
        rbind (if PP_Rules inp = [] then Ok SeedPriorityRules
               else rbind (app_result KindValidation op (ValidateRuleset (PP_Rules inp))) (\<lambda>_. Ok (PP_Rules inp))) (\<lambda>rules.
        Ok (stampRules rules (PP_Reason inp) (Act_ID actor))))))"

definition PublishPriorityRules_body ::
  "Service \<Rightarrow> Env \<Rightarrow> (nat \<Rightarrow> string) \<Rightarrow> (nat \<Rightarrow> string) \<Rightarrow> string \<Rightarrow> signals \<Rightarrow> PublishPriorityRulesInput \<Rightarrow> PriorityRule list \<Rightarrow>
     Db \<Rightarrow> app_error + int \<times> Db" where
  "PublishPriorityRules_body sv en event_ids outbox_ids aggregateID pool inp rules =
     (let op = ''publish_priority_rules''; correlationID = correlationOrNew en (PP_CorrelationID inp);
          now = en_now en; actor = PP_Actor inp
      in
      tx_bind (on_rules (PriorityRuleRepo_Publish rules now (PP_Reason inp) (Act_ID actor) now)) (\<lambda>v.
      tx_bind (tx_lift (app_result KindInfra op (PriorityRuleVersion v))) (\<lambda>ruleVersion.
      tx_bind (tx_lift (priorityRulesSnapshot sv op v ruleVersion rules)) (\<lambda>after.
      tx_bind (appendRulesAudit sv aggregateID EventTypePriorityRulesPublished actor correlationID now after) (\<lambda>_.
      tx_bind (tx_lift (priorityRulesPublishedPayload sv op (en_event_id en) v ruleVersion rules now correlationID)) (\<lambda>payload.
      tx_bind (outbox_Append (en_outbox_id en) (outbox_event EventTypePriorityRulesPublished payload
        (EventTypePriorityRulesPublished @ '':'' @ ruleVersion) now)) (\<lambda>_.
      tx_bind (enqueueOpenPriorityRecomputes sv event_ids outbox_ids pool ruleVersion correlationID now) (\<lambda>_.
      tx_return v))))))))"

record PublishPriorityRulesResult =
  PPR_Version :: int
  PPR_RuleVersion :: string
  PPR_CorrelationID :: string

definition PublishPriorityRules ::
  "Service \<Rightarrow> Env \<Rightarrow> (nat \<Rightarrow> string) \<Rightarrow> (nat \<Rightarrow> string) \<Rightarrow> string \<Rightarrow> signals \<Rightarrow> PublishPriorityRulesInput \<Rightarrow> Db \<Rightarrow> Db \<Rightarrow>
     (app_error + PublishPriorityRulesResult) \<times> Db" where
  "PublishPriorityRules sv en event_ids outbox_ids aggregateID pool inp seen db =
     (case command (PublishPriorityRules_check sv inp seen)
        (PublishPriorityRules_body sv en event_ids outbox_ids aggregateID pool inp) db of
        (Inl e, db') \<Rightarrow> (Err e, db')
      | (Inr v, db') \<Rightarrow>
          (rbind (app_result KindInfra ''publish_priority_rules'' (PriorityRuleVersion v)) (\<lambda>ruleVersion.
             Ok \<lparr>PPR_Version = v, PPR_RuleVersion = ruleVersion,
                 PPR_CorrelationID = correlationOrNew en (PP_CorrelationID inp)\<rparr>), db'))"

section \<open>RecomputePriority\<close>

record RecomputePriorityInput =
  RC_SignalID :: string
  RC_Actor :: Actor
  RC_CorrelationID :: string

record RecomputePriorityResult =
  RR_SignalID :: string
  RR_Priority :: Priority
  RR_RuleVersion :: string
  RR_InputHash :: string
  RR_Changed :: bool
  RR_ReopenProposed :: bool

definition reopenProposalSnapshot ::
  "Service \<Rightarrow> string \<Rightarrow> RiskSignal \<Rightarrow> string \<Rightarrow> Priority \<Rightarrow> Priority \<Rightarrow> string \<Rightarrow> string \<Rightarrow> app_error + string" where
  "reopenProposalSnapshot sv op s cveID frm to ruleVersion inputHash =
     marshal sv op
       [jtext ''id'' (Sig_ID s), jomit ''cve_id'' cveID, jtext ''status'' (SignalStatus_str (Sig_Status s)),
        jtext ''from'' (Priority_str frm), jtext ''to'' (Priority_str to), jtext ''rule_version'' ruleVersion,
        jtext ''input_hash'' inputHash]"

definition proposal_key :: "string \<Rightarrow> string \<Rightarrow> string \<Rightarrow> string" where
  "proposal_key uid ruleVersion inputHash =
     EventTypeSignalReopenProposed @ '':'' @ uid @ '':'' @ ruleVersion @ '':'' @ inputHash"

definition proposeReopen ::
  "Service \<Rightarrow> Env \<Rightarrow> RiskSignal \<Rightarrow> Actor \<Rightarrow> string \<Rightarrow> Priority \<Rightarrow> Priority \<Rightarrow> string \<Rightarrow> string \<Rightarrow> string \<Rightarrow> time \<Rightarrow> Db \<Rightarrow>
     (app_error + bool) \<times> Db" where
  "proposeReopen sv en s actor cveID frm to ruleVersion inputHash correlationID now =
     (let op = ''recompute_priority''; dedupeKey = proposal_key (Sig_ID s) ruleVersion inputHash in
      runTx
        (tx_bind (outbox_ExistsDedupeKey dedupeKey) (\<lambda>exists.
         if exists then tx_return False
         else
           tx_bind (tx_lift (reopenProposalSnapshot sv op s cveID frm to ruleVersion inputHash)) (\<lambda>after.
           tx_bind (appendSignalAudit sv EventTypeSignalReopenProposed (Sig_ID s) actor correlationID now '''' after) (\<lambda>_.
           tx_bind (tx_lift (payload_text sv op (en_event_id en) EventTypeSignalReopenProposed (Sig_ID s) now correlationID
             (no_payload\<lparr>Pl_CveID := cveID, Pl_From := Priority_str frm, Pl_To := Priority_str to, Pl_RuleVersion := ruleVersion,
                         Pl_InputHash := inputHash, Pl_Version := Sig_Version s\<rparr>))) (\<lambda>payload.
           tx_bind (outbox_Append (en_outbox_id en) (outbox_event EventTypeSignalReopenProposed payload dedupeKey now)) (\<lambda>_.
           tx_return True)))))))"

text \<open>What the reads and the rules lead to: nothing to do, a proposal for a closed signal, or a write.\<close>

datatype recompute_plan =
    PlanNothing RecomputePriorityResult
  | PlanPropose RecomputePriorityResult RiskSignal string Priority
  | PlanWrite RecomputePriorityResult RiskSignal PriorityFactors

definition computed_priority :: "RiskSignal \<Rightarrow> Priority" where
  "computed_priority s = (case Sig_AutoPriority s of None \<Rightarrow> Sig_Priority s | Some p \<Rightarrow> p)"

definition empty_result :: "string \<Rightarrow> RecomputePriorityResult" where
  "empty_result ident = \<lparr>RR_SignalID = ident, RR_Priority = OtherPriority '''', RR_RuleVersion = '''', RR_InputHash = '''',
     RR_Changed = False, RR_ReopenProposed = False\<rparr>"

text \<open>The version and the rules are two reads: \<open>version_rows\<close> and \<open>rule_rows\<close> are the table at each.\<close>

definition RecomputePriority_plan ::
  "Service \<Rightarrow> RecomputePriorityInput \<Rightarrow> Db \<Rightarrow> PriorityRuleRow list \<Rightarrow> PriorityRuleRow list \<Rightarrow>
     (string \<Rightarrow> app_error + PriorityFactorRebuild) \<Rightarrow> app_error + recompute_plan" where
  "RecomputePriority_plan sv inp seen version_rows rule_rows rebuild =
     (let op = ''recompute_priority'' in
      if RC_SignalID inp = '''' then Validationf op
      else
        rbind (signalActor op (RC_Actor inp)) (\<lambda>actor.
        rbind (SignalRepo_GetRiskSignal (sv_uuid sv) (RC_SignalID inp) (db_signals seen)) (\<lambda>current.
        let version = GetEffectivePriorityRulesVersion version_rows in
        if version < 1 then Ok (PlanNothing (empty_result (RC_SignalID inp)))
        else
          rbind (PriorityRuleRepo_Effective rule_rows) (\<lambda>rules.
          if rules = [] then Ok (PlanNothing (empty_result (RC_SignalID inp)))
          else
            rbind (app_result KindInfra op (PriorityRuleVersion version)) (\<lambda>ruleVersion.
            rbind (rebuild (RC_SignalID inp)) (\<lambda>rb.
            let factors = RB_Factors rb in
            rbind (app_result KindValidation op (PriorityFactors_Validate factors)) (\<lambda>_.
            rbind (app_result KindInfra op (EvaluatePriority rules factors)) (\<lambda>newPriority.
            rbind (PriorityInputHash sv op ruleVersion factors) (\<lambda>inputHash.
            let result = \<lparr>RR_SignalID = RC_SignalID inp, RR_Priority = newPriority, RR_RuleVersion = ruleVersion,
                  RR_InputHash = inputHash, RR_Changed = False, RR_ReopenProposed = False\<rparr>
            in if IsClosed (Sig_Status current) then
                 (if newPriority = computed_priority current then Ok (PlanNothing result)
                  else Ok (PlanPropose result current (RB_CVEID rb) newPriority))
               else if factors = Sig_Factors current \<and> ruleVersion = Sig_RuleVersion current \<and>
                       newPriority = computed_priority current then Ok (PlanNothing result)
               else Ok (PlanWrite result current factors))))))))))"

definition RecomputePriority_body ::
  "Service \<Rightarrow> Env \<Rightarrow> RecomputePriorityInput \<Rightarrow> RecomputePriorityResult \<times> RiskSignal \<times> PriorityFactors \<Rightarrow> Db \<Rightarrow> app_error + unit \<times> Db" where
  "RecomputePriority_body sv en inp = (\<lambda>(result, current, factors).
     let op = ''recompute_priority''; correlationID = correlationOrNew en (RC_CorrelationID inp); now = en_now en in
      tx_bind (on_signals (SignalRepo_RecomputePriority (sv_uuid sv) (RC_SignalID inp) (RR_Priority result)
          (RR_RuleVersion result) factors)) (\<lambda>row.
      tx_bind (tx_lift (signalStateSnapshot sv op current '''')) (\<lambda>before.
      tx_bind (tx_lift (signalStateSnapshot sv op row (''priority recompute '' @ RR_RuleVersion result))) (\<lambda>after.
      tx_bind (appendSignalAudit sv EventTypeSignalPriorityRecomputed (Sig_ID current) (RC_Actor inp) correlationID now before after) (\<lambda>_.
      if Sig_Priority row \<noteq> Sig_Priority current
      then applyUpgradeClocks sv en (Sig_ID row) (Sig_Priority row) (RC_Actor inp) correlationID now
      else tx_return ())))))"

definition RecomputePriority ::
  "Service \<Rightarrow> Env \<Rightarrow> RecomputePriorityInput \<Rightarrow> Db \<Rightarrow> PriorityRuleRow list \<Rightarrow> PriorityRuleRow list \<Rightarrow>
     (string \<Rightarrow> app_error + PriorityFactorRebuild) \<Rightarrow> Db \<Rightarrow> (app_error + RecomputePriorityResult) \<times> Db" where
  "RecomputePriority sv en inp seen version_rows rule_rows rebuild db =
     (case RecomputePriority_plan sv inp seen version_rows rule_rows rebuild of
        Inl e \<Rightarrow> (Err e, db)
      | Inr (PlanNothing result) \<Rightarrow> (Ok result, db)
      | Inr (PlanPropose result current cveID newPriority) \<Rightarrow>
          (case proposeReopen sv en current (RC_Actor inp) cveID (computed_priority current) newPriority (RR_RuleVersion result)
              (RR_InputHash result) (correlationOrNew en (RC_CorrelationID inp)) (en_now en) db of
             (Inl e, db') \<Rightarrow> (Err e, db')
           | (Inr proposed, db') \<Rightarrow> (Ok (result\<lparr>RR_ReopenProposed := proposed\<rparr>), db'))
      | Inr (PlanWrite result current factors) \<Rightarrow>
          (case runTx (RecomputePriority_body sv en inp (result, current, factors)) db of
             (Inl e, db') \<Rightarrow> (Err e, db')
           | (Inr _, db') \<Rightarrow> (Ok (result\<lparr>RR_Changed := True\<rparr>), db')))"

section \<open>What a recomputation does\<close>

lemma Recompute_written:
  assumes "distinct (map SR_ID rows)" "SignalRepo_RecomputePriority U ident priority ruleVersion factors rows = Inr (s, rows')"
  shows "\<exists>uid r r'. U ident = Some uid \<and> SR_ID r = uid \<and> Priority_Valid priority \<and> SR_Version r + 1 \<le> max_int32 \<and>
    r' = r\<lparr>SR_Priority := (if SR_AutoPriority r = None then priority else SR_Priority r),
           SR_AutoPriority := (if SR_AutoPriority r = None then None else Some priority),
           SR_RuleVersion := ruleVersion, SR_Factors := factors, SR_Version := SR_Version r + 1\<rparr> \<and>
    s = riskSignalFromRow r' \<and> signal_written uid r r' rows rows'"
proof -
  obtain uid row where u: "U ident = Some uid" "Priority_Valid priority" "s = riskSignalFromRow row"
    "RecomputeRiskSignalPriority priority ruleVersion factors uid rows = Inr (row, rows')"
    using assms(2) by (auto simp: SignalRepo_RecomputePriority_def result_simps)
  show ?thesis
    using signal_update_written [OF recompute_row.guarded_update_axioms assms(1)
        u(4) [unfolded RecomputeRiskSignalPriority_def]] u(1-3)
    by (auto simp: bump_Ok)
qed

text \<open>The row a recomputation leaves: an override keeps the effective priority, and the computed one goes aside.\<close>

definition recomputed_row :: "Priority \<Rightarrow> string \<Rightarrow> PriorityFactors \<Rightarrow> SignalRow \<Rightarrow> SignalRow" where
  "recomputed_row priority ruleVersion factors r =
     r\<lparr>SR_Priority := (if SR_AutoPriority r = None then priority else SR_Priority r),
       SR_AutoPriority := (if SR_AutoPriority r = None then None else Some priority),
       SR_RuleVersion := ruleVersion, SR_Factors := factors, SR_Version := SR_Version r + 1\<rparr>"

lemma recompute_body_ok:
  assumes "RecomputePriority_body sv en inp (result, current, factors) db = Inr (u, db')" "distinct (map SR_ID (db_signals db))"
    "canonical (sv_uuid sv)" "clocks_ok (db_clocks db)"
  shows "never_later (db_clocks db) (db_clocks db') \<and> clocks_step (db_clocks db) (db_clocks db') \<and>
    db_outbox db' = db_outbox db \<and> prefix (db_audit db) (db_audit db') \<and>
    (\<exists>uid r. sv_uuid sv (RC_SignalID inp) = Some uid \<and> Priority_Valid (RR_Priority result) \<and> SR_Version r + 1 \<le> max_int32 \<and>
      signal_written uid r (recomputed_row (RR_Priority result) (RR_RuleVersion result) factors r) (db_signals db) (db_signals db') \<and>
      (if SR_AutoPriority r = None \<and> RR_Priority result \<noteq> Sig_Priority current
       then \<forall>t\<in>set (Targets (sv_profile sv) (RR_Priority result)).
         covered uid t (pg_time (time_Add (en_now en) (Duration (sv_profile sv) (RR_Priority result) t))) (db_clocks db')
       else True))"
proof -
  let ?cid = "correlationOrNew en (RC_CorrelationID inp)"
  obtain row before after db1 db2 where b:
    "on_signals (SignalRepo_RecomputePriority (sv_uuid sv) (RC_SignalID inp) (RR_Priority result) (RR_RuleVersion result) factors) db = Inr (row, db1)"
    "appendSignalAudit sv EventTypeSignalPriorityRecomputed (Sig_ID current) (RC_Actor inp) ?cid (en_now en) before after db1 = Inr ((), db2)"
    "(if Sig_Priority row \<noteq> Sig_Priority current then applyUpgradeClocks sv en (Sig_ID row) (Sig_Priority row) (RC_Actor inp) ?cid (en_now en)
      else tx_return ()) db2 = Inr (u, db')"
    using assms(1) unfolding RecomputePriority_body_def Let_def prod.case tx_bind_Ok_iff tx_lift_Ok_iff by auto
  obtain rows where r: "SignalRepo_RecomputePriority (sv_uuid sv) (RC_SignalID inp) (RR_Priority result) (RR_RuleVersion result) factors (db_signals db) = Inr (row, rows)"
    "db1 = db\<lparr>db_signals := rows\<rparr>" using b(1) by (auto simp: on_signals_Ok_iff)
  obtain uid r where w: "sv_uuid sv (RC_SignalID inp) = Some uid" "SR_ID r = uid" "Priority_Valid (RR_Priority result)" "SR_Version r + 1 \<le> max_int32"
    "row = riskSignalFromRow (recomputed_row (RR_Priority result) (RR_RuleVersion result) factors r)"
    "signal_written uid r (recomputed_row (RR_Priority result) (RR_RuleVersion result) factors r) (db_signals db) rows"
    using Recompute_written [OF assms(2) r(1)] by (auto simp: recomputed_row_def)
  obtain ev where a: "db2 = db1\<lparr>db_audit := db_audit db1 @ [ev]\<rparr>" using b(2) by (auto simp: appendSignalAudit_Ok)
  have id: "Sig_ID row = uid" "sv_uuid sv (Sig_ID row) = Some uid"
    using w(1,2) assms(3) by (auto simp: w(5) recomputed_row_def canonical_def)
  have c2: "db_clocks db2 = db_clocks db" "clocks_ok (db_clocks db2)" using a r(2) assms(4) by simp_all
  have ex: "\<exists>clk evs. db' = db2\<lparr>db_clocks := clk, db_audit := db_audit db2 @ evs\<rparr> \<and> clocks_step (db_clocks db2) clk"
  proof (cases "Sig_Priority row \<noteq> Sig_Priority current")
    case True
    then show ?thesis using clock_workD [OF applyUpgradeClocks_work] b(3) by auto
  next
    case False
    then have "db' = db2" using b(3) by (simp add: tx_return_Ok_iff)
    then show ?thesis by (intro exI [of _ "db_clocks db2"] exI [of _ "[]"]) simp
  qed
  have cover: "never_later (db_clocks db) (db_clocks db') \<and>
    (if Sig_Priority row \<noteq> Sig_Priority current
     then \<forall>t\<in>set (Targets (sv_profile sv) (Sig_Priority row)).
       covered uid t (pg_time (time_Add (en_now en) (Duration (sv_profile sv) (Sig_Priority row) t))) (db_clocks db')
     else True)"
  proof (cases "Sig_Priority row \<noteq> Sig_Priority current")
    case True
    then have "tx_each (upgradeClock sv en (Sig_ID row) (Sig_Priority row) (RC_Actor inp) ?cid (en_now en))
        (Targets (sv_profile sv) (Sig_Priority row)) db2 = Inr (u, db')"
      using b(3) by (simp add: applyUpgradeClocks_def)
    from upgrade_loop [OF this id(2) c2(2)] True c2(1) show ?thesis by simp
  next
    case False
    then show ?thesis using b(3) c2(1) by (simp add: tx_return_Ok_iff never_later_refl)
  qed
  have pr: "SR_AutoPriority r = None \<Longrightarrow> Sig_Priority row = RR_Priority result" by (simp add: w(5) recomputed_row_def)
  have "db_signals db' = rows" "db_outbox db' = db_outbox db" "prefix (db_audit db) (db_audit db')"
    "clocks_step (db_clocks db) (db_clocks db')"
    using ex a r(2) by auto
  then show ?thesis using w(1,3,4,6) cover pr
    by (intro conjI exI [of _ uid] exI [of _ r]) auto
qed

lemma proposeReopen_ok:
  assumes "proposeReopen sv en s actor cveID frm to ruleVersion inputHash cid now db = (Ok proposed, db')"
  shows "if proposed
    then \<exists>ev out. db' = db\<lparr>db_audit := db_audit db @ [ev], db_outbox := db_outbox db @ [out]\<rparr> \<and>
      Ev_Action ev = EventTypeSignalReopenProposed \<and> Ev_AggregateID ev = Sig_ID s \<and> Ob_Type out = EventTypeSignalReopenProposed \<and>
      Ob_DedupeKey out = proposal_key (Sig_ID s) ruleVersion inputHash \<and> Ob_DedupeKey out \<notin> Ob_DedupeKey ` set (db_outbox db)
    else db' = db \<and> proposal_key (Sig_ID s) ruleVersion inputHash \<in> Ob_DedupeKey ` set (db_outbox db)"
proof -
  define key where "key = proposal_key (Sig_ID s) ruleVersion inputHash"
  note run = assms [unfolded proposeReopen_def Let_def runTx_Ok_iff tx_bind_exists, folded key_def]
  show ?thesis
  proof (cases "ExistsDedupeKey key (db_outbox db)")
    case True
    then show ?thesis using run by (simp add: tx_return_Ok_iff ExistsDedupeKey_iff key_def)
  next
    case False
    then obtain after payload db1 where b:
      "appendSignalAudit sv EventTypeSignalReopenProposed (Sig_ID s) actor cid now '''' after db = Inr ((), db1)"
      "outbox_Append (en_outbox_id en) (outbox_event EventTypeSignalReopenProposed payload key now) db1 = Inr ((), db')" "proposed"
      using run by (simp add: tx_bind_Ok_iff tx_lift_Ok_iff tx_return_Ok_iff) blast
    obtain ev where ev: "db1 = db\<lparr>db_audit := db_audit db @ [ev]\<rparr>" "Ev_Action ev = EventTypeSignalReopenProposed" "Ev_AggregateID ev = Sig_ID s"
      using b(1) by (auto simp: appendSignalAudit_Ok)
    obtain out where "db' = db1\<lparr>db_outbox := db_outbox db1 @ [out]\<rparr>" "Ob_Type out = EventTypeSignalReopenProposed"
      "Ob_DedupeKey out = key" "Ob_DedupeKey out \<notin> Ob_DedupeKey ` set (db_outbox db1)"
      using b(2) by (auto simp: outbox_Append_Ok_iff OutboxRepo_Append_Ok outbox_event_def)
    then show ?thesis
      using ev b(3) key_def by (simp, intro exI [of _ ev] exI [of _ out] conjI) simp_all
  qed
qed

text \<open>Closed signals are not touched. What a recomputation may do, by its plan.\<close>

lemma plan_Ok:
  assumes "RecomputePriority_plan sv inp seen version_rows rule_rows rebuild = Ok plan"
  shows "\<exists>cur. SignalRepo_GetRiskSignal (sv_uuid sv) (RC_SignalID inp) (db_signals seen) = Ok cur \<and>
    (case plan of
       PlanNothing result \<Rightarrow> \<not> RR_Changed result \<and> \<not> RR_ReopenProposed result
     | PlanPropose result current cveID newPriority \<Rightarrow> current = cur \<and> IsClosed (Sig_Status cur) \<and>
         RR_Priority result = newPriority \<and> newPriority \<noteq> computed_priority cur \<and> \<not> RR_Changed result
     | PlanWrite result current factors \<Rightarrow> current = cur \<and> \<not> IsClosed (Sig_Status cur) \<and> \<not> RR_ReopenProposed result \<and>
         PriorityFactors_Validate factors = Ok () \<and>
         (\<exists>rules. PriorityRuleRepo_Effective rule_rows = Ok rules \<and> EvaluatePriority rules factors = Ok (RR_Priority result)) \<and>
         PriorityRuleVersion (GetEffectivePriorityRulesVersion version_rows) = Ok (RR_RuleVersion result))"
  using assms
  by (auto simp: RecomputePriority_plan_def Let_def result_simps empty_result_def split: if_splits)

text \<open>The write of a recomputation: the row, and the clocks of a priority that changed.\<close>

definition recomputed :: "Service \<Rightarrow> Env \<Rightarrow> RecomputePriorityInput \<Rightarrow> RecomputePriorityResult \<Rightarrow> RiskSignal \<Rightarrow> Db \<Rightarrow> Db \<Rightarrow> bool" where
  "recomputed sv en inp result cur db db' \<longleftrightarrow>
     (\<exists>uid r factors. sv_uuid sv (RC_SignalID inp) = Some uid \<and>
        signal_written uid r (recomputed_row (RR_Priority result) (RR_RuleVersion result) factors r) (db_signals db) (db_signals db') \<and>
        (if SR_AutoPriority r = None \<and> RR_Priority result \<noteq> Sig_Priority cur
         then \<forall>t\<in>set (Targets (sv_profile sv) (RR_Priority result)).
           covered uid t (pg_time (time_Add (en_now en) (Duration (sv_profile sv) (RR_Priority result) t))) (db_clocks db')
         else True))"

lemma recomputed_changed:
  "recomputed sv en inp (result\<lparr>RR_Changed := b\<rparr>) cur db db' = recomputed sv en inp result cur db db'"
  by (simp add: recomputed_def)


section \<open>What a publication does\<close>

lemma enqueue_one:
  assumes "enqueuePriorityRecompute sv eid oid target ruleVersion cid now db = Inr (appended, db')"
  shows "\<exists>h new. PriorityInputHash sv ''priority_recompute.enqueue'' ruleVersion (PT_Factors target) = Ok h \<and>
    db' = db\<lparr>db_outbox := db_outbox db @ new\<rparr> \<and>
    (\<forall>r\<in>set new. Ob_Type r = EventTypePriorityRecompute \<and> Ob_DedupeKey r \<notin> Ob_DedupeKey ` set (db_outbox db)) \<and>
    length new = (if appended then 1 else 0) \<and>
    PriorityRecomputeDedupeKey (PT_SignalID target) ruleVersion h \<in> Ob_DedupeKey ` set (db_outbox db')"
proof -
  obtain h where h: "PriorityInputHash sv ''priority_recompute.enqueue'' ruleVersion (PT_Factors target) = Ok h"
    and run: "(if ExistsDedupeKey (PriorityRecomputeDedupeKey (PT_SignalID target) ruleVersion h) (db_outbox db) then tx_return False
      else tx_bind (tx_lift (recomputePayload sv ''priority_recompute.enqueue'' eid (PT_SignalID target) ruleVersion h now cid)) (\<lambda>payload.
        tx_bind (outbox_Append oid (outbox_event EventTypePriorityRecompute payload
          (PriorityRecomputeDedupeKey (PT_SignalID target) ruleVersion h) now)) (\<lambda>_. tx_return True))) db = Inr (appended, db')"
    using assms unfolding enqueuePriorityRecompute_def Let_def tx_bind_Ok_iff [of "tx_lift _"] tx_lift_Ok_iff tx_bind_exists
    by auto
  show ?thesis
  proof (cases "ExistsDedupeKey (PriorityRecomputeDedupeKey (PT_SignalID target) ruleVersion h) (db_outbox db)")
    case True
    then have "db' = db" "\<not> appended" using run by (simp_all add: tx_return_Ok_iff)
    then show ?thesis using h True by (intro exI [of _ h] exI [of _ "[]"]) (simp add: ExistsDedupeKey_iff)
  next
    case False
    then obtain payload where "outbox_Append oid (outbox_event EventTypePriorityRecompute payload
        (PriorityRecomputeDedupeKey (PT_SignalID target) ruleVersion h) now) db = Inr ((), db')" "appended"
      using run by (simp add: tx_bind_Ok_iff tx_lift_Ok_iff tx_return_Ok_iff) blast
    then obtain row where "db' = db\<lparr>db_outbox := db_outbox db @ [row]\<rparr>" "Ob_Type row = EventTypePriorityRecompute"
      "Ob_DedupeKey row = PriorityRecomputeDedupeKey (PT_SignalID target) ruleVersion h"
      "Ob_DedupeKey row \<notin> Ob_DedupeKey ` set (db_outbox db)" "appended"
      by (auto simp: outbox_Append_Ok_iff OutboxRepo_Append_Ok outbox_event_def)
    then show ?thesis using h by (intro exI [of _ h] exI [of _ "[row]"]) auto
  qed
qed

lemma enqueue_targets_ok:
  assumes "enqueue_targets sv eids oids i targets ruleVersion cid now n db = Inr (m, db')"
  shows "\<exists>new. db' = db\<lparr>db_outbox := db_outbox db @ new\<rparr> \<and> m = n + length new \<and>
    (\<forall>r\<in>set new. Ob_Type r = EventTypePriorityRecompute \<and> Ob_DedupeKey r \<notin> Ob_DedupeKey ` set (db_outbox db)) \<and>
    distinct (map Ob_DedupeKey new) \<and>
    (\<forall>t\<in>set targets. \<exists>h. PriorityInputHash sv ''priority_recompute.enqueue'' ruleVersion (PT_Factors t) = Ok h \<and>
       PriorityRecomputeDedupeKey (PT_SignalID t) ruleVersion h \<in> Ob_DedupeKey ` set (db_outbox db'))"
  using assms
proof (induction targets arbitrary: i n db)
  case Nil
  then show ?case by (intro exI [of _ "[]"]) (simp add: tx_return_Ok_iff)
next
  case (Cons t targets)
  obtain appended db1 where s: "enqueuePriorityRecompute sv (eids i) (oids i) t ruleVersion cid now db = Inr (appended, db1)"
    "enqueue_targets sv eids oids (Suc i) targets ruleVersion cid now (if appended then Suc n else n) db1 = Inr (m, db')"
    using Cons.prems by (auto simp: tx_bind_Ok_iff)
  obtain h new1 where 1: "PriorityInputHash sv ''priority_recompute.enqueue'' ruleVersion (PT_Factors t) = Ok h"
    "db1 = db\<lparr>db_outbox := db_outbox db @ new1\<rparr>"
    "\<forall>r\<in>set new1. Ob_Type r = EventTypePriorityRecompute \<and> Ob_DedupeKey r \<notin> Ob_DedupeKey ` set (db_outbox db)"
    "length new1 = (if appended then 1 else 0)"
    "PriorityRecomputeDedupeKey (PT_SignalID t) ruleVersion h \<in> Ob_DedupeKey ` set (db_outbox db1)"
    using enqueue_one [OF s(1)] by blast
  obtain new2 where 2: "db' = db1\<lparr>db_outbox := db_outbox db1 @ new2\<rparr>" "m = (if appended then Suc n else n) + length new2"
    "\<forall>r\<in>set new2. Ob_Type r = EventTypePriorityRecompute \<and> Ob_DedupeKey r \<notin> Ob_DedupeKey ` set (db_outbox db1)"
    "distinct (map Ob_DedupeKey new2)"
    "\<forall>t\<in>set targets. \<exists>h. PriorityInputHash sv ''priority_recompute.enqueue'' ruleVersion (PT_Factors t) = Ok h \<and>
       PriorityRecomputeDedupeKey (PT_SignalID t) ruleVersion h \<in> Ob_DedupeKey ` set (db_outbox db')"
    using Cons.IH [OF s(2)] by blast
  have one: "distinct (map Ob_DedupeKey new1)" using 1(4) by (cases new1) (auto split: if_splits)
  have "Ob_DedupeKey x \<noteq> Ob_DedupeKey y" if "x \<in> set new1" "y \<in> set new2" for x y
  proof
    assume same: "Ob_DedupeKey x = Ob_DedupeKey y"
    have "x \<in> set (db_outbox db1)" using that(1) 1(2) by simp
    then show False using 2(3) that(2) same by (metis imageI)
  qed
  then have dis: "distinct (map Ob_DedupeKey (new1 @ new2))" using one 2(4) by fastforce
  have keys: "\<forall>r\<in>set (new1 @ new2). Ob_Type r = EventTypePriorityRecompute \<and> Ob_DedupeKey r \<notin> Ob_DedupeKey ` set (db_outbox db)"
    using 1(2,3) 2(3) by auto
  have hit: "\<forall>t'\<in>set (t # targets). \<exists>h. PriorityInputHash sv ''priority_recompute.enqueue'' ruleVersion (PT_Factors t') = Ok h \<and>
       PriorityRecomputeDedupeKey (PT_SignalID t') ruleVersion h \<in> Ob_DedupeKey ` set (db_outbox db')"
  proof
    fix t' assume "t' \<in> set (t # targets)"
    then consider "t' = t" | "t' \<in> set targets" by auto
    then show "\<exists>h. PriorityInputHash sv ''priority_recompute.enqueue'' ruleVersion (PT_Factors t') = Ok h \<and>
       PriorityRecomputeDedupeKey (PT_SignalID t') ruleVersion h \<in> Ob_DedupeKey ` set (db_outbox db')"
    proof cases
      case 1
      have "set (db_outbox db1) \<subseteq> set (db_outbox db')" by (simp add: 2(1))
      with \<open>PriorityRecomputeDedupeKey (PT_SignalID t) ruleVersion h \<in> Ob_DedupeKey ` set (db_outbox db1)\<close>
        \<open>PriorityInputHash sv ''priority_recompute.enqueue'' ruleVersion (PT_Factors t) = Ok h\<close> 1
      show ?thesis by blast
    qed (use 2(5) in blast)
  qed
  have "db' = db\<lparr>db_outbox := db_outbox db @ (new1 @ new2)\<rparr>" "m = n + length (new1 @ new2)"
    using 1(2,4) 2(1,2) by simp_all
  with keys dis hit show ?case by blast
qed

lemma publish_statement_versions:
  assumes "PriorityRuleRepo_Publish rules t reason actor c rows = Inr (v, rows')"
  shows "v = GetEffectivePriorityRulesVersion rows + 1 \<and>
    (\<exists>fresh. rows' = rows @ fresh \<and> map PRR_RuleID fresh = map PRule_RuleID rules \<and> length fresh = 4 \<and>
       map PRR_Definition fresh = map PRule_Definition rules \<and> map PRR_Enabled fresh = map PRule_Enabled rules \<and>
       (\<forall>r\<in>set fresh. PRR_Version r = v))"
proof -
  obtain versions where p: "PublishRules_statement (pg_time t) (toTextOpt reason) actor (pg_time c) rules rows = Inr (versions, rows')"
    "versions \<noteq> []" "v = hd versions" "length rules = 4"
  proof -
    obtain versions rows'' where "PublishRules_statement (pg_time t) (toTextOpt reason) actor (pg_time c) rules rows = Inr (versions, rows'')"
      "(case versions of [] \<Rightarrow> InfraError ''priority_rules.publish'' | v # _ \<Rightarrow> Ok (v, rows'')) = Inr (v, rows')" "length rules = 4"
      using assms by (auto simp: PriorityRuleRepo_Publish_def Let_def result_simps)
    then show ?thesis by (cases versions) (auto intro: that)
  qed
  then show ?thesis
    by (cases rules) (auto simp: PublishRules_statement_def Let_def comp_def split: if_splits)
qed

text \<open>The transaction of a publication, when it succeeds.\<close>

lemma PublishPriorityRules_body_ok:
  assumes "PublishPriorityRules_body sv en eids oids aggregateID pool inp rules db = Inr (v, db')"
  shows "\<exists>rv fresh ev announced new. PriorityRuleVersion v = Ok rv \<and> v = GetEffectivePriorityRulesVersion (db_rules db) + 1 \<and>
    length fresh = 4 \<and> (\<forall>r\<in>set fresh. PRR_Version r = v) \<and>
    db' = db\<lparr>db_rules := db_rules db @ fresh, db_audit := db_audit db @ [ev], db_outbox := db_outbox db @ announced # new\<rparr> \<and>
    Ob_Type announced = EventTypePriorityRulesPublished \<and> (\<forall>r\<in>set new. Ob_Type r = EventTypePriorityRecompute) \<and>
    distinct (map Ob_DedupeKey (announced # new)) \<and>
    (\<forall>r\<in>set (announced # new). Ob_DedupeKey r \<notin> Ob_DedupeKey ` set (db_outbox db)) \<and>
    (\<forall>t\<in>set (OpenRecomputeTargets pool). \<exists>h. PriorityInputHash sv ''priority_recompute.enqueue'' rv (PT_Factors t) = Ok h \<and>
       PriorityRecomputeDedupeKey (PT_SignalID t) rv h \<in> Ob_DedupeKey ` set (db_outbox db'))"
proof -
  obtain rv after payload db1 db2 db3 cid n where b:
    "on_rules (PriorityRuleRepo_Publish rules (en_now en) (PP_Reason inp) (Act_ID (PP_Actor inp)) (en_now en)) db = Inr (v, db1)"
    "PriorityRuleVersion v = Ok rv"
    "appendRulesAudit sv aggregateID EventTypePriorityRulesPublished (PP_Actor inp) cid (en_now en) after db1 = Inr ((), db2)"
    "outbox_Append (en_outbox_id en) (outbox_event EventTypePriorityRulesPublished payload
        (EventTypePriorityRulesPublished @ '':'' @ rv) (en_now en)) db2 = Inr ((), db3)"
    "enqueueOpenPriorityRecomputes sv eids oids pool rv cid (en_now en) db3 = Inr (n, db')"
    using assms unfolding PublishPriorityRules_body_def Let_def tx_bind_Ok_iff tx_lift_Ok_iff tx_return_Ok_iff app_result_Ok_iff
    by auto
  obtain rows where r: "PriorityRuleRepo_Publish rules (en_now en) (PP_Reason inp) (Act_ID (PP_Actor inp)) (en_now en) (db_rules db) = Inr (v, rows)"
    "db1 = db\<lparr>db_rules := rows\<rparr>" using b(1) by (auto simp: on_rules_def result_simps)
  obtain fresh where f: "v = GetEffectivePriorityRulesVersion (db_rules db) + 1" "rows = db_rules db @ fresh" "length fresh = 4"
    "\<forall>r\<in>set fresh. PRR_Version r = v" using publish_statement_versions [OF r(1)] by blast
  obtain ev where a: "db2 = db1\<lparr>db_audit := db_audit db1 @ [ev]\<rparr>"
    using b(3) by (auto simp: appendRulesAudit_def audit_Append_Ok_iff)
  obtain announced where o': "db3 = db2\<lparr>db_outbox := db_outbox db2 @ [announced]\<rparr>" "Ob_Type announced = EventTypePriorityRulesPublished"
    "Ob_DedupeKey announced \<notin> Ob_DedupeKey ` set (db_outbox db2)"
    using b(4) by (auto simp: outbox_Append_Ok_iff OutboxRepo_Append_Ok outbox_event_def)
  obtain new where n: "db' = db3\<lparr>db_outbox := db_outbox db3 @ new\<rparr>"
    "\<forall>r\<in>set new. Ob_Type r = EventTypePriorityRecompute \<and> Ob_DedupeKey r \<notin> Ob_DedupeKey ` set (db_outbox db3)"
    "distinct (map Ob_DedupeKey new)"
    "\<forall>t\<in>set (OpenRecomputeTargets pool). \<exists>h. PriorityInputHash sv ''priority_recompute.enqueue'' rv (PT_Factors t) = Ok h \<and>
       PriorityRecomputeDedupeKey (PT_SignalID t) rv h \<in> Ob_DedupeKey ` set (db_outbox db')"
    using enqueue_targets_ok [OF b(5) [unfolded enqueueOpenPriorityRecomputes_def]] by blast
  show ?thesis
    by (rule exI [of _ rv], rule exI [of _ fresh], rule exI [of _ ev], rule exI [of _ announced], rule exI [of _ new])
      (use n(2,3) n(4) [unfolded n(1)] o'(2,3) b(2) f in \<open>auto simp: n(1) o'(1) a r(2)\<close>)
qed

text \<open>The version that is read after the commit is the one the transaction has checked: a failure leaves no trace.\<close>

lemma PublishPriorityRules_Ok:
  "PublishPriorityRules sv en eids oids aggregateID pool inp seen db = (Ok result, db') \<Longrightarrow>
     \<exists>rules. PublishPriorityRules_body sv en eids oids aggregateID pool inp rules db = Inr (PPR_Version result, db') \<and>
       PriorityRuleVersion (PPR_Version result) = Ok (PPR_RuleVersion result)"
  by (auto simp: PublishPriorityRules_def command_Ok_iff result_simps split: prod.splits sum.splits)

lemma PublishPriorityRules_Err:
  assumes "PublishPriorityRules sv en eids oids aggregateID pool inp seen db = (Inl e, db')"
  shows "db' = db"
proof (cases "command (PublishPriorityRules_check sv inp seen) (PublishPriorityRules_body sv en eids oids aggregateID pool inp) db")
  case (Pair res db1)
  show ?thesis
  proof (cases res)
    case (Inl e')
    then show ?thesis using assms command_Err [OF Pair [unfolded Inl]] by (simp add: PublishPriorityRules_def Pair Inl)
  next
    case (Inr v)
    then obtain rules where "PublishPriorityRules_body sv en eids oids aggregateID pool inp rules db = Inr (v, db1)"
      using Pair by (auto simp: command_Ok_iff)
    from PublishPriorityRules_body_ok [OF this] obtain rv where "PriorityRuleVersion v = Ok rv" by blast
    then show ?thesis using assms by (simp add: PublishPriorityRules_def Pair Inr)
  qed
qed

text \<open>C15: A publication reaches every open signal. When it succeeds, it adds one snapshot of four rules at the
  next version, changes no signal and no clock, announces the version once, and leaves in the
  outbox, for every signal that was open, the recomputation under that version and the signal's
  factors; what it enqueued is new, and each key occurs once.\<close>

theorem publish_reaches_every_open_signal:
  assumes "PublishPriorityRules sv en eids oids aggregateID pool inp seen db = (Ok result, db')"
  shows "PPR_Version result = GetEffectivePriorityRulesVersion (db_rules db) + 1 \<and>
    PriorityRuleVersion (PPR_Version result) = Ok (PPR_RuleVersion result) \<and>
    db_signals db' = db_signals db \<and> db_clocks db' = db_clocks db \<and>
    (\<exists>fresh. db_rules db' = db_rules db @ fresh \<and> length fresh = 4 \<and> (\<forall>r\<in>set fresh. PRR_Version r = PPR_Version result)) \<and>
    (\<exists>announced new. db_outbox db' = db_outbox db @ announced # new \<and> distinct (map Ob_DedupeKey (announced # new)) \<and>
       Ob_Type announced = EventTypePriorityRulesPublished \<and> (\<forall>r\<in>set new. Ob_Type r = EventTypePriorityRecompute)) \<and>
    (\<forall>r\<in>set pool. if IsClosed (SR_Status r) then True
       else \<exists>h. PriorityInputHash sv ''priority_recompute.enqueue'' (PPR_RuleVersion result) (SR_Factors r) = Ok h \<and>
         PriorityRecomputeDedupeKey (SR_ID r) (PPR_RuleVersion result) h \<in> Ob_DedupeKey ` set (db_outbox db'))"
proof -
  obtain rules where c: "PublishPriorityRules_body sv en eids oids aggregateID pool inp rules db = Inr (PPR_Version result, db')"
    "PriorityRuleVersion (PPR_Version result) = Ok (PPR_RuleVersion result)"
    using PublishPriorityRules_Ok [OF assms] by blast
  obtain fresh ev announced new where b: "PPR_Version result = GetEffectivePriorityRulesVersion (db_rules db) + 1"
    "length fresh = 4" "\<forall>r\<in>set fresh. PRR_Version r = PPR_Version result"
    "db' = db\<lparr>db_rules := db_rules db @ fresh, db_audit := db_audit db @ [ev], db_outbox := db_outbox db @ announced # new\<rparr>"
    "Ob_Type announced = EventTypePriorityRulesPublished" "\<forall>r\<in>set new. Ob_Type r = EventTypePriorityRecompute"
    "distinct (map Ob_DedupeKey (announced # new))"
    "\<forall>t\<in>set (OpenRecomputeTargets pool). \<exists>h. PriorityInputHash sv ''priority_recompute.enqueue'' (PPR_RuleVersion result) (PT_Factors t) = Ok h \<and>
       PriorityRecomputeDedupeKey (PT_SignalID t) (PPR_RuleVersion result) h \<in> Ob_DedupeKey ` set (db_outbox db')"
    using PublishPriorityRules_body_ok [OF c(1)] c(2) by auto
  have "\<lparr>PT_SignalID = SR_ID r, PT_Factors = SR_Factors r\<rparr> \<in> set (OpenRecomputeTargets pool)"
    if "r \<in> set pool" "\<not> IsClosed (SR_Status r)" for r
    using that by (force simp: OpenRecomputeTargets_def ListOpenRecomputeTargets_def)
  then have "\<exists>h. PriorityInputHash sv ''priority_recompute.enqueue'' (PPR_RuleVersion result) (SR_Factors r) = Ok h \<and>
      PriorityRecomputeDedupeKey (SR_ID r) (PPR_RuleVersion result) h \<in> Ob_DedupeKey ` set (db_outbox db')"
    if "r \<in> set pool" "\<not> IsClosed (SR_Status r)" for r
    using b(8) that by fastforce
  moreover have "\<exists>announced new. db_outbox db' = db_outbox db @ announced # new \<and> distinct (map Ob_DedupeKey (announced # new)) \<and>
       Ob_Type announced = EventTypePriorityRulesPublished \<and> (\<forall>r\<in>set new. Ob_Type r = EventTypePriorityRecompute)"
    by (intro exI [of _ announced] exI [of _ new]) (use b(4-7) in simp)
  moreover have "\<exists>fresh. db_rules db' = db_rules db @ fresh \<and> length fresh = 4 \<and> (\<forall>r\<in>set fresh. PRR_Version r = PPR_Version result)"
    by (intro exI [of _ fresh]) (use b(2-4) in simp)
  moreover have "db_signals db' = db_signals db" "db_clocks db' = db_clocks db" using b(4) by simp_all
  ultimately show ?thesis using b(1) c(2) by auto
qed

text \<open>The separator keeps a version and a factor set apart: no two pairs are hashed as one text.\<close>

lemma hash_input_inj:
  "CHR 0x1F \<notin> set v \<Longrightarrow> CHR 0x1F \<notin> set w \<Longrightarrow> hash_input v s = hash_input w t \<longleftrightarrow> v = w \<and> s = t"
proof (induction v arbitrary: w)
  case Nil
  then show ?case by (cases w) (auto simp: hash_input_def)
next
  case (Cons c v)
  then show ?case by (cases w) (auto simp: hash_input_def)
qed

section \<open>Witnesses\<close>

definition seed_rows :: "PriorityRuleRow list" where
  "seed_rows = map (\<lambda>r. \<lparr>PRR_RuleID = PRule_RuleID r, PRR_Version = 1, PRR_Definition = PRule_Definition r,
     PRR_Enabled = True, PRR_EffectiveFrom = 1000, PRR_Reason = None, PRR_ActorID = ''seed'', PRR_CreatedAt = 1000\<rparr>) SeedPriorityRules"

definition sample_recompute :: RecomputePriorityInput where
  "sample_recompute = \<lparr>RC_SignalID = ''s1'',
     RC_Actor = \<lparr>Act_Type = ''system'', Act_ID = ''priority-recompute'', Act_DisplayName = ''''\<rparr>, RC_CorrelationID = ''''\<rparr>"

definition sample_rebuild :: "string \<Rightarrow> app_error + PriorityFactorRebuild" where
  "sample_rebuild = (\<lambda>_. Ok \<lparr>RB_CVEID = ''CVE-2024-1'', RB_Factors = ex_factors\<rparr>)"

definition recompute_step :: "Db \<Rightarrow> (app_error + RecomputePriorityResult) \<times> Db" where
  "recompute_step db = RecomputePriority sample_service sample_env sample_recompute db seed_rows seed_rows sample_rebuild db"

definition sample_with_clock :: Db where
  "sample_with_clock = sample_db\<lparr>db_clocks := [\<lparr>SCR_ID = ''k'', SCR_SignalID = ''s1'', SCR_Target = SLATargetAssessment,
     SCR_StartedAt = 1000, SCR_DeadlineAt = 604800000001000, SCR_FulfilledAt = None, SCR_PausedSeconds = 0, SCR_PausedAt = None\<rparr>]\<rparr>"

lemma recompute_sample: "case fst (recompute_step sample_with_clock) of Inl _ \<Rightarrow> False | Inr r \<Rightarrow> RR_Changed r \<and> RR_Priority r = PriorityP1"
  by code_simp


definition sample_publish :: PublishPriorityRulesInput where
  "sample_publish = \<lparr>PP_Reason = ''review'', PP_Actor = \<lparr>Act_Type = ''system'', Act_ID = ''cli'', Act_DisplayName = ''''\<rparr>,
     PP_Rules = [], PP_CorrelationID = ''''\<rparr>"

definition sample_publication :: "(app_error + PublishPriorityRulesResult) \<times> Db" where
  "sample_publication = PublishPriorityRules sample_service sample_env (\<lambda>_. ''e'') (\<lambda>_. ''o'') ''agg''
     (db_signals sample_db) sample_publish sample_db sample_db"

lemma publish_reaches_every_open_signal_witness:
  "\<exists>h. PriorityRecomputeDedupeKey ''s1'' ''p0000000001'' h \<in> Ob_DedupeKey ` set (db_outbox (snd sample_publication))"
proof -
  have "case fst sample_publication of Inl _ \<Rightarrow> False | Inr r \<Rightarrow> PPR_RuleVersion r = ''p0000000001''" by code_simp
  then obtain r where r: "fst sample_publication = Ok r" "PPR_RuleVersion r = ''p0000000001''" by (auto split: sum.splits)
  then have p: "PublishPriorityRules sample_service sample_env (\<lambda>_. ''e'') (\<lambda>_. ''o'') ''agg'' (db_signals sample_db) sample_publish
      sample_db sample_db = (Ok r, snd sample_publication)"
    by (simp add: sample_publication_def prod_eq_iff)
  have s: "sample_signal \<in> set (db_signals sample_db)" "\<not> IsClosed (SR_Status sample_signal)" "SR_ID sample_signal = ''s1''"
    by (simp_all add: sample_db_def sample_signal_def)
  have "\<forall>x\<in>set (db_signals sample_db). if IsClosed (SR_Status x) then True
      else \<exists>h. PriorityInputHash sample_service ''priority_recompute.enqueue'' (PPR_RuleVersion r) (SR_Factors x) = Ok h \<and>
        PriorityRecomputeDedupeKey (SR_ID x) (PPR_RuleVersion r) h \<in> Ob_DedupeKey ` set (db_outbox (snd sample_publication))"
    using publish_reaches_every_open_signal [OF p] by blast
  from bspec [OF this s(1)] s(2,3) r(2) show ?thesis by (simp, blast)
qed

section \<open>A signal that cannot be reopened\<close>

text \<open>An override hides the priority a recomputation raised to P1; reverting it makes the signal P1 without the clocks of
  P1. Once such a signal is closed, every attempt to reopen it fails, for the clocks it lacks.\<close>

definition do_override :: "Db \<Rightarrow> (app_error + RiskSignal) \<times> Db" where
  "do_override db = OverridePriority sample_service sample_env sample_override db db"
definition do_revert :: "Db \<Rightarrow> (app_error + RiskSignal) \<times> Db" where
  "do_revert db = RevertPriority sample_service sample_env
     \<lparr>RP_SignalID = ''s1'', RP_ExpectedVersion = 3, RP_Actor = sample_actor, RP_CorrelationID = ''c''\<rparr> db db"
definition do_close :: "Db \<Rightarrow> (app_error + RiskSignal) \<times> Db" where
  "do_close db = TransitionSignal sample_service sample_env (sample_transition SignalStatusNotAffected 4) db db"
definition do_reopen :: "Db \<Rightarrow> (app_error + RiskSignal) \<times> Db" where
  "do_reopen db = TransitionSignal sample_service (sample_env\<lparr>en_event_id := ''e2''\<rparr>) (sample_transition SignalStatusInReview 5) db db"

definition stuck :: "Db \<Rightarrow> bool" where
  "stuck db \<longleftrightarrow>
     map (\<lambda>r. (SR_Priority r, SR_Status r, SR_Version r)) (db_signals db) = [(PriorityP1, SignalStatusNotAffected, 5)] \<and>
     map SCR_Target (db_clocks db) = [SLATargetAssessment, SLATargetAcknowledgement] \<and>
     fst (do_reopen db) = Err (AppError KindNotFound ''sla_clocks.reset'')"

lemma reverted_signal_cannot_be_reopened:
  "stuck (snd (do_close (snd (do_revert (snd (recompute_step (snd (do_override sample_with_clock))))))))"
  by code_simp

end
