(* ===== verification/SignalInvariant.thy ===== *)
theory SignalInvariant
  imports Recompute
begin

text \<open>
  Histories of the database of signals: every sequence of creations, commands, evaluations of the
  clocks, recomputations, publications and work of the relay, each of which may have read an earlier
  state than it writes to. The invariant they keep, and what the optimistic lock gives.
\<close>

section \<open>Histories\<close>

text \<open>One step; a step that fails changes nothing, or keeps what it committed before it failed.\<close>

inductive signal_step :: "Service \<Rightarrow> Db \<Rightarrow> Db \<Rightarrow> bool" for sv where
  create: "CreateSignal sv en inp db = (res, db') \<Longrightarrow> sv_uuid sv (en_signal_id en) = Some (en_signal_id en) \<Longrightarrow>
     en_signal_id en \<notin> SR_ID ` set (db_signals db) \<Longrightarrow> signal_step sv db db'"
| command: "run_command sv en cmd seen db = (out, db') \<Longrightarrow> time_Micro \<le> en_now en \<Longrightarrow> signal_step sv db db'"
| evaluate: "EvaluateSla sv ens scan_now now db = (result, db') \<Longrightarrow> time_Micro \<le> now \<Longrightarrow> signal_step sv db db'"
| recompute: "RecomputePriority sv en rin seen vrows rrows rebuild db = (rout, db') \<Longrightarrow> signal_step sv db db'"
| publish: "PublishPriorityRules sv en eids oids agg pool pin seen db = (pout, db') \<Longrightarrow> signal_step sv db db'"
| relay: "outbox_step (db_outbox db) rows \<Longrightarrow> distinct (ob_ids (db_outbox db)) \<Longrightarrow> signal_step sv db (db\<lparr>db_outbox := rows\<rparr>)"

inductive signal_reaches :: "Service \<Rightarrow> Db \<Rightarrow> Db \<Rightarrow> bool" for sv where
  here: "signal_reaches sv db db"
| there: "signal_reaches sv db db1 \<Longrightarrow> signal_step sv db1 db2 \<Longrightarrow> signal_reaches sv db db2"

section \<open>The table of signals\<close>

text \<open>A later state of the table: no signal is lost, versions grow, and a version names one content.\<close>

definition signals_later :: "signals \<Rightarrow> signals \<Rightarrow> bool" where
  "signals_later rows rows' \<longleftrightarrow> (\<forall>uid r. row_at SR_ID uid rows = Some r \<longrightarrow>
     (\<exists>r'. row_at SR_ID uid rows' = Some r' \<and> SR_MatchID r' = SR_MatchID r \<and>
        (r' = r \<or> SR_Version r < SR_Version r')))"

lemma signals_later_refl: "signals_later rows rows"
  by (auto simp: signals_later_def)

lemma signals_laterE:
  assumes "signals_later rows rows'" "row_at SR_ID uid rows = Some r"
  obtains r' where "row_at SR_ID uid rows' = Some r'" "SR_MatchID r' = SR_MatchID r" "r' = r \<or> SR_Version r < SR_Version r'"
  using assms by (auto simp: signals_later_def)

lemma signals_later_trans:
  assumes "signals_later a b" "signals_later b c"
  shows "signals_later a c"
  unfolding signals_later_def
proof (intro allI impI)
  fix uid r assume "row_at SR_ID uid a = Some r"
  from signals_laterE [OF assms(1) this] obtain r1 where 1: "row_at SR_ID uid b = Some r1" "SR_MatchID r1 = SR_MatchID r"
    "r1 = r \<or> SR_Version r < SR_Version r1" .
  from signals_laterE [OF assms(2) 1(1)] obtain r2 where 2: "row_at SR_ID uid c = Some r2" "SR_MatchID r2 = SR_MatchID r1"
    "r2 = r1 \<or> SR_Version r1 < SR_Version r2" .
  show "\<exists>r'. row_at SR_ID uid c = Some r' \<and> SR_MatchID r' = SR_MatchID r \<and> (r' = r \<or> SR_Version r < SR_Version r')"
    by (rule exI [of _ r2]) (use 1 2 in auto)
qed

text \<open>A step of the table: it keeps the rows in order, and it is later.\<close>

definition signals_step :: "signals \<Rightarrow> signals \<Rightarrow> bool" where
  "signals_step rows rows' \<longleftrightarrow> (signals_ok rows \<longrightarrow> signals_ok rows') \<and> signals_later rows rows'"

lemma signals_step_refl: "signals_step rows rows"
  by (simp add: signals_step_def signals_later_refl)

lemma row_at_list: "distinct (map key rows) \<Longrightarrow> rows = map (\<lambda>k. the (row_at key k rows)) (map key rows)"
  by (rule nth_equalityI) (auto simp: row_at_unique)

lemma written_signals_ok:
  assumes w: "signal_written uid r r' rows rows'" "signal_write r r'" and ok: "signals_ok rows"
  shows "signals_ok rows'"
proof -
  have ids: "map SR_ID rows' = map SR_ID rows" and r: "row_at SR_ID uid rows = Some r"
    and rows': "\<And>j. row_at SR_ID j rows' = (if j = uid then Some r' else row_at SR_ID j rows)"
    using w(1) by (simp_all add: signal_written_def)
  have d: "distinct (map SR_ID rows)" "distinct (map SR_ID rows')" using ok ids by (simp_all add: signals_ok_def)
  have m: "SR_MatchID (the (row_at SR_ID j rows')) = SR_MatchID (the (row_at SR_ID j rows))" for j
    using rows' r w(2) by (simp add: signal_write_def)
  have "map SR_MatchID rows' = map (\<lambda>k. SR_MatchID (the (row_at SR_ID k rows'))) (map SR_ID rows')"
    by (subst row_at_list [OF d(2)]) simp
  also have "\<dots> = map (\<lambda>k. SR_MatchID (the (row_at SR_ID k rows))) (map SR_ID rows)" by (simp add: ids m)
  also have "\<dots> = map SR_MatchID rows" by (subst (2) row_at_list [OF d(1)]) simp
  finally have match: "map SR_MatchID rows' = map SR_MatchID rows" .
  have r': "signal_row_ok r'" using ok row_at_Some [OF r] w(2) by (simp add: signals_ok_def signal_write_def)
  have "signal_row_ok x" if "x \<in> set rows'" for x
    using row_at_unique [OF d(2) that] rows' r' ok row_at_Some [of SR_ID "SR_ID x" rows x] by (auto simp: signals_ok_def split: if_splits)
  then show ?thesis using ok d(2) match by (simp add: signals_ok_def)
qed

lemma written_signals_step: "signal_written uid r r' rows rows' \<Longrightarrow> signal_write r r' \<Longrightarrow> signals_step rows rows'"
  using written_signals_ok [of uid r r' rows rows']
  by (auto simp: signals_step_def signals_later_def signal_written_def signal_write_def)

lemma append_signals_step:
  assumes "SR_ID r \<notin> SR_ID ` set rows" "SR_MatchID r \<notin> SR_MatchID ` set rows" "signal_row_ok r"
  shows "signals_step rows (rows @ [r])"
proof -
  have "row_at SR_ID j (rows @ [r]) = (if j = SR_ID r then Some r else row_at SR_ID j rows)" for j
    by (rule row_at_append [OF assms(1)])
  moreover have "row_at SR_ID (SR_ID r) rows = None" using assms(1) by (simp add: row_at_None)
  ultimately have "signals_later rows (rows @ [r])" by (auto simp: signals_later_def)
  then show ?thesis using assms by (auto simp: signals_step_def signals_ok_def)
qed

section \<open>The invariant\<close>

definition db_ok :: "Db \<Rightarrow> bool" where
  "db_ok db \<longleftrightarrow> signals_ok (db_signals db) \<and> clocks_ok (db_clocks db) \<and> distinct (map Ob_DedupeKey (db_outbox db))"

lemma db_okD:
  "db_ok db \<Longrightarrow> distinct (map SR_ID (db_signals db))" "db_ok db \<Longrightarrow> escalations_ok (db_signals db)"
  "db_ok db \<Longrightarrow> clocks_ok (db_clocks db)" "db_ok db \<Longrightarrow> distinct (map Ob_DedupeKey (db_outbox db))"
  by (auto simp: db_ok_def signals_ok_def escalations_ok_def signal_row_ok_def)

text \<open>What each kind of step does to the database, as far as the invariant is concerned.\<close>

definition db_step :: "Db \<Rightarrow> Db \<Rightarrow> bool" where
  "db_step db db' \<longleftrightarrow> signals_step (db_signals db) (db_signals db') \<and> clocks_step (db_clocks db) (db_clocks db') \<and>
     (distinct (map Ob_DedupeKey (db_outbox db)) \<longrightarrow> distinct (map Ob_DedupeKey (db_outbox db')))"

lemma db_step_ok: "db_step db db' \<Longrightarrow> db_ok db \<Longrightarrow> db_ok db' \<and> signals_later (db_signals db) (db_signals db')"
  by (auto simp: db_step_def db_ok_def signals_step_def clocks_step_def)

lemma clocks_same: "clocks_step rows rows"
  using clocks_step_refl by (simp add: reflp_def)

lemma db_step_refl: "db_step db db"
  by (simp add: db_step_def signals_step_refl clocks_same)

lemma new_keys_distinct:
  "distinct (map Ob_DedupeKey new) \<Longrightarrow> \<forall>r\<in>set new. Ob_DedupeKey r \<notin> Ob_DedupeKey ` set rows \<Longrightarrow>
     distinct (map Ob_DedupeKey rows) \<longrightarrow> distinct (map Ob_DedupeKey (rows @ new))"
  by (auto simp: image_iff Ball_def dest: sym)

lemma command_step:
  assumes "run_command sv en cmd seen db = (out, db')" "time_Micro \<le> en_now en" "distinct (map SR_ID (db_signals db))"
    "canonical (sv_uuid sv)"
  shows "db_step db db'"
proof (cases out)
  case (Inl e)
  then show ?thesis using run_command_Err [OF assms(1) [unfolded Inl]] by (simp add: db_step_refl)
next
  case (Inr u)
  note eff = run_command_effect [OF assms(1) [unfolded Inr] assms(3,4,2)]
    run_command_write [OF assms(1) [unfolded Inr] assms(3,4,2)]
  have "signals_step (db_signals db) (db_signals db')"
  proof (cases "command_version cmd")
    case None
    then show ?thesis using eff(2) by (simp add: signals_step_refl)
  next
    case (Some v)
    then show ?thesis using eff(2) by (auto simp: command_write_def intro: written_signals_step)
  qed
  then show ?thesis using eff(1) by (auto simp: command_effect_def db_step_def)
qed

lemma ch93_priority_Valid: "Priority_Valid (ch93_priority f)"
  by (simp add: ch93_priority_def Let_def)

lemma create_step:
  assumes "CreateSignal sv en inp db = (res, db')" "sv_uuid sv (en_signal_id en) = Some (en_signal_id en)"
    "en_signal_id en \<notin> SR_ID ` set (db_signals db)"
  shows "db_step db db'"
proof (cases res)
  case (Inl e)
  then have "db' = db" using assms(1) by (auto simp: CreateSignal_def dest: command_Err)
  then show ?thesis by (simp add: db_step_refl)
next
  case (Inr a)
  obtain s cid where "a = (s, cid)" by (cases a)
  with assms(1) Inr have "CreateSignal sv en inp db = (Inr (s, cid), db')" by simp
  then show ?thesis
  proof (rule CreateSignal_steps, goal_cases)
    case (1 row ev db3 out)
    note st = this
    obtain clk evs where k: "db3 = db\<lparr>db_signals := db_signals db @ [row], db_clocks := clk, db_audit := (db_audit db @ [ev]) @ evs\<rparr>"
      "clocks_step (db_clocks db) clk"
      using clock_workD [OF createClocks_work st(19)] by auto
    have "Priority_Valid (SR_Priority row)"
      using st(1,6) EvaluatePriority_seed [of "CS_Factors inp"] 
      by (simp add: PriorityFactors_Validate_iff ComputePriority_def ch93_priority_Valid)
    then have "signal_row_ok row" using st(8-15) by (simp add: signal_row_ok_def max_int32_def)
    then have "signals_step (db_signals db) (db_signals db @ [row])"
      using append_signals_step st(3,5) assms(3) by simp
    then show ?thesis using k st(20,23) by (auto simp: db_step_def)
  qed
qed

lemma escalated_write:
  "SR_Version r + 1 \<le> max_int32 \<Longrightarrow> t \<noteq> 0 \<Longrightarrow>
     signal_write r (r\<lparr>SR_EscalatedAt := Some t, SR_Version := SR_Version r + 1\<rparr>)"
  by (auto simp: signal_write_def signal_row_ok_def split: option.splits)

lemma evaluate_round_step:
  assumes "evaluate_round sv now clock c db db'" "time_Micro \<le> now"
  shows "db_step db db'"
  using assms(1)
proof cases
  case (escalate uid r rows ev out)
  have "signals_step (db_signals db) rows"
    by (rule written_signals_step [OF escalate(8) escalated_write]) (use escalate(9) pg_time_pos [OF assms(2)] in simp_all)
  then show ?thesis using escalate(1,14) by (auto simp: db_step_def clocks_same)
qed (auto simp: db_step_def clocks_same signals_step_refl)

lemma db_step_trans: "db_step a b \<Longrightarrow> db_step b c \<Longrightarrow> db_step a c"
  using clocks_step_trans
  by (auto simp: db_step_def signals_step_def transp_def intro: signals_later_trans)

lemma evaluate_step:
  assumes "EvaluateSla sv ens scan_now now db = (out, db')" "time_Micro \<le> now" "escalations_ok (db_signals db)" "canonical (sv_uuid sv)"
  shows "db_step db db'"
proof -
  have "evaluate_pass sv now db db'" by (rule evaluate_loop_pass [OF assms(1) [unfolded EvaluateSla_def] assms(4,3,2)])
  then show ?thesis
    by induction (use evaluate_round_step [OF _ assms(2)] db_step_trans db_step_refl in blast)+
qed

lemma recomputed_write:
  "SR_Version r + 1 \<le> max_int32 \<Longrightarrow> Priority_Valid p \<Longrightarrow> signal_write r (recomputed_row p ruleVersion factors r)"
  by (auto simp: signal_write_def signal_row_ok_def recomputed_row_def split: option.splits)

lemma recompute_db_step:
  assumes "RecomputePriority sv en inp seen vrows rrows rebuild db = (out, db')"
    "distinct (map SR_ID (db_signals db))" "canonical (sv_uuid sv)" "clocks_ok (db_clocks db)"
  shows "db_step db db'"
proof (cases "RecomputePriority_plan sv inp seen vrows rrows rebuild")
  case (Inl e)
  then show ?thesis using assms(1) by (simp add: RecomputePriority_def db_step_refl)
next
  case (Inr plan)
  show ?thesis
  proof (cases plan)
    case (PlanNothing result)
    then show ?thesis using assms(1) Inr by (simp add: RecomputePriority_def db_step_refl)
  next
    case (PlanPropose result current cveID p)
    then obtain o' where p: "proposeReopen sv en current (RC_Actor inp) cveID (computed_priority current) p (RR_RuleVersion result)
        (RR_InputHash result) (correlationOrNew en (RC_CorrelationID inp)) (en_now en) db = (o', db')"
      using assms(1) Inr by (auto simp: RecomputePriority_def split: prod.splits sum.splits)
    show ?thesis
    proof (cases o')
      case (Inl e)
      then have "db' = db" using p by (auto simp: proposeReopen_def Let_def dest: runTx_Err)
      then show ?thesis by (simp add: db_step_refl)
    next
      case (Inr proposed)
      from proposeReopen_ok [OF p [unfolded Inr]] show ?thesis
        by (auto simp: db_step_def clocks_same signals_step_refl split: if_splits)
    qed
  next
    case (PlanWrite result current factors)
    then obtain o' where p: "runTx (RecomputePriority_body sv en inp (result, current, factors)) db = (o', db')"
      using assms(1) Inr by (auto simp: RecomputePriority_def split: prod.splits sum.splits)
    show ?thesis
    proof (cases o')
      case (Inl e)
      then have "db' = db" using p by (auto dest: runTx_Err)
      then show ?thesis by (simp add: db_step_refl)
    next
      case (Inr u)
      from recompute_body_ok [OF _ assms(2-4)] p Inr obtain uid r where
        "clocks_step (db_clocks db) (db_clocks db')" "db_outbox db' = db_outbox db" "Priority_Valid (RR_Priority result)"
        "SR_Version r + 1 \<le> max_int32"
        "signal_written uid r (recomputed_row (RR_Priority result) (RR_RuleVersion result) factors r) (db_signals db) (db_signals db')"
        by (auto simp: runTx_Ok_iff) metis
      then show ?thesis using written_signals_step [OF _ recomputed_write] by (auto simp: db_step_def)
    qed
  qed
qed

lemma publish_step:
  assumes "PublishPriorityRules sv en eids oids agg pool inp seen db = (out, db')"
  shows "db_step db db'"
proof (cases out)
  case (Inl e)
  then show ?thesis using PublishPriorityRules_Err [OF assms [unfolded Inl]] by (simp add: db_step_refl)
next
  case (Inr result)
  obtain rules where "PublishPriorityRules_body sv en eids oids agg pool inp rules db = Inr (PPR_Version result, db')"
    using PublishPriorityRules_Ok [OF assms [unfolded Inr]] by blast
  from PublishPriorityRules_body_ok [OF this] obtain fresh ev announced new where
    b: "db' = db\<lparr>db_rules := db_rules db @ fresh, db_audit := db_audit db @ [ev], db_outbox := db_outbox db @ announced # new\<rparr>"
    "distinct (map Ob_DedupeKey (announced # new))" "\<forall>r\<in>set (announced # new). Ob_DedupeKey r \<notin> Ob_DedupeKey ` set (db_outbox db)"
    by blast
  show ?thesis using new_keys_distinct [OF b(2,3)] by (simp add: b(1) db_step_def clocks_same signals_step_refl)
qed

lemma relay_step:
  assumes "outbox_step (db_outbox db) rows" "distinct (ob_ids (db_outbox db))"
  shows "db_step db (db\<lparr>db_outbox := rows\<rparr>)"
proof -
  have keys: "map Ob_DedupeKey (map f t) = map Ob_DedupeKey t" if "\<forall>r\<in>set t. row_change r (f r)" for f t
    using that by (simp add: row_change_keys)
  from outbox_step_shape [OF assms] show ?thesis
  proof (elim disjE exE conjE)
    fix f assume "rows = map f (db_outbox db)" "\<forall>r\<in>set (db_outbox db). row_change r (f r)"
    with keys [of "db_outbox db" f] show ?thesis by (simp add: db_step_def clocks_same signals_step_refl del: map_map)
  qed (auto simp: db_step_def clocks_same signals_step_refl)
qed

lemma step_keeps_the_database:
  assumes "signal_step sv db db'" "db_ok db" "canonical (sv_uuid sv)"
  shows "db_step db db'"
  using assms(1)
proof cases
  case create
  then show ?thesis by (rule create_step)
next
  case command
  show ?thesis by (rule command_step [OF command db_okD(1) [OF assms(2)] assms(3)])
next
  case evaluate
  show ?thesis by (rule evaluate_step [OF evaluate db_okD(2) [OF assms(2)] assms(3)])
next
  case recompute
  show ?thesis by (rule recompute_db_step [OF recompute db_okD(1) [OF assms(2)] assms(3) db_okD(3) [OF assms(2)]])
next
  case publish
  then show ?thesis by (rule publish_step)
next
  case relay
  then show ?thesis by (simp add: relay_step)
qed

section \<open>The properties\<close>

text \<open>How a command changes the row it writes, as far as the row it had checked decides it: the status goes along the
  matrix from the checked status, and an override keeps aside the checked priority.\<close>

definition follows_check :: "signal_command \<Rightarrow> RiskSignal \<Rightarrow> SignalRow \<Rightarrow> SignalRow \<Rightarrow> bool" where
  "follows_check cmd cur r r' \<longleftrightarrow>
     (if SR_Status r' = SR_Status r then True else CanTransition (Sig_Status cur) (SR_Status r')) \<and>
     (case cmd of CmdOverride _ \<Rightarrow> Sig_AutoPriority cur = None \<and> SR_AutoPriority r' = Some (Sig_Priority cur) | _ \<Rightarrow> True)"

lemma run_command_follows_check:
  assumes "run_command sv en cmd seen db = (Ok u, db')" "distinct (map SR_ID (db_signals db))" "canonical (sv_uuid sv)"
    "time_Micro \<le> en_now en" "command_version cmd = Some v"
    "SignalRepo_GetRiskSignal (sv_uuid sv) (command_signal cmd) (db_signals seen) = Ok cur"
  shows "\<exists>uid r r'. sv_uuid sv (command_signal cmd) = Some uid \<and> SR_Version r = v \<and>
    signal_written uid r r' (db_signals db) (db_signals db') \<and> follows_check cmd cur r r'"
proof (cases cmd)
  case (CmdTransition i)
  then obtain s where s: "TransitionSignal sv en i seen db = (Ok s, db')" using assms(1) by (auto simp: forget_Ok_iff)
  from TransitionSignal_effect [OF this assms(2-4)] obtain uid r r' current where
    "sv_uuid sv (TS_SignalID i) = Some uid" "SR_Version r = TS_ExpectedVersion i"
    "r' = r\<lparr>SR_Status := TS_To i, SR_ClosedAt := map_option pg_time (if IsClosed (TS_To i) then Some (en_now en) else None),
        SR_Version := SR_Version r + 1\<rparr>" "signal_written uid r r' (db_signals db) (db_signals db')"
    "SignalRepo_GetRiskSignal (sv_uuid sv) (TS_SignalID i) (db_signals seen) = Ok current" "CanTransition (Sig_Status current) (TS_To i)"
    by blast
  then show ?thesis using assms(5,6) by (intro exI [of _ uid] exI [of _ r] exI [of _ r']) (simp add: CmdTransition follows_check_def)
next
  case (CmdAcknowledge i)
  then obtain s where s: "AcknowledgeSignal sv en i seen db = (Ok s, db')" using assms(1) by (auto simp: forget_Ok_iff)
  from AcknowledgeSignal_effect [OF this assms(2-4)] obtain uid r r' current where
    "sv_uuid sv (AK_SignalID i) = Some uid" "SR_Version r = AK_ExpectedVersion i"
    "r' = r\<lparr>SR_Status := SignalStatusInReview, SR_ClosedAt := None, SR_Version := SR_Version r + 1\<rparr>"
    "signal_written uid r r' (db_signals db) (db_signals db')"
    "SignalRepo_GetRiskSignal (sv_uuid sv) (AK_SignalID i) (db_signals seen) = Ok current"
    "CanTransition (Sig_Status current) SignalStatusInReview"
    by blast
  then show ?thesis using assms(5,6) by (intro exI [of _ uid] exI [of _ r] exI [of _ r']) (simp add: CmdAcknowledge follows_check_def)
next
  case (CmdAssignOwner i)
  then obtain s where "AssignOwner sv en i seen db = (Ok s, db')" using assms(1) by (auto simp: forget_Ok_iff)
  from AssignOwner_effect [OF this assms(2,3)] obtain uid r r' where
    "sv_uuid sv (AO_SignalID i) = Some uid" "SR_Version r = AO_ExpectedVersion i"
    "r' = r\<lparr>SR_Owner := toTextOpt (AO_Owner i), SR_Version := SR_Version r + 1\<rparr>"
    "signal_written uid r r' (db_signals db) (db_signals db')" by blast
  then show ?thesis using assms(5) by (intro exI [of _ uid] exI [of _ r] exI [of _ r']) (simp add: CmdAssignOwner follows_check_def)
next
  case (CmdOverride i)
  then obtain s where "OverridePriority sv en i seen db = (Ok s, db')" using assms(1) by (auto simp: forget_Ok_iff)
  from OverridePriority_effect [OF this assms(2,3)] obtain uid r r' current where
    "sv_uuid sv (OP_SignalID i) = Some uid" "SR_Version r = OP_ExpectedVersion i"
    "r' = r\<lparr>SR_Priority := OP_Priority i, SR_AutoPriority := Some (Sig_Priority current),
        SR_OverrideReason := Some (OP_Reason i), SR_OverrideActorID := Some (Act_ID (OP_Actor i)),
        SR_OverrideAt := Some (pg_time (en_now en)), SR_Version := SR_Version r + 1\<rparr>"
    "signal_written uid r r' (db_signals db) (db_signals db')"
    "SignalRepo_GetRiskSignal (sv_uuid sv) (OP_SignalID i) (db_signals seen) = Ok current" "Sig_AutoPriority current = None"
    by blast
  then show ?thesis using assms(5,6) by (intro exI [of _ uid] exI [of _ r] exI [of _ r']) (simp add: CmdOverride follows_check_def)
next
  case (CmdRevert i)
  then obtain s where "RevertPriority sv en i seen db = (Ok s, db')" using assms(1) by (auto simp: forget_Ok_iff)
  from RevertPriority_effect [OF this assms(2,3)] obtain uid r r' auto where
    "sv_uuid sv (RP_SignalID i) = Some uid" "SR_Version r = RP_ExpectedVersion i"
    "r' = r\<lparr>SR_Priority := auto, SR_AutoPriority := None, SR_OverrideReason := None,
        SR_OverrideActorID := None, SR_OverrideAt := None, SR_Version := SR_Version r + 1\<rparr>"
    "signal_written uid r r' (db_signals db) (db_signals db')" by blast
  then show ?thesis using assms(5) by (intro exI [of _ uid] exI [of _ r] exI [of _ r']) (simp add: CmdRevert follows_check_def)
qed (use assms(5) in auto)

lemma reaches_ok:
  assumes "signal_reaches sv db db'" "db_ok db" "canonical (sv_uuid sv)"
  shows "db_ok db' \<and> signals_later (db_signals db) (db_signals db')"
  using assms(1,2)
proof induction
  case here
  then show ?case by (simp add: signals_later_refl)
next
  case (there db0 db1 db2)
  then have ok: "db_ok db1" by simp
  from db_step_ok [OF step_keeps_the_database [OF there(2) ok assms(3)] ok] there(3,4) show ?case
    using signals_later_trans by blast
qed


text \<open>C10: What a command checks is what it writes. The checks of a command run on what it read before its transaction. If
  what it read is a state of the database's history, however old, and the command expects the version it
  read there, then the row it writes is the row it read: the status moves along the matrix, and an
  override keeps aside the priority in force.\<close>

theorem checked_row_is_the_written_row:
  assumes "signal_reaches sv seen db" "db_ok seen" "canonical (sv_uuid sv)" "time_Micro \<le> en_now en"
    "run_command sv en cmd seen db = (Ok (), db')"
    "SignalRepo_GetRiskSignal (sv_uuid sv) (command_signal cmd) (db_signals seen) = Ok cur"
    "command_version cmd = Some (Sig_Version cur)"
  shows "\<exists>uid r r'. sv_uuid sv (command_signal cmd) = Some uid \<and> cur = riskSignalFromRow r \<and>
    signal_written uid r r' (db_signals db) (db_signals db') \<and>
    (if SR_Status r' = SR_Status r then True else CanTransition (SR_Status r) (SR_Status r')) \<and>
    (case cmd of CmdOverride _ \<Rightarrow> SR_AutoPriority r = None \<and> SR_AutoPriority r' = Some (SR_Priority r) | _ \<Rightarrow> True)"
proof -
  have db: "db_ok db" "signals_later (db_signals seen) (db_signals db)" using reaches_ok [OF assms(1-3)] by auto
  obtain uid r r' where w: "sv_uuid sv (command_signal cmd) = Some uid" "SR_Version r = Sig_Version cur"
    "signal_written uid r r' (db_signals db) (db_signals db')" "follows_check cmd cur r r'"
    using run_command_follows_check [OF assms(5) db_okD(1) [OF db(1)] assms(3,4,7,6)] by blast
  obtain r0 where r0: "row_at SR_ID uid (db_signals seen) = Some r0" "cur = riskSignalFromRow r0"
    using assms(6) w(1) by (auto simp: GetRiskSignal_row)
  have "row_at SR_ID uid (db_signals db) = Some r" using w(3) by (simp add: signal_written_def)
  moreover have "SR_Version r = SR_Version r0" using w(2) r0(2) by (simp add: riskSignalFromRow_def)
  ultimately have "r = r0" using db(2) r0(1) by (auto elim: signals_laterE)
  then show ?thesis using w r0(2)
    by (intro exI [of _ uid] exI [of _ r] exI [of _ r'])
      (auto simp: follows_check_def riskSignalFromRow_def split: signal_command.splits)
qed

section \<open>Witnesses\<close>

definition sample_comment :: signal_command where
  "sample_comment = CmdComment \<lparr>AC_SignalID = ''s1'', AC_Body = ''seen'', AC_Actor = sample_actor, AC_CorrelationID = ''c''\<rparr>"

definition commented :: "(app_error + unit) \<times> Db" where
  "commented = run_command sample_service sample_env sample_comment sample_db sample_db"

definition late_review :: "(app_error + unit) \<times> Db" where
  "late_review = run_command sample_service sample_env sample_command sample_db (snd commented)"

lemma sample_db_ok: "db_ok sample_db"
  by (simp add: db_ok_def sample_db_def signals_ok_def clocks_ok_def sample_signal_def signal_row_ok_def max_int32_def)

lemma commented_reached: "signal_reaches sample_service sample_db (snd commented)"
proof -
  have "run_command sample_service sample_env sample_comment sample_db sample_db = (fst commented, snd commented)"
    by (simp add: commented_def)
  then show ?thesis using signal_reaches.there [OF signal_reaches.here signal_step.command [OF _ sample_env_now]] by blast
qed

lemma late_review_reached: "signal_reaches sample_service sample_db (snd late_review)"
proof -
  have "run_command sample_service sample_env sample_command sample_db (snd commented) = (fst late_review, snd late_review)"
    by (simp add: late_review_def)
  then show ?thesis using signal_reaches.there [OF commented_reached signal_step.command [OF _ sample_env_now]] by blast
qed

lemma late_review_ok: "fst late_review = Ok () \<and> map SR_Status (db_signals (snd late_review)) = [SignalStatusInReview]"
  by code_simp


lemma checked_row_is_the_written_row_witness:
  "\<exists>r r'. signal_written ''s1'' r r' (db_signals (snd commented)) (db_signals (snd late_review)) \<and>
     riskSignalFromRow sample_signal = riskSignalFromRow r"
proof -
  have run: "run_command sample_service sample_env sample_command sample_db (snd commented) = (Ok (), snd late_review)"
    using late_review_ok by (simp add: late_review_def prod_eq_iff)
  have read: "SignalRepo_GetRiskSignal (sv_uuid sample_service) (command_signal sample_command) (db_signals sample_db) =
      Ok (riskSignalFromRow sample_signal)"
    by (simp add: sample_db_def SignalRepo_GetRiskSignal_def with_uuid_def sample_service_def GetRiskSignalByID_def
        select_row_def sample_signal_def)
  have v: "command_version sample_command = Some (Sig_Version (riskSignalFromRow sample_signal))"
    by (simp add: riskSignalFromRow_def sample_signal_def)
  from checked_row_is_the_written_row [OF commented_reached sample_db_ok sample_canonical sample_env_now run read v]
  show ?thesis by (auto simp: sample_service_def)
qed

text \<open>A command that expects a version it has not read yet is checked against one row and written to another: a signal
  that was closed meanwhile goes from not affected to action planned, an edge the matrix does not have.\<close>

definition closed_meanwhile :: Db where
  "closed_meanwhile = snd (run_command sample_service sample_env (CmdTransition (sample_transition SignalStatusNotAffected 1)) sample_db sample_db)"

lemma future_version_leaves_the_matrix:
  "(case run_command sample_service (sample_env\<lparr>en_event_id := ''e2''\<rparr>) (CmdTransition (sample_transition SignalStatusActionPlanned 2))
      sample_db closed_meanwhile of
     (Inl _, _) \<Rightarrow> False
   | (Inr _, db') \<Rightarrow> map SR_Status (db_signals closed_meanwhile) = [SignalStatusNotAffected] \<and>
       map SR_Status (db_signals db') = [SignalStatusActionPlanned]) \<and>
   \<not> CanTransition SignalStatusNotAffected SignalStatusActionPlanned"
  by code_simp

end
