(* ===== verification/Calendar.thy ===== *)
theory Calendar
  imports Prelude
begin

text \<open>
  What the program uses of the calendar of Go's package time, in UTC: the date of an instant, moving it
  by years, and the layouts RFC 3339 and "2006-01". Instants count nanoseconds from the zero time, 1
  January of the year 1; years before are numbered 0, -1 and so on.
\<close>

section \<open>Dates\<close>

definition leap_year :: "int \<Rightarrow> bool" where
  "leap_year y \<longleftrightarrow> 4 dvd y \<and> (\<not> 100 dvd y \<or> 400 dvd y)"

text \<open>The days before the first of January of a year, from the zero time.\<close>

definition year_days :: "int \<Rightarrow> int" where
  "year_days y = 365 * (y - 1) + (y - 1) div 4 - (y - 1) div 100 + (y - 1) div 400"

definition month_lengths :: "bool \<Rightarrow> int list" where
  "month_lengths leap = [31, if leap then 29 else 28, 31, 30, 31, 30, 31, 31, 30, 31, 30, 31]"

definition year_length :: "bool \<Rightarrow> int" where
  "year_length leap = (if leap then 366 else 365)"

text \<open>The day of a date; a day past the end of its month is one of the next month, as \<open>time.Date\<close> normalises it.\<close>

definition date_days :: "int \<Rightarrow> nat \<Rightarrow> int \<Rightarrow> int" where
  "date_days y m d = year_days y + sum_list (take (m - 1) (month_lengths (leap_year y))) + (d - 1)"

text \<open>The year of a day: the cycles of 400, 100, 4 years and 1 year it is in.\<close>

definition year_of :: "int \<Rightarrow> int" where
  "year_of n =
     (let a = n div 146097; r = n mod 146097; b = min 3 (r div 36524); r1 = r - 36524 * b;
          c = r1 div 1461; r2 = r1 - 1461 * c; d = min 3 (r2 div 365)
      in 400 * a + 100 * b + 4 * c + d + 1)"

fun month_of :: "int list \<Rightarrow> int \<Rightarrow> nat \<Rightarrow> nat \<times> int" where
  "month_of [] d m = (m, d + 1)"
| "month_of (l # ls) d m = (if d < l then (m, d + 1) else month_of ls (d - l) (Suc m))"

definition date_of :: "int \<Rightarrow> int \<times> nat \<times> int" where
  "date_of n = (let y = year_of n in (y, month_of (month_lengths (leap_year y)) (n - year_days y) 1))"

section \<open>The calendar is one\<close>

lemma div_step:
  fixes y k :: int
  assumes "0 < k"
  shows "y div k = (y - 1) div k + (if k dvd y then 1 else 0)"
proof -
  define q r where "q = (y - 1) div k" and "r = (y - 1) mod k"
  have y: "y = k * q + (r + 1)" using mult_div_mod_eq [of k "y - 1"] by (simp add: q_def r_def)
  have "r < k" unfolding r_def by (rule pos_mod_bound [OF assms])
  moreover have "0 \<le> r" unfolding r_def by (rule pos_mod_sign [OF assms])
  ultimately have r: "0 \<le> r" "r + 1 \<le> k" by simp_all
  show ?thesis
  proof (cases "r + 1 = k")
    case True
    then have y2: "y = k * (q + 1)" using y by (simp add: algebra_simps)
    have "y div k = q + 1" "k dvd y" unfolding y2 using assms by simp_all
    then show ?thesis unfolding q_def [symmetric] by simp
  next
    case False
    then have "y div k = q" "y mod k = r + 1"
      using int_div_pos_eq [OF y] int_mod_pos_eq [OF y] r by simp_all
    then show ?thesis using r(1) by (auto simp: q_def dvd_eq_mod_eq_0)
  qed
qed

lemma dvd_last: "1 \<le> r \<Longrightarrow> r \<le> k \<Longrightarrow> k dvd k * q + r \<longleftrightarrow> r = k" for k q r :: int
  using zdvd_imp_le [of k r] by (auto simp: dvd_add_right_iff)

lemma leap_count:
  "P \<longrightarrow> Q \<Longrightarrow> Q \<longrightarrow> R \<Longrightarrow>
     (if R \<and> (\<not> Q \<or> P) then 366 else 365) = (365::int) + (if R then 1 else 0) - (if Q then 1 else 0) + (if P then 1 else 0)"
  by (cases P; cases Q; cases R) simp_all

lemma year_days_Suc: "year_days (y + 1) = year_days y + year_length (leap_year y)"
proof -
  have "400 dvd y \<longrightarrow> 100 dvd y" using dvd_trans [of 100 400 y] by simp
  moreover have "100 dvd y \<longrightarrow> 4 dvd y" using dvd_trans [of 4 100 y] by simp
  ultimately have "year_length (leap_year y) =
      365 + (if 4 dvd y then 1 else 0) - (if 100 dvd y then 1 else 0) + (if 400 dvd y then 1 else 0)"
    unfolding year_length_def leap_year_def by (rule leap_count)
  moreover have "year_days (y + 1) = 365 * y + y div 4 - y div 100 + y div 400"
    by (simp add: year_days_def)
  moreover have "year_days y = 365 * (y - 1) + (y - 1) div 4 - (y - 1) div 100 + (y - 1) div 400"
    by (rule year_days_def)
  moreover have "365 * y + (a + i) - (b + j) + (c + k) = 365 * (y - 1) + a - b + c + (365 + i - j + k)"
    for a b c i j k :: int by simp
  ultimately show ?thesis
    by (simp only: div_step [of 4 y] div_step [of 100 y] div_step [of 400 y] zero_less_numeral)
qed

lemma year_days_mono: "y \<le> z \<Longrightarrow> year_days y + 365 * (z - y) \<le> year_days z"
proof (induction "nat (z - y)" arbitrary: z)
  case 0
  then show ?case by simp
next
  case (Suc k)
  have "year_days y + 365 * (z - 1 - y) \<le> year_days (z - 1)"
    by (rule Suc.hyps(1)) (use Suc.hyps(2) in simp_all)
  moreover have "year_days (z - 1) + 365 \<le> year_days z"
    using year_days_Suc [of "z - 1"] by (simp add: year_length_def split: if_splits)
  ultimately show ?case by (simp add: algebra_simps)
qed

text \<open>The cycles of a day: the parts of a year counted from 0, and the day in the year.\<close>

lemma cycle_parts:
  fixes n :: int
  defines "a \<equiv> n div 146097"
  defines "r \<equiv> n mod 146097"
  defines "b \<equiv> min 3 (r div 36524)"
  defines "r1 \<equiv> r - 36524 * b"
  defines "c \<equiv> r1 div 1461"
  defines "r2 \<equiv> r1 - 1461 * c"
  defines "d \<equiv> min 3 (r2 div 365)"
  shows "0 \<le> b \<and> b \<le> 3 \<and> 0 \<le> c \<and> c \<le> 24 \<and> 0 \<le> d \<and> d \<le> 3"
    "n = 146097 * a + 36524 * b + 1461 * c + 365 * d + (r2 - 365 * d)" "0 \<le> r2 - 365 * d"
    "r2 - 365 * d < (if d = 3 \<and> (c = 24 \<longrightarrow> b = 3) then 366 else 365)"
proof -
  have r: "0 \<le> r" "r < 146097" by (simp_all add: r_def)
  have b: "0 \<le> b" "b \<le> 3" "0 \<le> r1" "r1 < (if b = 3 then 36525 else 36524)"
    using r unfolding b_def r1_def by (auto simp: min_def)
  have c: "0 \<le> c" "c \<le> 24" "0 \<le> r2" "r2 < 1461" "c = 24 \<Longrightarrow> b \<noteq> 3 \<Longrightarrow> r2 < 1460"
    using b unfolding c_def r2_def by (auto split: if_splits)
  have d: "0 \<le> d" "d \<le> 3" "0 \<le> r2 - 365 * d" "r2 - 365 * d < (if d = 3 then 366 else 365)"
    "d = 3 \<Longrightarrow> r2 < 1460 \<Longrightarrow> r2 - 365 * d < 365"
    using c(3,4) unfolding d_def by (auto simp: min_def)
  show "0 \<le> b \<and> b \<le> 3 \<and> 0 \<le> c \<and> c \<le> 24 \<and> 0 \<le> d \<and> d \<le> 3" using b c d by simp
  show "n = 146097 * a + 36524 * b + 1461 * c + 365 * d + (r2 - 365 * d)"
    unfolding a_def r2_def r1_def r_def by simp
  show "0 \<le> r2 - 365 * d" by (rule d(3))
  show "r2 - 365 * d < (if d = 3 \<and> (c = 24 \<longrightarrow> b = 3) then 366 else 365)"
    using d(4,5) c(5) by (cases "d = 3"; cases "c = 24"; cases "b = 3") simp_all
qed

lemma year_of_cycles:
  fixes a b c d :: int
  assumes "0 \<le> b \<and> b \<le> 3 \<and> 0 \<le> c \<and> c \<le> 24 \<and> 0 \<le> d \<and> d \<le> 3"
  shows "year_days (400 * a + 100 * b + 4 * c + d + 1) = 146097 * a + 36524 * b + 1461 * c + 365 * d"
    "leap_year (400 * a + 100 * b + 4 * c + d + 1) \<longleftrightarrow> d = 3 \<and> (c = 24 \<longrightarrow> b = 3)"
proof -
  let ?y = "400 * a + 100 * b + 4 * c + d"
  have "?y div 4 = 100 * a + 25 * b + c" by (rule int_div_pos_eq [where r = d]) (use assms in simp_all)
  moreover have "?y div 100 = 4 * a + b" by (rule int_div_pos_eq [where r = "4 * c + d"]) (use assms in simp_all)
  moreover have "?y div 400 = a" by (rule int_div_pos_eq [where r = "100 * b + 4 * c + d"]) (use assms in simp_all)
  ultimately show "year_days (?y + 1) = 146097 * a + 36524 * b + 1461 * c + 365 * d"
    by (simp add: year_days_def)
  have "4 dvd ?y + 1 \<longleftrightarrow> d = 3"
    using dvd_last [of "d + 1" 4 "100 * a + 25 * b + c"] assms by (simp add: algebra_simps)
  moreover have "100 dvd ?y + 1 \<longleftrightarrow> d = 3 \<and> c = 24"
    using dvd_last [of "4 * c + d + 1" 100 "4 * a + b"] assms by (simp add: algebra_simps) linarith
  moreover have "400 dvd ?y + 1 \<longleftrightarrow> d = 3 \<and> c = 24 \<and> b = 3"
    using dvd_last [of "100 * b + 4 * c + d + 1" 400 a] assms by (simp add: algebra_simps) linarith
  ultimately show "leap_year (?y + 1) \<longleftrightarrow> d = 3 \<and> (c = 24 \<longrightarrow> b = 3)"
    by (auto simp: leap_year_def)
qed

lemma year_of_bounds: "year_days (year_of n) \<le> n" "n < year_days (year_of n) + year_length (leap_year (year_of n))"
proof -
  note parts = cycle_parts [of n]
  note y = year_of_cycles [OF parts(1)]
  show "year_days (year_of n) \<le> n"
    unfolding year_of_def Let_def y(1) using parts(2,3) by linarith
  show "n < year_days (year_of n) + year_length (leap_year (year_of n))"
    unfolding year_of_def Let_def y(1) y(2) year_length_def using parts(2,4) by linarith
qed

lemma year_of_unique:
  assumes "year_days y \<le> n" "n < year_days y + year_length (leap_year y)"
  shows "year_of n = y"
proof (rule ccontr)
  assume "year_of n \<noteq> y"
  then consider "year_of n + 1 \<le> y" | "y + 1 \<le> year_of n" by linarith
  then show False
  proof cases
    case 1
    then show False using year_days_mono [OF 1] year_days_Suc [of "year_of n"] year_of_bounds(2) [of n] assms(1) by simp
  next
    case 2
    then show False using year_days_mono [OF 2] year_days_Suc [of y] year_of_bounds(1) [of n] assms(2) by simp
  qed
qed

lemma month_of_inverse:
  assumes "0 \<le> d" "d < sum_list ls" "\<forall>l\<in>set ls. 0 < l"
  shows "case month_of ls d m of (m', day) \<Rightarrow> m \<le> m' \<and> m' - m < length ls \<and> 1 \<le> day \<and> day \<le> ls ! (m' - m) \<and>
    sum_list (take (m' - m) ls) + (day - 1) = d"
  using assms
proof (induction ls arbitrary: d m)
  case (Cons l ls)
  show ?case
  proof (cases "d < l")
    case True
    then show ?thesis using Cons.prems(1) by simp
  next
    case False
    then have "case month_of ls (d - l) (Suc m) of (m', day) \<Rightarrow> Suc m \<le> m' \<and> m' - Suc m < length ls \<and> 1 \<le> day \<and>
        day \<le> ls ! (m' - Suc m) \<and> sum_list (take (m' - Suc m) ls) + (day - 1) = d - l"
      using Cons by simp
    moreover have "m' - m = Suc (m' - Suc m)" if "Suc m \<le> m'" for m' using that by simp
    ultimately show ?thesis using False by (auto split: prod.splits)
  qed
qed simp

lemma month_of_place:
  assumes "k < length ls" "1 \<le> day" "day \<le> ls ! k" "\<forall>l\<in>set ls. 0 < l"
  shows "month_of ls (sum_list (take k ls) + (day - 1)) m = (m + k, day)"
  using assms
proof (induction ls arbitrary: k m)
  case (Cons l ls)
  show ?case
  proof (cases k)
    case 0
    then show ?thesis using Cons.prems by simp
  next
    case (Suc j)
    have "0 \<le> sum_list (take j ls)" by (rule sum_list_nonneg) (use Cons.prems(4) in_set_takeD in fastforce)
    moreover have "month_of ls (sum_list (take j ls) + (day - 1)) (Suc m) = (Suc m + j, day)"
      by (rule Cons.IH) (use Cons.prems Suc in simp_all)
    ultimately show ?thesis using Cons.prems(2) Suc by simp
  qed
qed simp

lemma month_lengths_pos: "\<forall>l\<in>set (month_lengths leap). 0 < l"
  by (simp add: month_lengths_def)

lemma month_lengths_sum: "sum_list (month_lengths leap) = year_length leap" "length (month_lengths leap) = 12"
  by (simp_all add: month_lengths_def year_length_def)

definition valid_date :: "int \<Rightarrow> nat \<Rightarrow> int \<Rightarrow> bool" where
  "valid_date y m d \<longleftrightarrow> 1 \<le> m \<and> m \<le> 12 \<and> 1 \<le> d \<and> d \<le> month_lengths (leap_year y) ! (m - 1)"

lemma sum_take_less:
  "k < length ls \<Longrightarrow> day \<le> ls ! k \<Longrightarrow> \<forall>l\<in>set ls. 0 < l \<Longrightarrow> sum_list (take k ls) + (day - 1) < sum_list ls" for day :: int
proof (induction ls arbitrary: k)
  case (Cons l ls)
  have pos: "0 \<le> sum_list ls" by (rule sum_list_nonneg) (use Cons.prems(3) in fastforce)
  show ?case
  proof (cases k)
    case 0
    then show ?thesis using Cons.prems(2) pos by simp
  next
    case (Suc j)
    then show ?thesis using Cons.IH [of j] Cons.prems by simp
  qed
qed simp

lemma date_of_days:
  assumes "valid_date y m d"
  shows "date_of (date_days y m d) = (y, m, d)"
proof -
  let ?ls = "month_lengths (leap_year y)"
  have k: "m - 1 < length ?ls" "1 \<le> d" "d \<le> ?ls ! (m - 1)" "1 + (m - 1) = m"
    using assms by (auto simp: valid_date_def month_lengths_sum)
  have "0 \<le> sum_list (take (m - 1) ?ls)"
    by (rule sum_list_nonneg) (use month_lengths_pos [of "leap_year y"] in_set_takeD in fastforce)
  moreover have "sum_list (take (m - 1) ?ls) + (d - 1) < year_length (leap_year y)"
    using sum_take_less [OF k(1,3) month_lengths_pos] by (simp add: month_lengths_sum)
  ultimately have "year_of (date_days y m d) = y"
    by (intro year_of_unique) (use k(2) in \<open>simp_all add: date_days_def\<close>)
  then show ?thesis
    using month_of_place [OF k(1-3) month_lengths_pos, of 1] k(4) by (simp add: date_of_def date_days_def add.assoc)
qed

lemma days_of_date:
  "case date_of n of (y, m, d) \<Rightarrow> valid_date y m d \<and> date_days y m d = n"
proof -
  define y where "y = year_of n"
  let ?ls = "month_lengths (leap_year y)"
  have b: "0 \<le> n - year_days y" "n - year_days y < sum_list ?ls"
    using year_of_bounds [of n] by (simp_all add: y_def month_lengths_sum)
  have "case month_of ?ls (n - year_days y) 1 of (m, d) \<Rightarrow> 1 \<le> m \<and> m - 1 < length ?ls \<and> 1 \<le> d \<and> d \<le> ?ls ! (m - 1) \<and>
      sum_list (take (m - 1) ?ls) + (d - 1) = n - year_days y"
    by (rule month_of_inverse [OF b month_lengths_pos])
  then show ?thesis
    by (auto simp: date_of_def Let_def y_def [symmetric] valid_date_def date_days_def month_lengths_sum split: prod.splits)
qed

section \<open>Instants\<close>

definition time_Day :: duration where "time_Day = 86400000000000"

definition time_date :: "time \<Rightarrow> int \<times> nat \<times> int" where
  "time_date t = date_of (t div time_Day)"

text \<open>\<open>Time.AddDate(years, 0, 0)\<close>: the clock of the day stays; 29 February may become 1 March.\<close>

definition time_AddYears :: "time \<Rightarrow> int \<Rightarrow> time" where
  "time_AddYears t years = (case time_date t of (y, m, d) \<Rightarrow> date_days (y + years) m d * time_Day + t mod time_Day)"

definition int_digits :: "nat \<Rightarrow> int \<Rightarrow> string" where
  "int_digits w x = (if x < 0 then ''-'' @ pad_zeros w (itoa (nat (- x))) else pad_zeros w (itoa (nat x)))"

text \<open>\<open>Format("2006-01")\<close> and \<open>Format(time.RFC3339)\<close>.\<close>

definition format_month :: "time \<Rightarrow> string" where
  "format_month t = (case time_date t of (y, m, d) \<Rightarrow> int_digits 4 y @ ''-'' @ int_digits 2 (int m))"

definition format_RFC3339 :: "time \<Rightarrow> string" where
  "format_RFC3339 t =
     (case time_date t of (y, m, d) \<Rightarrow>
        let s = t mod time_Day div time_Second in
        int_digits 4 y @ ''-'' @ int_digits 2 (int m) @ ''-'' @ int_digits 2 d @ ''T'' @
        int_digits 2 (s div 3600) @ '':'' @ int_digits 2 (s div 60 mod 60) @ '':'' @ int_digits 2 (s mod 60) @ ''Z'')"

section \<open>Years back\<close>

lemma months_before: "sum_list (take k (month_lengths l)) = sum_list (take k (month_lengths False)) + (if l \<and> 2 \<le> k then 1 else 0)"
proof (cases "k < 2")
  case True
  then have "k = 0 \<or> k = 1" by auto
  then show ?thesis by (auto simp: month_lengths_def)
next
  case False
  then obtain j where "k = Suc (Suc j)" by (metis add_2_eq_Suc le_Suc_ex not_less)
  then show ?thesis by (simp add: month_lengths_def)
qed

lemma years_back:
  assumes "1 \<le> n"
  shows "date_days (y - n) m d + 365 * n \<le> date_days y m d"
proof -
  have "year_days (y - n + 1) + 365 * (y - (y - n + 1)) \<le> year_days y" by (rule year_days_mono) (use assms in simp)
  moreover have "year_days (y - n + 1) = year_days (y - n) + year_length (leap_year (y - n))" by (rule year_days_Suc)
  ultimately show ?thesis
    using months_before [of "m - 1" "leap_year y"] months_before [of "m - 1" "leap_year (y - n)"]
    by (auto simp: date_days_def year_length_def split: if_splits)
qed

text \<open>Going back a number of years goes back 365 days a year, at least.\<close>

lemma AddYears_back:
  assumes "1 \<le> n"
  shows "time_AddYears t (- n) + n * (365 * time_Day) \<le> t"
proof -
  obtain y m d where d: "time_date t = (y, m, d)" by (cases "time_date t") auto
  have "date_days y m d = t div time_Day"
    using days_of_date [of "t div time_Day"] d by (simp add: time_date_def)
  then have "date_days (y - n) m d + 365 * n \<le> t div time_Day"
    using years_back [OF assms, of y m d] by simp
  then have "(date_days (y - n) m d + 365 * n) * time_Day \<le> t div time_Day * time_Day"
    by (rule mult_right_mono) (simp add: time_Day_def)
  moreover have "t div time_Day * time_Day + t mod time_Day = t" by simp
  moreover have "(date_days (y - n) m d + 365 * n) * time_Day = date_days (y - n) m d * time_Day + n * (365 * time_Day)"
    by (simp add: algebra_simps)
  moreover have "time_AddYears t (- n) = date_days (y - n) m d * time_Day + t mod time_Day"
    by (simp add: time_AddYears_def d)
  ultimately show ?thesis by linarith
qed

lemma format_sample: "format_RFC3339 63902822400000000000 = ''2026-01-01T00:00:00Z''"
  by code_simp

end
