(* ===== verification/RetentionStore.thy ===== *)
theory RetentionStore
  imports Recompute Calendar
begin

text \<open>
  The tables of the retention (postgres/gen/retention.sql.go) and their repository
  (postgres/repo/retention.go) with the models of application/retention_ports.go: the runs, the legal
  holds, the redactions in place and the deletions by table.
\<close>

section \<open>Vocabulary\<close>

datatype RetentionStage = RetentionStagePseudonymise | RetentionStageDelete | OtherRetentionStage string

definition to_RetentionStage :: "string \<Rightarrow> RetentionStage" where
  "to_RetentionStage s =
    (if s = ''pseudonymise'' then RetentionStagePseudonymise
     else if s = ''delete'' then RetentionStageDelete
     else OtherRetentionStage s)"

fun RetentionStage_str :: "RetentionStage \<Rightarrow> string" where
  "RetentionStage_str RetentionStagePseudonymise = ''pseudonymise''"
| "RetentionStage_str RetentionStageDelete = ''delete''"
| "RetentionStage_str (OtherRetentionStage s) = s"

fun RetentionStage_Valid :: "RetentionStage \<Rightarrow> bool" where
  "RetentionStage_Valid RetentionStagePseudonymise = True"
| "RetentionStage_Valid RetentionStageDelete = True"
| "RetentionStage_Valid (OtherRetentionStage s) = False"

interpretation RetentionStage: vocabulary_base to_RetentionStage RetentionStage_str RetentionStage_Valid
proof
  show "RetentionStage_str (to_RetentionStage s) = s" for s by (simp add: to_RetentionStage_def)
  show "RetentionStage_Valid v \<Longrightarrow> to_RetentionStage (RetentionStage_str v) = v" for v
    by (cases v) (simp_all add: to_RetentionStage_def)
qed

datatype RetentionRunStatus =
    RetentionStatusDryRun
  | RetentionStatusApproved
  | RetentionStatusExecuting
  | RetentionStatusCompleted
  | RetentionStatusFailed
  | RetentionStatusRejected
  | OtherRetentionRunStatus string

definition to_RetentionRunStatus :: "string \<Rightarrow> RetentionRunStatus" where
  "to_RetentionRunStatus s =
    (if s = ''dry_run'' then RetentionStatusDryRun
     else if s = ''approved'' then RetentionStatusApproved
     else if s = ''executing'' then RetentionStatusExecuting
     else if s = ''completed'' then RetentionStatusCompleted
     else if s = ''failed'' then RetentionStatusFailed
     else if s = ''rejected'' then RetentionStatusRejected
     else OtherRetentionRunStatus s)"

fun RetentionRunStatus_str :: "RetentionRunStatus \<Rightarrow> string" where
  "RetentionRunStatus_str RetentionStatusDryRun = ''dry_run''"
| "RetentionRunStatus_str RetentionStatusApproved = ''approved''"
| "RetentionRunStatus_str RetentionStatusExecuting = ''executing''"
| "RetentionRunStatus_str RetentionStatusCompleted = ''completed''"
| "RetentionRunStatus_str RetentionStatusFailed = ''failed''"
| "RetentionRunStatus_str RetentionStatusRejected = ''rejected''"
| "RetentionRunStatus_str (OtherRetentionRunStatus s) = s"

fun RetentionRunStatus_Valid :: "RetentionRunStatus \<Rightarrow> bool" where
  "RetentionRunStatus_Valid (OtherRetentionRunStatus s) = False"
| "RetentionRunStatus_Valid _ = True"

interpretation RetentionRunStatus: vocabulary_base to_RetentionRunStatus RetentionRunStatus_str RetentionRunStatus_Valid
proof
  show "RetentionRunStatus_str (to_RetentionRunStatus s) = s" for s by (simp add: to_RetentionRunStatus_def)
  show "RetentionRunStatus_Valid v \<Longrightarrow> to_RetentionRunStatus (RetentionRunStatus_str v) = v" for v
    by (cases v) (simp_all add: to_RetentionRunStatus_def)
qed

section \<open>Models\<close>

record RetentionCounts =
  Cnt_Candidates :: int
  Cnt_Held :: int
  Cnt_ToPseudonymise :: int
  Cnt_ToDelete :: int

record RetentionRedaction =
  Red_DisplayNamesCleared :: int
  Red_CommentBodiesRedacted :: int
  Red_OverrideReasonsRedacted :: int
  Red_SnapshotReasonsRedacted :: int

definition RetentionRedaction_Total :: "RetentionRedaction \<Rightarrow> int" where
  "RetentionRedaction_Total r =
     Red_DisplayNamesCleared r + Red_CommentBodiesRedacted r + Red_OverrideReasonsRedacted r +
     Red_SnapshotReasonsRedacted r"

record RetentionCandidate =
  Cand_SignalID :: string
  Cand_ClosedAt :: time
  Cand_Held :: bool
  Cand_HoldReason :: string

record RetentionRun =
  Run_ID :: string
  Run_PolicyID :: string
  Run_Stage :: RetentionStage
  Run_Cutoff :: time
  Run_PartitionKey :: string
  Run_Status :: RetentionRunStatus
  Run_DryRun :: "RetentionCounts option"
  Run_ApprovedBy :: string
  Run_ApprovedAt :: time
  Run_ApprovalReason :: string
  Run_StartedAt :: time
  Run_FinishedAt :: time
  Run_Pseudonymised :: int
  Run_Deleted :: int
  Run_Failed :: int
  Run_LastError :: string

record RetentionRunRecord =
  RRec_PolicyID :: string
  RRec_Stage :: RetentionStage
  RRec_Cutoff :: time
  RRec_PartitionKey :: string
  RRec_Counts :: RetentionCounts

record RetentionRunCounts =
  RC_Pseudonymised :: int
  RC_Deleted :: int
  RC_Failed :: int
  RC_LastError :: string

record LegalHold =
  Hold_ID :: string
  Hold_AggregateType :: string
  Hold_AggregateID :: string
  Hold_Reason :: string
  Hold_ActorID :: string
  Hold_CreatedAt :: time
  Hold_ReleasedAt :: time

definition LegalHold_Active :: "LegalHold \<Rightarrow> bool" where
  "LegalHold_Active h = time_IsZero (Hold_ReleasedAt h)"

record HoldRecord =
  HRec_AggregateType :: string
  HRec_AggregateID :: string
  HRec_Reason :: string
  HRec_ActorID :: string
  HRec_CreatedAt :: time

record HoldFilter =
  HF_AggregateType :: string
  HF_AggregateID :: string
  HF_Active :: "bool option"

section \<open>Rows\<close>

text \<open>The column \<open>dry_run\<close> as the counts its JSON encodes.\<close>

record RetentionRunRow =
  RR_ID :: string
  RR_PolicyID :: string
  RR_Stage :: RetentionStage
  RR_Cutoff :: time
  RR_PartitionKey :: string
  RR_Status :: RetentionRunStatus
  RR_DryRun :: "RetentionCounts option"
  RR_ApprovedBy :: "string option"
  RR_ApprovedAt :: "time option"
  RR_ApprovalReason :: "string option"
  RR_StartedAt :: "time option"
  RR_FinishedAt :: "time option"
  RR_PseudonymisedCount :: int
  RR_DeletedCount :: int
  RR_FailedCount :: int
  RR_LastError :: "string option"

record LegalHoldRow =
  LH_ID :: string
  LH_AggregateType :: string
  LH_AggregateID :: string
  LH_Reason :: string
  LH_ActorID :: string
  LH_CreatedAt :: time
  LH_ReleasedAt :: "time option"

text \<open>Of a notification, what the retention reads: its key and the signal it refers to.\<close>

record NotificationRow =
  NR_ID :: string
  NR_SignalID :: string

record Rdb =
  rd_db :: Db
  rd_runs :: "RetentionRunRow list"
  rd_holds :: "LegalHoldRow list"
  rd_notifications :: "NotificationRow list"

definition retentionRunFromRow :: "RetentionRunRow \<Rightarrow> RetentionRun" where
  "retentionRunFromRow row =
     \<lparr>Run_ID = RR_ID row, Run_PolicyID = RR_PolicyID row, Run_Stage = RR_Stage row, Run_Cutoff = RR_Cutoff row,
      Run_PartitionKey = RR_PartitionKey row, Run_Status = RR_Status row, Run_DryRun = RR_DryRun row,
      Run_ApprovedBy = textValue (RR_ApprovedBy row), Run_ApprovedAt = tsTime (RR_ApprovedAt row),
      Run_ApprovalReason = textValue (RR_ApprovalReason row), Run_StartedAt = tsTime (RR_StartedAt row),
      Run_FinishedAt = tsTime (RR_FinishedAt row), Run_Pseudonymised = RR_PseudonymisedCount row,
      Run_Deleted = RR_DeletedCount row, Run_Failed = RR_FailedCount row,
      Run_LastError = textValue (RR_LastError row)\<rparr>"

definition legalHoldFromRow :: "LegalHoldRow \<Rightarrow> LegalHold" where
  "legalHoldFromRow row =
     \<lparr>Hold_ID = LH_ID row, Hold_AggregateType = LH_AggregateType row, Hold_AggregateID = LH_AggregateID row,
      Hold_Reason = LH_Reason row, Hold_ActorID = LH_ActorID row, Hold_CreatedAt = LH_CreatedAt row,
      Hold_ReleasedAt = tsTime (LH_ReleasedAt row)\<rparr>"

section \<open>Statements on runs\<close>

text \<open>\<open>INSERT\<close> with the identifier of the column default; the checks admit the two vocabularies.\<close>

definition InsertRetentionRun ::
  "string \<Rightarrow> string \<Rightarrow> RetentionStage \<Rightarrow> time \<Rightarrow> string \<Rightarrow> RetentionRunStatus \<Rightarrow> RetentionCounts \<Rightarrow>
     RetentionRunRow list \<Rightarrow> db_error + RetentionRunRow \<times> RetentionRunRow list" where
  "InsertRetentionRun newid policyID stage cutoff partitionKey status counts rows =
     (if \<not> RetentionStage_Valid stage \<or> \<not> RetentionRunStatus_Valid status then Err CheckViolation
      else
        (let row = \<lparr>RR_ID = newid, RR_PolicyID = policyID, RR_Stage = stage, RR_Cutoff = cutoff,
            RR_PartitionKey = partitionKey, RR_Status = status, RR_DryRun = Some counts, RR_ApprovedBy = None,
            RR_ApprovedAt = None, RR_ApprovalReason = None, RR_StartedAt = None, RR_FinishedAt = None,
            RR_PseudonymisedCount = 0, RR_DeletedCount = 0, RR_FailedCount = 0, RR_LastError = None\<rparr>
         in Ok (row, rows @ [row])))"

definition GetRetentionRun_statement :: "string \<Rightarrow> RetentionRunRow list \<Rightarrow> db_error + RetentionRunRow" where
  "GetRetentionRun_statement uid = select_row (\<lambda>r. RR_ID r = uid)"

definition ListRetentionRuns_statement :: "RetentionRunRow list \<Rightarrow> RetentionRunRow list" where
  "ListRetentionRuns_statement rows = sort_key (\<lambda>r. - RR_Cutoff r) (sort_key RR_ID rows)"

definition guarded_run ::
  "string \<Rightarrow> RetentionRunStatus set \<Rightarrow> (RetentionRunRow \<Rightarrow> RetentionRunRow) \<Rightarrow> RetentionRunRow list \<Rightarrow>
     db_error + RetentionRunRow \<times> RetentionRunRow list" where
  "guarded_run uid statuses f = update_row (\<lambda>r. RR_ID r = uid \<and> RR_Status r \<in> statuses) (\<lambda>r. Ok (f r))"

definition MarkRetentionRunApproved ::
  "string option \<Rightarrow> time \<Rightarrow> string option \<Rightarrow> string \<Rightarrow> RetentionRunRow list \<Rightarrow>
     db_error + RetentionRunRow \<times> RetentionRunRow list" where
  "MarkRetentionRunApproved approvedBy approvedAt reason uid =
     guarded_run uid {RetentionStatusDryRun}
       (\<lambda>r. r\<lparr>RR_Status := RetentionStatusApproved, RR_ApprovedBy := approvedBy, RR_ApprovedAt := Some approvedAt,
          RR_ApprovalReason := reason\<rparr>)"

definition MarkRetentionRunRejected ::
  "time \<Rightarrow> string option \<Rightarrow> string \<Rightarrow> RetentionRunRow list \<Rightarrow> db_error + RetentionRunRow \<times> RetentionRunRow list" where
  "MarkRetentionRunRejected rejectedAt reason uid =
     guarded_run uid {RetentionStatusDryRun}
       (\<lambda>r. r\<lparr>RR_Status := RetentionStatusRejected, RR_ApprovedAt := Some rejectedAt, RR_ApprovalReason := reason\<rparr>)"

definition MarkRetentionRunExecuting ::
  "time \<Rightarrow> string \<Rightarrow> RetentionRunRow list \<Rightarrow> db_error + RetentionRunRow \<times> RetentionRunRow list" where
  "MarkRetentionRunExecuting startedAt uid =
     guarded_run uid {RetentionStatusApproved}
       (\<lambda>r. r\<lparr>RR_Status := RetentionStatusExecuting, RR_StartedAt := Some startedAt\<rparr>)"

definition MarkRetentionRunCompleted ::
  "time \<Rightarrow> int \<Rightarrow> int \<Rightarrow> int \<Rightarrow> string \<Rightarrow> RetentionRunRow list \<Rightarrow> db_error + RetentionRunRow \<times> RetentionRunRow list" where
  "MarkRetentionRunCompleted finishedAt pseudonymised deleted failed uid =
     guarded_run uid {RetentionStatusExecuting}
       (\<lambda>r. r\<lparr>RR_Status := RetentionStatusCompleted, RR_FinishedAt := Some finishedAt,
          RR_PseudonymisedCount := pseudonymised, RR_DeletedCount := deleted, RR_FailedCount := failed\<rparr>)"

definition MarkRetentionRunFailed ::
  "time \<Rightarrow> int \<Rightarrow> string option \<Rightarrow> string \<Rightarrow> RetentionRunRow list \<Rightarrow> db_error + RetentionRunRow \<times> RetentionRunRow list" where
  "MarkRetentionRunFailed finishedAt failed lastError uid =
     guarded_run uid {RetentionStatusApproved, RetentionStatusExecuting}
       (\<lambda>r. r\<lparr>RR_Status := RetentionStatusFailed, RR_FinishedAt := Some finishedAt, RR_FailedCount := failed,
          RR_LastError := lastError\<rparr>)"

section \<open>Statements on holds\<close>

definition active_hold :: "string \<Rightarrow> string \<Rightarrow> LegalHoldRow \<Rightarrow> bool" where
  "active_hold aggregateType uid h \<longleftrightarrow>
     LH_AggregateType h = aggregateType \<and> LH_AggregateID h = uid \<and> LH_ReleasedAt h = None"

definition HasActiveLegalHold :: "string \<Rightarrow> string \<Rightarrow> LegalHoldRow list \<Rightarrow> bool" where
  "HasActiveLegalHold aggregateType uid holds = list_ex (active_hold aggregateType uid) holds"

definition CreateLegalHold_statement ::
  "string \<Rightarrow> string \<Rightarrow> string \<Rightarrow> string \<Rightarrow> string \<Rightarrow> time \<Rightarrow> LegalHoldRow list \<Rightarrow> LegalHoldRow \<times> LegalHoldRow list" where
  "CreateLegalHold_statement newid aggregateType uid reason actorID createdAt holds =
     (let row = \<lparr>LH_ID = newid, LH_AggregateType = aggregateType, LH_AggregateID = uid, LH_Reason = reason,
         LH_ActorID = actorID, LH_CreatedAt = createdAt, LH_ReleasedAt = None\<rparr>
      in (row, holds @ [row]))"

definition ReleaseLegalHold_statement ::
  "time \<Rightarrow> string \<Rightarrow> LegalHoldRow list \<Rightarrow> db_error + LegalHoldRow \<times> LegalHoldRow list" where
  "ReleaseLegalHold_statement releasedAt uid =
     update_row (\<lambda>h. LH_ID h = uid \<and> LH_ReleasedAt h = None) (\<lambda>h. Ok (h\<lparr>LH_ReleasedAt := Some releasedAt\<rparr>))"

text \<open>\<open>ORDER BY created_at, id\<close>: the sort is stable.\<close>

definition holds_in_order :: "LegalHoldRow list \<Rightarrow> LegalHoldRow list" where
  "holds_in_order holds = sort_key LH_CreatedAt (sort_key LH_ID holds)"

text \<open>An open filter is \<open>NULL\<close>.\<close>

definition passes :: "'a option \<Rightarrow> 'a \<Rightarrow> bool" where
  "passes flt x \<longleftrightarrow> (case flt of None \<Rightarrow> True | Some y \<Rightarrow> x = y)"

definition ListLegalHolds_statement ::
  "string option \<Rightarrow> string option \<Rightarrow> bool option \<Rightarrow> LegalHoldRow list \<Rightarrow> LegalHoldRow list" where
  "ListLegalHolds_statement aggregateType aggregateID active holds =
     holds_in_order
       (filter (\<lambda>h. passes aggregateType (LH_AggregateType h) \<and> passes aggregateID (LH_AggregateID h) \<and>
          passes active (LH_ReleasedAt h = None)) holds)"

section \<open>The scan\<close>

text \<open>The statuses of the query are the closed ones.\<close>

definition due_at :: "time \<Rightarrow> SignalRow \<Rightarrow> bool" where
  "due_at cutoff r \<longleftrightarrow> IsClosed (SR_Status r) \<and> (case SR_ClosedAt r of None \<Rightarrow> False | Some t \<Rightarrow> t \<le> cutoff)"

definition ListRetentionCandidates :: "time \<Rightarrow> LegalHoldRow list \<Rightarrow> signals \<Rightarrow> RetentionCandidate list" where
  "ListRetentionCandidates cutoff holds rows =
     map (\<lambda>r.
         (let h = find (active_hold ''risk_signal'' (SR_ID r)) (holds_in_order holds)
          in \<lparr>Cand_SignalID = SR_ID r, Cand_ClosedAt = tsTime (SR_ClosedAt r), Cand_Held = (h \<noteq> None),
              Cand_HoldReason = (case h of None \<Rightarrow> '''' | Some hold \<Rightarrow> LH_Reason hold)\<rparr>))
       (sort_key (\<lambda>r. tsTime (SR_ClosedAt r)) (sort_key SR_ID (filter (due_at cutoff) rows)))"

section \<open>Redaction\<close>

text \<open>The operators of PostgreSQL on \<open>jsonb\<close>: the parser and the printer are parameters; \<open>->> 'reason'\<close> is the text
  of the member, none for \<open>null\<close> and outside objects, and \<open>jsonb_set\<close> replaces the member.\<close>

record jsonb =
  jb_decode :: "string \<Rightarrow> json option"
  jb_encode :: "json \<Rightarrow> string"

definition jsonb_reason :: "jsonb \<Rightarrow> string \<Rightarrow> string option" where
  "jsonb_reason J raw =
     (case jb_decode J raw of
        Some (JObject kvs) \<Rightarrow>
          (case map_of kvs ''reason'' of
             None \<Rightarrow> None
           | Some JNull \<Rightarrow> None
           | Some (JString s) \<Rightarrow> Some s
           | Some v \<Rightarrow> Some (jb_encode J v))
      | _ \<Rightarrow> None)"

definition with_reason :: "string \<Rightarrow> (string \<times> json) list \<Rightarrow> (string \<times> json) list" where
  "with_reason text kvs = map (\<lambda>(k, v). (k, if k = ''reason'' then JString text else v)) kvs"

definition jsonb_set_reason :: "jsonb \<Rightarrow> string \<Rightarrow> string \<Rightarrow> string" where
  "jsonb_set_reason J text raw =
     (case jb_decode J raw of Some (JObject kvs) \<Rightarrow> jb_encode J (JObject (with_reason text kvs)) | _ \<Rightarrow> raw)"

definition update_where :: "('r \<Rightarrow> bool) \<Rightarrow> ('r \<Rightarrow> 'r) \<Rightarrow> 'r list \<Rightarrow> int \<times> 'r list" where
  "update_where P f rows = (int (length (filter P rows)), map (\<lambda>r. if P r then f r else r) rows)"

definition free_text :: "string \<Rightarrow> string \<Rightarrow> bool" where
  "free_text marker s \<longleftrightarrow> s \<noteq> '''' \<and> s \<noteq> marker"

definition has_reason :: "jsonb \<Rightarrow> string \<Rightarrow> string \<Rightarrow> bool" where
  "has_reason J marker raw \<longleftrightarrow> (case jsonb_reason J raw of None \<Rightarrow> False | Some s \<Rightarrow> s \<noteq> marker)"

definition on_audit :: "(AuditEvent list \<Rightarrow> int \<times> AuditEvent list) \<Rightarrow> Db \<Rightarrow> int \<times> Db" where
  "on_audit f db = (case f (db_audit db) of (n, rows) \<Rightarrow> (n, db\<lparr>db_audit := rows\<rparr>))"

definition on_comments :: "(Comment list \<Rightarrow> int \<times> Comment list) \<Rightarrow> Db \<Rightarrow> int \<times> Db" where
  "on_comments f db = (case f (db_comments db) of (n, rows) \<Rightarrow> (n, db\<lparr>db_comments := rows\<rparr>))"

definition on_rows :: "(signals \<Rightarrow> int \<times> signals) \<Rightarrow> Db \<Rightarrow> int \<times> Db" where
  "on_rows f db = (case f (db_signals db) of (n, rows) \<Rightarrow> (n, db\<lparr>db_signals := rows\<rparr>))"

text \<open>The five redactions of the rows a predicate selects.\<close>

definition clear_names :: "(AuditEvent \<Rightarrow> bool) \<Rightarrow> Db \<Rightarrow> int \<times> Db" where
  "clear_names sel = on_audit (update_where (\<lambda>e. sel e \<and> Ev_ActorDisplayName e \<noteq> '''') (\<lambda>e. e\<lparr>Ev_ActorDisplayName := ''''\<rparr>))"

definition redact_bodies :: "string \<Rightarrow> (Comment \<Rightarrow> bool) \<Rightarrow> Db \<Rightarrow> int \<times> Db" where
  "redact_bodies marker sel = on_comments (update_where (\<lambda>c. sel c \<and> free_text marker (Com_Body c)) (\<lambda>c. c\<lparr>Com_Body := marker\<rparr>))"

definition redact_reasons :: "string \<Rightarrow> (SignalRow \<Rightarrow> bool) \<Rightarrow> Db \<Rightarrow> int \<times> Db" where
  "redact_reasons marker sel =
     on_rows (update_where
       (\<lambda>r. sel r \<and> (case SR_OverrideReason r of None \<Rightarrow> False | Some s \<Rightarrow> free_text marker s))
       (\<lambda>r. r\<lparr>SR_OverrideReason := Some marker\<rparr>))"

definition redact_before :: "jsonb \<Rightarrow> string \<Rightarrow> (AuditEvent \<Rightarrow> bool) \<Rightarrow> Db \<Rightarrow> int \<times> Db" where
  "redact_before J marker sel =
     on_audit (update_where (\<lambda>e. sel e \<and> has_reason J marker (Ev_Before e))
       (\<lambda>e. e\<lparr>Ev_Before := jsonb_set_reason J marker (Ev_Before e)\<rparr>))"

definition redact_after :: "jsonb \<Rightarrow> string \<Rightarrow> (AuditEvent \<Rightarrow> bool) \<Rightarrow> Db \<Rightarrow> int \<times> Db" where
  "redact_after J marker sel =
     on_audit (update_where (\<lambda>e. sel e \<and> has_reason J marker (Ev_After e))
       (\<lambda>e. e\<lparr>Ev_After := jsonb_set_reason J marker (Ev_After e)\<rparr>))"

text \<open>\<open>aggregate_type = 'risk_signal' AND aggregate_id = $1\<close>, the identifier as a UUID.\<close>

definition of_signal :: "uuids \<Rightarrow> string \<Rightarrow> AuditEvent \<Rightarrow> bool" where
  "of_signal U uid e \<longleftrightarrow> Ev_AggregateType e = ''risk_signal'' \<and> U (Ev_AggregateID e) = Some uid"

definition ClearSignalAuditActorDisplayNames_statement :: "uuids \<Rightarrow> string \<Rightarrow> Db \<Rightarrow> int \<times> Db" where
  "ClearSignalAuditActorDisplayNames_statement U uid = clear_names (of_signal U uid)"

definition RedactSignalCommentBodies :: "string \<Rightarrow> string \<Rightarrow> Db \<Rightarrow> int \<times> Db" where
  "RedactSignalCommentBodies uid marker = redact_bodies marker (\<lambda>c. Com_SignalID c = uid)"

definition RedactSignalOverrideReason :: "string \<Rightarrow> string \<Rightarrow> Db \<Rightarrow> int \<times> Db" where
  "RedactSignalOverrideReason uid marker = redact_reasons marker (\<lambda>r. SR_ID r = uid)"

definition RedactSignalAuditBeforeReason :: "jsonb \<Rightarrow> uuids \<Rightarrow> string \<Rightarrow> string \<Rightarrow> Db \<Rightarrow> int \<times> Db" where
  "RedactSignalAuditBeforeReason J U uid marker = redact_before J marker (of_signal U uid)"

definition RedactSignalAuditAfterReason :: "jsonb \<Rightarrow> uuids \<Rightarrow> string \<Rightarrow> string \<Rightarrow> Db \<Rightarrow> int \<times> Db" where
  "RedactSignalAuditAfterReason J U uid marker = redact_after J marker (of_signal U uid)"

definition ClearIdentityAuditActorDisplayNames :: "string \<Rightarrow> Db \<Rightarrow> int \<times> Db" where
  "ClearIdentityAuditActorDisplayNames userID = clear_names (\<lambda>e. Ev_ActorID e = userID)"

definition RedactIdentityCommentBodies :: "string \<Rightarrow> string \<Rightarrow> Db \<Rightarrow> int \<times> Db" where
  "RedactIdentityCommentBodies userID marker = redact_bodies marker (\<lambda>c. Com_ActorID c = userID)"

definition RedactIdentityOverrideReasons :: "string \<Rightarrow> string \<Rightarrow> Db \<Rightarrow> int \<times> Db" where
  "RedactIdentityOverrideReasons userID marker = redact_reasons marker (\<lambda>r. SR_OverrideActorID r = Some userID)"

definition RedactIdentityAuditBeforeReason :: "jsonb \<Rightarrow> string \<Rightarrow> string \<Rightarrow> Db \<Rightarrow> int \<times> Db" where
  "RedactIdentityAuditBeforeReason J userID marker = redact_before J marker (\<lambda>e. Ev_ActorID e = userID)"

definition RedactIdentityAuditAfterReason :: "jsonb \<Rightarrow> string \<Rightarrow> string \<Rightarrow> Db \<Rightarrow> int \<times> Db" where
  "RedactIdentityAuditAfterReason J userID marker = redact_after J marker (\<lambda>e. Ev_ActorID e = userID)"

definition count_where :: "('r \<Rightarrow> bool) \<Rightarrow> 'r list \<Rightarrow> int" where
  "count_where P rows = int (length (filter P rows))"

text \<open>The columns of the preview, in the order of the query.\<close>

definition CountIdentityPseudonymisationTargets :: "jsonb \<Rightarrow> string \<Rightarrow> string \<Rightarrow> Db \<Rightarrow> int list" where
  "CountIdentityPseudonymisationTargets J userID marker db =
     [count_where (\<lambda>e. Ev_ActorID e = userID \<and> Ev_ActorDisplayName e \<noteq> '''') (db_audit db),
      count_where (\<lambda>c. Com_ActorID c = userID \<and> Com_Body c \<noteq> '''' \<and> Com_Body c \<noteq> marker) (db_comments db),
      count_where (\<lambda>r. SR_OverrideActorID r = Some userID \<and>
        (case SR_OverrideReason r of None \<Rightarrow> False | Some s \<Rightarrow> s \<noteq> '''' \<and> s \<noteq> marker)) (db_signals db),
      count_where (\<lambda>e. Ev_ActorID e = userID \<and> has_reason J marker (Ev_Before e)) (db_audit db),
      count_where (\<lambda>e. Ev_ActorID e = userID \<and> has_reason J marker (Ev_After e)) (db_audit db)]"

section \<open>Deletion\<close>

definition delete_where :: "('r \<Rightarrow> bool) \<Rightarrow> 'r list \<Rightarrow> int \<times> 'r list" where
  "delete_where P rows = (int (length (filter P rows)), filter (\<lambda>r. \<not> P r) rows)"

definition DeleteRetentionSlaClocks :: "string \<Rightarrow> Rdb \<Rightarrow> db_error + int \<times> Rdb" where
  "DeleteRetentionSlaClocks uid d =
     (case delete_where (\<lambda>c. SCR_SignalID c = uid) (db_clocks (rd_db d)) of
        (n, rows) \<Rightarrow> Ok (n, d\<lparr>rd_db := (rd_db d)\<lparr>db_clocks := rows\<rparr>\<rparr>))"

definition DeleteRetentionComments :: "string \<Rightarrow> Rdb \<Rightarrow> db_error + int \<times> Rdb" where
  "DeleteRetentionComments uid d =
     (case delete_where (\<lambda>c. Com_SignalID c = uid) (db_comments (rd_db d)) of
        (n, rows) \<Rightarrow> Ok (n, d\<lparr>rd_db := (rd_db d)\<lparr>db_comments := rows\<rparr>\<rparr>))"

text \<open>The match of the signal, unless some signal refers to it.\<close>

definition DeleteRetentionMatches :: "string \<Rightarrow> Rdb \<Rightarrow> db_error + int \<times> Rdb" where
  "DeleteRetentionMatches uid d =
     (let signals = db_signals (rd_db d);
          matchID = map_option SR_MatchID (find (\<lambda>r. SR_ID r = uid) signals)
      in (case delete_where (\<lambda>m. Some m = matchID \<and> \<not> list_ex (\<lambda>r. SR_MatchID r = m) signals) (db_matches (rd_db d)) of
            (n, rows) \<Rightarrow> Ok (n, d\<lparr>rd_db := (rd_db d)\<lparr>db_matches := rows\<rparr>\<rparr>)))"

definition DeleteRetentionNotifications :: "string \<Rightarrow> Rdb \<Rightarrow> db_error + int \<times> Rdb" where
  "DeleteRetentionNotifications uid d =
     (case delete_where (\<lambda>x. NR_SignalID x = uid) (rd_notifications d) of
        (n, rows) \<Rightarrow> Ok (n, d\<lparr>rd_notifications := rows\<rparr>))"

definition DeleteRetentionAuditEvents :: "uuids \<Rightarrow> string \<Rightarrow> Rdb \<Rightarrow> db_error + int \<times> Rdb" where
  "DeleteRetentionAuditEvents U uid d =
     (case delete_where (of_signal U uid) (db_audit (rd_db d)) of
        (n, rows) \<Rightarrow> Ok (n, d\<lparr>rd_db := (rd_db d)\<lparr>db_audit := rows\<rparr>\<rparr>))"

definition GetSignalMatchID :: "string \<Rightarrow> Rdb \<Rightarrow> db_error + string" where
  "GetSignalMatchID uid d = rbind (select_row (\<lambda>r. SR_ID r = uid) (db_signals (rd_db d))) (\<lambda>r. Ok (SR_MatchID r))"

text \<open>The foreign keys on a signal: clocks, comments and notifications.\<close>

definition refers_to_signal :: "string \<Rightarrow> Rdb \<Rightarrow> bool" where
  "refers_to_signal uid d \<longleftrightarrow>
     list_ex (\<lambda>c. SCR_SignalID c = uid) (db_clocks (rd_db d)) \<or>
     list_ex (\<lambda>c. Com_SignalID c = uid) (db_comments (rd_db d)) \<or>
     list_ex (\<lambda>x. NR_SignalID x = uid) (rd_notifications d)"

definition DeleteRetentionSignal :: "string \<Rightarrow> Rdb \<Rightarrow> db_error + int \<times> Rdb" where
  "DeleteRetentionSignal uid d =
     (case delete_where (\<lambda>r. SR_ID r = uid) (db_signals (rd_db d)) of
        (n, rows) \<Rightarrow>
          (if n > 0 \<and> refers_to_signal uid d then Err ForeignKeyViolation
           else Ok (n, d\<lparr>rd_db := (rd_db d)\<lparr>db_signals := rows\<rparr>\<rparr>)))"

definition DeleteRetentionMatch :: "string \<Rightarrow> Rdb \<Rightarrow> db_error + int \<times> Rdb" where
  "DeleteRetentionMatch matchID d =
     (case delete_where (\<lambda>m. m = matchID) (db_matches (rd_db d)) of
        (n, rows) \<Rightarrow>
          (if n > 0 \<and> list_ex (\<lambda>r. SR_MatchID r = matchID) (db_signals (rd_db d)) then Err ForeignKeyViolation
           else Ok (n, d\<lparr>rd_db := (rd_db d)\<lparr>db_matches := rows\<rparr>\<rparr>)))"

section \<open>Repository: runs\<close>

definition retentionGuardMiss :: "string \<Rightarrow> db_error \<Rightarrow> app_error" where
  "retentionGuardMiss op err = (if err = NoRows then AppError KindConflict op else mapDBError op err)"

definition retentionCountInt32 :: "string \<Rightarrow> int \<Rightarrow> app_error + int" where
  "retentionCountInt32 op v = (if v < 0 \<or> v > max_int32 then Validationf op else Ok v)"

definition on_runs :: "(RetentionRunRow list \<Rightarrow> app_error + 'a \<times> RetentionRunRow list) \<Rightarrow> Rdb \<Rightarrow> app_error + 'a \<times> Rdb" where
  "on_runs f d = rbind (f (rd_runs d)) (\<lambda>(a, rows). Ok (a, d\<lparr>rd_runs := rows\<rparr>))"

definition on_holds :: "(LegalHoldRow list \<Rightarrow> app_error + 'a \<times> LegalHoldRow list) \<Rightarrow> Rdb \<Rightarrow> app_error + 'a \<times> Rdb" where
  "on_holds f d = rbind (f (rd_holds d)) (\<lambda>(a, rows). Ok (a, d\<lparr>rd_holds := rows\<rparr>))"

definition on_db :: "(Db \<Rightarrow> app_error + 'a \<times> Db) \<Rightarrow> Rdb \<Rightarrow> app_error + 'a \<times> Rdb" where
  "on_db f d = rbind (f (rd_db d)) (\<lambda>(a, db). Ok (a, d\<lparr>rd_db := db\<rparr>))"

definition RetentionRepo_ScanRetentionCandidates :: "time \<Rightarrow> Rdb \<Rightarrow> RetentionCandidate list" where
  "RetentionRepo_ScanRetentionCandidates cutoff d =
     ListRetentionCandidates (pg_time cutoff) (rd_holds d) (db_signals (rd_db d))"

definition RetentionRepo_InsertRun :: "string \<Rightarrow> RetentionRunRecord \<Rightarrow> Rdb \<Rightarrow> app_error + RetentionRun \<times> Rdb" where
  "RetentionRepo_InsertRun newid rec =
     on_runs (\<lambda>rows.
       rbind (db_result ''retention.insert_run''
           (InsertRetentionRun newid (RRec_PolicyID rec) (RRec_Stage rec) (pg_time (RRec_Cutoff rec))
              (RRec_PartitionKey rec) RetentionStatusDryRun (RRec_Counts rec) rows))
         (\<lambda>(row, rows'). Ok (retentionRunFromRow row, rows')))"

definition RetentionRepo_GetRun :: "uuids \<Rightarrow> string \<Rightarrow> Rdb \<Rightarrow> app_error + RetentionRun" where
  "RetentionRepo_GetRun U ident d =
     with_uuid U ''retention.get_run'' ident (\<lambda>uid.
       rbind (db_result ''retention.get_run'' (GetRetentionRun_statement uid (rd_runs d))) (\<lambda>row.
       Ok (retentionRunFromRow row)))"

definition RetentionRepo_ListRuns :: "Rdb \<Rightarrow> RetentionRun list" where
  "RetentionRepo_ListRuns d = map retentionRunFromRow (ListRetentionRuns_statement (rd_runs d))"

text \<open>The tail of the guarded writes.\<close>

definition run_guarded ::
  "string \<Rightarrow> db_error + RetentionRunRow \<times> RetentionRunRow list \<Rightarrow> app_error + RetentionRun \<times> RetentionRunRow list" where
  "run_guarded op m =
     (case m of
        Inl e \<Rightarrow> Err (retentionGuardMiss op e)
      | Inr (row, rows) \<Rightarrow> Ok (retentionRunFromRow row, rows))"

definition RetentionRepo_ApproveRun ::
  "uuids \<Rightarrow> string \<Rightarrow> string \<Rightarrow> string \<Rightarrow> time \<Rightarrow> Rdb \<Rightarrow> app_error + RetentionRun \<times> Rdb" where
  "RetentionRepo_ApproveRun U ident approvedBy reason t =
     on_runs (\<lambda>rows. with_uuid U ''retention.approve_run'' ident (\<lambda>uid.
       run_guarded ''retention.approve_run''
         (MarkRetentionRunApproved (toTextOpt approvedBy) (pg_time t) (toTextOpt reason) uid rows)))"

definition RetentionRepo_RejectRun ::
  "uuids \<Rightarrow> string \<Rightarrow> string \<Rightarrow> time \<Rightarrow> Rdb \<Rightarrow> app_error + RetentionRun \<times> Rdb" where
  "RetentionRepo_RejectRun U ident reason t =
     on_runs (\<lambda>rows. with_uuid U ''retention.reject_run'' ident (\<lambda>uid.
       run_guarded ''retention.reject_run'' (MarkRetentionRunRejected (pg_time t) (toTextOpt reason) uid rows)))"

definition RetentionRepo_StartRun :: "uuids \<Rightarrow> string \<Rightarrow> time \<Rightarrow> Rdb \<Rightarrow> app_error + RetentionRun \<times> Rdb" where
  "RetentionRepo_StartRun U ident t =
     on_runs (\<lambda>rows. with_uuid U ''retention.start_run'' ident (\<lambda>uid.
       run_guarded ''retention.start_run'' (MarkRetentionRunExecuting (pg_time t) uid rows)))"

definition RetentionRepo_CompleteRun ::
  "uuids \<Rightarrow> string \<Rightarrow> RetentionRunCounts \<Rightarrow> time \<Rightarrow> Rdb \<Rightarrow> app_error + RetentionRun \<times> Rdb" where
  "RetentionRepo_CompleteRun U ident counts t =
     on_runs (\<lambda>rows. with_uuid U ''retention.complete_run'' ident (\<lambda>uid.
       rbind (retentionCountInt32 ''retention.complete_run'' (RC_Pseudonymised counts)) (\<lambda>pseudo.
       rbind (retentionCountInt32 ''retention.complete_run'' (RC_Deleted counts)) (\<lambda>deleted.
       rbind (retentionCountInt32 ''retention.complete_run'' (RC_Failed counts)) (\<lambda>failed.
       run_guarded ''retention.complete_run'' (MarkRetentionRunCompleted (pg_time t) pseudo deleted failed uid rows))))))"

definition RetentionRepo_FailRun ::
  "uuids \<Rightarrow> string \<Rightarrow> RetentionRunCounts \<Rightarrow> time \<Rightarrow> Rdb \<Rightarrow> app_error + RetentionRun \<times> Rdb" where
  "RetentionRepo_FailRun U ident counts t =
     on_runs (\<lambda>rows. with_uuid U ''retention.fail_run'' ident (\<lambda>uid.
       rbind (retentionCountInt32 ''retention.fail_run'' (RC_Failed counts)) (\<lambda>failed.
       run_guarded ''retention.fail_run''
         (MarkRetentionRunFailed (pg_time t) failed (toTextOpt (RC_LastError counts)) uid rows))))"

section \<open>Repository: holds\<close>

definition RetentionRepo_HasActiveHold :: "uuids \<Rightarrow> string \<Rightarrow> string \<Rightarrow> Rdb \<Rightarrow> app_error + bool" where
  "RetentionRepo_HasActiveHold U aggregateType ident d =
     with_uuid U ''retention.has_active_hold'' ident (\<lambda>uid. Ok (HasActiveLegalHold aggregateType uid (rd_holds d)))"

definition RetentionRepo_CreateHold :: "uuids \<Rightarrow> string \<Rightarrow> HoldRecord \<Rightarrow> Rdb \<Rightarrow> app_error + LegalHold \<times> Rdb" where
  "RetentionRepo_CreateHold U newid rec =
     on_holds (\<lambda>rows. with_uuid U ''retention.create_hold'' (HRec_AggregateID rec) (\<lambda>uid.
       (case CreateLegalHold_statement newid (HRec_AggregateType rec) uid (HRec_Reason rec) (HRec_ActorID rec)
          (pg_time (HRec_CreatedAt rec)) rows of (row, rows') \<Rightarrow> Ok (legalHoldFromRow row, rows'))))"

definition RetentionRepo_ReleaseHold :: "uuids \<Rightarrow> string \<Rightarrow> time \<Rightarrow> Rdb \<Rightarrow> app_error + LegalHold \<times> Rdb" where
  "RetentionRepo_ReleaseHold U ident t =
     on_holds (\<lambda>rows. with_uuid U ''retention.release_hold'' ident (\<lambda>uid.
       rbind (db_result ''retention.release_hold'' (ReleaseLegalHold_statement (pg_time t) uid rows))
         (\<lambda>(row, rows'). Ok (legalHoldFromRow row, rows'))))"

definition RetentionRepo_ListHolds :: "uuids \<Rightarrow> HoldFilter \<Rightarrow> Rdb \<Rightarrow> app_error + LegalHold list" where
  "RetentionRepo_ListHolds U flt d =
     (let list_holds = (\<lambda>aid. map legalHoldFromRow
            (ListLegalHolds_statement (toTextOpt (HF_AggregateType flt)) aid (HF_Active flt) (rd_holds d)))
      in if HF_AggregateID flt \<noteq> ''''
         then with_uuid U ''retention.list_holds'' (HF_AggregateID flt) (\<lambda>uid. Ok (list_holds (Some uid)))
         else Ok (list_holds None))"

section \<open>Repository: redaction and deletion\<close>

definition RetentionRedactionMarker :: string where "RetentionRedactionMarker = ''[redacted]''"

definition RetentionRepo_PseudonymiseSignal ::
  "jsonb \<Rightarrow> uuids \<Rightarrow> string \<Rightarrow> Db \<Rightarrow> app_error + RetentionRedaction \<times> Db" where
  "RetentionRepo_PseudonymiseSignal J U signalID db =
     with_uuid U ''retention.pseudonymise_signal'' signalID (\<lambda>uid.
       let (names, db1) = ClearSignalAuditActorDisplayNames_statement U uid db;
           (bodies, db2) = RedactSignalCommentBodies uid RetentionRedactionMarker db1;
           (reasons, db3) = RedactSignalOverrideReason uid RetentionRedactionMarker db2;
           (before, db4) = RedactSignalAuditBeforeReason J U uid RetentionRedactionMarker db3;
           (after, db5) = RedactSignalAuditAfterReason J U uid RetentionRedactionMarker db4
       in Ok (\<lparr>Red_DisplayNamesCleared = names, Red_CommentBodiesRedacted = bodies,
               Red_OverrideReasonsRedacted = reasons, Red_SnapshotReasonsRedacted = before + after\<rparr>, db5))"

definition RetentionRepo_PseudonymiseIdentity ::
  "jsonb \<Rightarrow> string \<Rightarrow> Db \<Rightarrow> app_error + RetentionRedaction \<times> Db" where
  "RetentionRepo_PseudonymiseIdentity J userID db =
     (let (names, db1) = ClearIdentityAuditActorDisplayNames userID db;
          (bodies, db2) = RedactIdentityCommentBodies userID RetentionRedactionMarker db1;
          (reasons, db3) = RedactIdentityOverrideReasons userID RetentionRedactionMarker db2;
          (before, db4) = RedactIdentityAuditBeforeReason J userID RetentionRedactionMarker db3;
          (after, db5) = RedactIdentityAuditAfterReason J userID RetentionRedactionMarker db4
      in Ok (\<lparr>Red_DisplayNamesCleared = names, Red_CommentBodiesRedacted = bodies,
              Red_OverrideReasonsRedacted = reasons, Red_SnapshotReasonsRedacted = before + after\<rparr>, db5))"

definition RetentionRepo_PreviewPseudonymiseIdentity :: "jsonb \<Rightarrow> string \<Rightarrow> Db \<Rightarrow> app_error + RetentionRedaction" where
  "RetentionRepo_PreviewPseudonymiseIdentity J userID db =
     (case CountIdentityPseudonymisationTargets J userID RetentionRedactionMarker db of
        [names, bodies, reasons, before, after] \<Rightarrow>
          Ok \<lparr>Red_DisplayNamesCleared = names, Red_CommentBodiesRedacted = bodies,
              Red_OverrideReasonsRedacted = reasons, Red_SnapshotReasonsRedacted = before + after\<rparr>
      | _ \<Rightarrow> InfraError ''retention.preview_pseudonymise_identity'')"

definition deleteBySignal ::
  "uuids \<Rightarrow> string \<Rightarrow> string \<Rightarrow> (string \<Rightarrow> Rdb \<Rightarrow> db_error + int \<times> Rdb) \<Rightarrow> Rdb \<Rightarrow> app_error + int \<times> Rdb" where
  "deleteBySignal U op signalID del d = with_uuid U op signalID (\<lambda>uid. db_result op (del uid d))"

definition RetentionRepo_DeleteSlaClocks :: "uuids \<Rightarrow> string \<Rightarrow> Rdb \<Rightarrow> app_error + int \<times> Rdb" where
  "RetentionRepo_DeleteSlaClocks U signalID = deleteBySignal U ''retention.delete_sla_clocks'' signalID DeleteRetentionSlaClocks"

definition RetentionRepo_DeleteComments :: "uuids \<Rightarrow> string \<Rightarrow> Rdb \<Rightarrow> app_error + int \<times> Rdb" where
  "RetentionRepo_DeleteComments U signalID = deleteBySignal U ''retention.delete_comments'' signalID DeleteRetentionComments"

definition RetentionRepo_DeleteMatches :: "uuids \<Rightarrow> string \<Rightarrow> Rdb \<Rightarrow> app_error + int \<times> Rdb" where
  "RetentionRepo_DeleteMatches U signalID = deleteBySignal U ''retention.delete_matches'' signalID DeleteRetentionMatches"

definition RetentionRepo_DeleteNotifications :: "uuids \<Rightarrow> string \<Rightarrow> Rdb \<Rightarrow> app_error + int \<times> Rdb" where
  "RetentionRepo_DeleteNotifications U signalID =
     deleteBySignal U ''retention.delete_notifications'' signalID DeleteRetentionNotifications"

definition RetentionRepo_DeletePriorityFactors :: "string \<Rightarrow> Rdb \<Rightarrow> app_error + int \<times> Rdb" where
  "RetentionRepo_DeletePriorityFactors signalID d = Ok (0, d)"

definition RetentionRepo_DeleteAuditEvents :: "uuids \<Rightarrow> string \<Rightarrow> Rdb \<Rightarrow> app_error + int \<times> Rdb" where
  "RetentionRepo_DeleteAuditEvents U signalID =
     deleteBySignal U ''retention.delete_audit_events'' signalID (DeleteRetentionAuditEvents U)"

definition RetentionRepo_DeleteSignal :: "uuids \<Rightarrow> string \<Rightarrow> Rdb \<Rightarrow> app_error + int \<times> Rdb" where
  "RetentionRepo_DeleteSignal U signalID d =
     with_uuid U ''retention.delete_signal'' signalID (\<lambda>uid.
       (case GetSignalMatchID uid d of
          Inl e \<Rightarrow> (if e = NoRows then Ok (0, d) else Err (mapDBError ''retention.delete_signal'' e))
        | Inr matchID \<Rightarrow>
            rbind (db_result ''retention.delete_signal'' (DeleteRetentionSignal uid d)) (\<lambda>(n, d1).
              if n > 0
              then rbind (db_result ''retention.delete_signal'' (DeleteRetentionMatch matchID d1)) (\<lambda>(_, d2). Ok (n, d2))
              else Ok (n, d1))))"

end
