(* ===== verification/Retention.thy ===== *)
theory Retention
  imports RetentionStore
begin

text \<open>
  The retention commands (internal/application: retention_dry_run.go, retention_approve.go,
  retention_execute.go, retention_read.go, legal_hold.go, pseudonymize_identity.go, with the audit
  vocabulary of retention_audit.go). A command takes the state of its reads and the state of its
  transaction; the execution runs several transactions, with other commands in between (\<open>others\<close>).
\<close>

section \<open>Service and environment\<close>

text \<open>The retention part of the service; from the libraries, the operators on \<open>jsonb\<close> and the text of an error.\<close>

record RetentionService =
  rt_sv :: Service
  rt_wired :: bool
  rt_years :: int
  rt_pseudonymise_years :: int
  rt_batch_size :: int
  rt_jsonb :: jsonb
  rt_error_text :: "app_error \<Rightarrow> string"

definition DefaultRetentionClosedSignalYears :: int where "DefaultRetentionClosedSignalYears = 5"
definition DefaultRetentionBatchSize :: int where "DefaultRetentionBatchSize = 500"

text \<open>The defaults of \<open>NewService\<close> for the periods and the batch size: years, pseudonymisation years, batch.\<close>

definition retention_defaults :: "int \<Rightarrow> int \<Rightarrow> int \<Rightarrow> int \<times> int \<times> int" where
  "retention_defaults years pseudonymiseYears batchSize =
     (let years' = (if years \<le> 0 then DefaultRetentionClosedSignalYears else years);
          batchSize' = (if batchSize \<le> 0 then DefaultRetentionBatchSize else batchSize);
          pseudonymiseYears' = (if pseudonymiseYears \<le> 0 then years' else pseudonymiseYears)
      in (years', pseudonymiseYears', batchSize'))"

text \<open>What a call draws: the environment of a command, the identifiers of the column defaults, and the instants of an
  execution.\<close>

record RetentionEnv =
  re_en :: Env
  re_run_id :: string
  re_hold_id :: string
  re_started :: time
  re_batch :: "nat \<Rightarrow> time"
  re_finished :: time

abbreviation rt_uuid :: "RetentionService \<Rightarrow> uuids" where
  "rt_uuid rv \<equiv> sv_uuid (rt_sv rv)"

text \<open>The head of every command: the permission, the actor, the wiring.\<close>

definition retention_gate ::
  "RetentionService \<Rightarrow> string \<Rightarrow> Actor \<Rightarrow> Permission \<Rightarrow> Rdb \<Rightarrow> app_error + Actor" where
  "retention_gate rv op a perm seen =
     rbind (authorize (rt_sv rv) op a perm ScopeAll '''' (rd_db seen)) (\<lambda>_.
     rbind (signalActor op a) (\<lambda>actor.
     if \<not> rt_wired rv then InfraError op else Ok actor))"

section \<open>Snapshots and audit\<close>

definition RetentionPolicyClosedSignals :: string where "RetentionPolicyClosedSignals = ''closed-signals-5y''"
definition AuditAggregateRetention :: string where "AuditAggregateRetention = ''retention''"
definition AuditAggregateUser :: string where "AuditAggregateUser = ''user''"

definition EventTypeRetentionApproved :: string where "EventTypeRetentionApproved = ''retention.approved''"
definition EventTypeRetentionRejected :: string where "EventTypeRetentionRejected = ''retention.rejected''"
definition EventTypeRetentionExecuted :: string where "EventTypeRetentionExecuted = ''retention.executed''"
definition EventTypeRetentionHoldCreated :: string where "EventTypeRetentionHoldCreated = ''retention.hold_created''"
definition EventTypeRetentionHoldReleased :: string where "EventTypeRetentionHoldReleased = ''retention.hold_released''"
definition EventTypeRetentionPseudonymised :: string where "EventTypeRetentionPseudonymised = ''retention.pseudonymised''"

record retentionSnapshot =
  Snap_RunID :: string
  Snap_PolicyID :: string
  Snap_Stage :: string
  Snap_Status :: string
  Snap_PartitionKey :: string
  Snap_Cutoff :: string
  Snap_Candidates :: int
  Snap_Held :: int
  Snap_ToPseudonymise :: int
  Snap_ToDelete :: int
  Snap_Pseudonymised :: int
  Snap_Deleted :: int
  Snap_Failed :: int
  Snap_From :: string
  Snap_To :: string
  Snap_Reason :: string

definition newRetentionSnapshot :: "RetentionRun \<Rightarrow> retentionSnapshot" where
  "newRetentionSnapshot r =
     (let count = (\<lambda>f. case Run_DryRun r of None \<Rightarrow> 0 | Some c \<Rightarrow> f c)
      in \<lparr>Snap_RunID = Run_ID r, Snap_PolicyID = Run_PolicyID r, Snap_Stage = RetentionStage_str (Run_Stage r),
          Snap_Status = RetentionRunStatus_str (Run_Status r), Snap_PartitionKey = Run_PartitionKey r,
          Snap_Cutoff = (if time_IsZero (Run_Cutoff r) then '''' else format_RFC3339 (Run_Cutoff r)),
          Snap_Candidates = count Cnt_Candidates, Snap_Held = count Cnt_Held,
          Snap_ToPseudonymise = count Cnt_ToPseudonymise, Snap_ToDelete = count Cnt_ToDelete,
          Snap_Pseudonymised = Run_Pseudonymised r, Snap_Deleted = Run_Deleted r, Snap_Failed = Run_Failed r,
          Snap_From = '''', Snap_To = '''', Snap_Reason = ''''\<rparr>)"

definition jint_omit :: "string \<Rightarrow> int \<Rightarrow> (string \<times> json) list" where
  "jint_omit k n = (if n = 0 then [] else jint k n)"

definition retentionSnapshot_json :: "Service \<Rightarrow> string \<Rightarrow> retentionSnapshot \<Rightarrow> app_error + string" where
  "retentionSnapshot_json sv op s =
     marshal sv op
       [jtext ''run_id'' (Snap_RunID s), jtext ''policy_id'' (Snap_PolicyID s), jtext ''stage'' (Snap_Stage s),
        jtext ''status'' (Snap_Status s), jomit ''partition_key'' (Snap_PartitionKey s), jomit ''cutoff'' (Snap_Cutoff s),
        jint_omit ''candidates'' (Snap_Candidates s), jint_omit ''held'' (Snap_Held s),
        jint_omit ''to_pseudonymise'' (Snap_ToPseudonymise s), jint_omit ''to_delete'' (Snap_ToDelete s),
        jint_omit ''pseudonymised'' (Snap_Pseudonymised s), jint_omit ''deleted'' (Snap_Deleted s),
        jint_omit ''failed'' (Snap_Failed s), jomit ''from'' (Snap_From s), jomit ''to'' (Snap_To s),
        jomit ''reason'' (Snap_Reason s)]"

definition legalHoldSnapshot :: "Service \<Rightarrow> string \<Rightarrow> LegalHold \<Rightarrow> string \<Rightarrow> string \<Rightarrow> app_error + string" where
  "legalHoldSnapshot sv op h reason releasedAt =
     marshal sv op
       [jtext ''hold_id'' (Hold_ID h), jtext ''aggregate_type'' (Hold_AggregateType h),
        jtext ''aggregate_id'' (Hold_AggregateID h), jomit ''reason'' reason, jomit ''released_at'' releasedAt]"

definition pseudonymiseSnapshot :: "Service \<Rightarrow> string \<Rightarrow> string \<Rightarrow> RetentionRedaction \<Rightarrow> string \<Rightarrow> app_error + string" where
  "pseudonymiseSnapshot sv op userID r reason =
     marshal sv op
       [jtext ''user_id'' userID, jint_omit ''display_names_cleared'' (Red_DisplayNamesCleared r),
        jint_omit ''comment_bodies_redacted'' (Red_CommentBodiesRedacted r),
        jint_omit ''override_reasons_redacted'' (Red_OverrideReasonsRedacted r),
        jint_omit ''snapshot_reasons_redacted'' (Red_SnapshotReasonsRedacted r), jomit ''reason'' reason]"

definition appendRetentionAudit ::
  "Service \<Rightarrow> string \<Rightarrow> string \<Rightarrow> string \<Rightarrow> Actor \<Rightarrow> string \<Rightarrow> time \<Rightarrow> string \<Rightarrow> Rdb \<Rightarrow> app_error + unit \<times> Rdb" where
  "appendRetentionAudit sv action aggregateType aggregateID actor correlationID now after =
     on_db (audit_Append (sv_uuid sv)
       \<lparr>Ev_AggregateType = aggregateType, Ev_AggregateID = aggregateID, Ev_ActorType = Act_Type actor,
        Ev_ActorID = Act_ID actor, Ev_ActorDisplayName = Act_DisplayName actor, Ev_Action = action,
        Ev_OccurredAt = now, Ev_Before = '''', Ev_After = after, Ev_CorrelationID = correlationID\<rparr>)"

section \<open>The proposal\<close>

record RunRetentionDryRunInput =
  DR_PolicyID :: string
  DR_Stage :: RetentionStage
  DR_Cutoff :: "time option"
  DR_PartitionKey :: string
  DR_Actor :: Actor

record RetentionDryRunResult =
  DRR_RunID :: string
  DRR_Status :: RetentionRunStatus
  DRR_Cutoff :: time
  DRR_Counts :: RetentionCounts
  DRR_Held :: "RetentionCandidate list"
  DRR_Run :: RetentionRun

definition splitRetentionCandidates ::
  "RetentionCandidate list \<Rightarrow> RetentionCandidate list \<times> RetentionCandidate list" where
  "splitRetentionCandidates cs = (filter (\<lambda>c. \<not> Cand_Held c) cs, filter Cand_Held cs)"

definition dry_run_cutoff :: "RetentionService \<Rightarrow> time \<Rightarrow> RetentionStage \<Rightarrow> time option \<Rightarrow> time" where
  "dry_run_cutoff rv now stage explicit =
     (case explicit of
        Some t \<Rightarrow> t
      | None \<Rightarrow>
          time_AddYears now (- (if stage = RetentionStagePseudonymise then rt_pseudonymise_years rv else rt_years rv)))"

definition dry_run_counts :: "RetentionStage \<Rightarrow> int \<Rightarrow> int \<Rightarrow> RetentionCounts" where
  "dry_run_counts stage due held =
     \<lparr>Cnt_Candidates = due, Cnt_Held = held,
      Cnt_ToPseudonymise = (if stage = RetentionStagePseudonymise then due else 0),
      Cnt_ToDelete = (if stage = RetentionStageDelete then due else 0)\<rparr>"

definition dry_run_stage :: "RunRetentionDryRunInput \<Rightarrow> RetentionStage" where
  "dry_run_stage inp = (if DR_Stage inp = OtherRetentionStage '''' then RetentionStageDelete else DR_Stage inp)"

text \<open>The record of the run with the held candidates, from the scan of \<open>seen\<close>.\<close>

definition RunRetentionDryRun_check ::
  "RetentionService \<Rightarrow> RetentionEnv \<Rightarrow> RunRetentionDryRunInput \<Rightarrow> Rdb \<Rightarrow>
     app_error + RetentionRunRecord \<times> RetentionCandidate list" where
  "RunRetentionDryRun_check rv re inp seen =
     (let op = ''run_retention_dry_run''; stage = dry_run_stage inp in
      rbind (retention_gate rv op (DR_Actor inp) PermissionRetentionManage seen) (\<lambda>_.
      if \<not> RetentionStage_Valid stage then Validationf op
      else
        (let cutoff = dry_run_cutoff rv (en_now (re_en re)) stage (DR_Cutoff inp);
             (due, held) = splitRetentionCandidates (RetentionRepo_ScanRetentionCandidates cutoff seen)
         in Ok (\<lparr>RRec_PolicyID = (if DR_PolicyID inp = '''' then RetentionPolicyClosedSignals else DR_PolicyID inp),
                 RRec_Stage = stage, RRec_Cutoff = cutoff,
                 RRec_PartitionKey = (if DR_PartitionKey inp = '''' then format_month cutoff else DR_PartitionKey inp),
                 RRec_Counts = dry_run_counts stage (int (length due)) (int (length held))\<rparr>, held))))"

definition RunRetentionDryRun ::
  "RetentionService \<Rightarrow> RetentionEnv \<Rightarrow> RunRetentionDryRunInput \<Rightarrow> Rdb \<Rightarrow> Rdb \<Rightarrow>
     (app_error + RetentionDryRunResult) \<times> Rdb" where
  "RunRetentionDryRun rv re inp seen =
     command (RunRetentionDryRun_check rv re inp seen) (\<lambda>(rec, held).
       tx_bind (RetentionRepo_InsertRun (re_run_id re) rec) (\<lambda>stored.
       tx_return \<lparr>DRR_RunID = Run_ID stored, DRR_Status = Run_Status stored, DRR_Cutoff = RRec_Cutoff rec,
         DRR_Counts = RRec_Counts rec, DRR_Held = held, DRR_Run = stored\<rparr>))"

section \<open>The decision\<close>

record ApproveRetentionRunInput =
  AR_RunID :: string
  AR_Reason :: string
  AR_Reject :: bool
  AR_Actor :: Actor
  AR_CorrelationID :: string

record ApproveRetentionRunResult =
  ARR_RunID :: string
  ARR_Status :: RetentionRunStatus
  ARR_ApprovedBy :: string
  ARR_ApprovedAt :: time

definition EventTypeRetentionExecute :: string where "EventTypeRetentionExecute = ''retention.execute''"
definition retentionExecuteDedupePrefix :: string where "retentionExecuteDedupePrefix = ''retention.execute:''"

definition retentionExecuteDedupeKey :: "string \<Rightarrow> time \<Rightarrow> string \<Rightarrow> string" where
  "retentionExecuteDedupeKey policyID cutoff partitionKey =
     retentionExecuteDedupePrefix @ policyID @ '':'' @ format_RFC3339 cutoff @ '':'' @ partitionKey"

definition RetentionExecutePayload_json ::
  "Service \<Rightarrow> string \<Rightarrow> string \<Rightarrow> RetentionRun \<Rightarrow> time \<Rightarrow> string \<Rightarrow> app_error + string" where
  "RetentionExecutePayload_json sv op eventID row now correlationID =
     marshal sv op
       [jtext ''event_id'' eventID, jtext ''type'' EventTypeRetentionExecute, jtext ''run_id'' (Run_ID row),
        jtext ''policy_id'' (Run_PolicyID row), jomit ''cutoff'' (format_RFC3339 (Run_Cutoff row)),
        jomit ''partition_key'' (Run_PartitionKey row), jtime sv ''occurred_at'' now,
        jtext ''correlation_id'' correlationID]"

definition ApproveRetentionRun_check ::
  "RetentionService \<Rightarrow> ApproveRetentionRunInput \<Rightarrow> Rdb \<Rightarrow> app_error + Actor" where
  "ApproveRetentionRun_check rv inp seen =
     (let op = ''approve_retention_run'' in
      rbind (retention_gate rv op (AR_Actor inp) PermissionSettingsApprove seen) (\<lambda>actor.
      guards [(AR_RunID inp = '''', AppError KindValidation op),
              (trim_space (AR_Reason inp) = '''', AppError KindValidation op)]
        (rbind (RetentionRepo_GetRun (rt_uuid rv) (AR_RunID inp) seen) (\<lambda>current.
         if Run_Status current \<noteq> RetentionStatusDryRun then ConflictError op else Ok actor))))"

definition enqueue_execution ::
  "RetentionService \<Rightarrow> RetentionEnv \<Rightarrow> string \<Rightarrow> RetentionRun \<Rightarrow> time \<Rightarrow> string \<Rightarrow> Rdb \<Rightarrow> app_error + unit \<times> Rdb" where
  "enqueue_execution rv re op row now correlationID =
     tx_bind (tx_lift (RetentionExecutePayload_json (rt_sv rv) op (en_event_id (re_en re)) row now correlationID)) (\<lambda>payload.
     on_db (outbox_Append (en_outbox_id (re_en re))
       \<lparr>OE_Type = EventTypeRetentionExecute, OE_Payload = payload,
        OE_DedupeKey = retentionExecuteDedupeKey (Run_PolicyID row) (Run_Cutoff row) (Run_PartitionKey row),
        OE_AvailableAt = now, OE_CreatedAt = now\<rparr>))"

definition ApproveRetentionRun_body ::
  "RetentionService \<Rightarrow> RetentionEnv \<Rightarrow> ApproveRetentionRunInput \<Rightarrow> Actor \<Rightarrow> Rdb \<Rightarrow>
     app_error + ApproveRetentionRunResult \<times> Rdb" where
  "ApproveRetentionRun_body rv re inp actor =
     (let op = ''approve_retention_run''; now = en_now (re_en re); U = rt_uuid rv;
          correlationID = correlationOrNew (re_en re) (AR_CorrelationID inp);
          action = (if AR_Reject inp then EventTypeRetentionRejected else EventTypeRetentionApproved)
      in tx_bind
           (if AR_Reject inp then RetentionRepo_RejectRun U (AR_RunID inp) (AR_Reason inp) now
            else RetentionRepo_ApproveRun U (AR_RunID inp) (Act_ID actor) (AR_Reason inp) now) (\<lambda>row.
         tx_bind (tx_lift (retentionSnapshot_json (rt_sv rv) op
             ((newRetentionSnapshot row)\<lparr>Snap_Reason := AR_Reason inp\<rparr>))) (\<lambda>after.
         tx_bind (appendRetentionAudit (rt_sv rv) action AuditAggregateRetention (Run_ID row) actor correlationID now after) (\<lambda>_.
         tx_bind (if AR_Reject inp then tx_return () else enqueue_execution rv re op row now correlationID) (\<lambda>_.
         tx_return \<lparr>ARR_RunID = Run_ID row, ARR_Status = Run_Status row, ARR_ApprovedBy = Run_ApprovedBy row,
           ARR_ApprovedAt = Run_ApprovedAt row\<rparr>)))))"

definition ApproveRetentionRun ::
  "RetentionService \<Rightarrow> RetentionEnv \<Rightarrow> ApproveRetentionRunInput \<Rightarrow> Rdb \<Rightarrow> Rdb \<Rightarrow>
     (app_error + ApproveRetentionRunResult) \<times> Rdb" where
  "ApproveRetentionRun rv re inp seen =
     command (ApproveRetentionRun_check rv inp seen) (ApproveRetentionRun_body rv re inp)"

section \<open>The execution\<close>

record ExecuteRetentionInput =
  ER_RunID :: string
  ER_BatchSize :: int
  ER_Actor :: Actor
  ER_CorrelationID :: string

record ExecuteRetentionResult =
  ERR_RunID :: string
  ERR_Status :: RetentionRunStatus
  ERR_Pseudonymised :: int
  ERR_Deleted :: int
  ERR_FailedBatches :: int

definition deleteSignalInSafeOrder :: "uuids \<Rightarrow> string \<Rightarrow> Rdb \<Rightarrow> app_error + unit \<times> Rdb" where
  "deleteSignalInSafeOrder U signalID =
     tx_bind (RetentionRepo_DeleteSlaClocks U signalID) (\<lambda>_.
     tx_bind (RetentionRepo_DeleteComments U signalID) (\<lambda>_.
     tx_bind (RetentionRepo_DeleteMatches U signalID) (\<lambda>_.
     tx_bind (RetentionRepo_DeleteNotifications U signalID) (\<lambda>_.
     tx_bind (RetentionRepo_DeletePriorityFactors signalID) (\<lambda>_.
     tx_bind (RetentionRepo_DeleteAuditEvents U signalID) (\<lambda>_.
     tx_bind (RetentionRepo_DeleteSignal U signalID) (\<lambda>_.
     tx_return ())))))))"

text \<open>The loops over the candidates: the window of their instants, and the work; the hold is read from the pool.\<close>

fun time_range :: "time \<Rightarrow> time \<Rightarrow> RetentionCandidate list \<Rightarrow> time \<times> time" where
  "time_range minAt maxAt [] = (minAt, maxAt)"
| "time_range minAt maxAt (c # cs) =
     time_range (if time_Before (Cand_ClosedAt c) minAt then Cand_ClosedAt c else minAt)
       (if time_After (Cand_ClosedAt c) maxAt then Cand_ClosedAt c else maxAt) cs"

fun batchTimeRange :: "RetentionCandidate list \<Rightarrow> string \<times> string" where
  "batchTimeRange [] = ('''', '''')"
| "batchTimeRange (c # cs) =
     (case time_range (Cand_ClosedAt c) (Cand_ClosedAt c) cs of
        (minAt, maxAt) \<Rightarrow> (format_RFC3339 minAt, format_RFC3339 maxAt))"

fun process_batch ::
  "RetentionService \<Rightarrow> RetentionStage \<Rightarrow> Rdb \<Rightarrow> RetentionCandidate list \<Rightarrow> int \<Rightarrow> int \<Rightarrow> Rdb \<Rightarrow>
     app_error + (int \<times> int) \<times> Rdb" where
  "process_batch rv stage pool [] pseudo deleted = tx_return (pseudo, deleted)"
| "process_batch rv stage pool (c # cs) pseudo deleted =
     tx_bind (tx_lift (RetentionRepo_HasActiveHold (rt_uuid rv) AuditAggregateRiskSignal (Cand_SignalID c) pool)) (\<lambda>held.
       if held then process_batch rv stage pool cs pseudo deleted
       else
         tx_bind (on_db (RetentionRepo_PseudonymiseSignal (rt_jsonb rv) (rt_uuid rv) (Cand_SignalID c))) (\<lambda>_.
           if stage = RetentionStageDelete
           then tx_bind (deleteSignalInSafeOrder (rt_uuid rv) (Cand_SignalID c)) (\<lambda>_.
                  process_batch rv stage pool cs (pseudo + 1) (deleted + 1))
           else process_batch rv stage pool cs (pseudo + 1) deleted))"

text \<open>One batch in its transaction.\<close>

definition execute_batch ::
  "RetentionService \<Rightarrow> RetentionRun \<Rightarrow> Actor \<Rightarrow> string \<Rightarrow> time \<Rightarrow> RetentionCandidate list \<Rightarrow> Rdb \<Rightarrow>
     (app_error + int \<times> int) \<times> Rdb" where
  "execute_batch rv run actor correlationID now batch db =
     (case batchTimeRange batch of (from, to) \<Rightarrow>
       runTx
         (tx_bind (process_batch rv (Run_Stage run) db batch 0 0) (\<lambda>(pseudo, deleted).
          tx_bind (tx_lift (retentionSnapshot_json (rt_sv rv) ''execute_retention''
              ((newRetentionSnapshot run)\<lparr>Snap_From := from, Snap_To := to, Snap_Pseudonymised := pseudo, Snap_Deleted := deleted\<rparr>))) (\<lambda>after.
          tx_bind (appendRetentionAudit (rt_sv rv) EventTypeRetentionExecuted AuditAggregateRetention (Run_ID run) actor
              correlationID now after) (\<lambda>_.
          tx_return (pseudo, deleted))))) db)"

text \<open>The slices of the loop \<open>for start := 0; start < len(due); start += batchSize\<close>.\<close>

function batches :: "nat \<Rightarrow> 'a list \<Rightarrow> 'a list list" where
  "batches n [] = []"
| "batches n (x # xs) = (x # take (n - 1) xs) # batches n (drop (n - 1) xs)"
  by pat_completeness auto
termination by (relation "measure (\<lambda>(n, xs). length xs)") auto

text \<open>The loop over the batches, other commands before each: a batch that fails is counted and passed over.\<close>

fun run_batches ::
  "RetentionService \<Rightarrow> RetentionEnv \<Rightarrow> (nat \<Rightarrow> Rdb \<Rightarrow> Rdb) \<Rightarrow> RetentionRun \<Rightarrow> Actor \<Rightarrow> string \<Rightarrow> nat \<Rightarrow>
     RetentionCandidate list list \<Rightarrow> RetentionRunCounts \<Rightarrow> Rdb \<Rightarrow> RetentionRunCounts \<times> Rdb" where
  "run_batches rv re others run actor correlationID i [] acc db = (acc, db)"
| "run_batches rv re others run actor correlationID i (b # bs) acc db =
     (case execute_batch rv run actor correlationID (re_batch re i) b (others i db) of
        (Inl e, db') \<Rightarrow>
          run_batches rv re others run actor correlationID (Suc i) bs
            (acc\<lparr>RC_Failed := RC_Failed acc + 1, RC_LastError := rt_error_text rv e\<rparr>) db'
      | (Inr (pseudo, deleted), db') \<Rightarrow>
          run_batches rv re others run actor correlationID (Suc i) bs
            (acc\<lparr>RC_Pseudonymised := RC_Pseudonymised acc + pseudo, RC_Deleted := RC_Deleted acc + deleted\<rparr>) db')"

definition batch_size :: "RetentionService \<Rightarrow> int \<Rightarrow> int" where
  "batch_size rv n =
     (let n1 = (if n \<le> 0 then rt_batch_size rv else n)
      in if n1 \<le> 0 then DefaultRetentionBatchSize else n1)"

definition ExecuteRetention_check ::
  "RetentionService \<Rightarrow> ExecuteRetentionInput \<Rightarrow> Rdb \<Rightarrow> app_error + Actor" where
  "ExecuteRetention_check rv inp seen =
     (let op = ''execute_retention'' in
      rbind (retention_gate rv op (ER_Actor inp) PermissionRetentionManage seen) (\<lambda>actor.
      if ER_RunID inp = '''' then Validationf op
      else
        rbind (RetentionRepo_GetRun (rt_uuid rv) (ER_RunID inp) seen) (\<lambda>run.
        if Run_Status run \<noteq> RetentionStatusApproved then ConflictError op else Ok actor)))"

definition no_run_counts :: RetentionRunCounts where
  "no_run_counts = \<lparr>RC_Pseudonymised = 0, RC_Deleted = 0, RC_Failed = 0, RC_LastError = ''''\<rparr>"

definition close_run ::
  "RetentionService \<Rightarrow> RetentionEnv \<Rightarrow> RetentionRun \<Rightarrow> RetentionRunCounts \<Rightarrow> Rdb \<Rightarrow> app_error + ExecuteRetentionResult \<times> Rdb" where
  "close_run rv re run counts =
     tx_bind
       (if RC_Failed counts > 0 then RetentionRepo_FailRun (rt_uuid rv) (Run_ID run) counts (re_finished re)
        else RetentionRepo_CompleteRun (rt_uuid rv) (Run_ID run) counts (re_finished re)) (\<lambda>row.
     tx_return \<lparr>ERR_RunID = Run_ID row,
       ERR_Status = (if RC_Failed counts > 0 then RetentionStatusFailed else RetentionStatusCompleted),
       ERR_Pseudonymised = RC_Pseudonymised counts, ERR_Deleted = RC_Deleted counts,
       ERR_FailedBatches = RC_Failed counts\<rparr>)"

text \<open>After the claim: the scan, the batches, the end.\<close>

definition execute_claimed ::
  "RetentionService \<Rightarrow> RetentionEnv \<Rightarrow> (nat \<Rightarrow> Rdb \<Rightarrow> Rdb) \<Rightarrow> ExecuteRetentionInput \<Rightarrow> Actor \<Rightarrow> RetentionRun \<Rightarrow> Rdb \<Rightarrow>
     (app_error + ExecuteRetentionResult) \<times> Rdb" where
  "execute_claimed rv re others inp actor run db =
     (let db1 = others 0 db;
          due = fst (splitRetentionCandidates (RetentionRepo_ScanRetentionCandidates (Run_Cutoff run) db1));
          bs = batches (nat (batch_size rv (ER_BatchSize inp))) due;
          correlationID = correlationOrNew (re_en re) (ER_CorrelationID inp);
          (counts, db2) = run_batches rv re others run actor correlationID 1 bs no_run_counts db1
      in runTx (close_run rv re run counts) (others (Suc (length bs)) db2))"

definition ExecuteRetention ::
  "RetentionService \<Rightarrow> RetentionEnv \<Rightarrow> (nat \<Rightarrow> Rdb \<Rightarrow> Rdb) \<Rightarrow> ExecuteRetentionInput \<Rightarrow> Rdb \<Rightarrow> Rdb \<Rightarrow>
     (app_error + ExecuteRetentionResult) \<times> Rdb" where
  "ExecuteRetention rv re others inp seen db =
     (case ExecuteRetention_check rv inp seen of
        Inl e \<Rightarrow> (Err e, db)
      | Inr actor \<Rightarrow>
          (case runTx (RetentionRepo_StartRun (rt_uuid rv) (ER_RunID inp) (re_started re)) db of
             (Inl e, db') \<Rightarrow> (Err e, db')
           | (Inr run, db') \<Rightarrow> execute_claimed rv re others inp actor run db'))"

section \<open>Holds\<close>

record CreateLegalHoldInput =
  CH_AggregateType :: string
  CH_AggregateID :: string
  CH_Reason :: string
  CH_Actor :: Actor
  CH_CorrelationID :: string

record ReleaseLegalHoldInput =
  RH_HoldID :: string
  RH_Reason :: string
  RH_Actor :: Actor
  RH_CorrelationID :: string

definition CreateLegalHold ::
  "RetentionService \<Rightarrow> RetentionEnv \<Rightarrow> CreateLegalHoldInput \<Rightarrow> Rdb \<Rightarrow> Rdb \<Rightarrow> (app_error + LegalHold) \<times> Rdb" where
  "CreateLegalHold rv re inp seen =
     (let op = ''create_legal_hold''; now = en_now (re_en re) in
      command
        (rbind (retention_gate rv op (CH_Actor inp) PermissionRetentionManage seen) (\<lambda>actor.
         guards [(CH_AggregateID inp = '''', AppError KindValidation op),
                 (trim_space (CH_Reason inp) = '''', AppError KindValidation op)] (Ok actor)))
        (\<lambda>actor.
         tx_bind (RetentionRepo_CreateHold (rt_uuid rv) (re_hold_id re)
             \<lparr>HRec_AggregateType = (if CH_AggregateType inp = '''' then AuditAggregateRiskSignal else CH_AggregateType inp),
              HRec_AggregateID = CH_AggregateID inp, HRec_Reason = CH_Reason inp, HRec_ActorID = Act_ID actor,
              HRec_CreatedAt = now\<rparr>) (\<lambda>row.
         tx_bind (tx_lift (legalHoldSnapshot (rt_sv rv) op row (Hold_Reason row) '''')) (\<lambda>after.
         tx_bind (appendRetentionAudit (rt_sv rv) EventTypeRetentionHoldCreated (Hold_AggregateType row)
             (Hold_AggregateID row) actor (correlationOrNew (re_en re) (CH_CorrelationID inp)) now after) (\<lambda>_.
         tx_return row)))))"

definition ReleaseLegalHold ::
  "RetentionService \<Rightarrow> RetentionEnv \<Rightarrow> ReleaseLegalHoldInput \<Rightarrow> Rdb \<Rightarrow> Rdb \<Rightarrow> (app_error + LegalHold) \<times> Rdb" where
  "ReleaseLegalHold rv re inp seen =
     (let op = ''release_legal_hold''; now = en_now (re_en re) in
      command
        (rbind (retention_gate rv op (RH_Actor inp) PermissionRetentionManage seen) (\<lambda>actor.
         guards [(RH_HoldID inp = '''', AppError KindValidation op),
                 (trim_space (RH_Reason inp) = '''', AppError KindValidation op)] (Ok actor)))
        (\<lambda>actor.
         tx_bind (RetentionRepo_ReleaseHold (rt_uuid rv) (RH_HoldID inp) now) (\<lambda>row.
         tx_bind (tx_lift (legalHoldSnapshot (rt_sv rv) op row (RH_Reason inp) (format_RFC3339 (Hold_ReleasedAt row)))) (\<lambda>after.
         tx_bind (appendRetentionAudit (rt_sv rv) EventTypeRetentionHoldReleased (Hold_AggregateType row)
             (Hold_AggregateID row) actor (correlationOrNew (re_en re) (RH_CorrelationID inp)) now after) (\<lambda>_.
         tx_return row)))))"

section \<open>Pseudonymisation of an identity\<close>

record PseudonymizeIdentityInput =
  PI_UserID :: string
  PI_DryRun :: bool
  PI_Reason :: string
  PI_Actor :: Actor
  PI_CorrelationID :: string

record PseudonymizeIdentityResult =
  PIR_UserID :: string
  PIR_DryRun :: bool
  PIR_Redaction :: RetentionRedaction

definition PseudonymizeIdentity_body ::
  "RetentionService \<Rightarrow> RetentionEnv \<Rightarrow> PseudonymizeIdentityInput \<Rightarrow> Actor \<Rightarrow> Rdb \<Rightarrow>
     app_error + PseudonymizeIdentityResult \<times> Rdb" where
  "PseudonymizeIdentity_body rv re inp actor =
     tx_bind (on_db (RetentionRepo_PseudonymiseIdentity (rt_jsonb rv) (PI_UserID inp))) (\<lambda>counts.
     tx_bind (tx_lift (pseudonymiseSnapshot (rt_sv rv) ''pseudonymize_identity'' (PI_UserID inp) counts (PI_Reason inp))) (\<lambda>after.
     tx_bind (appendRetentionAudit (rt_sv rv) EventTypeRetentionPseudonymised AuditAggregateUser (PI_UserID inp) actor
         (correlationOrNew (re_en re) (PI_CorrelationID inp)) (en_now (re_en re)) after) (\<lambda>_.
     tx_return \<lparr>PIR_UserID = PI_UserID inp, PIR_DryRun = False, PIR_Redaction = counts\<rparr>)))"

definition PseudonymizeIdentity ::
  "RetentionService \<Rightarrow> RetentionEnv \<Rightarrow> PseudonymizeIdentityInput \<Rightarrow> Rdb \<Rightarrow> Rdb \<Rightarrow>
     (app_error + PseudonymizeIdentityResult) \<times> Rdb" where
  "PseudonymizeIdentity rv re inp seen db =
     (let op = ''pseudonymize_identity'' in
      (case rbind (retention_gate rv op (PI_Actor inp) PermissionRetentionManage seen) (\<lambda>actor.
              if PI_UserID inp = '''' then Validationf op else Ok actor) of
         Inl e \<Rightarrow> (Err e, db)
       | Inr actor \<Rightarrow>
           (if PI_DryRun inp
            then (rbind (RetentionRepo_PreviewPseudonymiseIdentity (rt_jsonb rv) (PI_UserID inp) (rd_db seen)) (\<lambda>r.
                    Ok \<lparr>PIR_UserID = PI_UserID inp, PIR_DryRun = True, PIR_Redaction = r\<rparr>), db)
            else if trim_space (PI_Reason inp) = '''' then (Validationf op, db)
            else runTx (PseudonymizeIdentity_body rv re inp actor) db)))"

section \<open>Reads\<close>

definition ListRetentionRuns :: "RetentionService \<Rightarrow> Actor \<Rightarrow> Rdb \<Rightarrow> app_error + RetentionRun list" where
  "ListRetentionRuns rv actor seen =
     rbind (retention_gate rv ''list_retention_runs'' actor PermissionRetentionManage seen) (\<lambda>_.
     Ok (RetentionRepo_ListRuns seen))"

definition GetRetentionRun :: "RetentionService \<Rightarrow> string \<Rightarrow> Actor \<Rightarrow> Rdb \<Rightarrow> app_error + RetentionRun" where
  "GetRetentionRun rv runID actor seen =
     (let op = ''get_retention_run'' in
      rbind (retention_gate rv op actor PermissionRetentionManage seen) (\<lambda>_.
      if runID = '''' then Validationf op else RetentionRepo_GetRun (rt_uuid rv) runID seen))"

definition ListLegalHolds :: "RetentionService \<Rightarrow> HoldFilter \<Rightarrow> Actor \<Rightarrow> Rdb \<Rightarrow> app_error + LegalHold list" where
  "ListLegalHolds rv flt actor seen =
     rbind (retention_gate rv ''list_legal_holds'' actor PermissionRetentionManage seen) (\<lambda>_.
     RetentionRepo_ListHolds (rt_uuid rv) flt seen)"

end
