(* ===== verification/RetentionEffects.thy ===== *)
theory RetentionEffects
  imports Retention
begin

text \<open>
  What the statements of the retention do: redactions are idempotent and counted, the deletion in the
  safe order is the erasure of the signal with all that refers to it, and a batch erases the candidates
  that no hold protects.
\<close>

lemma on_runs_Ok_iff [tx_simps]:
  "on_runs f d = Inr (a, d') \<longleftrightarrow> (\<exists>rows. f (rd_runs d) = Inr (a, rows) \<and> d' = d\<lparr>rd_runs := rows\<rparr>)"
  by (auto simp: on_runs_def result_simps)

lemma on_holds_Ok_iff [tx_simps]:
  "on_holds f d = Inr (a, d') \<longleftrightarrow> (\<exists>rows. f (rd_holds d) = Inr (a, rows) \<and> d' = d\<lparr>rd_holds := rows\<rparr>)"
  by (auto simp: on_holds_def result_simps)

lemma on_db_Ok_iff [tx_simps]:
  "on_db f d = Inr (a, d') \<longleftrightarrow> (\<exists>db. f (rd_db d) = Inr (a, db) \<and> d' = d\<lparr>rd_db := db\<rparr>)"
  by (auto simp: on_db_def result_simps)

section \<open>Redactions\<close>

text \<open>An update whose rows it leaves behind no longer match: it counts what it changes, and a second one
  changes nothing.\<close>

locale redaction =
  fixes P :: "'r \<Rightarrow> bool" and f :: "'r \<Rightarrow> 'r"
  assumes settled: "P r \<Longrightarrow> \<not> P (f r)"
begin

lemma update_clean: "filter P (snd (update_where P f rows)) = []"
  using settled by (auto simp: update_where_def filter_empty_conv)

lemma update_again: "update_where P f (snd (update_where P f rows)) = (0, snd (update_where P f rows))"
proof -
  have "\<not> P r" if "r \<in> set (snd (update_where P f rows))" for r
    using update_clean [of rows] that by (simp add: filter_empty_conv)
  then show ?thesis by (auto simp: update_where_def [of P f "snd (update_where P f rows)"] filter_empty_conv intro: map_idI)
qed

end

interpretation names: redaction "\<lambda>e. sel e \<and> Ev_ActorDisplayName e \<noteq> ''''" "\<lambda>e. e\<lparr>Ev_ActorDisplayName := ''''\<rparr>"
  for sel :: "AuditEvent \<Rightarrow> bool"
  by unfold_locales simp

interpretation bodies: redaction "\<lambda>c. sel c \<and> free_text marker (Com_Body c)" "\<lambda>c. c\<lparr>Com_Body := marker\<rparr>"
  for sel :: "Comment \<Rightarrow> bool" and marker :: string
  by unfold_locales (simp add: free_text_def)

interpretation reasons: redaction
    "\<lambda>r. sel r \<and> (case SR_OverrideReason r of None \<Rightarrow> False | Some s \<Rightarrow> free_text marker s)"
    "\<lambda>r. r\<lparr>SR_OverrideReason := Some marker\<rparr>"
  for sel :: "SignalRow \<Rightarrow> bool" and marker :: string
  by unfold_locales (simp add: free_text_def)

text \<open>What the operators on \<open>jsonb\<close> promise: an object that was printed parses to itself.\<close>

definition jsonb_ok :: "jsonb \<Rightarrow> bool" where
  "jsonb_ok J \<longleftrightarrow> (\<forall>raw kvs text. jb_decode J raw = Some (JObject kvs) \<longrightarrow>
     jb_decode J (jb_encode J (JObject (with_reason text kvs))) = Some (JObject (with_reason text kvs)))"

lemma map_of_with_reason: "map_of (with_reason text kvs) ''reason'' = map_option (\<lambda>_. JString text) (map_of kvs ''reason'')"
  by (induction kvs) (auto simp: with_reason_def)

lemma reason_redacted:
  assumes "jsonb_ok J" "has_reason J marker raw"
  shows "\<not> has_reason J marker (jsonb_set_reason J marker raw)"
proof -
  obtain kvs v where d: "jb_decode J raw = Some (JObject kvs)" "map_of kvs ''reason'' = Some v"
    using assms(2) by (auto simp: has_reason_def jsonb_reason_def split: option.splits json.splits)
  have "jb_decode J (jb_encode J (JObject (with_reason marker kvs))) = Some (JObject (with_reason marker kvs))"
    using assms(1) d(1) unfolding jsonb_ok_def by blast
  then show ?thesis
    using d by (simp add: has_reason_def jsonb_reason_def jsonb_set_reason_def map_of_with_reason)
qed

lemma before_redaction:
  "jsonb_ok J \<Longrightarrow> redaction (\<lambda>e. sel e \<and> has_reason J marker (Ev_Before e))
     (\<lambda>e. e\<lparr>Ev_Before := jsonb_set_reason J marker (Ev_Before e)\<rparr>)"
  by unfold_locales (simp add: reason_redacted)

lemma after_redaction:
  "jsonb_ok J \<Longrightarrow> redaction (\<lambda>e. sel e \<and> has_reason J marker (Ev_After e))
     (\<lambda>e. e\<lparr>Ev_After := jsonb_set_reason J marker (Ev_After e)\<rparr>)"
  by unfold_locales (simp add: reason_redacted)

text \<open>The five together, as functions of the row.\<close>

definition redacted_event :: "jsonb \<Rightarrow> string \<Rightarrow> AuditEvent \<Rightarrow> AuditEvent" where
  "redacted_event J marker e =
     e\<lparr>Ev_ActorDisplayName := '''',
       Ev_Before := (if has_reason J marker (Ev_Before e) then jsonb_set_reason J marker (Ev_Before e) else Ev_Before e),
       Ev_After := (if has_reason J marker (Ev_After e) then jsonb_set_reason J marker (Ev_After e) else Ev_After e)\<rparr>"

definition redacted_comment :: "string \<Rightarrow> Comment \<Rightarrow> Comment" where
  "redacted_comment marker c = (if free_text marker (Com_Body c) then c\<lparr>Com_Body := marker\<rparr> else c)"

definition redacted_row :: "string \<Rightarrow> SignalRow \<Rightarrow> SignalRow" where
  "redacted_row marker r =
     (case SR_OverrideReason r of
        Some s \<Rightarrow> (if free_text marker s then r\<lparr>SR_OverrideReason := Some marker\<rparr> else r)
      | None \<Rightarrow> r)"

definition only_if :: "('a \<Rightarrow> bool) \<Rightarrow> ('a \<Rightarrow> 'a) \<Rightarrow> 'a \<Rightarrow> 'a" where
  "only_if P f x = (if P x then f x else x)"

definition redact_db ::
  "jsonb \<Rightarrow> (AuditEvent \<Rightarrow> bool) \<Rightarrow> (Comment \<Rightarrow> bool) \<Rightarrow> (SignalRow \<Rightarrow> bool) \<Rightarrow> Db \<Rightarrow> Db" where
  "redact_db J es cs rs db =
     db\<lparr>db_audit := map (only_if es (redacted_event J RetentionRedactionMarker)) (db_audit db),
        db_comments := map (only_if cs (redacted_comment RetentionRedactionMarker)) (db_comments db),
        db_signals := map (only_if rs (redacted_row RetentionRedactionMarker)) (db_signals db)\<rparr>"

definition redaction_counts ::
  "jsonb \<Rightarrow> (AuditEvent \<Rightarrow> bool) \<Rightarrow> (Comment \<Rightarrow> bool) \<Rightarrow> (SignalRow \<Rightarrow> bool) \<Rightarrow> Db \<Rightarrow> RetentionRedaction" where
  "redaction_counts J es cs rs db =
     (let marker = RetentionRedactionMarker in
      \<lparr>Red_DisplayNamesCleared = count_where (\<lambda>e. es e \<and> Ev_ActorDisplayName e \<noteq> '''') (db_audit db),
       Red_CommentBodiesRedacted = count_where (\<lambda>c. cs c \<and> free_text marker (Com_Body c)) (db_comments db),
       Red_OverrideReasonsRedacted = count_where (\<lambda>r. rs r \<and>
         (case SR_OverrideReason r of None \<Rightarrow> False | Some s \<Rightarrow> free_text marker s)) (db_signals db),
       Red_SnapshotReasonsRedacted = count_where (\<lambda>e. es e \<and> has_reason J marker (Ev_Before e)) (db_audit db) +
         count_where (\<lambda>e. es e \<and> has_reason J marker (Ev_After e)) (db_audit db)\<rparr>)"

text \<open>A selection that the redaction of an event does not touch.\<close>

definition stable :: "(AuditEvent \<Rightarrow> bool) \<Rightarrow> bool" where
  "stable es \<longleftrightarrow> (\<forall>e n b a. es (e\<lparr>Ev_ActorDisplayName := n\<rparr>) = es e \<and> es (e\<lparr>Ev_Before := b\<rparr>) = es e \<and>
     es (e\<lparr>Ev_After := a\<rparr>) = es e)"

lemma stable_signal: "stable (of_signal U uid)"
  by (simp add: stable_def of_signal_def)

lemma stable_actor: "stable (\<lambda>e. Ev_ActorID e = userID)"
  by (simp add: stable_def)

text \<open>Each step as its count and a map of the rows.\<close>

definition name_cleared :: "(AuditEvent \<Rightarrow> bool) \<Rightarrow> AuditEvent \<Rightarrow> AuditEvent" where
  "name_cleared es e = (if es e \<and> Ev_ActorDisplayName e \<noteq> '''' then e\<lparr>Ev_ActorDisplayName := ''''\<rparr> else e)"

definition before_redacted :: "jsonb \<Rightarrow> string \<Rightarrow> (AuditEvent \<Rightarrow> bool) \<Rightarrow> AuditEvent \<Rightarrow> AuditEvent" where
  "before_redacted J m es e =
     (if es e \<and> has_reason J m (Ev_Before e) then e\<lparr>Ev_Before := jsonb_set_reason J m (Ev_Before e)\<rparr> else e)"

definition after_redacted :: "jsonb \<Rightarrow> string \<Rightarrow> (AuditEvent \<Rightarrow> bool) \<Rightarrow> AuditEvent \<Rightarrow> AuditEvent" where
  "after_redacted J m es e =
     (if es e \<and> has_reason J m (Ev_After e) then e\<lparr>Ev_After := jsonb_set_reason J m (Ev_After e)\<rparr> else e)"

lemma redaction_steps:
  "clear_names es db = (count_where (\<lambda>e. es e \<and> Ev_ActorDisplayName e \<noteq> '''') (db_audit db),
     db\<lparr>db_audit := map (name_cleared es) (db_audit db)\<rparr>)"
  "redact_before J m es db = (count_where (\<lambda>e. es e \<and> has_reason J m (Ev_Before e)) (db_audit db),
     db\<lparr>db_audit := map (before_redacted J m es) (db_audit db)\<rparr>)"
  "redact_after J m es db = (count_where (\<lambda>e. es e \<and> has_reason J m (Ev_After e)) (db_audit db),
     db\<lparr>db_audit := map (after_redacted J m es) (db_audit db)\<rparr>)"
  by (simp_all add: clear_names_def redact_before_def redact_after_def on_audit_def update_where_def count_where_def
      name_cleared_def [abs_def] before_redacted_def [abs_def] after_redacted_def [abs_def])

lemma redact_bodies_step:
  "redact_bodies m cs db = (count_where (\<lambda>c. cs c \<and> free_text m (Com_Body c)) (db_comments db),
     db\<lparr>db_comments := map (only_if cs (redacted_comment m)) (db_comments db)\<rparr>)"
  by (auto simp: redact_bodies_def on_comments_def update_where_def count_where_def only_if_def redacted_comment_def
      intro!: arg_cong [where f = "\<lambda>x. db\<lparr>db_comments := x\<rparr>"])

lemma redact_reasons_step:
  "redact_reasons m rs db = (count_where (\<lambda>r. rs r \<and>
       (case SR_OverrideReason r of None \<Rightarrow> False | Some s \<Rightarrow> free_text m s)) (db_signals db),
     db\<lparr>db_signals := map (only_if rs (redacted_row m)) (db_signals db)\<rparr>)"
proof -
  have "map (\<lambda>r. if rs r \<and> (case SR_OverrideReason r of None \<Rightarrow> False | Some s \<Rightarrow> free_text m s)
      then r\<lparr>SR_OverrideReason := Some m\<rparr> else r) (db_signals db) = map (only_if rs (redacted_row m)) (db_signals db)"
    by (auto simp: only_if_def redacted_row_def split: option.splits)
  then show ?thesis by (simp add: redact_reasons_def on_rows_def update_where_def count_where_def)
qed

lemma count_where_map: "(\<And>x. P (f x) = P x) \<Longrightarrow> count_where P (map f xs) = count_where P xs"
  by (simp add: count_where_def filter_map comp_def)

lemma redaction_sequence:
  assumes "stable es"
  defines "m \<equiv> RetentionRedactionMarker"
  shows "(let (names, db1) = clear_names es db; (bodies, db2) = redact_bodies m cs db1;
          (reasons, db3) = redact_reasons m rs db2; (before, db4) = redact_before J m es db3;
          (after, db5) = redact_after J m es db4
      in Ok (\<lparr>Red_DisplayNamesCleared = names, Red_CommentBodiesRedacted = bodies,
              Red_OverrideReasonsRedacted = reasons, Red_SnapshotReasonsRedacted = before + after\<rparr>, db5)) =
     Ok (redaction_counts J es cs rs db, redact_db J es cs rs db)"
proof -
  have s: "es (e\<lparr>Ev_ActorDisplayName := n\<rparr>) = es e" "es (e\<lparr>Ev_Before := b\<rparr>) = es e" for e n b
    using assms(1) by (simp_all add: stable_def)
  have c1: "count_where (\<lambda>e. es e \<and> has_reason J m (Ev_Before e)) (map (name_cleared es) xs) =
      count_where (\<lambda>e. es e \<and> has_reason J m (Ev_Before e)) xs" for xs
    by (rule count_where_map) (simp add: name_cleared_def s)
  have c2: "count_where (\<lambda>e. es e \<and> has_reason J m (Ev_After e)) (map (before_redacted J m es) (map (name_cleared es) xs)) =
      count_where (\<lambda>e. es e \<and> has_reason J m (Ev_After e)) xs" for xs
    unfolding map_map by (rule count_where_map) (simp add: name_cleared_def before_redacted_def s)
  have "after_redacted J m es (before_redacted J m es (name_cleared es e)) = only_if es (redacted_event J m) e" for e
    by (simp add: name_cleared_def before_redacted_def after_redacted_def only_if_def redacted_event_def s)
  then have a: "map (after_redacted J m es) (map (before_redacted J m es) (map (name_cleared es) xs)) =
      map (only_if es (redacted_event J m)) xs" for xs
    by simp
  show ?thesis
    by (simp add: redaction_steps redact_bodies_step redact_reasons_step redaction_counts_def redact_db_def
        m_def [symmetric] Let_def c1 c2 a del: map_map)
qed

lemma PseudonymiseSignal_redacts:
  "U sid = Some uid \<Longrightarrow> RetentionRepo_PseudonymiseSignal J U sid db =
     Ok (redaction_counts J (of_signal U uid) (\<lambda>c. Com_SignalID c = uid) (\<lambda>r. SR_ID r = uid) db,
         redact_db J (of_signal U uid) (\<lambda>c. Com_SignalID c = uid) (\<lambda>r. SR_ID r = uid) db)"
  using redaction_sequence [OF stable_signal, where cs = "\<lambda>c. Com_SignalID c = uid" and rs = "\<lambda>r. SR_ID r = uid"]
  by (simp add: RetentionRepo_PseudonymiseSignal_def with_uuid_def ClearSignalAuditActorDisplayNames_statement_def
      RedactSignalCommentBodies_def RedactSignalOverrideReason_def RedactSignalAuditBeforeReason_def
      RedactSignalAuditAfterReason_def)

lemma PseudonymiseIdentity_redacts:
  "RetentionRepo_PseudonymiseIdentity J user db =
     Ok (redaction_counts J (\<lambda>e. Ev_ActorID e = user) (\<lambda>c. Com_ActorID c = user) (\<lambda>r. SR_OverrideActorID r = Some user) db,
         redact_db J (\<lambda>e. Ev_ActorID e = user) (\<lambda>c. Com_ActorID c = user) (\<lambda>r. SR_OverrideActorID r = Some user) db)"
  using redaction_sequence [OF stable_actor, where cs = "\<lambda>c. Com_ActorID c = user" and rs = "\<lambda>r. SR_OverrideActorID r = Some user"]
  by (simp add: RetentionRepo_PseudonymiseIdentity_def ClearIdentityAuditActorDisplayNames_def
      RedactIdentityCommentBodies_def RedactIdentityOverrideReasons_def RedactIdentityAuditBeforeReason_def
      RedactIdentityAuditAfterReason_def)

lemma Preview_counts:
  "RetentionRepo_PreviewPseudonymiseIdentity J user db =
     Ok (redaction_counts J (\<lambda>e. Ev_ActorID e = user) (\<lambda>c. Com_ActorID c = user) (\<lambda>r. SR_OverrideActorID r = Some user) db)"
  by (simp add: RetentionRepo_PreviewPseudonymiseIdentity_def CountIdentityPseudonymisationTargets_def
      redaction_counts_def free_text_def Let_def cong: option.case_cong)

section \<open>Erasure\<close>

text \<open>The database without the signals of \<open>S\<close> and what refers to them, and without their matches.\<close>

definition erase_signals :: "uuids \<Rightarrow> string set \<Rightarrow> Rdb \<Rightarrow> Rdb" where
  "erase_signals U S d =
     (let db = rd_db d in
      d\<lparr>rd_db := db\<lparr>db_clocks := filter (\<lambda>c. SCR_SignalID c \<notin> S) (db_clocks db),
          db_comments := filter (\<lambda>c. Com_SignalID c \<notin> S) (db_comments db),
          db_matches := filter (\<lambda>m. \<not> (\<exists>r\<in>set (db_signals db). SR_ID r \<in> S \<and> SR_MatchID r = m)) (db_matches db),
          db_audit := filter (\<lambda>e. \<not> (\<exists>uid\<in>S. of_signal U uid e)) (db_audit db),
          db_signals := filter (\<lambda>r. SR_ID r \<notin> S) (db_signals db)\<rparr>,
        rd_notifications := filter (\<lambda>x. NR_SignalID x \<notin> S) (rd_notifications d)\<rparr>)"

text \<open>The keys and the foreign keys that the schema enforces.\<close>

definition refs_ok :: "Rdb \<Rightarrow> bool" where
  "refs_ok d \<longleftrightarrow>
     (let db = rd_db d; ids = SR_ID ` set (db_signals db) in
      distinct (map SR_ID (db_signals db)) \<and> distinct (map SR_MatchID (db_signals db)) \<and>
      SR_MatchID ` set (db_signals db) \<subseteq> set (db_matches db) \<and>
      SCR_SignalID ` set (db_clocks db) \<subseteq> ids \<and> Com_SignalID ` set (db_comments db) \<subseteq> ids \<and>
      NR_SignalID ` set (rd_notifications d) \<subseteq> ids)"

lemma erase_compose: "erase_signals U S (erase_signals U T d) = erase_signals U (T \<union> S) d"
proof -
  have m: "(\<lambda>m. (\<forall>r\<in>rows. SR_ID r \<in> T \<longrightarrow> SR_MatchID r \<noteq> m) \<and>
        (\<forall>r. r \<in> rows \<and> SR_ID r \<notin> T \<longrightarrow> SR_ID r \<in> S \<longrightarrow> SR_MatchID r \<noteq> m)) =
      (\<lambda>m. \<forall>r\<in>rows. SR_ID r \<notin> T \<and> SR_ID r \<notin> S \<or> SR_MatchID r \<noteq> m)" for rows :: "SignalRow set"
    by (intro ext) blast
  have a: "(\<lambda>e. (\<forall>uid\<in>T. \<not> of_signal U uid e) \<and> (\<forall>uid\<in>S. \<not> of_signal U uid e)) =
      (\<lambda>e. \<forall>uid\<in>T \<union> S. \<not> of_signal U uid e)"
    by (intro ext) blast
  show ?thesis by (simp add: erase_signals_def Let_def m a)
qed

lemma erase_none [simp]: "erase_signals U {} d = d"
  by (simp add: erase_signals_def)

lemma inj_on_filter: "distinct (map f xs) \<Longrightarrow> distinct (map f (filter P xs))"
  by (induction xs) auto

lemma erase_refs_ok:
  assumes "refs_ok d"
  shows "refs_ok (erase_signals U S d)"
proof -
  let ?rows = "db_signals (rd_db d)"
  have inj: "SR_MatchID r = SR_MatchID q \<Longrightarrow> r = q" if "r \<in> set ?rows" "q \<in> set ?rows" for r q
    using assms that by (auto simp: refs_ok_def Let_def distinct_map inj_on_def)
  have "SR_MatchID r \<in> set (db_matches (rd_db d)) \<and> \<not> (\<exists>q\<in>set ?rows. SR_ID q \<in> S \<and> SR_MatchID q = SR_MatchID r)"
    if "r \<in> set ?rows" "SR_ID r \<notin> S" for r
    using assms that inj [of _ r] by (auto simp: refs_ok_def Let_def)
  then show ?thesis
    using assms by (auto simp: refs_ok_def erase_signals_def Let_def inj_on_filter)
qed

lemma redacted_keys [simp]:
  "SR_ID (redacted_row m r) = SR_ID r" "SR_MatchID (redacted_row m r) = SR_MatchID r"
  "Com_SignalID (redacted_comment m c) = Com_SignalID c" "of_signal U uid (redacted_event J m e) = of_signal U uid e"
  by (simp_all add: redacted_row_def redacted_comment_def redacted_event_def of_signal_def split: option.splits)

lemma redact_refs_ok: "refs_ok (d\<lparr>rd_db := redact_db J es cs rs (rd_db d)\<rparr>) = refs_ok d"
proof -
  have ids: "SR_ID (only_if rs (redacted_row m) r) = SR_ID r" "SR_MatchID (only_if rs (redacted_row m) r) = SR_MatchID r"
    "Com_SignalID (only_if cs (redacted_comment m) c) = Com_SignalID c" for m r c
    by (simp_all add: only_if_def)
  show ?thesis by (simp add: refs_ok_def redact_db_def Let_def image_image ids comp_def)
qed

text \<open>The redaction of a signal is lost in its erasure.\<close>

lemma filter_map_outside: "(\<And>x. P (f x) = P x) \<Longrightarrow> (\<And>x. P x \<Longrightarrow> f x = x) \<Longrightarrow> filter P (map f xs) = filter P xs"
  by (induction xs) auto

lemma erase_redacted:
  "erase_signals U {uid}
     (d\<lparr>rd_db := redact_db J (of_signal U uid) (\<lambda>c. Com_SignalID c = uid) (\<lambda>r. SR_ID r = uid) (rd_db d)\<rparr>) =
   erase_signals U {uid} d"
proof -
  let ?m = RetentionRedactionMarker
  have ids: "SR_ID (only_if rs (redacted_row m) r) = SR_ID r" "SR_MatchID (only_if rs (redacted_row m) r) = SR_MatchID r"
    "Com_SignalID (only_if cs (redacted_comment m) c) = Com_SignalID c" for m rs cs r c
    by (simp_all add: only_if_def)
  have ev: "of_signal U uid (only_if es (redacted_event J m) e) = of_signal U uid e" for es m e
    by (simp add: only_if_def)
  have "filter (\<lambda>r. SR_ID r \<noteq> uid) (map (only_if (\<lambda>r. SR_ID r = uid) (redacted_row ?m)) xs) = filter (\<lambda>r. SR_ID r \<noteq> uid) xs" for xs
    by (rule filter_map_outside) (simp_all add: ids only_if_def)
  moreover have "filter (\<lambda>c. Com_SignalID c \<noteq> uid) (map (only_if (\<lambda>c. Com_SignalID c = uid) (redacted_comment ?m)) xs) =
      filter (\<lambda>c. Com_SignalID c \<noteq> uid) xs" for xs
    by (rule filter_map_outside) (simp_all add: ids only_if_def)
  moreover have "filter (\<lambda>e. \<not> of_signal U uid e) (map (only_if (of_signal U uid) (redacted_event J ?m)) xs) =
      filter (\<lambda>e. \<not> of_signal U uid e) xs" for xs
    by (rule filter_map_outside) (simp_all add: ev only_if_def)
  ultimately show ?thesis
    by (simp add: erase_signals_def redact_db_def Let_def ids)
qed

section \<open>The safe order\<close>

lemma find_row: "distinct (map SR_ID rows) \<Longrightarrow> r \<in> set rows \<Longrightarrow> find (\<lambda>q. SR_ID q = SR_ID r) rows = Some r"
  by (rule find_unique [where key = SR_ID]) simp_all

lemma filter_length_pos: "r \<in> set xs \<Longrightarrow> P r \<Longrightarrow> 0 < length (filter P xs)"
  using filter_empty_conv [of P xs] by auto

text \<open>The steps before the last two leave nothing that refers to the signal.\<close>

lemma safe_order_present:
  assumes "refs_ok d" "U sid = Some uid" "r \<in> set (db_signals (rd_db d))" "SR_ID r = uid"
  shows "deleteSignalInSafeOrder U sid d = Ok ((), erase_signals U {uid} d)"
proof -
  let ?db = "rd_db d"
  let ?rows = "db_signals ?db"
  have d: "distinct (map SR_ID ?rows)" "distinct (map SR_MatchID ?rows)"
    using assms(1) by (simp_all add: refs_ok_def Let_def)
  have f: "find (\<lambda>q. SR_ID q = uid) ?rows = Some r" using find_row [OF d(1) assms(3)] assms(4) by simp
  have used: "list_ex (\<lambda>q. SR_MatchID q = SR_MatchID r) ?rows" using assms(3) by (auto simp: list_ex_iff)
  have m: "filter (\<lambda>m. \<not> (Some m = Some (SR_MatchID r) \<and> \<not> list_ex (\<lambda>q. SR_MatchID q = m) ?rows)) (db_matches ?db) = db_matches ?db"
    using used by (auto simp: filter_id_conv)
  have same_id: "q = r" if "q \<in> set ?rows" "SR_ID q = uid" for q
    using d(1) that assms(3,4) by (auto simp: distinct_map inj_on_def)
  have same_match: "q = r" if "q \<in> set ?rows" "SR_MatchID q = SR_MatchID r" for q
    using d(2) that assms(3) by (auto simp: distinct_map inj_on_def)
  have gone: "(\<forall>q\<in>set ?rows. SR_ID q = uid \<longrightarrow> SR_MatchID q \<noteq> m) \<longleftrightarrow> m \<noteq> SR_MatchID r" for m
    using same_id assms(3,4) by blast
  have n: "0 < length (filter (\<lambda>q. SR_ID q = uid) ?rows)"
    by (rule filter_length_pos [OF assms(3)]) (rule assms(4))
  have free: "\<not> list_ex (\<lambda>q. SR_MatchID q = SR_MatchID r) (filter (\<lambda>q. SR_ID q \<noteq> uid) ?rows)"
    using same_match assms(4) by (auto simp: list_ex_iff)
  have refs: "\<not> list_ex P (filter (\<lambda>c. \<not> P c) xs)" for P :: "'x \<Rightarrow> bool" and xs by (auto simp: list_ex_iff)
  show ?thesis
    using f m n free
    by (simp add: deleteSignalInSafeOrder_def tx_bind_def tx_return_def RetentionRepo_DeleteSlaClocks_def
        RetentionRepo_DeleteComments_def RetentionRepo_DeleteMatches_def RetentionRepo_DeleteNotifications_def
        RetentionRepo_DeletePriorityFactors_def RetentionRepo_DeleteAuditEvents_def RetentionRepo_DeleteSignal_def
        deleteBySignal_def with_uuid_def assms(2) DeleteRetentionSlaClocks_def DeleteRetentionComments_def
        DeleteRetentionMatches_def DeleteRetentionNotifications_def DeleteRetentionAuditEvents_def
        GetSignalMatchID_def DeleteRetentionSignal_def DeleteRetentionMatch_def delete_where_def Let_def
        select_row_def refers_to_signal_def refs erase_signals_def gone)
qed

lemma safe_order_absent:
  assumes "refs_ok d" "U sid = Some uid" "uid \<notin> SR_ID ` set (db_signals (rd_db d))"
  shows "deleteSignalInSafeOrder U sid d = Ok ((), erase_signals U {uid} d)"
proof -
  let ?db = "rd_db d"
  have f: "find (\<lambda>q. SR_ID q = uid) (db_signals ?db) = None" using assms(3) by (auto simp: find_None_iff)
  have m: "(\<forall>q\<in>set (db_signals ?db). SR_ID q = uid \<longrightarrow> SR_MatchID q \<noteq> m) \<longleftrightarrow> True" for m using assms(3) by auto
  have s: "filter (\<lambda>q. SR_ID q \<noteq> uid) (db_signals ?db) = db_signals ?db" using assms(3) by (auto simp: filter_id_conv)
  show ?thesis
    using f s
    by (simp add: deleteSignalInSafeOrder_def tx_bind_def tx_return_def RetentionRepo_DeleteSlaClocks_def
        RetentionRepo_DeleteComments_def RetentionRepo_DeleteMatches_def RetentionRepo_DeleteNotifications_def
        RetentionRepo_DeletePriorityFactors_def RetentionRepo_DeleteAuditEvents_def RetentionRepo_DeleteSignal_def
        deleteBySignal_def with_uuid_def assms(2) DeleteRetentionSlaClocks_def DeleteRetentionComments_def
        DeleteRetentionMatches_def DeleteRetentionNotifications_def DeleteRetentionAuditEvents_def
        GetSignalMatchID_def delete_where_def Let_def select_row_def erase_signals_def m)
qed

lemma safe_order_erases:
  "refs_ok d \<Longrightarrow> U sid = Some uid \<Longrightarrow> deleteSignalInSafeOrder U sid d = Ok ((), erase_signals U {uid} d)"
  using safe_order_present [of d U sid uid] safe_order_absent [of d U sid uid] by blast

section \<open>Batches\<close>

definition held :: "string \<Rightarrow> Rdb \<Rightarrow> bool" where
  "held uid d \<longleftrightarrow> HasActiveLegalHold AuditAggregateRiskSignal uid (rd_holds d)"

definition redact_signal :: "RetentionService \<Rightarrow> string \<Rightarrow> Rdb \<Rightarrow> Rdb" where
  "redact_signal rv uid d =
     d\<lparr>rd_db := redact_db (rt_jsonb rv) (of_signal (rt_uuid rv) uid) (\<lambda>c. Com_SignalID c = uid) (\<lambda>r. SR_ID r = uid) (rd_db d)\<rparr>"

text \<open>The effect of a batch, over the signals no hold protects.\<close>

definition batch_effect :: "RetentionService \<Rightarrow> RetentionStage \<Rightarrow> string list \<Rightarrow> Rdb \<Rightarrow> Rdb" where
  "batch_effect rv stage uids d =
     (if stage = RetentionStageDelete then erase_signals (rt_uuid rv) (set uids) d else fold (redact_signal rv) uids d)"

definition unheld :: "Rdb \<Rightarrow> RetentionCandidate list \<Rightarrow> string list" where
  "unheld pool cs = filter (\<lambda>uid. \<not> held uid pool) (map Cand_SignalID cs)"

lemma process_batch_total:
  assumes "refs_ok d" "\<And>c. c \<in> set cs \<Longrightarrow> rt_uuid rv (Cand_SignalID c) = Some (Cand_SignalID c)"
  shows "process_batch rv stage pool cs p n d =
    Ok ((p + int (length (unheld pool cs)), (if stage = RetentionStageDelete then n + int (length (unheld pool cs)) else n)),
        batch_effect rv stage (unheld pool cs) d)"
  using assms
proof (induction cs arbitrary: p n d)
  case Nil
  then show ?case by (simp add: tx_return_def unheld_def batch_effect_def)
next
  case (Cons c cs)
  let ?uid = "Cand_SignalID c"
  have U: "rt_uuid rv ?uid = Some ?uid" using Cons.prems(2) by simp
  have IH: "refs_ok d' \<Longrightarrow> process_batch rv stage pool cs p' n' d' =
      Ok ((p' + int (length (unheld pool cs)), (if stage = RetentionStageDelete then n' + int (length (unheld pool cs)) else n')),
        batch_effect rv stage (unheld pool cs) d')" for p' n' d'
    by (rule Cons.IH) (use Cons.prems in simp_all)
  have hold: "tx_lift (RetentionRepo_HasActiveHold (rt_uuid rv) AuditAggregateRiskSignal ?uid pool) d = Ok (held ?uid pool, d)"
    by (simp add: RetentionRepo_HasActiveHold_def with_uuid_def U held_def tx_lift_def)
  show ?case
  proof (cases "held ?uid pool")
    case True
    then show ?thesis using IH [OF Cons.prems(1)] by (simp add: tx_bind_def hold unheld_def)
  next
    case False
    have redact: "on_db (RetentionRepo_PseudonymiseSignal (rt_jsonb rv) (rt_uuid rv) ?uid) d =
        Ok (redaction_counts (rt_jsonb rv) (of_signal (rt_uuid rv) ?uid) (\<lambda>c. Com_SignalID c = ?uid) (\<lambda>r. SR_ID r = ?uid) (rd_db d),
          redact_signal rv ?uid d)"
      by (simp add: on_db_def PseudonymiseSignal_redacts [where U = "rt_uuid rv", OF U] redact_signal_def)
    have ok: "refs_ok (redact_signal rv ?uid d)"
      using Cons.prems(1) by (simp add: redact_signal_def redact_refs_ok)
    have erase: "deleteSignalInSafeOrder (rt_uuid rv) ?uid (redact_signal rv ?uid d) = Ok ((), erase_signals (rt_uuid rv) {?uid} d)"
      using safe_order_erases [where U = "rt_uuid rv", OF ok U] by (simp add: redact_signal_def erase_redacted)
    have u: "unheld pool (c # cs) = ?uid # unheld pool cs" using False by (simp add: unheld_def)
    note next_batch = IH [OF ok] IH [OF erase_refs_ok [OF Cons.prems(1)]]
    show ?thesis
    proof (cases "stage = RetentionStageDelete")
      case True
      show ?thesis using False
        by (simp add: True tx_bind_def hold redact erase u batch_effect_def erase_compose next_batch [unfolded True])
    qed (use False in \<open>simp add: tx_bind_def hold redact u batch_effect_def next_batch\<close>)
  qed
qed

text \<open>A redaction keeps the keys, the holds and the runs; so does an erasure.\<close>

lemma batch_effect_refs: "refs_ok d \<Longrightarrow> refs_ok (batch_effect rv stage uids d)"
proof -
  have "refs_ok d \<Longrightarrow> refs_ok (fold (redact_signal rv) uids d)"
    by (induction uids arbitrary: d) (simp_all add: redact_signal_def redact_refs_ok)
  then show "refs_ok d \<Longrightarrow> refs_ok (batch_effect rv stage uids d)"
    by (simp add: batch_effect_def erase_refs_ok)
qed

lemma batch_effect_tables [simp]:
  "rd_runs (batch_effect rv stage uids d) = rd_runs d" "rd_holds (batch_effect rv stage uids d) = rd_holds d"
proof -
  have "rd_runs (fold (redact_signal rv) uids d) = rd_runs d \<and> rd_holds (fold (redact_signal rv) uids d) = rd_holds d"
    by (induction uids arbitrary: d) (simp_all add: redact_signal_def)
  then show "rd_runs (batch_effect rv stage uids d) = rd_runs d" "rd_holds (batch_effect rv stage uids d) = rd_holds d"
    by (simp_all add: batch_effect_def erase_signals_def Let_def)
qed

text \<open>The event of a batch.\<close>

definition with_event :: "AuditEvent \<Rightarrow> Rdb \<Rightarrow> Rdb" where
  "with_event ev d = d\<lparr>rd_db := (rd_db d)\<lparr>db_audit := db_audit (rd_db d) @ [ev]\<rparr>\<rparr>"

lemma with_event_refs [simp]: "refs_ok (with_event ev d) = refs_ok d"
  by (simp add: refs_ok_def with_event_def Let_def)

lemma with_event_tables [simp]:
  "rd_runs (with_event ev d) = rd_runs d" "rd_holds (with_event ev d) = rd_holds d"
  "db_signals (rd_db (with_event ev d)) = db_signals (rd_db d)"
  by (simp_all add: with_event_def)

definition encodes_all :: "Service \<Rightarrow> bool" where
  "encodes_all sv \<longleftrightarrow> (\<forall>j. sv_marshal sv j \<noteq> None)"

lemma marshal_encodes: "encodes_all sv \<Longrightarrow> \<exists>b. marshal sv op parts = Ok b"
  unfolding encodes_all_def marshal_def by (cases "sv_marshal sv (JObject (concat parts))") (blast, simp)

lemma execute_batch_total:
  assumes "refs_ok db" "\<And>c. c \<in> set batch \<Longrightarrow> rt_uuid rv (Cand_SignalID c) = Some (Cand_SignalID c)"
    and "encodes_all (rt_sv rv)" "rt_uuid rv (Run_ID run) \<noteq> None"
  shows "\<exists>ev. execute_batch rv run actor cid now batch db =
    (Ok (int (length (unheld db batch)), if Run_Stage run = RetentionStageDelete then int (length (unheld db batch)) else 0),
     with_event ev (batch_effect rv (Run_Stage run) (unheld db batch) db)) \<and> Ev_Action ev = EventTypeRetentionExecuted \<and>
     Ev_AggregateType ev = AuditAggregateRetention \<and> Ev_AggregateID ev = Run_ID run"
proof -
  obtain from_t to_t where r: "batchTimeRange batch = (from_t, to_t)" by (cases "batchTimeRange batch")
  let ?n = "int (length (unheld db batch))"
  let ?dl = "if Run_Stage run = RetentionStageDelete then ?n else 0"
  have p: "process_batch rv (Run_Stage run) db batch 0 0 db = Ok ((?n, ?dl), batch_effect rv (Run_Stage run) (unheld db batch) db)"
    using process_batch_total [where p = 0 and n = 0 and pool = db and stage = "Run_Stage run", OF assms(1,2)] by simp
  obtain enc where m: "retentionSnapshot_json (rt_sv rv) ''execute_retention''
      ((newRetentionSnapshot run)\<lparr>Snap_From := from_t, Snap_To := to_t, Snap_Pseudonymised := ?n, Snap_Deleted := ?dl\<rparr>) = Ok enc"
    using marshal_encodes [OF assms(3)] unfolding retentionSnapshot_json_def by blast
  define ev where "ev = \<lparr>Ev_AggregateType = AuditAggregateRetention, Ev_AggregateID = Run_ID run, Ev_ActorType = Act_Type actor,
        Ev_ActorID = Act_ID actor, Ev_ActorDisplayName = Act_DisplayName actor, Ev_Action = EventTypeRetentionExecuted,
        Ev_OccurredAt = now, Ev_Before = '''', Ev_After = enc, Ev_CorrelationID = cid\<rparr>"
  have a: "appendRetentionAudit (rt_sv rv) EventTypeRetentionExecuted AuditAggregateRetention (Run_ID run) actor cid now enc d =
      Ok ((), with_event ev d)" for d
    using assms(4) by (auto simp: appendRetentionAudit_def on_db_def audit_Append_def with_uuid_def with_event_def ev_def)
  show ?thesis
    by (rule exI [of _ ev]) (simp add: execute_batch_def r runTx_def tx_bind_def p tx_lift_def m a tx_return_def, simp add: ev_def)
qed

text \<open>A batch goes by the scan: the status of a signal is not read again in its transaction, so a signal that was
  reopened since the scan is deleted.\<close>

lemma batch_goes_by_the_scan:
  assumes "refs_ok db" "\<And>c. c \<in> set batch \<Longrightarrow> rt_uuid rv (Cand_SignalID c) = Some (Cand_SignalID c)"
    and "encodes_all (rt_sv rv)" "rt_uuid rv (Run_ID run) \<noteq> None" "Run_Stage run = RetentionStageDelete"
    and "uid \<in> set (unheld db batch)"
  shows "uid \<notin> SR_ID ` set (db_signals (rd_db (snd (execute_batch rv run actor cid now batch db))))"
proof -
  obtain ev where "snd (execute_batch rv run actor cid now batch db) =
      with_event ev (batch_effect rv RetentionStageDelete (unheld db batch) db)"
    using execute_batch_total [where batch = batch and actor = actor and cid = cid and now = now, OF assms(1-4)] assms(5) by auto
  then show ?thesis using assms(6) by (auto simp: batch_effect_def erase_signals_def Let_def)
qed

text \<open>C18: the deletion of a signal in the order of the code refines its erasure: over tables that keep the keys of the
  schema it succeeds, has exactly that effect and keeps the keys; and the order matters, since the signal cannot
  go first while something refers to it.\<close>

theorem deletion_order_is_safe:
  assumes "refs_ok d" "U sid = Some uid"
  shows "deleteSignalInSafeOrder U sid d = Ok ((), erase_signals U {uid} d) \<and> refs_ok (erase_signals U {uid} d) \<and>
    uid \<notin> SR_ID ` set (db_signals (rd_db (erase_signals U {uid} d))) \<and>
    (if uid \<in> SR_ID ` set (db_signals (rd_db d)) \<and> refers_to_signal uid d
     then RetentionRepo_DeleteSignal U sid d = Validationf ''retention.delete_signal'' else True)"
proof -
  have "RetentionRepo_DeleteSignal U sid d = Validationf ''retention.delete_signal''"
    if present: "uid \<in> SR_ID ` set (db_signals (rd_db d))" and refs: "refers_to_signal uid d"
  proof -
    obtain r where r: "r \<in> set (db_signals (rd_db d))" "SR_ID r = uid" using present by blast
    have d: "distinct (map SR_ID (db_signals (rd_db d)))" using assms(1) by (simp add: refs_ok_def Let_def)
    have "find (\<lambda>q. SR_ID q = uid) (db_signals (rd_db d)) = Some r" using find_row [OF d r(1)] r(2) by simp
    moreover have "0 < length (filter (\<lambda>q. SR_ID q = uid) (db_signals (rd_db d)))"
      by (rule filter_length_pos [OF r(1)]) (rule r(2))
    ultimately show ?thesis
      using refs by (simp add: RetentionRepo_DeleteSignal_def with_uuid_def assms(2) GetSignalMatchID_def select_row_def
          DeleteRetentionSignal_def delete_where_def mapDBError_def)
  qed
  moreover have "uid \<notin> SR_ID ` set (db_signals (rd_db (erase_signals U {uid} d)))"
    by (auto simp: erase_signals_def Let_def)
  ultimately show ?thesis using safe_order_erases [where U = U, OF assms] erase_refs_ok [OF assms(1)] by simp
qed

end
