(* ===== verification/RetentionExecution.thy ===== *)
theory RetentionExecution
  imports RetentionEffects
begin

text \<open>
  The execution of a retention run (internal/application/retention_execute.go) as a whole: what it
  erases when nothing interferes, and what it leaves alone whatever the other commands do meanwhile.
\<close>

section \<open>The scan\<close>

lemma held_find: "find (active_hold ''risk_signal'' uid) (holds_in_order (rd_holds d)) \<noteq> None \<longleftrightarrow> held uid d"
  by (auto simp: find_None_iff held_def HasActiveLegalHold_def list_ex_iff holds_in_order_def AuditAggregateRiskSignal_def)

definition due_ids :: "time \<Rightarrow> Rdb \<Rightarrow> string set" where
  "due_ids cutoff d = SR_ID ` {r \<in> set (db_signals (rd_db d)). due_at (pg_time cutoff) r \<and> \<not> held (SR_ID r) d}"

definition due_candidates :: "time \<Rightarrow> Rdb \<Rightarrow> RetentionCandidate list" where
  "due_candidates cutoff d = fst (splitRetentionCandidates (RetentionRepo_ScanRetentionCandidates cutoff d))"

lemma scan_candidate:
  "c \<in> set (RetentionRepo_ScanRetentionCandidates cutoff d) \<Longrightarrow>
     (Cand_Held c \<longleftrightarrow> held (Cand_SignalID c) d) \<and>
     (\<exists>r\<in>set (db_signals (rd_db d)). due_at (pg_time cutoff) r \<and> Cand_SignalID c = SR_ID r \<and> Cand_ClosedAt c = tsTime (SR_ClosedAt r))"
  using held_find [of _ d] by (auto simp: RetentionRepo_ScanRetentionCandidates_def ListRetentionCandidates_def Let_def)

lemma scan_ids:
  "map Cand_SignalID (RetentionRepo_ScanRetentionCandidates cutoff d) =
     map SR_ID (sort_key (\<lambda>r. tsTime (SR_ClosedAt r)) (sort_key SR_ID (filter (due_at (pg_time cutoff)) (db_signals (rd_db d)))))"
  by (simp add: RetentionRepo_ScanRetentionCandidates_def ListRetentionCandidates_def Let_def)

lemma due_candidates_unheld:
  "c \<in> set (due_candidates cutoff d) \<Longrightarrow> \<not> held (Cand_SignalID c) d \<and> Cand_SignalID c \<in> due_ids cutoff d"
  using scan_candidate [of c cutoff d] by (auto simp: due_candidates_def splitRetentionCandidates_def due_ids_def)

lemma due_candidates_ids:
  assumes "distinct (map SR_ID (db_signals (rd_db d)))"
  shows "set (map Cand_SignalID (due_candidates cutoff d)) = due_ids cutoff d"
    "distinct (map Cand_SignalID (due_candidates cutoff d))"
proof -
  have "due_ids cutoff d \<subseteq> Cand_SignalID ` set (due_candidates cutoff d)"
  proof
    fix uid assume "uid \<in> due_ids cutoff d"
    then have h: "\<not> held uid d" and "uid \<in> set (map Cand_SignalID (RetentionRepo_ScanRetentionCandidates cutoff d))"
      unfolding scan_ids by (auto simp: due_ids_def)
    then obtain c where "c \<in> set (RetentionRepo_ScanRetentionCandidates cutoff d)" "Cand_SignalID c = uid" by auto
    then show "uid \<in> Cand_SignalID ` set (due_candidates cutoff d)"
      using h scan_candidate by (force simp: due_candidates_def splitRetentionCandidates_def)
  qed
  then show "set (map Cand_SignalID (due_candidates cutoff d)) = due_ids cutoff d"
    using due_candidates_unheld by fastforce
  have "distinct (map Cand_SignalID (RetentionRepo_ScanRetentionCandidates cutoff d))"
    unfolding scan_ids using inj_on_filter [OF assms, of "due_at (pg_time cutoff)"] by (simp add: distinct_map)
  then show "distinct (map Cand_SignalID (due_candidates cutoff d))"
    unfolding due_candidates_def splitRetentionCandidates_def by (simp add: inj_on_filter)
qed

lemma due_count: "distinct (map SR_ID (db_signals (rd_db d))) \<Longrightarrow> length (due_candidates cutoff d) = card (due_ids cutoff d)"
  using due_candidates_ids [of d cutoff] distinct_card [of "map Cand_SignalID (due_candidates cutoff d)"] by simp

lemma batches_concat: "0 < n \<Longrightarrow> concat (batches n xs) = xs"
proof (induction n xs rule: batches.induct)
  case (2 n x xs)
  then show ?case by simp
qed simp

lemma batches_length: "0 < n \<Longrightarrow> b \<in> set (batches n xs) \<Longrightarrow> length b \<le> n"
  by (induction n xs rule: batches.induct) auto

lemma batch_size_pos: "0 < batch_size rv n"
  by (simp add: batch_size_def Let_def DefaultRetentionBatchSize_def)

section \<open>All batches\<close>

definition with_events :: "AuditEvent list \<Rightarrow> Rdb \<Rightarrow> Rdb" where
  "with_events evs d = d\<lparr>rd_db := (rd_db d)\<lparr>db_audit := db_audit (rd_db d) @ evs\<rparr>\<rparr>"

lemma with_events_simps [simp]:
  "with_events [] d = d" "with_events evs (with_event ev d) = with_events (ev # evs) d"
  "rd_runs (with_events evs d) = rd_runs d" "rd_holds (with_events evs d) = rd_holds d"
  "db_signals (rd_db (with_events evs d)) = db_signals (rd_db d)" "refs_ok (with_events evs d) = refs_ok d"
  by (simp_all add: with_events_def with_event_def refs_ok_def Let_def)

lemma erase_event:
  "Ev_AggregateType ev = AuditAggregateRetention \<Longrightarrow> erase_signals U S (with_event ev d) = with_event ev (erase_signals U S d)"
  by (simp add: erase_signals_def with_event_def Let_def of_signal_def AuditAggregateRetention_def)

lemma redact_event:
  "Ev_AggregateType ev = AuditAggregateRetention \<Longrightarrow> redact_signal rv uid (with_event ev d) = with_event ev (redact_signal rv uid d)"
  by (simp add: redact_signal_def redact_db_def with_event_def only_if_def of_signal_def AuditAggregateRetention_def)

lemma batch_effect_event:
  assumes "Ev_AggregateType ev = AuditAggregateRetention"
  shows "batch_effect rv stage uids (with_event ev d) = with_event ev (batch_effect rv stage uids d)"
proof -
  have "fold (redact_signal rv) uids (with_event ev d) = with_event ev (fold (redact_signal rv) uids d)"
    by (induction uids arbitrary: d) (simp_all add: redact_event [OF assms])
  then show ?thesis by (simp add: batch_effect_def erase_event [OF assms])
qed

lemma batch_effect_append: "batch_effect rv stage vs (batch_effect rv stage us d) = batch_effect rv stage (us @ vs) d"
  by (simp add: batch_effect_def erase_compose)

lemma held_effect [simp]: "held uid (batch_effect rv stage uids d) = held uid d" "held uid (with_event ev d) = held uid d"
  by (simp_all add: held_def)

text \<open>Undisturbed, the batches do what one batch would; each leaves its event.\<close>

lemma run_batches_quiet:
  assumes "refs_ok d" "encodes_all (rt_sv rv)" "rt_uuid rv (Run_ID run) \<noteq> None"
    and "\<forall>c\<in>set (concat bs). rt_uuid rv (Cand_SignalID c) = Some (Cand_SignalID c) \<and> \<not> held (Cand_SignalID c) d"
  shows "\<exists>evs. length evs = length bs \<and> (\<forall>ev\<in>set evs. Ev_Action ev = EventTypeRetentionExecuted \<and> Ev_AggregateID ev = Run_ID run) \<and>
    run_batches rv re (\<lambda>_ x. x) run actor cid i bs acc d =
      (acc\<lparr>RC_Pseudonymised := RC_Pseudonymised acc + int (length (concat bs)),
           RC_Deleted := RC_Deleted acc + (if Run_Stage run = RetentionStageDelete then int (length (concat bs)) else 0)\<rparr>,
       with_events evs (batch_effect rv (Run_Stage run) (map Cand_SignalID (concat bs)) d))"
  using assms(1,4)
proof (induction bs arbitrary: i acc d)
  case Nil
  then show ?case by (simp add: batch_effect_def)
next
  case (Cons b bs)
  let ?stage = "Run_Stage run"
  let ?ids = "map Cand_SignalID b"
  have u: "unheld d b = ?ids" using Cons.prems(2) by (auto simp: unheld_def filter_id_conv)
  have U: "rt_uuid rv (Cand_SignalID c) = Some (Cand_SignalID c)" if "c \<in> set b" for c using Cons.prems(2) that by simp
  obtain ev where ev: "Ev_Action ev = EventTypeRetentionExecuted" "Ev_AggregateType ev = AuditAggregateRetention" "Ev_AggregateID ev = Run_ID run"
    "execute_batch rv run actor cid (re_batch re i) b d =
      (Ok (int (length b), if ?stage = RetentionStageDelete then int (length b) else 0), with_event ev (batch_effect rv ?stage ?ids d))"
    using execute_batch_total [where batch = b and now = "re_batch re i" and actor = actor and cid = cid, OF Cons.prems(1) U assms(2,3)]
    by (auto simp: u)
  let ?d = "with_event ev (batch_effect rv ?stage ?ids d)"
  let ?acc = "acc\<lparr>RC_Pseudonymised := RC_Pseudonymised acc + int (length b),
      RC_Deleted := RC_Deleted acc + (if ?stage = RetentionStageDelete then int (length b) else 0)\<rparr>"
  have "refs_ok ?d" using batch_effect_refs [OF Cons.prems(1)] by simp
  moreover have "\<forall>c\<in>set (concat bs). rt_uuid rv (Cand_SignalID c) = Some (Cand_SignalID c) \<and> \<not> held (Cand_SignalID c) ?d"
    using Cons.prems(2) by simp
  ultimately obtain evs where evs: "length evs = length bs"
    "\<forall>ev\<in>set evs. Ev_Action ev = EventTypeRetentionExecuted \<and> Ev_AggregateID ev = Run_ID run"
    "run_batches rv re (\<lambda>_ x. x) run actor cid (Suc i) bs ?acc ?d =
      (?acc\<lparr>RC_Pseudonymised := RC_Pseudonymised ?acc + int (length (concat bs)),
           RC_Deleted := RC_Deleted ?acc + (if ?stage = RetentionStageDelete then int (length (concat bs)) else 0)\<rparr>,
       with_events evs (batch_effect rv ?stage (map Cand_SignalID (concat bs)) ?d))"
    using Cons.IH [of ?d "Suc i" ?acc] by blast
  show ?case
    using evs(1,2) ev(1,3)
    by (intro exI [of _ "ev # evs"]) (simp add: ev(4) evs(3) batch_effect_event [OF ev(2)] batch_effect_append)
qed

section \<open>Claim and end\<close>

lemma run_update_key:
  assumes "\<And>r. RR_ID (f r) = RR_ID r"
  shows "guarded_update RR_ID uid (\<lambda>r. RR_ID r = uid \<and> RR_Status r \<in> S) (\<lambda>r. Ok (f r))"
  by unfold_locales (auto simp: assms)

interpretation approved: guarded_update RR_ID uid "\<lambda>r. RR_ID r = uid \<and> RR_Status r \<in> {RetentionStatusDryRun}"
    "\<lambda>r. Ok (r\<lparr>RR_Status := RetentionStatusApproved, RR_ApprovedBy := by_actor, RR_ApprovedAt := Some t, RR_ApprovalReason := reason\<rparr>)"
  for uid by_actor t reason
  by (rule run_update_key) simp

interpretation rejected: guarded_update RR_ID uid "\<lambda>r. RR_ID r = uid \<and> RR_Status r \<in> {RetentionStatusDryRun}"
    "\<lambda>r. Ok (r\<lparr>RR_Status := RetentionStatusRejected, RR_ApprovedAt := Some t, RR_ApprovalReason := reason\<rparr>)"
  for uid t reason
  by (rule run_update_key) simp

interpretation executing: guarded_update RR_ID uid "\<lambda>r. RR_ID r = uid \<and> RR_Status r \<in> {RetentionStatusApproved}"
    "\<lambda>r. Ok (r\<lparr>RR_Status := RetentionStatusExecuting, RR_StartedAt := Some t\<rparr>)"
  for uid t
  by (rule run_update_key) simp

interpretation completed: guarded_update RR_ID uid "\<lambda>r. RR_ID r = uid \<and> RR_Status r \<in> {RetentionStatusExecuting}"
    "\<lambda>r. Ok (r\<lparr>RR_Status := RetentionStatusCompleted, RR_FinishedAt := Some t, RR_PseudonymisedCount := p, RR_DeletedCount := n,
       RR_FailedCount := k\<rparr>)"
  for uid t p n k
  by (rule run_update_key) simp

interpretation failed: guarded_update RR_ID uid
    "\<lambda>r. RR_ID r = uid \<and> RR_Status r \<in> {RetentionStatusApproved, RetentionStatusExecuting}"
    "\<lambda>r. Ok (r\<lparr>RR_Status := RetentionStatusFailed, RR_FinishedAt := Some t, RR_FailedCount := k, RR_LastError := e\<rparr>)"
  for uid t k e
  by (rule run_update_key) simp

definition run_started :: "time \<Rightarrow> RetentionRunRow \<Rightarrow> RetentionRunRow" where
  "run_started t r = r\<lparr>RR_Status := RetentionStatusExecuting, RR_StartedAt := Some (pg_time t)\<rparr>"

definition run_completed :: "time \<Rightarrow> int \<Rightarrow> int \<Rightarrow> RetentionRunRow \<Rightarrow> RetentionRunRow" where
  "run_completed t p n r =
     r\<lparr>RR_Status := RetentionStatusCompleted, RR_FinishedAt := Some (pg_time t), RR_PseudonymisedCount := p,
       RR_DeletedCount := n, RR_FailedCount := 0\<rparr>"

lemma run_keys [simp]: "RR_ID (run_started t r) = RR_ID r" "RR_ID (run_completed t p n r) = RR_ID r"
  by (simp_all add: run_started_def run_completed_def)

lemma StartRun_claims:
  assumes "distinct (map RR_ID (rd_runs db))" "row_at RR_ID uid (rd_runs db) = Some r" "RR_Status r = RetentionStatusApproved"
    and "U ident = Some uid"
  obtains rows where "RetentionRepo_StartRun U ident t db = Ok (retentionRunFromRow (run_started t r), db\<lparr>rd_runs := rows\<rparr>)"
    and "distinct (map RR_ID rows)" "row_at RR_ID uid rows = Some (run_started t r)"
    and "\<And>j. j \<noteq> uid \<Longrightarrow> row_at RR_ID j rows = row_at RR_ID j (rd_runs db)"
proof -
  have id: "RR_ID r = uid" using row_at_Some [OF assms(2)] by simp
  obtain rows where u: "MarkRetentionRunExecuting (pg_time t) uid (rd_runs db) = Ok (run_started t r, rows)"
    using executing.update_hit [OF assms(1,2)] assms(3) id
    by (simp add: MarkRetentionRunExecuting_def guarded_run_def run_started_def)
  note upd = executing.update_Ok [OF assms(1) u [unfolded MarkRetentionRunExecuting_def guarded_run_def]]
  have "RetentionRepo_StartRun U ident t db = Ok (retentionRunFromRow (run_started t r), db\<lparr>rd_runs := rows\<rparr>)"
    by (simp add: RetentionRepo_StartRun_def on_runs_def with_uuid_def assms(4) run_guarded_def u)
  then show ?thesis using upd assms(1) by (intro that [of rows]) simp_all
qed

lemma CompleteRun_closes:
  assumes "distinct (map RR_ID (rd_runs db))" "row_at RR_ID uid (rd_runs db) = Some r" "RR_Status r = RetentionStatusExecuting"
    and "U ident = Some uid" "RC_Failed counts = 0"
    and "0 \<le> RC_Pseudonymised counts \<and> RC_Pseudonymised counts \<le> max_int32" "0 \<le> RC_Deleted counts \<and> RC_Deleted counts \<le> max_int32"
  obtains rows where "RetentionRepo_CompleteRun U ident counts t db =
      Ok (retentionRunFromRow (run_completed t (RC_Pseudonymised counts) (RC_Deleted counts) r), db\<lparr>rd_runs := rows\<rparr>)"
    and "distinct (map RR_ID rows)" "row_at RR_ID uid rows = Some (run_completed t (RC_Pseudonymised counts) (RC_Deleted counts) r)"
    and "\<And>j. j \<noteq> uid \<Longrightarrow> row_at RR_ID j rows = row_at RR_ID j (rd_runs db)"
proof -
  let ?r = "run_completed t (RC_Pseudonymised counts) (RC_Deleted counts) r"
  have id: "RR_ID r = uid" using row_at_Some [OF assms(2)] by simp
  obtain rows where u: "MarkRetentionRunCompleted (pg_time t) (RC_Pseudonymised counts) (RC_Deleted counts) 0 uid (rd_runs db) = Ok (?r, rows)"
    using completed.update_hit [OF assms(1,2)] assms(3) id
    by (simp add: MarkRetentionRunCompleted_def guarded_run_def run_completed_def)
  note upd = completed.update_Ok [OF assms(1) u [unfolded MarkRetentionRunCompleted_def guarded_run_def]]
  have "RetentionRepo_CompleteRun U ident counts t db = Ok (retentionRunFromRow ?r, db\<lparr>rd_runs := rows\<rparr>)"
    using assms(5-7) u by (simp add: RetentionRepo_CompleteRun_def on_runs_def with_uuid_def assms(4) run_guarded_def retentionCountInt32_def max_int32_def)
  then show ?thesis using upd assms(1) by (intro that [of rows]) simp_all
qed

section \<open>An undisturbed run\<close>

lemma no_run_counts_simps [simp]:
  "RC_Pseudonymised no_run_counts = 0" "RC_Deleted no_run_counts = 0" "RC_Failed no_run_counts = 0" "RC_LastError no_run_counts = ''''"
  by (simp_all add: no_run_counts_def)

lemma refs_ok_runs [simp]: "refs_ok (d\<lparr>rd_runs := rows\<rparr>) = refs_ok d"
  by (simp add: refs_ok_def)

text \<open>The batches of a claimed run, over the due signals of the database.\<close>

lemma quiet_batches:
  assumes "refs_ok d" "encodes_all (rt_sv rv)" "rt_uuid rv (Run_ID run) \<noteq> None"
    and "\<And>r. r \<in> set (db_signals (rd_db d)) \<Longrightarrow> rt_uuid rv (SR_ID r) = Some (SR_ID r)"
    and "Run_Stage run = RetentionStageDelete" "0 < k"
  defines "n \<equiv> int (card (due_ids (Run_Cutoff run) d))"
  shows "\<exists>evs. (\<forall>ev\<in>set evs. Ev_Action ev = EventTypeRetentionExecuted \<and> Ev_AggregateID ev = Run_ID run) \<and>
    run_batches rv re (\<lambda>_ x. x) run actor cid i (batches k (due_candidates (Run_Cutoff run) d)) no_run_counts d =
      (no_run_counts\<lparr>RC_Pseudonymised := n, RC_Deleted := n\<rparr>,
       with_events evs (erase_signals (rt_uuid rv) (due_ids (Run_Cutoff run) d) d))"
proof -
  let ?due = "due_candidates (Run_Cutoff run) d"
  have ids: "distinct (map SR_ID (db_signals (rd_db d)))" using assms(1) by (simp add: refs_ok_def Let_def)
  have "\<forall>c\<in>set (concat (batches k ?due)). rt_uuid rv (Cand_SignalID c) = Some (Cand_SignalID c) \<and> \<not> held (Cand_SignalID c) d"
    unfolding batches_concat [OF assms(6)]
  proof
    fix c assume "c \<in> set ?due"
    then have c: "\<not> held (Cand_SignalID c) d" "Cand_SignalID c \<in> due_ids (Run_Cutoff run) d"
      using due_candidates_unheld by blast+
    then show "rt_uuid rv (Cand_SignalID c) = Some (Cand_SignalID c) \<and> \<not> held (Cand_SignalID c) d"
      using assms(4) by (auto simp: due_ids_def)
  qed
  then obtain evs where evs: "\<forall>ev\<in>set evs. Ev_Action ev = EventTypeRetentionExecuted \<and> Ev_AggregateID ev = Run_ID run"
    "run_batches rv re (\<lambda>_ x. x) run actor cid i (batches k ?due) no_run_counts d =
      (no_run_counts\<lparr>RC_Pseudonymised := RC_Pseudonymised no_run_counts + int (length ?due),
         RC_Deleted := RC_Deleted no_run_counts + (if Run_Stage run = RetentionStageDelete then int (length ?due) else 0)\<rparr>,
       with_events evs (batch_effect rv (Run_Stage run) (map Cand_SignalID ?due) d))"
    using run_batches_quiet [where bs = "batches k ?due" and acc = no_run_counts and i = i and re = re and actor = actor and cid = cid, OF assms(1-3)]
    unfolding batches_concat [OF assms(6)] by blast
  show ?thesis
    unfolding n_def using evs(1)
    by (intro exI [of _ evs]) (simp add: evs(2) assms(5) batch_effect_def due_count [OF ids]
        due_candidates_ids(1) [OF ids, unfolded set_map])
qed

text \<open>C5: an approved deletion, run undisturbed, erases exactly the signals that are due and not held, in the
  database as it is at the claim, keeps every foreign key, and closes the run with their number.\<close>

theorem execution_erases_the_due:
  assumes "ExecuteRetention_check rv inp seen = Ok actor"
    and "rt_uuid rv (ER_RunID inp) = Some uid" "canonical (rt_uuid rv)"
    and "row_at RR_ID uid (rd_runs db) = Some r" "RR_Status r = RetentionStatusApproved" "RR_Stage r = RetentionStageDelete"
    and "refs_ok db" "distinct (map RR_ID (rd_runs db))"
    and "\<And>q. q \<in> set (db_signals (rd_db db)) \<Longrightarrow> rt_uuid rv (SR_ID q) = Some (SR_ID q)"
    and "encodes_all (rt_sv rv)"
    and "int (card (due_ids (RR_Cutoff r) db)) \<le> max_int32"
  shows "\<exists>res db' evs. ExecuteRetention rv re (\<lambda>_ d. d) inp seen db = (Ok res, db') \<and>
    ERR_Status res = RetentionStatusCompleted \<and> ERR_Deleted res = int (card (due_ids (RR_Cutoff r) db)) \<and>
    rd_db db' = rd_db (with_events evs (erase_signals (rt_uuid rv) (due_ids (RR_Cutoff r) db) db)) \<and>
    (\<forall>ev\<in>set evs. Ev_Action ev = EventTypeRetentionExecuted \<and> Ev_AggregateID ev = uid) \<and> refs_ok db' \<and>
    row_at RR_ID uid (rd_runs db') =
      Some (run_completed (re_finished re) (ERR_Deleted res) (ERR_Deleted res) (run_started (re_started re) r)) \<and>
    (\<forall>j. j = uid \<or> row_at RR_ID j (rd_runs db') = row_at RR_ID j (rd_runs db))"
proof -
  have U: "rt_uuid rv uid = Some uid" using assms(2,3) by (auto simp: canonical_def)
  have idr: "RR_ID r = uid" using row_at_Some [OF assms(4)] by simp
  obtain rows where start: "RetentionRepo_StartRun (rt_uuid rv) (ER_RunID inp) (re_started re) db =
      Ok (retentionRunFromRow (run_started (re_started re) r), db\<lparr>rd_runs := rows\<rparr>)"
    "distinct (map RR_ID rows)" "row_at RR_ID uid rows = Some (run_started (re_started re) r)"
    "\<And>j. j \<noteq> uid \<Longrightarrow> row_at RR_ID j rows = row_at RR_ID j (rd_runs db)"
    using StartRun_claims [where U = "rt_uuid rv" and ident = "ER_RunID inp" and t = "re_started re", OF assms(8,4,5,2)] by blast
  let ?run = "retentionRunFromRow (run_started (re_started re) r)"
  let ?d1 = "db\<lparr>rd_runs := rows\<rparr>"
  let ?k = "nat (batch_size rv (ER_BatchSize inp))"
  let ?due = "due_ids (RR_Cutoff r) db"
  have run: "Run_ID ?run = uid" "Run_Stage ?run = RetentionStageDelete" "Run_Cutoff ?run = RR_Cutoff r"
    by (simp_all add: retentionRunFromRow_def run_started_def idr assms(6))
  have d1: "due_ids (RR_Cutoff r) ?d1 = ?due" "refs_ok ?d1" "rd_db ?d1 = rd_db db"
    using assms(7) by (simp_all add: due_ids_def held_def refs_ok_def)
  have "0 < ?k" using batch_size_pos [of rv] by simp
  then obtain evs where evs: "\<forall>ev\<in>set evs. Ev_Action ev = EventTypeRetentionExecuted \<and> Ev_AggregateID ev = uid"
    "run_batches rv re (\<lambda>_ x. x) ?run actor (correlationOrNew (re_en re) (ER_CorrelationID inp)) 1
       (batches ?k (due_candidates (RR_Cutoff r) ?d1)) no_run_counts ?d1 =
     (no_run_counts\<lparr>RC_Pseudonymised := int (card ?due), RC_Deleted := int (card ?due)\<rparr>,
      with_events evs (erase_signals (rt_uuid rv) ?due ?d1))"
    using quiet_batches [where run = ?run and d = ?d1 and k = ?k and rv = rv and re = re and actor = actor and i = 1 and
        cid = "correlationOrNew (re_en re) (ER_CorrelationID inp)"] d1 run U assms(9,10)
    by (auto simp: Let_def)
  let ?counts = "no_run_counts\<lparr>RC_Pseudonymised := int (card ?due), RC_Deleted := int (card ?due)\<rparr>"
  let ?d2 = "with_events evs (erase_signals (rt_uuid rv) ?due ?d1)"
  have runs2: "rd_runs ?d2 = rows" by (simp add: erase_signals_def Let_def)
  have counts: "RC_Pseudonymised ?counts = int (card ?due)" "RC_Deleted ?counts = int (card ?due)" "RC_Failed ?counts = 0"
    by simp_all
  have started: "RR_Status (run_started (re_started re) r) = RetentionStatusExecuting" by (simp add: run_started_def)
  obtain rows' where close: "RetentionRepo_CompleteRun (rt_uuid rv) uid ?counts (re_finished re) ?d2 =
      Ok (retentionRunFromRow (run_completed (re_finished re) (int (card ?due)) (int (card ?due)) (run_started (re_started re) r)),
          ?d2\<lparr>rd_runs := rows'\<rparr>)"
    "row_at RR_ID uid rows' = Some (run_completed (re_finished re) (int (card ?due)) (int (card ?due)) (run_started (re_started re) r))"
    "\<And>j. j \<noteq> uid \<Longrightarrow> row_at RR_ID j rows' = row_at RR_ID j rows"
    using CompleteRun_closes [where db = ?d2 and U = "rt_uuid rv" and ident = uid and counts = ?counts and t = "re_finished re" and
        r = "run_started (re_started re) r" and uid = uid, unfolded counts runs2, OF start(2,3) started U refl] assms(11)
    by (metis of_nat_0_le_iff)
  have claimed: "ExecuteRetention rv re (\<lambda>_ d. d) inp seen db = execute_claimed rv re (\<lambda>_ d. d) inp actor ?run ?d1"
    by (simp add: ExecuteRetention_def assms(1) runTx_def start(1))
  have executed: "execute_claimed rv re (\<lambda>_ d. d) inp actor ?run ?d1 =
      (Ok \<lparr>ERR_RunID = uid, ERR_Status = RetentionStatusCompleted, ERR_Pseudonymised = int (card ?due),
           ERR_Deleted = int (card ?due), ERR_FailedBatches = 0\<rparr>, ?d2\<lparr>rd_runs := rows'\<rparr>)"
    unfolding execute_claimed_def Let_def due_candidates_def [symmetric] run(3) evs(2)
    by (simp add: runTx_def close_run_def tx_bind_def tx_return_def run(1) close(1)) (simp add: idr retentionRunFromRow_def)
  have "refs_ok (?d2\<lparr>rd_runs := rows'\<rparr>)" using erase_refs_ok [OF d1(2)] by simp
  moreover have "rd_db ?d2 = rd_db (with_events evs (erase_signals (rt_uuid rv) ?due db))"
    by (simp add: with_events_def erase_signals_def Let_def)
  ultimately show ?thesis
    using close(2,3) start(4) evs(1) unfolding claimed executed
    by (intro exI [of _ "\<lparr>ERR_RunID = uid, ERR_Status = RetentionStatusCompleted, ERR_Pseudonymised = int (card ?due),
           ERR_Deleted = int (card ?due), ERR_FailedBatches = 0\<rparr>"] exI [of _ "?d2\<lparr>rd_runs := rows'\<rparr>"] exI [of _ evs]) auto
qed

section \<open>Held records\<close>

text \<open>What the database keeps of a signal: its row, all that refers to it, its audit trail, its match.\<close>

definition same_record :: "uuids \<Rightarrow> string \<Rightarrow> Rdb \<Rightarrow> Rdb \<Rightarrow> bool" where
  "same_record U uid d d' \<longleftrightarrow>
     filter (\<lambda>r. SR_ID r = uid) (db_signals (rd_db d')) = filter (\<lambda>r. SR_ID r = uid) (db_signals (rd_db d)) \<and>
     filter (\<lambda>c. SCR_SignalID c = uid) (db_clocks (rd_db d')) = filter (\<lambda>c. SCR_SignalID c = uid) (db_clocks (rd_db d)) \<and>
     filter (\<lambda>c. Com_SignalID c = uid) (db_comments (rd_db d')) = filter (\<lambda>c. Com_SignalID c = uid) (db_comments (rd_db d)) \<and>
     filter (\<lambda>x. NR_SignalID x = uid) (rd_notifications d') = filter (\<lambda>x. NR_SignalID x = uid) (rd_notifications d) \<and>
     filter (of_signal U uid) (db_audit (rd_db d')) = filter (of_signal U uid) (db_audit (rd_db d)) \<and>
     {SR_MatchID r |r. r \<in> set (db_signals (rd_db d)) \<and> SR_ID r = uid} \<inter> set (db_matches (rd_db d)) \<subseteq> set (db_matches (rd_db d'))"

lemma same_record_refl [simp]: "same_record U uid d d"
  by (simp add: same_record_def)

lemma same_record_trans: "same_record U uid d d' \<Longrightarrow> same_record U uid d' d'' \<Longrightarrow> same_record U uid d d''"
proof -
  assume a: "same_record U uid d d'" "same_record U uid d' d''"
  have "filter (\<lambda>r. SR_ID r = uid) (db_signals (rd_db d')) = filter (\<lambda>r. SR_ID r = uid) (db_signals (rd_db d))"
    using a(1) by (simp add: same_record_def)
  then have "set (filter (\<lambda>r. SR_ID r = uid) (db_signals (rd_db d'))) = set (filter (\<lambda>r. SR_ID r = uid) (db_signals (rd_db d)))"
    by (rule arg_cong)
  then have "{r \<in> set (db_signals (rd_db d')). SR_ID r = uid} = {r \<in> set (db_signals (rd_db d)). SR_ID r = uid}"
    by simp
  then have "{SR_MatchID r |r. r \<in> set (db_signals (rd_db d')) \<and> SR_ID r = uid} =
      {SR_MatchID r |r. r \<in> set (db_signals (rd_db d)) \<and> SR_ID r = uid}"
    by blast
  then show ?thesis using a by (simp add: same_record_def) blast
qed

text \<open>A step of a batch that leaves the signal alone, the holds and the runs.\<close>

definition spares :: "uuids \<Rightarrow> string \<Rightarrow> Rdb \<Rightarrow> Rdb \<Rightarrow> bool" where
  "spares U uid d d' \<longleftrightarrow> same_record U uid d d' \<and> rd_holds d' = rd_holds d \<and> rd_runs d' = rd_runs d"

lemma spares_refl [simp]: "spares U uid d d"
  by (simp add: spares_def)

lemma spares_trans: "spares U uid d d' \<Longrightarrow> spares U uid d' d'' \<Longrightarrow> spares U uid d d''"
  using same_record_trans [of U uid d d' d''] by (simp add: spares_def)

lemma filter_disjoint: "(\<And>x. P x \<Longrightarrow> \<not> Q x) \<Longrightarrow> filter P (filter (\<lambda>x. \<not> Q x) xs) = filter P xs"
  by (induction xs) auto

lemma of_signal_other: "v \<noteq> uid \<Longrightarrow> of_signal U uid e \<Longrightarrow> \<not> of_signal U v e"
  by (simp add: of_signal_def)

lemma delete_same_record:
  assumes "v \<noteq> uid"
  shows "DeleteRetentionSlaClocks v d = Inr (n, d') \<Longrightarrow> spares U uid d d'"
    "DeleteRetentionComments v d = Inr (n, d') \<Longrightarrow> spares U uid d d'"
    "DeleteRetentionNotifications v d = Inr (n, d') \<Longrightarrow> spares U uid d d'"
    "DeleteRetentionAuditEvents U v d = Inr (n, d') \<Longrightarrow> spares U uid d d'"
    "DeleteRetentionMatches v d = Inr (n, d') \<Longrightarrow> spares U uid d d'"
    "DeleteRetentionSignal v d = Inr (n, d') \<Longrightarrow> spares U uid d d'"
    "DeleteRetentionMatch m d = Inr (n, d') \<Longrightarrow> spares U uid d d'"
proof -
  have f: "filter (\<lambda>c. SCR_SignalID c = uid) (filter (\<lambda>c. SCR_SignalID c \<noteq> v) xs) = filter (\<lambda>c. SCR_SignalID c = uid) xs"
    "filter (\<lambda>c. Com_SignalID c = uid) (filter (\<lambda>c. Com_SignalID c \<noteq> v) ys) = filter (\<lambda>c. Com_SignalID c = uid) ys"
    "filter (\<lambda>x. NR_SignalID x = uid) (filter (\<lambda>x. NR_SignalID x \<noteq> v) zs) = filter (\<lambda>x. NR_SignalID x = uid) zs"
    "filter (\<lambda>r. SR_ID r = uid) (filter (\<lambda>r. SR_ID r \<noteq> v) us) = filter (\<lambda>r. SR_ID r = uid) us"
    "filter (of_signal U uid) (filter (\<lambda>e. \<not> of_signal U v e) ws) = filter (of_signal U uid) ws"
    for xs ys zs us ws
    using assms of_signal_other [OF assms] by (auto intro!: filter_disjoint simp del: filter_filter)
  show "DeleteRetentionSlaClocks v d = Inr (n, d') \<Longrightarrow> spares U uid d d'"
    by (auto simp: DeleteRetentionSlaClocks_def delete_where_def same_record_def spares_def f split: if_splits simp del: filter_filter)
  show "DeleteRetentionComments v d = Inr (n, d') \<Longrightarrow> spares U uid d d'"
    by (auto simp: DeleteRetentionComments_def delete_where_def same_record_def spares_def f split: if_splits simp del: filter_filter)
  show "DeleteRetentionNotifications v d = Inr (n, d') \<Longrightarrow> spares U uid d d'"
    by (auto simp: DeleteRetentionNotifications_def delete_where_def same_record_def spares_def f split: if_splits simp del: filter_filter)
  show "DeleteRetentionAuditEvents U v d = Inr (n, d') \<Longrightarrow> spares U uid d d'"
    by (auto simp: DeleteRetentionAuditEvents_def delete_where_def same_record_def spares_def f split: if_splits simp del: filter_filter)
  show "DeleteRetentionSignal v d = Inr (n, d') \<Longrightarrow> spares U uid d d'"
    by (auto simp: DeleteRetentionSignal_def delete_where_def same_record_def spares_def f split: if_splits simp del: filter_filter)
  show "DeleteRetentionMatches v d = Inr (n, d') \<Longrightarrow> spares U uid d d'"
    by (auto simp: DeleteRetentionMatches_def delete_where_def Let_def same_record_def spares_def list_ex_iff)
  show "DeleteRetentionMatch m d = Inr (n, d') \<Longrightarrow> spares U uid d d'"
    by (auto simp: DeleteRetentionMatch_def delete_where_def same_record_def spares_def list_ex_iff filter_empty_conv split: if_splits)
qed

lemma deleteBySignal_same:
  assumes "U sid = Some v" "deleteBySignal U op sid del d = Inr (n, d')" "\<And>n d d'. del v d = Inr (n, d') \<Longrightarrow> spares U uid d d'"
  shows "spares U uid d d'"
proof (rule assms(3))
  show "del v d = Inr (n, d')" using assms(1,2) by (simp add: deleteBySignal_def with_uuid_def db_result_Ok_iff)
qed

lemma safe_order_same:
  assumes "v \<noteq> uid" "U sid = Some v" "deleteSignalInSafeOrder U sid d = Inr (x, d')"
  shows "spares U uid d d'"
proof -
  note del = deleteBySignal_same [where U = U and v = v and uid = uid, OF assms(2)]
  have signal: "spares U uid d1 d2" if gone: "RetentionRepo_DeleteSignal U sid d1 = Inr (n, d2)" for d1 d2 n
  proof (cases "GetSignalMatchID v d1")
    case (Inl e)
    then show ?thesis using that by (simp add: RetentionRepo_DeleteSignal_def with_uuid_def assms(2) split: if_splits)
  next
    case (Inr m)
    then obtain k d3 where "DeleteRetentionSignal v d1 = Inr (k, d3)" "d2 = d3 \<or> (\<exists>j. DeleteRetentionMatch m d3 = Inr (j, d2))"
      using gone by (auto simp: RetentionRepo_DeleteSignal_def with_uuid_def assms(2) result_simps split: if_splits)
    then show ?thesis using delete_same_record(6,7) [OF assms(1)] spares_trans by blast
  qed
  have steps: "RetentionRepo_DeleteSlaClocks U sid d1 = Inr (n, d2) \<Longrightarrow> spares U uid d1 d2"
    "RetentionRepo_DeleteComments U sid d1 = Inr (n, d2) \<Longrightarrow> spares U uid d1 d2"
    "RetentionRepo_DeleteMatches U sid d1 = Inr (n, d2) \<Longrightarrow> spares U uid d1 d2"
    "RetentionRepo_DeleteNotifications U sid d1 = Inr (n, d2) \<Longrightarrow> spares U uid d1 d2"
    "RetentionRepo_DeleteAuditEvents U sid d1 = Inr (n, d2) \<Longrightarrow> spares U uid d1 d2" for d1 d2 n
    unfolding RetentionRepo_DeleteSlaClocks_def RetentionRepo_DeleteComments_def RetentionRepo_DeleteMatches_def
      RetentionRepo_DeleteNotifications_def RetentionRepo_DeleteAuditEvents_def
    by (erule del, erule delete_same_record [OF assms(1)])+
  show ?thesis
    using assms(3) unfolding deleteSignalInSafeOrder_def
    by (auto simp: tx_simps RetentionRepo_DeletePriorityFactors_def dest!: signal steps) (meson spares_trans)
qed

lemma redact_same:
  assumes "v \<noteq> uid"
  shows "spares (rt_uuid rv) uid d (redact_signal rv v d)"
proof -
  have f: "filter P (map (only_if Q g) xs) = filter P xs"
    if "\<And>x. P (g x) = P x" "\<And>x. P x \<Longrightarrow> \<not> Q x" for P Q :: "'x \<Rightarrow> bool" and g xs
    using that by (induction xs) (auto simp: only_if_def)
  have "filter (\<lambda>r. SR_ID r = uid) (map (only_if (\<lambda>r. SR_ID r = v) (redacted_row m)) xs) = filter (\<lambda>r. SR_ID r = uid) xs" for m xs
    by (rule f) (use assms in auto)
  moreover have "filter (\<lambda>c. Com_SignalID c = uid) (map (only_if (\<lambda>c. Com_SignalID c = v) (redacted_comment m)) xs) =
      filter (\<lambda>c. Com_SignalID c = uid) xs" for m xs
    by (rule f) (use assms in auto)
  moreover have "filter (of_signal U uid) (map (only_if (of_signal U v) (redacted_event J m)) xs) = filter (of_signal U uid) xs"
    for U J m xs
    by (rule f) (use of_signal_other [OF assms] in auto)
  ultimately show ?thesis by (simp add: redact_signal_def redact_db_def same_record_def spares_def)
qed

lemma tx_bind_lift: "tx_bind (tx_lift (Inr a)) f d = f a d"
  by (simp add: tx_bind_def tx_lift_def)

lemma process_batch_same:
  assumes "held uid pool" "process_batch rv stage pool cs p n d = Inr (x, d')"
  shows "spares (rt_uuid rv) uid d d'"
  using assms(2)
proof (induction cs arbitrary: p n d)
  case Nil
  then show ?case by (simp add: tx_return_Ok_iff)
next
  case (Cons c cs)
  obtain v where v: "rt_uuid rv (Cand_SignalID c) = Some v"
    using Cons.prems by (auto simp: tx_simps RetentionRepo_HasActiveHold_def result_simps)
  have hold: "RetentionRepo_HasActiveHold (rt_uuid rv) AuditAggregateRiskSignal (Cand_SignalID c) pool = Ok (held v pool)"
    by (simp add: RetentionRepo_HasActiveHold_def with_uuid_def v held_def)
  show ?case
  proof (cases "held v pool")
    case True
    then show ?thesis using Cons by (simp add: tx_bind_lift hold)
  next
    case False
    then have other: "v \<noteq> uid" using assms(1) by auto
    have redact: "on_db (RetentionRepo_PseudonymiseSignal (rt_jsonb rv) (rt_uuid rv) (Cand_SignalID c)) d = Inr (a, d1) \<Longrightarrow>
        d1 = redact_signal rv v d" for a d1
      by (simp add: on_db_def PseudonymiseSignal_redacts [where U = "rt_uuid rv", OF v] redact_signal_def)
    have "\<exists>d1 p1 n1. spares (rt_uuid rv) uid d d1 \<and> process_batch rv stage pool cs p1 n1 d1 = Inr (x, d')"
      using Cons.prems False redact redact_same [OF other]
        safe_order_same [where U = "rt_uuid rv", OF other v] spares_trans [of "rt_uuid rv" uid]
      by (fastforce simp: tx_bind_lift tx_bind_Ok_iff [of "on_db f" for f] tx_bind_Ok_iff [of "deleteSignalInSafeOrder U s" for U s] hold split: if_splits)
    then show ?thesis using Cons.IH spares_trans by blast
  qed
qed



lemma execute_batch_spares:
  assumes "held uid db"
  shows "spares (rt_uuid rv) uid db (snd (execute_batch rv run actor cid now batch db))"
proof (cases "execute_batch rv run actor cid now batch db")
  case (Pair res db')
  show ?thesis
  proof (cases res)
    case (Inl e)
    then show ?thesis using Pair by (auto simp: execute_batch_def dest: runTx_Err split: prod.splits)
  next
    case (Inr a)
    then obtain x d1 enc where p: "process_batch rv (Run_Stage run) db batch 0 0 db = Inr (x, d1)"
      "appendRetentionAudit (rt_sv rv) EventTypeRetentionExecuted AuditAggregateRetention (Run_ID run) actor cid now enc d1 = Inr ((), db')"
      using Pair by (auto simp: execute_batch_def tx_simps split: prod.splits)
    have "spares (rt_uuid rv) uid d1 db'"
      using p(2) by (auto simp: appendRetentionAudit_def tx_simps spares_def same_record_def of_signal_def AuditAggregateRetention_def)
    then show ?thesis using process_batch_same [OF assms p(1)] spares_trans Pair by simp
  qed
qed

lemma held_spares: "spares U uid d d' \<Longrightarrow> held uid d' = held uid d"
  by (simp add: spares_def held_def)

text \<open>Commands that respect a hold: while it stands they do not lift it, and leave the record alone.\<close>

definition respects_hold :: "uuids \<Rightarrow> string \<Rightarrow> (Rdb \<Rightarrow> Rdb) \<Rightarrow> bool" where
  "respects_hold U uid f \<longleftrightarrow> (\<forall>d. held uid d \<longrightarrow> held uid (f d) \<and> same_record U uid d (f d))"

lemma run_batches_spares:
  assumes "\<And>i. respects_hold (rt_uuid rv) uid (others i)" "held uid d"
  shows "held uid (snd (run_batches rv re others run actor cid i bs acc d)) \<and>
    same_record (rt_uuid rv) uid d (snd (run_batches rv re others run actor cid i bs acc d))"
  using assms(2)
proof (induction bs arbitrary: i acc d)
  case Nil
  then show ?case by simp
next
  case (Cons b bs)
  let ?d1 = "others i d"
  let ?d2 = "snd (execute_batch rv run actor cid (re_batch re i) b ?d1)"
  have h1: "held uid ?d1" "same_record (rt_uuid rv) uid d ?d1"
    using assms(1) [of i] Cons.prems by (simp_all add: respects_hold_def)
  have h2: "held uid ?d2" "same_record (rt_uuid rv) uid ?d1 ?d2"
    using execute_batch_spares [where rv = rv, OF h1(1)] held_spares [of "rt_uuid rv" uid ?d1 ?d2] h1(1) by (simp_all add: spares_def)
  have "\<exists>acc'. run_batches rv re others run actor cid i (b # bs) acc d = run_batches rv re others run actor cid (Suc i) bs acc' ?d2"
    by (auto split: prod.splits sum.splits)
  then obtain acc' where r: "run_batches rv re others run actor cid i (b # bs) acc d = run_batches rv re others run actor cid (Suc i) bs acc' ?d2"
    by blast
  show ?case
    unfolding r using Cons.IH [OF h2(1), of "Suc i" acc'] h1(2) h2(2) same_record_trans by blast
qed

lemma on_runs_spares: "on_runs f d = Inr (a, d') \<Longrightarrow> held uid d' = held uid d \<and> same_record U uid d d'"
  by (auto simp: on_runs_Ok_iff held_def same_record_def)

lemma close_run_spares:
  "held uid (snd (runTx (close_run rv re run counts) d)) = held uid d \<and>
   same_record U uid d (snd (runTx (close_run rv re run counts) d))"
proof (rule runTx_keeps)
  show "close_run rv re run counts d = Inr (a, d') \<Longrightarrow> held uid d' = held uid d \<and> same_record U uid d d'" for a d'
    by (auto simp: close_run_def tx_simps RetentionRepo_FailRun_def RetentionRepo_CompleteRun_def held_def same_record_def split: if_splits)
qed simp

text \<open>C6: whatever else goes on, and however the execution ends, a signal that a hold protects keeps its row, its clocks,
  comments and notifications, its audit trail and its match, as long as the other commands respect the hold.\<close>

theorem held_records_are_preserved:
  assumes "held uid db" "\<And>i. respects_hold (rt_uuid rv) uid (others i)"
  shows "held uid (snd (ExecuteRetention rv re others inp seen db)) \<and>
    same_record (rt_uuid rv) uid db (snd (ExecuteRetention rv re others inp seen db))"
proof (cases "ExecuteRetention_check rv inp seen")
  case (Inl e)
  then show ?thesis using assms(1) by (simp add: ExecuteRetention_def)
next
  case (Inr actor)
  note check = this
  obtain res d1 where start: "runTx (RetentionRepo_StartRun (rt_uuid rv) (ER_RunID inp) (re_started re)) db = (res, d1)" by fastforce
  have d1: "held uid d1" "same_record (rt_uuid rv) uid db d1"
    using start assms(1)
    by (auto simp: runTx_def RetentionRepo_StartRun_def split: sum.splits prod.splits
        dest: on_runs_spares [where uid = uid and U = "rt_uuid rv"])
  show ?thesis
  proof (cases res)
    case (Inl e)
    then show ?thesis using d1 by (simp add: ExecuteRetention_def check start)
  next
    case (Inr run)
    let ?d2 = "others 0 d1"
    have d2: "held uid ?d2" "same_record (rt_uuid rv) uid d1 ?d2" using assms(2) [of 0] d1(1) by (simp_all add: respects_hold_def)
    let ?bs = "batches (nat (batch_size rv (ER_BatchSize inp))) (fst (splitRetentionCandidates (RetentionRepo_ScanRetentionCandidates (Run_Cutoff run) ?d2)))"
    let ?n = "Suc (length ?bs)"
    obtain counts d3 where b: "run_batches rv re others run actor (correlationOrNew (re_en re) (ER_CorrelationID inp)) 1 ?bs no_run_counts ?d2 = (counts, d3)"
      by fastforce
    have r: "ExecuteRetention rv re others inp seen db = runTx (close_run rv re run counts) (others ?n d3)"
      using b by (simp add: ExecuteRetention_def check start Inr execute_claimed_def Let_def)
    have d3: "held uid d3" "same_record (rt_uuid rv) uid ?d2 d3"
      using run_batches_spares [where others = others and rv = rv and d = ?d2, OF assms(2) d2(1)] b by (metis snd_conv)+
    have d4: "held uid (others ?n d3)" "same_record (rt_uuid rv) uid d3 (others ?n d3)"
      using assms(2) [of ?n] d3(1) by (simp_all add: respects_hold_def)
    show ?thesis
      unfolding r using close_run_spares [of uid rv re run counts "others ?n d3" "rt_uuid rv"] d4 d3 d2 d1 same_record_trans by blast
  qed
qed

end
