(* ===== verification/RetentionRuns.thy ===== *)
theory RetentionRuns
  imports RetentionExecution
begin

text \<open>
  The life of a retention run over every history of the retention commands and of others: the report
  that survives the deletion, the decision that precedes it, and the single execution that follows.
\<close>

section \<open>Rows of runs\<close>

definition counts_in_range :: "RetentionRunRow \<Rightarrow> bool" where
  "counts_in_range r \<longleftrightarrow> (\<forall>n\<in>{RR_PseudonymisedCount r, RR_DeletedCount r, RR_FailedCount r}. 0 \<le> n \<and> n \<le> max_int32)"

text \<open>What a status says of the other columns. The counts are those of a completed run; of a failed one only the
  number of failed batches is kept.\<close>

fun status_columns :: "RetentionRunStatus \<Rightarrow> RetentionRunRow \<Rightarrow> bool" where
  "status_columns RetentionStatusDryRun r \<longleftrightarrow>
     RR_ApprovedBy r = None \<and> RR_ApprovedAt r = None \<and> RR_StartedAt r = None \<and> RR_FinishedAt r = None \<and>
     RR_PseudonymisedCount r = 0 \<and> RR_DeletedCount r = 0 \<and> RR_FailedCount r = 0 \<and> RR_LastError r = None"
| "status_columns RetentionStatusRejected r \<longleftrightarrow>
     RR_ApprovedBy r = None \<and> RR_ApprovedAt r \<noteq> None \<and> RR_ApprovalReason r \<noteq> None \<and> RR_StartedAt r = None \<and>
     RR_FinishedAt r = None \<and> RR_PseudonymisedCount r = 0 \<and> RR_DeletedCount r = 0 \<and> RR_FailedCount r = 0 \<and> RR_LastError r = None"
| "status_columns RetentionStatusApproved r \<longleftrightarrow>
     RR_ApprovedBy r \<noteq> None \<and> RR_ApprovedAt r \<noteq> None \<and> RR_ApprovalReason r \<noteq> None \<and> RR_StartedAt r = None \<and>
     RR_FinishedAt r = None \<and> RR_PseudonymisedCount r = 0 \<and> RR_DeletedCount r = 0 \<and> RR_FailedCount r = 0 \<and> RR_LastError r = None"
| "status_columns RetentionStatusExecuting r \<longleftrightarrow>
     RR_ApprovedBy r \<noteq> None \<and> RR_ApprovedAt r \<noteq> None \<and> RR_ApprovalReason r \<noteq> None \<and> RR_StartedAt r \<noteq> None \<and>
     RR_FinishedAt r = None \<and> RR_PseudonymisedCount r = 0 \<and> RR_DeletedCount r = 0 \<and> RR_FailedCount r = 0 \<and> RR_LastError r = None"
| "status_columns RetentionStatusCompleted r \<longleftrightarrow>
     RR_ApprovedBy r \<noteq> None \<and> RR_ApprovedAt r \<noteq> None \<and> RR_ApprovalReason r \<noteq> None \<and> RR_StartedAt r \<noteq> None \<and>
     RR_FinishedAt r \<noteq> None \<and> RR_FailedCount r = 0 \<and> RR_LastError r = None"
| "status_columns RetentionStatusFailed r \<longleftrightarrow>
     RR_ApprovedBy r \<noteq> None \<and> RR_ApprovedAt r \<noteq> None \<and> RR_ApprovalReason r \<noteq> None \<and> RR_FinishedAt r \<noteq> None \<and>
     RR_PseudonymisedCount r = 0 \<and> RR_DeletedCount r = 0 \<and> 0 < RR_FailedCount r"
| "status_columns (OtherRetentionRunStatus s) r \<longleftrightarrow> False"

definition run_row_ok :: "RetentionRunRow \<Rightarrow> bool" where
  "run_row_ok r \<longleftrightarrow> RetentionStage_Valid (RR_Stage r) \<and> counts_in_range r \<and> status_columns (RR_Status r) r"

definition runs_ok :: "RetentionRunRow list \<Rightarrow> bool" where
  "runs_ok rows \<longleftrightarrow> distinct (map RR_ID rows) \<and> (\<forall>r\<in>set rows. run_row_ok r)"

fun run_edge :: "RetentionRunStatus \<Rightarrow> RetentionRunStatus \<Rightarrow> bool" where
  "run_edge RetentionStatusDryRun to \<longleftrightarrow> to = RetentionStatusApproved \<or> to = RetentionStatusRejected"
| "run_edge RetentionStatusApproved to \<longleftrightarrow> to = RetentionStatusExecuting \<or> to = RetentionStatusFailed"
| "run_edge RetentionStatusExecuting to \<longleftrightarrow> to = RetentionStatusCompleted \<or> to = RetentionStatusFailed"
| "run_edge _ to \<longleftrightarrow> False"

text \<open>One transition: an edge of the lifecycle, the plan unchanged, the decision unchanged once it is taken.\<close>

definition run_next :: "RetentionRunRow \<Rightarrow> RetentionRunRow \<Rightarrow> bool" where
  "run_next r r' \<longleftrightarrow> run_edge (RR_Status r) (RR_Status r') \<and>
     (RR_ID r', RR_PolicyID r', RR_Stage r', RR_Cutoff r', RR_PartitionKey r', RR_DryRun r') =
     (RR_ID r, RR_PolicyID r, RR_Stage r, RR_Cutoff r, RR_PartitionKey r, RR_DryRun r) \<and>
     (RR_Status r \<noteq> RetentionStatusDryRun \<longrightarrow>
        (RR_ApprovedBy r', RR_ApprovedAt r', RR_ApprovalReason r') = (RR_ApprovedBy r, RR_ApprovedAt r, RR_ApprovalReason r))"

text \<open>How a statement changes the table: not at all, by a fresh row, or by one transition of one row.\<close>

definition runs_evolve :: "RetentionRunRow list \<Rightarrow> RetentionRunRow list \<Rightarrow> bool" where
  "runs_evolve rows rows' \<longleftrightarrow> (runs_ok rows \<longrightarrow> runs_ok rows' \<and>
     (\<forall>j r. row_at RR_ID j rows = Some r \<longrightarrow> (\<exists>r'. row_at RR_ID j rows' = Some r' \<and> run_next\<^sup>*\<^sup>* r r')))"

lemma runs_evolve_refl [simp]: "runs_evolve rows rows"
  by (auto simp: runs_evolve_def)

lemma runs_evolve_trans: "runs_evolve a b \<Longrightarrow> runs_evolve b c \<Longrightarrow> runs_evolve a c"
  unfolding runs_evolve_def by (meson rtranclp_trans)

lemma guarded_run_evolves:
  assumes "\<And>r. RR_ID (f r) = RR_ID r" "guarded_run uid S f rows = Inr (r', rows')"
    and "\<And>r. r \<in> set rows \<Longrightarrow> RR_Status r \<in> S \<Longrightarrow> run_row_ok r \<Longrightarrow> run_row_ok (f r) \<and> run_next r (f r)"
  shows "runs_evolve rows rows'"
  unfolding runs_evolve_def
proof
  assume ok: "runs_ok rows"
  then have d: "distinct (map RR_ID rows)" by (simp add: runs_ok_def)
  note upd = guarded_update.update_Ok [OF run_update_key [OF assms(1)] d assms(2) [unfolded guarded_run_def]]
  obtain r where r: "row_at RR_ID uid rows = Some r" "RR_Status r \<in> S" "r' = f r" using upd(1) by auto
  have "r \<in> set rows" using row_at_Some [OF r(1)] by simp
  then have step: "run_row_ok (f r)" "run_next r (f r)" using assms(3) r(2) ok by (auto simp: runs_ok_def)
  have "runs_ok rows'"
    using ok upd(2,4) step(1) r(3) by (auto simp: runs_ok_def)
  moreover have "\<exists>q'. row_at RR_ID j rows' = Some q' \<and> run_next\<^sup>*\<^sup>* q q'" if "row_at RR_ID j rows = Some q" for j q
    using that r step(2) by (auto simp: upd(3))
  ultimately show "runs_ok rows' \<and> (\<forall>j r. row_at RR_ID j rows = Some r \<longrightarrow> (\<exists>r'. row_at RR_ID j rows' = Some r' \<and> run_next\<^sup>*\<^sup>* r r'))"
    by blast
qed

lemmas run_row_defs = run_row_ok_def run_next_def counts_in_range_def

lemma approve_evolves:
  assumes "MarkRetentionRunApproved (Some a) t (Some reason) uid rows = Inr (r', rows')"
  shows "runs_evolve rows rows'"
  by (rule guarded_run_evolves [OF _ assms [unfolded MarkRetentionRunApproved_def]]) (auto simp: run_row_defs)

lemma reject_evolves:
  assumes "MarkRetentionRunRejected t (Some reason) uid rows = Inr (r', rows')"
  shows "runs_evolve rows rows'"
  by (rule guarded_run_evolves [OF _ assms [unfolded MarkRetentionRunRejected_def]]) (auto simp: run_row_defs)

lemma start_evolves:
  assumes "MarkRetentionRunExecuting t uid rows = Inr (r', rows')"
  shows "runs_evolve rows rows'"
  by (rule guarded_run_evolves [OF _ assms [unfolded MarkRetentionRunExecuting_def]]) (auto simp: run_row_defs)

lemma complete_evolves:
  assumes "MarkRetentionRunCompleted t p n 0 uid rows = Inr (r', rows')" "0 \<le> p \<and> p \<le> max_int32" "0 \<le> n \<and> n \<le> max_int32"
  shows "runs_evolve rows rows'"
  by (rule guarded_run_evolves [OF _ assms(1) [unfolded MarkRetentionRunCompleted_def]])
    (use assms(2,3) in \<open>auto simp: run_row_defs\<close>)

lemma fail_evolves:
  assumes "MarkRetentionRunFailed t k e uid rows = Inr (r', rows')" "0 < k \<and> k \<le> max_int32"
  shows "runs_evolve rows rows'"
  by (rule guarded_run_evolves [OF _ assms(1) [unfolded MarkRetentionRunFailed_def]])
    (use assms(2) in \<open>auto simp: run_row_defs\<close>)

lemma insert_evolves:
  assumes "InsertRetentionRun newid policy stage cutoff part RetentionStatusDryRun counts rows = Inr (row, rows')"
    and "newid \<notin> RR_ID ` set rows"
  shows "runs_evolve rows rows'"
proof -
  have r: "rows' = rows @ [row]" "RR_ID row = newid" "run_row_ok row"
    using assms(1) by (auto simp: InsertRetentionRun_def Let_def run_row_defs max_int32_def split: if_splits)
  have fresh: "RR_ID row \<notin> RR_ID ` set rows" using assms(2) r(2) by simp
  have "runs_ok rows \<Longrightarrow> runs_ok rows'"
    using r fresh by (auto simp: runs_ok_def)
  moreover have "row_at RR_ID j rows' = Some q" if "row_at RR_ID j rows = Some q" for j q
    unfolding r(1) row_at_append [where key = RR_ID, OF fresh] using that row_at_Some [OF that] fresh by (metis image_eqI)
  ultimately show ?thesis unfolding runs_evolve_def by blast
qed

section \<open>Histories\<close>

text \<open>The transactions of the retention, in any order, with anything else in between that is not the retention's.\<close>

inductive retention_step :: "RetentionService \<Rightarrow> Rdb \<Rightarrow> Rdb \<Rightarrow> bool" for rv :: RetentionService where
  propose: "RunRetentionDryRun rv re inp seen d = (Inr res, d') \<Longrightarrow> re_run_id re \<notin> RR_ID ` set (rd_runs d) \<Longrightarrow>
    retention_step rv d d'"
| decide: "ApproveRetentionRun rv re inp seen d = (Inr res, d') \<Longrightarrow> retention_step rv d d'"
| claim: "RetentionRepo_StartRun (rt_uuid rv) ident t d = Inr (run, d') \<Longrightarrow> retention_step rv d d'"
| batch: "execute_batch rv run actor cid now b d = (res, d') \<Longrightarrow> retention_step rv d d'"
| close: "close_run rv re run counts d = Inr (res, d') \<Longrightarrow> retention_step rv d d'"
| hold: "CreateLegalHold rv re inp seen d = (res, d') \<Longrightarrow> retention_step rv d d'"
| release: "ReleaseLegalHold rv re inp' seen d = (res, d') \<Longrightarrow> retention_step rv d d'"
| pseudonymise: "PseudonymizeIdentity rv re inp'' seen d = (res', d') \<Longrightarrow> retention_step rv d d'"
| other: "retention_step rv d (d\<lparr>rd_db := db', rd_notifications := ns\<rparr>)"

lemma audit_runs: "appendRetentionAudit sv action ty ident actor cid now after d = Inr (u, d') \<Longrightarrow> rd_runs d' = rd_runs d"
  by (auto simp: appendRetentionAudit_def tx_simps)

lemma blank_reason: "trim_space s \<noteq> '''' \<Longrightarrow> toTextOpt s = Some s"
  using set_trim_space [of s] by (auto simp: toTextOpt_def)

lemma safe_order_runs:
  assumes "deleteSignalInSafeOrder U sid d = Inr (u, d')"
  shows "rd_runs d' = rd_runs d"
proof -
  obtain v where v: "U sid = Some v"
    using assms unfolding deleteSignalInSafeOrder_def
    by (auto simp: tx_bind_Ok_iff RetentionRepo_DeleteSlaClocks_def deleteBySignal_def with_uuid_Ok_iff)
  have "v \<noteq> v @ ''x''" by simp
  then show ?thesis using safe_order_same [OF _ v assms] unfolding spares_def by blast
qed

lemma process_batch_runs: "process_batch rv stage pool cs p n d = Inr (x, d') \<Longrightarrow> rd_runs d' = rd_runs d"
proof (induction cs arbitrary: p n d)
  case (Cons c cs)
  obtain b where hold: "RetentionRepo_HasActiveHold (rt_uuid rv) AuditAggregateRiskSignal (Cand_SignalID c) pool = Ok b"
    using Cons.prems by (auto simp: tx_bind_Ok_iff tx_lift_Ok_iff)
  have redact: "on_db f d = Inr (a, d1) \<Longrightarrow> rd_runs d1 = rd_runs d" for f :: "Db \<Rightarrow> app_error + RetentionRedaction \<times> Db" and a d1
    by (auto simp: on_db_Ok_iff)
  show ?case
  proof (cases b)
    case True
    then show ?thesis using Cons by (simp add: tx_bind_lift hold)
  next
    case False
    then have "\<exists>d1 p1 n1. rd_runs d1 = rd_runs d \<and> process_batch rv stage pool cs p1 n1 d1 = Inr (x, d')"
      using Cons.prems redact safe_order_runs
      by (fastforce simp: tx_bind_lift tx_bind_Ok_iff [of "on_db f" for f] tx_bind_Ok_iff [of "deleteSignalInSafeOrder U s" for U s] hold split: if_splits)
    then show ?thesis using Cons.IH by metis
  qed
qed (simp add: tx_simps)

lemma execute_batch_runs: "rd_runs (snd (execute_batch rv run actor cid now b d)) = rd_runs d"
proof -
  have "rd_runs d' = rd_runs d" if "execute_batch rv run actor cid now b d = (res, d')" for res d'
    using that by (cases res) (auto simp: execute_batch_def tx_simps dest: runTx_Err dest!: audit_runs process_batch_runs split: prod.splits)
  then show ?thesis by (metis prod.collapse)
qed

lemma command_runs:
  assumes "command checked body d = (res, d')" "\<And>c a d1. body c d = Inr (a, d1) \<Longrightarrow> rd_runs d1 = rd_runs d"
  shows "rd_runs d' = rd_runs d"
  using assms by (cases res) (auto simp: command_Ok_iff dest: command_Err)

lemma holds_runs:
  "CreateLegalHold rv re inp seen d = (res, d') \<Longrightarrow> rd_runs d' = rd_runs d"
  "ReleaseLegalHold rv re inp' seen d = (res, d') \<Longrightarrow> rd_runs d' = rd_runs d"
  unfolding CreateLegalHold_def ReleaseLegalHold_def Let_def
  by (erule command_runs; auto simp: tx_simps RetentionRepo_CreateHold_def RetentionRepo_ReleaseHold_def dest!: audit_runs)+

lemma pseudonymise_runs: "PseudonymizeIdentity rv re inp seen d = (res, d') \<Longrightarrow> rd_runs d' = rd_runs d"
  by (cases res) (auto simp: PseudonymizeIdentity_def Let_def PseudonymizeIdentity_body_def tx_simps
      dest: runTx_Err dest!: audit_runs split: sum.splits if_splits)

lemma run_guarded_Ok_iff: "run_guarded op m = Inr (run, rows) \<longleftrightarrow> (\<exists>row. m = Inr (row, rows) \<and> run = retentionRunFromRow row)"
  by (auto simp: run_guarded_def split: sum.splits)

lemma retentionCountInt32_Ok_iff: "retentionCountInt32 op v = Inr n \<longleftrightarrow> 0 \<le> v \<and> v \<le> max_int32 \<and> n = v"
  by (auto simp: retentionCountInt32_def)

lemma close_evolves:
  assumes "close_run rv re run counts d = Inr (res, d')"
  shows "runs_evolve (rd_runs d) (rd_runs d')"
proof (cases "RC_Failed counts > 0")
  case True
  then show ?thesis
    using assms fail_evolves
    by (fastforce simp: close_run_def tx_simps RetentionRepo_FailRun_def result_simps retentionCountInt32_Ok_iff run_guarded_Ok_iff)
next
  case False
  then show ?thesis
    using assms complete_evolves
    by (fastforce simp: close_run_def tx_simps RetentionRepo_CompleteRun_def result_simps retentionCountInt32_Ok_iff run_guarded_Ok_iff)
qed

lemma start_step:
  "RetentionRepo_StartRun U ident t d = Inr (run, d') \<Longrightarrow> runs_evolve (rd_runs d) (rd_runs d')"
  by (auto simp: RetentionRepo_StartRun_def tx_simps result_simps run_guarded_Ok_iff dest: start_evolves)

lemma retention_gate_Ok:
  "retention_gate rv op a perm seen = Inr a' \<Longrightarrow>
     a' = a \<and> validActorType (Act_Type a) \<and> Act_ID a \<noteq> '''' \<and> rt_wired rv \<and>
     (\<exists>p. authorize (rt_sv rv) op a perm ScopeAll '''' (rd_db seen) = Ok p)"
  by (auto simp: retention_gate_def result_simps signalActor_Ok split: if_splits)

lemma propose_evolves:
  assumes "RunRetentionDryRun rv re inp seen d = (Inr res, d')" "re_run_id re \<notin> RR_ID ` set (rd_runs d)"
  shows "runs_evolve (rd_runs d) (rd_runs d')"
  using assms insert_evolves
  by (auto simp: RunRetentionDryRun_def command_Ok_iff tx_simps RetentionRepo_InsertRun_def result_simps)

lemma decide_evolves:
  assumes "ApproveRetentionRun rv re inp seen d = (Inr res, d')"
  shows "runs_evolve (rd_runs d) (rd_runs d')"
proof -
  obtain actor where c: "ApproveRetentionRun_check rv inp seen = Inr actor" "ApproveRetentionRun_body rv re inp actor d = Inr (res, d')"
    using assms by (auto simp: ApproveRetentionRun_def command_Ok_iff)
  have actor: "Act_ID actor \<noteq> ''''" "toTextOpt (AR_Reason inp) = Some (AR_Reason inp)"
    using c(1) blank_reason by (auto simp: ApproveRetentionRun_check_def Let_def result_simps guards_Ok_iff dest: retention_gate_Ok)
  obtain row d1 where flip: "(if AR_Reject inp then RetentionRepo_RejectRun (rt_uuid rv) (AR_RunID inp) (AR_Reason inp) (en_now (re_en re))
      else RetentionRepo_ApproveRun (rt_uuid rv) (AR_RunID inp) (Act_ID actor) (AR_Reason inp) (en_now (re_en re))) d = Inr (row, d1)"
    and rest: "rd_runs d' = rd_runs d1"
    using c(2) by (auto simp: ApproveRetentionRun_body_def Let_def tx_bind_Ok_iff tx_lift_Ok_iff tx_return_Ok_iff enqueue_execution_def
        on_db_Ok_iff dest!: audit_runs split: if_splits)
  have by_actor: "toTextOpt (Act_ID actor) = Some (Act_ID actor)" using actor(1) by (simp add: toTextOpt_def)
  show ?thesis
    unfolding rest using flip approve_evolves reject_evolves
    by (auto simp: RetentionRepo_RejectRun_def RetentionRepo_ApproveRun_def on_runs_Ok_iff with_uuid_Ok_iff run_guarded_Ok_iff
        by_actor actor(2) split: if_splits)
qed

lemma step_evolves: "retention_step rv d d' \<Longrightarrow> runs_evolve (rd_runs d) (rd_runs d')"
proof (induction rule: retention_step.induct)
  case (batch run actor cid now b d res d')
  then show ?case using execute_batch_runs [of rv run actor cid now b d] by simp
qed (auto dest: propose_evolves decide_evolves start_step close_evolves holds_runs pseudonymise_runs)

abbreviation retention_history :: "RetentionService \<Rightarrow> Rdb \<Rightarrow> Rdb \<Rightarrow> bool" where
  "retention_history rv \<equiv> (retention_step rv)\<^sup>*\<^sup>*"

lemma history_evolves: "retention_history rv d d' \<Longrightarrow> runs_evolve (rd_runs d) (rd_runs d')"
  by (induction rule: rtranclp_induct) (auto dest: step_evolves intro: runs_evolve_trans)

lemma run_lifecycle_rows:
  assumes "runs_ok (rd_runs d)" "retention_history rv d d'" "row_at RR_ID j (rd_runs d) = Some r"
  shows "\<exists>r'. row_at RR_ID j (rd_runs d') = Some r' \<and> run_next\<^sup>*\<^sup>* r r' \<and> runs_ok (rd_runs d')"
  using history_evolves [OF assms(2)] assms(1,3) by (simp add: runs_evolve_def)

text \<open>The counters of a failed run are lost: the statement that closes it stores the number of failed batches alone,
  whatever was redacted and deleted before.\<close>

lemma failed_run_forgets_counts:
  assumes "runs_ok rows" "r \<in> set rows" "RR_Status r = RetentionStatusFailed"
  shows "RR_PseudonymisedCount r = 0 \<and> RR_DeletedCount r = 0"
  using assms by (auto simp: runs_ok_def run_row_ok_def)

text \<open>C17: over every history the table of runs is in order, its rows are never lost, keep their plan, and move along the
  lifecycle: nothing is executed that was not approved, with a reason and by a named actor.\<close>

theorem run_lifecycle:
  assumes "runs_ok (rd_runs d)" "retention_history rv d d'" "row_at RR_ID j (rd_runs d) = Some r"
  shows "\<exists>r'. row_at RR_ID j (rd_runs d') = Some r' \<and> run_next\<^sup>*\<^sup>* r r' \<and> run_row_ok r' \<and> runs_ok (rd_runs d')"
proof -
  obtain r' where r: "row_at RR_ID j (rd_runs d') = Some r'" "run_next\<^sup>*\<^sup>* r r'" "runs_ok (rd_runs d')"
    using run_lifecycle_rows [OF assms] by blast
  then show ?thesis using row_at_Some [OF r(1)] by (auto simp: runs_ok_def)
qed

section \<open>One execution\<close>

lemma run_batches_history:
  assumes "\<And>i x. retention_history rv x (others i x)"
  shows "retention_history rv d (snd (run_batches rv re others run actor cid i bs acc d))"
proof (induction bs arbitrary: i acc d)
  case (Cons b bs)
  let ?d = "snd (execute_batch rv run actor cid (re_batch re i) b (others i d))"
  have "retention_step rv (others i d) ?d" by (rule retention_step.batch) (rule prod.collapse [symmetric])
  then have "retention_history rv d ?d" using assms [where i = i and x = d] by (rule rtranclp.rtrancl_into_rtrancl [rotated])
  moreover have "\<exists>acc'. run_batches rv re others run actor cid i (b # bs) acc d = run_batches rv re others run actor cid (Suc i) bs acc' ?d"
    by (auto split: prod.splits sum.splits)
  ultimately show ?case using Cons.IH [of ?d] by (metis rtranclp_trans)
qed simp

lemma runTx_close_history: "retention_history rv d (snd (runTx (close_run rv re run counts) d))"
  by (rule runTx_keeps) (auto intro: retention_step.close)

text \<open>An execution is a history, whatever histories run between its transactions.\<close>

lemma execution_history:
  assumes "\<And>i x. retention_history rv x (others i x)"
  shows "retention_history rv db (snd (ExecuteRetention rv re others inp seen db))"
proof (cases "ExecuteRetention_check rv inp seen")
  case (Inr actor)
  obtain res d1 where start: "runTx (RetentionRepo_StartRun (rt_uuid rv) (ER_RunID inp) (re_started re)) db = (res, d1)" by fastforce
  show ?thesis
  proof (cases res)
    case (Inl e)
    then show ?thesis using start by (auto simp: ExecuteRetention_def Inr dest: runTx_Err)
  next
    case run: (Inr run)
    have "retention_history rv db d1"
      using start run retention_step.claim by (auto simp: runTx_Ok_iff)
    moreover have "retention_history rv d1 (snd (execute_claimed rv re others inp actor run d1))"
    proof -
      let ?d2 = "others 0 d1"
      let ?bs = "batches (nat (batch_size rv (ER_BatchSize inp))) (fst (splitRetentionCandidates (RetentionRepo_ScanRetentionCandidates (Run_Cutoff run) ?d2)))"
      let ?cid = "correlationOrNew (re_en re) (ER_CorrelationID inp)"
      obtain counts d3 where b: "run_batches rv re others run actor ?cid 1 ?bs no_run_counts ?d2 = (counts, d3)"
        by fastforce
      have e: "snd (execute_claimed rv re others inp actor run d1) = snd (runTx (close_run rv re run counts) (others (Suc (length ?bs)) d3))"
        using b by (simp add: execute_claimed_def Let_def)
      have "retention_history rv ?d2 d3"
        using run_batches_history [where others = others and rv = rv and d = ?d2 and run = run and actor = actor and re = re and
            cid = ?cid and i = 1 and bs = ?bs and acc = no_run_counts, OF assms] b by simp
      then show ?thesis
        unfolding e using assms [of d1 0] assms [of d3 "Suc (length ?bs)"] runTx_close_history [of rv "others (Suc (length ?bs)) d3" re run counts]
        by (meson rtranclp_trans)
    qed
    ultimately show ?thesis by (simp add: ExecuteRetention_def Inr start run)
  qed
qed (simp add: ExecuteRetention_def)

definition past_approval :: "RetentionRunStatus \<Rightarrow> bool" where
  "past_approval s \<longleftrightarrow> s \<in> {RetentionStatusExecuting, RetentionStatusCompleted, RetentionStatusFailed, RetentionStatusRejected}"

lemma run_next_past: "run_next\<^sup>*\<^sup>* r r' \<Longrightarrow> past_approval (RR_Status r) \<Longrightarrow> past_approval (RR_Status r')"
proof (induction rule: rtranclp_induct)
  case (step y z)
  then show ?case by (cases "RR_Status y") (auto simp: run_next_def past_approval_def)
qed

lemma StartRun_refused:
  assumes "runs_ok (rd_runs d)" "row_at RR_ID uid (rd_runs d) = Some r" "past_approval (RR_Status r)" "U ident = Some uid"
  shows "RetentionRepo_StartRun U ident t d = ConflictError ''retention.start_run''"
proof -
  have "MarkRetentionRunExecuting (pg_time t) uid (rd_runs d) = Err NoRows"
    unfolding MarkRetentionRunExecuting_def guarded_run_def
    by (rule executing.update_miss) (use assms(1-3) in \<open>auto simp: runs_ok_def past_approval_def\<close>)
  then show ?thesis by (simp add: RetentionRepo_StartRun_def on_runs_def with_uuid_def assms(4) run_guarded_def retentionGuardMiss_def)
qed

text \<open>C7: an approved run is executed at most once. After a claim, and whatever happened since, another execution of the
  run fails and changes nothing, even if it read the run while it was still approved.\<close>

theorem run_executes_once:
  assumes "runs_ok (rd_runs d)" "RetentionRepo_StartRun (rt_uuid rv) ident t d = Ok (run, d1)" "retention_history rv d1 d2"
    and "rt_uuid rv (ER_RunID inp) = rt_uuid rv ident"
  shows "\<exists>e. ExecuteRetention rv re others inp seen d2 = (Err e, d2)"
proof -
  obtain uid where uid: "rt_uuid rv ident = Some uid"
    using assms(2) by (auto simp: RetentionRepo_StartRun_def on_runs_Ok_iff with_uuid_Ok_iff)
  have dist: "distinct (map RR_ID (rd_runs d))" using assms(1) by (simp add: runs_ok_def)
  obtain row where mark: "MarkRetentionRunExecuting (pg_time t) uid (rd_runs d) = Inr (row, rd_runs d1)"
    using assms(2) uid by (auto simp: RetentionRepo_StartRun_def on_runs_Ok_iff with_uuid_def run_guarded_Ok_iff)
  note upd = executing.update_Ok [OF dist mark [unfolded MarkRetentionRunExecuting_def guarded_run_def]]
  have r1: "row_at RR_ID uid (rd_runs d1) = Some row" "past_approval (RR_Status row)"
    using upd(1) upd(3) [of uid] by (auto simp: past_approval_def)
  have ok1: "runs_ok (rd_runs d1)" using start_step [OF assms(2)] assms(1) by (simp add: runs_evolve_def)
  obtain r2 where r2: "row_at RR_ID uid (rd_runs d2) = Some r2" "run_next\<^sup>*\<^sup>* row r2" "runs_ok (rd_runs d2)"
    using run_lifecycle_rows ok1 assms(3) r1(1) by blast
  have "RetentionRepo_StartRun (rt_uuid rv) (ER_RunID inp) (re_started re) d2 = ConflictError ''retention.start_run''"
    by (rule StartRun_refused [OF r2(3,1) run_next_past [OF r2(2) r1(2)]]) (simp add: assms(4) uid)
  then show ?thesis by (auto simp: ExecuteRetention_def runTx_def split: sum.split)
qed

section \<open>Decisions\<close>

text \<open>The permission of a user, through the roles granted to him.\<close>

lemma authorized_user:
  assumes "authorize sv op a perm ScopeAll '''' seen = Inr p" "Act_Type a = ActorTypeUser" "canonical (sv_uuid sv)"
  shows "\<exists>uid u roles. sv_uuid sv (Act_ID a) = Some uid \<and> find (\<lambda>u. UI_ID u = uid) (db_users seen) = Some u \<and>
    UI_DeactivatedAt u = 0 \<and> UserRepo_RolesByUserID (sv_uuid sv) (Act_ID a) (db_roles seen) = Ok roles \<and>
    Authorize roles perm ScopeAll '''' uid = Ok True"
proof -
  have p: "principalFor sv op a seen = Inr p" "authorizeObject op p perm ScopeAll '''' = Inr ()"
    using assms(1) by (auto simp: authorize_def result_simps)
  obtain uid u where u: "sv_uuid sv (Act_ID a) = Some uid" "find (\<lambda>u. UI_ID u = uid) (db_users seen) = Some u"
    "UI_DeactivatedAt u = 0" "InternalID p = uid" "UserRepo_RolesByUserID (sv_uuid sv) (Act_ID a) (db_roles seen) = Ok (Roles p)"
    using principalFor_user [OF p(1) assms(2)] by blast
  have "uid \<noteq> ''''" using assms(3) u(1) by (auto simp: canonical_def)
  then have "Authorize (Roles p) perm ScopeAll '''' uid = Ok True" using p(2) u(4) by (simp add: authorizeObject_Ok)
  then show ?thesis using u by blast
qed

text \<open>What the roles of a user are now.\<close>

definition holds_role :: "Service \<Rightarrow> Rdb \<Rightarrow> string \<Rightarrow> Role \<Rightarrow> bool" where
  "holds_role sv seen ident role \<longleftrightarrow>
     (case (sv_uuid sv ident, UserRepo_RolesByUserID (sv_uuid sv) ident (db_roles (rd_db seen))) of
        (Some uid, Inr roles) \<Rightarrow>
          (case find (\<lambda>u. UI_ID u = uid) (db_users (rd_db seen)) of
             None \<Rightarrow> False
           | Some u \<Rightarrow> UI_DeactivatedAt u = 0 \<and> role \<in> set roles)
      | _ \<Rightarrow> False)"

lemma gate_role:
  assumes "retention_gate rv op a perm seen = Inr a'" "Act_Type a = ActorTypeUser" "canonical (rt_uuid rv)"
    and "\<And>rs uid. Authorize rs perm ScopeAll '''' uid = Ok True \<Longrightarrow> role \<in> set rs"
  shows "holds_role (rt_sv rv) seen (Act_ID a) role"
proof -
  obtain p where "authorize (rt_sv rv) op a perm ScopeAll '''' (rd_db seen) = Inr p"
    using retention_gate_Ok [OF assms(1)] by blast
  from authorized_user [OF this assms(2,3)] show ?thesis
    using assms(4) by (auto simp: holds_role_def split: sum.splits)
qed

lemma Authorize_approve: "Authorize rs PermissionSettingsApprove ScopeAll '''' uid = Ok True \<Longrightarrow> RoleProductOwner \<in> set rs"
  using separation_of_duties [of rs PermissionSettingsApprove ScopeAll "''''" uid] by simp

lemma Authorize_retention: "Authorize rs PermissionRetentionManage ScopeAll '''' uid = Ok True \<Longrightarrow> RoleAdministrator \<in> set rs"
  using separation_of_duties [of rs PermissionRetentionManage ScopeAll "''''" uid] by simp

end
