(* ===== verification/RetentionGovernance.thy ===== *)
theory RetentionGovernance
  imports RetentionRuns
begin

text \<open>
  What the retention promises of its commands: the proposal counts what the execution would erase, the
  decision is the product owner's and enqueues one job, the preview of a pseudonymisation is exact; and
  the concrete inputs at which the properties of the retention apply.
\<close>

section \<open>The proposal\<close>

lemma held_count: "length (filter Cand_Held cs) + length (filter (\<lambda>c. \<not> Cand_Held c) cs) = length cs"
  by (induction cs) auto


section \<open>The decision\<close>

definition decided_status :: "bool \<Rightarrow> RetentionRunStatus" where
  "decided_status reject = (if reject then RetentionStatusRejected else RetentionStatusApproved)"

lemma OutboxRepo_Append_fresh:
  "OutboxRepo_Append newid ev rows = Inr rows' \<Longrightarrow>
     OE_DedupeKey ev \<notin> Ob_DedupeKey ` set rows \<and>
     (\<exists>row. rows' = rows @ [row] \<and> Ob_Type row = OE_Type ev \<and> Ob_DedupeKey row = OE_DedupeKey ev \<and> Ob_Status row = Pending)"
  by (auto simp: OutboxRepo_Append_def list_ex_iff split: if_splits)

lemma appendRetentionAudit_Ok:
  "appendRetentionAudit sv action ty ident actor cid now enc d = Inr (u, d') \<Longrightarrow>
     \<exists>ev. Ev_Action ev = action \<and> Ev_AggregateID ev = ident \<and> Ev_ActorID ev = Act_ID actor \<and>
       d' = d\<lparr>rd_db := (rd_db d)\<lparr>db_audit := db_audit (rd_db d) @ [ev]\<rparr>\<rparr>"
  by (rule exI [of _ "\<lparr>Ev_AggregateType = ty, Ev_AggregateID = ident, Ev_ActorType = Act_Type actor,
        Ev_ActorID = Act_ID actor, Ev_ActorDisplayName = Act_DisplayName actor, Ev_Action = action,
        Ev_OccurredAt = now, Ev_Before = '''', Ev_After = enc, Ev_CorrelationID = cid\<rparr>"])
    (auto simp: appendRetentionAudit_def on_db_Ok_iff audit_Append_Ok_iff)

lemma runs_update_eq [simp]: "d\<lparr>rd_runs := a\<rparr> = d\<lparr>rd_runs := b\<rparr> \<longleftrightarrow> a = b"
  by (metis Rdb.select_convs(2) Rdb.surjective Rdb.update_convs(2))

text \<open>The four parts of a decision: the guarded update, the snapshot, the event, the job.\<close>

lemma decision_parts:
  assumes "ApproveRetentionRun rv re inp seen db = (Ok res, db')"
  shows "\<exists>run rows ev. retention_gate rv ''approve_retention_run'' (AR_Actor inp) PermissionSettingsApprove seen = Ok (AR_Actor inp) \<and>
    trim_space (AR_Reason inp) \<noteq> '''' \<and>
    (if AR_Reject inp then RetentionRepo_RejectRun (rt_uuid rv) (AR_RunID inp) (AR_Reason inp) (en_now (re_en re))
     else RetentionRepo_ApproveRun (rt_uuid rv) (AR_RunID inp) (Act_ID (AR_Actor inp)) (AR_Reason inp) (en_now (re_en re))) db =
       Ok (run, db\<lparr>rd_runs := rows\<rparr>) \<and>
    Ev_Action ev = (if AR_Reject inp then EventTypeRetentionRejected else EventTypeRetentionApproved) \<and>
    Ev_AggregateID ev = Run_ID run \<and> Ev_ActorID ev = Act_ID (AR_Actor inp) \<and>
    (if AR_Reject inp then db' = db\<lparr>rd_runs := rows, rd_db := (rd_db db)\<lparr>db_audit := db_audit (rd_db db) @ [ev]\<rparr>\<rparr>
     else \<exists>job. Ob_Type job = EventTypeRetentionExecute \<and>
       Ob_DedupeKey job = retentionExecuteDedupeKey (Run_PolicyID run) (Run_Cutoff run) (Run_PartitionKey run) \<and>
       Ob_DedupeKey job \<notin> Ob_DedupeKey ` set (db_outbox (rd_db db)) \<and>
       db' = db\<lparr>rd_runs := rows, rd_db := (rd_db db)\<lparr>db_audit := db_audit (rd_db db) @ [ev],
         db_outbox := db_outbox (rd_db db) @ [job]\<rparr>\<rparr>)"
proof -
  obtain actor where c: "ApproveRetentionRun_check rv inp seen = Inr actor" "ApproveRetentionRun_body rv re inp actor db = Inr (res, db')"
    using assms by (auto simp: ApproveRetentionRun_def command_Ok_iff)
  have gate: "retention_gate rv ''approve_retention_run'' (AR_Actor inp) PermissionSettingsApprove seen = Ok (AR_Actor inp)"
    and actor: "actor = AR_Actor inp" and reason: "trim_space (AR_Reason inp) \<noteq> ''''"
    using c(1) by (auto simp: ApproveRetentionRun_check_def Let_def result_simps guards_Ok_iff split: if_splits dest: retention_gate_Ok)
  obtain run d1 enc d2 where flip: "(if AR_Reject inp then RetentionRepo_RejectRun (rt_uuid rv) (AR_RunID inp) (AR_Reason inp) (en_now (re_en re))
      else RetentionRepo_ApproveRun (rt_uuid rv) (AR_RunID inp) (Act_ID (AR_Actor inp)) (AR_Reason inp) (en_now (re_en re))) db = Inr (run, d1)"
    and audit: "appendRetentionAudit (rt_sv rv) (if AR_Reject inp then EventTypeRetentionRejected else EventTypeRetentionApproved)
      AuditAggregateRetention (Run_ID run) (AR_Actor inp) (correlationOrNew (re_en re) (AR_CorrelationID inp)) (en_now (re_en re)) enc d1 = Inr ((), d2)"
    and job: "(if AR_Reject inp then tx_return () else enqueue_execution rv re ''approve_retention_run'' run (en_now (re_en re))
      (correlationOrNew (re_en re) (AR_CorrelationID inp))) d2 = Inr ((), db')"
    using c(2) unfolding ApproveRetentionRun_body_def Let_def actor by (auto simp: tx_bind_Ok_iff tx_lift_Ok_iff tx_return_Ok_iff)
  obtain rows where d1: "d1 = db\<lparr>rd_runs := rows\<rparr>"
    using flip by (auto simp: RetentionRepo_RejectRun_def RetentionRepo_ApproveRun_def on_runs_Ok_iff split: if_splits)
  obtain ev where ev: "Ev_Action ev = (if AR_Reject inp then EventTypeRetentionRejected else EventTypeRetentionApproved)"
    "Ev_AggregateID ev = Run_ID run" "Ev_ActorID ev = Act_ID (AR_Actor inp)"
    "d2 = d1\<lparr>rd_db := (rd_db d1)\<lparr>db_audit := db_audit (rd_db d1) @ [ev]\<rparr>\<rparr>"
    using appendRetentionAudit_Ok [OF audit] by blast
  show ?thesis
  proof (cases "AR_Reject inp")
    case True
    then show ?thesis using gate reason flip d1 ev job by (intro exI [of _ run] exI [of _ rows] exI [of _ ev]) (simp add: tx_return_Ok_iff)
  next
    case False
    obtain payload out where out: "OutboxRepo_Append (en_outbox_id (re_en re)) \<lparr>OE_Type = EventTypeRetentionExecute, OE_Payload = payload,
        OE_DedupeKey = retentionExecuteDedupeKey (Run_PolicyID run) (Run_Cutoff run) (Run_PartitionKey run),
        OE_AvailableAt = en_now (re_en re), OE_CreatedAt = en_now (re_en re)\<rparr> (db_outbox (rd_db d2)) = Inr out"
      "db' = d2\<lparr>rd_db := (rd_db d2)\<lparr>db_outbox := out\<rparr>\<rparr>"
      using job False by (auto simp: enqueue_execution_def tx_bind_Ok_iff tx_lift_Ok_iff on_db_Ok_iff outbox_Append_Ok_iff)
    obtain job where job: "out = db_outbox (rd_db d2) @ [job]" "Ob_Type job = EventTypeRetentionExecute"
      "Ob_DedupeKey job = retentionExecuteDedupeKey (Run_PolicyID run) (Run_Cutoff run) (Run_PartitionKey run)"
      "Ob_DedupeKey job \<notin> Ob_DedupeKey ` set (db_outbox (rd_db d2))"
      using OutboxRepo_Append_fresh [OF out(1)] by auto
    have "\<exists>job. Ob_Type job = EventTypeRetentionExecute \<and>
       Ob_DedupeKey job = retentionExecuteDedupeKey (Run_PolicyID run) (Run_Cutoff run) (Run_PartitionKey run) \<and>
       Ob_DedupeKey job \<notin> Ob_DedupeKey ` set (db_outbox (rd_db db)) \<and>
       db' = db\<lparr>rd_runs := rows, rd_db := (rd_db db)\<lparr>db_audit := db_audit (rd_db db) @ [ev],
         db_outbox := db_outbox (rd_db db) @ [job]\<rparr>\<rparr>"
      by (rule exI [of _ job]) (use job out(2) d1 ev(4) in simp)
    then show ?thesis
      using False gate reason flip d1 ev(1-3) by (intro exI [of _ run] exI [of _ rows] exI [of _ ev]) simp
  qed
qed

lemma decision_facts:
  assumes "ApproveRetentionRun rv re inp seen db = (Ok res, db')" "canonical (rt_uuid rv)" "distinct (map RR_ID (rd_runs db))"
  shows "(if Act_Type (AR_Actor inp) = ActorTypeUser then holds_role (rt_sv rv) seen (Act_ID (AR_Actor inp)) RoleProductOwner else True) \<and>
    (\<exists>uid r r' ev. rt_uuid rv (AR_RunID inp) = Some uid \<and> row_at RR_ID uid (rd_runs db) = Some r \<and>
       RR_Status r = RetentionStatusDryRun \<and> row_at RR_ID uid (rd_runs db') = Some r' \<and>
       RR_Status r' = decided_status (AR_Reject inp) \<and> RR_ApprovalReason r' = Some (AR_Reason inp) \<and>
       RR_ApprovedAt r' = Some (pg_time (en_now (re_en re))) \<and>
       RR_ApprovedBy r' = (if AR_Reject inp then RR_ApprovedBy r else Some (Act_ID (AR_Actor inp))) \<and>
       db_audit (rd_db db') = db_audit (rd_db db) @ [ev] \<and> Ev_AggregateID ev = uid \<and>
       Ev_Action ev = (if AR_Reject inp then EventTypeRetentionRejected else EventTypeRetentionApproved) \<and>
       (if AR_Reject inp then db_outbox (rd_db db') = db_outbox (rd_db db)
        else \<exists>job. db_outbox (rd_db db') = db_outbox (rd_db db) @ [job] \<and> Ob_Type job = EventTypeRetentionExecute \<and>
          Ob_DedupeKey job = retentionExecuteDedupeKey (RR_PolicyID r) (RR_Cutoff r) (RR_PartitionKey r) \<and>
          Ob_DedupeKey job \<notin> Ob_DedupeKey ` set (db_outbox (rd_db db))))"
proof -
  obtain run rows ev where p: "retention_gate rv ''approve_retention_run'' (AR_Actor inp) PermissionSettingsApprove seen = Ok (AR_Actor inp)"
    "trim_space (AR_Reason inp) \<noteq> ''''"
    and flip: "(if AR_Reject inp then RetentionRepo_RejectRun (rt_uuid rv) (AR_RunID inp) (AR_Reason inp) (en_now (re_en re))
     else RetentionRepo_ApproveRun (rt_uuid rv) (AR_RunID inp) (Act_ID (AR_Actor inp)) (AR_Reason inp) (en_now (re_en re))) db =
       Ok (run, db\<lparr>rd_runs := rows\<rparr>)"
    and ev: "Ev_Action ev = (if AR_Reject inp then EventTypeRetentionRejected else EventTypeRetentionApproved)" "Ev_AggregateID ev = Run_ID run"
    and out: "if AR_Reject inp then db' = db\<lparr>rd_runs := rows, rd_db := (rd_db db)\<lparr>db_audit := db_audit (rd_db db) @ [ev]\<rparr>\<rparr>
     else \<exists>job. Ob_Type job = EventTypeRetentionExecute \<and>
       Ob_DedupeKey job = retentionExecuteDedupeKey (Run_PolicyID run) (Run_Cutoff run) (Run_PartitionKey run) \<and>
       Ob_DedupeKey job \<notin> Ob_DedupeKey ` set (db_outbox (rd_db db)) \<and>
       db' = db\<lparr>rd_runs := rows, rd_db := (rd_db db)\<lparr>db_audit := db_audit (rd_db db) @ [ev],
         db_outbox := db_outbox (rd_db db) @ [job]\<rparr>\<rparr>"
    using decision_parts [OF assms(1)] by blast
  have role: "Act_Type (AR_Actor inp) = ActorTypeUser \<Longrightarrow> holds_role (rt_sv rv) seen (Act_ID (AR_Actor inp)) RoleProductOwner"
    by (rule gate_role [OF p(1) _ assms(2) Authorize_approve])
  have texts: "toTextOpt (Act_ID (AR_Actor inp)) = Some (Act_ID (AR_Actor inp))" "toTextOpt (AR_Reason inp) = Some (AR_Reason inp)"
    using retention_gate_Ok [OF p(1)] blank_reason [OF p(2)] by (simp_all add: toTextOpt_def)
  obtain uid r' where u: "rt_uuid rv (AR_RunID inp) = Some uid" "run = retentionRunFromRow r'"
    and upd: "if AR_Reject inp then MarkRetentionRunRejected (pg_time (en_now (re_en re))) (Some (AR_Reason inp)) uid (rd_runs db) = Inr (r', rows)
      else MarkRetentionRunApproved (Some (Act_ID (AR_Actor inp))) (pg_time (en_now (re_en re))) (Some (AR_Reason inp)) uid (rd_runs db) = Inr (r', rows)"
    using flip by (auto simp: RetentionRepo_RejectRun_def RetentionRepo_ApproveRun_def on_runs_Ok_iff with_uuid_Ok_iff run_guarded_Ok_iff
        texts split: if_splits)
  obtain r where r: "row_at RR_ID uid (rd_runs db) = Some r" "RR_Status r = RetentionStatusDryRun" "row_at RR_ID uid rows = Some r'"
    "r' = (if AR_Reject inp then r\<lparr>RR_Status := RetentionStatusRejected, RR_ApprovedAt := Some (pg_time (en_now (re_en re))), RR_ApprovalReason := Some (AR_Reason inp)\<rparr>
      else r\<lparr>RR_Status := RetentionStatusApproved, RR_ApprovedBy := Some (Act_ID (AR_Actor inp)), RR_ApprovedAt := Some (pg_time (en_now (re_en re))), RR_ApprovalReason := Some (AR_Reason inp)\<rparr>)"
  proof (cases "AR_Reject inp")
    case True
    note u = rejected.update_Ok [OF assms(3) upd [unfolded MarkRetentionRunRejected_def guarded_run_def if_P [OF True]]]
    from u(1) obtain r where "row_at RR_ID uid (rd_runs db) = Some r" "RR_Status r = RetentionStatusDryRun"
      "r\<lparr>RR_Status := RetentionStatusRejected, RR_ApprovedAt := Some (pg_time (en_now (re_en re))), RR_ApprovalReason := Some (AR_Reason inp)\<rparr> = r'"
      by auto
    then show ?thesis using u(3) [of uid] True by (intro that [of r]) simp_all
  next
    case False
    note u = approved.update_Ok [OF assms(3) upd [unfolded MarkRetentionRunApproved_def guarded_run_def if_not_P [OF False]]]
    from u(1) obtain r where "row_at RR_ID uid (rd_runs db) = Some r" "RR_Status r = RetentionStatusDryRun"
      "r\<lparr>RR_Status := RetentionStatusApproved, RR_ApprovedBy := Some (Act_ID (AR_Actor inp)), RR_ApprovedAt := Some (pg_time (en_now (re_en re))), RR_ApprovalReason := Some (AR_Reason inp)\<rparr> = r'"
      by auto
    then show ?thesis using u(3) [of uid] False by (intro that [of r]) simp_all
  qed
  have id: "Run_ID run = uid" "Run_PolicyID run = RR_PolicyID r" "Run_Cutoff run = RR_Cutoff r" "Run_PartitionKey run = RR_PartitionKey r"
    using row_at_Some [OF r(1)] by (simp_all add: u(2) r(4) retentionRunFromRow_def)
  have runs: "rd_runs db' = rows" "db_audit (rd_db db') = db_audit (rd_db db) @ [ev]"
    using out by (auto split: if_splits)
  have job: "if AR_Reject inp then db_outbox (rd_db db') = db_outbox (rd_db db)
      else \<exists>job. db_outbox (rd_db db') = db_outbox (rd_db db) @ [job] \<and> Ob_Type job = EventTypeRetentionExecute \<and>
        Ob_DedupeKey job = retentionExecuteDedupeKey (RR_PolicyID r) (RR_Cutoff r) (RR_PartitionKey r) \<and>
        Ob_DedupeKey job \<notin> Ob_DedupeKey ` set (db_outbox (rd_db db))"
  proof (cases "AR_Reject inp")
    case True
    then show ?thesis using out by simp
  next
    case False
    then obtain job where "Ob_Type job = EventTypeRetentionExecute"
      "Ob_DedupeKey job = retentionExecuteDedupeKey (RR_PolicyID r) (RR_Cutoff r) (RR_PartitionKey r)"
      "Ob_DedupeKey job \<notin> Ob_DedupeKey ` set (db_outbox (rd_db db))"
      "db_outbox (rd_db db') = db_outbox (rd_db db) @ [job]"
      using out unfolding id by auto
    then show ?thesis using False by auto
  qed
  have ev_id: "Ev_AggregateID ev = uid" using ev(2) id(1) by simp
  have row: "RR_Status r' = decided_status (AR_Reject inp)" "RR_ApprovalReason r' = Some (AR_Reason inp)"
    "RR_ApprovedAt r' = Some (pg_time (en_now (re_en re)))"
    "RR_ApprovedBy r' = (if AR_Reject inp then RR_ApprovedBy r else Some (Act_ID (AR_Actor inp)))"
    by (simp_all add: r(4) decided_status_def)
  show ?thesis
    using role
    by (intro conjI exI [of _ uid] exI [of _ r] exI [of _ r'] exI [of _ ev] u(1) r(1,2) row ev(1) ev_id runs(2) job)
      (simp_all add: runs(1) r(3))
qed

text \<open>C19: a decision is a product owner's where it is a user's, it is taken with a reason on a run in the state of a dry run,
  and it commits whole: the status with actor, instant and reason, one audit event of the decision, and for an
  approval exactly one job whose key no job had, of the plan of the run.\<close>

theorem decision_commits_whole:
  assumes "ApproveRetentionRun rv re inp seen db = (Ok res, db')" "canonical (rt_uuid rv)" "distinct (map RR_ID (rd_runs db))"
  shows "(if Act_Type (AR_Actor inp) = ActorTypeUser then holds_role (rt_sv rv) seen (Act_ID (AR_Actor inp)) RoleProductOwner else True) \<and>
    (\<exists>uid r r' ev. rt_uuid rv (AR_RunID inp) = Some uid \<and> row_at RR_ID uid (rd_runs db) = Some r \<and>
       RR_Status r = RetentionStatusDryRun \<and> row_at RR_ID uid (rd_runs db') = Some r' \<and>
       RR_Status r' = decided_status (AR_Reject inp) \<and> RR_ApprovalReason r' = Some (AR_Reason inp) \<and>
       RR_ApprovedAt r' = Some (pg_time (en_now (re_en re))) \<and>
       RR_ApprovedBy r' = (if AR_Reject inp then RR_ApprovedBy r else Some (Act_ID (AR_Actor inp))) \<and>
       db_audit (rd_db db') = db_audit (rd_db db) @ [ev] \<and> Ev_AggregateID ev = uid \<and>
       Ev_Action ev = (if AR_Reject inp then EventTypeRetentionRejected else EventTypeRetentionApproved) \<and>
       (if AR_Reject inp then db_outbox (rd_db db') = db_outbox (rd_db db)
        else \<exists>job. db_outbox (rd_db db') = db_outbox (rd_db db) @ [job] \<and> Ob_Type job = EventTypeRetentionExecute \<and>
          Ob_DedupeKey job = retentionExecuteDedupeKey (RR_PolicyID r) (RR_Cutoff r) (RR_PartitionKey r) \<and>
          Ob_DedupeKey job \<notin> Ob_DedupeKey ` set (db_outbox (rd_db db))))"
  by (rule decision_facts [OF assms])

text \<open>The key of a job names the plan of a run and not its stage: the approval of another run of the plan is refused, as
  long as the first job's key is known.\<close>

theorem one_job_for_a_plan:
  assumes "ApproveRetentionRun rv re inp seen db = (Ok res, db1)" "\<not> AR_Reject inp" "\<not> AR_Reject inp2"
    and "rt_uuid rv (AR_RunID inp) = Some uid" "row_at RR_ID uid (rd_runs db) = Some r"
    and "rt_uuid rv (AR_RunID inp2) = Some uid2" "row_at RR_ID uid2 (rd_runs db1) = Some r2"
    and "RR_PolicyID r2 = RR_PolicyID r" "RR_Cutoff r2 = RR_Cutoff r" "RR_PartitionKey r2 = RR_PartitionKey r"
    and "canonical (rt_uuid rv)" "distinct (map RR_ID (rd_runs db))" "distinct (map RR_ID (rd_runs db1))"
  shows "\<exists>e. ApproveRetentionRun rv re2 inp2 seen2 db1 = (Err e, db1)"
proof (cases "ApproveRetentionRun rv re2 inp2 seen2 db1")
  case (Pair res2 db2)
  show ?thesis
  proof (cases res2)
    case (Inl e)
    then show ?thesis using Pair by (auto simp: ApproveRetentionRun_def dest: command_Err)
  next
    case (Inr x)
    have "retentionExecuteDedupeKey (RR_PolicyID r) (RR_Cutoff r) (RR_PartitionKey r) \<in> Ob_DedupeKey ` set (db_outbox (rd_db db1))"
      using decision_facts [OF assms(1,11,12)] assms(2,4,5) by auto
    moreover have "retentionExecuteDedupeKey (RR_PolicyID r2) (RR_Cutoff r2) (RR_PartitionKey r2) \<notin> Ob_DedupeKey ` set (db_outbox (rd_db db1))"
      using decision_facts [OF Pair [unfolded Inr] assms(11,13)] assms(3,6,7) by auto
    ultimately show ?thesis using assms(8-10) by simp
  qed
qed

section \<open>Pseudonymisation of an identity\<close>

definition no_redaction :: RetentionRedaction where
  "no_redaction = \<lparr>Red_DisplayNamesCleared = 0, Red_CommentBodiesRedacted = 0, Red_OverrideReasonsRedacted = 0,
     Red_SnapshotReasonsRedacted = 0\<rparr>"

lemma count_none: "(\<And>x. \<not> P (f x)) \<Longrightarrow> count_where P (map f xs) = 0"
  by (auto simp: count_where_def filter_empty_conv)

lemma redacted_event_clean:
  "jsonb_ok J \<Longrightarrow> Ev_ActorDisplayName (redacted_event J m e) = '''' \<and> \<not> has_reason J m (Ev_Before (redacted_event J m e)) \<and>
     \<not> has_reason J m (Ev_After (redacted_event J m e))"
  by (simp add: redacted_event_def reason_redacted)

lemma redacted_actor [simp]:
  "Ev_ActorID (redacted_event J m e) = Ev_ActorID e" "Com_ActorID (redacted_comment m c) = Com_ActorID c"
  "SR_OverrideActorID (redacted_row m r) = SR_OverrideActorID r"
  by (simp_all add: redacted_event_def redacted_comment_def redacted_row_def split: option.splits)

text \<open>What a redaction leaves has nothing more to redact.\<close>

lemma redaction_is_complete:
  assumes "jsonb_ok J"
  shows "redaction_counts J (\<lambda>e. Ev_ActorID e = user) (\<lambda>c. Com_ActorID c = user) (\<lambda>r. SR_OverrideActorID r = Some user)
    (redact_db J (\<lambda>e. Ev_ActorID e = user) (\<lambda>c. Com_ActorID c = user) (\<lambda>r. SR_OverrideActorID r = Some user) db) = no_redaction"
proof -
  let ?m = RetentionRedactionMarker
  let ?es = "\<lambda>e. Ev_ActorID e = user"
  have e: "count_where (\<lambda>e. ?es e \<and> Ev_ActorDisplayName e \<noteq> '''') (map (only_if ?es (redacted_event J ?m)) xs) = 0"
    "count_where (\<lambda>e. ?es e \<and> has_reason J ?m (Ev_Before e)) (map (only_if ?es (redacted_event J ?m)) xs) = 0"
    "count_where (\<lambda>e. ?es e \<and> has_reason J ?m (Ev_After e)) (map (only_if ?es (redacted_event J ?m)) xs) = 0" for xs
    by (rule count_none, simp add: only_if_def redacted_event_clean [OF assms])+
  have c: "count_where (\<lambda>c. Com_ActorID c = user \<and> free_text ?m (Com_Body c)) (map (only_if (\<lambda>c. Com_ActorID c = user) (redacted_comment ?m)) xs) = 0" for xs
    by (rule count_none) (simp add: only_if_def redacted_comment_def free_text_def)
  have r: "count_where (\<lambda>r. SR_OverrideActorID r = Some user \<and> (case SR_OverrideReason r of None \<Rightarrow> False | Some s \<Rightarrow> free_text ?m s))
      (map (only_if (\<lambda>r. SR_OverrideActorID r = Some user) (redacted_row ?m)) xs) = 0" for xs
    by (rule count_none) (simp add: only_if_def redacted_row_def free_text_def split: option.split)
  show ?thesis by (simp add: redaction_counts_def redact_db_def no_redaction_def Let_def e c r)
qed

lemma redact_others:
  "filter (\<lambda>x. \<not> P x) (map (only_if P f) xs) = filter (\<lambda>x. \<not> P x) xs" if "\<And>x. P (f x) = P x"
  using that by (induction xs) (auto simp: only_if_def)


section \<open>Holds\<close>

text \<open>A hold on a signal takes it out of every scan from its creation on.\<close>

theorem hold_protects_at_once:
  assumes "CreateLegalHold rv re inp seen db = (Ok h, db')" "CH_AggregateType inp = '''' \<or> CH_AggregateType inp = ''risk_signal''"
    and "rt_uuid rv (CH_AggregateID inp) = Some uid"
  shows "held uid db' \<and> uid \<notin> due_ids cutoff db' \<and> Hold_AggregateID h = uid \<and> LegalHold_Active h \<and>
    db_signals (rd_db db') = db_signals (rd_db db)"
proof -
  obtain actor where "retention_gate rv ''create_legal_hold'' (CH_Actor inp) PermissionRetentionManage seen = Inr actor"
    and body: "tx_bind (RetentionRepo_CreateHold (rt_uuid rv) (re_hold_id re)
             \<lparr>HRec_AggregateType = (if CH_AggregateType inp = '''' then AuditAggregateRiskSignal else CH_AggregateType inp),
              HRec_AggregateID = CH_AggregateID inp, HRec_Reason = CH_Reason inp, HRec_ActorID = Act_ID actor,
              HRec_CreatedAt = en_now (re_en re)\<rparr>) (\<lambda>row.
         tx_bind (tx_lift (legalHoldSnapshot (rt_sv rv) ''create_legal_hold'' row (Hold_Reason row) '''')) (\<lambda>after.
         tx_bind (appendRetentionAudit (rt_sv rv) EventTypeRetentionHoldCreated (Hold_AggregateType row)
             (Hold_AggregateID row) actor (correlationOrNew (re_en re) (CH_CorrelationID inp)) (en_now (re_en re)) after) (\<lambda>_.
         tx_return row))) db = Inr (h, db')"
    using assms(1) unfolding CreateLegalHold_def Let_def command_Ok_iff by (auto simp: result_simps guards_Ok_iff)
  then obtain row d1 enc where create: "RetentionRepo_CreateHold (rt_uuid rv) (re_hold_id re)
             \<lparr>HRec_AggregateType = (if CH_AggregateType inp = '''' then AuditAggregateRiskSignal else CH_AggregateType inp),
              HRec_AggregateID = CH_AggregateID inp, HRec_Reason = CH_Reason inp, HRec_ActorID = Act_ID actor,
              HRec_CreatedAt = en_now (re_en re)\<rparr> db = Inr (h, d1)"
    and audit: "appendRetentionAudit (rt_sv rv) EventTypeRetentionHoldCreated (Hold_AggregateType h)
             (Hold_AggregateID h) actor (correlationOrNew (re_en re) (CH_CorrelationID inp)) (en_now (re_en re)) enc d1 = Inr ((), db')"
    by (auto simp: tx_bind_Ok_iff tx_lift_Ok_iff tx_return_Ok_iff)
  have d1: "held uid d1" "Hold_AggregateID h = uid" "LegalHold_Active h" "db_signals (rd_db d1) = db_signals (rd_db db)"
    using create assms(2,3)
    by (auto simp: RetentionRepo_CreateHold_def on_holds_Ok_iff with_uuid_def CreateLegalHold_statement_def Let_def held_def
        HasActiveLegalHold_def active_hold_def AuditAggregateRiskSignal_def legalHoldFromRow_def LegalHold_Active_def time_IsZero_def)
  have "held uid db'" "db_signals (rd_db db') = db_signals (rd_db d1)"
    using audit d1(1) by (auto simp: appendRetentionAudit_def on_db_Ok_iff audit_Append_Ok_iff held_def)
  then show ?thesis using d1 by (auto simp: due_ids_def)
qed

end
