(* ===== verification/RetentionWitness.thy ===== *)
theory RetentionWitness
  imports RetentionGovernance
begin

text \<open>
  Concrete inputs of the retention: a closed signal with clock, comment, notification and audit trail, an
  open one, a run that awaits its decision and one that is approved; and the properties at them.
\<close>

section \<open>Samples\<close>

text \<open>Documents of one member \<open>reason\<close>, printed as a letter and the text.\<close>

definition sample_decode :: "string \<Rightarrow> json option" where
  "sample_decode raw = (case raw of c # s \<Rightarrow> (if c = CHR ''r'' then Some (JObject [(''reason'', JString s)]) else None) | [] \<Rightarrow> None)"

fun sample_encode :: "json \<Rightarrow> string" where
  "sample_encode (JObject [(k, JString s)]) = CHR ''r'' # s"
| "sample_encode v = ''''"

definition sample_jsonb :: jsonb where
  "sample_jsonb = \<lparr>jb_decode = sample_decode, jb_encode = sample_encode\<rparr>"

definition sample_retention :: RetentionService where
  "sample_retention = \<lparr>rt_sv = sample_service, rt_wired = True, rt_years = 5, rt_pseudonymise_years = 5, rt_batch_size = 500,
     rt_jsonb = sample_jsonb, rt_error_text = (\<lambda>_. ''failed'')\<rparr>"

text \<open>The clock of the sample stands at the first of January 2026, its cutoff five years before.\<close>

definition sample_now :: time where "sample_now = 63902822400000000000"
definition sample_cutoff :: time where "sample_cutoff = 63745056000000000000"

definition sample_retention_env :: RetentionEnv where
  "sample_retention_env = \<lparr>re_en = sample_env\<lparr>en_now := sample_now\<rparr>, re_run_id = ''r9'', re_hold_id = ''h9'', re_started = sample_now,
     re_batch = (\<lambda>_. sample_now), re_finished = sample_now\<rparr>"

definition sample_closed :: SignalRow where
  "sample_closed = sample_signal\<lparr>SR_Status := SignalStatusResolved, SR_ClosedAt := Some 1000, SR_OverrideReason := Some ''private'',
     SR_OverrideActorID := Some ''u2''\<rparr>"

definition sample_open :: SignalRow where
  "sample_open = sample_signal\<lparr>SR_ID := ''s2'', SR_MatchID := ''m2'', SR_Status := SignalStatusInReview\<rparr>"

definition sample_event :: AuditEvent where
  "sample_event = \<lparr>Ev_AggregateType = ''risk_signal'', Ev_AggregateID = ''s1'', Ev_ActorType = ''user'', Ev_ActorID = ''u2'',
     Ev_ActorDisplayName = ''Bob'', Ev_Action = ''signal.commented'', Ev_OccurredAt = 900, Ev_Before = '''', Ev_After = ''rprivate'',
     Ev_CorrelationID = ''c''\<rparr>"

definition sample_clock :: SlaClockRow where
  "sample_clock = \<lparr>SCR_ID = ''k1'', SCR_SignalID = ''s1'', SCR_Target = SLATargetAssessment, SCR_StartedAt = 1000, SCR_DeadlineAt = 2000,
     SCR_FulfilledAt = Some 1000, SCR_PausedSeconds = 0, SCR_PausedAt = None\<rparr>"

definition sample_run_row :: "string \<Rightarrow> RetentionRunStatus \<Rightarrow> RetentionRunRow" where
  "sample_run_row uid status = \<lparr>RR_ID = uid, RR_PolicyID = RetentionPolicyClosedSignals, RR_Stage = RetentionStageDelete, RR_Cutoff = sample_cutoff,
     RR_PartitionKey = ''2021-01'', RR_Status = status, RR_DryRun = None,
     RR_ApprovedBy = (if status = RetentionStatusDryRun then None else Some ''u1''),
     RR_ApprovedAt = (if status = RetentionStatusDryRun then None else Some 2000),
     RR_ApprovalReason = (if status = RetentionStatusDryRun then None else Some ''ticket''), RR_StartedAt = None, RR_FinishedAt = None,
     RR_PseudonymisedCount = 0, RR_DeletedCount = 0, RR_FailedCount = 0, RR_LastError = None\<rparr>"

definition sample_rdb :: Rdb where
  "sample_rdb = \<lparr>rd_db = sample_db\<lparr>db_signals := [sample_closed, sample_open], db_clocks := [sample_clock],
       db_comments := [\<lparr>Com_ID = ''c1'', Com_SignalID = ''s1'', Com_ActorID = ''u2'', Com_Body = ''private''\<rparr>],
       db_audit := [sample_event], db_roles := [(''u1'', ''administrator''), (''u1'', ''product_owner'')]\<rparr>,
     rd_runs = [sample_run_row ''r1'' RetentionStatusDryRun, sample_run_row ''r2'' RetentionStatusApproved],
     rd_holds = [], rd_notifications = [\<lparr>NR_ID = ''n1'', NR_SignalID = ''s1''\<rparr>]\<rparr>"

definition sample_held :: Rdb where
  "sample_held = sample_rdb\<lparr>rd_holds := [\<lparr>LH_ID = ''h1'', LH_AggregateType = ''risk_signal'', LH_AggregateID = ''s1'',
     LH_Reason = ''litigation'', LH_ActorID = ''u1'', LH_CreatedAt = 500, LH_ReleasedAt = None\<rparr>]\<rparr>"

definition sample_execute :: ExecuteRetentionInput where
  "sample_execute = \<lparr>ER_RunID = ''r2'', ER_BatchSize = 1, ER_Actor = sample_actor, ER_CorrelationID = ''c''\<rparr>"

definition sample_approve :: ApproveRetentionRunInput where
  "sample_approve = \<lparr>AR_RunID = ''r1'', AR_Reason = ''ticket'', AR_Reject = False, AR_Actor = sample_actor, AR_CorrelationID = ''c''\<rparr>"

definition sample_proposal :: RunRetentionDryRunInput where
  "sample_proposal = \<lparr>DR_PolicyID = '''', DR_Stage = OtherRetentionStage '''', DR_Cutoff = None, DR_PartitionKey = '''', DR_Actor = sample_actor\<rparr>"

definition sample_redaction :: PseudonymizeIdentityInput where
  "sample_redaction = \<lparr>PI_UserID = ''u2'', PI_DryRun = False, PI_Reason = ''ticket'', PI_Actor = sample_actor, PI_CorrelationID = ''c''\<rparr>"

lemma sample_jsonb_ok: "jsonb_ok sample_jsonb"
  by (auto simp: jsonb_ok_def sample_jsonb_def sample_decode_def with_reason_def split: list.splits if_splits)

lemma sample_retention_simps [simp]:
  "rt_sv sample_retention = sample_service" "rt_jsonb sample_retention = sample_jsonb"
  "sv_uuid sample_service s = (if s = '''' then None else Some s)" "encodes_all sample_service"
  by (simp_all add: sample_retention_def sample_service_def encodes_all_def)

lemma sample_ids: "q \<in> set (db_signals (rd_db sample_rdb)) \<Longrightarrow> sv_uuid sample_service (SR_ID q) = Some (SR_ID q)"
  by (auto simp: sample_rdb_def sample_closed_def sample_open_def sample_signal_def)

lemma sample_refs: "refs_ok sample_rdb"
  by code_simp

lemma sample_runs: "runs_ok (rd_runs sample_rdb)"
  by code_simp

lemma sample_due: "due_ids sample_cutoff sample_rdb = {''s1''}"
  by code_simp

lemma sample_row: "row_at RR_ID ''r2'' (rd_runs sample_rdb) = Some (sample_run_row ''r2'' RetentionStatusApproved)"
  by (simp add: row_at_def sample_rdb_def sample_run_row_def)

lemma sample_execute_ok: "ExecuteRetention_check sample_retention sample_execute sample_rdb = Ok sample_actor"
  by code_simp

section \<open>The properties at the samples\<close>

lemma deletion_order_is_safe_witness:
  "deleteSignalInSafeOrder (sv_uuid sample_service) ''s1'' sample_rdb = Ok ((), erase_signals (sv_uuid sample_service) {''s1''} sample_rdb) \<and>
   RetentionRepo_DeleteSignal (sv_uuid sample_service) ''s1'' sample_rdb = Validationf ''retention.delete_signal''"
proof -
  have "sv_uuid sample_service ''s1'' = Some ''s1''" by simp
  moreover have "''s1'' \<in> SR_ID ` set (db_signals (rd_db sample_rdb)) \<and> refers_to_signal ''s1'' sample_rdb" by code_simp
  ultimately show ?thesis using deletion_order_is_safe [OF sample_refs, of "sv_uuid sample_service" "''s1''" "''s1''"] by simp
qed

lemma execution_erases_the_due_witness:
  "\<exists>res db'. ExecuteRetention sample_retention sample_retention_env (\<lambda>_ d. d) sample_execute sample_rdb sample_rdb = (Ok res, db') \<and>
     ERR_Deleted res = 1 \<and> db_signals (rd_db db') = [sample_open]"
proof -
  have cutoff: "RR_Cutoff (sample_run_row ''r2'' RetentionStatusApproved) = sample_cutoff"
    and rest: "RR_Status (sample_run_row ''r2'' RetentionStatusApproved) = RetentionStatusApproved"
      "RR_Stage (sample_run_row ''r2'' RetentionStatusApproved) = RetentionStageDelete"
    by (simp_all add: sample_run_row_def)
  have id: "sv_uuid (rt_sv sample_retention) (ER_RunID sample_execute) = Some ''r2''" by (simp add: sample_execute_def)
  have gone: "db_signals (rd_db (erase_signals (rt_uuid sample_retention) {''s1''} sample_rdb)) = [sample_open]"
    by (simp add: erase_signals_def Let_def sample_rdb_def sample_closed_def sample_open_def sample_signal_def)
  have d: "distinct (map RR_ID (rd_runs sample_rdb))" using sample_runs by (simp add: runs_ok_def)
  obtain res db' evs where e: "ExecuteRetention sample_retention sample_retention_env (\<lambda>_ d. d) sample_execute sample_rdb sample_rdb = (Ok res, db')"
    "ERR_Deleted res = int (card (due_ids sample_cutoff sample_rdb))"
    "rd_db db' = rd_db (with_events evs (erase_signals (rt_uuid sample_retention) (due_ids sample_cutoff sample_rdb) sample_rdb))"
    using execution_erases_the_due [where re = sample_retention_env, OF sample_execute_ok id _ sample_row rest sample_refs d]
      sample_canonical sample_ids
    unfolding cutoff sample_due by (auto simp: max_int32_def)
  then show ?thesis using gone by (auto simp: sample_due)
qed

lemma held_records_are_preserved_witness:
  "sample_closed \<in> set (db_signals (rd_db (snd (ExecuteRetention sample_retention sample_retention_env (\<lambda>_ d. d) sample_execute sample_held sample_held))))"
proof -
  have h: "held ''s1'' sample_held" by code_simp
  have r: "respects_hold (rt_uuid sample_retention) ''s1'' (\<lambda>d. d)" by (simp add: respects_hold_def)
  have "filter (\<lambda>r. SR_ID r = ''s1'') (db_signals (rd_db sample_held)) = [sample_closed]"
    by (simp add: sample_held_def sample_rdb_def sample_closed_def sample_open_def sample_signal_def)
  moreover have "filter (\<lambda>r. SR_ID r = ''s1'') (db_signals (rd_db (snd (ExecuteRetention sample_retention sample_retention_env (\<lambda>_ d. d) sample_execute sample_held sample_held)))) =
      filter (\<lambda>r. SR_ID r = ''s1'') (db_signals (rd_db sample_held))"
    using held_records_are_preserved [where others = "\<lambda>_ d. d" and rv = sample_retention and re = sample_retention_env and
        inp = sample_execute and seen = sample_held, OF h r] by (simp add: same_record_def)
  ultimately have "sample_closed \<in> set (filter (\<lambda>r. SR_ID r = ''s1'') (db_signals (rd_db (snd (ExecuteRetention sample_retention sample_retention_env (\<lambda>_ d. d) sample_execute sample_held sample_held)))))"
    by simp
  then show ?thesis by simp
qed

definition sample_started :: Rdb where
  "sample_started = snd (runTx (RetentionRepo_StartRun (rt_uuid sample_retention) ''r2'' sample_now) sample_rdb)"

lemma sample_start: "\<exists>run. RetentionRepo_StartRun (rt_uuid sample_retention) ''r2'' sample_now sample_rdb = Ok (run, sample_started)"
proof -
  have "is_ok (RetentionRepo_StartRun (rt_uuid sample_retention) ''r2'' sample_now sample_rdb)" by code_simp
  then show ?thesis by (auto simp: is_ok_iff sample_started_def runTx_def)
qed

lemma run_lifecycle_witness:
  "\<exists>r'. row_at RR_ID ''r2'' (rd_runs sample_started) = Some r' \<and> run_row_ok r' \<and> RR_Cutoff r' = sample_cutoff"
proof -
  obtain run where "RetentionRepo_StartRun (rt_uuid sample_retention) ''r2'' sample_now sample_rdb = Ok (run, sample_started)"
    using sample_start by blast
  then have "retention_history sample_retention sample_rdb sample_started" by (intro r_into_rtranclp retention_step.claim)
  from run_lifecycle [OF sample_runs this sample_row] obtain r' where r': "row_at RR_ID ''r2'' (rd_runs sample_started) = Some r'"
    "run_next\<^sup>*\<^sup>* (sample_run_row ''r2'' RetentionStatusApproved) r'" "run_row_ok r'" by blast
  have "run_next\<^sup>*\<^sup>* r q \<Longrightarrow> RR_Cutoff q = RR_Cutoff r" for r q
    by (induction rule: rtranclp_induct) (simp_all add: run_next_def)
  with r' show ?thesis by (auto simp: sample_run_row_def)
qed

lemma run_executes_once_witness:
  "\<exists>e. ExecuteRetention sample_retention sample_retention_env (\<lambda>_ d. d) sample_execute sample_rdb sample_started = (Err e, sample_started)"
proof -
  obtain run where s: "RetentionRepo_StartRun (rt_uuid sample_retention) ''r2'' sample_now sample_rdb = Ok (run, sample_started)"
    using sample_start by blast
  show ?thesis
    by (rule run_executes_once [OF sample_runs s]) (simp_all add: sample_execute_def)
qed


lemma decision_commits_whole_witness:
  "\<exists>res db' job. ApproveRetentionRun sample_retention sample_retention_env sample_approve sample_rdb sample_rdb = (Ok res, db') \<and>
     db_outbox (rd_db db') = [job] \<and> Ob_Type job = EventTypeRetentionExecute"
proof -
  have "is_ok (fst (ApproveRetentionRun sample_retention sample_retention_env sample_approve sample_rdb sample_rdb))" by code_simp
  then obtain res db' where r: "ApproveRetentionRun sample_retention sample_retention_env sample_approve sample_rdb sample_rdb = (Ok res, db')"
    by (metis is_ok_iff prod.collapse)
  have d: "distinct (map RR_ID (rd_runs sample_rdb))" using sample_runs by (simp add: runs_ok_def)
  have c: "canonical (rt_uuid sample_retention)" using sample_canonical by simp
  have "db_outbox (rd_db sample_rdb) = []" "\<not> AR_Reject sample_approve" by (simp_all add: sample_rdb_def sample_db_def sample_approve_def)
  then show ?thesis using decision_commits_whole [OF r c d] r by auto
qed


end
