(* ===== verification/Spec2Isabelle.thy ===== *)
theory Spec2Isabelle
  imports Authz Signal Sla QuarantineMachine Prefilter PriorityRules AuditVerify Outbox SignalInvariant
    RetentionWitness
begin

text \<open>
  Verification of risksignal: which vulnerability concerns which inventory component, how urgent
  that is, who may do what about it, and how the record of it is kept.

  The program. An inventory of assets and components (internal/domain) and the affected-product
  statements of the vulnerability sources meet in the matching engine
  (internal/application/matching): a pre-filter picks candidate components over the normalised
  names (internal/application/candidate_prefilter.go, normalise/), the evaluator relates product
  identity and version and derives method, confidence and score, decision rules adjust the
  outcome, and the priority ruleset ranks it. A match raises a risk signal with a status machine, an
  override and SLA clocks. Commands are authorised against a role matrix, leave hash-chained audit rows
  (internal/adapters/postgres/repo/audit_chain.go) and append jobs to a transactional outbox that a
  relay drains (internal/adapters/worker/relay.go).

  Theories and sources.
    Prelude: results, early returns, Go strings, 64-bit integers, time; no part of the program.
    Vocabulary: the closed enumerations of internal/domain, with the locale \<open>vocabulary\<close> that each interprets.
    Float64: the binary64 operations the program uses, with rounding to nearest even.
    Authz: authz.go, identity.go, role.go, permission.go, scope.go.
    PriorityRules: priority_rules.go, predicate.go. Signal: risksignal.go, status.go. Sla: sla.go.
    MatchMapping: mapping.go, match.go, rules.go. QuarantineMachine: quarantine.go.
    Inventory: asset.go, component.go, naturalkey.go, neutralize.go, vulnerability.go, evidence.go.
    Similarity: similarity.go. VersionOrder, VersionSemver, VersionDpkg, VersionRpm, VersionMaven,
    VersionStrategy: version_strategy.go, with the locale of a comparison that every scheme interprets.
    NormaliseId, NormaliseImage, NormaliseRules: application/normalise.
    Matching, MatchEvaluate: application/matching. Prefilter: candidate_prefilter.go.
    AuditNumber, AuditChain, AuditVerify: audit_chain.go, audit.go, audit_events.sql.go.
    Outbox: errors.go, outbox.sql.go, outbox.go, outboxrelay.go, relay.go, with the locale \<open>outbox_store\<close>
    between the relay and its table.
    PgStore: repo/dbmap.go, postgres/tx.go: classes of failures, columns, transactions as state passing
    that keeps the database unless the body succeeds, and the locale \<open>guarded_update\<close> of an UPDATE with a guard
    over a keyed table, which every such statement on clocks and signals interprets.
    SlaStore: gen/sla_clocks.sql.go, repo/slaclock.go. SignalStore: gen/risk_signals.sql.go, repo/signal.go,
    signaltriage.go, comment.go, user.go, and the record \<open>Db\<close> of the tables the commands use.
    Triage: application/authz.go and the helpers of signal_triage.go (snapshots, audit, outbox, clock treatment).
    SignalCommands: the commands of signal_triage.go and create_signal.go, each a \<open>_check\<close> (before the
    transaction) and a \<open>_body\<close> (inside it). SignalHistory: what every command does, over the datatype \<open>signal_command\<close>.
    ClockTreatment: the clocks after an override, a creation, a reopening. SlaEvaluate: sla_evaluate.go.
    Recompute: priority_recompute.go, repo/priorityrule.go, repo/priorityfactor.go, gen/priority_rules.sql.go.
    SignalInvariant: histories of all these steps and of the relay, over stale reads.
    Calendar: the proleptic Gregorian calendar, RFC 3339 and month printing and AddDate of the standard library.
    RetentionStore: gen/retention.sql.go, repo/retention.go and the models of retention_ports.go, with the record \<open>Rdb\<close>
    of the tables the retention uses. Retention: the commands of retention_dry_run.go, retention_approve.go,
    retention_execute.go, retention_read.go, legal_hold.go, pseudonymize_identity.go and the snapshots of
    retention_audit.go. RetentionEffects: what a redaction (locale \<open>redaction\<close>), a deletion and a batch do.
    RetentionExecution: whole executions and holds. RetentionRuns: histories of the table of runs.
    RetentionGovernance: proposals, decisions, pseudonymisation of an identity. RetentionWitness: one small database on
    which the properties of the retention are applied.

  How a command runs. The code reads signals, users and roles from the pool before it opens its transaction, so
  a command takes two databases: \<open>seen\<close>, at its reads, and \<open>db\<close>, at its transaction; nothing relates the two unless
  a property says so. The instant and the identifiers it draws are the record \<open>Env\<close>. An execution of the retention is
  a claim, a transaction per batch and an end; what other commands commit between them is the argument \<open>others\<close>.

  Parameters, for code that is not in the repository: \<open>unicode\<close> (NFKC and lower-casing), \<open>codec\<close> (SHA-256,
  RFC 3339 printing, the JSON decoder and encoder), the handlers of the relay and the rows other
  workers hold; \<open>Service\<close> (UUID parsing, JSON encoding, SHA-256, the SLA profile and cadence of the configuration), the
  reads that rebuild factors (\<open>factor_reads\<close>, \<open>factor_json\<close>), the \<open>jsonb\<close> parser and printer of PostgreSQL and
  the text of an error (\<open>RetentionService\<close>). Instants are counted in UTC. Where a property needs something of them, it is a hypothesis that states
  documented behaviour, and a witness meets it.

  What the lemmas show. Decisions are characterised exactly (authorisation, priority, version relation,
  evaluation, pre-filter, chain verification), state machines by invariants over every history
  (signals, clocks, quarantine, outbox), parsers by round trips with a printer, comparisons as
  antisymmetric and, where they are, as linear preorders, the audit chain as a detector of edits and removals. A command is
  authorised and commits whole or not at all, two writers of one version exclude each other, clocks follow every
  change of priority and state, escalations and recomputations happen once, the statements on clocks
  refine the domain's operations, a retention run is executed at most once, after an approval, and erases exactly
  what is due and not held in an order the foreign keys allow, a held record survives whatever runs, and on every history the tables stay in order and a command that expects the version
  it read writes the row it checked.

  Bounds. Token counts below 2^53 keep the similarity score exact; number literals are bounded
  by 2^48 characters and exponents by 2^62, far above what memory holds, so that the 64-bit arithmetic of
  the number form does not wrap. Nothing uses fuel: every loop is structural or has a measure.

  What modelling showed. An audit trail is forked by an event with a late clock or by two events of one
  instant, and broken by the pseudonymisation of a signal (AuditVerify); a number literal reaches
  a panic (AuditNumber); dpkg comparison is not transitive (VersionDpkg); registry case and sibling aliases lose
  matches (Matching, Prefilter); an error without text blocks a drain (Outbox); keys are not
  idempotent and collide with NUL bytes (NormaliseId, Inventory); acknowledging reopens a closed signal without a
  reason (ClockTreatment); a command that expects a version later than the one it read escapes its own checks
  (SignalInvariant); a reverted override may leave a signal that cannot be reopened (Recompute); the
  statements on clocks round a pause and fulfil a paused clock where the domain does not (SlaStore); the key of a
  retention job omits the stage, so a second run of one plan cannot be approved (RetentionGovernance); a run that fails
  forgets what it deleted and a run whose worker dies stays claimed for ever (RetentionRuns); a signal reopened
  between the scan and its batch is deleted (RetentionEffects).

  Not modelled. The other commands (inventory import, matching runs, sources and their schedule, exports,
  user administration) are transactions of the shape modelled here, over other tables; the HTTP and web
  adapters, the OIDC login, the feed adapters, the platform packages and the entry points are input and
  output around the parts above. Generated queries are modelled where their SQL carries the semantics
  of a modelled part, and only there; a table is a list of rows, and two transactions do not interleave
  inside: each sees what was committed before it.
\<close>

end
